(* ===== verification/Prelude.thy ===== *)
theory Prelude
  imports Main "HOL-Library.Word"
begin

text \<open>
  What every component shares: the machine-integer types of the source, its saturating,
  checked and truncating operations, the fallible slice read, results as sums, and base-3
  digits with the lemmas the word theories need.

  Bytes are \<open>8 word\<close>s. The unsigned types \<open>u16\<close>, \<open>u32\<close> and \<open>u64\<close> are natural numbers
  and the source's saturating and checked operations carry their limit as an argument, so
  every place where the source saturates or fails is visible; the theorems then show the
  limit is never reached on valid states. \<open>usize\<close> counts elements of vectors that are in
  memory, which never reach its maximum, so its saturating sums are plain sums.
\<close>

type_synonym u8 = "8 word"
type_synonym u16 = nat
type_synonym u32 = nat
type_synonym u64 = nat
type_synonym usize = nat

named_theorems wf_intro \<open>well-formedness of the results of the operations\<close>
named_theorems word_simps \<open>in-domain equations of the word operations\<close>

subsection \<open>Results\<close>

abbreviation Err :: "'e \<Rightarrow> 'e + 'a" where "Err \<equiv> Inl"
abbreviation Ok :: "'a \<Rightarrow> 'e + 'a" where "Ok \<equiv> Inr"

fun map_err :: "('e \<Rightarrow> 'f) \<Rightarrow> 'e + 'a \<Rightarrow> 'f + 'a" where
  "map_err f (Inl e) = Inl (f e)"
| "map_err f (Inr x) = Inr x"

fun map_ok :: "('a \<Rightarrow> 'b) \<Rightarrow> 'e + 'a \<Rightarrow> 'e + 'b" where
  "map_ok f (Inl e) = Inl e"
| "map_ok f (Inr x) = Inr (f x)"

definition ok_or :: "'e \<Rightarrow> 'a option \<Rightarrow> 'e + 'a" where
  "ok_or e x = (case x of None \<Rightarrow> Inl e | Some v \<Rightarrow> Inr v)"

lemma ok_or_simps [simp]: "ok_or e None = Inl e" "ok_or e (Some v) = Inr v"
  by (simp_all add: ok_or_def)

lemma ok_or_Inr_iff [simp]: "ok_or e x = Inr v \<longleftrightarrow> x = Some v"
  by (cases x) auto

lemma ok_or_Inl_iff [simp]: "ok_or e x = Inl e' \<longleftrightarrow> x = None \<and> e' = e"
  by (cases x) auto

lemma map_err_Inr_iff [simp]: "map_err f r = Inr x \<longleftrightarrow> r = Inr x"
  by (cases r) auto

lemma map_err_Inl_iff [simp]: "map_err f r = Inl e' \<longleftrightarrow> (\<exists>e. r = Inl e \<and> e' = f e)"
  by (cases r) auto

lemma map_ok_Inr_iff [simp]: "map_ok f r = Inr y \<longleftrightarrow> (\<exists>x. r = Inr x \<and> y = f x)"
  by (cases r) auto

lemma map_ok_Inl_iff [simp]: "map_ok f r = Inl e \<longleftrightarrow> r = Inl e"
  by (cases r) auto

lemma map_ok_eq_sym [simp]:
  "Inr y = map_ok f r \<longleftrightarrow> (\<exists>x. r = Inr x \<and> y = f x)" "Inl e = map_ok f r \<longleftrightarrow> r = Inl e"
  by (cases r; auto)+

lemma map_ok_map_ok: "map_ok f (map_ok g r) = map_ok (\<lambda>x. f (g x)) r"
  by (cases r) auto

lemma map_ok_ident [simp]: "map_ok (\<lambda>x. x) r = r"
  by (cases r) auto

subsection \<open>Saturating and checked arithmetic\<close>

definition U16_MAX :: nat where "U16_MAX = 65535"
definition U32_MAX :: nat where "U32_MAX = 4294967295"
definition U64_MAX :: nat where "U64_MAX = 18446744073709551615"

definition sat_add :: "nat \<Rightarrow> nat \<Rightarrow> nat \<Rightarrow> nat" where
  "sat_add m a b = min (a + b) m"

definition sat_mul :: "nat \<Rightarrow> nat \<Rightarrow> nat \<Rightarrow> nat" where
  "sat_mul m a b = min (a * b) m"

definition checked_add :: "nat \<Rightarrow> nat \<Rightarrow> nat \<Rightarrow> nat option" where
  "checked_add m a b = (if a + b \<le> m then Some (a + b) else None)"

definition checked_mul :: "nat \<Rightarrow> nat \<Rightarrow> nat \<Rightarrow> nat option" where
  "checked_mul m a b = (if a * b \<le> m then Some (a * b) else None)"

definition checked_sub :: "nat \<Rightarrow> nat \<Rightarrow> nat option" where
  "checked_sub a b = (if b \<le> a then Some (a - b) else None)"

text \<open>\<open>u8::try_from(v).ok().unwrap_or(0)\<close>, on a value kept as a number.\<close>

definition try_u8_or_0 :: "nat \<Rightarrow> nat" where
  "try_u8_or_0 v = (if v < 256 then v else 0)"

lemma sat_add_exact [simp]: "a + b \<le> m \<Longrightarrow> sat_add m a b = a + b"
  by (simp add: sat_add_def)

lemma sat_mul_exact [simp]: "a * b \<le> m \<Longrightarrow> sat_mul m a b = a * b"
  by (simp add: sat_mul_def)

lemma checked_Some:
  "checked_add m a b = Some c \<longleftrightarrow> a + b \<le> m \<and> c = a + b"
  "checked_mul m a b = Some c \<longleftrightarrow> a * b \<le> m \<and> c = a * b"
  by (auto simp: checked_add_def checked_mul_def)

lemma try_u8_or_0_exact [simp]: "v < 256 \<Longrightarrow> try_u8_or_0 v = v"
  by (simp add: try_u8_or_0_def)

subsection \<open>Slices\<close>

text \<open>\<open>slice.get(i).copied()\<close>: out of range is \<open>None\<close>, never an unspecified value.\<close>

definition get :: "'a list \<Rightarrow> nat \<Rightarrow> 'a option" where
  "get xs i = (if i < length xs then Some (xs ! i) else None)"

lemma get_Some_iff: "get xs i = Some x \<longleftrightarrow> i < length xs \<and> xs ! i = x"
  by (auto simp: get_def)

lemma get_None_iff [simp]: "get xs i = None \<longleftrightarrow> length xs \<le> i"
  by (auto simp: get_def)

lemma get_lt [simp]: "i < length xs \<Longrightarrow> get xs i = Some (xs ! i)"
  by (simp add: get_def)

lemma get_ge [simp]: "length xs \<le> i \<Longrightarrow> get xs i = None"
  by (simp add: get_def)

lemma get_update: "get (xs[i := v]) j = (if i < length xs \<and> j = i then Some v else get xs j)"
  by (auto simp: get_def)

lemma get_in_set: "get xs i = Some x \<Longrightarrow> x \<in> set xs"
  by (auto simp: get_Some_iff)

lemma get_append_left [simp]: "i < length xs \<Longrightarrow> get (xs @ ys) i = Some (xs ! i)"
  by (simp add: get_def nth_append)

lemma get_snoc [simp]: "get (xs @ [x]) (length xs) = Some x"
  by (simp add: get_def)

lemma get_map: "get (map f xs) i = map_option f (get xs i)"
  by (auto simp: get_def)

lemma get_Nil [simp]: "get [] i = None"
  by (simp add: get_def)

lemma length_concat_blocks:
  "(\<And>k. k < n \<Longrightarrow> length (f k) = m) \<Longrightarrow> length (concat (map f [0..<n])) = n * m"
  by (induction n) auto

lemma nth_concat_blocks:
  assumes "i < n" and "j < m" and "\<And>k. k < n \<Longrightarrow> length (f k) = m"
  shows "concat (map f [0..<n]) ! (i * m + j) = f i ! j"
  using assms
proof (induction n)
  case 0
  then show ?case by simp
next
  case (Suc n)
  have len: "length (concat (map f [0..<n])) = n * m"
    using Suc.prems(3) by (simp add: length_concat_blocks)
  show ?case
  proof (cases "i < n")
    case True
    then have "Suc i * m \<le> n * m" by (intro mult_le_mono1) simp
    then have "i * m + j < n * m" using Suc.prems(2) by simp
    then show ?thesis using Suc True len by (simp add: nth_append)
  next
    case False
    then have "i = n" using Suc.prems(1) by simp
    then show ?thesis using len by (simp add: nth_append)
  qed
qed

subsection \<open>Base-3 digits\<close>

definition trit :: "nat \<Rightarrow> nat \<Rightarrow> nat" where
  "trit k n = n div 3 ^ k mod 3"

lemma trit_0 [simp]: "trit 0 n = n mod 3"
  by (simp add: trit_def)

lemma trit_Suc: "trit (Suc k) n = trit k (n div 3)"
  by (simp add: trit_def div_mult2_eq)

lemma trit_lt [simp]: "trit k n < 3"
  by (simp add: trit_def)

lemma trit_ge: "n < 3 ^ m \<Longrightarrow> m \<le> k \<Longrightarrow> trit k n = 0"
proof -
  assume "n < 3 ^ m" and "m \<le> k"
  then have "n < 3 ^ k" by (meson le_less_trans less_le_trans one_le_numeral power_increasing
        order_less_imp_le)
  then show ?thesis by (simp add: trit_def)
qed

lemma div3_lt_power: "n < 3 ^ Suc m \<Longrightarrow> n div 3 < (3::nat) ^ m"
  by (simp add: less_mult_imp_div_less mult.commute)

lemma trit_eqI:
  assumes "a < 3 ^ n" and "b < 3 ^ n" and "\<And>k. k < n \<Longrightarrow> trit k a = trit k b"
  shows "a = b"
  using assms
proof (induction n arbitrary: a b)
  case 0
  then show ?case by simp
next
  case (Suc n)
  have "a mod 3 = b mod 3" using Suc.prems(3)[of 0] by simp
  moreover have "a div 3 = b div 3"
  proof (rule Suc.IH)
    show "a div 3 < 3 ^ n" "b div 3 < 3 ^ n" using Suc.prems by (simp_all add: div3_lt_power)
    show "trit k (a div 3) = trit k (b div 3)" if "k < n" for k
      using Suc.prems(3)[of "Suc k"] that by (simp add: trit_Suc)
  qed
  ultimately show ?case by (metis div_mult_mod_eq)
qed

lemma trit_mod: "k < n \<Longrightarrow> trit k (a mod 3 ^ n) = trit k a"
proof -
  assume "k < n"
  then have "(3::nat) ^ n = 3 ^ k * 3 ^ (n - k)" by (simp flip: power_add)
  moreover have "(3::nat) dvd 3 ^ (n - k)" using \<open>k < n\<close> by (simp add: dvd_power)
  ultimately show ?thesis
    by (simp add: trit_def mod_mult2_eq mod_mod_cancel)
qed

lemma trit_div: "trit k (a div 3 ^ m) = trit (m + k) a"
  by (simp add: trit_def power_add div_mult2_eq)

lemma le_mult_pow3 [simp]: "v \<le> v * 3 ^ n" for v :: nat
  by simp

lemma mult_pow3_leD: "v * 3 ^ n \<le> m \<Longrightarrow> v \<le> m" for v :: nat
  using le_mult_pow3 le_trans by blast

lemma mod_pow3_lt: "(3::nat) ^ c \<le> m \<Longrightarrow> x mod 3 ^ c < m"
  by (rule less_le_trans[OF mod_less_divisor]) simp_all

lemma unat_u8_lt [simp]: "unat (b :: u8) < 256"
  using unsigned_less[of b, where ?'a = nat] by simp

lemma unat_u8_le [simp]: "unat (b :: u8) \<le> 255"
  using unat_u8_lt[of b] by linarith

lemma of_nat_mod_256 [simp]: "(of_nat (n mod 256) :: u8) = of_nat n"
  by (simp add: word_unat_eq_iff unat_of_nat)

lemma pow3_le_mono: "m \<le> n \<Longrightarrow> (3::nat) ^ m \<le> 3 ^ n"
  by simp

end
