(* ===== verification/Words.thy ===== *)
theory Words
  imports Prelude
begin

text \<open>
  \<open>contract/word.rs\<close> and the table generator \<open>composition/build.rs\<close> of the virtual machine:
  classic ten-trit words, the rotate and crazy operations with their lookup tables, and the
  width-parametric \<open>profile_*\<close> helpers. The reference semantics \<open>crazy_digits\<close> applies the
  normative trit table digit by digit; every optimised routine is shown equal to it.
\<close>

subsection \<open>Constants and the scalar routines\<close>

definition MEMORY_WORDS :: usize where "MEMORY_WORDS = 59049"
definition MAX_WORD_VALUE :: u16 where "MAX_WORD_VALUE = 59048"
definition CRAZY_CHUNK_TRITS :: nat where "CRAZY_CHUNK_TRITS = 5"
definition CHUNK_VALUES :: u16 where "CHUNK_VALUES = 243"
definition ROTATE_HIGH_TRIT_WEIGHT :: u16 where "ROTATE_HIGH_TRIT_WEIGHT = 19683"
definition OUTPUT_MODULUS :: u32 where "OUTPUT_MODULUS = 256"
definition TERNARY_RADIX :: u32 where "TERNARY_RADIX = 3"

definition crazy_trit :: "u16 \<Rightarrow> u16 \<Rightarrow> u16" where
  "crazy_trit data accumulator =
    (if ((data = 0 \<or> data = 1) \<and> accumulator = 0) \<or> (data = 2 \<and> accumulator = 2) then 1
     else if (data = 1 \<and> accumulator = 2) \<or> (data = 2 \<and> (accumulator = 0 \<or> accumulator = 1)) then 2
     else 0)"

text \<open>The loop of \<open>crazy_chunk_scalar\<close>: the first argument counts the iterations left.\<close>

fun crazy_chunk_loop :: "nat \<Rightarrow> u16 \<Rightarrow> u16 \<Rightarrow> u16 \<Rightarrow> u16 \<Rightarrow> u16" where
  "crazy_chunk_loop 0 data accumulator result place = result"
| "crazy_chunk_loop (Suc n) data accumulator result place =
    crazy_chunk_loop n (data div 3) (accumulator div 3)
      (sat_add U16_MAX result
        (sat_mul U16_MAX (crazy_trit (data mod 3) (accumulator mod 3)) place))
      (sat_mul U16_MAX place 3)"

definition crazy_chunk_scalar :: "u16 \<Rightarrow> u16 \<Rightarrow> u16" where
  "crazy_chunk_scalar data accumulator = crazy_chunk_loop CRAZY_CHUNK_TRITS data accumulator 0 1"

definition rotate_scalar :: "u16 \<Rightarrow> u16" where
  "rotate_scalar v =
    sat_add U16_MAX (v div 3) (sat_mul U16_MAX (v mod 3) ROTATE_HIGH_TRIT_WEIGHT)"

subsection \<open>The tables the build generates\<close>

text \<open>
  \<open>build.rs\<close> has its own copies of the three scalar routines and writes the two tables from
  them; \<open>word.rs\<close> includes the written tables. The tables are the lists the generator writes.
\<close>

definition build_crazy_trit :: "u16 \<Rightarrow> u16 \<Rightarrow> u16" where
  "build_crazy_trit data accumulator =
    (if ((data = 0 \<or> data = 1) \<and> accumulator = 0) \<or> (data = 2 \<and> accumulator = 2) then 1
     else if (data = 1 \<and> accumulator = 2) \<or> (data = 2 \<and> (accumulator = 0 \<or> accumulator = 1)) then 2
     else 0)"

fun build_crazy_chunk_loop :: "nat \<Rightarrow> u16 \<Rightarrow> u16 \<Rightarrow> u16 \<Rightarrow> u16 \<Rightarrow> u16" where
  "build_crazy_chunk_loop 0 data accumulator result place = result"
| "build_crazy_chunk_loop (Suc n) data accumulator result place =
    build_crazy_chunk_loop n (data div 3) (accumulator div 3)
      (sat_add U16_MAX result
        (sat_mul U16_MAX (build_crazy_trit (data mod 3) (accumulator mod 3)) place))
      (sat_mul U16_MAX place 3)"

definition build_crazy_chunk_scalar :: "u16 \<Rightarrow> u16 \<Rightarrow> u16" where
  "build_crazy_chunk_scalar data accumulator = build_crazy_chunk_loop 5 data accumulator 0 1"

definition build_rotate_scalar :: "u16 \<Rightarrow> u16" where
  "build_rotate_scalar v = sat_add U16_MAX (v div 3) (sat_mul U16_MAX (v mod 3) 19683)"

definition CRAZY_CHUNK_TABLE :: "u16 list" where
  "CRAZY_CHUNK_TABLE = concat (map (\<lambda>data.
      map (\<lambda>accumulator. build_crazy_chunk_scalar data accumulator) [0..<243]) [0..<243])"

definition ROTATE_TABLE :: "u16 list" where
  "ROTATE_TABLE = map build_rotate_scalar [0..<59049]"

subsection \<open>Table lookups\<close>

definition crazy_chunk_lookup :: "u16 \<Rightarrow> u16 \<Rightarrow> u16" where
  "crazy_chunk_lookup data accumulator =
    (case get CRAZY_CHUNK_TABLE (data * CHUNK_VALUES + accumulator) of
      Some v \<Rightarrow> v
    | None \<Rightarrow> crazy_chunk_scalar data accumulator)"

definition crazy_lookup :: "u16 \<Rightarrow> u16 \<Rightarrow> u16" where
  "crazy_lookup data accumulator =
    (let low_data = data mod CHUNK_VALUES;
         low_accumulator = accumulator mod CHUNK_VALUES;
         high_data = data div CHUNK_VALUES;
         high_accumulator = accumulator div CHUNK_VALUES;
         low = crazy_chunk_lookup low_data low_accumulator;
         high = crazy_chunk_lookup high_data high_accumulator
     in sat_add U16_MAX low (sat_mul U16_MAX high CHUNK_VALUES))"

definition rotate_lookup :: "u16 \<Rightarrow> u16" where
  "rotate_lookup v =
    (case get ROTATE_TABLE v of Some r \<Rightarrow> r | None \<Rightarrow> rotate_scalar v)"

subsection \<open>Classic words\<close>

text \<open>The newtype \<open>Word(u16)\<close>; \<open>wf_word\<close> is the domain \<open>0..=59048\<close> its constructor admits.\<close>

datatype cword = Word (word_value: u16)

datatype WordError = WordError u16

definition wf_word :: "cword \<Rightarrow> bool" where
  "wf_word w \<longleftrightarrow> word_value w \<le> MAX_WORD_VALUE"

definition word_new :: "u16 \<Rightarrow> WordError + cword" where
  "word_new v = (if v \<le> MAX_WORD_VALUE then Ok (Word v) else Err (WordError v))"

definition word_MAX :: cword where "word_MAX = Word MAX_WORD_VALUE"
definition word_ZERO :: cword where "word_ZERO = Word 0"

definition word_crazy :: "cword \<Rightarrow> cword \<Rightarrow> cword" where
  "word_crazy self accumulator = Word (crazy_lookup (word_value self) (word_value accumulator))"

definition word_from_byte :: "u8 \<Rightarrow> cword" where
  "word_from_byte b = Word (unat b)"

definition word_is_graphical :: "cword \<Rightarrow> bool" where
  "word_is_graphical w \<longleftrightarrow> word_value w \<ge> 33 \<and> word_value w \<le> 126"

text \<open>The first little-endian byte of a \<open>u16\<close> is its value modulo 256.\<close>

definition word_low_byte :: "cword \<Rightarrow> u8" where
  "word_low_byte w = of_nat (word_value w mod 256)"

definition word_rotate :: "cword \<Rightarrow> cword" where
  "word_rotate w = Word (rotate_lookup (word_value w))"

definition word_successor :: "cword \<Rightarrow> cword" where
  "word_successor w =
    (if word_value w = MAX_WORD_VALUE then word_ZERO
     else Word (sat_add U16_MAX (word_value w) 1))"

text \<open>The derived order of the newtype is the order of its value.\<close>

instantiation cword :: linorder
begin

definition less_eq_cword :: "cword \<Rightarrow> cword \<Rightarrow> bool" where
  "less_eq_cword a b \<longleftrightarrow> word_value a \<le> word_value b"

definition less_cword :: "cword \<Rightarrow> cword \<Rightarrow> bool" where
  "less_cword a b \<longleftrightarrow> word_value a < word_value b"

instance
  by standard (auto simp: less_eq_cword_def less_cword_def cword.expand)

end

subsection \<open>Profile-width helpers\<close>

fun eof_modulus_loop :: "nat \<Rightarrow> u32 \<Rightarrow> u32 option" where
  "eof_modulus_loop 0 modulus = Some modulus"
| "eof_modulus_loop (Suc n) modulus =
    (case checked_mul U32_MAX modulus TERNARY_RADIX of
      Some v \<Rightarrow> eof_modulus_loop n v
    | None \<Rightarrow> None)"

definition profile_eof_word :: "nat \<Rightarrow> u32 option" where
  "profile_eof_word trits =
    (if trits = 0 then None
     else case eof_modulus_loop trits 1 of
       Some modulus \<Rightarrow> checked_sub modulus 1
     | None \<Rightarrow> None)"

definition profile_low_byte :: "u32 \<Rightarrow> u8" where
  "profile_low_byte v = of_nat (try_u8_or_0 (v mod OUTPUT_MODULUS))"

fun ternary_modulus_loop :: "nat \<Rightarrow> u32 \<Rightarrow> u32" where
  "ternary_modulus_loop 0 v = v"
| "ternary_modulus_loop (Suc n) v = ternary_modulus_loop n (sat_mul U32_MAX v TERNARY_RADIX)"

definition ternary_modulus :: "nat \<Rightarrow> u32" where
  "ternary_modulus trits = ternary_modulus_loop trits 1"

text \<open>\<open>u16::try_from(v).ok().unwrap_or(0)\<close>.\<close>

definition try_u16_or_0 :: "nat \<Rightarrow> u16" where
  "try_u16_or_0 v = (if v \<le> U16_MAX then v else 0)"

function profile_crazy_loop :: "nat \<Rightarrow> u32 \<Rightarrow> u32 \<Rightarrow> u32 \<Rightarrow> u32 \<Rightarrow> u32" where
  "profile_crazy_loop remaining_trits data accumulator place result =
    (if remaining_trits > 0 then
       let chunk_trits = min remaining_trits CRAZY_CHUNK_TRITS;
           chunk_modulus = ternary_modulus chunk_trits;
           data_chunk = try_u16_or_0 (data mod chunk_modulus);
           accumulator_chunk = try_u16_or_0 (accumulator mod chunk_modulus);
           chunk = crazy_chunk_lookup data_chunk accumulator_chunk mod chunk_modulus
       in profile_crazy_loop (remaining_trits - min remaining_trits CRAZY_CHUNK_TRITS)
            (data div chunk_modulus) (accumulator div chunk_modulus)
            (sat_mul U32_MAX place chunk_modulus)
            (sat_add U32_MAX result (sat_mul U32_MAX chunk place))
     else result)"
  by pat_completeness auto
termination
  by (relation "measure fst") (auto simp: CRAZY_CHUNK_TRITS_def)

declare profile_crazy_loop.simps [simp del]

definition profile_crazy :: "u32 \<Rightarrow> u32 \<Rightarrow> nat \<Rightarrow> u32" where
  "profile_crazy data accumulator trits = profile_crazy_loop trits data accumulator 1 0"

subsection \<open>Reference semantics: the crazy operation digit by digit\<close>

fun crazy_digits :: "nat \<Rightarrow> nat \<Rightarrow> nat \<Rightarrow> nat" where
  "crazy_digits 0 d a = 0"
| "crazy_digits (Suc n) d a =
    crazy_trit (d mod 3) (a mod 3) + 3 * crazy_digits n (d div 3) (a div 3)"

lemma crazy_trit_lt [simp]: "crazy_trit d a < 3"
  by (simp add: crazy_trit_def)

lemma crazy_trit_le: "crazy_trit d a \<le> 2"
  by (simp add: crazy_trit_def)

lemma crazy_digits_numeral:
  "crazy_digits (numeral k) d a =
    crazy_trit (d mod 3) (a mod 3) + 3 * crazy_digits (pred_numeral k) (d div 3) (a div 3)"
  unfolding numeral_eq_Suc[of k] by (rule crazy_digits.simps(2))

lemma crazy_digits_lt: "crazy_digits n d a < 3 ^ n"
proof (induction n arbitrary: d a)
  case 0
  then show ?case by simp
next
  case (Suc n)
  show ?case using Suc[of "d div 3" "a div 3"] crazy_trit_le[of "d mod 3" "a mod 3"] by simp
qed

lemma trit_crazy_digits:
  "trit k (crazy_digits n d a) = (if k < n then crazy_trit (trit k d) (trit k a) else 0)"
proof (induction n arbitrary: k d a)
  case 0
  then show ?case by (simp add: trit_def)
next
  case (Suc n)
  show ?case
  proof (cases k)
    case 0
    then show ?thesis by simp
  next
    case (Suc j)
    have "trit k (crazy_digits (Suc n) d a) = trit j (crazy_digits n (d div 3) (a div 3))"
      by (simp add: Suc trit_Suc)
    then show ?thesis using Suc.IH by (simp add: Suc trit_Suc)
  qed
qed

lemma crazy_digits_add:
  "crazy_digits (m + n) d a =
    crazy_digits m d a + 3 ^ m * crazy_digits n (d div 3 ^ m) (a div 3 ^ m)"
  by (induction m arbitrary: d a) (simp_all add: div_mult2_eq algebra_simps)

lemma crazy_digits_mod [simp]:
  "crazy_digits n (d mod 3 ^ n) (a mod 3 ^ n) = crazy_digits n d a"
  by (rule trit_eqI[where n = n]) (simp_all add: crazy_digits_lt trit_crazy_digits trit_mod)

lemma crazy_digits_prefix: "c \<le> n \<Longrightarrow> crazy_digits n d a mod 3 ^ c = crazy_digits c d a"
  by (rule trit_eqI[where n = c]) (simp_all add: crazy_digits_lt trit_crazy_digits trit_mod)

lemma crazy_digits_prefix_mod:
  "c \<le> n \<Longrightarrow> crazy_digits n (d mod 3 ^ c) (a mod 3 ^ c) mod 3 ^ c = crazy_digits c d a"
  by (simp add: crazy_digits_prefix)

subsection \<open>The scalar and table routines compute it\<close>

lemma crazy_chunk_loop_digits:
  "result < place \<Longrightarrow> place * 3 ^ n \<le> U16_MAX \<Longrightarrow>
    crazy_chunk_loop n d a result place = result + place * crazy_digits n d a"
proof (induction n arbitrary: d a result place)
  case 0
  then show ?case by simp
next
  case (Suc n)
  let ?t = "crazy_trit (d mod 3) (a mod 3)"
  have p: "place * 3 * 3 ^ n \<le> U16_MAX" using Suc.prems(2) by (simp add: algebra_simps)
  then have p3: "place * 3 \<le> U16_MAX" by (rule mult_pow3_leD)
  have t: "?t * place \<le> 2 * place" using crazy_trit_le by (rule mult_le_mono1)
  have r: "result + ?t * place < place * 3" using t Suc.prems(1) by linarith
  have "crazy_chunk_loop (Suc n) d a result place =
      crazy_chunk_loop n (d div 3) (a div 3) (result + ?t * place) (place * 3)"
    using r p3 t by simp
  also have "\<dots> = result + ?t * place + place * 3 * crazy_digits n (d div 3) (a div 3)"
    using Suc.IH[OF r p] .
  finally show ?case by (simp add: algebra_simps)
qed

lemma crazy_chunk_scalar_digits: "crazy_chunk_scalar d a = crazy_digits 5 d a"
  by (simp add: crazy_chunk_scalar_def CRAZY_CHUNK_TRITS_def crazy_chunk_loop_digits U16_MAX_def)

lemma build_crazy_trit_eq: "build_crazy_trit = crazy_trit"
  by (intro ext) (simp add: build_crazy_trit_def crazy_trit_def)

lemma build_crazy_chunk_loop_eq: "build_crazy_chunk_loop = crazy_chunk_loop"
proof (intro ext)
  show "build_crazy_chunk_loop n d a r p = crazy_chunk_loop n d a r p" for n d a r p
    by (induction n d a r p rule: build_crazy_chunk_loop.induct)
      (simp_all add: build_crazy_trit_eq)
qed

lemma build_crazy_chunk_scalar_eq: "build_crazy_chunk_scalar = crazy_chunk_scalar"
  by (intro ext) (simp add: build_crazy_chunk_scalar_def crazy_chunk_scalar_def
      CRAZY_CHUNK_TRITS_def build_crazy_chunk_loop_eq)

lemma build_rotate_scalar_eq: "build_rotate_scalar = rotate_scalar"
  by (intro ext) (simp add: build_rotate_scalar_def rotate_scalar_def ROTATE_HIGH_TRIT_WEIGHT_def)

lemma length_CRAZY_CHUNK_TABLE: "length CRAZY_CHUNK_TABLE = MEMORY_WORDS"
  unfolding CRAZY_CHUNK_TABLE_def MEMORY_WORDS_def
  by (subst length_concat_blocks[where m = 243]) simp_all

lemma nth_CRAZY_CHUNK_TABLE:
  assumes "d < 243" and "a < 243"
  shows "CRAZY_CHUNK_TABLE ! (d * 243 + a) = crazy_chunk_scalar d a"
  unfolding CRAZY_CHUNK_TABLE_def
  by (subst nth_concat_blocks) (use assms in \<open>simp_all add: build_crazy_chunk_scalar_eq\<close>)

lemma crazy_chunk_lookup_digits:
  assumes "d < 243" and "a < 243"
  shows "crazy_chunk_lookup d a = crazy_digits 5 d a"
proof -
  have "d * 243 + a < MEMORY_WORDS"
    using assms by (simp add: MEMORY_WORDS_def)
  then show ?thesis
    using assms by (simp add: crazy_chunk_lookup_def CHUNK_VALUES_def length_CRAZY_CHUNK_TABLE
        nth_CRAZY_CHUNK_TABLE crazy_chunk_scalar_digits)
qed

lemma crazy_lookup_digits:
  assumes "d < 59049" and "a < 59049"
  shows "crazy_lookup d a = crazy_digits 10 d a"
proof -
  have hi: "d div 243 < 243" "a div 243 < 243"
    using assms by (simp_all add: less_mult_imp_div_less)
  have low: "crazy_digits 5 (d mod 243) (a mod 243) = crazy_digits 5 d a"
    using crazy_digits_mod[of 5 d a] by simp
  have "crazy_digits 5 d a < 243" "crazy_digits 5 (d div 243) (a div 243) < 243"
    using crazy_digits_lt[of 5] by simp_all
  then show ?thesis
    using hi low crazy_digits_add[of 5 5 d a]
    by (simp add: crazy_lookup_def Let_def CHUNK_VALUES_def crazy_chunk_lookup_digits U16_MAX_def)
qed

subsection \<open>Rotation\<close>

text \<open>Reference: one digit to the right, the lowest digit to the top of \<open>n\<close> digits.\<close>

definition rotate_digits :: "nat \<Rightarrow> nat \<Rightarrow> nat" where
  "rotate_digits n v = v div 3 + v mod 3 * 3 ^ (n - 1)"

lemma rotate_digits_lt:
  assumes "0 < n" and "v < 3 ^ n"
  shows "rotate_digits n v < 3 ^ n"
proof -
  obtain m where n: "n = Suc m" using assms(1) by (cases n) auto
  have "v div 3 < 3 ^ m" using assms(2) n by (simp add: div3_lt_power)
  moreover have "v mod 3 * 3 ^ m \<le> 2 * 3 ^ m"
    by (rule mult_le_mono1) (metis less_Suc_eq_le mod_less_divisor numeral_3_eq_3 numeral_2_eq_2
        zero_less_Suc)
  ultimately have "v div 3 + v mod 3 * 3 ^ m < 3 * 3 ^ m" by linarith
  then show ?thesis by (simp add: rotate_digits_def n)
qed

lemma trit_rotate_digits:
  assumes "v < 3 ^ n" and "k < n"
  shows "trit k (rotate_digits n v) = trit (Suc k mod n) v"
proof -
  obtain m where n: "n = Suc m" using assms(2) by (cases n) auto
  have hi: "v div 3 < 3 ^ m" using assms(1) n by (simp add: div3_lt_power)
  show ?thesis
  proof (cases "k = m")
    case True
    have "(v div 3 + v mod 3 * 3 ^ m) div 3 ^ m = v mod 3" using hi by simp
    then show ?thesis by (simp add: rotate_digits_def n True trit_def)
  next
    case False
    then have km: "k < m" using assms(2) n by simp
    have "trit k (v div 3 + v mod 3 * 3 ^ m) = trit k ((v div 3 + v mod 3 * 3 ^ m) mod 3 ^ m)"
      using km by (simp only: trit_mod)
    also have "\<dots> = trit k (v div 3)" using hi by simp
    finally show ?thesis using km by (simp add: rotate_digits_def n trit_Suc)
  qed
qed

lemma rotate_digits_iterate:
  assumes "v < 3 ^ n" and "k < n"
  shows "(rotate_digits n ^^ i) v < 3 ^ n \<and>
    trit k ((rotate_digits n ^^ i) v) = trit ((k + i) mod n) v"
  using assms(2)
proof (induction i arbitrary: k)
  case 0
  then show ?case using assms(1) by simp
next
  case (Suc i)
  then have "Suc k mod n < n" by simp
  from Suc.IH[OF this] Suc.prems show ?case
    by (simp add: rotate_digits_lt trit_rotate_digits mod_add_left_eq flip: add_Suc)
qed

lemma rotate_digits_cycle: "v < 3 ^ n \<Longrightarrow> (rotate_digits n ^^ n) v = v"
proof (cases n)
  case 0
  then show "v < 3 ^ n \<Longrightarrow> ?thesis" by simp
next
  case (Suc m)
  assume v: "v < 3 ^ n"
  show ?thesis
  proof (rule trit_eqI[where n = n])
    show "(rotate_digits n ^^ n) v < 3 ^ n" using rotate_digits_iterate[OF v, of 0] Suc by blast
    show "v < 3 ^ n" by (rule v)
    show "trit k ((rotate_digits n ^^ n) v) = trit k v" if "k < n" for k
      using rotate_digits_iterate[OF v that, of n] that by simp
  qed
qed

lemma rotate_scalar_digits: "v < 59049 \<Longrightarrow> rotate_scalar v = rotate_digits 10 v"
proof -
  assume v: "v < 59049"
  have "v div 3 < 19683" using v by (simp add: less_mult_imp_div_less)
  moreover have "v mod 3 \<le> 2" by (simp add: less_Suc_eq_le[symmetric])
  ultimately show ?thesis
    by (simp add: rotate_scalar_def rotate_digits_def ROTATE_HIGH_TRIT_WEIGHT_def U16_MAX_def)
qed

lemma rotate_lookup_scalar: "rotate_lookup v = rotate_scalar v"
  by (simp add: rotate_lookup_def ROTATE_TABLE_def get_def build_rotate_scalar_eq
      del: upt.simps)

subsection \<open>Profile-width helpers compute the reference at any supported width\<close>

lemma pow3_20: "n \<le> 20 \<Longrightarrow> (3::nat) ^ n \<le> U32_MAX"
  using pow3_le_mono[of n 20] by (simp add: U32_MAX_def)

lemma ternary_modulus_loop_pow:
  "v * 3 ^ n \<le> U32_MAX \<Longrightarrow> ternary_modulus_loop n v = v * 3 ^ n"
proof (induction n arbitrary: v)
  case 0
  then show ?case by simp
next
  case (Suc n)
  then have p: "v * 3 * 3 ^ n \<le> U32_MAX" by (simp add: algebra_simps)
  then have "v * 3 \<le> U32_MAX" by (rule mult_pow3_leD)
  then show ?case using Suc.IH[OF p] by (simp add: TERNARY_RADIX_def)
qed

lemma ternary_modulus_pow: "n \<le> 20 \<Longrightarrow> ternary_modulus n = 3 ^ n"
  using ternary_modulus_loop_pow[of 1 n] pow3_20[of n] by (simp add: ternary_modulus_def)

lemma profile_chunk_digits:
  assumes "c \<le> 5"
  shows "crazy_chunk_lookup (try_u16_or_0 (d mod 3 ^ c)) (try_u16_or_0 (a mod 3 ^ c)) mod 3 ^ c
    = crazy_digits c d a"
proof -
  have p: "(3::nat) ^ c \<le> 243" using pow3_le_mono[OF assms] by simp
  have u16: "try_u16_or_0 (x mod 3 ^ c) = x mod 3 ^ c" for x
    using mod_pow3_lt[of c 65536 x] p by (simp add: try_u16_or_0_def U16_MAX_def)
  show ?thesis
    using assms p by (simp only: u16 crazy_chunk_lookup_digits mod_pow3_lt crazy_digits_prefix_mod)
qed

lemma profile_crazy_loop_digits:
  "result < place \<Longrightarrow> place * 3 ^ n \<le> U32_MAX \<Longrightarrow>
    profile_crazy_loop n d a place result = result + place * crazy_digits n d a"
proof (induction n d a place result rule: profile_crazy_loop.induct)
  case (1 n d a place result)
  show ?case
  proof (cases "n = 0")
    case True
    then show ?thesis by (simp add: profile_crazy_loop.simps)
  next
    case False
    define c where "c = min n CRAZY_CHUNK_TRITS"
    define w where "w = crazy_digits c d a"
    have c: "c \<le> 5" "c \<le> 20" "c \<le> n" by (simp_all add: c_def CRAZY_CHUNK_TRITS_def)
    have m: "ternary_modulus c = 3 ^ c" using c by (simp add: ternary_modulus_pow)
    have n: "n = c + (n - c)" using c by simp
    then have pn: "(3::nat) ^ n = 3 ^ c * 3 ^ (n - c)" by (metis power_add)
    have p: "place * 3 ^ c * 3 ^ (n - c) \<le> U32_MAX" using "1.prems"(2) pn by (simp add: algebra_simps)
    then have pc: "place * 3 ^ c \<le> U32_MAX" by (rule mult_pow3_leD)
    have w: "w < 3 ^ c" by (simp add: w_def crazy_digits_lt)
    then have "(w + 1) * place \<le> 3 ^ c * place" by (intro mult_le_mono1) simp
    then have wp: "w * place + place \<le> place * 3 ^ c" by (simp add: algebra_simps)
    then have r: "result + w * place < place * 3 ^ c" using "1.prems"(1) by linarith
    have step: "profile_crazy_loop n d a place result =
        profile_crazy_loop (n - c) (d div 3 ^ c) (a div 3 ^ c) (place * 3 ^ c) (result + w * place)"
      using False pc r wp m profile_chunk_digits[OF c(1), of d a]
      by (subst profile_crazy_loop.simps) (simp add: Let_def c_def[symmetric] w_def[symmetric])
    have "profile_crazy_loop (n - c) (d div 3 ^ c) (a div 3 ^ c) (place * 3 ^ c) (result + w * place)
        = result + w * place + place * 3 ^ c * crazy_digits (n - c) (d div 3 ^ c) (a div 3 ^ c)"
      using "1.IH"[OF _ c_def refl refl refl refl] False m r p w wp pc
        profile_chunk_digits[OF c(1), of d a]
      by (simp add: c_def[symmetric] w_def[symmetric])
    also have "\<dots> = result + place * crazy_digits n d a"
      using crazy_digits_add[of c "n - c" d a] n by (simp add: w_def algebra_simps)
    finally show ?thesis using step by simp
  qed
qed

lemma profile_crazy_digits: "n \<le> 20 \<Longrightarrow> profile_crazy d a n = crazy_digits n d a"
  using profile_crazy_loop_digits[of 0 1 n d a] pow3_20[of n] by (simp add: profile_crazy_def)

lemma profile_crazy_lt: "n \<le> 20 \<Longrightarrow> profile_crazy d a n < 3 ^ n"
  by (simp add: profile_crazy_digits crazy_digits_lt)

lemma eof_modulus_loop_pow:
  "v \<le> U32_MAX \<Longrightarrow> 0 < v \<Longrightarrow>
    eof_modulus_loop n v = (if v * 3 ^ n \<le> U32_MAX then Some (v * 3 ^ n) else None)"
proof (induction n arbitrary: v)
  case 0
  then show ?case by simp
next
  case (Suc n)
  have "v * 3 \<le> U32_MAX" if "v * 3 ^ Suc n \<le> U32_MAX"
    using that mult_pow3_leD[of "v * 3" n U32_MAX] by (simp add: algebra_simps)
  then show ?case
    using Suc.IH[of "v * 3"] Suc.prems(2)
    by (auto simp: checked_mul_def TERNARY_RADIX_def algebra_simps)
qed

lemma pow3_gt_20: "20 < n \<Longrightarrow> U32_MAX < (3::nat) ^ n"
  using pow3_le_mono[of 21 n] by (simp add: U32_MAX_def)

lemma profile_eof_word_eq:
  "profile_eof_word n = (if 0 < n \<and> n \<le> 20 then Some (3 ^ n - 1) else None)"
proof (cases "n \<le> 20")
  case True
  then show ?thesis
    using pow3_20[of n]
    by (simp add: profile_eof_word_def eof_modulus_loop_pow checked_sub_def U32_MAX_def)
next
  case False
  then show ?thesis
    using pow3_gt_20[of n] by (simp add: profile_eof_word_def eof_modulus_loop_pow U32_MAX_def)
qed

lemma unat_profile_low_byte: "unat (profile_low_byte v) = v mod 256"
  by (simp add: profile_low_byte_def OUTPUT_MODULUS_def unat_of_nat)

subsection \<open>Classic words stay in their domain\<close>

lemma wf_word_iff: "wf_word w \<longleftrightarrow> word_value w < 3 ^ 10"
  by (auto simp: wf_word_def MAX_WORD_VALUE_def)

lemma word_value_crazy:
  "wf_word d \<Longrightarrow> wf_word a \<Longrightarrow>
    word_value (word_crazy d a) = crazy_digits 10 (word_value d) (word_value a)"
  by (simp add: word_crazy_def crazy_lookup_digits wf_word_iff)

lemma word_value_rotate: "wf_word w \<Longrightarrow> word_value (word_rotate w) = rotate_digits 10 (word_value w)"
  by (simp add: word_rotate_def rotate_lookup_scalar rotate_scalar_digits wf_word_iff)

lemma word_value_successor:
  "wf_word w \<Longrightarrow> word_value (word_successor w) = Suc (word_value w) mod 59049"
  by (auto simp: word_successor_def wf_word_def MAX_WORD_VALUE_def word_ZERO_def U16_MAX_def)

lemma word_value_from_byte [simp]: "word_value (word_from_byte b) = unat b"
  by (simp add: word_from_byte_def)

lemma wf_word_new [wf_intro]: "word_new v = Inr w \<Longrightarrow> wf_word w"
  by (auto simp: word_new_def wf_word_def split: if_splits)

lemma wf_word_consts [wf_intro, simp]: "wf_word word_MAX" "wf_word word_ZERO"
  by (simp_all add: wf_word_def word_MAX_def word_ZERO_def)

lemma wf_word_from_byte [wf_intro, simp]: "wf_word (word_from_byte b)"
  using unat_u8_le[of b] by (simp add: wf_word_def MAX_WORD_VALUE_def del: unat_u8_le)

lemma wf_word_crazy [wf_intro]: "wf_word d \<Longrightarrow> wf_word a \<Longrightarrow> wf_word (word_crazy d a)"
  using crazy_digits_lt[of 10] by (simp add: wf_word_iff[of "word_crazy d a"] word_value_crazy)

lemma wf_word_rotate [wf_intro]: "wf_word w \<Longrightarrow> wf_word (word_rotate w)"
  using rotate_digits_lt[of 10 "word_value w"]
  by (simp add: wf_word_iff[of "word_rotate w"] word_value_rotate wf_word_iff[of w])

lemma wf_word_successor [wf_intro]: "wf_word w \<Longrightarrow> wf_word (word_successor w)"
  by (simp add: wf_word_iff[of "word_successor w"] word_value_successor)

lemma wf_word_graphical: "word_is_graphical w \<Longrightarrow> wf_word w"
  by (simp add: word_is_graphical_def wf_word_def MAX_WORD_VALUE_def)

lemma unat_word_low_byte: "unat (word_low_byte w) = word_value w mod 256"
  by (simp add: word_low_byte_def unat_of_nat)

lemma word_low_byte_profile: "word_low_byte w = profile_low_byte (word_value w)"
  by (rule word_unat_eq_iff[THEN iffD2]) (simp add: unat_word_low_byte unat_profile_low_byte)

lemma word_crazy_profile:
  "wf_word d \<Longrightarrow> wf_word a \<Longrightarrow>
    word_value (word_crazy d a) = profile_crazy (word_value d) (word_value a) 10"
  by (simp add: word_value_crazy profile_crazy_digits)

lemma word_rotate_iterate:
  "wf_word w \<Longrightarrow> wf_word ((word_rotate ^^ i) w) \<and>
    word_value ((word_rotate ^^ i) w) = (rotate_digits 10 ^^ i) (word_value w)"
  by (induction i) (simp_all add: wf_word_rotate word_value_rotate)

subsection \<open>Properties\<close>

text \<open>
  C29: the classic crazy operation, computed through the generated 243-by-243 chunk table, applies
  the normative trit table to each of the ten trit pairs and stays in the word domain.
\<close>
theorem crazy_is_tritwise:
  assumes "wf_word d" and "wf_word a"
  shows "wf_word (word_crazy d a) \<and>
    (\<forall>k < 10. trit k (word_value (word_crazy d a)) =
      crazy_trit (trit k (word_value d)) (trit k (word_value a)))"
  using assms by (simp add: wf_word_crazy word_value_crazy trit_crazy_digits)

theorem crazy_is_tritwise_witness:
  "wf_word (word_crazy (Word 5) (Word 59048)) \<and>
    trit 3 (word_value (word_crazy (Word 5) (Word 59048))) = crazy_trit (trit 3 5) (trit 3 59048)"
  using crazy_is_tritwise[of "Word 5" "Word 59048"] by (simp add: wf_word_def MAX_WORD_VALUE_def)

text \<open>
  The three routes to a crazy value agree: the table lookup of the classic word, the scalar
  loop on its two halves, and the width-parametric routine at ten trits; at every supported
  width the latter is the trit-wise reference.
\<close>
lemma crazy_routes_agree:
  assumes "d < 59049" and "a < 59049" and "n \<le> 20"
  shows "crazy_lookup d a = crazy_chunk_scalar (d mod 243) (a mod 243) +
      243 * crazy_chunk_scalar (d div 243) (a div 243) \<and>
    crazy_lookup d a = profile_crazy d a 10 \<and> profile_crazy d a n = crazy_digits n d a"
proof -
  have "crazy_digits 5 (d mod 3 ^ 5) (a mod 3 ^ 5) = crazy_digits 5 d a" by (rule crazy_digits_mod)
  then show ?thesis
    using assms crazy_digits_add[of 5 5 d a]
    by (simp add: crazy_lookup_digits profile_crazy_digits crazy_chunk_scalar_digits)
qed

theorem crazy_routes_agree_witness:
  "crazy_lookup 40000 123 = crazy_chunk_scalar (40000 mod 243) (123 mod 243) +
      243 * crazy_chunk_scalar (40000 div 243) (123 div 243) \<and>
    crazy_lookup 40000 123 = profile_crazy 40000 123 10 \<and>
    profile_crazy 40000 123 15 = crazy_digits 15 40000 123"
  by (rule crazy_routes_agree) simp_all

text \<open>
  The classic rotation moves every trit one place down and the lowest to the top, so ten
  rotations are the identity.
\<close>
lemma rotate_moves_trits:
  assumes "wf_word w"
  shows "(\<forall>k < 10. trit k (word_value (word_rotate w)) = trit (Suc k mod 10) (word_value w)) \<and>
    (word_rotate ^^ 10) w = w"
proof
  show "\<forall>k < 10. trit k (word_value (word_rotate w)) = trit (Suc k mod 10) (word_value w)"
    using assms by (simp add: word_value_rotate trit_rotate_digits wf_word_iff)
  have "word_value ((word_rotate ^^ 10) w) = word_value w"
    using word_rotate_iterate[OF assms, of 10] rotate_digits_cycle[of "word_value w" 10] assms
    by (simp add: wf_word_iff)
  then show "(word_rotate ^^ 10) w = w" by (rule cword.expand)
qed

theorem rotate_moves_trits_witness:
  "trit 9 (word_value (word_rotate (Word 7))) = trit 0 7 \<and>
    (word_rotate ^^ 10) (Word 7) = Word 7"
  using rotate_moves_trits[of "Word 7"] by (simp add: wf_word_def MAX_WORD_VALUE_def)

end
