(* ===== verification/Memory.thy ===== *)
theory Memory
  imports Words
begin

text \<open>
  \<open>domain/memory.rs\<close>: the fixed classic memory image with checked reads and replacements,
  and the locale \<open>word_store\<close>: what a machine's commit relies on in the memory it writes.
\<close>

subsection \<open>The store contract\<close>

text \<open>
  A store answers reads at valid addresses, replacement keeps the set of valid addresses and
  changes exactly one cell. \<open>read_commit\<close> is the read-back law of the two-cell commit both
  machines perform: an optional data cell first, then the encrypted code cell.
\<close>

locale word_store =
  fixes read :: "'m \<Rightarrow> 'a \<Rightarrow> 'e + 'w"
    and replace :: "'m \<Rightarrow> 'a \<Rightarrow> 'w \<Rightarrow> 'e + 'm"
    and valid :: "'m \<Rightarrow> 'a \<Rightarrow> bool"
    and admits :: "'m \<Rightarrow> 'w \<Rightarrow> bool"
  assumes read_valid: "(\<exists>w. read m a = Inr w) \<longleftrightarrow> valid m a"
    and replace_valid: "valid m a \<Longrightarrow> admits m w \<Longrightarrow> \<exists>m'. replace m a w = Inr m'"
    and replace_keeps: "replace m a w = Inr m' \<Longrightarrow> valid m' b = valid m b \<and> admits m' v = admits m v"
    and read_replace: "replace m a w = Inr m' \<Longrightarrow> read m' b = (if b = a then Inr w else read m b)"
begin

lemma replace_twice_ok:
  assumes "valid m a" and "valid m b" and "admits m v" and "admits m w"
  shows "\<exists>m1 m2. replace m a v = Inr m1 \<and> replace m1 b w = Inr m2"
  using assms replace_valid replace_keeps by metis

lemma read_commit:
  assumes "replace m a v = Inr m1" and "replace m1 b w = Inr m2"
  shows "read m2 c = (if c = b then Inr w else if c = a then Inr v else read m c)"
  using read_replace[OF assms(1)] read_replace[OF assms(2)] by simp

lemma read_frame:
  assumes "replace m a v = Inr m1" and "replace m1 b w = Inr m2" and "c \<noteq> a" and "c \<noteq> b"
  shows "read m2 c = read m c"
  using read_commit[OF assms(1,2)] assms(3,4) by simp

end

subsection \<open>Classic memory\<close>

datatype MemoryError =
    InvalidLength usize
  | InvariantViolation usize

record Memory =
  mem_words :: "cword list"

definition memory_filled :: "cword \<Rightarrow> Memory" where
  "memory_filled fill = \<lparr>mem_words = replicate MEMORY_WORDS fill\<rparr>"

definition memory_from_words :: "cword list \<Rightarrow> MemoryError + Memory" where
  "memory_from_words ws =
    (if length ws = MEMORY_WORDS then Ok \<lparr>mem_words = ws\<rparr> else Err (InvalidLength (length ws)))"

definition memory_read :: "Memory \<Rightarrow> cword \<Rightarrow> MemoryError + cword" where
  "memory_read self address =
    (let index = word_value address
     in ok_or (InvariantViolation index) (get (mem_words self) index))"

definition memory_replace :: "Memory \<Rightarrow> cword \<Rightarrow> cword \<Rightarrow> MemoryError + Memory" where
  "memory_replace self address v =
    (let index = word_value address
     in case get (mem_words self) index of
          None \<Rightarrow> Err (InvariantViolation index)
        | Some _ \<Rightarrow> Ok (self\<lparr>mem_words := (mem_words self)[index := v]\<rparr>))"

definition wf_memory :: "Memory \<Rightarrow> bool" where
  "wf_memory m \<longleftrightarrow> length (mem_words m) = MEMORY_WORDS \<and> (\<forall>w \<in> set (mem_words m). wf_word w)"

definition valid_address :: "Memory \<Rightarrow> cword \<Rightarrow> bool" where
  "valid_address m a \<longleftrightarrow> word_value a < length (mem_words m)"

lemma word_value_eq_iff [simp]: "word_value a = word_value b \<longleftrightarrow> a = b"
  by (auto intro: cword.expand)

interpretation classic_store: word_store memory_read memory_replace valid_address "\<lambda>_ _. True"
  by unfold_locales
    (auto simp: memory_read_def memory_replace_def valid_address_def get_def Let_def nth_list_update
      split: option.splits if_splits)

subsection \<open>The image stays well formed\<close>

lemma wf_word_addressable: "wf_memory m \<Longrightarrow> wf_word a \<Longrightarrow> valid_address m a"
  by (simp add: wf_memory_def valid_address_def wf_word_def MAX_WORD_VALUE_def MEMORY_WORDS_def)

lemma memory_read_wf:
  "wf_memory m \<Longrightarrow> wf_word a \<Longrightarrow>
    memory_read m a = Inr (mem_words m ! word_value a) \<and> wf_word (mem_words m ! word_value a)"
  using wf_word_addressable[of m a]
  by (simp add: memory_read_def valid_address_def wf_memory_def)

lemma memory_read_wf_word [wf_intro]: "wf_memory m \<Longrightarrow> memory_read m a = Inr w \<Longrightarrow> wf_word w"
  by (auto simp: memory_read_def wf_memory_def Let_def dest!: get_in_set)

lemma memory_replace_Inr:
  "memory_replace m a w = Inr m' \<Longrightarrow>
    word_value a < length (mem_words m) \<and> m' = m\<lparr>mem_words := (mem_words m)[word_value a := w]\<rparr>"
  by (auto simp: memory_replace_def Let_def get_def split: option.splits if_splits)

lemma memory_replace_wf [wf_intro]:
  "wf_memory m \<Longrightarrow> wf_word w \<Longrightarrow> memory_replace m a w = Inr m' \<Longrightarrow> wf_memory m'"
  by (auto dest!: memory_replace_Inr subsetD[OF set_update_subset_insert] simp: wf_memory_def)

lemma memory_replace_ok:
  "wf_memory m \<Longrightarrow> wf_word a \<Longrightarrow>
    memory_replace m a w = Inr (m\<lparr>mem_words := (mem_words m)[word_value a := w]\<rparr>)"
  using wf_word_addressable[of m a] by (simp add: memory_replace_def valid_address_def Let_def)

lemma memory_filled_wf [wf_intro]: "wf_word w \<Longrightarrow> wf_memory (memory_filled w)"
  by (simp add: memory_filled_def wf_memory_def)

lemma memory_from_words_wf [wf_intro]:
  "memory_from_words ws = Inr m \<Longrightarrow> (\<forall>w \<in> set ws. wf_word w) \<Longrightarrow> wf_memory m"
  by (auto simp: memory_from_words_def wf_memory_def split: if_splits)

end
