(* ===== verification/Instruction.thy ===== *)
theory Instruction
  imports Words
begin

text \<open>
  \<open>domain/instruction.rs\<close>: position-dependent decoding through \<open>XLAT1\<close> and post-step
  encryption through \<open>XLAT2\<close>, for classic words and for profile-width cells.
\<close>

definition DECODE_TABLE_LEN :: usize where "DECODE_TABLE_LEN = 94"
definition GRAPHICAL_START :: u32 where "GRAPHICAL_START = 33"

definition XLAT1 :: "u8 list" where
  "XLAT1 = [43, 98, 40, 50, 57, 101, 42, 106, 49, 86, 77, 69, 75, 76, 121, 67, 125, 41, 56, 38,
    109, 35, 126, 87, 62, 113, 120, 100, 82, 112, 48, 119, 107, 114, 85, 111, 91, 68, 55, 44, 88,
    84, 99, 65, 34, 108, 73, 46, 118, 37, 123, 103, 74, 104, 52, 71, 92, 45, 61, 79, 64, 53, 96,
    95, 51, 105, 60, 63, 90, 39, 59, 70, 78, 81, 117, 89, 93, 115, 122, 102, 36, 33, 66, 83, 47,
    124, 116, 58, 80, 110, 54, 94, 72, 97]"

definition XLAT2 :: "u8 list" where
  "XLAT2 = [53, 122, 93, 38, 103, 113, 116, 121, 102, 114, 36, 40, 119, 101, 52, 123, 87, 80, 41,
    72, 45, 90, 110, 44, 91, 37, 92, 51, 100, 76, 43, 81, 59, 62, 85, 33, 112, 74, 83, 55, 50, 70,
    104, 79, 65, 49, 67, 66, 54, 118, 94, 61, 73, 95, 48, 47, 56, 124, 106, 115, 98, 57, 109, 60,
    46, 84, 86, 97, 99, 96, 117, 89, 42, 77, 75, 39, 88, 126, 120, 68, 108, 125, 82, 69, 111, 107,
    78, 58, 35, 63, 71, 34, 105, 64]"

definition decode_at_phase :: "u32 \<Rightarrow> usize \<Rightarrow> u8 option" where
  "decode_at_phase cell phase =
    (let cell_offset = cell - GRAPHICAL_START;
         combined = cell_offset + phase;
         translation = (if combined \<ge> DECODE_TABLE_LEN then combined - DECODE_TABLE_LEN
                        else combined)
     in get XLAT1 translation)"

definition decode_instruction :: "cword \<Rightarrow> cword \<Rightarrow> u8 option" where
  "decode_instruction cell code_pointer =
    (if \<not> word_is_graphical cell then None
     else decode_at_phase (word_value cell) (word_value code_pointer mod DECODE_TABLE_LEN))"

definition decode_profile_value :: "u32 \<Rightarrow> u32 \<Rightarrow> u8 option" where
  "decode_profile_value cell code_pointer =
    (if \<not> (33 \<le> cell \<and> cell \<le> 126) then None
     else decode_at_phase cell (code_pointer mod DECODE_TABLE_LEN))"

definition encrypt :: "cword \<Rightarrow> cword option" where
  "encrypt cell =
    (case checked_sub (word_value cell) GRAPHICAL_START of
      None \<Rightarrow> None
    | Some index \<Rightarrow> map_option word_from_byte (get XLAT2 index))"

definition encrypt_profile_value :: "u32 \<Rightarrow> u32 option" where
  "encrypt_profile_value cell =
    (case checked_sub cell GRAPHICAL_START of
      None \<Rightarrow> None
    | Some index \<Rightarrow> map_option unat (get XLAT2 index))"

subsection \<open>Both tables are permutations of graphical ASCII\<close>

definition graphical_bytes :: "u8 set" where
  "graphical_bytes = {b. 33 \<le> b \<and> b \<le> 126}"

lemma length_XLAT1 [simp]: "length XLAT1 = 94" by (simp add: XLAT1_def)
lemma length_XLAT2 [simp]: "length XLAT2 = 94" by (simp add: XLAT2_def)

lemma graphical_bytes_unat: "graphical_bytes = {b. 33 \<le> unat b \<and> unat b \<le> 126}"
  by (auto simp: graphical_bytes_def word_le_nat_alt)

lemma graphical_bytes_image: "graphical_bytes = of_nat ` {33..<127}"
proof (intro set_eqI iffI)
  fix b :: u8
  assume "b \<in> graphical_bytes"
  then have "b = of_nat (unat b)" "unat b \<in> {33..<127}"
    by (simp_all add: graphical_bytes_unat)
  then show "b \<in> of_nat ` {33..<127}" by blast
next
  fix b :: u8
  assume "b \<in> of_nat ` {33..<127}"
  then obtain n where n: "b = of_nat n" "33 \<le> n" "n < 127" by auto
  then have "unat b = n" by (simp add: unat_of_nat)
  with n show "b \<in> graphical_bytes" by (simp add: graphical_bytes_unat)
qed

lemma distinct_XLAT1: "distinct XLAT1" by (simp add: XLAT1_def)
lemma distinct_XLAT2: "distinct XLAT2" by (simp add: XLAT2_def)

lemma set_XLAT1_graphical: "set XLAT1 \<subseteq> graphical_bytes"
  by (simp add: XLAT1_def graphical_bytes_def)

lemma set_XLAT2_graphical: "set XLAT2 \<subseteq> graphical_bytes"
  by (simp add: XLAT2_def graphical_bytes_def)

lemma card_graphical_bytes: "card graphical_bytes = 94"
proof -
  have "inj_on (of_nat :: nat \<Rightarrow> u8) {33..<127}"
    by (rule inj_on_inverseI[where g = unat]) (simp add: unat_of_nat)
  then show ?thesis by (simp add: graphical_bytes_image card_image)
qed

lemma set_XLAT: "set XLAT1 = graphical_bytes" "set XLAT2 = graphical_bytes"
proof -
  have fin: "finite graphical_bytes" by (simp add: graphical_bytes_image)
  show "set XLAT1 = graphical_bytes"
    by (rule card_subset_eq[OF fin set_XLAT1_graphical])
      (simp add: distinct_card[OF distinct_XLAT1] card_graphical_bytes)
  show "set XLAT2 = graphical_bytes"
    by (rule card_subset_eq[OF fin set_XLAT2_graphical])
      (simp add: distinct_card[OF distinct_XLAT2] card_graphical_bytes)
qed

subsection \<open>Totality on graphical cells\<close>

lemma decode_at_phase_some:
  assumes "33 \<le> cell" and "cell \<le> 126" and "phase < 94"
  shows "decode_at_phase cell phase = Some (XLAT1 ! ((cell - 33 + phase) mod 94))"
proof (cases "cell - 33 + phase < 94")
  case True
  then show ?thesis by (simp add: decode_at_phase_def GRAPHICAL_START_def DECODE_TABLE_LEN_def)
next
  case False
  then have "(cell - 33 + phase) mod 94 = cell - 33 + phase - 94"
    using assms by (subst mod_if) simp
  then show ?thesis
    using False assms by (simp add: decode_at_phase_def GRAPHICAL_START_def DECODE_TABLE_LEN_def)
qed

lemma decode_instruction_some:
  "word_is_graphical cell \<Longrightarrow>
    decode_instruction cell cp = Some (XLAT1 ! ((word_value cell - 33 + word_value cp mod 94) mod 94))"
  by (simp add: decode_instruction_def word_is_graphical_def decode_at_phase_some
      DECODE_TABLE_LEN_def)

lemma decode_profile_some:
  "33 \<le> cell \<Longrightarrow> cell \<le> 126 \<Longrightarrow>
    decode_profile_value cell cp = Some (XLAT1 ! ((cell - 33 + cp mod 94) mod 94))"
  by (simp add: decode_profile_value_def decode_at_phase_some DECODE_TABLE_LEN_def)

lemma decode_instruction_profile:
  "decode_instruction cell cp = decode_profile_value (word_value cell) (word_value cp)"
  by (simp add: decode_instruction_def decode_profile_value_def word_is_graphical_def)

lemma encrypt_profile:
  "map_option word_value (encrypt cell) = encrypt_profile_value (word_value cell)"
  by (simp add: encrypt_def encrypt_profile_value_def option.map_comp comp_def
      split: option.splits)

lemma graphical_offset_lt: "33 \<le> c \<Longrightarrow> c \<le> 126 \<Longrightarrow> c - 33 < (94::nat)"
  by linarith

lemma encrypt_some:
  "word_is_graphical cell \<Longrightarrow> encrypt cell = Some (word_from_byte (XLAT2 ! (word_value cell - 33)))"
  using graphical_offset_lt[of "word_value cell"] by (simp add: encrypt_def word_is_graphical_def checked_sub_def GRAPHICAL_START_def)

lemma encrypt_profile_some:
  "33 \<le> cell \<Longrightarrow> cell \<le> 126 \<Longrightarrow> encrypt_profile_value cell = Some (unat (XLAT2 ! (cell - 33)))"
  by (simp add: encrypt_profile_value_def checked_sub_def GRAPHICAL_START_def)

lemma XLAT2_nth_graphical: "i < 94 \<Longrightarrow> 33 \<le> unat (XLAT2 ! i) \<and> unat (XLAT2 ! i) \<le> 126"
  using subsetD[OF set_XLAT2_graphical, OF nth_mem[of i]] by (simp add: graphical_bytes_unat)

lemma encrypt_graphical:
  assumes "word_is_graphical cell" and "encrypt cell = Some e"
  shows "word_is_graphical e"
proof -
  have "word_value cell - 33 < 94" using assms(1) by (auto simp: word_is_graphical_def)
  from XLAT2_nth_graphical[OF this] assms show ?thesis
    by (auto simp: encrypt_some word_is_graphical_def)
qed

lemma encrypt_wf [wf_intro]: "encrypt cell = Some e \<Longrightarrow> wf_word e"
  by (auto simp: encrypt_def split: option.splits)

lemma encrypt_profile_le: "encrypt_profile_value cell = Some e \<Longrightarrow> e \<le> 126"
  using set_XLAT2_graphical
  by (auto simp: encrypt_profile_value_def graphical_bytes_unat dest!: get_in_set
      split: option.splits)

lemma encrypt_inj:
  assumes "word_is_graphical a" and "word_is_graphical b" and "encrypt a = encrypt b"
  shows "a = b"
proof -
  have "XLAT2 ! (word_value a - 33) = XLAT2 ! (word_value b - 33)"
    using assms by (simp add: encrypt_some word_from_byte_def word_unat_eq_iff)
  then have "word_value a - 33 = word_value b - 33"
    using assms(1,2) nth_eq_iff_index_eq[OF distinct_XLAT2] by (auto simp: word_is_graphical_def)
  then show ?thesis using assms(1,2) by (auto simp: word_is_graphical_def cword.expand)
qed

subsection \<open>Bijections\<close>

lemma bij_betw_shift: "bij_betw (\<lambda>i. (i + k) mod n) {..<n} {..<(n::nat)}"
proof (cases "n = 0")
  case False
  have le: "x = y" if "x \<le> y" "y < n" "(x + k) mod n = (y + k) mod n" for x y
  proof -
    have "n dvd (y + k) - (x + k)"
      using that(1,3) mod_eq_dvd_iff_nat[of "x + k" "y + k" n] by simp
    then have "n dvd y - x" by simp
    moreover have "y - x < n" using that by simp
    ultimately have "y - x = 0" by (metis nat_dvd_not_less neq0_conv)
    then show ?thesis using that(1) by simp
  qed
  have inj: "inj_on (\<lambda>i. (i + k) mod n) {..<n}"
    by (rule linorder_inj_onI') (use le in \<open>auto dest: less_imp_le\<close>)
  moreover have "(\<lambda>i. (i + k) mod n) ` {..<n} = {..<n}"
    by (rule endo_inj_surj[OF _ _ inj]) (use False in auto)
  ultimately show ?thesis by (simp add: bij_betw_def)
qed (simp add: bij_betw_def)

lemma bij_graphical_offset: "bij_betw (\<lambda>w. word_value w - 33) {w. word_is_graphical w} {..<94}"
proof (rule bij_betw_byWitness[where f' = "\<lambda>i. Word (i + 33)"])
  show "\<forall>w \<in> {w. word_is_graphical w}. Word (word_value w - 33 + 33) = w"
    by (auto simp: word_is_graphical_def intro: cword.expand)
qed (auto simp: word_is_graphical_def)

lemma bij_table: "distinct xs \<Longrightarrow> length xs = 94 \<Longrightarrow> bij_betw ((!) xs) {..<94} (set xs)"
  by (metis bij_betw_nth)

lemma bij_word_from_byte: "bij_betw word_from_byte graphical_bytes {w. word_is_graphical w}"
proof (rule bij_betw_byWitness[where f' = "\<lambda>w. of_nat (word_value w)"])
  show "word_from_byte ` graphical_bytes \<subseteq> {w. word_is_graphical w}"
    by (auto simp: graphical_bytes_unat word_is_graphical_def word_from_byte_def)
  show "\<forall>w \<in> {w. word_is_graphical w}. word_from_byte (of_nat (word_value w)) = w"
    by (auto simp: word_is_graphical_def word_from_byte_def unat_of_nat intro: cword.expand)
  show "(\<lambda>w. of_nat (word_value w)) ` {w. word_is_graphical w} \<subseteq> graphical_bytes"
    by (auto simp: graphical_bytes_unat word_is_graphical_def unat_of_nat)
qed (simp add: word_from_byte_def)

subsection \<open>Property\<close>

text \<open>
  At every code position, decoding is a bijection from the graphical cells to the graphical
  bytes, and post-step encryption is a permutation of the graphical cells: no cell is lost and no
  two cells are ever confused by either table.
\<close>
lemma translation_is_bijective:
  "bij_betw (\<lambda>cell. the (decode_instruction cell position)) {w. word_is_graphical w} graphical_bytes \<and>
   bij_betw (\<lambda>cell. the (encrypt cell)) {w. word_is_graphical w} {w. word_is_graphical w}"
proof
  have "bij_betw ((!) XLAT1 \<circ> ((\<lambda>i. (i + word_value position mod 94) mod 94) \<circ> (\<lambda>w. word_value w - 33)))
      {w. word_is_graphical w} (set XLAT1)"
    by (intro bij_betw_trans[OF bij_betw_trans[OF bij_graphical_offset bij_betw_shift]] bij_table
        distinct_XLAT1 length_XLAT1)
  then have "bij_betw (\<lambda>w. XLAT1 ! ((word_value w - 33 + word_value position mod 94) mod 94))
      {w. word_is_graphical w} graphical_bytes"
    by (simp add: comp_def set_XLAT)
  then show "bij_betw (\<lambda>cell. the (decode_instruction cell position)) {w. word_is_graphical w} graphical_bytes"
    by (rule bij_betw_cong[THEN iffD1, rotated]) (simp add: decode_instruction_some)
  have "bij_betw (word_from_byte \<circ> ((!) XLAT2 \<circ> (\<lambda>w. word_value w - 33)))
      {w. word_is_graphical w} {w. word_is_graphical w}"
    by (intro bij_betw_trans[OF bij_betw_trans[OF bij_graphical_offset bij_table[OF distinct_XLAT2 length_XLAT2]]])
      (simp add: set_XLAT bij_word_from_byte)
  then have "bij_betw (\<lambda>w. word_from_byte (XLAT2 ! (word_value w - 33)))
      {w. word_is_graphical w} {w. word_is_graphical w}"
    by (simp add: comp_def)
  then show "bij_betw (\<lambda>cell. the (encrypt cell)) {w. word_is_graphical w} {w. word_is_graphical w}"
    by (rule bij_betw_cong[THEN iffD1, rotated]) (simp add: encrypt_some)
qed

end
