(* ===== verification/Loader.thy ===== *)
theory Loader
  imports Memory Instruction
begin

text \<open>
  \<open>domain/loader.rs\<close>: source admission (whitespace, graphical range, length), load-time
  instruction validation, and the crazy-operation recurrence that fills the rest of memory.
\<close>

datatype LoadError =
    InsufficientRecurrenceBase
  | InternalInvariant
  | InvalidInstruction usize u8
  | InvalidSourceByte usize u8
  | SourceTooLong

fun load_error_from_memory :: "MemoryError \<Rightarrow> LoadError" where
  "load_error_from_memory _ = InternalInvariant"

definition is_source_whitespace :: "u8 \<Rightarrow> bool" where
  "is_source_whitespace b \<longleftrightarrow> b = 9 \<or> b = 10 \<or> b = 11 \<or> b = 12 \<or> b = 13 \<or> b = 32"

definition source_word_requirement :: "u8 list \<Rightarrow> u64" where
  "source_word_requirement source =
    foldl (\<lambda>count _. sat_add U64_MAX count 1) 0 (filter (\<lambda>b. \<not> is_source_whitespace b) source)"

text \<open>The scan of \<open>collect_source\<close>: \<open>offset\<close> counts source bytes, \<open>admitted\<close> is the vector built.\<close>

fun collect_loop :: "usize \<Rightarrow> u8 list \<Rightarrow> u8 list \<Rightarrow> LoadError + u8 list" where
  "collect_loop offset [] admitted = Inr admitted"
| "collect_loop offset (b # bs) admitted =
    (if is_source_whitespace b then collect_loop (offset + 1) bs admitted
     else if \<not> (33 \<le> b \<and> b \<le> 126) then Inl (InvalidSourceByte offset b)
     else collect_loop (offset + 1) bs (admitted @ [b]))"

definition collect_source :: "u8 list \<Rightarrow> LoadError + u8 list" where
  "collect_source source =
    (case collect_loop 0 source [] of
      Inl e \<Rightarrow> Inl e
    | Inr admitted \<Rightarrow>
        if length admitted < 2 then Inl InsufficientRecurrenceBase
        else if length admitted > MEMORY_WORDS then Inl SourceTooLong
        else Inr admitted)"

text \<open>The load-time instruction set \<open>j i * p < / v o\<close>.\<close>

definition load_instructions :: "u8 set" where
  "load_instructions = {106, 105, 42, 112, 60, 47, 118, 111}"

fun validate_loop :: "usize \<Rightarrow> u8 list \<Rightarrow> LoadError + unit" where
  "validate_loop position [] = Inr ()"
| "validate_loop position (b # bs) =
    (if position > U16_MAX then Inl InternalInvariant
     else case word_new position of
       Inl _ \<Rightarrow> Inl InternalInvariant
     | Inr pointer \<Rightarrow>
        (case decode_instruction (word_from_byte b) pointer of
          None \<Rightarrow> Inl InternalInvariant
        | Some decoded \<Rightarrow>
            if decoded \<notin> load_instructions then Inl (InvalidInstruction position b)
            else validate_loop (position + 1) bs))"

definition validate_source :: "u8 list \<Rightarrow> LoadError + unit" where
  "validate_source admitted = validate_loop 0 admitted"

function fill_loop :: "cword list \<Rightarrow> cword \<Rightarrow> cword \<Rightarrow> cword list" where
  "fill_loop ws older previous =
    (if length ws < MEMORY_WORDS then
       let next_word = word_crazy older previous
       in fill_loop (ws @ [next_word]) previous next_word
     else ws)"
  by pat_completeness auto
termination
  by (relation "measure (\<lambda>(ws, _, _). MEMORY_WORDS - length ws)") auto

declare fill_loop.simps [simp del]

definition fill_memory :: "u8 list \<Rightarrow> LoadError + Memory" where
  "fill_memory admitted =
    (let ws = map word_from_byte admitted
     in case rev ws of
          previous # older # _ \<Rightarrow>
            map_err load_error_from_memory (memory_from_words (fill_loop ws older previous))
        | _ \<Rightarrow> Inl InternalInvariant)"

definition load :: "u8 list \<Rightarrow> LoadError + Memory" where
  "load source =
    (case collect_source source of
      Inl e \<Rightarrow> Inl e
    | Inr admitted \<Rightarrow>
        (case validate_source admitted of
          Inl e \<Rightarrow> Inl e
        | Inr _ \<Rightarrow> fill_memory admitted))"

subsection \<open>Admission\<close>

definition source_bytes :: "u8 list \<Rightarrow> u8 list" where
  "source_bytes source = filter (\<lambda>b. \<not> is_source_whitespace b) source"

lemma collect_loop_Inr:
  "collect_loop k source admitted = Inr result \<longleftrightarrow>
    (\<forall>b \<in> set (source_bytes source). 33 \<le> b \<and> b \<le> 126) \<and> result = admitted @ source_bytes source"
  by (induction source arbitrary: k admitted) (auto simp: source_bytes_def)

lemma collect_loop_Inl:
  "collect_loop k source admitted = Inl e \<Longrightarrow>
    \<exists>i < length source. e = InvalidSourceByte (k + i) (source ! i) \<and>
      \<not> is_source_whitespace (source ! i) \<and> \<not> (33 \<le> source ! i \<and> source ! i \<le> 126) \<and>
      (\<forall>j < i. is_source_whitespace (source ! j) \<or> (33 \<le> source ! j \<and> source ! j \<le> 126))"
proof (induction source arbitrary: k admitted)
  case Nil
  then show ?case by simp
next
  case (Cons b bs)
  show ?case
  proof (cases "\<not> is_source_whitespace b \<and> \<not> (33 \<le> b \<and> b \<le> 126)")
    case True
    then show ?thesis using Cons.prems by (intro exI[of _ 0]) auto
  next
    case False
    then obtain admitted' where "collect_loop (Suc k) bs admitted' = Inl e"
      using Cons.prems by (auto split: if_splits)
    from Cons.IH[OF this] obtain i where "i < length bs"
      "e = InvalidSourceByte (k + Suc i) (bs ! i)" "\<not> is_source_whitespace (bs ! i)"
      "\<not> (33 \<le> bs ! i \<and> bs ! i \<le> 126)"
      "\<forall>j < i. is_source_whitespace (bs ! j) \<or> (33 \<le> bs ! j \<and> bs ! j \<le> 126)"
      by auto
    then show ?thesis
      using False by (intro exI[of _ "Suc i"]) (auto simp: less_Suc_eq_0_disj)
  qed
qed

lemma collect_source_Inr:
  "collect_source source = Inr admitted \<longleftrightarrow>
    admitted = source_bytes source \<and> (\<forall>b \<in> set admitted. 33 \<le> b \<and> b \<le> 126) \<and>
    2 \<le> length admitted \<and> length admitted \<le> MEMORY_WORDS"
proof (cases "collect_loop 0 source []")
  case (Inl e)
  then show ?thesis
    using collect_loop_Inr[of 0 source "[]" "source_bytes source"] by (auto simp: collect_source_def)
next
  case (Inr result)
  then show ?thesis
    using collect_loop_Inr[of 0 source "[]" result] by (auto simp: collect_source_def)
qed

lemma foldl_count: "c + length xs \<le> m \<Longrightarrow> foldl (\<lambda>count _. sat_add m count 1) c xs = c + length xs"
  by (induction xs arbitrary: c) auto

lemma source_word_requirement_length:
  "length source \<le> U64_MAX \<Longrightarrow> source_word_requirement source = length (source_bytes source)"
  using foldl_count[of 0 "source_bytes source" U64_MAX]
    length_filter_le[of "\<lambda>b. \<not> is_source_whitespace b" source]
  by (simp add: source_word_requirement_def source_bytes_def)

subsection \<open>Validation\<close>

definition loads_at :: "nat \<Rightarrow> u8 \<Rightarrow> bool" where
  "loads_at position b \<longleftrightarrow>
    (\<exists>d \<in> {42, 47, 60, 105, 106, 111, 112, 118}.
      decode_instruction (word_from_byte b) (Word position) = Some d)"

lemma loads_at_eq:
  "loads_at position b \<longleftrightarrow>
    (\<exists>d \<in> load_instructions. decode_instruction (word_from_byte b) (Word position) = Some d)"
  by (auto simp: loads_at_def load_instructions_def)

lemma validate_loop_Inr:
  "k + length bs \<le> MEMORY_WORDS \<Longrightarrow>
    validate_loop k bs = Inr () \<longleftrightarrow> (\<forall>i < length bs. loads_at (k + i) (bs ! i))"
proof (induction bs arbitrary: k)
  case Nil
  then show ?case by simp
next
  case (Cons b bs)
  have k: "k \<le> U16_MAX" "word_new k = Inr (Word k)"
    using Cons.prems by (simp_all add: MEMORY_WORDS_def U16_MAX_def word_new_def MAX_WORD_VALUE_def)
  have all: "(\<forall>i < length (b # bs). loads_at (k + i) ((b # bs) ! i)) \<longleftrightarrow>
      loads_at k b \<and> (\<forall>i < length bs. loads_at (Suc k + i) (bs ! i))"
    by (auto simp: less_Suc_eq_0_disj)
  show ?case
    unfolding all using Cons.IH[of "Suc k"] Cons.prems k
    by (auto simp: loads_at_eq split: option.splits)
qed

lemma validate_source_Inr:
  "length admitted \<le> MEMORY_WORDS \<Longrightarrow>
    validate_source admitted = Inr () \<longleftrightarrow> (\<forall>i < length admitted. loads_at i (admitted ! i))"
  using validate_loop_Inr[of 0 admitted] by (simp add: validate_source_def)

subsection \<open>The recurrence\<close>

definition recurrence :: "nat \<Rightarrow> cword list \<Rightarrow> bool" where
  "recurrence k ws \<longleftrightarrow>
    (\<forall>i. k \<le> i \<and> i < length ws \<longrightarrow> ws ! i = word_crazy (ws ! (i - 2)) (ws ! (i - 1)))"

lemma recurrence_snoc:
  assumes "recurrence k ws" and "2 \<le> length ws"
    and "w = word_crazy (ws ! (length ws - 2)) (ws ! (length ws - 1))"
  shows "recurrence k (ws @ [w])"
  unfolding recurrence_def
proof (intro allI impI)
  fix i
  assume i: "k \<le> i \<and> i < length (ws @ [w])"
  show "(ws @ [w]) ! i = word_crazy ((ws @ [w]) ! (i - 2)) ((ws @ [w]) ! (i - 1))"
  proof (cases "i = length ws")
    case True
    have "length ws - 2 < length ws" "length ws - 1 < length ws" using assms(2) by simp_all
    then show ?thesis using True assms(3) by (simp add: nth_append)
  next
    case False
    then have "i < length ws" "i - 2 < length ws" "i - 1 < length ws" using i by auto
    then show ?thesis using assms(1) i by (simp add: nth_append recurrence_def)
  qed
qed

lemma fill_loop_spec:
  "2 \<le> length ws \<Longrightarrow> length ws \<le> MEMORY_WORDS \<Longrightarrow> older = ws ! (length ws - 2) \<Longrightarrow>
    previous = ws ! (length ws - 1) \<Longrightarrow> recurrence k ws \<Longrightarrow> (\<forall>w \<in> set ws. wf_word w) \<Longrightarrow>
    length (fill_loop ws older previous) = MEMORY_WORDS \<and>
    take (length ws) (fill_loop ws older previous) = ws \<and>
    recurrence k (fill_loop ws older previous) \<and>
    (\<forall>w \<in> set (fill_loop ws older previous). wf_word w)"
proof (induction ws older previous rule: fill_loop.induct)
  case (1 ws older previous)
  show ?case
  proof (cases "length ws < MEMORY_WORDS")
    case False
    then show ?thesis using "1.prems" by (subst (1 2 3 4) fill_loop.simps) simp
  next
    case True
    define w where "w = word_crazy older previous"
    have last: "previous = (ws @ [w]) ! (length (ws @ [w]) - 2)" "w = (ws @ [w]) ! (length (ws @ [w]) - 1)"
      using "1.prems"(1,4) by (auto simp: nth_append)
    have rec: "recurrence k (ws @ [w])"
      using recurrence_snoc[OF "1.prems"(5,1), of w] "1.prems"(3,4) by (simp add: w_def)
    have wf: "wf_word w"
      using "1.prems" by (simp add: w_def wf_word_crazy)
    have step: "fill_loop ws older previous = fill_loop (ws @ [w]) previous w"
      using True by (subst fill_loop.simps) (simp add: w_def Let_def)
    have "take (length ws) (fill_loop (ws @ [w]) previous w) = ws"
      if "take (Suc (length ws)) (fill_loop (ws @ [w]) previous w) = ws @ [w]"
      using arg_cong[OF that, of "take (length ws)"] by (simp add: min_def)
    moreover note "1.IH"[OF True w_def, folded w_def, OF _ _ last rec]
    ultimately show ?thesis
      using True "1.prems" wf unfolding step by simp
  qed
qed

lemma fill_memory_ok:
  assumes "2 \<le> length admitted" and "length admitted \<le> MEMORY_WORDS"
  obtains m where "fill_memory admitted = Inr m" "wf_memory m"
    "take (length admitted) (mem_words m) = map word_from_byte admitted"
    "recurrence (length admitted) (mem_words m)"
proof -
  define ws where "ws = map word_from_byte admitted"
  obtain previous older rest where r: "rev ws = previous # older # rest"
    using assms(1) by (cases "rev ws" rule: rev_cases; cases "rev ws"; cases "tl (rev ws)")
      (auto simp: ws_def)
  then have ws: "ws = rev rest @ [older, previous]" by (metis append.assoc append_Cons append_Nil
        rev.simps(2) rev_rev_ident)
  have len: "length ws = length admitted" by (simp add: ws_def)
  have spec: "length (fill_loop ws older previous) = MEMORY_WORDS \<and>
    take (length ws) (fill_loop ws older previous) = ws \<and>
    recurrence (length admitted) (fill_loop ws older previous) \<and>
    (\<forall>w \<in> set (fill_loop ws older previous). wf_word w)"
  proof (rule fill_loop_spec)
    show "2 \<le> length ws" "length ws \<le> MEMORY_WORDS" using assms len by simp_all
    show "older = ws ! (length ws - 2)" "previous = ws ! (length ws - 1)"
      by (simp_all add: ws nth_append)
    show "recurrence (length admitted) ws" by (auto simp: recurrence_def len)
    show "\<forall>w \<in> set ws. wf_word w" by (simp add: ws_def)
  qed
  have "fill_memory admitted = Inr \<lparr>mem_words = fill_loop ws older previous\<rparr>"
    using spec r by (simp add: fill_memory_def ws_def[symmetric] memory_from_words_def)
  then show ?thesis
    using spec len by (intro that) (auto simp: wf_memory_def ws_def)
qed

lemma load_ok_iff:
  "(\<exists>m. load source = Inr m) \<longleftrightarrow>
    (\<forall>b \<in> set (source_bytes source). 33 \<le> b \<and> b \<le> 126) \<and>
    2 \<le> length (source_bytes source) \<and> length (source_bytes source) \<le> MEMORY_WORDS \<and>
    (\<forall>i < length (source_bytes source). loads_at i (source_bytes source ! i))"
  (is "?L \<longleftrightarrow> ?R")
proof
  assume ?L
  then obtain admitted where "collect_source source = Inr admitted" "validate_source admitted = Inr ()"
    by (auto simp: load_def split: sum.splits)
  then show ?R by (auto simp: collect_source_Inr validate_source_Inr)
next
  assume R: ?R
  then have "collect_source source = Inr (source_bytes source)" by (simp add: collect_source_Inr)
  moreover have "validate_source (source_bytes source) = Inr ()" using R by (simp add: validate_source_Inr)
  moreover obtain m where "fill_memory (source_bytes source) = Inr m"
    using R fill_memory_ok by blast
  ultimately show ?L by (simp add: load_def)
qed

lemma load_image:
  assumes "load source = Inr m"
  shows "wf_memory m" "take (length (source_bytes source)) (mem_words m) = map word_from_byte (source_bytes source)"
    "recurrence (length (source_bytes source)) (mem_words m)"
proof -
  obtain admitted where a: "collect_source source = Inr admitted" "fill_memory admitted = Inr m"
    using assms by (auto simp: load_def split: sum.splits)
  from a(1) have b: "admitted = source_bytes source" "2 \<le> length admitted" "length admitted \<le> MEMORY_WORDS"
    by (auto simp: collect_source_Inr)
  obtain m' where "fill_memory admitted = Inr m'" "wf_memory m'"
    "take (length admitted) (mem_words m') = map word_from_byte admitted"
    "recurrence (length admitted) (mem_words m')"
    using fill_memory_ok[OF b(2,3)] .
  then show "wf_memory m"
    "take (length (source_bytes source)) (mem_words m) = map word_from_byte (source_bytes source)"
    "recurrence (length (source_bytes source)) (mem_words m)"
    using a b by simp_all
qed

subsection \<open>Properties\<close>

lemma loads_at_two: "loads_at 0 40" "loads_at 1 39"
  by (simp_all add: loads_at_eq decode_instruction_profile decode_profile_some load_instructions_def
      XLAT1_def)

text \<open>
  C10: the loader accepts exactly the sources whose bytes other than whitespace are graphical,
  number between two and 59049, and each decode, at the position they load to, to one of the
  eight load-time instructions.
\<close>
theorem load_accepts_exactly:
  "(\<exists>m. load source = Inr m) \<longleftrightarrow>
    (\<forall>b \<in> set (source_bytes source). 33 \<le> b \<and> b \<le> 126) \<and>
    2 \<le> length (source_bytes source) \<and> length (source_bytes source) \<le> MEMORY_WORDS \<and>
    (\<forall>i < length (source_bytes source). loads_at i (source_bytes source ! i))"
  by (rule load_ok_iff)

theorem load_accepts_exactly_witness: "\<exists>m. load [40, 10, 39] = Inr m"
  using load_accepts_exactly[of "[40, 10, 39]"] loads_at_two
  by (simp add: source_bytes_def is_source_whitespace_def MEMORY_WORDS_def less_Suc_eq)

text \<open>
  A loaded image is full and in the word domain, starts with the source bytes in order, and
  continues with the crazy recurrence on the two cells before.
\<close>
lemma load_builds_image:
  assumes "load source = Inr m"
  shows "wf_memory m \<and>
    take (length (source_bytes source)) (mem_words m) = map word_from_byte (source_bytes source) \<and>
    (\<forall>i. length (source_bytes source) \<le> i \<and> i < MEMORY_WORDS \<longrightarrow>
      mem_words m ! i = word_crazy (mem_words m ! (i - 2)) (mem_words m ! (i - 1)))"
  using load_image[OF assms] by (simp add: recurrence_def wf_memory_def)

theorem load_builds_image_witness:
  "\<exists>m. load [40, 10, 39] = Inr m \<and> wf_memory m \<and> take 2 (mem_words m) = [Word 40, Word 39] \<and>
    mem_words m ! 2 = word_crazy (mem_words m ! 0) (mem_words m ! 1)"
proof -
  have src: "source_bytes [40, 10, 39] = [40, 39]"
    by (simp add: source_bytes_def is_source_whitespace_def)
  obtain m where m: "load [40, 10, 39] = Inr m"
    using load_ok_iff[of "[40, 10, 39]"] loads_at_two
    by (auto simp: src MEMORY_WORDS_def less_Suc_eq)
  note img = load_builds_image[OF m, unfolded src]
  have "take 2 (mem_words m) = [Word 40, Word 39]" using img by (simp add: word_from_byte_def flip: numeral_2_eq_2)
  moreover have "mem_words m ! 2 = word_crazy (mem_words m ! 0) (mem_words m ! 1)"
    using img[THEN conjunct2, THEN conjunct2, THEN spec[of _ 2]] by (simp add: MEMORY_WORDS_def)
  ultimately show ?thesis using m img by blast
qed

lemma source_bytes_idem: "source_bytes (source_bytes source) = source_bytes source"
  by (simp add: source_bytes_def)

lemma load_source_bytes:
  assumes "\<forall>b \<in> set (source_bytes source). 33 \<le> b \<and> b \<le> 126"
  shows "load (source_bytes source) = load source"
proof -
  have "collect_loop 0 source [] = Inr (source_bytes source)"
    "collect_loop 0 (source_bytes source) [] = Inr (source_bytes source)"
    using assms collect_loop_Inr[of 0 source "[]" "source_bytes source"]
      collect_loop_Inr[of 0 "source_bytes source" "[]" "source_bytes source"]
    by (simp_all add: source_bytes_idem)
  then show ?thesis by (simp add: load_def collect_source_def)
qed

lemma load_invalid_byte:
  assumes "load source = Inl (InvalidSourceByte offset b)"
  shows "collect_loop 0 source [] = Inl (InvalidSourceByte offset b)"
proof -
  have validate: "validate_loop k bs \<noteq> Inl (InvalidSourceByte offset b)" for k bs
    by (induction k bs rule: validate_loop.induct) (auto split: sum.splits option.splits)
  show ?thesis
    using assms validate
    by (auto simp: load_def collect_source_def validate_source_def fill_memory_def Let_def
        split: sum.splits if_splits list.splits)
qed

text \<open>
  An invalid source byte is reported exactly: the reported offset is the first byte of the
  source that is neither whitespace nor graphical, and the reported byte is the one there.
\<close>
lemma load_reports_first_invalid_byte:
  assumes "load source = Inl (InvalidSourceByte offset b)"
  shows "offset < length source \<and> source ! offset = b \<and> \<not> is_source_whitespace b \<and>
    \<not> (33 \<le> b \<and> b \<le> 126) \<and>
    (\<forall>j < offset. is_source_whitespace (source ! j) \<or> (33 \<le> source ! j \<and> source ! j \<le> 126))"
  using collect_loop_Inl[OF load_invalid_byte[OF assms]] by auto

theorem load_reports_first_invalid_byte_witness:
  "load [40, 32, 7, 39] = Inl (InvalidSourceByte 2 7) \<and> [40, 32, 7, 39] ! 2 = (7 :: u8) \<and>
    \<not> is_source_whitespace 7"
proof -
  have e: "load [40, 32, 7, 39] = Inl (InvalidSourceByte 2 7)"
    by (simp add: load_def collect_source_def is_source_whitespace_def)
  show ?thesis using e load_reports_first_invalid_byte[OF e] by blast
qed

end
