(* ===== verification/Mode.thy ===== *)
theory Mode
  imports Prelude
begin

text \<open>\<open>domain/mode.rs\<close>: the identity of the two execution modes and its spellings.\<close>

datatype ExecutionMode = Interpreter | Specification

definition is_verifier_eligible :: "ExecutionMode \<Rightarrow> bool" where
  "is_verifier_eligible self = (case self of Interpreter \<Rightarrow> True | Specification \<Rightarrow> False)"

fun mode_stable_id :: "ExecutionMode \<Rightarrow> string" where
  "mode_stable_id Interpreter = ''interpreter''"
| "mode_stable_id Specification = ''specification''"

datatype ExecutionModeParseError = ExecutionModeParseError (requested: string)

definition mode_from_str :: "string \<Rightarrow> ExecutionModeParseError + ExecutionMode" where
  "mode_from_str r =
    (if r = ''interpreter'' \<or> r = ''reference-interpreter'' \<or> r = ''legacy-ben'' then Ok Interpreter
     else if r = ''specification'' then Ok Specification
     else Err (ExecutionModeParseError r))"

lemma mode_from_str_stable_id: "mode_from_str (mode_stable_id m) = Inr m"
  by (cases m) (simp_all add: mode_from_str_def)

lemma all_ExecutionMode: "(\<forall>m. P m) \<longleftrightarrow> P Interpreter \<and> P Specification"
  by (metis ExecutionMode.exhaust)

lemma mode_from_str_rejects:
  "mode_from_str r = Inl e \<Longrightarrow> requested e = r \<and> (\<forall>m. r \<noteq> mode_stable_id m)"
  by (auto simp: mode_from_str_def all_ExecutionMode split: if_splits)

end
