(* ===== verification/Runner.thy ===== *)
theory Runner
  imports Prelude
begin

text \<open>
  The outcomes of steps and bounded runs (\<open>domain/machine.rs\<close>), shared by the classic and the
  profile-driven machine, and the contract of a bounded run. Both machines have the same loop
  (step until the budget, an error or a termination); \<open>bounded_runner\<close> states what the loop
  relies on in \<open>step\<close> and derives, once, what a run computes. \<open>traced_runner\<close> adds the observed
  variant and shows that observation does not change the run.
\<close>

datatype Termination = HaltInstruction | NonGraphicalCell

datatype StepOutcome = Continued | Terminated Termination

datatype RunOutcome =
    BudgetExhausted usize
  | RunTerminated Termination usize

subsection \<open>Consecutive continued steps\<close>

inductive continues :: "('s \<Rightarrow> ('e + StepOutcome) \<times> 's) \<Rightarrow> nat \<Rightarrow> 's \<Rightarrow> 's \<Rightarrow> bool"
  for step where
  continues_0: "continues step 0 s s"
| continues_Suc: "step s = (Inr Continued, s') \<Longrightarrow> continues step n s' s'' \<Longrightarrow>
    continues step (Suc n) s s''"

inductive_simps continues_0_iff [simp]: "continues step 0 s s'"
inductive_simps continues_Suc_iff: "continues step (Suc n) s s'"
inductive_cases continues_SucE: "continues step (Suc n) s s'"

lemma continues_add: "continues step m s t \<Longrightarrow> continues step n t u \<Longrightarrow> continues step (m + n) s u"
  by (induction rule: continues.induct) (auto intro: continues_Suc)

lemma continues_det: "continues step n s t \<Longrightarrow> continues step n s u \<Longrightarrow> t = u"
  by (induction arbitrary: u rule: continues.induct) (auto simp: continues_Suc_iff)

lemma continues_split:
  "continues step (m + n) s u \<longleftrightarrow> (\<exists>t. continues step m s t \<and> continues step n t u)"
  by (induction m arbitrary: s) (auto simp: continues_Suc_iff)

lemma continues_invariant:
  "continues step n s t \<Longrightarrow> P s \<Longrightarrow> (\<And>s r s'. P s \<Longrightarrow> step s = (r, s') \<Longrightarrow> P s') \<Longrightarrow> P t"
  by (induction rule: continues.induct) blast+

fun add_steps :: "nat \<Rightarrow> RunOutcome \<Rightarrow> RunOutcome" where
  "add_steps k (BudgetExhausted n) = BudgetExhausted (k + n)"
| "add_steps k (RunTerminated r n) = RunTerminated r (k + n)"

lemma add_steps_add [simp]: "add_steps a (add_steps b r) = add_steps (a + b) r"
  by (cases r) auto

lemma add_steps_0 [simp]: "add_steps 0 r = r"
  by (cases r) auto

lemma ex_less_Suc_shift: "(\<exists>i. i < Suc n \<and> P i) \<longleftrightarrow> P 0 \<or> (\<exists>i. i < n \<and> P (Suc i))"
  using less_Suc_eq_0_disj by auto

subsection \<open>Bounded runs\<close>

locale bounded_runner =
  fixes step :: "'s \<Rightarrow> ('e + StepOutcome) \<times> 's"
    and reason :: "'s \<Rightarrow> Termination option"
    and run_loop :: "usize \<Rightarrow> usize \<Rightarrow> 's \<Rightarrow> ('e + RunOutcome) \<times> 's"
    and run :: "usize \<Rightarrow> 's \<Rightarrow> ('e + RunOutcome) \<times> 's"
  assumes run_loop_eq: "run_loop budget k s =
      (if k < budget then
        (case step s of
          (Inl e, s') \<Rightarrow> (Inl e, s')
        | (Inr outcome, s') \<Rightarrow>
            (case outcome of
              Terminated r \<Rightarrow> (Inr (RunTerminated r (k + 1)), s')
            | Continued \<Rightarrow> run_loop budget (k + 1) s'))
       else (Inr (BudgetExhausted k), s))"
    and run_eq: "run budget s =
      (case reason s of Some r \<Rightarrow> (Inr (RunTerminated r 0), s) | None \<Rightarrow> run_loop budget 0 s)"
    and step_stopped: "reason s = Some r \<Longrightarrow> step s = (Inr (Terminated r), s)"
    and step_terminated: "step s = (Inr (Terminated r), s') \<Longrightarrow> reason s' = Some r"
    and step_continued: "step s = (Inr Continued, s') \<Longrightarrow> reason s' = None"
begin

lemma run_loop_done [simp]: "run_loop k k s = (Inr (BudgetExhausted k), s)"
  by (subst run_loop_eq) simp

lemma run_loop_err: "k < budget \<Longrightarrow> step s = (Inl e, s') \<Longrightarrow> run_loop budget k s = (Inl e, s')"
  by (subst run_loop_eq) simp

lemma run_loop_term:
  "k < budget \<Longrightarrow> step s = (Inr (Terminated r), s') \<Longrightarrow>
    run_loop budget k s = (Inr (RunTerminated r (Suc k)), s')"
  by (subst run_loop_eq) simp

lemma run_loop_cont:
  "k < budget \<Longrightarrow> step s = (Inr Continued, s') \<Longrightarrow> run_loop budget k s = run_loop budget (Suc k) s'"
  by (subst run_loop_eq) simp

lemma step_cases:
  obtains (error) e s' where "step s = (Inl e, s')"
    | (terminated) r s' where "step s = (Inr (Terminated r), s')"
    | (continued) s' where "step s = (Inr Continued, s')"
  by (metis StepOutcome.exhaust old.sum.exhaust surj_pair)

lemmas run_loop_simps = run_loop_err run_loop_term run_loop_cont

lemma run_loop_exhausted_iff:
  "run_loop (k + n) k s = (Inr (BudgetExhausted j), t) \<longleftrightarrow> j = k + n \<and> continues step n s t"
proof (induction n arbitrary: k s)
  case 0
  then show ?case by auto
next
  case (Suc n)
  show ?case
    by (cases s rule: step_cases)
      (use Suc[of "Suc k"] in \<open>simp_all add: run_loop_simps continues_Suc_iff\<close>)
qed

lemma run_loop_terminated_iff:
  "run_loop (k + n) k s = (Inr (RunTerminated r j), t) \<longleftrightarrow>
    (\<exists>i u. i < n \<and> continues step i s u \<and> step u = (Inr (Terminated r), t) \<and> j = k + Suc i)"
proof (induction n arbitrary: k s)
  case 0
  then show ?case by auto
next
  case (Suc n)
  show ?case
    by (cases s rule: step_cases)
      (use Suc[of "Suc k"] in
        \<open>auto simp: run_loop_simps continues_Suc_iff ex_less_Suc_shift\<close>)
qed

lemma run_loop_error_iff:
  "run_loop (k + n) k s = (Inl e, t) \<longleftrightarrow>
    (\<exists>i u. i < n \<and> continues step i s u \<and> step u = (Inl e, t))"
proof (induction n arbitrary: k s)
  case 0
  then show ?case by auto
next
  case (Suc n)
  show ?case
    by (cases s rule: step_cases)
      (use Suc[of "Suc k"] in
        \<open>auto simp: run_loop_simps continues_Suc_iff ex_less_Suc_shift\<close>)
qed

lemma run_loop_shift:
  "run_loop (k + n) k s = apfst (map_ok (add_steps k)) (run_loop n 0 s)"
proof (induction n arbitrary: k s)
  case 0
  then show ?case by simp
next
  case (Suc n)
  show ?case
  proof (cases s rule: step_cases)
    case (continued s')
    then show ?thesis
      using Suc[of "Suc k" s'] Suc[of 1 s']
      by (simp add: run_loop_simps apfst_def map_prod_def map_ok_map_ok split: prod.splits)
  qed (simp_all add: run_loop_simps)
qed

lemma run_loop_split_from:
  "run_loop (k + m + n) k s =
    (case run_loop (k + m) k s of
      (Inr (BudgetExhausted j), s') \<Rightarrow> run_loop (k + m + n) (k + m) s'
    | other \<Rightarrow> other)"
proof (induction m arbitrary: k s)
  case 0
  then show ?case by simp
next
  case (Suc m)
  show ?case
  proof (cases s rule: step_cases)
    case (continued s')
    have "k + Suc m + n = Suc (k + m + n)" "k + Suc m = Suc (k + m)" by simp_all
    then show ?thesis using Suc[of "Suc k" s'] continued
      by (simp only: run_loop_cont add_Suc)
  qed (simp_all add: run_loop_simps)
qed

lemma run_loop_split:
  "run_loop (m + n) 0 s =
    (case run_loop m 0 s of
      (Inr (BudgetExhausted k), s') \<Rightarrow> apfst (map_ok (add_steps m)) (run_loop n 0 s')
    | other \<Rightarrow> other)"
  using run_loop_split_from[of 0 m n s] by (simp only: run_loop_shift[of m n] add_0)

lemma continues_live: "continues step n s t \<Longrightarrow> reason s = None \<Longrightarrow> reason t = None"
  by (induction rule: continues.induct) (auto dest: step_continued)

text \<open>A run that comes back to a state it has passed never stops.\<close>

lemma continues_repeat: "continues step j u u \<Longrightarrow> continues step (k * j) u u"
  by (induction k) (auto intro: continues_add)

lemma cycle_continues:
  assumes "continues step i s u" and "continues step j u u" and "0 < j"
  shows "\<exists>t. continues step n s t"
proof -
  have "n \<le> i + n * j" using assms(3) by (cases j) auto
  moreover have "continues step (i + n * j) s u"
    using assms(1) continues_repeat[OF assms(2)] by (rule continues_add)
  ultimately show ?thesis
    using continues_split[of step n "i + n * j - n" s u] by auto
qed

text \<open>Running \<open>m + n\<close> steps is running \<open>m\<close> and, if the budget ran out, \<open>n\<close> more.\<close>

lemma run_split:
  "run (m + n) s =
    (case run m s of
      (Inr (BudgetExhausted k), s') \<Rightarrow> apfst (map_ok (add_steps m)) (run n s')
    | other \<Rightarrow> other)"
proof (cases "reason s")
  case (Some r)
  then show ?thesis by (simp add: run_eq)
next
  case None
  have "reason s' = None" if "run_loop m 0 s = (Inr (BudgetExhausted k), s')" for k s'
    using that run_loop_exhausted_iff[of 0 m s k s'] continues_live None by auto
  then show ?thesis
    using None by (auto simp: run_eq run_loop_split split: sum.splits RunOutcome.splits prod.splits)
qed

lemma run_exhausted_iff:
  "run n s = (Inr (BudgetExhausted j), t) \<longleftrightarrow> reason s = None \<and> j = n \<and> continues step n s t"
  using run_loop_exhausted_iff[of 0 n s j t] by (auto simp: run_eq split: option.splits)

lemma cycle_never_stops:
  assumes "continues step i s u" and "continues step j u u" and "0 < j" and "reason s = None"
  shows "\<exists>t. run n s = (Inr (BudgetExhausted n), t)"
  using cycle_continues[OF assms(1-3), of n] assms(4) by (auto simp: run_exhausted_iff)

lemma run_terminated_iff:
  assumes "reason s = None"
  shows "run n s = (Inr (RunTerminated r j), t) \<longleftrightarrow>
    (\<exists>i u. i < n \<and> continues step i s u \<and> step u = (Inr (Terminated r), t) \<and> j = Suc i)"
  using run_loop_terminated_iff[of 0 n s r j t] assms by (simp add: run_eq)

lemma run_error_iff:
  "run n s = (Inl e, t) \<longleftrightarrow>
    reason s = None \<and> (\<exists>i u. i < n \<and> continues step i s u \<and> step u = (Inl e, t))"
  using run_loop_error_iff[of 0 n s e t] by (auto simp: run_eq split: option.splits)

lemma run_terminated_reason:
  assumes "run n s = (Inr (RunTerminated r j), t)"
  shows "reason t = Some r \<and> j \<le> n"
proof (cases "reason s")
  case (Some q)
  then show ?thesis using assms by (simp add: run_eq)
next
  case None
  then show ?thesis using assms by (auto simp: run_terminated_iff dest: step_terminated)
qed

lemma run_stopped: "reason s = Some r \<Longrightarrow> run n s = (Inr (RunTerminated r 0), s)"
  by (simp add: run_eq)

lemma run_again_after_termination:
  "run n s = (Inr (RunTerminated r j), t) \<Longrightarrow> run m t = (Inr (RunTerminated r 0), t)"
  by (rule run_stopped) (simp add: run_terminated_reason)

lemma run_invariant:
  assumes "run n s = (r, t)" and "P s" and "\<And>s r s'. P s \<Longrightarrow> step s = (r, s') \<Longrightarrow> P s'"
  shows "P t"
proof -
  have inv: "P u" if "continues step i s u" for i u
    using that assms(2,3) by (rule continues_invariant)
  consider (stopped) q where "reason s = Some q" | (error) e where "reason s = None" "r = Inl e"
    | (budget) j where "r = Inr (BudgetExhausted j)"
    | (finished) q j where "reason s = None" "r = Inr (RunTerminated q j)"
    by (metis RunOutcome.exhaust old.sum.exhaust option.exhaust)
  then show ?thesis
  proof cases
    case stopped
    then show ?thesis using assms(1,2) by (simp add: run_stopped)
  next
    case error
    then obtain i u where "continues step i s u" "step u = (Inl e, t)"
      using assms(1) by (auto simp: run_error_iff)
    then show ?thesis using inv assms(3) by blast
  next
    case budget
    then show ?thesis using assms(1) inv by (auto simp: run_exhausted_iff)
  next
    case finished
    then obtain i u where "continues step i s u" "step u = (Inr (Terminated q), t)"
      using assms(1) by (auto simp: run_terminated_iff)
    then show ?thesis using inv assms(3) by blast
  qed
qed

end

text \<open>Where a failing step leaves the state alone, so does a failing run, after its last step.\<close>

locale atomic_runner = bounded_runner step reason run_loop run
  for step :: "'s \<Rightarrow> ('e + StepOutcome) \<times> 's"
    and reason :: "'s \<Rightarrow> Termination option"
    and run_loop :: "usize \<Rightarrow> usize \<Rightarrow> 's \<Rightarrow> ('e + RunOutcome) \<times> 's"
    and run :: "usize \<Rightarrow> 's \<Rightarrow> ('e + RunOutcome) \<times> 's" +
  assumes step_error: "step s = (Inl e, s') \<Longrightarrow> s' = s"
begin

lemma run_error_atomic:
  "run n s = (Inl e, t) \<longleftrightarrow>
    reason s = None \<and> (\<exists>i. i < n \<and> continues step i s t \<and> step t = (Inl e, t))"
  using step_error by (auto simp: run_error_iff)

text \<open>A failed run fails again at once, with the same error, whatever budget it is given.\<close>

lemma run_error_again: "run n s = (Inl e, t) \<Longrightarrow> 0 < m \<Longrightarrow> run m t = (Inl e, t)"
  by (auto simp: run_error_atomic continues_live intro!: exI[of _ 0])

end

subsection \<open>Observed runs\<close>

locale traced_runner = bounded_runner step reason run_loop run
  for step :: "'s \<Rightarrow> ('e + StepOutcome) \<times> 's"
    and reason :: "'s \<Rightarrow> Termination option"
    and run_loop :: "usize \<Rightarrow> usize \<Rightarrow> 's \<Rightarrow> ('e + RunOutcome) \<times> 's"
    and run :: "usize \<Rightarrow> 's \<Rightarrow> ('e + RunOutcome) \<times> 's" +
  fixes tstep :: "('o \<Rightarrow> 'tr \<Rightarrow> 'o) \<Rightarrow> 's \<Rightarrow> 'o \<Rightarrow> ('e + StepOutcome) \<times> 's \<times> 'o"
    and trun_loop :: "('o \<Rightarrow> 'tr \<Rightarrow> 'o) \<Rightarrow> usize \<Rightarrow> usize \<Rightarrow> 's \<Rightarrow> 'o \<Rightarrow> ('e + RunOutcome) \<times> 's \<times> 'o"
    and trun :: "('o \<Rightarrow> 'tr \<Rightarrow> 'o) \<Rightarrow> usize \<Rightarrow> 's \<Rightarrow> 'o \<Rightarrow> ('e + RunOutcome) \<times> 's \<times> 'o"
    and evidence :: "'s \<Rightarrow> 'tr"
  assumes tstep_eq: "tstep observer s obs =
      (fst (step s), snd (step s), observer obs (evidence s))"
    and trun_loop_eq: "trun_loop observer budget k s obs =
      (if k < budget then
        (case tstep observer s obs of
          (Inl e, s', obs') \<Rightarrow> (Inl e, s', obs')
        | (Inr outcome, s', obs') \<Rightarrow>
            (case outcome of
              Terminated r \<Rightarrow> (Inr (RunTerminated r (k + 1)), s', obs')
            | Continued \<Rightarrow> trun_loop observer budget (k + 1) s' obs'))
       else (Inr (BudgetExhausted k), s, obs))"
    and trun_eq: "trun observer budget s obs =
      (case reason s of
        Some r \<Rightarrow> (Inr (RunTerminated r 0), s, obs)
      | None \<Rightarrow> trun_loop observer budget 0 s obs)"
begin

lemma trun_loop_err:
  "k < budget \<Longrightarrow> step s = (Inl e, s') \<Longrightarrow>
    trun_loop observer budget k s obs = (Inl e, s', observer obs (evidence s))"
  by (subst trun_loop_eq) (simp add: tstep_eq)

lemma trun_loop_term:
  "k < budget \<Longrightarrow> step s = (Inr (Terminated r), s') \<Longrightarrow>
    trun_loop observer budget k s obs =
      (Inr (RunTerminated r (Suc k)), s', observer obs (evidence s))"
  by (subst trun_loop_eq) (simp add: tstep_eq)

lemma trun_loop_cont:
  "k < budget \<Longrightarrow> step s = (Inr Continued, s') \<Longrightarrow>
    trun_loop observer budget k s obs =
      trun_loop observer budget (Suc k) s' (observer obs (evidence s))"
  by (subst trun_loop_eq) (simp add: tstep_eq)

lemma trun_loop_done [simp]: "trun_loop observer k k s obs = (Inr (BudgetExhausted k), s, obs)"
  by (subst trun_loop_eq) simp

lemmas trun_loop_simps = trun_loop_err trun_loop_term trun_loop_cont

lemma trun_loop_project:
  "\<exists>obs'. trun_loop observer (k + n) k s obs =
    (fst (run_loop (k + n) k s), snd (run_loop (k + n) k s), obs')"
proof (induction n arbitrary: k s obs)
  case 0
  then show ?case by simp
next
  case (Suc n)
  show ?case
    by (cases s rule: step_cases)
      (use Suc[of "Suc k"] in \<open>simp_all add: run_loop_simps trun_loop_simps\<close>)
qed

text \<open>Observation never changes the outcome or the machine.\<close>

lemma trun_project:
  "\<exists>obs'. trun observer n s obs = (fst (run n s), snd (run n s), obs')"
  using trun_loop_project[of observer 0 n s obs]
  by (auto simp: trun_eq run_eq split: option.splits)

text \<open>
  The observer is handed one record per requested step, in order: the evidence of the state
  each step starts from.
\<close>

lemma trun_loop_evidence:
  assumes "trun_loop observer (k + n) k s obs = (r, t, obs')"
  shows "\<exists>trs. obs' = foldl observer obs trs \<and>
    (\<forall>i < length trs. \<exists>u. continues step i s u \<and> trs ! i = evidence u) \<and>
    (case r of
      Inl _ \<Rightarrow> trs \<noteq> []
    | Inr (BudgetExhausted j) \<Rightarrow> j = k + length trs
    | Inr (RunTerminated _ j) \<Rightarrow> j = k + length trs)"
  using assms
proof (induction n arbitrary: k s obs)
  case 0
  then show ?case by (auto intro: exI[of _ "[]"])
next
  case (Suc n)
  show ?case
  proof (cases s rule: step_cases)
    case (continued s')
    then have "trun_loop observer (Suc k + n) (Suc k) s' (observer obs (evidence s)) = (r, t, obs')"
      using Suc.prems by (simp add: trun_loop_simps)
    from Suc.IH[OF this] obtain trs where trs: "obs' = foldl observer (observer obs (evidence s)) trs"
      "\<forall>i < length trs. \<exists>u. continues step i s' u \<and> trs ! i = evidence u"
      "case r of Inl _ \<Rightarrow> trs \<noteq> [] | Inr (BudgetExhausted j) \<Rightarrow> j = Suc k + length trs
        | Inr (RunTerminated _ j) \<Rightarrow> j = Suc k + length trs" by blast
    have "\<exists>u. continues step i s u \<and> (evidence s # trs) ! i = evidence u" if "i < Suc (length trs)" for i
      using that trs(2) continued by (cases i) (auto simp: continues_Suc_iff)
    then show ?thesis
      using trs(1,3) by (intro exI[of _ "evidence s # trs"])
        (auto split: sum.splits RunOutcome.splits)
  qed (use Suc.prems in \<open>auto simp: trun_loop_simps intro!: exI[of _ "[evidence s]"]\<close>)
qed

end

subsection \<open>Commuting runners\<close>

text \<open>
  When every step of one runner commutes with an embedding into another, on states an
  invariant holds of, so does every bounded run.
\<close>

locale runner_embedding =
  source_runner: bounded_runner step reason run_loop run +
  target_runner: bounded_runner step' reason' run_loop' run'
  for step :: "'s \<Rightarrow> ('e + StepOutcome) \<times> 's"
    and reason :: "'s \<Rightarrow> Termination option"
    and run_loop :: "usize \<Rightarrow> usize \<Rightarrow> 's \<Rightarrow> ('e + RunOutcome) \<times> 's"
    and run :: "usize \<Rightarrow> 's \<Rightarrow> ('e + RunOutcome) \<times> 's"
    and step' :: "'t \<Rightarrow> ('f + StepOutcome) \<times> 't"
    and reason' :: "'t \<Rightarrow> Termination option"
    and run_loop' :: "usize \<Rightarrow> usize \<Rightarrow> 't \<Rightarrow> ('f + RunOutcome) \<times> 't"
    and run' :: "usize \<Rightarrow> 't \<Rightarrow> ('f + RunOutcome) \<times> 't" +
  fixes embed :: "'s \<Rightarrow> 't"
    and embed_error :: "'e \<Rightarrow> 'f"
    and inv :: "'s \<Rightarrow> bool"
  assumes inv_step: "inv s \<Longrightarrow> step s = (r, s') \<Longrightarrow> inv s'"
    and embed_reason: "reason' (embed s) = reason s"
    and embed_step: "inv s \<Longrightarrow> step s = (r, s') \<Longrightarrow> step' (embed s) = (map_err embed_error r, embed s')"
begin

lemma embed_run_loop:
  "inv s \<Longrightarrow> run_loop' (k + n) k (embed s) =
    (map_err embed_error (fst (run_loop (k + n) k s)), embed (snd (run_loop (k + n) k s)))"
proof (induction n arbitrary: k s)
  case 0
  then show ?case by simp
next
  case (Suc n)
  show ?case
  proof (cases s rule: source_runner.step_cases)
    case (error e s')
    then show ?thesis
      using embed_step[OF Suc.prems error] by (simp add: source_runner.run_loop_simps target_runner.run_loop_simps)
  next
    case (terminated r s')
    then show ?thesis
      using embed_step[OF Suc.prems terminated]
      by (simp add: source_runner.run_loop_simps target_runner.run_loop_simps)
  next
    case (continued s')
    have "run_loop' (Suc k + n) (Suc k) (embed s') =
      (map_err embed_error (fst (run_loop (Suc k + n) (Suc k) s')), embed (snd (run_loop (Suc k + n) (Suc k) s')))"
      by (rule Suc.IH) (rule inv_step[OF Suc.prems continued])
    then show ?thesis
      using embed_step[OF Suc.prems continued] continued
      by (simp add: source_runner.run_loop_simps target_runner.run_loop_simps)
  qed
qed

lemma embed_run:
  assumes "inv s"
  shows "run' n (embed s) = (map_err embed_error (fst (run n s)), embed (snd (run n s)))"
  using embed_run_loop[OF assms, of 0 n]
  by (simp add: source_runner.run_eq target_runner.run_eq embed_reason split: option.splits)

end

end
