(* ===== verification/Machine.thy ===== *)
theory Machine
  imports Loader Mode Runner
begin

text \<open>
  \<open>domain/machine.rs\<close> and \<open>domain/trace.rs\<close>: the interpreter-authority classic machine. A
  method that takes \<open>&mut self\<close> returns its result together with the machine it leaves, so
  what an error leaves behind is part of the model. An observer is a function that folds the
  emitted \<open>StepTrace\<close> into a state of the caller's choosing.
\<close>

subsection \<open>State\<close>

record Registers =
  accumulator :: cword
  code_pointer :: cword
  data_pointer :: cword

definition registers_default :: Registers where
  "registers_default = \<lparr>accumulator = word_ZERO, code_pointer = word_ZERO, data_pointer = word_ZERO\<rparr>"

datatype MachineStateError = InputCursorOutOfRange usize usize

record MachineIoState =
  io_input :: "u8 list"
  io_input_cursor :: usize
  io_output :: "u8 list"
  io_termination :: "Termination option"

definition machine_io_state_new ::
  "u8 list \<Rightarrow> usize \<Rightarrow> u8 list \<Rightarrow> Termination option \<Rightarrow> MachineStateError + MachineIoState" where
  "machine_io_state_new input input_cursor out term_reason =
    (if input_cursor > length input then Err (InputCursorOutOfRange (length input) input_cursor)
     else Ok \<lparr>io_input = input, io_input_cursor = input_cursor, io_output = out,
              io_termination = term_reason\<rparr>)"

record MachineState =
  st_io :: MachineIoState
  st_memory :: Memory
  st_registers :: Registers

definition machine_state_new :: "Memory \<Rightarrow> Registers \<Rightarrow> MachineIoState \<Rightarrow> MachineState" where
  "machine_state_new memory registers io =
    \<lparr>st_io = io, st_memory = memory, st_registers = registers\<rparr>"

datatype InterpreterUndefinedBehavior = InvalidSelfEncryptionTarget cword cword

datatype MachineError =
    InvalidEncryptionTarget cword cword
  | MemoryFailure MemoryError
  | TranslationTableInvariant
  | UnsupportedInterpreterBehavior InterpreterUndefinedBehavior

datatype Instruction = Crazy | Halt | Input | JumpCode | JumpData | NoOperation | Output | Rotate

record TransitionPlan =
  plan_input_advance :: bool
  plan_memory_write :: "(cword \<times> cword) option"
  plan_output :: "u8 option"
  plan_registers :: Registers

record Machine =
  m_input :: "u8 list"
  m_input_cursor :: usize
  m_memory :: Memory
  m_output :: "u8 list"
  m_registers :: Registers
  m_termination :: "Termination option"

subsection \<open>Trace records\<close>

record MachineObservation =
  obs_input_consumed :: usize
  obs_output_len :: usize
  obs_registers :: Registers
  obs_termination :: "Termination option"

record MemoryWrite =
  mw_address :: cword
  mw_after :: cword
  mw_before :: cword

record MemoryDelta =
  delta_data :: "MemoryWrite option"
  delta_encryption :: "MemoryWrite option"

definition memory_delta_default :: MemoryDelta where
  "memory_delta_default = \<lparr>delta_data = None, delta_encryption = None\<rparr>"

definition changed_cells :: "MemoryDelta \<Rightarrow> usize" where
  "changed_cells self =
    (case (delta_data self, delta_encryption self) of
      (None, None) \<Rightarrow> 0
    | (Some data, Some encryption) \<Rightarrow>
        if word_value (mw_address data) \<noteq> word_value (mw_address encryption) then 2 else 1
    | _ \<Rightarrow> 1)"

datatype TraceInput = TraceByte u8 | EndOfInput

record StepTrace =
  tr_after :: MachineObservation
  tr_before :: MachineObservation
  tr_decoded :: "u8 option"
  tr_fetched_cell :: "cword option"
  tr_input :: "TraceInput option"
  tr_memory_delta :: MemoryDelta
  tr_mode :: ExecutionMode
  tr_output :: "u8 option"
  tr_result :: "MachineError + StepOutcome"

subsection \<open>Instructions\<close>

definition interpreter_instruction :: "u8 \<Rightarrow> Instruction" where
  "interpreter_instruction decoded =
    (if decoded = 42 then Rotate
     else if decoded = 47 then Input
     else if decoded = 60 then Output
     else if decoded = 105 then JumpCode
     else if decoded = 106 then JumpData
     else if decoded = 112 then Crazy
     else if decoded = 118 then Halt
     else NoOperation)"

definition specification_instruction :: "u8 \<Rightarrow> Instruction" where
  "specification_instruction decoded =
    (if decoded = 42 then Rotate
     else if decoded = 47 then Output
     else if decoded = 60 then Input
     else if decoded = 105 then JumpCode
     else if decoded = 106 then JumpData
     else if decoded = 112 then Crazy
     else if decoded = 118 then Halt
     else NoOperation)"

definition instruction :: "u8 \<Rightarrow> ExecutionMode \<Rightarrow> Instruction" where
  "instruction decoded mode =
    (case mode of
      Interpreter \<Rightarrow> interpreter_instruction decoded
    | Specification \<Rightarrow> specification_instruction decoded)"

subsection \<open>Planning a transition\<close>

definition plan_crazy :: "Machine \<Rightarrow> TransitionPlan \<Rightarrow> MachineError + TransitionPlan" where
  "plan_crazy self p =
    (case memory_read (m_memory self) (data_pointer (m_registers self)) of
      Inl e \<Rightarrow> Inl (MemoryFailure e)
    | Inr cell \<Rightarrow>
        (let v = word_crazy cell (accumulator (m_registers self))
         in Inr (p\<lparr>plan_registers := (plan_registers p)\<lparr>accumulator := v\<rparr>,
                   plan_memory_write := Some (data_pointer (m_registers self), v)\<rparr>)))"

definition plan_input :: "Machine \<Rightarrow> TransitionPlan \<Rightarrow> TransitionPlan" where
  "plan_input self p =
    (case get (m_input self) (m_input_cursor self) of
      Some b \<Rightarrow> p\<lparr>plan_registers := (plan_registers p)\<lparr>accumulator := word_from_byte b\<rparr>,
                  plan_input_advance := True\<rparr>
    | None \<Rightarrow> p\<lparr>plan_registers := (plan_registers p)\<lparr>accumulator := word_MAX\<rparr>\<rparr>)"

definition plan_rotate :: "Machine \<Rightarrow> TransitionPlan \<Rightarrow> MachineError + TransitionPlan" where
  "plan_rotate self p =
    (case memory_read (m_memory self) (data_pointer (m_registers self)) of
      Inl e \<Rightarrow> Inl (MemoryFailure e)
    | Inr cell \<Rightarrow>
        (let v = word_rotate cell
         in Inr (p\<lparr>plan_registers := (plan_registers p)\<lparr>accumulator := v\<rparr>,
                   plan_memory_write := Some (data_pointer (m_registers self), v)\<rparr>)))"

definition plan :: "Machine \<Rightarrow> Instruction \<Rightarrow> MachineError + TransitionPlan" where
  "plan self decoded =
    (let p = \<lparr>plan_input_advance = False, plan_memory_write = None, plan_output = None,
              plan_registers = m_registers self\<rparr>
     in case decoded of
          Crazy \<Rightarrow> plan_crazy self p
        | Halt \<Rightarrow> Inr p
        | NoOperation \<Rightarrow> Inr p
        | Input \<Rightarrow> Inr (plan_input self p)
        | JumpCode \<Rightarrow>
            (case memory_read (m_memory self) (data_pointer (m_registers self)) of
              Inl e \<Rightarrow> Inl (MemoryFailure e)
            | Inr cell \<Rightarrow> Inr (p\<lparr>plan_registers := (plan_registers p)\<lparr>code_pointer := cell\<rparr>\<rparr>))
        | JumpData \<Rightarrow>
            (case memory_read (m_memory self) (data_pointer (m_registers self)) of
              Inl e \<Rightarrow> Inl (MemoryFailure e)
            | Inr cell \<Rightarrow> Inr (p\<lparr>plan_registers := (plan_registers p)\<lparr>data_pointer := cell\<rparr>\<rparr>))
        | Output \<Rightarrow>
            Inr (p\<lparr>plan_output := Some (word_low_byte (accumulator (m_registers self)))\<rparr>)
        | Rotate \<Rightarrow> plan_rotate self p)"

subsection \<open>Validation, evidence and commit\<close>

definition validate_encryption ::
  "Machine \<Rightarrow> TransitionPlan \<Rightarrow> ExecutionMode \<Rightarrow> MachineError + cword" where
  "validate_encryption self p mode =
    (let pointer = code_pointer (plan_registers p);
         target = (case plan_memory_write p of
             Some (write_pointer, v) \<Rightarrow>
               if write_pointer = pointer then Inr v
               else map_err MemoryFailure (memory_read (m_memory self) pointer)
           | None \<Rightarrow> map_err MemoryFailure (memory_read (m_memory self) pointer))
     in case target of
          Inl e \<Rightarrow> Inl e
        | Inr t \<Rightarrow>
            if \<not> word_is_graphical t then
              (case mode of
                Interpreter \<Rightarrow>
                  Inl (UnsupportedInterpreterBehavior (InvalidSelfEncryptionTarget pointer t))
              | Specification \<Rightarrow> Inl (InvalidEncryptionTarget pointer t))
            else ok_or TranslationTableInvariant (encrypt t))"

definition memory_delta :: "Machine \<Rightarrow> TransitionPlan \<Rightarrow> cword \<Rightarrow> MachineError + MemoryDelta" where
  "memory_delta self p encrypted =
    (let encryption_pointer = code_pointer (plan_registers p);
         data = (case plan_memory_write p of
             Some (write_pointer, v) \<Rightarrow>
               if write_pointer \<noteq> encryption_pointer then
                 (case memory_read (m_memory self) write_pointer of
                   Inl e \<Rightarrow> Inl (MemoryFailure e)
                 | Inr before \<Rightarrow>
                     Inr (if before \<noteq> v
                          then Some \<lparr>mw_address = write_pointer, mw_after = v, mw_before = before\<rparr>
                          else None))
               else Inr None
           | None \<Rightarrow> Inr None)
     in case data of
          Inl e \<Rightarrow> Inl e
        | Inr d \<Rightarrow>
            (case memory_read (m_memory self) encryption_pointer of
              Inl e \<Rightarrow> Inl (MemoryFailure e)
            | Inr encryption_before \<Rightarrow>
                Inr \<lparr>delta_data = d,
                     delta_encryption =
                       (if encryption_before \<noteq> encrypted
                        then Some \<lparr>mw_address = encryption_pointer, mw_after = encrypted,
                                   mw_before = encryption_before\<rparr>
                        else None)\<rparr>))"

definition commit :: "Machine \<Rightarrow> TransitionPlan \<Rightarrow> cword \<Rightarrow> (MachineError + unit) \<times> Machine" where
  "commit self p encrypted =
    (let encryption_pointer = code_pointer (plan_registers p);
         written = (case plan_memory_write p of
             Some (write_pointer, v) \<Rightarrow>
               if write_pointer \<noteq> encryption_pointer
               then memory_replace (m_memory self) write_pointer v
               else Inr (m_memory self)
           | None \<Rightarrow> Inr (m_memory self))
     in case written of
          Inl e \<Rightarrow> (Inl (MemoryFailure e), self)
        | Inr mem1 \<Rightarrow>
            (case memory_replace mem1 encryption_pointer encrypted of
              Inl e \<Rightarrow> (Inl (MemoryFailure e), self\<lparr>m_memory := mem1\<rparr>)
            | Inr mem2 \<Rightarrow>
                (Inr (),
                 self\<lparr>m_memory := mem2,
                      m_registers :=
                        \<lparr>accumulator = accumulator (plan_registers p),
                         code_pointer = word_successor (code_pointer (plan_registers p)),
                         data_pointer = word_successor (data_pointer (plan_registers p))\<rparr>,
                      m_input_cursor :=
                        (if plan_input_advance p then m_input_cursor self + 1
                         else m_input_cursor self),
                      m_output :=
                        (case plan_output p of Some b \<Rightarrow> m_output self @ [b] | None \<Rightarrow> m_output self)\<rparr>)))"

subsection \<open>One step\<close>

definition step_with_delta_in_mode ::
  "ExecutionMode \<Rightarrow> Machine \<Rightarrow> (MachineError + StepOutcome \<times> MemoryDelta) \<times> Machine" where
  "step_with_delta_in_mode mode self =
    (case m_termination self of
      Some r \<Rightarrow> (Inr (Terminated r, memory_delta_default), self)
    | None \<Rightarrow>
      (case memory_read (m_memory self) (code_pointer (m_registers self)) of
        Inl e \<Rightarrow> (Inl (MemoryFailure e), self)
      | Inr cell \<Rightarrow>
        if \<not> word_is_graphical cell then
          (if mode = Interpreter then (Inr (Continued, memory_delta_default), self)
           else (Inr (Terminated NonGraphicalCell, memory_delta_default),
                 self\<lparr>m_termination := Some NonGraphicalCell\<rparr>))
        else
          (case decode_instruction cell (code_pointer (m_registers self)) of
            None \<Rightarrow> (Inl TranslationTableInvariant, self)
          | Some decoded \<Rightarrow>
            let decoded_instruction = instruction decoded mode in
            if decoded_instruction = Halt then
              (Inr (Terminated HaltInstruction, memory_delta_default),
               self\<lparr>m_termination := Some HaltInstruction\<rparr>)
            else
              (case plan self decoded_instruction of
                Inl e \<Rightarrow> (Inl e, self)
              | Inr p \<Rightarrow>
                (case validate_encryption self p mode of
                  Inl e \<Rightarrow> (Inl e, self)
                | Inr encrypted \<Rightarrow>
                  (case memory_delta self p encrypted of
                    Inl e \<Rightarrow> (Inl e, self)
                  | Inr delta \<Rightarrow>
                    (case commit self p encrypted of
                      (Inl e, self') \<Rightarrow> (Inl e, self')
                    | (Inr _, self') \<Rightarrow> (Inr (Continued, delta), self'))))))))"

definition step_in_mode :: "ExecutionMode \<Rightarrow> Machine \<Rightarrow> (MachineError + StepOutcome) \<times> Machine" where
  "step_in_mode mode self = apfst (map_ok fst) (step_with_delta_in_mode mode self)"

definition step :: "Machine \<Rightarrow> (MachineError + StepOutcome) \<times> Machine" where
  "step self = step_in_mode Interpreter self"

subsection \<open>Observed steps\<close>

definition observation :: "Machine \<Rightarrow> MachineObservation" where
  "observation self =
    \<lparr>obs_input_consumed = m_input_cursor self, obs_output_len = length (m_output self),
     obs_registers = m_registers self, obs_termination = m_termination self\<rparr>"

definition option_filter :: "('a \<Rightarrow> bool) \<Rightarrow> 'a option \<Rightarrow> 'a option" where
  "option_filter P x = (case x of Some v \<Rightarrow> if P v then Some v else None | None \<Rightarrow> None)"

text \<open>The record the observer receives: everything is read from the machine before and after.\<close>

definition step_trace :: "ExecutionMode \<Rightarrow> Machine \<Rightarrow> StepTrace" where
  "step_trace mode self =
    (let before = observation self;
         fetched_cell = (if obs_termination before = None
           then (case memory_read (m_memory self) (code_pointer (obs_registers before)) of
                   Inl _ \<Rightarrow> None | Inr cell \<Rightarrow> Some cell)
           else None);
         decoded = Option.bind (option_filter word_is_graphical fetched_cell)
           (\<lambda>cell. decode_instruction cell (code_pointer (obs_registers before)));
         decoded_instruction = map_option (\<lambda>b. instruction b mode) decoded;
         execution = step_with_delta_in_mode mode self;
         self' = snd execution;
         result = map_ok fst (fst execution);
         delta = (case fst execution of Inr (_, d) \<Rightarrow> d | Inl _ \<Rightarrow> memory_delta_default);
         after = observation self';
         input = (if result = Inr Continued \<and> decoded_instruction = Some Input then
                    (if obs_input_consumed after > obs_input_consumed before
                     then map_option TraceByte (get (m_input self') (obs_input_consumed before))
                     else Some EndOfInput)
                  else None);
         out = (if obs_output_len after > obs_output_len before
                then get (m_output self') (obs_output_len before) else None)
     in \<lparr>tr_after = after, tr_before = before, tr_decoded = decoded,
         tr_fetched_cell = fetched_cell, tr_input = input, tr_memory_delta = delta,
         tr_mode = mode, tr_output = out, tr_result = result\<rparr>)"

definition step_traced_in_mode ::
  "ExecutionMode \<Rightarrow> ('o \<Rightarrow> StepTrace \<Rightarrow> 'o) \<Rightarrow> Machine \<Rightarrow> 'o \<Rightarrow>
    (MachineError + StepOutcome) \<times> Machine \<times> 'o" where
  "step_traced_in_mode mode observer self obs =
    (let execution = step_with_delta_in_mode mode self
     in (map_ok fst (fst execution), snd execution, observer obs (step_trace mode self)))"

subsection \<open>Bounded runs\<close>

function run_loop_in_mode ::
  "ExecutionMode \<Rightarrow> usize \<Rightarrow> usize \<Rightarrow> Machine \<Rightarrow> (MachineError + RunOutcome) \<times> Machine" where
  "run_loop_in_mode mode step_budget steps self =
    (if steps < step_budget then
      (case step_in_mode mode self of
        (Inl e, self') \<Rightarrow> (Inl e, self')
      | (Inr outcome, self') \<Rightarrow>
          (case outcome of
            Terminated r \<Rightarrow> (Inr (RunTerminated r (steps + 1)), self')
          | Continued \<Rightarrow> run_loop_in_mode mode step_budget (steps + 1) self'))
     else (Inr (BudgetExhausted steps), self))"
  by pat_completeness auto
termination
  by (relation "measure (\<lambda>(_, budget, steps, _). budget - steps)") auto

declare run_loop_in_mode.simps [simp del]

definition run_in_mode ::
  "ExecutionMode \<Rightarrow> usize \<Rightarrow> Machine \<Rightarrow> (MachineError + RunOutcome) \<times> Machine" where
  "run_in_mode mode step_budget self =
    (case m_termination self of
      Some r \<Rightarrow> (Inr (RunTerminated r 0), self)
    | None \<Rightarrow> run_loop_in_mode mode step_budget 0 self)"

definition run :: "usize \<Rightarrow> Machine \<Rightarrow> (MachineError + RunOutcome) \<times> Machine" where
  "run step_budget self = run_in_mode Interpreter step_budget self"

function run_traced_loop_in_mode ::
  "ExecutionMode \<Rightarrow> ('o \<Rightarrow> StepTrace \<Rightarrow> 'o) \<Rightarrow> usize \<Rightarrow> usize \<Rightarrow> Machine \<Rightarrow> 'o \<Rightarrow>
    (MachineError + RunOutcome) \<times> Machine \<times> 'o" where
  "run_traced_loop_in_mode mode observer step_budget steps self obs =
    (if steps < step_budget then
      (case step_traced_in_mode mode observer self obs of
        (Inl e, self', obs') \<Rightarrow> (Inl e, self', obs')
      | (Inr outcome, self', obs') \<Rightarrow>
          (case outcome of
            Terminated r \<Rightarrow> (Inr (RunTerminated r (steps + 1)), self', obs')
          | Continued \<Rightarrow>
              run_traced_loop_in_mode mode observer step_budget (steps + 1) self' obs'))
     else (Inr (BudgetExhausted steps), self, obs))"
  by pat_completeness auto
termination
  by (relation "measure (\<lambda>(_, _, budget, steps, _, _). budget - steps)") auto

declare run_traced_loop_in_mode.simps [simp del]

definition run_traced_in_mode ::
  "ExecutionMode \<Rightarrow> ('o \<Rightarrow> StepTrace \<Rightarrow> 'o) \<Rightarrow> usize \<Rightarrow> Machine \<Rightarrow> 'o \<Rightarrow>
    (MachineError + RunOutcome) \<times> Machine \<times> 'o" where
  "run_traced_in_mode mode observer step_budget self obs =
    (case m_termination self of
      Some r \<Rightarrow> (Inr (RunTerminated r 0), self, obs)
    | None \<Rightarrow> run_traced_loop_in_mode mode observer step_budget 0 self obs)"

subsection \<open>Construction and checkpoints\<close>

definition with_registers :: "Memory \<Rightarrow> u8 list \<Rightarrow> Registers \<Rightarrow> Machine" where
  "with_registers memory input registers =
    \<lparr>m_input = input, m_input_cursor = 0, m_memory = memory, m_output = [],
     m_registers = registers, m_termination = None\<rparr>"

definition machine_new :: "Memory \<Rightarrow> u8 list \<Rightarrow> Machine" where
  "machine_new memory input = with_registers memory input registers_default"

definition from_source :: "u8 list \<Rightarrow> u8 list \<Rightarrow> LoadError + Machine" where
  "from_source source input = map_ok (\<lambda>memory. machine_new memory input) (load source)"

definition from_snapshot :: "MachineState \<Rightarrow> Machine" where
  "from_snapshot state =
    \<lparr>m_input = io_input (st_io state), m_input_cursor = io_input_cursor (st_io state),
     m_memory = st_memory state, m_output = io_output (st_io state),
     m_registers = st_registers state, m_termination = io_termination (st_io state)\<rparr>"

definition snapshot_state :: "Machine \<Rightarrow> MachineState" where
  "snapshot_state self =
    \<lparr>st_io = \<lparr>io_input = m_input self, io_input_cursor = m_input_cursor self,
              io_output = m_output self, io_termination = m_termination self\<rparr>,
     st_memory = m_memory self, st_registers = m_registers self\<rparr>"

definition memory_word :: "Machine \<Rightarrow> cword \<Rightarrow> MemoryError + cword" where
  "memory_word self address = memory_read (m_memory self) address"

end
