(* ===== verification/Profile.thy ===== *)
theory Profile
  imports Prelude "HOL-Library.Char_ord"
begin

text \<open>
  \<open>domain/profile.rs\<close> and \<open>domain/profile_generated.rs\<close>: the canonical target profiles, the
  feature sets, and the fail-closed preflight of a profile against a runtime, with the text of
  its diagnostics. A \<open>Formatter\<close> is the text written so far; a write appends to it (a sink that
  fails is not modelled).
\<close>

unbundle bit_operations_syntax

subsection \<open>Features\<close>

datatype ProfileKind = Current | HistoricalConformance | Versioned

fun kind_stable_id :: "ProfileKind \<Rightarrow> string" where
  "kind_stable_id Current = ''current''"
| "kind_stable_id HistoricalConformance = ''historical-conformance''"
| "kind_stable_id Versioned = ''versioned''"

datatype ProfileFeature =
    ByteInput | ByteOutput | CrazyOperation | Deterministic
  | PostInstructionEncryption | RotateFeature | SelfModification | SequentialGuest

fun feature_bit :: "ProfileFeature \<Rightarrow> 16 word" where
  "feature_bit ByteInput = push_bit 0 1"
| "feature_bit ByteOutput = push_bit 1 1"
| "feature_bit CrazyOperation = push_bit 2 1"
| "feature_bit Deterministic = push_bit 3 1"
| "feature_bit PostInstructionEncryption = push_bit 4 1"
| "feature_bit RotateFeature = push_bit 5 1"
| "feature_bit SelfModification = push_bit 6 1"
| "feature_bit SequentialGuest = push_bit 7 1"

definition feature_from_stable_id :: "string \<Rightarrow> ProfileFeature option" where
  "feature_from_stable_id v =
    (if v = ''byte-input'' then Some ByteInput
     else if v = ''byte-output'' then Some ByteOutput
     else if v = ''crazy-operation'' then Some CrazyOperation
     else if v = ''deterministic'' then Some Deterministic
     else if v = ''post-instruction-encryption'' then Some PostInstructionEncryption
     else if v = ''rotate'' then Some RotateFeature
     else if v = ''self-modification'' then Some SelfModification
     else if v = ''sequential-guest'' then Some SequentialGuest
     else None)"

fun feature_stable_id :: "ProfileFeature \<Rightarrow> string" where
  "feature_stable_id ByteInput = ''byte-input''"
| "feature_stable_id ByteOutput = ''byte-output''"
| "feature_stable_id CrazyOperation = ''crazy-operation''"
| "feature_stable_id Deterministic = ''deterministic''"
| "feature_stable_id PostInstructionEncryption = ''post-instruction-encryption''"
| "feature_stable_id RotateFeature = ''rotate''"
| "feature_stable_id SelfModification = ''self-modification''"
| "feature_stable_id SequentialGuest = ''sequential-guest''"

definition REQUIRED_FEATURES :: "ProfileFeature list" where
  "REQUIRED_FEATURES = [ByteInput, ByteOutput, CrazyOperation, Deterministic,
    PostInstructionEncryption, RotateFeature, SelfModification, SequentialGuest]"

datatype ProfileFeatureSet = ProfileFeatureSet (feature_bits: "16 word")

definition NORMATIVE :: ProfileFeatureSet where
  "NORMATIVE = ProfileFeatureSet
    (feature_bit ByteInput OR feature_bit ByteOutput OR feature_bit CrazyOperation OR
     feature_bit Deterministic OR feature_bit PostInstructionEncryption OR
     feature_bit RotateFeature OR feature_bit SelfModification OR feature_bit SequentialGuest)"

definition set_contains :: "ProfileFeatureSet \<Rightarrow> ProfileFeature \<Rightarrow> bool" where
  "set_contains self feature \<longleftrightarrow> feature_bits self AND feature_bit feature \<noteq> 0"

definition set_is_empty :: "ProfileFeatureSet \<Rightarrow> bool" where
  "set_is_empty self \<longleftrightarrow> feature_bits self = 0"

definition missing_from :: "ProfileFeatureSet \<Rightarrow> ProfileFeatureSet \<Rightarrow> ProfileFeatureSet" where
  "missing_from self available =
    ProfileFeatureSet (feature_bits self AND NOT (feature_bits available))"

subsection \<open>Profiles\<close>

record ProfileDescriptor =
  pd_eof_word :: u32
  pd_fingerprint :: string
  pd_id :: string
  pd_input_instruction :: u8
  pd_kind :: ProfileKind
  pd_memory_words :: u32
  pd_output_instruction :: u8
  pd_version :: string
  pd_word_modulus :: u32
  pd_word_trits :: nat

definition PROFILE_0 :: ProfileDescriptor where
  "PROFILE_0 =
    \<lparr>pd_eof_word = 59048,
     pd_fingerprint = ''malbolge-profile-v1:sha256:'' @
       ''8b8689e5e3daef745d58681efe78106070736abb2ffa0895511fac5150b5b73e'',
     pd_id = ''malbolge-1998'', pd_input_instruction = 47, pd_kind = HistoricalConformance,
     pd_memory_words = 59049, pd_output_instruction = 60, pd_version = ''1998'',
     pd_word_modulus = 59049, pd_word_trits = 10\<rparr>"

definition PROFILE_1 :: ProfileDescriptor where
  "PROFILE_1 =
    \<lparr>pd_eof_word = 14348906,
     pd_fingerprint = ''malbolge-profile-v1:sha256:'' @
       ''8a93ad8fee1d3be48c432c23a74cff5ed50d85e07444dcecece103e4fe22c16e'',
     pd_id = ''malbolge-2026'', pd_input_instruction = 47, pd_kind = Current,
     pd_memory_words = 14348907, pd_output_instruction = 60, pd_version = ''2026'',
     pd_word_modulus = 14348907, pd_word_trits = 15\<rparr>"

definition PROFILE_2 :: ProfileDescriptor where
  "PROFILE_2 =
    \<lparr>pd_eof_word = 59048,
     pd_fingerprint = ''malbolge-profile-v1:sha256:'' @
       ''e72da529edefea13c4855b83decf61593d3ad64e5231c4911a2391cbd7567204'',
     pd_id = ''malbolge-2026.1'', pd_input_instruction = 60, pd_kind = Versioned,
     pd_memory_words = 59049, pd_output_instruction = 47, pd_version = ''2026.1'',
     pd_word_modulus = 59049, pd_word_trits = 10\<rparr>"

definition PROFILE_3 :: ProfileDescriptor where
  "PROFILE_3 =
    \<lparr>pd_eof_word = 4782968,
     pd_fingerprint = ''malbolge-profile-v1:sha256:'' @
       ''e33e1488162dffdc8bad9102df8eed3f8aac294d057b4f7ad7a389906963fc50'',
     pd_id = ''malbolge-2026.2'', pd_input_instruction = 60, pd_kind = Versioned,
     pd_memory_words = 4782969, pd_output_instruction = 47, pd_version = ''2026.2'',
     pd_word_modulus = 4782969, pd_word_trits = 14\<rparr>"

definition PROFILE_4 :: ProfileDescriptor where
  "PROFILE_4 =
    \<lparr>pd_eof_word = 4782968,
     pd_fingerprint = ''malbolge-profile-v1:sha256:'' @
       ''14de1b012b349930ca3e8c01b37b126c4e7f274c1bbcacd31b4b82523e0f4230'',
     pd_id = ''malbolge-2026.3'', pd_input_instruction = 47, pd_kind = Versioned,
     pd_memory_words = 4782969, pd_output_instruction = 60, pd_version = ''2026.3'',
     pd_word_modulus = 4782969, pd_word_trits = 14\<rparr>"

definition PROFILE_DESCRIPTORS :: "ProfileDescriptor list" where
  "PROFILE_DESCRIPTORS = [PROFILE_0, PROFILE_1, PROFILE_2, PROFILE_3, PROFILE_4]"

definition current_profile :: ProfileDescriptor where "current_profile = PROFILE_1"
definition historical_profile :: ProfileDescriptor where "historical_profile = PROFILE_0"

definition target_profile :: "string \<Rightarrow> ProfileDescriptor option" where
  "target_profile profile_id = find (\<lambda>profile. pd_id profile = profile_id) PROFILE_DESCRIPTORS"

record TargetProfileRequirement =
  req_features :: "string list"
  req_memory_words :: u64
  req_version :: string
  req_word_trits :: nat

definition requirement_from_descriptor :: "ProfileDescriptor \<Rightarrow> TargetProfileRequirement" where
  "requirement_from_descriptor profile =
    \<lparr>req_features = map feature_stable_id REQUIRED_FEATURES,
     req_memory_words = pd_memory_words profile, req_version = pd_version profile,
     req_word_trits = pd_word_trits profile\<rparr>"

definition is_canonical_for :: "TargetProfileRequirement \<Rightarrow> string \<Rightarrow> bool" where
  "is_canonical_for self profile_id =
    (case target_profile profile_id of
      None \<Rightarrow> False
    | Some profile \<Rightarrow>
        req_memory_words self = pd_memory_words profile \<and>
        req_version self = pd_version profile \<and>
        req_word_trits self = pd_word_trits profile \<and>
        length (req_features self) = length REQUIRED_FEATURES \<and>
        list_all (\<lambda>(observed, required). observed = feature_stable_id required)
          (zip (req_features self) REQUIRED_FEATURES))"

subsection \<open>Runtimes\<close>

record RuntimeCapability =
  rt_features :: ProfileFeatureSet
  rt_id :: string
  rt_max_memory_words :: u32
  rt_max_word_trits :: nat

text \<open>The constant loop: triple while the product fits in \<open>u32\<close>.\<close>

partial_function (option) geometry_loop :: "nat \<Rightarrow> u32 \<Rightarrow> (nat \<times> u32) option" where
  "geometry_loop word_trits memory_words =
    (case checked_mul U32_MAX memory_words 3 of
      Some next_memory_words \<Rightarrow> geometry_loop (sat_add 255 word_trits 1) next_memory_words
    | None \<Rightarrow> Some (word_trits, memory_words))"

definition SAFE_RUST_PROFILED_GEOMETRY :: "nat \<times> u32" where
  "SAFE_RUST_PROFILED_GEOMETRY = the (geometry_loop 0 1)"

definition SAFE_RUST_CLASSIC :: RuntimeCapability where
  "SAFE_RUST_CLASSIC =
    \<lparr>rt_features = NORMATIVE, rt_id = ''safe-rust-classic'', rt_max_memory_words = 59049,
     rt_max_word_trits = 10\<rparr>"

definition SAFE_RUST_PROFILED :: RuntimeCapability where
  "SAFE_RUST_PROFILED =
    \<lparr>rt_features = NORMATIVE, rt_id = ''safe-rust-profiled'',
     rt_max_memory_words = snd SAFE_RUST_PROFILED_GEOMETRY,
     rt_max_word_trits = fst SAFE_RUST_PROFILED_GEOMETRY\<rparr>"

definition runtime_geometry_missing :: "nat \<Rightarrow> u64 \<Rightarrow> RuntimeCapability \<Rightarrow> bool" where
  "runtime_geometry_missing word_trits memory_words runtime \<longleftrightarrow>
    word_trits > rt_max_word_trits runtime \<or> memory_words > rt_max_memory_words runtime"

datatype RequirementFeatures = Canonical | Portable "string list"

record RuntimeRequirementView =
  view_features :: RequirementFeatures
  view_memory_words :: u64
  view_profile_id :: string
  view_runtime :: RuntimeCapability
  view_version :: string
  view_word_trits :: nat

definition runtime_requirement_missing :: "RuntimeRequirementView \<Rightarrow> bool" where
  "runtime_requirement_missing view \<longleftrightarrow>
    (if runtime_geometry_missing (view_word_trits view) (view_memory_words view) (view_runtime view)
     then True
     else case view_features view of
       Canonical \<Rightarrow> \<not> set_is_empty (missing_from NORMATIVE (rt_features (view_runtime view)))
     | Portable features \<Rightarrow>
         list_ex (\<lambda>feature. case feature_from_stable_id feature of
             None \<Rightarrow> True
           | Some known \<Rightarrow> \<not> set_contains (rt_features (view_runtime view)) known) features)"

subsection \<open>Preflight\<close>

datatype ProfileRequirementErrorKind = ProfileCapacityExceeded | RuntimeCapabilityMissing

record ProfileRequirementError =
  pre_kind :: ProfileRequirementErrorKind
  pre_profile :: ProfileDescriptor
  pre_required_memory_words :: u64
  pre_runtime :: RuntimeCapability

record PortableProfileRequirementError =
  ppre_kind :: ProfileRequirementErrorKind
  ppre_profile_id :: string
  ppre_required_memory_words :: u64
  ppre_requirement :: TargetProfileRequirement
  ppre_runtime :: RuntimeCapability

record RuntimeProfileRequirementError =
  rpre_profile_id :: string
  rpre_requirement :: TargetProfileRequirement
  rpre_runtime :: RuntimeCapability

fun requirement_error_code :: "ProfileRequirementErrorKind \<Rightarrow> string" where
  "requirement_error_code ProfileCapacityExceeded = ''MALBOLGE-PROFILE-002''"
| "requirement_error_code RuntimeCapabilityMissing = ''MALBOLGE-PROFILE-001''"

definition preflight_portable_profile_requirement ::
  "string \<Rightarrow> TargetProfileRequirement \<Rightarrow> u64 \<Rightarrow> RuntimeCapability \<Rightarrow>
    PortableProfileRequirementError + unit" where
  "preflight_portable_profile_requirement profile_id requirement required_memory_words runtime =
    (if required_memory_words > req_memory_words requirement then
       Err \<lparr>ppre_kind = ProfileCapacityExceeded, ppre_profile_id = profile_id,
            ppre_required_memory_words = required_memory_words, ppre_requirement = requirement,
            ppre_runtime = runtime\<rparr>
     else if runtime_requirement_missing
         \<lparr>view_features = Portable (req_features requirement),
          view_memory_words = req_memory_words requirement, view_profile_id = profile_id,
          view_runtime = runtime, view_version = req_version requirement,
          view_word_trits = req_word_trits requirement\<rparr> then
       Err \<lparr>ppre_kind = RuntimeCapabilityMissing, ppre_profile_id = profile_id,
            ppre_required_memory_words = required_memory_words, ppre_requirement = requirement,
            ppre_runtime = runtime\<rparr>
     else Ok ())"

definition preflight_runtime_requirement ::
  "string \<Rightarrow> TargetProfileRequirement \<Rightarrow> RuntimeCapability \<Rightarrow>
    RuntimeProfileRequirementError + unit" where
  "preflight_runtime_requirement profile_id requirement runtime =
    (if runtime_requirement_missing
         \<lparr>view_features = Portable (req_features requirement),
          view_memory_words = req_memory_words requirement, view_profile_id = profile_id,
          view_runtime = runtime, view_version = req_version requirement,
          view_word_trits = req_word_trits requirement\<rparr> then
       Err \<lparr>rpre_profile_id = profile_id, rpre_requirement = requirement, rpre_runtime = runtime\<rparr>
     else Ok ())"

definition preflight_profile ::
  "ProfileDescriptor \<Rightarrow> u64 \<Rightarrow> RuntimeCapability \<Rightarrow> ProfileRequirementError + unit" where
  "preflight_profile profile required_memory_words runtime =
    (if required_memory_words > pd_memory_words profile then
       Err \<lparr>pre_kind = ProfileCapacityExceeded, pre_profile = profile,
            pre_required_memory_words = required_memory_words, pre_runtime = runtime\<rparr>
     else
       (let missing_features = missing_from NORMATIVE (rt_features runtime)
        in if runtime_geometry_missing (pd_word_trits profile) (pd_memory_words profile) runtime \<or>
              \<not> set_is_empty missing_features then
             Err \<lparr>pre_kind = RuntimeCapabilityMissing, pre_profile = profile,
                  pre_required_memory_words = pd_memory_words profile, pre_runtime = runtime\<rparr>
           else Ok ()))"

subsection \<open>Diagnostics\<close>

type_synonym Formatter = string

definition write_str :: "Formatter \<Rightarrow> string \<Rightarrow> Formatter" where
  "write_str formatter s = formatter @ s"

text \<open>The decimal rendering of an unsigned integer by \<open>write!\<close>.\<close>

fun decimal :: "nat \<Rightarrow> string" where
  "decimal n = (if n < 10 then [char_of (48 + n)] else decimal (n div 10) @ [char_of (48 + n mod 10)])"

declare decimal.simps [simp del]

record CapacityRequirementView =
  cap_constraint :: string
  cap_profile_id :: string
  cap_profile_memory_words :: u64
  cap_required_memory_words :: u64
  cap_version :: string

definition write_capacity_requirement :: "Formatter \<Rightarrow> CapacityRequirementView \<Rightarrow> Formatter" where
  "write_capacity_requirement formatter view =
    foldl write_str formatter
      [''MALBOLGE-PROFILE-002 profile='', cap_profile_id view, '' version='', cap_version view,
       '' constraint='', cap_constraint view,
       '' required_memory_words='' @ decimal (cap_required_memory_words view) @ '' '',
       ''profile_memory_words='' @ decimal (cap_profile_memory_words view)]"

definition write_capacity_error :: "Formatter \<Rightarrow> ProfileRequirementError \<Rightarrow> Formatter" where
  "write_capacity_error formatter error =
    (let profile = pre_profile error;
         constraint = (if pd_kind profile = HistoricalConformance
                       then ''historical-profile-ceiling'' else ''profile-capacity-ceiling'')
     in write_capacity_requirement formatter
          \<lparr>cap_constraint = constraint, cap_profile_id = pd_id profile,
           cap_profile_memory_words = pd_memory_words profile,
           cap_required_memory_words = pre_required_memory_words error,
           cap_version = pd_version profile\<rparr>)"

definition write_portable_capacity_error ::
  "Formatter \<Rightarrow> PortableProfileRequirementError \<Rightarrow> Formatter" where
  "write_portable_capacity_error formatter error =
    (let constraint = (if ppre_profile_id error = pd_id historical_profile
                       then ''historical-profile-ceiling'' else ''profile-capacity-ceiling'')
     in write_capacity_requirement formatter
          \<lparr>cap_constraint = constraint, cap_profile_id = ppre_profile_id error,
           cap_profile_memory_words = req_memory_words (ppre_requirement error),
           cap_required_memory_words = ppre_required_memory_words error,
           cap_version = req_version (ppre_requirement error)\<rparr>)"

text \<open>Both arms of \<open>write_feature_list\<close> write the spellings in order, separated by commas.\<close>

fun write_feature_loop :: "nat \<Rightarrow> string list \<Rightarrow> Formatter \<Rightarrow> Formatter" where
  "write_feature_loop index [] formatter = formatter"
| "write_feature_loop index (feature # features) formatter =
    write_feature_loop (index + 1) features
      (write_str (if index \<noteq> 0 then write_str formatter '','' else formatter) feature)"

definition write_feature_list :: "Formatter \<Rightarrow> RequirementFeatures \<Rightarrow> Formatter" where
  "write_feature_list formatter features =
    (case features of
      Canonical \<Rightarrow> write_feature_loop 0 (map feature_stable_id REQUIRED_FEATURES) formatter
    | Portable spellings \<Rightarrow> write_feature_loop 0 spellings formatter)"

definition write_list_item :: "Formatter \<Rightarrow> string \<Rightarrow> bool \<Rightarrow> Formatter \<times> bool" where
  "write_list_item formatter v needs_separator =
    (write_str (if needs_separator then write_str formatter '','' else formatter) v, True)"

fun write_missing_canonical_loop ::
  "ProfileFeatureSet \<Rightarrow> ProfileFeature list \<Rightarrow> Formatter \<times> bool \<Rightarrow> Formatter \<times> bool" where
  "write_missing_canonical_loop available [] (formatter, sep) = (formatter, sep)"
| "write_missing_canonical_loop available (feature # features) (formatter, sep) =
    write_missing_canonical_loop available features
      (if \<not> set_contains available feature
       then write_list_item formatter (feature_stable_id feature) sep else (formatter, sep))"

fun write_missing_portable_loop ::
  "ProfileFeatureSet \<Rightarrow> string list \<Rightarrow> Formatter \<times> bool \<Rightarrow> Formatter \<times> bool" where
  "write_missing_portable_loop available [] (formatter, sep) = (formatter, sep)"
| "write_missing_portable_loop available (feature # features) (formatter, sep) =
    (let supported = (case feature_from_stable_id feature of
           None \<Rightarrow> False | Some known \<Rightarrow> set_contains available known)
     in write_missing_portable_loop available features
          (if \<not> supported then write_list_item formatter feature sep else (formatter, sep)))"

definition write_missing_feature_ids :: "Formatter \<Rightarrow> RuntimeRequirementView \<Rightarrow> bool \<Rightarrow> Formatter" where
  "write_missing_feature_ids formatter view prefix_present =
    fst (case view_features view of
      Canonical \<Rightarrow> write_missing_canonical_loop (rt_features (view_runtime view)) REQUIRED_FEATURES
        (formatter, prefix_present)
    | Portable spellings \<Rightarrow> write_missing_portable_loop (rt_features (view_runtime view)) spellings
        (formatter, prefix_present))"

definition write_missing_runtime_dimensions :: "Formatter \<Rightarrow> RuntimeRequirementView \<Rightarrow> Formatter" where
  "write_missing_runtime_dimensions formatter view =
    (let word_missing = view_word_trits view > rt_max_word_trits (view_runtime view);
         memory_missing = view_memory_words view > rt_max_memory_words (view_runtime view);
         (formatter', prefix_present) =
           (if \<not> word_missing \<and> \<not> memory_missing then (formatter, False)
            else if \<not> word_missing \<and> memory_missing then (write_str formatter ''memory-words'', True)
            else if word_missing \<and> \<not> memory_missing then (write_str formatter ''word-trits'', True)
            else (write_str formatter ''word-trits,memory-words'', True))
     in write_missing_feature_ids formatter' view prefix_present)"

definition write_runtime_requirement :: "Formatter \<Rightarrow> RuntimeRequirementView \<Rightarrow> Formatter" where
  "write_runtime_requirement formatter view =
    (let listed = write_feature_list
           (foldl write_str formatter
             [''MALBOLGE-PROFILE-001 profile='', view_profile_id view, '' version='',
              view_version view, '' required_features=''])
           (view_features view);
         runtime = view_runtime view
     in write_missing_runtime_dimensions
          (foldl write_str listed
            ['' required_word_trits='' @ decimal (view_word_trits view) @ '' '',
             ''required_memory_words='' @ decimal (view_memory_words view) @ '' '',
             ''runtime='' @ rt_id runtime @ '' max_word_trits='' @
               decimal (rt_max_word_trits runtime) @ '' '',
             ''max_memory_words='' @ decimal (rt_max_memory_words runtime) @ '' missing=''])
          view)"

definition write_runtime_error :: "Formatter \<Rightarrow> ProfileRequirementError \<Rightarrow> Formatter" where
  "write_runtime_error formatter error =
    (let profile = pre_profile error
     in write_runtime_requirement formatter
          \<lparr>view_features = Canonical, view_memory_words = pd_memory_words profile,
           view_profile_id = pd_id profile, view_runtime = pre_runtime error,
           view_version = pd_version profile, view_word_trits = pd_word_trits profile\<rparr>)"

definition fmt_profile_error :: "ProfileRequirementError \<Rightarrow> Formatter \<Rightarrow> Formatter" where
  "fmt_profile_error self f =
    (case pre_kind self of
      ProfileCapacityExceeded \<Rightarrow> write_capacity_error f self
    | RuntimeCapabilityMissing \<Rightarrow> write_runtime_error f self)"

definition fmt_portable_error :: "PortableProfileRequirementError \<Rightarrow> Formatter \<Rightarrow> Formatter" where
  "fmt_portable_error self f =
    (case ppre_kind self of
      ProfileCapacityExceeded \<Rightarrow> write_portable_capacity_error f self
    | RuntimeCapabilityMissing \<Rightarrow>
        write_runtime_requirement f
          \<lparr>view_features = Portable (req_features (ppre_requirement self)),
           view_memory_words = req_memory_words (ppre_requirement self),
           view_profile_id = ppre_profile_id self, view_runtime = ppre_runtime self,
           view_version = req_version (ppre_requirement self),
           view_word_trits = req_word_trits (ppre_requirement self)\<rparr>)"

definition fmt_runtime_profile_error :: "RuntimeProfileRequirementError \<Rightarrow> Formatter \<Rightarrow> Formatter" where
  "fmt_runtime_profile_error self f =
    write_runtime_requirement f
      \<lparr>view_features = Portable (req_features (rpre_requirement self)),
       view_memory_words = req_memory_words (rpre_requirement self),
       view_profile_id = rpre_profile_id self, view_runtime = rpre_runtime self,
       view_version = req_version (rpre_requirement self),
       view_word_trits = req_word_trits (rpre_requirement self)\<rparr>"

subsection \<open>Feature sets and spellings\<close>

lemma all_features:
  "(\<forall>f. P f) \<longleftrightarrow> P ByteInput \<and> P ByteOutput \<and> P CrazyOperation \<and> P Deterministic \<and>
    P PostInstructionEncryption \<and> P RotateFeature \<and> P SelfModification \<and> P SequentialGuest"
  by (metis ProfileFeature.exhaust)

lemma feature_from_stable_id_inverse [simp]: "feature_from_stable_id (feature_stable_id f) = Some f"
  by (cases f) (simp_all add: feature_from_stable_id_def)

lemma if_SomeE:
  "(if c then Some a else r) = Some f \<Longrightarrow> (c \<Longrightarrow> a = f \<Longrightarrow> P) \<Longrightarrow> (r = Some f \<Longrightarrow> P) \<Longrightarrow> P"
  by (simp split: if_split_asm)

lemma feature_from_stable_id_Some: "feature_from_stable_id s = Some f \<longleftrightarrow> s = feature_stable_id f"
proof
  assume "feature_from_stable_id s = Some f"
  then show "s = feature_stable_id f"
    unfolding feature_from_stable_id_def
    by (elim if_SomeE) (hypsubst, rule feature_stable_id.simps[symmetric] refl | erule option.distinct(1)[THEN notE])+
next
  assume "s = feature_stable_id f"
  then show "feature_from_stable_id s = Some f" by simp
qed

lemma set_contains_NORMATIVE [simp]: "set_contains NORMATIVE f"
  by (cases f) (simp_all add: set_contains_def NORMATIVE_def)

lemma feature_bit_push: "\<exists>k < 16. feature_bit f = push_bit k 1"
proof (cases f)
  case ByteInput then show ?thesis by (intro exI[of _ 0]) simp next
  case ByteOutput then show ?thesis by (intro exI[of _ 1]) simp next
  case CrazyOperation then show ?thesis by (intro exI[of _ 2]) simp next
  case Deterministic then show ?thesis by (intro exI[of _ 3]) simp next
  case PostInstructionEncryption then show ?thesis by (intro exI[of _ 4]) simp next
  case RotateFeature then show ?thesis by (intro exI[of _ 5]) simp next
  case SelfModification then show ?thesis by (intro exI[of _ 6]) simp next
  case SequentialGuest then show ?thesis by (intro exI[of _ 7]) simp
qed

lemma and_push_bit_1: "k < 16 \<Longrightarrow> (w :: 16 word) AND push_bit k 1 \<noteq> 0 \<longleftrightarrow> bit w k"
  by (simp add: and_exp_eq_0_iff_not_bit)

lemma set_contains_bit: "feature_bit f = push_bit k 1 \<Longrightarrow> k < 16 \<Longrightarrow>
    set_contains s f \<longleftrightarrow> bit (feature_bits s) k"
  by (simp add: set_contains_def and_push_bit_1 del: push_bit_of_1)

lemma set_contains_missing_from:
  "set_contains (missing_from s available) f \<longleftrightarrow> set_contains s f \<and> \<not> set_contains available f"
proof -
  obtain k where k: "k < 16" "feature_bit f = push_bit k 1" using feature_bit_push by blast
  show ?thesis
    using k(1) by (simp add: set_contains_bit[OF k(2,1)] missing_from_def bit_and_iff bit_not_iff)
qed

lemma NORMATIVE_mask: "feature_bits NORMATIVE = mask 8"
  by (simp add: NORMATIVE_def mask_eq_exp_minus_1)

lemma feature_of_bit: "k < 8 \<Longrightarrow> \<exists>f. feature_bit f = push_bit k 1"
proof -
  assume "k < 8"
  then consider "k = 0" | "k = 1" | "k = 2" | "k = 3" | "k = 4" | "k = 5" | "k = 6" | "k = 7" by linarith
  then show ?thesis
    by cases (metis feature_bit.simps)+
qed

text \<open>Nothing is missing from the normative set exactly when every feature is available.\<close>

lemma normative_missing_empty:
  "set_is_empty (missing_from NORMATIVE available) \<longleftrightarrow> (\<forall>f. set_contains available f)"
proof
  assume "set_is_empty (missing_from NORMATIVE available)"
  then have "\<not> set_contains (missing_from NORMATIVE available) f" for f
    by (simp add: set_is_empty_def set_contains_def)
  then show "\<forall>f. set_contains available f" by (simp add: set_contains_missing_from)
next
  assume all: "\<forall>f. set_contains available f"
  have "\<not> bit (feature_bits (missing_from NORMATIVE available)) k" for k
  proof
    assume b: "bit (feature_bits (missing_from NORMATIVE available)) k"
    then have "k < 8" "k < 16" "\<not> bit (feature_bits available) k"
      by (auto simp: missing_from_def NORMATIVE_mask bit_and_iff bit_mask_iff bit_not_iff)
    then obtain f where "feature_bit f = push_bit k 1" using feature_of_bit by blast
    then show False using all set_contains_bit[of f k available] \<open>k < 16\<close> \<open>\<not> bit _ k\<close> by blast
  qed
  then show "set_is_empty (missing_from NORMATIVE available)"
    by (simp add: set_is_empty_def bit_eq_iff)
qed

subsection \<open>Profiles and runtimes\<close>

lemma geometry_loop_value: "geometry_loop 0 1 = Some (20, 3486784401)"
  by (simp add: geometry_loop.simps checked_mul_def U32_MAX_def sat_add_def)

lemma profiled_geometry [simp]:
  "rt_max_word_trits SAFE_RUST_PROFILED = 20" "rt_max_memory_words SAFE_RUST_PROFILED = 3486784401"
  "rt_features SAFE_RUST_PROFILED = NORMATIVE"
  by (simp_all add: SAFE_RUST_PROFILED_def SAFE_RUST_PROFILED_GEOMETRY_def
      geometry_loop_value[simplified])

definition wf_profile :: "ProfileDescriptor \<Rightarrow> bool" where
  "wf_profile p \<longleftrightarrow> pd_word_modulus p = 3 ^ pd_word_trits p \<and> pd_memory_words p = pd_word_modulus p \<and>
    Suc (pd_eof_word p) = pd_word_modulus p \<and> 10 \<le> pd_word_trits p \<and> pd_word_trits p \<le> 20 \<and>
    {pd_input_instruction p, pd_output_instruction p} = {47, 60} \<and>
    pd_input_instruction p \<noteq> pd_output_instruction p"

lemmas profile_defs = PROFILE_0_def PROFILE_1_def PROFILE_2_def PROFILE_3_def PROFILE_4_def

lemma PROFILE_wf [wf_intro]:
  "wf_profile PROFILE_0" "wf_profile PROFILE_1" "wf_profile PROFILE_2" "wf_profile PROFILE_3"
  "wf_profile PROFILE_4"
  by (simp_all add: wf_profile_def profile_defs insert_commute)

lemma find_SomeD: "find P xs = Some x \<Longrightarrow> x \<in> set xs \<and> P x"
  by (induction xs) (auto split: if_splits)

lemma profile_ids [simp]:
  "pd_id PROFILE_0 = ''malbolge-1998''" "pd_id PROFILE_1 = ''malbolge-2026''"
  "pd_id PROFILE_2 = ''malbolge-2026.1''" "pd_id PROFILE_3 = ''malbolge-2026.2''"
  "pd_id PROFILE_4 = ''malbolge-2026.3''"
  by (simp_all only: profile_defs ProfileDescriptor.select_convs)

lemma target_profile_cases:
  assumes "target_profile s = Some p"
  shows "p \<in> {PROFILE_0, PROFILE_1, PROFILE_2, PROFILE_3, PROFILE_4} \<and> pd_id p = s"
  using find_SomeD[OF assms[unfolded target_profile_def]] by (auto simp: PROFILE_DESCRIPTORS_def)

lemma target_profile_wf [wf_intro]: "target_profile s = Some p \<Longrightarrow> wf_profile p"
  using target_profile_cases PROFILE_wf by blast

lemma target_profile_values [simp]:
  "target_profile ''malbolge-1998'' = Some PROFILE_0"
  "target_profile ''malbolge-2026'' = Some PROFILE_1"
  "target_profile ''malbolge-2026.1'' = Some PROFILE_2"
  "target_profile ''malbolge-2026.2'' = Some PROFILE_3"
  "target_profile ''malbolge-2026.3'' = Some PROFILE_4"
  by (simp_all add: target_profile_def PROFILE_DESCRIPTORS_def)

lemma target_profile_found:
  "p \<in> set PROFILE_DESCRIPTORS \<Longrightarrow> target_profile (pd_id p) = Some p"
  unfolding PROFILE_DESCRIPTORS_def by (simp, elim disjE; simp)

lemma list_all_zip_map:
  "length xs = length ys \<Longrightarrow> list_all (\<lambda>(x, y). x = f y) (zip xs ys) \<longleftrightarrow> xs = map f ys"
  by (induction xs ys rule: list_induct2) auto

lemma is_canonical_for_iff:
  "is_canonical_for r s \<longleftrightarrow> (\<exists>p. target_profile s = Some p \<and> r = requirement_from_descriptor p)"
proof (cases "target_profile s")
  case None
  then show ?thesis by (simp add: is_canonical_for_def)
next
  case (Some p)
  have "length (req_features r) = length REQUIRED_FEATURES \<and>
      list_all (\<lambda>(observed, required). observed = feature_stable_id required)
        (zip (req_features r) REQUIRED_FEATURES) \<longleftrightarrow>
      req_features r = map feature_stable_id REQUIRED_FEATURES"
    using list_all_zip_map[of "req_features r" REQUIRED_FEATURES feature_stable_id] by auto
  then show ?thesis
    using Some by (auto simp: is_canonical_for_def requirement_from_descriptor_def)
qed

subsection \<open>Preflight decides, and the diagnostic names what is missing\<close>

definition feature_missing :: "ProfileFeatureSet \<Rightarrow> string \<Rightarrow> bool" where
  "feature_missing available s \<longleftrightarrow> (\<forall>f. s = feature_stable_id f \<longrightarrow> \<not> set_contains available f)"

lemma feature_missing_case:
  "(case feature_from_stable_id s of None \<Rightarrow> True | Some known \<Rightarrow> \<not> set_contains available known)
    \<longleftrightarrow> feature_missing available s"
  by (cases "feature_from_stable_id s")
    (auto simp: feature_missing_def feature_from_stable_id_Some
      dest: arg_cong[where f = feature_from_stable_id])

definition requirement_spellings :: "RequirementFeatures \<Rightarrow> string list" where
  "requirement_spellings features =
    (case features of Canonical \<Rightarrow> map feature_stable_id REQUIRED_FEATURES | Portable ss \<Rightarrow> ss)"

definition missing_items :: "RuntimeRequirementView \<Rightarrow> string list" where
  "missing_items view =
    (if view_word_trits view > rt_max_word_trits (view_runtime view) then [''word-trits''] else []) @
    (if view_memory_words view > rt_max_memory_words (view_runtime view) then [''memory-words''] else []) @
    filter (feature_missing (rt_features (view_runtime view))) (requirement_spellings (view_features view))"

definition comma_join :: "string list \<Rightarrow> string" where
  "comma_join items = concat (case items of [] \<Rightarrow> [] | x # xs \<Rightarrow> x # map (\<lambda>y. '','' @ y) xs)"

lemma comma_join_simps [simp]: "comma_join [] = []" "comma_join [x] = x"
  by (simp_all add: comma_join_def)

lemma comma_join_append: "xs \<noteq> [] \<Longrightarrow> comma_join (xs @ [y]) = comma_join xs @ '','' @ y"
  by (cases xs) (simp_all add: comma_join_def)

definition listed :: "Formatter \<Rightarrow> string list \<Rightarrow> Formatter \<times> bool" where
  "listed f items = (f @ comma_join items, items \<noteq> [])"

lemma write_list_item_listed:
  "write_list_item (fst (listed f items)) v (snd (listed f items)) = listed f (items @ [v])"
  by (cases "items = []") (simp_all add: listed_def write_list_item_def write_str_def comma_join_append)

lemma feature_missing_stable_id [simp]:
  "feature_missing available (feature_stable_id f) \<longleftrightarrow> \<not> set_contains available f"
  using feature_missing_case[of available "feature_stable_id f"] by simp

lemma write_missing_canonical_loop_listed:
  "write_missing_canonical_loop available features (listed f items) =
    listed f (items @ filter (feature_missing available) (map feature_stable_id features))"
proof (induction features arbitrary: items)
  case Nil
  then show ?case by (simp add: listed_def)
next
  case (Cons x features)
  show ?case
    using Cons[of items] Cons[of "items @ [feature_stable_id x]"]
      write_list_item_listed[of f items "feature_stable_id x"]
    by (simp add: listed_def)
qed

lemma write_missing_portable_loop_listed:
  "write_missing_portable_loop available features (listed f items) =
    listed f (items @ filter (feature_missing available) features)"
proof (induction features arbitrary: items)
  case Nil
  then show ?case by (simp add: listed_def)
next
  case (Cons x features)
  have "(case feature_from_stable_id x of None \<Rightarrow> False | Some known \<Rightarrow> set_contains available known)
      \<longleftrightarrow> \<not> feature_missing available x"
    using feature_missing_case[of available x] by (cases "feature_from_stable_id x") auto
  then show ?case
    using Cons[of items] Cons[of "items @ [x]"] write_list_item_listed[of f items x]
    by (simp add: listed_def)
qed

lemma write_missing_feature_ids_listed:
  "fst (listed f items) = g \<Longrightarrow> snd (listed f items) = b \<Longrightarrow>
    write_missing_feature_ids g view b =
    fst (listed f (items @ filter (feature_missing (rt_features (view_runtime view)))
      (requirement_spellings (view_features view))))"
  using write_missing_canonical_loop_listed[of _ _ f items]
    write_missing_portable_loop_listed[of _ _ f items]
  by (auto simp: write_missing_feature_ids_def requirement_spellings_def listed_def
      split: RequirementFeatures.splits)

lemma write_missing_runtime_dimensions_items:
  "write_missing_runtime_dimensions f view = f @ comma_join (missing_items view)"
proof -
  define dims where "dims =
    (if view_word_trits view > rt_max_word_trits (view_runtime view) then [''word-trits''] else []) @
    (if view_memory_words view > rt_max_memory_words (view_runtime view) then [''memory-words''] else [])"
  have "write_missing_runtime_dimensions f view =
      write_missing_feature_ids (fst (listed f dims)) view (snd (listed f dims))"
    by (simp add: write_missing_runtime_dimensions_def Let_def dims_def listed_def write_str_def
        comma_join_def)
  also have "\<dots> = f @ comma_join (missing_items view)"
    by (subst write_missing_feature_ids_listed[of f dims])
      (simp_all add: missing_items_def dims_def listed_def)
  finally show ?thesis .
qed

lemma set_requirement_spellings: "set (requirement_spellings Canonical) = range feature_stable_id"
proof -
  have "f \<in> set REQUIRED_FEATURES" for f by (cases f) (simp_all add: REQUIRED_FEATURES_def)
  then show ?thesis by (auto simp: requirement_spellings_def)
qed

lemma runtime_requirement_missing_iff: "runtime_requirement_missing view \<longleftrightarrow> missing_items view \<noteq> []"
proof (cases "view_features view")
  case Canonical
  have "filter (feature_missing a) (requirement_spellings Canonical) = [] \<longleftrightarrow> (\<forall>f. set_contains a f)" for a
    by (auto simp: filter_empty_conv set_requirement_spellings)
  then show ?thesis
    using Canonical by (simp add: runtime_requirement_missing_def missing_items_def
        runtime_geometry_missing_def normative_missing_empty)
next
  case (Portable ss)
  then show ?thesis
    by (auto simp: runtime_requirement_missing_def missing_items_def runtime_geometry_missing_def
        requirement_spellings_def filter_empty_conv list_ex_iff feature_missing_case)
qed

lemma wf_profile_runs:
  "wf_profile p \<Longrightarrow> pd_word_trits p \<le> 20 \<and> pd_memory_words p \<le> 3486784401"
  using power_increasing[of "pd_word_trits p" 20 "3::nat"] by (auto simp: wf_profile_def)

lemma preflight_profile_profiled:
  "wf_profile p \<Longrightarrow> preflight_profile p n SAFE_RUST_PROFILED = Inr () \<longleftrightarrow> n \<le> pd_memory_words p"
  using wf_profile_runs[of p]
  by (auto simp: preflight_profile_def runtime_geometry_missing_def normative_missing_empty Let_def)

subsection \<open>Properties\<close>

text \<open>
  Looking a profile up by id finds exactly the canonical descriptor of that id; every one is
  consistent (modulus \<open>3 ^ trits\<close>, memory of that size, EOF one below, distinct I/O bytes), and
  preflights on the profiled runtime for exactly the programs that fit it.
\<close>
lemma canonical_profiles_consistent:
  assumes "target_profile s = Some p"
  shows "p \<in> set PROFILE_DESCRIPTORS \<and> pd_id p = s \<and>
    pd_word_modulus p = 3 ^ pd_word_trits p \<and> pd_memory_words p = pd_word_modulus p \<and>
    Suc (pd_eof_word p) = pd_word_modulus p \<and> pd_input_instruction p \<noteq> pd_output_instruction p \<and>
    (\<forall>n. preflight_profile p n SAFE_RUST_PROFILED = Inr () \<longleftrightarrow> n \<le> pd_memory_words p)"
  using target_profile_cases[OF assms] target_profile_wf[OF assms]
  by (auto simp: wf_profile_def PROFILE_DESCRIPTORS_def preflight_profile_profiled)

theorem canonical_profiles_consistent_witness:
  "pd_word_modulus PROFILE_1 = 3 ^ 15 \<and>
    preflight_profile PROFILE_1 14348907 SAFE_RUST_PROFILED = Inr ()"
  using canonical_profiles_consistent[OF target_profile_values(2)] by (simp add: PROFILE_1_def)

text \<open>
  A portable requirement is admitted exactly when the program fits the declared capacity and
  nothing the runtime lacks is required; a rejection names the capacity first, and a runtime
  rejection always has a nonempty list of missing items.
\<close>
lemma preflight_decides:
  "preflight_portable_profile_requirement pid r n rt = Inr () \<longleftrightarrow>
     n \<le> req_memory_words r \<and> req_word_trits r \<le> rt_max_word_trits rt \<and>
     req_memory_words r \<le> rt_max_memory_words rt \<and>
     \<not> (\<exists>s. s \<in> set (req_features r) \<and> feature_missing (rt_features rt) s)"
  by (auto simp: preflight_portable_profile_requirement_def runtime_requirement_missing_iff
      missing_items_def requirement_spellings_def filter_empty_conv)

text \<open>
  The text of a runtime rejection ends with the comma-separated list of exactly what is
  missing: word width, memory, then each required feature that is unknown or unavailable, in the
  order required; and there is something to list whenever the runtime is rejected.
\<close>
lemma runtime_diagnostic_lists_missing:
  "write_runtime_requirement f view =
     foldl write_str (write_feature_list
       (foldl write_str f [''MALBOLGE-PROFILE-001 profile='', view_profile_id view, '' version='',
          view_version view, '' required_features=''])
       (view_features view))
       ['' required_word_trits='' @ decimal (view_word_trits view) @ '' '',
        ''required_memory_words='' @ decimal (view_memory_words view) @ '' '',
        ''runtime='' @ rt_id (view_runtime view) @ '' max_word_trits='' @
          decimal (rt_max_word_trits (view_runtime view)) @ '' '',
        ''max_memory_words='' @ decimal (rt_max_memory_words (view_runtime view)) @ '' missing='',
        comma_join (missing_items view)] \<and>
   (runtime_requirement_missing view \<longleftrightarrow> missing_items view \<noteq> [])"
  by (simp add: write_runtime_requirement_def Let_def write_missing_runtime_dimensions_items
      runtime_requirement_missing_iff write_str_def)

text \<open>
  The feature bit sets behave as sets: membership in \<open>missing_from\<close> is difference, the
  normative set holds every feature, nothing is missing from a runtime exactly when it has
  every feature, and the stable spellings parse back to the feature they came from.
\<close>
lemma feature_sets_are_sets:
  "(set_contains (missing_from s available) f \<longleftrightarrow> set_contains s f \<and> \<not> set_contains available f) \<and>
   (set_is_empty (missing_from NORMATIVE available) \<longleftrightarrow> \<not> (\<exists>f. \<not> set_contains available f)) \<and>
   (feature_from_stable_id spelling = Some f \<longleftrightarrow> spelling = feature_stable_id f)"
  by (auto simp: set_contains_missing_from normative_missing_empty feature_from_stable_id_Some)

text \<open>
  A requirement envelope is canonical for an id exactly when it is the projection of the
  descriptor with that id.
\<close>
lemma canonical_requirement_iff:
  "is_canonical_for r s \<longleftrightarrow> (\<exists>p. target_profile s = Some p \<and> r = requirement_from_descriptor p)"
  by (rule is_canonical_for_iff)

end
