(* ===== verification/ProfileMachine.thy ===== *)
theory ProfileMachine
  imports Machine Profile
begin

text \<open>
  \<open>domain/profile_machine.rs\<close>, \<open>domain/profile_trace.rs\<close> and the execution geometry of
  \<open>domain/profile_width.rs\<close>: the profile-driven machine, for any admitted word width and I/O
  assignment. The evidence the step engine collects (which cells and registers it read and
  wrote) is threaded through the operations as the source threads its mutable references.
  Whether the allocator can reserve the memory image is the argument \<open>reserve\<close> of the loader.
\<close>

subsection \<open>Execution geometry\<close>

datatype ProfileExecutionInputPolicy = Any | MinimumLength usize

record ProfileExecutionGeometry =
  geo_input_policy :: ProfileExecutionInputPolicy
  geo_memory_words :: u32
  geo_profile :: ProfileDescriptor
  geo_word_trits :: nat

definition admits_input :: "ProfileExecutionGeometry \<Rightarrow> u8 list \<Rightarrow> bool" where
  "admits_input self input =
    (case geo_input_policy self of
      Any \<Rightarrow> True
    | MinimumLength required \<Rightarrow> length input \<ge> required)"

definition canonical :: "ProfileDescriptor \<Rightarrow> ProfileExecutionGeometry" where
  "canonical profile =
    \<lparr>geo_input_policy = Any, geo_memory_words = pd_memory_words profile, geo_profile = profile,
     geo_word_trits = pd_word_trits profile\<rparr>"

definition geo_eof_word :: "ProfileExecutionGeometry \<Rightarrow> u32" where
  "geo_eof_word self = geo_memory_words self - 1"

definition geo_word_modulus :: "ProfileExecutionGeometry \<Rightarrow> u32" where
  "geo_word_modulus self = geo_memory_words self"

subsection \<open>State and errors\<close>

record ProfileRegisters =
  preg_accumulator :: u32
  preg_code_pointer :: u32
  preg_data_pointer :: u32

definition profile_registers_default :: ProfileRegisters where
  "profile_registers_default =
    \<lparr>preg_accumulator = 0, preg_code_pointer = 0, preg_data_pointer = 0\<rparr>"

record ProfileMachineIoState =
  pio_input :: "u8 list"
  pio_input_cursor :: usize
  pio_output :: "u8 list"
  pio_termination :: "Termination option"

record ProfileMachineState =
  pst_geometry :: ProfileExecutionGeometry
  pst_io :: ProfileMachineIoState
  pst_memory :: "u32 list"
  pst_profile :: ProfileDescriptor
  pst_registers :: ProfileRegisters

datatype ProfileLoadError =
    PInsufficientRecurrenceBase
  | PInvalidInstruction u32 u8
  | PInvalidSourceByte usize u8
  | MemoryAllocation
  | PSourceTooLong

datatype ProfileRegisterName = AccumulatorName | CodePointerName | DataPointerName

datatype ProfileMachineError =
    AddressOutOfRange u32
  | PInputCursorOutOfRange usize usize
  | PInvalidEncryptionTarget u32 u32
  | Load ProfileLoadError
  | MemoryImageLength u32 usize
  | MemoryInvariant
  | MemoryWordOutOfRange u32 u32
  | ProfileFailure ProfileRequirementError
  | RegisterOutOfRange ProfileRegisterName u32
  | PTranslationTableInvariant
  | VerifiedInputRejected

datatype ProfileInstruction =
  PCrazy | PHalt | PInput | PJumpCode | PJumpData | PNoOperation | POutput | PRotate

subsection \<open>Trace records\<close>

record ProfileMachineObservation =
  pobs_input_consumed :: usize
  pobs_output_len :: usize
  pobs_registers :: ProfileRegisters
  pobs_termination :: "Termination option"

record ProfileMemoryRead =
  read_address :: u32
  read_value :: u32

record ProfileMemoryReads =
  reads_data :: "ProfileMemoryRead option"
  reads_encryption :: "ProfileMemoryRead option"
  reads_fetch :: "ProfileMemoryRead option"

record ProfileRegisterSet =
  rs_accumulator :: bool
  rs_code_pointer :: bool
  rs_data_pointer :: bool

record ProfileRegisterAccesses =
  acc_reads :: ProfileRegisterSet
  acc_writes :: ProfileRegisterSet

record ProfileMemoryWrite =
  pmw_address :: u32
  pmw_after :: u32
  pmw_before :: u32

record ProfileMemoryDelta =
  pdelta_data :: "ProfileMemoryWrite option"
  pdelta_encryption :: "ProfileMemoryWrite option"

definition profile_memory_reads_default :: ProfileMemoryReads where
  "profile_memory_reads_default = \<lparr>reads_data = None, reads_encryption = None, reads_fetch = None\<rparr>"

definition profile_register_set_default :: ProfileRegisterSet where
  "profile_register_set_default =
    \<lparr>rs_accumulator = False, rs_code_pointer = False, rs_data_pointer = False\<rparr>"

definition profile_register_accesses_default :: ProfileRegisterAccesses where
  "profile_register_accesses_default =
    \<lparr>acc_reads = profile_register_set_default, acc_writes = profile_register_set_default\<rparr>"

definition profile_memory_delta_default :: ProfileMemoryDelta where
  "profile_memory_delta_default = \<lparr>pdelta_data = None, pdelta_encryption = None\<rparr>"

definition register_count :: "ProfileRegisterSet \<Rightarrow> usize" where
  "register_count self =
    (if rs_accumulator self then 1 else 0) + (if rs_code_pointer self then 1 else 0) +
    (if rs_data_pointer self then 1 else 0)"

definition read_count :: "ProfileMemoryReads \<Rightarrow> usize" where
  "read_count self =
    (let data = (case reads_data self of Some _ \<Rightarrow> 1 | None \<Rightarrow> 0);
         encryption = (case reads_encryption self of Some _ \<Rightarrow> 1 | None \<Rightarrow> 0);
         fetch = (case reads_fetch self of Some _ \<Rightarrow> 1 | None \<Rightarrow> 0)
     in data + encryption + fetch)"

definition profile_changed_cells :: "ProfileMemoryDelta \<Rightarrow> usize" where
  "profile_changed_cells self =
    (case (pdelta_data self, pdelta_encryption self) of
      (None, None) \<Rightarrow> 0
    | (Some data, Some encryption) \<Rightarrow>
        if pmw_address data \<noteq> pmw_address encryption then 2 else 1
    | _ \<Rightarrow> 1)"

record ProfileTransitionPlan =
  pp_input_advance :: bool
  pp_memory_write :: "(u32 \<times> u32) option"
  pp_output :: "u8 option"
  pp_register_writes :: ProfileRegisterSet
  pp_registers :: ProfileRegisters

record ProfileStepExecution =
  exec_memory_delta :: ProfileMemoryDelta
  exec_memory_reads :: ProfileMemoryReads
  exec_register_accesses :: ProfileRegisterAccesses
  exec_result :: "ProfileMachineError + StepOutcome"

definition exec_continued ::
  "ProfileMemoryDelta \<Rightarrow> ProfileMemoryReads \<Rightarrow> ProfileRegisterAccesses \<Rightarrow> ProfileStepExecution" where
  "exec_continued delta mreads accesses =
    \<lparr>exec_memory_delta = delta, exec_memory_reads = mreads, exec_register_accesses = accesses,
     exec_result = Ok Continued\<rparr>"

definition exec_error ::
  "ProfileMemoryReads \<Rightarrow> ProfileRegisterAccesses \<Rightarrow> ProfileMachineError \<Rightarrow> ProfileStepExecution" where
  "exec_error mreads accesses e =
    \<lparr>exec_memory_delta = profile_memory_delta_default, exec_memory_reads = mreads,
     exec_register_accesses =
       \<lparr>acc_reads = acc_reads accesses, acc_writes = profile_register_set_default\<rparr>,
     exec_result = Err e\<rparr>"

definition exec_outcome ::
  "ProfileMemoryReads \<Rightarrow> ProfileRegisterAccesses \<Rightarrow> StepOutcome \<Rightarrow> ProfileStepExecution" where
  "exec_outcome mreads accesses outcome =
    \<lparr>exec_memory_delta = profile_memory_delta_default, exec_memory_reads = mreads,
     exec_register_accesses = accesses, exec_result = Ok outcome\<rparr>"

record ProfileMachine =
  pm_geometry :: ProfileExecutionGeometry
  pm_input :: "u8 list"
  pm_input_cursor :: usize
  pm_memory :: "u32 list"
  pm_output :: "u8 list"
  pm_profile :: ProfileDescriptor
  pm_registers :: ProfileRegisters
  pm_termination :: "Termination option"

record ProfileStepTrace =
  ptr_after :: ProfileMachineObservation
  ptr_before :: ProfileMachineObservation
  ptr_decoded :: "u8 option"
  ptr_fetched_cell :: "u32 option"
  ptr_geometry :: ProfileExecutionGeometry
  ptr_input :: "TraceInput option"
  ptr_memory_delta :: ProfileMemoryDelta
  ptr_memory_reads :: ProfileMemoryReads
  ptr_output :: "u8 option"
  ptr_profile :: ProfileDescriptor
  ptr_register_accesses :: ProfileRegisterAccesses
  ptr_result :: "ProfileMachineError + StepOutcome"

subsection \<open>Word-level helpers\<close>

definition profile_cell_is_graphical :: "u32 \<Rightarrow> bool" where
  "profile_cell_is_graphical v \<longleftrightarrow> v \<ge> 33 \<and> v \<le> 126"

definition decode_profile_instruction :: "u32 \<Rightarrow> u32 \<Rightarrow> u8 option" where
  "decode_profile_instruction cell pointer = decode_profile_value cell pointer"

definition encrypt_profile_cell :: "u32 \<Rightarrow> u32 option" where
  "encrypt_profile_cell cell = encrypt_profile_value cell"

definition profile_cell_decodes_to_no_operation :: "u32 \<Rightarrow> u32 \<Rightarrow> bool" where
  "profile_cell_decodes_to_no_operation cell pointer =
    (case decode_profile_instruction cell pointer of
      None \<Rightarrow> False
    | Some decoded \<Rightarrow> decoded \<notin> {106, 105, 42, 112, 60, 47, 118})"

definition profile_instruction :: "u8 \<Rightarrow> ProfileInstruction" where
  "profile_instruction decoded =
    (if decoded = 42 then PRotate
     else if decoded = 105 then PJumpCode
     else if decoded = 106 then PJumpData
     else if decoded = 112 then PCrazy
     else if decoded = 118 then PHalt
     else PNoOperation)"

definition profile_instruction_for :: "ProfileDescriptor \<Rightarrow> u8 \<Rightarrow> ProfileInstruction" where
  "profile_instruction_for profile decoded =
    (if decoded = pd_input_instruction profile then PInput
     else if decoded = pd_output_instruction profile then POutput
     else profile_instruction decoded)"

definition profile_rotate :: "u32 \<Rightarrow> u32 \<Rightarrow> u32" where
  "profile_rotate v modulus =
    (let quotient = v div TERNARY_RADIX;
         low_trit = v mod TERNARY_RADIX;
         high_weight = modulus div TERNARY_RADIX
     in sat_add U32_MAX quotient (sat_mul U32_MAX low_trit high_weight))"

definition profile_pointer_successor :: "u32 \<Rightarrow> u32 \<Rightarrow> u32 option" where
  "profile_pointer_successor v modulus =
    (if modulus = 0 \<or> v \<ge> modulus then None
     else if v = modulus - 1 then Some 0
     else Some (sat_add U32_MAX v 1))"

definition successor :: "u32 \<Rightarrow> u32 \<Rightarrow> u32" where
  "successor v modulus =
    (case profile_pointer_successor v modulus of Some next_value \<Rightarrow> next_value | None \<Rightarrow> 0)"

subsection \<open>Reading, writing and planning\<close>

definition pread :: "ProfileMachine \<Rightarrow> u32 \<Rightarrow> ProfileMachineError + u32" where
  "pread self address = ok_or MemoryInvariant (get (pm_memory self) address)"

definition pwrite :: "ProfileMachine \<Rightarrow> u32 \<Rightarrow> u32 \<Rightarrow> ProfileMachineError + ProfileMachine" where
  "pwrite self address v =
    (if v \<ge> geo_word_modulus (pm_geometry self) then Err MemoryInvariant
     else case get (pm_memory self) address of
         None \<Rightarrow> Err MemoryInvariant
       | Some _ \<Rightarrow> Ok (self\<lparr>pm_memory := (pm_memory self)[address := v]\<rparr>))"

definition pmemory_word :: "ProfileMachine \<Rightarrow> u32 \<Rightarrow> ProfileMachineError + u32" where
  "pmemory_word self address =
    (if address \<ge> geo_memory_words (pm_geometry self) then Err (AddressOutOfRange address)
     else pread self address)"

text \<open>\<open>&mut\<close> evidence arguments are passed in and returned beside the result.\<close>

definition semantic_data_read ::
  "ProfileMachine \<Rightarrow> ProfileMemoryReads \<Rightarrow> ProfileRegisterSet \<Rightarrow>
    (ProfileMachineError + u32) \<times> ProfileMemoryReads \<times> ProfileRegisterSet" where
  "semantic_data_read self mreads rreads =
    (let rreads' = rreads\<lparr>rs_data_pointer := True\<rparr>;
         address = preg_data_pointer (pm_registers self)
     in case pread self address of
          Inl e \<Rightarrow> (Inl e, mreads, rreads')
        | Inr v \<Rightarrow>
            (Inr v, mreads\<lparr>reads_data := Some \<lparr>read_address = address, read_value = v\<rparr>\<rparr>, rreads'))"

definition pplan_crazy ::
  "ProfileMachine \<Rightarrow> ProfileTransitionPlan \<Rightarrow> ProfileMemoryReads \<Rightarrow> ProfileRegisterSet \<Rightarrow>
    (ProfileMachineError + ProfileTransitionPlan) \<times> ProfileMemoryReads \<times> ProfileRegisterSet" where
  "pplan_crazy self p mreads rreads =
    (case semantic_data_read self mreads rreads of
      (Inl e, mreads', rreads') \<Rightarrow> (Inl e, mreads', rreads')
    | (Inr data, mreads', rreads') \<Rightarrow>
        (let v = profile_crazy data (preg_accumulator (pm_registers self))
               (geo_word_trits (pm_geometry self))
         in (Inr (p\<lparr>pp_registers := (pp_registers p)\<lparr>preg_accumulator := v\<rparr>,
                   pp_register_writes := (pp_register_writes p)\<lparr>rs_accumulator := True\<rparr>,
                   pp_memory_write := Some (preg_data_pointer (pm_registers self), v)\<rparr>),
             mreads', rreads'\<lparr>rs_accumulator := True\<rparr>)))"

definition pplan_input :: "ProfileMachine \<Rightarrow> ProfileTransitionPlan \<Rightarrow> ProfileTransitionPlan" where
  "pplan_input self p =
    (let p' = p\<lparr>pp_register_writes := (pp_register_writes p)\<lparr>rs_accumulator := True\<rparr>\<rparr>
     in case get (pm_input self) (pm_input_cursor self) of
          Some b \<Rightarrow> p'\<lparr>pp_registers := (pp_registers p')\<lparr>preg_accumulator := unat b\<rparr>,
                       pp_input_advance := True\<rparr>
        | None \<Rightarrow> p'\<lparr>pp_registers :=
                       (pp_registers p')\<lparr>preg_accumulator := geo_eof_word (pm_geometry self)\<rparr>\<rparr>)"

definition pplan_rotate ::
  "ProfileMachine \<Rightarrow> ProfileTransitionPlan \<Rightarrow> ProfileMemoryReads \<Rightarrow> ProfileRegisterSet \<Rightarrow>
    (ProfileMachineError + ProfileTransitionPlan) \<times> ProfileMemoryReads \<times> ProfileRegisterSet" where
  "pplan_rotate self p mreads rreads =
    (case semantic_data_read self mreads rreads of
      (Inl e, mreads', rreads') \<Rightarrow> (Inl e, mreads', rreads')
    | (Inr data, mreads', rreads') \<Rightarrow>
        (let v = profile_rotate data (geo_word_modulus (pm_geometry self))
         in (Inr (p\<lparr>pp_registers := (pp_registers p)\<lparr>preg_accumulator := v\<rparr>,
                   pp_register_writes := (pp_register_writes p)\<lparr>rs_accumulator := True\<rparr>,
                   pp_memory_write := Some (preg_data_pointer (pm_registers self), v)\<rparr>),
             mreads', rreads')))"

definition pplan_init :: "ProfileMachine \<Rightarrow> ProfileTransitionPlan" where
  "pplan_init self =
    \<lparr>pp_input_advance = False, pp_memory_write = None, pp_output = None,
     pp_register_writes = profile_register_set_default, pp_registers = pm_registers self\<rparr>"

definition pplan ::
  "ProfileMachine \<Rightarrow> ProfileInstruction \<Rightarrow> ProfileMemoryReads \<Rightarrow> ProfileRegisterSet \<Rightarrow>
    (ProfileMachineError + ProfileTransitionPlan) \<times> ProfileMemoryReads \<times> ProfileRegisterSet" where
  "pplan self decoded mreads rreads =
    (let p = pplan_init self
     in case decoded of
          PCrazy \<Rightarrow> pplan_crazy self p mreads rreads
        | PHalt \<Rightarrow> (Inr p, mreads, rreads)
        | PNoOperation \<Rightarrow> (Inr p, mreads, rreads)
        | PInput \<Rightarrow> (Inr (pplan_input self p), mreads, rreads)
        | PJumpCode \<Rightarrow>
            (case semantic_data_read self mreads rreads of
              (Inl e, mreads', rreads') \<Rightarrow> (Inl e, mreads', rreads')
            | (Inr v, mreads', rreads') \<Rightarrow>
                (Inr (p\<lparr>pp_registers := (pp_registers p)\<lparr>preg_code_pointer := v\<rparr>,
                        pp_register_writes := (pp_register_writes p)\<lparr>rs_code_pointer := True\<rparr>\<rparr>),
                 mreads', rreads'))
        | PJumpData \<Rightarrow>
            (case semantic_data_read self mreads rreads of
              (Inl e, mreads', rreads') \<Rightarrow> (Inl e, mreads', rreads')
            | (Inr v, mreads', rreads') \<Rightarrow>
                (Inr (p\<lparr>pp_registers := (pp_registers p)\<lparr>preg_data_pointer := v\<rparr>,
                        pp_register_writes := (pp_register_writes p)\<lparr>rs_data_pointer := True\<rparr>\<rparr>),
                 mreads', rreads'))
        | POutput \<Rightarrow>
            (Inr (p\<lparr>pp_output := Some (profile_low_byte (preg_accumulator (pm_registers self)))\<rparr>),
             mreads, rreads\<lparr>rs_accumulator := True\<rparr>)
        | PRotate \<Rightarrow> pplan_rotate self p mreads rreads)"

definition pvalidate_encryption ::
  "ProfileMachine \<Rightarrow> ProfileTransitionPlan \<Rightarrow> ProfileMemoryReads \<Rightarrow>
    (ProfileMachineError + u32) \<times> ProfileMemoryReads" where
  "pvalidate_encryption self p mreads =
    (let pointer = preg_code_pointer (pp_registers p);
         read_target =
           (case pread self pointer of
             Inl e \<Rightarrow> (Inl e, mreads)
           | Inr v \<Rightarrow>
               (Inr v, mreads\<lparr>reads_encryption := Some \<lparr>read_address = pointer, read_value = v\<rparr>\<rparr>));
         (target, mreads') =
           (case pp_memory_write p of
             Some (write_pointer, v) \<Rightarrow> if write_pointer = pointer then (Inr v, mreads) else read_target
           | None \<Rightarrow> read_target)
     in case target of
          Inl e \<Rightarrow> (Inl e, mreads')
        | Inr t \<Rightarrow>
            if \<not> profile_cell_is_graphical t then (Inl (PInvalidEncryptionTarget pointer t), mreads')
            else (ok_or PTranslationTableInvariant (encrypt_profile_cell t), mreads'))"

definition pmemory_delta ::
  "ProfileMachine \<Rightarrow> ProfileTransitionPlan \<Rightarrow> u32 \<Rightarrow> ProfileMachineError + ProfileMemoryDelta" where
  "pmemory_delta self p encrypted =
    (let encryption_pointer = preg_code_pointer (pp_registers p);
         data = (case pp_memory_write p of
             Some (write_pointer, v) \<Rightarrow>
               if write_pointer \<noteq> encryption_pointer then
                 map_ok (\<lambda>before. if before \<noteq> v
                     then Some \<lparr>pmw_address = write_pointer, pmw_after = v, pmw_before = before\<rparr>
                     else None) (pread self write_pointer)
               else Inr None
           | None \<Rightarrow> Inr None)
     in case data of
          Inl e \<Rightarrow> Inl e
        | Inr d \<Rightarrow>
            map_ok (\<lambda>before. \<lparr>pdelta_data = d,
                pdelta_encryption =
                  (if before \<noteq> encrypted
                   then Some \<lparr>pmw_address = encryption_pointer, pmw_after = encrypted,
                              pmw_before = before\<rparr>
                   else None)\<rparr>) (pread self encryption_pointer))"

definition pcommit ::
  "ProfileMachine \<Rightarrow> ProfileTransitionPlan \<Rightarrow> u32 \<Rightarrow> ProfileRegisterAccesses \<Rightarrow>
    (ProfileMachineError + unit) \<times> ProfileMachine \<times> ProfileRegisterAccesses" where
  "pcommit self p encrypted accesses =
    (let encryption_pointer = preg_code_pointer (pp_registers p);
         written = (case pp_memory_write p of
             Some (write_pointer, v) \<Rightarrow>
               if write_pointer \<noteq> encryption_pointer then pwrite self write_pointer v else Inr self
           | None \<Rightarrow> Inr self)
     in case written of
          Inl e \<Rightarrow> (Inl e, self, accesses)
        | Inr self1 \<Rightarrow>
            (case pwrite self1 encryption_pointer encrypted of
              Inl e \<Rightarrow> (Inl e, self1, accesses)
            | Inr self2 \<Rightarrow>
                (Inr (),
                 self2\<lparr>pm_registers :=
                   \<lparr>preg_accumulator = preg_accumulator (pp_registers p),
                    preg_code_pointer = successor (preg_code_pointer (pp_registers p))
                      (geo_word_modulus (pm_geometry self2)),
                    preg_data_pointer = successor (preg_data_pointer (pp_registers p))
                      (geo_word_modulus (pm_geometry self2))\<rparr>,
                   pm_input_cursor :=
                     (if pp_input_advance p then pm_input_cursor self2 + 1 else pm_input_cursor self2),
                   pm_output :=
                     (case pp_output p of Some b \<Rightarrow> pm_output self2 @ [b] | None \<Rightarrow> pm_output self2)\<rparr>,
                 \<lparr>acc_reads = (acc_reads accesses)\<lparr>rs_code_pointer := True, rs_data_pointer := True\<rparr>,
                  acc_writes =
                    (pp_register_writes p)\<lparr>rs_code_pointer := True, rs_data_pointer := True\<rparr>\<rparr>)))"

subsection \<open>One step\<close>

definition step_after_decode ::
  "ProfileInstruction \<Rightarrow> ProfileMemoryReads \<Rightarrow> ProfileRegisterAccesses \<Rightarrow> ProfileMachine \<Rightarrow>
    ProfileStepExecution \<times> ProfileMachine" where
  "step_after_decode decoded mreads accesses self =
    (if decoded = PHalt then
       (exec_outcome mreads accesses (Terminated HaltInstruction),
        self\<lparr>pm_termination := Some HaltInstruction\<rparr>)
     else
       (case pplan self decoded mreads (acc_reads accesses) of
         (Inl e, mreads1, rreads1) \<Rightarrow> (exec_error mreads1 (accesses\<lparr>acc_reads := rreads1\<rparr>) e, self)
       | (Inr p, mreads1, rreads1) \<Rightarrow>
         let accesses1 = accesses\<lparr>acc_reads := rreads1\<rparr> in
         (case pvalidate_encryption self p mreads1 of
           (Inl e, mreads2) \<Rightarrow> (exec_error mreads2 accesses1 e, self)
         | (Inr encrypted, mreads2) \<Rightarrow>
           (case pmemory_delta self p encrypted of
             Inl e \<Rightarrow> (exec_error mreads2 accesses1 e, self)
           | Inr delta \<Rightarrow>
             (case pcommit self p encrypted accesses1 of
               (Inl e, self', accesses2) \<Rightarrow> (exec_error mreads2 accesses2 e, self')
             | (Inr _, self', accesses2) \<Rightarrow> (exec_continued delta mreads2 accesses2, self'))))))"

definition step_after_fetch ::
  "u32 \<Rightarrow> ProfileMemoryReads \<Rightarrow> ProfileRegisterAccesses \<Rightarrow> ProfileMachine \<Rightarrow>
    ProfileStepExecution \<times> ProfileMachine" where
  "step_after_fetch cell mreads accesses self =
    (if \<not> profile_cell_is_graphical cell then
       (if pd_kind (pm_profile self) = HistoricalConformance then
          (exec_continued profile_memory_delta_default mreads accesses, self)
        else
          (exec_outcome mreads accesses (Terminated NonGraphicalCell),
           self\<lparr>pm_termination := Some NonGraphicalCell\<rparr>))
     else
       (case decode_profile_instruction cell (preg_code_pointer (pm_registers self)) of
         None \<Rightarrow> (exec_error mreads accesses PTranslationTableInvariant, self)
       | Some decoded \<Rightarrow>
           step_after_decode (profile_instruction_for (pm_profile self) decoded) mreads accesses self))"

definition step_execution :: "ProfileMachine \<Rightarrow> ProfileStepExecution \<times> ProfileMachine" where
  "step_execution self =
    (let mreads = profile_memory_reads_default;
         accesses = profile_register_accesses_default
     in case pm_termination self of
          Some r \<Rightarrow> (exec_outcome mreads accesses (Terminated r), self)
        | None \<Rightarrow>
          let accesses = accesses\<lparr>acc_reads := (acc_reads accesses)\<lparr>rs_code_pointer := True\<rparr>\<rparr>;
              address = preg_code_pointer (pm_registers self)
          in (case pread self address of
               Inl e \<Rightarrow> (exec_error mreads accesses e, self)
             | Inr cell \<Rightarrow>
               step_after_fetch cell
                 (mreads\<lparr>reads_fetch := Some \<lparr>read_address = address, read_value = cell\<rparr>\<rparr>)
                 accesses self))"

definition pstep :: "ProfileMachine \<Rightarrow> (ProfileMachineError + StepOutcome) \<times> ProfileMachine" where
  "pstep self = apfst exec_result (step_execution self)"

subsection \<open>Observed steps\<close>

definition pobservation :: "ProfileMachine \<Rightarrow> ProfileMachineObservation" where
  "pobservation self =
    \<lparr>pobs_input_consumed = pm_input_cursor self, pobs_output_len = length (pm_output self),
     pobs_registers = pm_registers self, pobs_termination = pm_termination self\<rparr>"

definition pstep_trace :: "ProfileMachine \<Rightarrow> ProfileStepTrace" where
  "pstep_trace self =
    (let before = pobservation self;
         (execution, self') = step_execution self;
         fetched_cell = map_option read_value (reads_fetch (exec_memory_reads execution));
         decoded = Option.bind (option_filter profile_cell_is_graphical fetched_cell)
           (\<lambda>cell. decode_profile_instruction cell (preg_code_pointer (pobs_registers before)));
         decoded_instruction = map_option (profile_instruction_for (pm_profile self')) decoded;
         result = exec_result execution;
         after = pobservation self';
         input = (if result = Inr Continued \<and> decoded_instruction = Some PInput then
                    (if pobs_input_consumed after > pobs_input_consumed before
                     then map_option TraceByte (get (pm_input self') (pobs_input_consumed before))
                     else Some EndOfInput)
                  else None);
         out = (if pobs_output_len after > pobs_output_len before
                then get (pm_output self') (pobs_output_len before) else None)
     in \<lparr>ptr_after = after, ptr_before = before, ptr_decoded = decoded,
         ptr_fetched_cell = fetched_cell, ptr_geometry = pm_geometry self', ptr_input = input,
         ptr_memory_delta = exec_memory_delta execution,
         ptr_memory_reads = exec_memory_reads execution, ptr_output = out,
         ptr_profile = pm_profile self',
         ptr_register_accesses = exec_register_accesses execution, ptr_result = result\<rparr>)"

definition pstep_traced ::
  "('o \<Rightarrow> ProfileStepTrace \<Rightarrow> 'o) \<Rightarrow> ProfileMachine \<Rightarrow> 'o \<Rightarrow>
    (ProfileMachineError + StepOutcome) \<times> ProfileMachine \<times> 'o" where
  "pstep_traced observer self obs =
    (let (execution, self') = step_execution self
     in (exec_result execution, self', observer obs (pstep_trace self)))"

subsection \<open>Bounded runs\<close>

function prun_loop ::
  "usize \<Rightarrow> usize \<Rightarrow> ProfileMachine \<Rightarrow> (ProfileMachineError + RunOutcome) \<times> ProfileMachine" where
  "prun_loop step_budget steps self =
    (if steps < step_budget then
      (case pstep self of
        (Inl e, self') \<Rightarrow> (Inl e, self')
      | (Inr outcome, self') \<Rightarrow>
          (case outcome of
            Terminated r \<Rightarrow> (Inr (RunTerminated r (steps + 1)), self')
          | Continued \<Rightarrow> prun_loop step_budget (steps + 1) self'))
     else (Inr (BudgetExhausted steps), self))"
  by pat_completeness auto
termination
  by (relation "measure (\<lambda>(budget, steps, _). budget - steps)") auto

declare prun_loop.simps [simp del]

definition prun ::
  "usize \<Rightarrow> ProfileMachine \<Rightarrow> (ProfileMachineError + RunOutcome) \<times> ProfileMachine" where
  "prun step_budget self =
    (case pm_termination self of
      Some r \<Rightarrow> (Inr (RunTerminated r 0), self)
    | None \<Rightarrow> prun_loop step_budget 0 self)"

function prun_traced_loop ::
  "('o \<Rightarrow> ProfileStepTrace \<Rightarrow> 'o) \<Rightarrow> usize \<Rightarrow> usize \<Rightarrow> ProfileMachine \<Rightarrow> 'o \<Rightarrow>
    (ProfileMachineError + RunOutcome) \<times> ProfileMachine \<times> 'o" where
  "prun_traced_loop observer step_budget steps self obs =
    (if steps < step_budget then
      (case pstep_traced observer self obs of
        (Inl e, self', obs') \<Rightarrow> (Inl e, self', obs')
      | (Inr outcome, self', obs') \<Rightarrow>
          (case outcome of
            Terminated r \<Rightarrow> (Inr (RunTerminated r (steps + 1)), self', obs')
          | Continued \<Rightarrow> prun_traced_loop observer step_budget (steps + 1) self' obs'))
     else (Inr (BudgetExhausted steps), self, obs))"
  by pat_completeness auto
termination
  by (relation "measure (\<lambda>(_, budget, steps, _, _). budget - steps)") auto

declare prun_traced_loop.simps [simp del]

definition prun_traced ::
  "('o \<Rightarrow> ProfileStepTrace \<Rightarrow> 'o) \<Rightarrow> usize \<Rightarrow> ProfileMachine \<Rightarrow> 'o \<Rightarrow>
    (ProfileMachineError + RunOutcome) \<times> ProfileMachine \<times> 'o" where
  "prun_traced observer step_budget self obs =
    (case pm_termination self of
      Some r \<Rightarrow> (Inr (RunTerminated r 0), self, obs)
    | None \<Rightarrow> prun_traced_loop observer step_budget 0 self obs)"

subsection \<open>Checkpoints\<close>

definition validate_input_cursor :: "usize \<Rightarrow> usize \<Rightarrow> ProfileMachineError + unit" where
  "validate_input_cursor input_len observed =
    (if observed > input_len then Err (PInputCursorOutOfRange input_len observed) else Ok ())"

definition profile_io_state_new ::
  "u8 list \<Rightarrow> usize \<Rightarrow> u8 list \<Rightarrow> Termination option \<Rightarrow>
    ProfileMachineError + ProfileMachineIoState" where
  "profile_io_state_new input input_cursor out term_reason =
    map_ok (\<lambda>_. \<lparr>pio_input = input, pio_input_cursor = input_cursor, pio_output = out,
                 pio_termination = term_reason\<rparr>)
      (validate_input_cursor (length input) input_cursor)"

text \<open>The scan over the memory image; the index is the address reported.\<close>

fun validate_memory_loop :: "u32 \<Rightarrow> nat \<Rightarrow> u32 list \<Rightarrow> ProfileMachineError + unit" where
  "validate_memory_loop modulus index [] = Inr ()"
| "validate_memory_loop modulus index (v # vs) =
    (if v \<ge> modulus then
       (if index > U32_MAX then Inl MemoryInvariant else Inl (MemoryWordOutOfRange index v))
     else validate_memory_loop modulus (index + 1) vs)"

definition validate_state_memory ::
  "ProfileExecutionGeometry \<Rightarrow> u32 list \<Rightarrow> ProfileMachineError + unit" where
  "validate_state_memory geometry memory =
    (let expected = geo_memory_words geometry
     in if length memory \<noteq> expected then Err (MemoryImageLength expected (length memory))
        else validate_memory_loop (geo_word_modulus geometry) 0 memory)"

definition validate_state_register ::
  "ProfileExecutionGeometry \<Rightarrow> ProfileRegisterName \<Rightarrow> u32 \<Rightarrow> ProfileMachineError + unit" where
  "validate_state_register geometry register v =
    (if v \<ge> geo_word_modulus geometry then Err (RegisterOutOfRange register v) else Ok ())"

definition validate_state_registers ::
  "ProfileExecutionGeometry \<Rightarrow> ProfileRegisters \<Rightarrow> ProfileMachineError + unit" where
  "validate_state_registers geometry registers =
    (case validate_state_register geometry AccumulatorName (preg_accumulator registers) of
      Inl e \<Rightarrow> Inl e
    | Inr _ \<Rightarrow>
      (case validate_state_register geometry CodePointerName (preg_code_pointer registers) of
        Inl e \<Rightarrow> Inl e
      | Inr _ \<Rightarrow> validate_state_register geometry DataPointerName (preg_data_pointer registers)))"

definition profile_state_new_with_geometry ::
  "ProfileExecutionGeometry \<Rightarrow> u32 list \<Rightarrow> ProfileRegisters \<Rightarrow> ProfileMachineIoState \<Rightarrow>
    ProfileMachineError + ProfileMachineState" where
  "profile_state_new_with_geometry geometry memory registers io =
    (if \<not> admits_input geometry (pio_input io) then Err VerifiedInputRejected
     else
       (let profile = geo_profile geometry
        in case preflight_profile profile (geo_memory_words geometry) SAFE_RUST_PROFILED of
             Inl e \<Rightarrow> Err (ProfileFailure e)
           | Inr _ \<Rightarrow>
             (case validate_state_memory geometry memory of
               Inl e \<Rightarrow> Inl e
             | Inr _ \<Rightarrow>
               (case validate_state_registers geometry registers of
                 Inl e \<Rightarrow> Inl e
               | Inr _ \<Rightarrow>
                   Ok \<lparr>pst_geometry = geometry, pst_io = io, pst_memory = memory,
                       pst_profile = profile, pst_registers = registers\<rparr>))))"

definition profile_state_new ::
  "ProfileDescriptor \<Rightarrow> u32 list \<Rightarrow> ProfileRegisters \<Rightarrow> ProfileMachineIoState \<Rightarrow>
    ProfileMachineError + ProfileMachineState" where
  "profile_state_new profile memory registers io =
    profile_state_new_with_geometry (canonical profile) memory registers io"

definition pfrom_snapshot :: "ProfileMachineState \<Rightarrow> ProfileMachine" where
  "pfrom_snapshot state =
    \<lparr>pm_geometry = pst_geometry state, pm_input = pio_input (pst_io state),
     pm_input_cursor = pio_input_cursor (pst_io state), pm_memory = pst_memory state,
     pm_output = pio_output (pst_io state), pm_profile = pst_profile state,
     pm_registers = pst_registers state, pm_termination = pio_termination (pst_io state)\<rparr>"

definition psnapshot_state :: "ProfileMachine \<Rightarrow> ProfileMachineState" where
  "psnapshot_state self =
    \<lparr>pst_geometry = pm_geometry self,
     pst_io = \<lparr>pio_input = pm_input self, pio_input_cursor = pm_input_cursor self,
               pio_output = pm_output self, pio_termination = pm_termination self\<rparr>,
     pst_memory = pm_memory self, pst_profile = pm_profile self,
     pst_registers = pm_registers self\<rparr>"

definition pfrom_state ::
  "ProfileDescriptor \<Rightarrow> u32 list \<Rightarrow> u8 list \<Rightarrow> ProfileRegisters \<Rightarrow>
    ProfileMachineError + ProfileMachine" where
  "pfrom_state profile memory input registers =
    (case profile_io_state_new input 0 [] None of
      Inl e \<Rightarrow> Inl e
    | Inr io \<Rightarrow> map_ok pfrom_snapshot (profile_state_new profile memory registers io))"

subsection \<open>Loading\<close>

fun admit_loop :: "usize \<Rightarrow> nat \<Rightarrow> u8 list \<Rightarrow> u32 list \<Rightarrow> ProfileLoadError + u32 list" where
  "admit_loop offset capacity [] ws = Inr ws"
| "admit_loop offset capacity (b # bs) ws =
    (if is_source_whitespace b then admit_loop (offset + 1) capacity bs ws
     else if \<not> (33 \<le> b \<and> b \<le> 126) then Inl (PInvalidSourceByte offset b)
     else if length ws \<ge> capacity then Inl PSourceTooLong
     else admit_loop (offset + 1) capacity bs (ws @ [unat b]))"

fun admit_instructions :: "nat \<Rightarrow> u32 list \<Rightarrow> ProfileLoadError + unit" where
  "admit_instructions position [] = Inr ()"
| "admit_instructions position (cell # cells) =
    (if position > U32_MAX then Inl MemoryAllocation
     else if cell > 255 then Inl MemoryAllocation
     else
       (let b = of_nat cell :: u8
        in case decode_profile_instruction cell position of
             None \<Rightarrow> Inl (PInvalidInstruction position b)
           | Some decoded \<Rightarrow>
               if decoded \<notin> load_instructions then Inl (PInvalidInstruction position b)
               else admit_instructions (position + 1) cells))"

definition admit_profile_source :: "u8 list \<Rightarrow> u32 \<Rightarrow> ProfileLoadError + u32 list" where
  "admit_profile_source source memory_words =
    (case admit_loop 0 memory_words source [] of
      Inl e \<Rightarrow> Inl e
    | Inr ws \<Rightarrow>
      (case admit_instructions 0 ws of
        Inl e \<Rightarrow> Inl e
      | Inr _ \<Rightarrow> if length ws < 2 then Inl PInsufficientRecurrenceBase else Inr ws))"

function pfill_loop :: "nat \<Rightarrow> nat \<Rightarrow> u32 list \<Rightarrow> ProfileLoadError + u32 list" where
  "pfill_loop word_trits memory_words ws =
    (if length ws < memory_words then
       (case get ws (length ws - 1) of
         None \<Rightarrow> Inl PInsufficientRecurrenceBase
       | Some previous \<Rightarrow>
         (case get ws (length ws - 2) of
           None \<Rightarrow> Inl PInsufficientRecurrenceBase
         | Some older \<Rightarrow>
             pfill_loop word_trits memory_words (ws @ [profile_crazy older previous word_trits])))
     else Inr ws)"
  by pat_completeness auto
termination
  by (relation "measure (\<lambda>(_, n, ws). n - length ws)") auto

declare pfill_loop.simps [simp del]

definition load_profile ::
  "(usize \<Rightarrow> bool) \<Rightarrow> ProfileExecutionGeometry \<Rightarrow> u8 list \<Rightarrow> ProfileLoadError + u32 list" where
  "load_profile reserve geometry source =
    (let memory_words = geo_memory_words geometry
     in case admit_profile_source source memory_words of
          Inl e \<Rightarrow> Inl e
        | Inr ws \<Rightarrow>
          (let additional = memory_words - length ws
           in if \<not> reserve additional then Inl MemoryAllocation
              else pfill_loop (geo_word_trits geometry) memory_words ws))"

definition pfrom_source ::
  "(usize \<Rightarrow> bool) \<Rightarrow> ProfileDescriptor \<Rightarrow> u8 list \<Rightarrow> u8 list \<Rightarrow>
    ProfileMachineError + ProfileMachine" where
  "pfrom_source reserve profile source input =
    (case preflight_profile profile (source_word_requirement source) SAFE_RUST_PROFILED of
      Inl e \<Rightarrow> Inl (ProfileFailure e)
    | Inr _ \<Rightarrow>
      (let geometry = canonical profile
       in case load_profile reserve geometry source of
            Inl e \<Rightarrow> Inl (Load e)
          | Inr memory \<Rightarrow>
              Inr \<lparr>pm_geometry = geometry, pm_input = input, pm_input_cursor = 0,
                   pm_memory = memory, pm_output = [], pm_profile = profile,
                   pm_registers = profile_registers_default, pm_termination = None\<rparr>))"

end
