(* ===== verification/AbstractMachine.thy ===== *)
theory AbstractMachine
  imports Instruction
begin

text \<open>
  The specification both machines are shown to implement: a Malbolge machine over numbers,
  with memory a total function, at any width of \<open>n\<close> trits and any assignment of the two I/O
  opcodes. It has no tables, no plans and no errors: a step exists or it does not.
\<close>

datatype operation = OpCrazy | OpHalt | OpInput | OpJumpCode | OpJumpData | OpNop | OpOutput | OpRotate

record amachine =
  am_mem :: "nat \<Rightarrow> nat"
  am_a :: nat
  am_c :: nat
  am_d :: nat
  am_in :: "u8 list"
  am_out :: "u8 list"

definition graphical :: "nat \<Rightarrow> bool" where
  "graphical v \<longleftrightarrow> 33 \<le> v \<and> v \<le> 126"

definition am_operation :: "u8 \<Rightarrow> u8 \<Rightarrow> u8 \<Rightarrow> operation" where
  "am_operation inop outop b =
    (if b = inop then OpInput
     else if b = outop then OpOutput
     else if b = 42 then OpRotate
     else if b = 105 then OpJumpCode
     else if b = 106 then OpJumpData
     else if b = 112 then OpCrazy
     else if b = 118 then OpHalt
     else OpNop)"

text \<open>The byte the current cell decodes to; the cell must be graphical.\<close>

definition am_decoded :: "amachine \<Rightarrow> u8" where
  "am_decoded s = XLAT1 ! ((am_mem s (am_c s) - 33 + am_c s mod 94) mod 94)"

fun am_effect :: "nat \<Rightarrow> operation \<Rightarrow> amachine \<Rightarrow> amachine" where
  "am_effect n OpCrazy s =
    (let v = crazy_digits n (am_mem s (am_d s)) (am_a s)
     in s\<lparr>am_mem := (am_mem s)(am_d s := v), am_a := v\<rparr>)"
| "am_effect n OpRotate s =
    (let v = rotate_digits n (am_mem s (am_d s))
     in s\<lparr>am_mem := (am_mem s)(am_d s := v), am_a := v\<rparr>)"
| "am_effect n OpJumpCode s = s\<lparr>am_c := am_mem s (am_d s)\<rparr>"
| "am_effect n OpJumpData s = s\<lparr>am_d := am_mem s (am_d s)\<rparr>"
| "am_effect n OpInput s =
    (case am_in s of
      [] \<Rightarrow> s\<lparr>am_a := 3 ^ n - 1\<rparr>
    | b # bs \<Rightarrow> s\<lparr>am_a := unat b, am_in := bs\<rparr>)"
| "am_effect n OpOutput s = s\<lparr>am_out := am_out s @ [of_nat (am_a s)]\<rparr>"
| "am_effect n OpNop s = s"
| "am_effect n OpHalt s = s"

text \<open>After its effect, a step encrypts the cell under \<open>C\<close> and advances both pointers.\<close>

definition am_seal :: "nat \<Rightarrow> amachine \<Rightarrow> amachine" where
  "am_seal n s =
    s\<lparr>am_mem := (am_mem s)(am_c s := unat (XLAT2 ! (am_mem s (am_c s) - 33))),
      am_c := Suc (am_c s) mod 3 ^ n, am_d := Suc (am_d s) mod 3 ^ n\<rparr>"

inductive amstep :: "nat \<Rightarrow> u8 \<Rightarrow> u8 \<Rightarrow> amachine \<Rightarrow> amachine \<Rightarrow> bool"
  for n inop outop where
  amstep_op: "graphical (am_mem s (am_c s)) \<Longrightarrow> am_operation inop outop (am_decoded s) = opn \<Longrightarrow>
    opn \<noteq> OpHalt \<Longrightarrow> t = am_effect n opn s \<Longrightarrow> graphical (am_mem t (am_c t)) \<Longrightarrow>
    amstep n inop outop s (am_seal n t)"

inductive_simps amstep_iff: "amstep n inop outop s s'"

definition am_halts :: "u8 \<Rightarrow> u8 \<Rightarrow> amachine \<Rightarrow> bool" where
  "am_halts inop outop s \<longleftrightarrow>
    graphical (am_mem s (am_c s)) \<and> am_operation inop outop (am_decoded s) = OpHalt"

definition am_blocked :: "nat \<Rightarrow> u8 \<Rightarrow> u8 \<Rightarrow> amachine \<Rightarrow> bool" where
  "am_blocked n inop outop s \<longleftrightarrow>
    graphical (am_mem s (am_c s)) \<and> am_operation inop outop (am_decoded s) \<noteq> OpHalt \<and>
    (let t = am_effect n (am_operation inop outop (am_decoded s)) s
     in \<not> graphical (am_mem t (am_c t)))"

lemma amstep_seal:
  assumes "graphical (am_mem s (am_c s))" and "am_operation i q (am_decoded s) = opn" and "opn \<noteq> OpHalt"
    and "graphical (am_mem (am_effect n opn s) (am_c (am_effect n opn s)))"
  shows "amstep n i q s (am_seal n (am_effect n opn s))"
  using assms by (intro amstep_op) auto

lemma amstep_deterministic: "amstep n i p s t \<Longrightarrow> amstep n i p s u \<Longrightarrow> t = u"
  by (auto simp: amstep_iff)

text \<open>Exactly one of: not graphical, halt, blocked, a step.\<close>

lemma am_cases:
  obtains (nongraphical) "\<not> graphical (am_mem s (am_c s))"
    | (halts) "am_halts i p s"
    | (blocked) "am_blocked n i p s"
    | (steps) s' where "amstep n i p s s'"
  by (auto simp: am_halts_def am_blocked_def amstep_iff Let_def)

lemma amstep_not_stuck:
  "amstep n i p s s' \<Longrightarrow> graphical (am_mem s (am_c s)) \<and> \<not> am_halts i p s \<and> \<not> am_blocked n i p s"
  by (auto simp: am_halts_def am_blocked_def amstep_iff Let_def)

end
