(* ===== verification/MachineFacts.thy ===== *)
theory MachineFacts
  imports Machine AbstractMachine
begin

text \<open>
  What holds of the classic machine: its step satisfies the bounded-run contract (so the run
  and trace theorems of \<open>Runner\<close> apply), an error leaves the machine as it was, the machine
  stays well formed, and each step is a step of the abstract machine of ten trits.
\<close>

subsection \<open>Invariant\<close>

definition wf_registers :: "Registers \<Rightarrow> bool" where
  "wf_registers r \<longleftrightarrow> wf_word (accumulator r) \<and> wf_word (code_pointer r) \<and> wf_word (data_pointer r)"

definition wf_machine :: "Machine \<Rightarrow> bool" where
  "wf_machine m \<longleftrightarrow> wf_memory (m_memory m) \<and> wf_registers (m_registers m) \<and>
    m_input_cursor m \<le> length (m_input m)"

lemma wf_machineD:
  assumes "wf_machine m"
  shows "wf_memory (m_memory m)" "wf_word (accumulator (m_registers m))"
    "wf_word (code_pointer (m_registers m))" "wf_word (data_pointer (m_registers m))"
    "m_input_cursor m \<le> length (m_input m)"
  using assms by (auto simp: wf_machine_def wf_registers_def)

subsection \<open>An error leaves the machine unchanged\<close>

text \<open>
  \<open>memory_delta\<close> reads both cells the commit writes, so once it has succeeded the two
  replacements succeed: this is the store contract, not the well-formedness of the machine.
\<close>

lemma memory_delta_addresses:
  assumes "memory_delta self p e = Inr d"
  shows "valid_address (m_memory self) (code_pointer (plan_registers p))"
    and "plan_memory_write p = Some (a, v) \<Longrightarrow> valid_address (m_memory self) a"
proof -
  show "valid_address (m_memory self) (code_pointer (plan_registers p))"
    using assms unfolding classic_store.read_valid[symmetric]
    by (auto simp: memory_delta_def Let_def split: sum.splits)
  then show "plan_memory_write p = Some (a, v) \<Longrightarrow> valid_address (m_memory self) a"
    using assms unfolding classic_store.read_valid[symmetric]
    by (auto simp: memory_delta_def Let_def split: sum.splits if_splits)
qed

text \<open>What a successful commit leaves: the data cell, then the encrypted cell, then the rest.\<close>

definition planned_words :: "Machine \<Rightarrow> TransitionPlan \<Rightarrow> cword list" where
  "planned_words self p =
    (case plan_memory_write p of
      Some (a, v) \<Rightarrow> (mem_words (m_memory self))[word_value a := v]
    | None \<Rightarrow> mem_words (m_memory self))"

definition committed :: "Machine \<Rightarrow> TransitionPlan \<Rightarrow> cword \<Rightarrow> Machine" where
  "committed self p e =
    self\<lparr>m_memory := (m_memory self)\<lparr>mem_words :=
           (planned_words self p)[word_value (code_pointer (plan_registers p)) := e]\<rparr>,
         m_registers :=
           \<lparr>accumulator = accumulator (plan_registers p),
            code_pointer = word_successor (code_pointer (plan_registers p)),
            data_pointer = word_successor (data_pointer (plan_registers p))\<rparr>,
         m_input_cursor :=
           (if plan_input_advance p then m_input_cursor self + 1 else m_input_cursor self),
         m_output :=
           (case plan_output p of Some b \<Rightarrow> m_output self @ [b] | None \<Rightarrow> m_output self)\<rparr>"

lemma memory_replace_valid:
  "valid_address m a \<Longrightarrow>
    memory_replace m a w = Inr (m\<lparr>mem_words := (mem_words m)[word_value a := w]\<rparr>)"
  by (simp add: memory_replace_def valid_address_def Let_def)

lemma commit_after_delta:
  assumes "memory_delta self p e = Inr d"
  shows "commit self p e = (Inr (), committed self p e)"
proof -
  note va = memory_delta_addresses[OF assms]
  show ?thesis
  proof (cases "plan_memory_write p")
    case None
    then show ?thesis
      using va(1) by (simp add: commit_def committed_def planned_words_def memory_replace_valid Let_def)
  next
    case (Some w)
    obtain a v where w: "w = (a, v)" by (cases w)
    have "valid_address ((m_memory self)\<lparr>mem_words := (mem_words (m_memory self))[word_value a := v]\<rparr>)
        (code_pointer (plan_registers p))"
      using va(1) by (simp add: valid_address_def)
    then show ?thesis
      using va(1) va(2)[OF Some[unfolded w]] Some w
      by (simp add: commit_def committed_def planned_words_def memory_replace_valid Let_def)
  qed
qed

lemma step_with_delta_error:
  "step_with_delta_in_mode mode self = (Inl e, self') \<Longrightarrow> self' = self"
  unfolding step_with_delta_in_mode_def Let_def
  by (auto split: option.splits sum.splits if_splits prod.splits dest: commit_after_delta)

lemma step_error_unchanged: "step_in_mode mode self = (Inl e, self') \<Longrightarrow> self' = self"
  by (auto simp: step_in_mode_def apfst_def map_prod_def split: prod.splits
      dest: step_with_delta_error)

subsection \<open>The step satisfies the bounded-run contract\<close>

lemma m_termination_committed [simp]: "m_termination (committed self p e) = m_termination self"
  by (simp add: committed_def)

lemma m_input_committed [simp]: "m_input (committed self p e) = m_input self"
  by (simp add: committed_def)

lemma step_in_mode_unfold:
  "step_in_mode mode self = (r, self') \<longleftrightarrow>
    (\<exists>q. step_with_delta_in_mode mode self = (q, self') \<and> r = map_ok fst q)"
  by (cases "step_with_delta_in_mode mode self") (auto simp: step_in_mode_def)

text \<open>Every way a step can go on from a machine that has not terminated.\<close>

lemma step_continued_cases:
  assumes "step_with_delta_in_mode mode self = (Inr (Continued, delta), self')"
  obtains (stutter) cell where "m_termination self = None" "mode = Interpreter"
      "memory_read (m_memory self) (code_pointer (m_registers self)) = Inr cell"
      "\<not> word_is_graphical cell" "self' = self" "delta = memory_delta_default"
    | (committed) cell decoded p e where "m_termination self = None"
      "memory_read (m_memory self) (code_pointer (m_registers self)) = Inr cell"
      "word_is_graphical cell"
      "decode_instruction cell (code_pointer (m_registers self)) = Some decoded"
      "instruction decoded mode \<noteq> Halt" "plan self (instruction decoded mode) = Inr p"
      "validate_encryption self p mode = Inr e" "memory_delta self p e = Inr delta"
      "self' = committed self p e"
proof -
  note step = assms[unfolded step_with_delta_in_mode_def Let_def]
  from step have live: "m_termination self = None" by (simp split: option.splits)
  from step live obtain cell where
    cell: "memory_read (m_memory self) (code_pointer (m_registers self)) = Inr cell"
    by (simp split: sum.splits)
  show ?thesis
  proof (cases "word_is_graphical cell")
    case False
    then show ?thesis
      using step live cell by (intro stutter) (simp_all split: if_splits)
  next
    case True
    from step live cell True obtain decoded where
      decoded: "decode_instruction cell (code_pointer (m_registers self)) = Some decoded"
      by (simp split: option.splits)
    from step live cell True decoded have nohalt: "instruction decoded mode \<noteq> Halt"
      by (simp split: if_splits)
    from step live cell True decoded nohalt obtain p where
      p: "plan self (instruction decoded mode) = Inr p"
      by (simp split: sum.splits)
    from step live cell True decoded nohalt p obtain e where
      e: "validate_encryption self p mode = Inr e"
      by (simp split: sum.splits)
    from step live cell True decoded nohalt p e obtain d where d: "memory_delta self p e = Inr d"
      by (simp split: sum.splits)
    from step live cell True decoded nohalt p e d have "d = delta" "self' = committed self p e"
      by (simp_all add: commit_after_delta)
    then show ?thesis
      using live cell True decoded nohalt p e d by (intro committed) simp_all
  qed
qed

lemma step_with_delta_terminated:
  "step_with_delta_in_mode mode self = (Inr (Terminated r, delta), self') \<Longrightarrow>
    m_termination self' = Some r \<and> self' = self\<lparr>m_termination := Some r\<rparr>"
  unfolding step_with_delta_in_mode_def Let_def
  by (auto split: option.splits sum.splits if_splits prod.splits)

interpretation classic_run: traced_runner
  "step_in_mode mode" m_termination "run_loop_in_mode mode" "run_in_mode mode"
  "step_traced_in_mode mode" "run_traced_loop_in_mode mode" "run_traced_in_mode mode"
  "step_trace mode"
  for mode
proof unfold_locales
  fix budget k s e s' r and observer :: "'o \<Rightarrow> StepTrace \<Rightarrow> 'o" and obs
  show "run_loop_in_mode mode budget k s =
      (if k < budget then
        (case step_in_mode mode s of
          (Inl e, s') \<Rightarrow> (Inl e, s')
        | (Inr outcome, s') \<Rightarrow>
            (case outcome of
              Terminated r \<Rightarrow> (Inr (RunTerminated r (k + 1)), s')
            | Continued \<Rightarrow> run_loop_in_mode mode budget (k + 1) s'))
       else (Inr (BudgetExhausted k), s))"
    by (rule run_loop_in_mode.simps)
  show "run_in_mode mode budget s =
      (case m_termination s of Some r \<Rightarrow> (Inr (RunTerminated r 0), s)
       | None \<Rightarrow> run_loop_in_mode mode budget 0 s)"
    by (rule run_in_mode_def)
  show "m_termination s = Some r \<Longrightarrow> step_in_mode mode s = (Inr (Terminated r), s)"
    by (simp add: step_in_mode_def step_with_delta_in_mode_def)
  show "step_in_mode mode s = (Inr (Terminated r), s') \<Longrightarrow> m_termination s' = Some r"
    by (auto simp: step_in_mode_unfold dest: step_with_delta_terminated)
  show "step_in_mode mode s = (Inr Continued, s') \<Longrightarrow> m_termination s' = None"
    by (auto simp: step_in_mode_unfold elim: step_continued_cases)
  show "step_traced_in_mode mode observer s obs =
      (fst (step_in_mode mode s), snd (step_in_mode mode s), observer obs (step_trace mode s))"
    by (simp add: step_traced_in_mode_def step_in_mode_def Let_def)
  show "run_traced_loop_in_mode mode observer budget k s obs =
      (if k < budget then
        (case step_traced_in_mode mode observer s obs of
          (Inl e, s', obs') \<Rightarrow> (Inl e, s', obs')
        | (Inr outcome, s', obs') \<Rightarrow>
            (case outcome of
              Terminated r \<Rightarrow> (Inr (RunTerminated r (k + 1)), s', obs')
            | Continued \<Rightarrow> run_traced_loop_in_mode mode observer budget (k + 1) s' obs'))
       else (Inr (BudgetExhausted k), s, obs))"
    by (rule run_traced_loop_in_mode.simps)
  show "run_traced_in_mode mode observer budget s obs =
      (case m_termination s of Some r \<Rightarrow> (Inr (RunTerminated r 0), s, obs)
       | None \<Rightarrow> run_traced_loop_in_mode mode observer budget 0 s obs)"
    by (rule run_traced_in_mode_def)
qed

interpretation classic_atomic: atomic_runner
  "step_in_mode mode" m_termination "run_loop_in_mode mode" "run_in_mode mode"
  for mode
  by unfold_locales (rule step_error_unchanged)

subsection \<open>Well-formedness is invariant\<close>

lemma plan_writes_wf:
  assumes "wf_machine self" and "plan self i = Inr p"
  shows "wf_registers (plan_registers p)"
    and "plan_memory_write p = Some (a, v) \<Longrightarrow> wf_word a \<and> wf_word v"
    and "plan_input_advance p \<Longrightarrow> m_input_cursor self < length (m_input self)"
  using assms(2) wf_machineD[OF assms(1)]
  by (auto simp: plan_def plan_crazy_def plan_rotate_def plan_input_def Let_def wf_registers_def
      get_Some_iff intro: wf_word_crazy wf_word_rotate
      dest!: memory_read_wf_word[OF wf_machineD(1)[OF assms(1)]]
      split: Instruction.splits sum.splits option.splits)

lemma validate_encryption_graphical:
  assumes "validate_encryption self p mode = Inr e"
  shows "word_is_graphical e"
  using assms
  by (auto simp: validate_encryption_def Let_def intro: encrypt_graphical
      split: sum.splits if_splits ExecutionMode.splits)

lemma wf_committed:
  assumes wf: "wf_machine self" and p: "plan self i = Inr p"
    and e: "validate_encryption self p mode = Inr e"
  shows "wf_machine (committed self p e)"
proof -
  note pw = plan_writes_wf[OF wf p]
  have "wf_word e" using e by (intro wf_word_graphical validate_encryption_graphical)
  then have "wf_memory ((m_memory self)\<lparr>mem_words :=
      (planned_words self p)[word_value (code_pointer (plan_registers p)) := e]\<rparr>)"
    using wf_machineD(1)[OF wf] pw(2)
    by (auto simp: wf_memory_def planned_words_def split: option.splits
        dest!: subsetD[OF set_update_subset_insert])
  then show ?thesis
    using pw(1,3) wf_machineD(5)[OF wf]
    by (auto simp: wf_machine_def wf_registers_def committed_def intro: wf_word_successor)
qed

lemma step_with_delta_wf:
  assumes "wf_machine self" and "step_with_delta_in_mode mode self = (r, self')"
  shows "wf_machine self'"
proof (cases r)
  case (Inl e)
  then show ?thesis using assms step_with_delta_error by blast
next
  case (Inr x)
  obtain outcome delta where x: "x = (outcome, delta)" by (cases x)
  show ?thesis
  proof (cases outcome)
    case Continued
    then have "step_with_delta_in_mode mode self = (Inr (Continued, delta), self')"
      using assms(2) Inr x by simp
    then show ?thesis
      by (cases rule: step_continued_cases) (use assms(1) wf_committed in blast)+
  next
    case (Terminated q)
    then show ?thesis
      using assms Inr x step_with_delta_terminated[of mode self q delta self']
      by (simp add: wf_machine_def)
  qed
qed

lemma step_wf: "wf_machine self \<Longrightarrow> step_in_mode mode self = (r, self') \<Longrightarrow> wf_machine self'"
  by (auto simp: step_in_mode_unfold intro: step_with_delta_wf)

lemma run_wf: "run_in_mode mode n self = (r, self') \<Longrightarrow> wf_machine self \<Longrightarrow> wf_machine self'"
  by (erule classic_run.run_invariant) (auto intro: step_wf)

lemma registers_default_wf: "wf_registers registers_default"
  by (simp add: wf_registers_def registers_default_def)

lemma from_source_wf: "from_source source input = Inr m \<Longrightarrow> wf_machine m"
  by (auto simp: from_source_def machine_new_def with_registers_def wf_machine_def
      registers_default_wf load_image(1))

end
