(* ===== verification/ProfileMachineFacts.thy ===== *)
theory ProfileMachineFacts
  imports ProfileMachine MachineFacts
begin

text \<open>
  What holds of the profile-driven machine: its memory is a \<open>word_store\<close>, its step meets the
  bounded-run contract, and on well-formed machines the step has the closed form \<open>pstep_wf\<close>,
  from which atomicity, the invariant and the refinement follow.
\<close>

subsection \<open>Invariant\<close>

text \<open>
  Six trits are what the machine needs to hold every byte (\<open>256 \<le> 3 ^ 6\<close>), twenty what fits
  in \<open>u32\<close>; every admitted geometry has between ten and twenty.
\<close>

definition wf_geometry :: "ProfileExecutionGeometry \<Rightarrow> bool" where
  "wf_geometry g \<longleftrightarrow> geo_memory_words g = 3 ^ geo_word_trits g \<and> 6 \<le> geo_word_trits g \<and>
    geo_word_trits g \<le> 20 \<and> wf_profile (geo_profile g)"

definition wf_pregisters :: "nat \<Rightarrow> ProfileRegisters \<Rightarrow> bool" where
  "wf_pregisters modulus r \<longleftrightarrow> preg_accumulator r < modulus \<and> preg_code_pointer r < modulus \<and>
    preg_data_pointer r < modulus"

definition wf_pmachine :: "ProfileMachine \<Rightarrow> bool" where
  "wf_pmachine m \<longleftrightarrow> wf_geometry (pm_geometry m) \<and> pm_profile m = geo_profile (pm_geometry m) \<and>
    length (pm_memory m) = geo_memory_words (pm_geometry m) \<and>
    (\<forall>w \<in> set (pm_memory m). w < geo_memory_words (pm_geometry m)) \<and>
    wf_pregisters (geo_memory_words (pm_geometry m)) (pm_registers m) \<and>
    pm_input_cursor m \<le> length (pm_input m) \<and> admits_input (pm_geometry m) (pm_input m)"

lemma wf_pmachineD:
  assumes "wf_pmachine m"
  shows "wf_geometry (pm_geometry m)" "length (pm_memory m) = geo_memory_words (pm_geometry m)"
    "preg_accumulator (pm_registers m) < geo_memory_words (pm_geometry m)"
    "preg_code_pointer (pm_registers m) < geo_memory_words (pm_geometry m)"
    "preg_data_pointer (pm_registers m) < geo_memory_words (pm_geometry m)"
    "pm_input_cursor m \<le> length (pm_input m)" "pm_profile m = geo_profile (pm_geometry m)"
  using assms by (auto simp: wf_pmachine_def wf_pregisters_def)

lemma wf_pcell: "wf_pmachine m \<Longrightarrow> a < geo_memory_words (pm_geometry m) \<Longrightarrow>
    pm_memory m ! a < geo_memory_words (pm_geometry m)"
  by (simp add: wf_pmachine_def)

lemma wf_geometry_bounds:
  assumes "wf_geometry g"
  shows "255 < geo_memory_words g" "geo_memory_words g \<le> U32_MAX"
    "geo_word_modulus g = 3 ^ geo_word_trits g" "geo_word_modulus g = geo_memory_words g"
proof -
  have "(3::nat) ^ 6 \<le> 3 ^ geo_word_trits g" "(3::nat) ^ geo_word_trits g \<le> 3 ^ 20"
    using assms by (auto simp: wf_geometry_def simp del: power_numeral intro!: power_increasing)
  then show "255 < geo_memory_words g" "geo_memory_words g \<le> U32_MAX"
    using assms by (simp_all add: wf_geometry_def U32_MAX_def)
  show "geo_word_modulus g = 3 ^ geo_word_trits g" "geo_word_modulus g = geo_memory_words g"
    using assms by (simp_all add: wf_geometry_def geo_word_modulus_def)
qed

lemma canonical_wf [wf_intro]: "wf_profile p \<Longrightarrow> wf_geometry (canonical p)"
  by (auto simp: wf_geometry_def canonical_def wf_profile_def)

subsection \<open>The memory is a word store\<close>

interpretation profile_store: word_store pread pwrite
  "\<lambda>m a. a < length (pm_memory m)" "\<lambda>m v. v < geo_word_modulus (pm_geometry m)"
  by unfold_locales
    (auto simp: pread_def pwrite_def get_def nth_list_update split: option.splits if_splits)

lemma pread_lt [simp]: "a < length (pm_memory m) \<Longrightarrow> pread m a = Inr (pm_memory m ! a)"
  by (simp add: pread_def)

lemma pread_Inr_iff: "pread m a = Inr v \<longleftrightarrow> a < length (pm_memory m) \<and> v = pm_memory m ! a"
  by (auto simp: pread_def get_Some_iff)

lemma pwrite_Inr_iff:
  "pwrite m a v = Inr m' \<longleftrightarrow> v < geo_word_modulus (pm_geometry m) \<and> a < length (pm_memory m) \<and>
    m' = m\<lparr>pm_memory := (pm_memory m)[a := v]\<rparr>"
  by (auto simp: pwrite_def get_def)

subsection \<open>Word helpers in their domain\<close>

lemma profile_rotate_digits:
  assumes "1 \<le> n" and "n \<le> 20" and "v < 3 ^ n"
  shows "profile_rotate v (3 ^ n) = rotate_digits n v"
proof -
  have n: "n = Suc (n - 1)" using assms(1) by simp
  have dv: "(3::nat) ^ n div 3 = 3 ^ (n - 1)" by (subst n) simp
  have "v div 3 + v mod 3 * 3 ^ (n - 1) < 3 ^ n"
    using rotate_digits_lt[of n v] assms by (simp add: rotate_digits_def)
  also have "(3::nat) ^ n \<le> U32_MAX"
    using power_increasing[of n 20 "3::nat"] assms(2) by (simp add: U32_MAX_def)
  finally have le: "v div 3 + v mod 3 * 3 ^ (n - 1) \<le> U32_MAX" by simp
  then show ?thesis
    by (simp add: profile_rotate_def Let_def TERNARY_RADIX_def dv rotate_digits_def)
qed

lemma successor_mod: "v < n \<Longrightarrow> n \<le> U32_MAX \<Longrightarrow> successor v n = Suc v mod n"
  by (auto simp: successor_def profile_pointer_successor_def mod_Suc)

lemma profile_graphical: "profile_cell_is_graphical v \<longleftrightarrow> graphical v"
  by (simp add: profile_cell_is_graphical_def graphical_def)

subsection \<open>The plan, the image it makes and the machine it commits to\<close>

definition pplanned :: "ProfileMachine \<Rightarrow> ProfileInstruction \<Rightarrow> ProfileTransitionPlan" where
  "pplanned m i =
    (let p = pplan_init m;
         d = preg_data_pointer (pm_registers m);
         cell = pm_memory m ! d
     in case i of
          PCrazy \<Rightarrow>
            (let v = profile_crazy cell (preg_accumulator (pm_registers m)) (geo_word_trits (pm_geometry m))
             in p\<lparr>pp_registers := (pp_registers p)\<lparr>preg_accumulator := v\<rparr>,
                  pp_register_writes := (pp_register_writes p)\<lparr>rs_accumulator := True\<rparr>,
                  pp_memory_write := Some (d, v)\<rparr>)
        | PRotate \<Rightarrow>
            (let v = profile_rotate cell (geo_word_modulus (pm_geometry m))
             in p\<lparr>pp_registers := (pp_registers p)\<lparr>preg_accumulator := v\<rparr>,
                  pp_register_writes := (pp_register_writes p)\<lparr>rs_accumulator := True\<rparr>,
                  pp_memory_write := Some (d, v)\<rparr>)
        | PInput \<Rightarrow> pplan_input m p
        | PJumpCode \<Rightarrow>
            p\<lparr>pp_registers := (pp_registers p)\<lparr>preg_code_pointer := cell\<rparr>,
              pp_register_writes := (pp_register_writes p)\<lparr>rs_code_pointer := True\<rparr>\<rparr>
        | PJumpData \<Rightarrow>
            p\<lparr>pp_registers := (pp_registers p)\<lparr>preg_data_pointer := cell\<rparr>,
              pp_register_writes := (pp_register_writes p)\<lparr>rs_data_pointer := True\<rparr>\<rparr>
        | POutput \<Rightarrow> p\<lparr>pp_output := Some (profile_low_byte (preg_accumulator (pm_registers m)))\<rparr>
        | _ \<Rightarrow> p)"

lemma pplan_planned:
  assumes "preg_data_pointer (pm_registers m) < length (pm_memory m)"
  obtains mr' rr' where "pplan m i mr rr = (Inr (pplanned m i), mr', rr')"
  using assms
  by (cases i) (simp_all add: pplan_def pplanned_def Let_def pplan_crazy_def pplan_rotate_def
      semantic_data_read_def pplan_init_def)

definition pplanned_memory :: "ProfileMachine \<Rightarrow> ProfileTransitionPlan \<Rightarrow> u32 list" where
  "pplanned_memory m p =
    (case pp_memory_write p of
      Some (a, v) \<Rightarrow> (pm_memory m)[a := v]
    | None \<Rightarrow> pm_memory m)"

definition pencryption_cell :: "ProfileMachine \<Rightarrow> ProfileTransitionPlan \<Rightarrow> u32" where
  "pencryption_cell m p = pplanned_memory m p ! preg_code_pointer (pp_registers p)"

definition pcommitted :: "ProfileMachine \<Rightarrow> ProfileTransitionPlan \<Rightarrow> u32 \<Rightarrow> ProfileMachine" where
  "pcommitted m p e =
    m\<lparr>pm_memory := (pplanned_memory m p)[preg_code_pointer (pp_registers p) := e],
      pm_registers :=
        \<lparr>preg_accumulator = preg_accumulator (pp_registers p),
         preg_code_pointer = successor (preg_code_pointer (pp_registers p))
           (geo_word_modulus (pm_geometry m)),
         preg_data_pointer = successor (preg_data_pointer (pp_registers p))
           (geo_word_modulus (pm_geometry m))\<rparr>,
      pm_input_cursor :=
        (if pp_input_advance p then pm_input_cursor m + 1 else pm_input_cursor m),
      pm_output := (case pp_output p of Some b \<Rightarrow> pm_output m @ [b] | None \<Rightarrow> pm_output m)\<rparr>"

definition plan_fits :: "ProfileMachine \<Rightarrow> ProfileTransitionPlan \<Rightarrow> bool" where
  "plan_fits m p \<longleftrightarrow> preg_code_pointer (pp_registers p) < length (pm_memory m) \<and>
    (case pp_memory_write p of None \<Rightarrow> True
     | Some (a, v) \<Rightarrow> a < length (pm_memory m) \<and> v < geo_word_modulus (pm_geometry m))"

lemma pcommit_fits:
  assumes "plan_fits m p" and "e < geo_word_modulus (pm_geometry m)"
  shows "\<exists>accesses'. pcommit m p e accesses = (Inr (), pcommitted m p e, accesses')"
proof (cases "pp_memory_write p")
  case None
  then show ?thesis
    using assms by (simp add: pcommit_def Let_def plan_fits_def pwrite_def pcommitted_def
        pplanned_memory_def geo_word_modulus_def cong: option.case_cong)
next
  case (Some w)
  obtain a v where w: "w = (a, v)" by (cases w)
  show ?thesis
  proof (cases "a = preg_code_pointer (pp_registers p)")
    case True
    then show ?thesis
      using assms Some w by (simp add: pcommit_def Let_def plan_fits_def pwrite_def pcommitted_def
          pplanned_memory_def geo_word_modulus_def cong: option.case_cong)
  next
    case False
    then show ?thesis
      using assms Some w by (simp add: pcommit_def Let_def plan_fits_def pwrite_def pcommitted_def
          pplanned_memory_def geo_word_modulus_def cong: option.case_cong)
  qed
qed

lemma pmemory_delta_fits: "plan_fits m p \<Longrightarrow> \<exists>d. pmemory_delta m p e = Inr d"
  by (cases "pp_memory_write p") (auto simp: pmemory_delta_def Let_def plan_fits_def split: prod.splits)

lemma pvalidate_encryption_fits:
  assumes "plan_fits m p"
  shows "\<exists>mr'. pvalidate_encryption m p mr =
    (if \<not> profile_cell_is_graphical (pencryption_cell m p)
     then Inl (PInvalidEncryptionTarget (preg_code_pointer (pp_registers p)) (pencryption_cell m p))
     else Inr (unat (XLAT2 ! (pencryption_cell m p - 33))), mr')"
proof -
  have lt: "preg_code_pointer (pp_registers p) < length (pm_memory m)"
    using assms by (simp add: plan_fits_def)
  have enc: "profile_cell_is_graphical t \<Longrightarrow> encrypt_profile_cell t = Some (unat (XLAT2 ! (t - 33)))" for t
    by (simp add: encrypt_profile_cell_def encrypt_profile_some profile_cell_is_graphical_def)
  show ?thesis
  proof (cases "pp_memory_write p")
    case None
    then show ?thesis
      using lt enc[of "pencryption_cell m p"]
      by (auto simp add: pvalidate_encryption_def Let_def pencryption_cell_def pplanned_memory_def)
  next
    case (Some w)
    obtain a v where w: "w = (a, v)" by (cases w)
    show ?thesis
      using lt enc[of "pencryption_cell m p"] Some w assms
      by (auto simp add: pvalidate_encryption_def Let_def pencryption_cell_def pplanned_memory_def
          plan_fits_def)
  qed
qed

subsection \<open>The closed form of a step\<close>

lemma pplanned_fits:
  assumes wf: "wf_pmachine m"
  shows "plan_fits m (pplanned m i)"
proof -
  note wfd = wf_pmachineD[OF wf]
  note g = wf_geometry_bounds[OF wfd(1)]
  have cell: "pm_memory m ! preg_data_pointer (pm_registers m) < geo_memory_words (pm_geometry m)"
    by (rule wf_pcell[OF wf wfd(5)])
  have n: "6 \<le> geo_word_trits (pm_geometry m)" "geo_word_trits (pm_geometry m) \<le> 20"
    using wfd(1) by (simp_all add: wf_geometry_def)
  have rot: "profile_rotate (pm_memory m ! preg_data_pointer (pm_registers m))
      (geo_word_modulus (pm_geometry m)) < geo_word_modulus (pm_geometry m)"
    using cell n rotate_digits_lt[of "geo_word_trits (pm_geometry m)"
        "pm_memory m ! preg_data_pointer (pm_registers m)"]
    by (simp add: g(3) g(4)[symmetric] profile_rotate_digits)
  have cra: "profile_crazy x y (geo_word_trits (pm_geometry m)) < geo_word_modulus (pm_geometry m)" for x y
    using n profile_crazy_lt by (simp add: g(3))
  show ?thesis
    using wfd(2,4,5) cell rot cra
    by (cases i) (simp_all add: plan_fits_def pplanned_def Let_def pplan_init_def pplan_input_def
        split: option.splits)
qed

definition pdecoded :: "ProfileMachine \<Rightarrow> ProfileInstruction" where
  "pdecoded m =
    profile_instruction_for (pm_profile m)
      (XLAT1 ! ((pm_memory m ! preg_code_pointer (pm_registers m) - 33 +
        preg_code_pointer (pm_registers m) mod 94) mod 94))"

lemma XLAT2_lt_modulus:
  assumes "wf_geometry g"
  shows "unat (XLAT2 ! k) < geo_word_modulus g"
  using wf_geometry_bounds[OF assms] unat_u8_le[of "XLAT2 ! k"] by linarith

lemma pstep_wf:
  assumes wf: "wf_pmachine m" and live: "pm_termination m = None"
  shows "pstep m =
    (if \<not> profile_cell_is_graphical (pm_memory m ! preg_code_pointer (pm_registers m)) then
       (if pd_kind (pm_profile m) = HistoricalConformance then (Inr Continued, m)
        else (Inr (Terminated NonGraphicalCell), m\<lparr>pm_termination := Some NonGraphicalCell\<rparr>))
     else if pdecoded m = PHalt then
       (Inr (Terminated HaltInstruction), m\<lparr>pm_termination := Some HaltInstruction\<rparr>)
     else
       (let p = pplanned m (pdecoded m); t = pencryption_cell m p
        in if \<not> profile_cell_is_graphical t
           then (Inl (PInvalidEncryptionTarget (preg_code_pointer (pp_registers p)) t), m)
           else (Inr Continued, pcommitted m p (unat (XLAT2 ! (t - 33))))))"
proof -
  note wfd = wf_pmachineD[OF wf]
  define p where "p = pplanned m (pdecoded m)"
  define t where "t = pencryption_cell m p"
  have cp: "preg_code_pointer (pm_registers m) < length (pm_memory m)"
    and dp: "preg_data_pointer (pm_registers m) < length (pm_memory m)" using wfd by simp_all
  have fits: "plan_fits m p" unfolding p_def by (rule pplanned_fits[OF wf])
  have body: "\<exists>ex. step_after_decode (pdecoded m) mr acc m =
      (ex, if pdecoded m = PHalt then m\<lparr>pm_termination := Some HaltInstruction\<rparr>
           else if \<not> profile_cell_is_graphical t then m else pcommitted m p (unat (XLAT2 ! (t - 33)))) \<and>
      exec_result ex = (if pdecoded m = PHalt then Inr (Terminated HaltInstruction)
        else if \<not> profile_cell_is_graphical t
        then Inl (PInvalidEncryptionTarget (preg_code_pointer (pp_registers p)) t) else Inr Continued)"
    for mr acc
  proof (cases "pdecoded m = PHalt")
    case True
    then show ?thesis by (simp add: step_after_decode_def exec_outcome_def)
  next
    case False
    obtain mr1 rr1 where plan: "pplan m (pdecoded m) mr (acc_reads acc) = (Inr p, mr1, rr1)"
      unfolding p_def using pplan_planned[OF dp] .
    obtain mr2 where val: "pvalidate_encryption m p mr1 =
      (if \<not> profile_cell_is_graphical t
       then Inl (PInvalidEncryptionTarget (preg_code_pointer (pp_registers p)) t)
       else Inr (unat (XLAT2 ! (t - 33))), mr2)"
      unfolding t_def using pvalidate_encryption_fits[OF fits] by blast
    obtain d where d: "pmemory_delta m p (unat (XLAT2 ! (t - 33))) = Inr d"
      using pmemory_delta_fits[OF fits] by blast
    obtain acc2 where com: "pcommit m p (unat (XLAT2 ! (t - 33))) (acc\<lparr>acc_reads := rr1\<rparr>) =
        (Inr (), pcommitted m p (unat (XLAT2 ! (t - 33))), acc2)"
      using pcommit_fits[OF fits XLAT2_lt_modulus[OF wfd(1)]] by blast
    show ?thesis
      using False plan val d com
      by (simp add: step_after_decode_def exec_error_def exec_continued_def Let_def)
  qed
  show ?thesis
  proof (cases "profile_cell_is_graphical (pm_memory m ! preg_code_pointer (pm_registers m))")
    case False
    then show ?thesis
      using live cp by (simp add: pstep_def step_execution_def Let_def step_after_fetch_def
          exec_outcome_def exec_continued_def)
  next
    case True
    have dec: "decode_profile_instruction (pm_memory m ! preg_code_pointer (pm_registers m))
        (preg_code_pointer (pm_registers m)) =
      Some (XLAT1 ! ((pm_memory m ! preg_code_pointer (pm_registers m) - 33 +
        preg_code_pointer (pm_registers m) mod 94) mod 94))"
      using True by (simp add: decode_profile_instruction_def decode_profile_some
          profile_cell_is_graphical_def)
    define mr acc where "mr = profile_memory_reads_default\<lparr>reads_fetch := Some
        \<lparr>read_address = preg_code_pointer (pm_registers m),
         read_value = pm_memory m ! preg_code_pointer (pm_registers m)\<rparr>\<rparr>"
      and "acc = profile_register_accesses_default\<lparr>acc_reads :=
        (acc_reads profile_register_accesses_default)\<lparr>rs_code_pointer := True\<rparr>\<rparr>"
    have "step_execution m = step_after_decode (pdecoded m) mr acc m"
      using live cp True dec
      by (simp add: step_execution_def Let_def step_after_fetch_def mr_def acc_def pdecoded_def)
    then show ?thesis
      using body[of mr acc] True
      by (auto simp: pstep_def p_def[symmetric] t_def[symmetric] Let_def)
  qed
qed

subsection \<open>The step meets the bounded-run contract\<close>

lemma pcommit_termination:
  "pcommit m p e acc = (r, m', acc') \<Longrightarrow> pm_termination m' = pm_termination m"
  by (auto simp: pcommit_def Let_def pwrite_def split: option.splits sum.splits if_splits prod.splits)

definition settled :: "ProfileStepExecution \<Rightarrow> ProfileMachine \<Rightarrow> bool" where
  "settled ex m \<longleftrightarrow>
    (case exec_result ex of
      Inl e \<Rightarrow> pm_termination m = None
    | Inr Continued \<Rightarrow> pm_termination m = None
    | Inr (Terminated r) \<Rightarrow> pm_termination m = Some r)"

lemma settled_simps [simp]:
  "settled (exec_error mr acc e) m \<longleftrightarrow> pm_termination m = None"
  "settled (exec_continued d mr acc) m \<longleftrightarrow> pm_termination m = None"
  "settled (exec_outcome mr acc (Terminated r)) m \<longleftrightarrow> pm_termination m = Some r"
  by (simp_all add: settled_def exec_error_def exec_continued_def exec_outcome_def)

lemma step_after_decode_settled:
  assumes "pm_termination m = None" and "step_after_decode i mr acc m = (ex, m')"
  shows "settled ex m'"
  using assms
  by (auto simp: step_after_decode_def Let_def dest!: pcommit_termination
      split: if_splits prod.splits sum.splits)

lemma step_execution_settled:
  assumes "step_execution m = (ex, m')"
  shows "settled ex m'"
proof (cases "pm_termination m")
  case (Some r)
  then show ?thesis using assms by (auto simp: step_execution_def Let_def)
next
  case None
  then show ?thesis using assms
    by (auto simp: step_execution_def step_after_fetch_def Let_def intro: step_after_decode_settled
        split: sum.splits if_splits option.splits)
qed

lemma pstep_unfold:
  "pstep m = (r, m') \<longleftrightarrow> (\<exists>ex. step_execution m = (ex, m') \<and> r = exec_result ex)"
  by (cases "step_execution m") (auto simp: pstep_def)

interpretation profile_run: traced_runner pstep pm_termination prun_loop prun
  pstep_traced prun_traced_loop prun_traced pstep_trace
proof unfold_locales
  fix budget k s e s' r and observer :: "'o \<Rightarrow> ProfileStepTrace \<Rightarrow> 'o" and obs
  show "prun_loop budget k s =
      (if k < budget then
        (case pstep s of
          (Inl e, s') \<Rightarrow> (Inl e, s')
        | (Inr outcome, s') \<Rightarrow>
            (case outcome of
              Terminated r \<Rightarrow> (Inr (RunTerminated r (k + 1)), s')
            | Continued \<Rightarrow> prun_loop budget (k + 1) s'))
       else (Inr (BudgetExhausted k), s))"
    by (rule prun_loop.simps)
  show "prun budget s =
      (case pm_termination s of Some r \<Rightarrow> (Inr (RunTerminated r 0), s)
       | None \<Rightarrow> prun_loop budget 0 s)"
    by (rule prun_def)
  show "pm_termination s = Some r \<Longrightarrow> pstep s = (Inr (Terminated r), s)"
    by (simp add: pstep_def step_execution_def Let_def exec_outcome_def)
  show "pstep s = (Inr (Terminated r), s') \<Longrightarrow> pm_termination s' = Some r"
    by (auto simp: pstep_unfold settled_def dest!: step_execution_settled split: sum.splits StepOutcome.splits)
  show "pstep s = (Inr Continued, s') \<Longrightarrow> pm_termination s' = None"
    by (auto simp: pstep_unfold settled_def dest!: step_execution_settled split: sum.splits StepOutcome.splits)
  show "pstep_traced observer s obs = (fst (pstep s), snd (pstep s), observer obs (pstep_trace s))"
    by (simp add: pstep_traced_def pstep_def Let_def split: prod.splits)
  show "prun_traced_loop observer budget k s obs =
      (if k < budget then
        (case pstep_traced observer s obs of
          (Inl e, s', obs') \<Rightarrow> (Inl e, s', obs')
        | (Inr outcome, s', obs') \<Rightarrow>
            (case outcome of
              Terminated r \<Rightarrow> (Inr (RunTerminated r (k + 1)), s', obs')
            | Continued \<Rightarrow> prun_traced_loop observer budget (k + 1) s' obs'))
       else (Inr (BudgetExhausted k), s, obs))"
    by (rule prun_traced_loop.simps)
  show "prun_traced observer budget s obs =
      (case pm_termination s of Some r \<Rightarrow> (Inr (RunTerminated r 0), s, obs)
       | None \<Rightarrow> prun_traced_loop observer budget 0 s obs)"
    by (rule prun_traced_def)
qed

subsection \<open>Atomicity and the invariant\<close>

lemma pstep_error_unchanged:
  assumes wf: "wf_pmachine m" and e: "pstep m = (Inl e, m')"
  shows "m' = m"
proof (cases "pm_termination m")
  case None
  then show ?thesis using e by (simp add: pstep_wf[OF wf] Let_def split: if_splits)
next
  case (Some r)
  then show ?thesis using e profile_run.step_stopped[OF Some] by simp
qed

lemma successor_lt: "0 < n \<Longrightarrow> v < n \<Longrightarrow> n \<le> U32_MAX \<Longrightarrow> successor v n < n"
  by (simp add: successor_mod)

lemma pplanned_registers_wf:
  assumes wf: "wf_pmachine m"
  shows "wf_pregisters (geo_memory_words (pm_geometry m)) (pp_registers (pplanned m i))"
    and "pp_input_advance (pplanned m i) \<Longrightarrow> pm_input_cursor m < length (pm_input m)"
proof -
  note wfd = wf_pmachineD[OF wf]
  note g = wf_geometry_bounds[OF wfd(1)]
  have cell: "pm_memory m ! preg_data_pointer (pm_registers m) < geo_memory_words (pm_geometry m)"
    by (rule wf_pcell[OF wf wfd(5)])
  have wr: "pp_memory_write (pplanned m i) = Some (a, v) \<Longrightarrow> v < geo_memory_words (pm_geometry m)" for a v
    using pplanned_fits[OF wf, of i] by (simp add: plan_fits_def geo_word_modulus_def)
  have inp: "unat (b::u8) < geo_memory_words (pm_geometry m)" for b
    using g(1) unat_u8_le[of b] by linarith
  show "wf_pregisters (geo_memory_words (pm_geometry m)) (pp_registers (pplanned m i))"
    using wfd(3-5) cell wr g(1) inp
    by (cases i) (simp_all add: pplanned_def pplan_init_def pplan_input_def Let_def wf_pregisters_def
        geo_eof_word_def split: option.splits)
  show "pp_input_advance (pplanned m i) \<Longrightarrow> pm_input_cursor m < length (pm_input m)"
    by (cases i) (auto simp: pplanned_def pplan_init_def pplan_input_def Let_def get_Some_iff
        split: option.splits)
qed

lemma pcommitted_wf:
  assumes wf: "wf_pmachine m"
  shows "wf_pmachine (pcommitted m (pplanned m i) (unat (XLAT2 ! k)))"
proof -
  note wfd = wf_pmachineD[OF wf]
  note g = wf_geometry_bounds[OF wfd(1)]
  note regs = pplanned_registers_wf[OF wf, of i]
  have x: "unat (XLAT2 ! k) < geo_memory_words (pm_geometry m)"
    using XLAT2_lt_modulus[OF wfd(1), of k] by (simp add: g(4))
  have wr: "pp_memory_write (pplanned m i) = Some (a, v) \<Longrightarrow> v < geo_memory_words (pm_geometry m)" for a v
    using pplanned_fits[OF wf, of i] by (simp add: plan_fits_def geo_word_modulus_def)
  have mem: "w < geo_memory_words (pm_geometry m)"
    if "w \<in> set ((pplanned_memory m (pplanned m i))[a := unat (XLAT2 ! k)])" for w a
  proof -
    have "w = unat (XLAT2 ! k) \<or> w \<in> set (pplanned_memory m (pplanned m i))"
      using that set_update_subset_insert by fast
    then show ?thesis
      using x wf wr
      by (auto simp: pplanned_memory_def wf_pmachine_def split: option.splits
          dest!: subsetD[OF set_update_subset_insert])
  qed
  have len: "length (pplanned_memory m (pplanned m i)) = length (pm_memory m)"
    by (simp add: pplanned_memory_def split: option.splits)
  have succ: "successor (preg_code_pointer (pp_registers (pplanned m i))) (geo_memory_words (pm_geometry m))
      < geo_memory_words (pm_geometry m)"
    "successor (preg_data_pointer (pp_registers (pplanned m i))) (geo_memory_words (pm_geometry m))
      < geo_memory_words (pm_geometry m)"
    using regs(1) g by (auto simp: wf_pregisters_def intro!: successor_lt)
  show ?thesis
    using wf mem len succ regs g(4) by (auto simp: wf_pmachine_def pcommitted_def wf_pregisters_def)
qed

lemma pstep_preserves_wf:
  assumes wf: "wf_pmachine m" and s: "pstep m = (r, m')"
  shows "wf_pmachine m'"
proof (cases "pm_termination m")
  case (Some r)
  then show ?thesis using wf s profile_run.step_stopped[OF Some] by simp
next
  case None
  have "wf_pmachine (m\<lparr>pm_termination := t\<rparr>)" for t using wf by (simp add: wf_pmachine_def)
  then show ?thesis
    using s wf pcommitted_wf[OF wf] by (auto simp: pstep_wf[OF wf None] Let_def split: if_splits)
qed

lemma prun_preserves_wf: "prun n m = (r, m') \<Longrightarrow> wf_pmachine m \<Longrightarrow> wf_pmachine m'"
  by (erule profile_run.run_invariant) (auto intro: pstep_preserves_wf)

subsection \<open>The recorded memory delta\<close>

lemma step_execution_continued:
  assumes wf: "wf_pmachine m" and s: "step_execution m = (ex, m')" and c: "exec_result ex = Inr Continued"
  shows "(m' = m \<and> exec_memory_delta ex = profile_memory_delta_default) \<or>
    (\<exists>p e. plan_fits m p \<and> m' = pcommitted m p e \<and> pmemory_delta m p e = Inr (exec_memory_delta ex))"
proof (cases "pm_termination m")
  case (Some r)
  then show ?thesis using s c by (auto simp: step_execution_def Let_def exec_outcome_def)
next
  case live: None
  note wfd = wf_pmachineD[OF wf]
  define cell where "cell = pm_memory m ! preg_code_pointer (pm_registers m)"
  have dp: "preg_data_pointer (pm_registers m) < length (pm_memory m)" using wfd by simp
  obtain mr acc where f: "step_after_fetch cell mr acc m = (ex, m')"
    using s live wfd by (simp add: step_execution_def Let_def cell_def)
  show ?thesis
  proof (cases "profile_cell_is_graphical cell")
    case False
    then show ?thesis
      using f c by (auto simp: step_after_fetch_def exec_continued_def exec_outcome_def split: if_splits)
  next
    case True
    then obtain b where "decode_profile_instruction cell (preg_code_pointer (pm_registers m)) = Some b"
      by (simp add: decode_profile_instruction_def decode_profile_some profile_cell_is_graphical_def)
    then obtain i where d: "step_after_decode i mr acc m = (ex, m')"
      using f True by (simp add: step_after_fetch_def)
    have i: "i \<noteq> PHalt" using d c by (auto simp: step_after_decode_def exec_outcome_def)
    obtain mr1 rr1 where plan: "pplan m i mr (acc_reads acc) = (Inr (pplanned m i), mr1, rr1)"
      using pplan_planned[OF dp] .
    have fits: "plan_fits m (pplanned m i)" by (rule pplanned_fits[OF wf])
    obtain e mr2 where val: "pvalidate_encryption m (pplanned m i) mr1 = (Inr e, mr2)"
      using d c i plan by (auto simp: step_after_decode_def exec_error_def Let_def split: sum.splits prod.splits)
    have "e < geo_word_modulus (pm_geometry m)"
      using pvalidate_encryption_fits[OF fits, of mr1] val XLAT2_lt_modulus[OF wfd(1)]
      by (auto split: if_splits)
    then obtain acc2 where com: "pcommit m (pplanned m i) e (acc\<lparr>acc_reads := rr1\<rparr>) =
        (Inr (), pcommitted m (pplanned m i) e, acc2)"
      using pcommit_fits[OF fits] by blast
    obtain delta where "pmemory_delta m (pplanned m i) e = Inr delta"
      using pmemory_delta_fits[OF fits] by blast
    then show ?thesis
      using d i plan val com fits
      by (intro disjI2 exI[of _ "pplanned m i"] exI[of _ e])
        (auto simp: step_after_decode_def exec_continued_def Let_def)
  qed
qed

definition delta_writes :: "ProfileMemoryDelta \<Rightarrow> ProfileMemoryWrite set" where
  "delta_writes d = set_option (pdelta_data d) \<union> set_option (pdelta_encryption d)"

lemma pmemory_delta_exact:
  assumes fits: "plan_fits m p" and d: "pmemory_delta m p e = Inr d"
  shows "profile_changed_cells d = card (pmw_address ` delta_writes d)"
    and "a < length (pm_memory m) \<Longrightarrow> a \<notin> pmw_address ` delta_writes d \<Longrightarrow>
      pm_memory (pcommitted m p e) ! a = pm_memory m ! a"
    and "w \<in> delta_writes d \<Longrightarrow> pmw_address w < length (pm_memory m) \<and>
      pmw_before w = pm_memory m ! pmw_address w \<and>
      pmw_after w = pm_memory (pcommitted m p e) ! pmw_address w \<and> pmw_before w \<noteq> pmw_after w"
proof -
  define c where "c = preg_code_pointer (pp_registers p)"
  have lt: "c < length (pm_memory m)" using fits by (simp add: plan_fits_def c_def)
  have "profile_changed_cells d = card (pmw_address ` delta_writes d) \<and>
    (a < length (pm_memory m) \<longrightarrow> a \<notin> pmw_address ` delta_writes d \<longrightarrow>
      pm_memory (pcommitted m p e) ! a = pm_memory m ! a) \<and>
    (w \<in> delta_writes d \<longrightarrow> pmw_address w < length (pm_memory m) \<and>
      pmw_before w = pm_memory m ! pmw_address w \<and>
      pmw_after w = pm_memory (pcommitted m p e) ! pmw_address w \<and> pmw_before w \<noteq> pmw_after w)"
  proof (cases "pp_memory_write p")
    case None
    then show ?thesis
      using d lt by (cases w) (auto simp: pmemory_delta_def Let_def delta_writes_def profile_changed_cells_def
          pcommitted_def pplanned_memory_def nth_list_update c_def[symmetric] split: if_splits)
  next
    case (Some q)
    obtain b v where q: "q = (b, v)" by (cases q)
    have b: "b < length (pm_memory m)" using fits Some q by (simp add: plan_fits_def)
    show ?thesis
    proof (cases "b = c")
      case True
      then show ?thesis
        using d lt Some q by (cases w) (auto simp: pmemory_delta_def Let_def delta_writes_def profile_changed_cells_def
            pcommitted_def pplanned_memory_def nth_list_update c_def[symmetric] split: if_splits)
    next
      case False
      then show ?thesis
        using d lt b Some q by (cases w) (auto simp: pmemory_delta_def Let_def delta_writes_def profile_changed_cells_def
            pcommitted_def pplanned_memory_def nth_list_update c_def[symmetric] split: if_splits)
    qed
  qed
  then show "profile_changed_cells d = card (pmw_address ` delta_writes d)"
    "a < length (pm_memory m) \<Longrightarrow> a \<notin> pmw_address ` delta_writes d \<Longrightarrow>
      pm_memory (pcommitted m p e) ! a = pm_memory m ! a"
    "w \<in> delta_writes d \<Longrightarrow> pmw_address w < length (pm_memory m) \<and>
      pmw_before w = pm_memory m ! pmw_address w \<and>
      pmw_after w = pm_memory (pcommitted m p e) ! pmw_address w \<and> pmw_before w \<noteq> pmw_after w"
    by blast+
qed

lemma delta_writes_default [simp]: "delta_writes profile_memory_delta_default = {}"
  "profile_changed_cells profile_memory_delta_default = 0"
  by (simp_all add: delta_writes_def profile_memory_delta_default_def profile_changed_cells_def)

end
