(* ===== verification/MachineRefinement.thy ===== *)
theory MachineRefinement
  imports MachineFacts
begin

text \<open>
  The classic machine implements the abstract machine of ten trits: the abstraction reads the
  memory words as numbers and the unread input as a list, and every outcome of a step on a
  well-formed machine is the abstract machine's.
\<close>

subsection \<open>Abstraction\<close>

definition abs_words :: "nat list \<Rightarrow> nat \<Rightarrow> nat" where
  "abs_words ws a = (if a < length ws then ws ! a else 0)"

lemma abs_words_update: "i < length ws \<Longrightarrow> abs_words (ws[i := v]) = (abs_words ws)(i := v)"
  by (auto simp: abs_words_def fun_eq_iff nth_list_update)

lemma abs_words_nth [simp]: "a < length ws \<Longrightarrow> abs_words ws a = ws ! a"
  by (simp add: abs_words_def)

definition abs_machine :: "Machine \<Rightarrow> amachine" where
  "abs_machine m =
    \<lparr>am_mem = abs_words (map word_value (mem_words (m_memory m))),
     am_a = word_value (accumulator (m_registers m)),
     am_c = word_value (code_pointer (m_registers m)),
     am_d = word_value (data_pointer (m_registers m)),
     am_in = drop (m_input_cursor m) (m_input m), am_out = m_output m\<rparr>"

fun mode_input_op :: "ExecutionMode \<Rightarrow> u8" where
  "mode_input_op Interpreter = 47"
| "mode_input_op Specification = 60"

fun mode_output_op :: "ExecutionMode \<Rightarrow> u8" where
  "mode_output_op Interpreter = 60"
| "mode_output_op Specification = 47"

fun operation_of :: "Instruction \<Rightarrow> operation" where
  "operation_of Crazy = OpCrazy"
| "operation_of Halt = OpHalt"
| "operation_of Input = OpInput"
| "operation_of JumpCode = OpJumpCode"
| "operation_of JumpData = OpJumpData"
| "operation_of NoOperation = OpNop"
| "operation_of Output = OpOutput"
| "operation_of Rotate = OpRotate"

lemma operation_of_instruction:
  "operation_of (instruction b mode) = am_operation (mode_input_op mode) (mode_output_op mode) b"
  by (cases mode) (simp_all add: instruction_def interpreter_instruction_def
      specification_instruction_def am_operation_def)

lemma operation_of_Halt [simp]: "operation_of i = OpHalt \<longleftrightarrow> i = Halt"
  by (cases i) auto

lemma graphical_word: "word_is_graphical w \<longleftrightarrow> graphical (word_value w)"
  by (simp add: word_is_graphical_def graphical_def)

subsection \<open>Reads on a well-formed machine\<close>

abbreviation cell_of :: "Machine \<Rightarrow> cword \<Rightarrow> cword" where
  "cell_of m a \<equiv> mem_words (m_memory m) ! word_value a"

lemma wf_address_lt: "wf_machine m \<Longrightarrow> wf_word a \<Longrightarrow> word_value a < length (mem_words (m_memory m))"
  using wf_word_addressable[of "m_memory m" a] by (simp add: wf_machine_def valid_address_def)

lemma read_cell: "wf_machine m \<Longrightarrow> wf_word a \<Longrightarrow> memory_read (m_memory m) a = Inr (cell_of m a)"
  using memory_read_wf[of "m_memory m" a] by (simp add: wf_machine_def)

lemma wf_cell: "wf_machine m \<Longrightarrow> wf_word a \<Longrightarrow> wf_word (cell_of m a)"
  using memory_read_wf[of "m_memory m" a] by (simp add: wf_machine_def)

lemma abs_cell:
  "wf_machine m \<Longrightarrow> wf_word a \<Longrightarrow> am_mem (abs_machine m) (word_value a) = word_value (cell_of m a)"
  by (simp add: abs_machine_def wf_address_lt)

lemma abs_machine_regs [simp]:
  "am_a (abs_machine m) = word_value (accumulator (m_registers m))"
  "am_c (abs_machine m) = word_value (code_pointer (m_registers m))"
  "am_d (abs_machine m) = word_value (data_pointer (m_registers m))"
  "am_in (abs_machine m) = drop (m_input_cursor m) (m_input m)"
  "am_out (abs_machine m) = m_output m"
  by (simp_all add: abs_machine_def)

subsection \<open>The plan is the abstract effect\<close>

definition abs_planned :: "Machine \<Rightarrow> TransitionPlan \<Rightarrow> amachine" where
  "abs_planned m p =
    \<lparr>am_mem = abs_words (map word_value (planned_words m p)),
     am_a = word_value (accumulator (plan_registers p)),
     am_c = word_value (code_pointer (plan_registers p)),
     am_d = word_value (data_pointer (plan_registers p)),
     am_in = drop (if plan_input_advance p then m_input_cursor m + 1 else m_input_cursor m) (m_input m),
     am_out = (case plan_output p of Some b \<Rightarrow> m_output m @ [b] | None \<Rightarrow> m_output m)\<rparr>"

lemma plan_total: "wf_machine m \<Longrightarrow> \<exists>p. plan m i = Inr p"
  by (cases i) (simp_all add: plan_def plan_crazy_def plan_rotate_def read_cell wf_machineD Let_def)

lemma abs_planned_effect:
  assumes wf: "wf_machine m" and p: "plan m i = Inr p"
  shows "abs_planned m p = am_effect 10 (operation_of i) (abs_machine m)"
proof -
  note wfd = wf_machineD[OF wf]
  have lt: "word_value (data_pointer (m_registers m)) < length (mem_words (m_memory m))"
    using wf_address_lt[OF wf wfd(4)] .
  have upd: "abs_words (map word_value ((mem_words (m_memory m))[word_value (data_pointer (m_registers m)) := v]))
      = (am_mem (abs_machine m))(word_value (data_pointer (m_registers m)) := word_value v)" for v
    using lt by (simp add: abs_machine_def map_update abs_words_update)
  have cell: "wf_word (cell_of m (data_pointer (m_registers m)))" using wf_cell[OF wf wfd(4)] .
  show ?thesis
  proof (cases i)
    case Input
    show ?thesis
    proof (cases "m_input_cursor m < length (m_input m)")
      case True
      then show ?thesis
        using p Input Cons_nth_drop_Suc[OF True, symmetric]
        by (auto simp: plan_def plan_input_def abs_planned_def planned_words_def abs_machine_def)
    next
      case False
      then show ?thesis
        using p Input
        by (auto simp: plan_def plan_input_def abs_planned_def planned_words_def abs_machine_def
            word_MAX_def MAX_WORD_VALUE_def Let_def)
    qed
  qed (use p read_cell[OF wf wfd(4)] abs_cell[OF wf wfd(4)] word_value_crazy[OF cell wfd(2)]
      word_value_rotate[OF cell] upd in
      \<open>auto simp: plan_def plan_crazy_def plan_rotate_def abs_planned_def planned_words_def Let_def
        abs_machine_def word_low_byte_def of_nat_mod_256\<close>)
qed

subsection \<open>The step\<close>

definition encryption_cell :: "Machine \<Rightarrow> TransitionPlan \<Rightarrow> cword" where
  "encryption_cell m p = planned_words m p ! word_value (code_pointer (plan_registers p))"

lemma length_planned_words [simp]: "length (planned_words m p) = length (mem_words (m_memory m))"
  by (simp add: planned_words_def split: option.splits)

lemma plan_cp_lt:
  assumes "wf_machine m" and "plan m i = Inr p"
  shows "word_value (code_pointer (plan_registers p)) < length (mem_words (m_memory m))"
  using wf_address_lt[OF assms(1)] plan_writes_wf(1)[OF assms] by (simp add: wf_registers_def)

lemma abs_planned_cell:
  assumes "wf_machine m" and "plan m i = Inr p"
  shows "am_mem (abs_planned m p) (am_c (abs_planned m p)) = word_value (encryption_cell m p)"
  using plan_cp_lt[OF assms] by (simp add: abs_planned_def encryption_cell_def)

lemma validate_encryption_wf:
  assumes wf: "wf_machine m" and p: "plan m i = Inr p"
  shows "validate_encryption m p mode =
    (if word_is_graphical (encryption_cell m p)
     then Inr (word_from_byte (XLAT2 ! (word_value (encryption_cell m p) - 33)))
     else Inl (case mode of
       Interpreter \<Rightarrow> UnsupportedInterpreterBehavior
         (InvalidSelfEncryptionTarget (code_pointer (plan_registers p)) (encryption_cell m p))
     | Specification \<Rightarrow>
         InvalidEncryptionTarget (code_pointer (plan_registers p)) (encryption_cell m p)))"
proof -
  have cp: "wf_word (code_pointer (plan_registers p))"
    using plan_writes_wf(1)[OF wf p] by (simp add: wf_registers_def)
  have target: "(case plan_memory_write p of
      Some (write_pointer, v) \<Rightarrow>
        if write_pointer = code_pointer (plan_registers p) then Inr v
        else map_err MemoryFailure (memory_read (m_memory m) (code_pointer (plan_registers p)))
    | None \<Rightarrow> map_err MemoryFailure (memory_read (m_memory m) (code_pointer (plan_registers p))))
    = Inr (encryption_cell m p)"
    using read_cell[OF wf cp] plan_cp_lt[OF wf p]
    by (auto simp: encryption_cell_def planned_words_def nth_list_update split: option.splits)
  show ?thesis
    unfolding validate_encryption_def Let_def target
    by (simp add: encrypt_some split: ExecutionMode.splits)
qed

lemma memory_delta_wf:
  assumes wf: "wf_machine m" and p: "plan m i = Inr p"
  shows "\<exists>d. memory_delta m p e = Inr d"
proof -
  have cp: "wf_word (code_pointer (plan_registers p))"
    using plan_writes_wf(1)[OF wf p] by (simp add: wf_registers_def)
  show ?thesis
  proof (cases "plan_memory_write p")
    case None
    then show ?thesis by (simp add: memory_delta_def Let_def read_cell[OF wf cp])
  next
    case (Some w)
    obtain a v where w: "w = (a, v)" by (cases w)
    then have "wf_word a" using plan_writes_wf(2)[OF wf p] Some by blast
    then show ?thesis
      using Some w by (simp add: memory_delta_def Let_def read_cell[OF wf cp] read_cell[OF wf])
  qed
qed

lemma abs_committed:
  assumes wf: "wf_machine m" and p: "plan m i = Inr p"
    and g: "word_is_graphical (encryption_cell m p)"
  shows "abs_machine (committed m p (word_from_byte (XLAT2 ! (word_value (encryption_cell m p) - 33))))
    = am_seal 10 (abs_planned m p)"
proof -
  have lt: "word_value (code_pointer (plan_registers p)) < length (mem_words (m_memory m))"
    by (rule plan_cp_lt[OF wf p])
  have regs: "wf_word (code_pointer (plan_registers p))" "wf_word (data_pointer (plan_registers p))"
    using plan_writes_wf(1)[OF wf p] by (simp_all add: wf_registers_def)
  show ?thesis
    using lt regs abs_planned_cell[OF wf p]
    by (simp add: abs_machine_def committed_def am_seal_def abs_planned_def map_update
        abs_words_update word_value_successor encryption_cell_def)
qed

text \<open>All outcomes of a live, well-formed machine, as one equation per case.\<close>

lemma step_nongraphical:
  assumes wf: "wf_machine m" and live: "m_termination m = None"
    and ng: "\<not> word_is_graphical (cell_of m (code_pointer (m_registers m)))"
  shows "step_in_mode mode m =
    (if mode = Interpreter then (Inr Continued, m)
     else (Inr (Terminated NonGraphicalCell), m\<lparr>m_termination := Some NonGraphicalCell\<rparr>))"
  using live ng read_cell[OF wf wf_machineD(3)[OF wf]]
  by (simp add: step_in_mode_def step_with_delta_in_mode_def)

definition decoded_instruction :: "ExecutionMode \<Rightarrow> Machine \<Rightarrow> Instruction" where
  "decoded_instruction mode m =
    instruction (XLAT1 ! ((word_value (cell_of m (code_pointer (m_registers m))) - 33 +
      word_value (code_pointer (m_registers m)) mod 94) mod 94)) mode"

lemma step_halt:
  assumes wf: "wf_machine m" and live: "m_termination m = None"
    and g: "word_is_graphical (cell_of m (code_pointer (m_registers m)))"
    and h: "decoded_instruction mode m = Halt"
  shows "step_in_mode mode m =
    (Inr (Terminated HaltInstruction), m\<lparr>m_termination := Some HaltInstruction\<rparr>)"
  using live g h read_cell[OF wf wf_machineD(3)[OF wf]]
  by (simp add: step_in_mode_def step_with_delta_in_mode_def decode_instruction_some
      decoded_instruction_def Let_def)

lemma step_execute:
  assumes wf: "wf_machine m" and live: "m_termination m = None"
    and g: "word_is_graphical (cell_of m (code_pointer (m_registers m)))"
    and h: "decoded_instruction mode m \<noteq> Halt" and p: "plan m (decoded_instruction mode m) = Inr p"
  shows "step_in_mode mode m =
    (case validate_encryption m p mode of
      Inl e \<Rightarrow> (Inl e, m)
    | Inr e \<Rightarrow> (Inr Continued, committed m p e))"
proof (cases "validate_encryption m p mode")
  case (Inl e)
  then show ?thesis
    using live g h p read_cell[OF wf wf_machineD(3)[OF wf]]
    by (simp add: step_in_mode_def step_with_delta_in_mode_def decode_instruction_some
        decoded_instruction_def Let_def)
next
  case (Inr e)
  obtain d where d: "memory_delta m p e = Inr d" using memory_delta_wf[OF wf p] by blast
  then show ?thesis
    using live g h p Inr read_cell[OF wf wf_machineD(3)[OF wf]]
    by (simp add: step_in_mode_def step_with_delta_in_mode_def decode_instruction_some
        decoded_instruction_def Let_def commit_after_delta)
qed

lemma am_decoded_abs:
  assumes wf: "wf_machine m"
  shows "am_operation (mode_input_op mode) (mode_output_op mode) (am_decoded (abs_machine m))
    = operation_of (decoded_instruction mode m)"
  using abs_cell[OF wf wf_machineD(3)[OF wf]]
  by (simp add: am_decoded_def decoded_instruction_def operation_of_instruction)

lemma graphical_fetch_abs:
  assumes wf: "wf_machine m"
  shows "graphical (am_mem (abs_machine m) (am_c (abs_machine m))) \<longleftrightarrow>
    word_is_graphical (cell_of m (code_pointer (m_registers m)))"
  using abs_cell[OF wf wf_machineD(3)[OF wf]] by (simp add: graphical_word)

lemma graphical_target_abs:
  assumes "wf_machine m" and "plan m (decoded_instruction mode m) = Inr p"
  shows "graphical (am_mem (abs_planned m p) (am_c (abs_planned m p))) \<longleftrightarrow>
    word_is_graphical (encryption_cell m p)"
  using abs_planned_cell[OF assms] by (simp add: graphical_word)

text \<open>The simulation, one implication per abstract outcome.\<close>

lemma refine_step:
  assumes wf: "wf_machine m" and live: "m_termination m = None"
    and a: "amstep 10 (mode_input_op mode) (mode_output_op mode) (abs_machine m) s'"
  shows "\<exists>m'. step_in_mode mode m = (Inr Continued, m') \<and> abs_machine m' = s'"
proof -
  obtain p where p: "plan m (decoded_instruction mode m) = Inr p" using plan_total[OF wf] by blast
  note eff = abs_planned_effect[OF wf p]
  from a have g: "word_is_graphical (cell_of m (code_pointer (m_registers m)))"
    and h: "decoded_instruction mode m \<noteq> Halt"
    and t: "word_is_graphical (encryption_cell m p)" and s': "s' = am_seal 10 (abs_planned m p)"
    using graphical_target_abs[OF wf p]
    by (auto simp: amstep_iff am_decoded_abs[OF wf] graphical_fetch_abs[OF wf, simplified] eff[symmetric])
  show ?thesis
    using step_execute[OF wf live g h p] validate_encryption_wf[OF wf p] t
      abs_committed[OF wf p t] s' by simp
qed

lemma refine_halt:
  assumes wf: "wf_machine m" and live: "m_termination m = None"
    and a: "am_halts (mode_input_op mode) (mode_output_op mode) (abs_machine m)"
  shows "step_in_mode mode m =
    (Inr (Terminated HaltInstruction), m\<lparr>m_termination := Some HaltInstruction\<rparr>)"
  by (rule step_halt[OF wf live])
    (use a in \<open>simp_all add: am_halts_def am_decoded_abs[OF wf] graphical_fetch_abs[OF wf, simplified]\<close>)

lemma refine_blocked:
  assumes wf: "wf_machine m" and live: "m_termination m = None"
    and a: "am_blocked 10 (mode_input_op mode) (mode_output_op mode) (abs_machine m)"
  shows "\<exists>e. step_in_mode mode m = (Inl e, m)"
proof -
  obtain p where p: "plan m (decoded_instruction mode m) = Inr p" using plan_total[OF wf] by blast
  note eff = abs_planned_effect[OF wf p]
  from a have g: "word_is_graphical (cell_of m (code_pointer (m_registers m)))"
    and h: "decoded_instruction mode m \<noteq> Halt" and t: "\<not> word_is_graphical (encryption_cell m p)"
    using graphical_target_abs[OF wf p]
    by (auto simp: am_blocked_def Let_def am_decoded_abs[OF wf]
        graphical_fetch_abs[OF wf, simplified] eff[symmetric])
  show ?thesis
    using step_execute[OF wf live g h p] validate_encryption_wf[OF wf p] t by simp
qed

end
