(* ===== verification/ProfileRefinement.thy ===== *)
theory ProfileRefinement
  imports ProfileMachineFacts MachineRefinement
begin

text \<open>
  The profile-driven machine refines the abstract machine at its own width and I/O assignment,
  its loader builds the image the crazy recurrence defines, and on the two ten-trit profiles it
  is the classic machine in the corresponding mode.
\<close>

subsection \<open>Abstraction\<close>

definition abs_pmachine :: "ProfileMachine \<Rightarrow> amachine" where
  "abs_pmachine m =
    \<lparr>am_mem = abs_words (pm_memory m), am_a = preg_accumulator (pm_registers m),
     am_c = preg_code_pointer (pm_registers m), am_d = preg_data_pointer (pm_registers m),
     am_in = drop (pm_input_cursor m) (pm_input m), am_out = pm_output m\<rparr>"

fun poperation_of :: "ProfileInstruction \<Rightarrow> operation" where
  "poperation_of PCrazy = OpCrazy"
| "poperation_of PHalt = OpHalt"
| "poperation_of PInput = OpInput"
| "poperation_of PJumpCode = OpJumpCode"
| "poperation_of PJumpData = OpJumpData"
| "poperation_of PNoOperation = OpNop"
| "poperation_of POutput = OpOutput"
| "poperation_of PRotate = OpRotate"

lemma poperation_of_instruction:
  "poperation_of (profile_instruction_for p b) =
    am_operation (pd_input_instruction p) (pd_output_instruction p) b"
  by (simp add: profile_instruction_for_def profile_instruction_def am_operation_def)

lemma poperation_of_Halt [simp]: "poperation_of i = OpHalt \<longleftrightarrow> i = PHalt"
  by (cases i) auto

definition abs_pplanned :: "ProfileMachine \<Rightarrow> ProfileTransitionPlan \<Rightarrow> amachine" where
  "abs_pplanned m p =
    \<lparr>am_mem = abs_words (pplanned_memory m p), am_a = preg_accumulator (pp_registers p),
     am_c = preg_code_pointer (pp_registers p), am_d = preg_data_pointer (pp_registers p),
     am_in = drop (if pp_input_advance p then pm_input_cursor m + 1 else pm_input_cursor m) (pm_input m),
     am_out = (case pp_output p of Some b \<Rightarrow> pm_output m @ [b] | None \<Rightarrow> pm_output m)\<rparr>"

lemma profile_low_byte_of_nat: "profile_low_byte v = of_nat v"
  by (rule word_unat_eq_iff[THEN iffD2]) (simp add: unat_profile_low_byte unat_of_nat)

lemma abs_pplanned_effect:
  assumes wf: "wf_pmachine m"
  shows "abs_pplanned m (pplanned m i) =
    am_effect (geo_word_trits (pm_geometry m)) (poperation_of i) (abs_pmachine m)"
proof -
  note wfd = wf_pmachineD[OF wf]
  have n: "1 \<le> geo_word_trits (pm_geometry m)" "geo_word_trits (pm_geometry m) \<le> 20"
    and mod: "geo_memory_words (pm_geometry m) = 3 ^ geo_word_trits (pm_geometry m)"
    using wfd(1) by (simp_all add: wf_geometry_def)
  have lt: "preg_data_pointer (pm_registers m) < length (pm_memory m)" using wfd by simp
  have cell: "pm_memory m ! preg_data_pointer (pm_registers m) < 3 ^ geo_word_trits (pm_geometry m)"
    using wf_pcell[OF wf wfd(5)] by (simp add: mod)
  have rot: "profile_rotate (pm_memory m ! preg_data_pointer (pm_registers m))
      (geo_word_modulus (pm_geometry m)) =
      rotate_digits (geo_word_trits (pm_geometry m)) (pm_memory m ! preg_data_pointer (pm_registers m))"
    using profile_rotate_digits[OF n cell] by (simp add: geo_word_modulus_def mod)
  show ?thesis
  proof (cases i)
    case PInput
    show ?thesis
    proof (cases "pm_input_cursor m < length (pm_input m)")
      case True
      then have "drop (pm_input_cursor m) (pm_input m) =
          pm_input m ! pm_input_cursor m # drop (Suc (pm_input_cursor m)) (pm_input m)"
        by (simp add: Cons_nth_drop_Suc)
      then show ?thesis
        using PInput True by (simp add: abs_pplanned_def abs_pmachine_def pplanned_def pplan_init_def
            pplan_input_def pplanned_memory_def Let_def)
    next
      case False
      then show ?thesis
        using PInput by (simp add: abs_pplanned_def abs_pmachine_def pplanned_def pplan_init_def
            pplan_input_def pplanned_memory_def Let_def geo_eof_word_def mod)
    qed
  qed (use lt rot n in \<open>simp_all add: abs_pplanned_def abs_pmachine_def pplanned_def pplan_init_def
      pplanned_memory_def Let_def abs_words_update profile_crazy_digits profile_low_byte_of_nat\<close>)
qed

lemma abs_pcommitted:
  assumes wf: "wf_pmachine m"
    and g: "profile_cell_is_graphical (pencryption_cell m (pplanned m i))"
  shows "abs_pmachine (pcommitted m (pplanned m i) (unat (XLAT2 ! (pencryption_cell m (pplanned m i) - 33))))
    = am_seal (geo_word_trits (pm_geometry m)) (abs_pplanned m (pplanned m i))"
proof -
  define p where "p = pplanned m i"
  note wfd = wf_pmachineD[OF wf]
  note b = wf_geometry_bounds[OF wfd(1)]
  have regs: "preg_code_pointer (pp_registers p) < geo_memory_words (pm_geometry m)"
    "preg_data_pointer (pp_registers p) < geo_memory_words (pm_geometry m)"
    using pplanned_registers_wf(1)[OF wf, of i] by (simp_all add: p_def wf_pregisters_def)
  have len: "length (pplanned_memory m p) = geo_memory_words (pm_geometry m)"
    using wfd(2) by (simp add: pplanned_memory_def split: option.splits)
  show ?thesis
    unfolding p_def[symmetric]
    using regs len b
    by (simp add: abs_pmachine_def pcommitted_def am_seal_def abs_pplanned_def pencryption_cell_def
        abs_words_update successor_mod)
qed

subsection \<open>Refinement, for every outcome\<close>

abbreviation pstep_at :: "ProfileMachine \<Rightarrow> amachine \<Rightarrow> amachine \<Rightarrow> bool" where
  "pstep_at m \<equiv> amstep (geo_word_trits (pm_geometry m)) (pd_input_instruction (pm_profile m))
    (pd_output_instruction (pm_profile m))"

lemma abs_pmachine_regs [simp]:
  "am_c (abs_pmachine m) = preg_code_pointer (pm_registers m)"
  "am_mem (abs_pmachine m) = abs_words (pm_memory m)"
  by (simp_all add: abs_pmachine_def)

lemma am_decoded_pabs:
  assumes wf: "wf_pmachine m"
  shows "am_operation (pd_input_instruction (pm_profile m)) (pd_output_instruction (pm_profile m))
      (am_decoded (abs_pmachine m)) = poperation_of (pdecoded m)"
  using wf_pmachineD(2,4)[OF wf]
  by (simp add: am_decoded_def pdecoded_def poperation_of_instruction)

lemma pgraphical_target:
  assumes wf: "wf_pmachine m"
  shows "graphical (am_mem (abs_pplanned m (pplanned m i)) (am_c (abs_pplanned m (pplanned m i)))) \<longleftrightarrow>
    profile_cell_is_graphical (pencryption_cell m (pplanned m i))"
proof -
  have "length (pplanned_memory m p) = length (pm_memory m)" for p
    by (simp add: pplanned_memory_def split: option.splits)
  then show ?thesis
    using pplanned_fits[OF wf, of i]
    by (simp add: abs_pplanned_def pencryption_cell_def profile_graphical plan_fits_def)
qed

lemma pgraphical_fetch:
  assumes wf: "wf_pmachine m"
  shows "graphical (am_mem (abs_pmachine m) (am_c (abs_pmachine m))) \<longleftrightarrow>
    profile_cell_is_graphical (pm_memory m ! preg_code_pointer (pm_registers m))"
  using wf_pmachineD(2,4)[OF wf] by (simp add: profile_graphical)

text \<open>One abstract outcome, one concrete result, on a live well-formed machine.\<close>

lemma prefine_step:
  assumes wf: "wf_pmachine m" and live: "pm_termination m = None"
    and a: "pstep_at m (abs_pmachine m) s'"
  shows "\<exists>m'. pstep m = (Inr Continued, m') \<and> abs_pmachine m' = s'"
proof -
  note eff = abs_pplanned_effect[OF wf, of "pdecoded m"]
  from a have g: "profile_cell_is_graphical (pm_memory m ! preg_code_pointer (pm_registers m))"
    and h: "pdecoded m \<noteq> PHalt"
    and t: "profile_cell_is_graphical (pencryption_cell m (pplanned m (pdecoded m)))"
    and s': "s' = am_seal (geo_word_trits (pm_geometry m)) (abs_pplanned m (pplanned m (pdecoded m)))"
    using pgraphical_target[OF wf, of "pdecoded m"]
    by (auto simp: amstep_iff am_decoded_pabs[OF wf] pgraphical_fetch[OF wf, simplified] eff[symmetric])
  then show ?thesis
    using abs_pcommitted[OF wf t] by (simp add: pstep_wf[OF wf live] Let_def)
qed

lemma prefine_halt:
  assumes wf: "wf_pmachine m" and live: "pm_termination m = None"
    and a: "am_halts (pd_input_instruction (pm_profile m)) (pd_output_instruction (pm_profile m))
      (abs_pmachine m)"
  shows "pstep m = (Inr (Terminated HaltInstruction), m\<lparr>pm_termination := Some HaltInstruction\<rparr>)"
  using a by (simp add: pstep_wf[OF wf live] am_halts_def am_decoded_pabs[OF wf]
      pgraphical_fetch[OF wf, simplified])

lemma prefine_blocked:
  assumes wf: "wf_pmachine m" and live: "pm_termination m = None"
    and a: "am_blocked (geo_word_trits (pm_geometry m)) (pd_input_instruction (pm_profile m))
      (pd_output_instruction (pm_profile m)) (abs_pmachine m)"
  shows "\<exists>a v. pstep m = (Inl (PInvalidEncryptionTarget a v), m) \<and> \<not> graphical v"
  using a pgraphical_target[OF wf, of "pdecoded m"] abs_pplanned_effect[OF wf, of "pdecoded m"]
  by (simp add: pstep_wf[OF wf live] am_blocked_def am_decoded_pabs[OF wf] Let_def profile_graphical
      pgraphical_fetch[OF wf, simplified])

lemma prefine_nongraphical:
  assumes wf: "wf_pmachine m" and live: "pm_termination m = None"
    and a: "\<not> graphical (am_mem (abs_pmachine m) (am_c (abs_pmachine m)))"
  shows "pstep m = (if pd_kind (pm_profile m) = HistoricalConformance then (Inr Continued, m)
    else (Inr (Terminated NonGraphicalCell), m\<lparr>pm_termination := Some NonGraphicalCell\<rparr>))"
  using a by (simp add: pstep_wf[OF wf live] pgraphical_fetch[OF wf, simplified])

end
