(* ===== verification/ProfileLoading.thy ===== *)
theory ProfileLoading
  imports ProfileMachineFacts
begin

text \<open>
  The profile loader and the checkpoint constructors: which sources are admitted, the image
  that results, and that every constructor yields a well-formed machine.
\<close>

subsection \<open>Admission\<close>

lemma admit_loop_Inr:
  "admit_loop k capacity source ws = Inr result \<Longrightarrow>
    (\<forall>b \<in> set (source_bytes source). 33 \<le> b \<and> b \<le> 126) \<and>
    result = ws @ map unat (source_bytes source) \<and>
    (length ws \<le> capacity \<longrightarrow> length result \<le> capacity)"
proof (induction k capacity source ws rule: admit_loop.induct)
  case (1 k capacity ws)
  then show ?case by (simp add: source_bytes_def)
next
  case (2 k capacity b bs ws)
  show ?case
  proof (cases "is_source_whitespace b")
    case True
    then show ?thesis using "2.IH"(1)[OF True] "2.prems" by (auto simp: source_bytes_def)
  next
    case False
    then have b: "33 \<le> b \<and> b \<le> 126" and cap: "length ws < capacity"
      and rest: "admit_loop (k + 1) capacity bs (ws @ [unat b]) = Inr result"
      using "2.prems" by (simp_all split: if_splits)
    have "(\<forall>b \<in> set (source_bytes bs). 33 \<le> b \<and> b \<le> 126) \<and>
        result = (ws @ [unat b]) @ map unat (source_bytes bs) \<and>
        (length (ws @ [unat b]) \<le> capacity \<longrightarrow> length result \<le> capacity)"
      by (rule "2.IH"(2)) (use False b cap rest in simp_all)
    then show ?thesis using False b cap by (auto simp: source_bytes_def)
  qed
qed

lemma admit_loop_total:
  "(\<forall>b \<in> set (source_bytes source). 33 \<le> b \<and> b \<le> 126) \<Longrightarrow>
    length ws + length (source_bytes source) \<le> capacity \<Longrightarrow>
    admit_loop k capacity source ws = Inr (ws @ map unat (source_bytes source))"
proof (induction k capacity source ws rule: admit_loop.induct)
  case (1 k capacity ws)
  then show ?case by (simp add: source_bytes_def)
next
  case (2 k capacity b bs ws)
  show ?case
  proof (cases "is_source_whitespace b")
    case True
    then show ?thesis using 2 by (simp add: source_bytes_def)
  next
    case False
    then have "33 \<le> b \<and> b \<le> 126" "length ws < capacity"
      using "2.prems" by (simp_all add: source_bytes_def)
    then show ?thesis using 2 False by (simp add: source_bytes_def)
  qed
qed

lemma admit_loop_Inr_iff:
  "admit_loop 0 capacity source [] = Inr result \<longleftrightarrow>
    (\<forall>b \<in> set (source_bytes source). 33 \<le> b \<and> b \<le> 126) \<and>
    length (source_bytes source) \<le> capacity \<and> result = map unat (source_bytes source)"
  using admit_loop_Inr[of 0 capacity source "[]" result] admit_loop_total[of source "[]" capacity 0]
  by auto

definition loads_at_width :: "nat \<Rightarrow> u32 \<Rightarrow> bool" where
  "loads_at_width position cell \<longleftrightarrow>
    (\<exists>d \<in> {42, 47, 60, 105, 106, 111, 112, 118}.
      decode_profile_instruction cell position = Some d)"

lemma loads_at_width_eq:
  "loads_at_width position cell \<longleftrightarrow>
    (\<exists>d \<in> load_instructions. decode_profile_instruction cell position = Some d)"
  by (auto simp: loads_at_width_def load_instructions_def)

lemma loads_at_iff: "loads_at_width position (unat b) \<longleftrightarrow> loads_at position b"
  by (simp add: loads_at_width_def loads_at_def decode_instruction_profile word_from_byte_def
      decode_profile_instruction_def)

lemma admit_instructions_Inr:
  "k + length ws \<le> Suc U32_MAX \<Longrightarrow> \<forall>w \<in> set ws. w \<le> 255 \<Longrightarrow>
    admit_instructions k ws = Inr () \<longleftrightarrow> (\<forall>i < length ws. loads_at_width (k + i) (ws ! i))"
proof (induction ws arbitrary: k)
  case Nil
  then show ?case by simp
next
  case (Cons w ws)
  have "(\<forall>i < length (w # ws). loads_at_width (k + i) ((w # ws) ! i)) \<longleftrightarrow>
      loads_at_width k w \<and> (\<forall>i < length ws. loads_at_width (Suc k + i) (ws ! i))"
    by (auto simp: less_Suc_eq_0_disj)
  then show ?case
    using Cons.IH[of "Suc k"] Cons.prems
    by (auto simp: loads_at_width_eq Let_def split: option.splits)
qed

definition admissible :: "nat \<Rightarrow> u8 list \<Rightarrow> bool" where
  "admissible capacity source \<longleftrightarrow>
    (\<forall>b \<in> set (source_bytes source). 33 \<le> b \<and> b \<le> 126) \<and>
    2 \<le> length (source_bytes source) \<and> length (source_bytes source) \<le> capacity \<and>
    (\<forall>i < length (source_bytes source). loads_at i (source_bytes source ! i))"

lemma admit_profile_source_Inr:
  assumes "capacity \<le> U32_MAX"
  shows "admit_profile_source source capacity = Inr ws \<longleftrightarrow>
    admissible capacity source \<and> ws = map unat (source_bytes source)"
proof (cases "admit_loop 0 capacity source []")
  case (Inl e)
  then show ?thesis
    using admit_loop_Inr_iff[of capacity source "map unat (source_bytes source)"]
    by (auto simp: admit_profile_source_def admissible_def)
next
  case (Inr result)
  then have r: "result = map unat (source_bytes source)" "length (source_bytes source) \<le> capacity"
    "\<forall>b \<in> set (source_bytes source). 33 \<le> b \<and> b \<le> 126"
    using admit_loop_Inr_iff[of capacity source result] by auto
  have "admit_instructions 0 result = Inr () \<longleftrightarrow>
      (\<forall>i < length (source_bytes source). loads_at i (source_bytes source ! i))"
    using admit_instructions_Inr[of 0 result] r(1,2) assms by (auto simp: loads_at_iff)
  then show ?thesis
    using Inr r by (auto simp: admit_profile_source_def admissible_def split: sum.splits)
qed

lemma load_ok_admissible: "(\<exists>m. load source = Inr m) \<longleftrightarrow> admissible MEMORY_WORDS source"
  by (simp add: load_ok_iff admissible_def)

subsection \<open>The recurrence\<close>

definition precurrence :: "nat \<Rightarrow> nat \<Rightarrow> nat list \<Rightarrow> bool" where
  "precurrence n k ws \<longleftrightarrow>
    (\<forall>i. k \<le> i \<and> i < length ws \<longrightarrow> ws ! i = crazy_digits n (ws ! (i - 2)) (ws ! (i - 1)))"

lemma precurrence_snoc:
  assumes "precurrence n k ws" and "2 \<le> length ws"
    and "w = crazy_digits n (ws ! (length ws - 2)) (ws ! (length ws - 1))"
  shows "precurrence n k (ws @ [w])"
  unfolding precurrence_def
proof (intro allI impI)
  fix i
  assume i: "k \<le> i \<and> i < length (ws @ [w])"
  show "(ws @ [w]) ! i = crazy_digits n ((ws @ [w]) ! (i - 2)) ((ws @ [w]) ! (i - 1))"
  proof (cases "i = length ws")
    case True
    have "length ws - 2 < length ws" "length ws - 1 < length ws" using assms(2) by simp_all
    then show ?thesis using True assms(3) by (simp add: nth_append)
  next
    case False
    then have "i < length ws" "i - 2 < length ws" "i - 1 < length ws" using i by auto
    then show ?thesis using assms(1) i by (simp add: nth_append precurrence_def)
  qed
qed

lemma pfill_loop_spec:
  "n \<le> 20 \<Longrightarrow> 2 \<le> length ws \<Longrightarrow> length ws \<le> capacity \<Longrightarrow> precurrence n k ws \<Longrightarrow>
    (\<forall>w \<in> set ws. w < 3 ^ n) \<Longrightarrow>
    \<exists>img. pfill_loop n capacity ws = Inr img \<and> length img = capacity \<and>
      take (length ws) img = ws \<and> precurrence n k img \<and> (\<forall>w \<in> set img. w < 3 ^ n)"
proof (induction n capacity ws rule: pfill_loop.induct)
  case (1 n capacity ws)
  show ?case
  proof (cases "length ws < capacity")
    case False
    then show ?thesis using "1.prems" by (subst pfill_loop.simps) auto
  next
    case True
    define w where "w = profile_crazy (ws ! (length ws - 2)) (ws ! (length ws - 1)) n"
    have w: "w = crazy_digits n (ws ! (length ws - 2)) (ws ! (length ws - 1))" "w < 3 ^ n"
      using "1.prems"(1) by (simp_all add: w_def profile_crazy_digits profile_crazy_lt crazy_digits_lt)
    have gets: "get ws (length ws - 1) = Some (ws ! (length ws - 1))"
      "get ws (length ws - 2) = Some (ws ! (length ws - 2))" using "1.prems"(2) by simp_all
    have "\<exists>img. pfill_loop n capacity (ws @ [w]) = Inr img \<and> length img = capacity \<and>
      take (length (ws @ [w])) img = ws @ [w] \<and> precurrence n k img \<and> (\<forall>v \<in> set img. v < 3 ^ n)"
      unfolding w_def
      by (rule "1.IH"[OF True gets]) (use "1.prems" True w w_def precurrence_snoc in auto)
    then obtain img where i: "pfill_loop n capacity (ws @ [w]) = Inr img" "length img = capacity"
      "take (length (ws @ [w])) img = ws @ [w]" "precurrence n k img" "\<forall>v \<in> set img. v < 3 ^ n"
      by blast
    have "take (length ws) img = ws"
      using arg_cong[OF i(3), of "take (length ws)"] by (simp add: min_def)
    moreover have "pfill_loop n capacity ws = Inr img"
      using True gets i(1) by (subst pfill_loop.simps) (simp add: w_def)
    ultimately show ?thesis using i by blast
  qed
qed

lemma unat_lt_geometry: "wf_geometry g \<Longrightarrow> unat (b::u8) < 3 ^ geo_word_trits g"
  using wf_geometry_bounds(1,3,4)[of g] unat_u8_le[of b] by linarith

lemma load_profile_image:
  assumes wf: "wf_geometry g" and adm: "admissible (geo_memory_words g) source"
    and res: "reserve (geo_memory_words g - length (source_bytes source))"
  obtains img where "load_profile reserve g source = Inr img"
    "length img = geo_memory_words g" "\<forall>w \<in> set img. w < geo_memory_words g"
    "take (length (source_bytes source)) img = map unat (source_bytes source)"
    "precurrence (geo_word_trits g) (length (source_bytes source)) img"
proof -
  have a: "admit_profile_source source (geo_memory_words g) = Inr (map unat (source_bytes source))"
    using adm wf_geometry_bounds(2)[OF wf] by (simp add: admit_profile_source_Inr)
  have "\<exists>img. pfill_loop (geo_word_trits g) (geo_memory_words g) (map unat (source_bytes source)) = Inr img \<and>
      length img = geo_memory_words g \<and>
      take (length (source_bytes source)) img = map unat (source_bytes source) \<and>
      precurrence (geo_word_trits g) (length (source_bytes source)) img \<and>
      (\<forall>w \<in> set img. w < 3 ^ geo_word_trits g)"
  proof (rule pfill_loop_spec[where ws = "map unat (source_bytes source)", simplified length_map])
    show "geo_word_trits g \<le> 20" using wf by (simp add: wf_geometry_def)
    show "2 \<le> length (source_bytes source)" "length (source_bytes source) \<le> geo_memory_words g"
      using adm by (simp_all add: admissible_def)
    show "precurrence (geo_word_trits g) (length (source_bytes source)) (map unat (source_bytes source))"
      by (simp add: precurrence_def)
    show "\<forall>w \<in> set (map unat (source_bytes source)). w < 3 ^ geo_word_trits g"
      using unat_lt_geometry[OF wf] by simp
  qed
  then show ?thesis
    using that a res wf by (auto simp: load_profile_def Let_def wf_geometry_def)
qed

lemma load_profile_ok_iff:
  assumes wf: "wf_geometry g"
  shows "(\<exists>img. load_profile reserve g source = Inr img) \<longleftrightarrow>
    admissible (geo_memory_words g) source \<and>
    reserve (geo_memory_words g - length (source_bytes source))"
proof
  assume "\<exists>img. load_profile reserve g source = Inr img"
  then obtain ws where ws: "admit_profile_source source (geo_memory_words g) = Inr ws"
    "reserve (geo_memory_words g - length ws)"
    by (auto simp: load_profile_def Let_def split: sum.splits if_splits)
  then have "admissible (geo_memory_words g) source" "ws = map unat (source_bytes source)"
    using admit_profile_source_Inr[OF wf_geometry_bounds(2)[OF wf], of source ws] by blast+
  then show "admissible (geo_memory_words g) source \<and>
      reserve (geo_memory_words g - length (source_bytes source))"
    using ws(2) by simp
next
  assume "admissible (geo_memory_words g) source \<and>
      reserve (geo_memory_words g - length (source_bytes source))"
  then show "\<exists>img. load_profile reserve g source = Inr img"
    using load_profile_image[OF wf] by metis
qed

lemma load_profile_Inr:
  assumes wf: "wf_geometry g" and l: "load_profile reserve g source = Inr img"
  shows "length img = geo_memory_words g" "\<forall>w \<in> set img. w < geo_memory_words g"
    "take (length (source_bytes source)) img = map unat (source_bytes source)"
    "precurrence (geo_word_trits g) (length (source_bytes source)) img"
    "admissible (geo_memory_words g) source"
proof -
  from l have ok: "admissible (geo_memory_words g) source"
    "reserve (geo_memory_words g - length (source_bytes source))"
    using load_profile_ok_iff[OF wf] by blast+
  obtain img' where "load_profile reserve g source = Inr img'"
    "length img' = geo_memory_words g" "\<forall>w \<in> set img'. w < geo_memory_words g"
    "take (length (source_bytes source)) img' = map unat (source_bytes source)"
    "precurrence (geo_word_trits g) (length (source_bytes source)) img'"
    using load_profile_image[where reserve = reserve, OF wf ok] .
  then show "length img = geo_memory_words g" "\<forall>w \<in> set img. w < geo_memory_words g"
    "take (length (source_bytes source)) img = map unat (source_bytes source)"
    "precurrence (geo_word_trits g) (length (source_bytes source)) img"
    using l by simp_all
  show "admissible (geo_memory_words g) source" by (rule ok)
qed

lemma pregisters_default_wf: "0 < n \<Longrightarrow> wf_pregisters n profile_registers_default"
  by (simp add: wf_pregisters_def profile_registers_default_def)

lemma pfrom_source_wf:
  assumes "wf_profile p" and "pfrom_source reserve p source input = Inr m"
  shows "wf_pmachine m \<and> pm_termination m = None"
proof -
  have wf: "wf_geometry (canonical p)" using assms(1) by (rule canonical_wf)
  obtain img where l: "load_profile reserve (canonical p) source = Inr img"
    and m: "m = \<lparr>pm_geometry = canonical p, pm_input = input, pm_input_cursor = 0,
        pm_memory = img, pm_output = [], pm_profile = p,
        pm_registers = profile_registers_default, pm_termination = None\<rparr>"
    using assms(2) by (auto simp: pfrom_source_def Let_def split: sum.splits)
  have "0 < geo_memory_words (canonical p)" using wf_geometry_bounds(1)[OF wf] by linarith
  then show ?thesis
    using wf load_profile_Inr(1,2)[OF wf l]
    by (simp add: wf_pmachine_def m pregisters_default_wf admits_input_def)
      (simp add: canonical_def)
qed

subsection \<open>Checkpoints\<close>

lemma validate_memory_loop_Inr:
  "validate_memory_loop modulus k ws = Inr () \<longleftrightarrow> (\<forall>w \<in> set ws. w < modulus)"
  by (induction ws arbitrary: k) auto

lemma validate_memory_loop_Inl:
  "k + length ws \<le> Suc U32_MAX \<Longrightarrow> validate_memory_loop modulus k ws = Inl e \<Longrightarrow>
    \<exists>i < length ws. e = MemoryWordOutOfRange (k + i) (ws ! i) \<and> modulus \<le> ws ! i \<and>
      (\<forall>j < i. ws ! j < modulus)"
proof (induction ws arbitrary: k)
  case Nil
  then show ?case by simp
next
  case (Cons w ws)
  show ?case
  proof (cases "modulus \<le> w")
    case True
    then show ?thesis using Cons.prems by (intro exI[of _ 0]) (auto split: if_splits)
  next
    case False
    then obtain i where "i < length ws" "e = MemoryWordOutOfRange (Suc k + i) (ws ! i)"
      "modulus \<le> ws ! i" "\<forall>j < i. ws ! j < modulus"
      using Cons.IH[of "Suc k"] Cons.prems by auto
    then show ?thesis
      using False by (intro exI[of _ "Suc i"]) (auto simp: less_Suc_eq_0_disj)
  qed
qed

lemma validate_state_memory_Inr:
  "validate_state_memory g memory = Inr () \<longleftrightarrow>
    length memory = geo_memory_words g \<and> (\<forall>w \<in> set memory. w < geo_word_modulus g)"
  by (auto simp: validate_state_memory_def Let_def validate_memory_loop_Inr)

lemma validate_state_registers_Inr:
  "validate_state_registers g r = Inr () \<longleftrightarrow> wf_pregisters (geo_word_modulus g) r"
  by (auto simp: validate_state_registers_def validate_state_register_def wf_pregisters_def)

text \<open>The validating constructor accepts exactly the well-formed states.\<close>

lemma profile_state_new_iff:
  assumes wf: "wf_geometry g"
  shows "(\<exists>s. profile_state_new_with_geometry g memory registers io = Inr s) \<longleftrightarrow>
    admits_input g (pio_input io) \<and> geo_memory_words g \<le> pd_memory_words (geo_profile g) \<and>
    length memory = geo_memory_words g \<and> (\<forall>w \<in> set memory. w < geo_memory_words g) \<and>
    wf_pregisters (geo_memory_words g) registers"
proof -
  have pf: "preflight_profile (geo_profile g) (geo_memory_words g) SAFE_RUST_PROFILED = Inr () \<longleftrightarrow>
      geo_memory_words g \<le> pd_memory_words (geo_profile g)"
    using wf by (simp add: preflight_profile_profiled wf_geometry_def)
  have unit: "(\<exists>u. r = Inr u) \<longleftrightarrow> r = Inr ()" for r :: "'e + unit" by auto
  show ?thesis
    using pf validate_state_memory_Inr[of g memory] validate_state_registers_Inr[of g registers]
      wf_geometry_bounds(4)[OF wf]
    by (auto simp: profile_state_new_with_geometry_def Let_def split: sum.splits)
qed

lemma profile_state_new_machine_wf:
  assumes wf: "wf_geometry g" and io: "pio_input_cursor io \<le> length (pio_input io)"
    and s: "profile_state_new_with_geometry g memory registers io = Inr s"
  shows "wf_pmachine (pfrom_snapshot s)"
proof -
  have "s = \<lparr>pst_geometry = g, pst_io = io, pst_memory = memory, pst_profile = geo_profile g,
      pst_registers = registers\<rparr>"
    using s by (auto simp: profile_state_new_with_geometry_def Let_def split: sum.splits if_splits)
  moreover have "admits_input g (pio_input io)" "length memory = geo_memory_words g"
    "\<forall>w \<in> set memory. w < geo_memory_words g" "wf_pregisters (geo_memory_words g) registers"
    using s profile_state_new_iff[OF wf, of memory registers io] by blast+
  ultimately show ?thesis using wf io by (simp add: wf_pmachine_def pfrom_snapshot_def)
qed

lemma psnapshot_roundtrip: "pfrom_snapshot (psnapshot_state m) = m"
  by (simp add: pfrom_snapshot_def psnapshot_state_def)

lemma psnapshot_roundtrip': "psnapshot_state (pfrom_snapshot s) = s"
  by (simp add: pfrom_snapshot_def psnapshot_state_def)

text \<open>A checkpoint taken from a reachable machine passes validation again.\<close>

lemma psnapshot_revalidates:
  assumes wf: "wf_pmachine m"
    and cap: "geo_memory_words (pm_geometry m) \<le> pd_memory_words (pm_profile m)"
  shows "profile_state_new_with_geometry (pst_geometry (psnapshot_state m))
      (pst_memory (psnapshot_state m)) (pst_registers (psnapshot_state m)) (pst_io (psnapshot_state m))
    = Inr (psnapshot_state m)"
proof -
  have wfg: "wf_geometry (pm_geometry m)" and prof: "geo_profile (pm_geometry m) = pm_profile m"
    using wf by (simp_all add: wf_pmachine_def)
  have "\<exists>s. profile_state_new_with_geometry (pst_geometry (psnapshot_state m))
      (pst_memory (psnapshot_state m)) (pst_registers (psnapshot_state m)) (pst_io (psnapshot_state m)) = Inr s"
    using wf cap prof profile_state_new_iff[OF wfg, of "pm_memory m" "pm_registers m" "pst_io (psnapshot_state m)"]
    by (simp add: psnapshot_state_def wf_pmachine_def)
  then show ?thesis
    using prof by (auto simp: profile_state_new_with_geometry_def psnapshot_state_def Let_def
        split: sum.splits if_splits)
qed

end
