(* ===== verification/Equivalence.thy ===== *)
theory Equivalence
  imports ProfileRefinement ProfileLoading
begin

text \<open>
  The two implementations of the virtual machine agree. The classic machine in interpreter mode
  is the profile machine on \<open>malbolge-1998\<close>; in specification mode it is the profile machine on
  \<open>malbolge-2026.1\<close>. The embedding copies every field, so what is proved is equality of whole
  machines, including the errors, step by step and for every budget, and of loading.
\<close>

fun mode_profile :: "ExecutionMode \<Rightarrow> ProfileDescriptor" where
  "mode_profile Interpreter = PROFILE_0"
| "mode_profile Specification = PROFILE_2"

definition embed_registers :: "Registers \<Rightarrow> ProfileRegisters" where
  "embed_registers r =
    \<lparr>preg_accumulator = word_value (accumulator r), preg_code_pointer = word_value (code_pointer r),
     preg_data_pointer = word_value (data_pointer r)\<rparr>"

definition as_profile :: "ExecutionMode \<Rightarrow> Machine \<Rightarrow> ProfileMachine" where
  "as_profile mode m =
    \<lparr>pm_geometry = canonical (mode_profile mode), pm_input = m_input m,
     pm_input_cursor = m_input_cursor m, pm_memory = map word_value (mem_words (m_memory m)),
     pm_output = m_output m, pm_profile = mode_profile mode,
     pm_registers = embed_registers (m_registers m), pm_termination = m_termination m\<rparr>"

fun embed_error :: "MachineError \<Rightarrow> ProfileMachineError" where
  "embed_error (InvalidEncryptionTarget a v) = PInvalidEncryptionTarget (word_value a) (word_value v)"
| "embed_error (UnsupportedInterpreterBehavior (InvalidSelfEncryptionTarget a v)) =
    PInvalidEncryptionTarget (word_value a) (word_value v)"
| "embed_error TranslationTableInvariant = PTranslationTableInvariant"
| "embed_error (MemoryFailure e) = MemoryInvariant"

fun embed_instruction :: "Instruction \<Rightarrow> ProfileInstruction" where
  "embed_instruction Crazy = PCrazy"
| "embed_instruction Halt = PHalt"
| "embed_instruction Input = PInput"
| "embed_instruction JumpCode = PJumpCode"
| "embed_instruction JumpData = PJumpData"
| "embed_instruction NoOperation = PNoOperation"
| "embed_instruction Output = POutput"
| "embed_instruction Rotate = PRotate"

lemma embed_instruction_Halt [simp]: "embed_instruction i = PHalt \<longleftrightarrow> i = Halt"
  by (cases i) auto

lemma embed_instruction_for:
  "profile_instruction_for (mode_profile mode) b = embed_instruction (instruction b mode)"
  by (cases mode) (simp_all add: profile_instruction_for_def profile_instruction_def instruction_def
      interpreter_instruction_def specification_instruction_def PROFILE_0_def PROFILE_2_def)

lemma mode_profile_geometry [simp]:
  "geo_word_trits (canonical (mode_profile mode)) = 10"
  "geo_memory_words (canonical (mode_profile mode)) = MEMORY_WORDS"
  "geo_word_modulus (canonical (mode_profile mode)) = MEMORY_WORDS"
  "geo_profile (canonical (mode_profile mode)) = mode_profile mode"
  by (cases mode; simp add: canonical_def geo_word_modulus_def PROFILE_0_def PROFILE_2_def
      MEMORY_WORDS_def)+

lemma mode_profile_wf: "wf_profile (mode_profile mode)"
  by (cases mode) (simp_all add: PROFILE_wf)

lemma mode_profile_historical:
  "pd_kind (mode_profile mode) = HistoricalConformance \<longleftrightarrow> mode = Interpreter"
  by (cases mode) (simp_all add: PROFILE_0_def PROFILE_2_def)

lemma wf_word_lt: "wf_word w \<longleftrightarrow> word_value w < MEMORY_WORDS"
  by (auto simp: wf_word_def MAX_WORD_VALUE_def MEMORY_WORDS_def)

lemma embed_wf:
  assumes "wf_machine m"
  shows "wf_pmachine (as_profile mode m)"
  using assms canonical_wf[OF mode_profile_wf[of mode]]
  by (auto simp: wf_pmachine_def as_profile_def wf_machine_def wf_memory_def wf_registers_def wf_word_lt
      wf_pregisters_def embed_registers_def admits_input_def)
    (simp add: canonical_def)

lemma embed_select [simp]:
  "pm_geometry (as_profile mode m) = canonical (mode_profile mode)"
  "pm_profile (as_profile mode m) = mode_profile mode"
  "pm_memory (as_profile mode m) = map word_value (mem_words (m_memory m))"
  "pm_termination (as_profile mode m) = m_termination m"
  "pm_input (as_profile mode m) = m_input m"
  "pm_input_cursor (as_profile mode m) = m_input_cursor m"
  "pm_output (as_profile mode m) = m_output m"
  "preg_accumulator (pm_registers (as_profile mode m)) = word_value (accumulator (m_registers m))"
  "preg_code_pointer (pm_registers (as_profile mode m)) = word_value (code_pointer (m_registers m))"
  "preg_data_pointer (pm_registers (as_profile mode m)) = word_value (data_pointer (m_registers m))"
  by (simp_all add: as_profile_def embed_registers_def)

lemma embed_cell: "wf_machine m \<Longrightarrow> wf_word a \<Longrightarrow>
    pm_memory (as_profile mode m) ! word_value a = word_value (cell_of m a)"
  by (simp add: wf_address_lt)

subsection \<open>Plans agree\<close>

lemma plan_embed:
  assumes wf: "wf_machine m" and p: "plan m i = Inr p"
  shows "pp_registers (pplanned (as_profile mode m) (embed_instruction i)) = embed_registers (plan_registers p)"
    and "pp_memory_write (pplanned (as_profile mode m) (embed_instruction i)) =
      map_option (\<lambda>(a, v). (word_value a, word_value v)) (plan_memory_write p)"
    and "pp_input_advance (pplanned (as_profile mode m) (embed_instruction i)) = plan_input_advance p"
    and "pp_output (pplanned (as_profile mode m) (embed_instruction i)) = plan_output p"
proof -
  note wfd = wf_machineD[OF wf]
  have cell: "wf_word (cell_of m (data_pointer (m_registers m)))" by (rule wf_cell[OF wf wfd(4)])
  have lt: "word_value (data_pointer (m_registers m)) < length (mem_words (m_memory m))"
    by (rule wf_address_lt[OF wf wfd(4)])
  have rot: "profile_rotate (word_value (cell_of m (data_pointer (m_registers m)))) MEMORY_WORDS =
      word_value (word_rotate (cell_of m (data_pointer (m_registers m))))"
    using profile_rotate_digits[of 10 "word_value (cell_of m (data_pointer (m_registers m)))"] cell
    by (simp add: word_value_rotate wf_word_lt MEMORY_WORDS_def)
  have cra: "profile_crazy (word_value (cell_of m (data_pointer (m_registers m))))
      (word_value (accumulator (m_registers m))) 10 =
      word_value (word_crazy (cell_of m (data_pointer (m_registers m))) (accumulator (m_registers m)))"
    using cell wfd(2) by (simp add: word_value_crazy profile_crazy_digits)
  note defs = plan_def plan_crazy_def plan_rotate_def plan_input_def Let_def read_cell[OF wf wfd(4)]
  note pdefs = pplanned_def pplan_init_def pplan_input_def embed_registers_def geo_eof_word_def
  have all: "pp_registers (pplanned (as_profile mode m) (embed_instruction i)) = embed_registers (plan_registers p) \<and>
      pp_memory_write (pplanned (as_profile mode m) (embed_instruction i)) =
        map_option (\<lambda>(a, v). (word_value a, word_value v)) (plan_memory_write p) \<and>
      pp_input_advance (pplanned (as_profile mode m) (embed_instruction i)) = plan_input_advance p \<and>
      pp_output (pplanned (as_profile mode m) (embed_instruction i)) = plan_output p"
  proof (cases i)
    case Input
    then show ?thesis
      using p by (cases "get (m_input m) (m_input_cursor m)")
        (auto simp: defs pdefs as_profile_def word_MAX_def MAX_WORD_VALUE_def MEMORY_WORDS_def[symmetric]
          simp flip: One_nat_def, simp_all add: MEMORY_WORDS_def)
  qed (use p lt rot cra in \<open>auto simp: defs pdefs as_profile_def word_low_byte_profile\<close>)
  then show "pp_registers (pplanned (as_profile mode m) (embed_instruction i)) = embed_registers (plan_registers p)"
    "pp_memory_write (pplanned (as_profile mode m) (embed_instruction i)) =
      map_option (\<lambda>(a, v). (word_value a, word_value v)) (plan_memory_write p)"
    "pp_input_advance (pplanned (as_profile mode m) (embed_instruction i)) = plan_input_advance p"
    "pp_output (pplanned (as_profile mode m) (embed_instruction i)) = plan_output p"
    by simp_all
qed

subsection \<open>Steps agree\<close>

lemma pdecoded_embed:
  "wf_machine m \<Longrightarrow> pdecoded (as_profile mode m) = embed_instruction (decoded_instruction mode m)"
  using wf_address_lt[OF _ wf_machineD(3)]
  by (simp add: pdecoded_def decoded_instruction_def embed_instruction_for)

lemma pplanned_memory_embed:
  assumes "wf_machine m" and "plan m i = Inr p"
  shows "pplanned_memory (as_profile mode m) (pplanned (as_profile mode m) (embed_instruction i)) =
    map word_value (planned_words m p)"
  using plan_embed(2)[OF assms, of mode]
  by (auto simp: pplanned_memory_def planned_words_def map_update split: option.splits)

lemma pencryption_cell_embed:
  assumes "wf_machine m" and "plan m i = Inr p"
  shows "pencryption_cell (as_profile mode m) (pplanned (as_profile mode m) (embed_instruction i)) =
    word_value (encryption_cell m p)"
  using plan_cp_lt[OF assms] plan_embed(1)[OF assms, of mode]
  by (simp add: pencryption_cell_def encryption_cell_def pplanned_memory_embed[OF assms]
      embed_registers_def)

lemma word_successor_embed: "wf_word w \<Longrightarrow> word_value (word_successor w) = successor (word_value w) MEMORY_WORDS"
  by (simp add: word_value_successor successor_mod wf_word_lt MEMORY_WORDS_def U32_MAX_def)

lemma pcommitted_embed:
  assumes wf: "wf_machine m" and p: "plan m i = Inr p"
  shows "pcommitted (as_profile mode m) (pplanned (as_profile mode m) (embed_instruction i)) (unat b) =
    as_profile mode (committed m p (word_from_byte b))"
proof -
  have regs: "wf_word (code_pointer (plan_registers p))" "wf_word (data_pointer (plan_registers p))"
    using plan_writes_wf(1)[OF wf p] by (simp_all add: wf_registers_def)
  have "pcommitted (as_profile mode m) (pplanned (as_profile mode m) (embed_instruction i)) (unat b) =
    (as_profile mode m)\<lparr>
      pm_memory := map word_value ((planned_words m p)[word_value (code_pointer (plan_registers p)) := word_from_byte b]),
      pm_registers := embed_registers
        \<lparr>accumulator = accumulator (plan_registers p),
         code_pointer = word_successor (code_pointer (plan_registers p)),
         data_pointer = word_successor (data_pointer (plan_registers p))\<rparr>,
      pm_input_cursor := (if plan_input_advance p then m_input_cursor m + 1 else m_input_cursor m),
      pm_output := (case plan_output p of Some b \<Rightarrow> m_output m @ [b] | None \<Rightarrow> m_output m)\<rparr>"
    using regs plan_embed[OF wf p, of mode]
    by (simp add: pcommitted_def pplanned_memory_embed[OF wf p] embed_registers_def map_update
        word_successor_embed word_from_byte_def cong: option.case_cong if_cong)
  then show ?thesis by (simp add: committed_def as_profile_def)
qed

lemma graphical_embed: "profile_cell_is_graphical (word_value w) \<longleftrightarrow> word_is_graphical w"
  by (simp add: profile_cell_is_graphical_def word_is_graphical_def)

lemma embed_step_in_mode:
  assumes wf: "wf_machine m" and s: "step_in_mode mode m = (r, m')"
  shows "pstep (as_profile mode m) = (map_err embed_error r, as_profile mode m')"
proof (cases "m_termination m")
  case (Some t)
  then show ?thesis
    using s classic_run.step_stopped[OF Some, of mode]
      profile_run.step_stopped[of "as_profile mode m" t] by auto
next
  case None
  have trm: "as_profile mode (m\<lparr>m_termination := t\<rparr>) = (as_profile mode m)\<lparr>pm_termination := t\<rparr>" for t
    by (simp add: as_profile_def)
  have cp: "pm_memory (as_profile mode m) ! preg_code_pointer (pm_registers (as_profile mode m)) =
      word_value (cell_of m (code_pointer (m_registers m)))"
    using embed_cell[OF wf wf_machineD(3)[OF wf]] by simp
  have live: "pm_termination (as_profile mode m) = None" using None by simp
  note closed = pstep_wf[OF embed_wf[OF wf, of mode] live, unfolded cp graphical_embed pdecoded_embed[OF wf]]
  show ?thesis
  proof (cases "word_is_graphical (cell_of m (code_pointer (m_registers m)))")
    case False
    then show ?thesis
      using s step_nongraphical[OF wf None False, of mode]
      by (auto simp: closed trm mode_profile_historical split: if_splits)
  next
    case True
    show ?thesis
    proof (cases "decoded_instruction mode m = Halt")
      case h: True
      then show ?thesis using s step_halt[OF wf None True h] True by (auto simp: closed trm)
    next
      case h: False
      obtain p where p: "plan m (decoded_instruction mode m) = Inr p" using plan_total[OF wf] by blast
      show ?thesis
        using s step_execute[OF wf None True h p] h True validate_encryption_wf[OF wf p, of mode]
          plan_embed(1)[OF wf p, of mode] pencryption_cell_embed[OF wf p, of mode]
          pcommitted_embed[OF wf p, of mode]
        by (auto simp: closed Let_def graphical_embed embed_registers_def split: ExecutionMode.splits if_splits)
    qed
  qed
qed

interpretation classic_in_profile: runner_embedding
  "step_in_mode mode" m_termination "run_loop_in_mode mode" "run_in_mode mode"
  pstep pm_termination prun_loop prun "as_profile mode" embed_error wf_machine
  for mode
  by unfold_locales (auto intro: step_wf embed_step_in_mode)

subsection \<open>Loading agrees\<close>

lemma pfill_loop_embed:
  "2 \<le> length ws \<Longrightarrow> older = ws ! (length ws - 2) \<Longrightarrow> previous = ws ! (length ws - 1) \<Longrightarrow>
    (\<forall>w \<in> set ws. wf_word w) \<Longrightarrow>
    pfill_loop 10 MEMORY_WORDS (map word_value ws) = Inr (map word_value (fill_loop ws older previous))"
proof (induction ws older previous rule: fill_loop.induct)
  case (1 ws older previous)
  show ?case
  proof (cases "length ws < MEMORY_WORDS")
    case False
    then show ?thesis by (subst pfill_loop.simps, subst fill_loop.simps) simp
  next
    case True
    define w where "w = word_crazy older previous"
    have wf: "wf_word older" "wf_word previous" using "1.prems" by simp_all
    have cra: "profile_crazy (word_value older) (word_value previous) 10 = word_value w"
      using wf by (simp add: w_def word_value_crazy profile_crazy_digits)
    have nth: "(ws @ [w]) ! (length (ws @ [w]) - 2) = previous" "(ws @ [w]) ! (length (ws @ [w]) - 1) = w"
      using "1.prems" by (auto simp: nth_append)
    have "pfill_loop 10 MEMORY_WORDS (map word_value (ws @ [w])) =
        Inr (map word_value (fill_loop (ws @ [w]) previous w))"
      unfolding w_def
      by (rule "1.IH"[OF True refl]) (use "1.prems" nth wf in \<open>auto simp: w_def wf_word_crazy\<close>)
    moreover have "fill_loop ws older previous = fill_loop (ws @ [w]) previous w"
      using True by (subst fill_loop.simps) (simp add: w_def Let_def)
    moreover have "pfill_loop 10 MEMORY_WORDS (map word_value ws) =
        pfill_loop 10 MEMORY_WORDS (map word_value (ws @ [w]))"
      using True "1.prems" cra by (subst pfill_loop.simps) simp
    ultimately show ?thesis by simp
  qed
qed

lemma load_profile_embed:
  assumes l: "load source = Inr mem" and r: "\<And>n. reserve n"
  shows "load_profile reserve (canonical (mode_profile mode)) source = Inr (map word_value (mem_words mem))"
proof -
  obtain admitted where a: "collect_source source = Inr admitted" "fill_memory admitted = Inr mem"
    using l by (auto simp: load_def split: sum.splits)
  then have b: "admitted = source_bytes source" "2 \<le> length admitted" by (auto simp: collect_source_Inr)
  have adm: "admissible MEMORY_WORDS source" using l load_ok_admissible by blast
  define ws where "ws = map word_from_byte admitted"
  obtain previous older rest where rv: "rev ws = previous # older # rest"
    using a(2) by (auto simp: fill_memory_def ws_def Let_def split: list.splits)
  then have ws: "ws = rev rest @ [older, previous]"
    by (metis append.assoc append_Cons append_Nil rev.simps(2) rev_rev_ident)
  have "mem_words mem = fill_loop ws older previous"
    using a(2) rv by (auto simp: fill_memory_def ws_def[symmetric] memory_from_words_def Let_def
        split: if_splits)
  moreover have "pfill_loop 10 MEMORY_WORDS (map word_value ws) = Inr (map word_value (fill_loop ws older previous))"
  proof (rule pfill_loop_embed)
    show "2 \<le> length ws" using b by (simp add: ws_def)
    show "older = ws ! (length ws - 2)" "previous = ws ! (length ws - 1)"
      by (simp_all add: ws nth_append)
    show "\<forall>w \<in> set ws. wf_word w" by (simp add: ws_def)
  qed
  moreover have "map word_value ws = map unat (source_bytes source)"
    by (simp add: ws_def b word_from_byte_def)
  moreover have "admit_profile_source source MEMORY_WORDS = Inr (map unat (source_bytes source))"
    using adm by (simp add: admit_profile_source_Inr MEMORY_WORDS_def U32_MAX_def)
  ultimately show ?thesis by (simp add: load_profile_def Let_def r)
qed

lemma from_source_embed:
  assumes len: "length source \<le> U64_MAX" and r: "\<And>n. reserve n"
  shows "pfrom_source reserve (mode_profile mode) source input = Inr pm \<longleftrightarrow>
    (\<exists>m. from_source source input = Inr m \<and> pm = as_profile mode m)"
proof -
  have cap: "preflight_profile (mode_profile mode) n SAFE_RUST_PROFILED = Inr () \<longleftrightarrow> n \<le> MEMORY_WORDS" for n
    using preflight_profile_profiled[OF mode_profile_wf[of mode]]
      mode_profile_geometry(2)[of mode] by (simp add: canonical_def)
  have req: "source_word_requirement source = length (source_bytes source)"
    by (rule source_word_requirement_length[OF len])
  have init: "as_profile mode (machine_new mem input) =
      \<lparr>pm_geometry = canonical (mode_profile mode), pm_input = input, pm_input_cursor = 0,
       pm_memory = map word_value (mem_words mem), pm_output = [], pm_profile = mode_profile mode,
       pm_registers = profile_registers_default, pm_termination = None\<rparr>" for mem
    by (simp add: as_profile_def machine_new_def with_registers_def embed_registers_def
        registers_default_def profile_registers_default_def word_ZERO_def)
  show ?thesis
  proof (cases "load source")
    case (Inr mem)
    then have "length (source_bytes source) \<le> MEMORY_WORDS" using load_ok_iff[of source] by blast
    then have "preflight_profile (mode_profile mode) (source_word_requirement source) SAFE_RUST_PROFILED = Inr ()"
      by (simp add: cap req)
    then show ?thesis
      using Inr load_profile_embed[OF Inr r, where mode = mode] init
      by (auto simp: pfrom_source_def from_source_def Let_def)
  next
    case (Inl e)
    then have "\<not> admissible MEMORY_WORDS source" using load_ok_admissible[of source] by auto
    then have "\<not> (\<exists>img. load_profile reserve (canonical (mode_profile mode)) source = Inr img)"
      using load_profile_ok_iff[OF canonical_wf[OF mode_profile_wf[of mode]], of reserve source] by simp
    then show ?thesis
      using Inl by (auto simp: pfrom_source_def from_source_def Let_def split: sum.splits)
  qed
qed

end
