(* ===== verification/ChunkedWord.thy ===== *)
theory ChunkedWord
  imports Instruction
begin

text \<open>
  \<open>contract/profile_word.rs\<close> with its constants from \<open>contract/semantic_width*.rs\<close>: profile words
  of any width, stored as little-endian base-243 chunks of which the top one may be narrower.
  A chunk is a number with the limits of \<open>u8\<close> written out; \<open>reserve n\<close> says whether the
  allocator can reserve \<open>n\<close> chunks. Each operation is shown to compute, on the number a word
  stands for, the reference operation at exactly that width.
\<close>

subsection \<open>Constants and chunk geometry\<close>

definition U8_MAX :: nat where "U8_MAX = 255"
definition PROFILE_WORD_CHUNK_TRITS :: usize where "PROFILE_WORD_CHUNK_TRITS = 5"
definition PROFILE_WORD_CHUNK_CARDINALITY :: u16 where "PROFILE_WORD_CHUNK_CARDINALITY = 243"
definition CHUNK_RADIX :: nat where "CHUNK_RADIX = 3"

datatype ChunkedProfileWordError =
    AllocationFailure usize
  | ChunkCount usize usize
  | ChunkValue usize nat nat
  | ProjectionWidth usize usize
  | RecurrencePhase nat
  | ValueOutsideWidth usize u64
  | WidthMismatch usize usize
  | ZeroWidth

record ChunkedProfileWord =
  cw_chunks :: "nat list"
  cw_trits :: usize

definition div_ceil :: "nat \<Rightarrow> nat \<Rightarrow> nat" where
  "div_ceil a b = (a + b - 1) div b"

definition checked_chunk_count :: "usize \<Rightarrow> ChunkedProfileWordError + usize" where
  "checked_chunk_count trits =
    (if trits = 0 then Err ZeroWidth else Ok (div_ceil trits PROFILE_WORD_CHUNK_TRITS))"

definition trit_weight :: "usize \<Rightarrow> nat" where
  "trit_weight exponent =
    (if exponent = 0 then 1 else if exponent = 1 then 3 else if exponent = 2 then 9
     else if exponent = 3 then 27 else 81)"

definition chunk_high_trit_weight :: nat where
  "chunk_high_trit_weight = trit_weight (PROFILE_WORD_CHUNK_TRITS - 1)"

definition chunk_maximum :: "usize \<Rightarrow> nat" where
  "chunk_maximum trits =
    (if trits = 1 then 2 else if trits = 2 then 8 else if trits = 3 then 26
     else if trits = 4 then 80 else 242)"

definition chunk_modulus :: "usize \<Rightarrow> u16" where
  "chunk_modulus trits =
    (if trits = 1 then 3 else if trits = 2 then 9 else if trits = 3 then 27
     else if trits = 4 then 81 else PROFILE_WORD_CHUNK_CARDINALITY)"

definition chunk_trits :: "usize \<Rightarrow> usize \<Rightarrow> usize" where
  "chunk_trits trits index =
    (let chunk_count = div_ceil trits PROFILE_WORD_CHUNK_TRITS
     in if index + 1 = chunk_count then
          (let tail = trits mod PROFILE_WORD_CHUNK_TRITS
           in if tail = 0 then PROFILE_WORD_CHUNK_TRITS else tail)
        else PROFILE_WORD_CHUNK_TRITS)"

definition crazy_chunk_at_width :: "nat \<Rightarrow> nat \<Rightarrow> usize \<Rightarrow> nat" where
  "crazy_chunk_at_width data accumulator trits =
    (let v = profile_crazy data accumulator (try_u8_or_0 trits);
         reduced = v mod chunk_modulus trits
     in try_u8_or_0 reduced)"

definition reserved_chunks ::
  "(usize \<Rightarrow> bool) \<Rightarrow> usize \<Rightarrow> ChunkedProfileWordError + nat list" where
  "reserved_chunks reserve required_chunks =
    (if reserve required_chunks then Ok [] else Err (AllocationFailure required_chunks))"

fun validate_chunks_loop :: "usize \<Rightarrow> usize \<Rightarrow> nat list \<Rightarrow> ChunkedProfileWordError + unit" where
  "validate_chunks_loop trits index [] = Inr ()"
| "validate_chunks_loop trits index (v # vs) =
    (let maximum = chunk_maximum (chunk_trits trits index)
     in if v > maximum then Inl (ChunkValue index maximum v)
        else validate_chunks_loop trits (index + 1) vs)"

definition validate_chunks :: "usize \<Rightarrow> nat list \<Rightarrow> ChunkedProfileWordError + unit" where
  "validate_chunks trits chunks = validate_chunks_loop trits 0 chunks"

subsection \<open>Constructors\<close>

definition chunked_from_chunks ::
  "usize \<Rightarrow> nat list \<Rightarrow> ChunkedProfileWordError + ChunkedProfileWord" where
  "chunked_from_chunks trits chunks =
    (case checked_chunk_count trits of
      Inl e \<Rightarrow> Inl e
    | Inr required \<Rightarrow>
        if length chunks \<noteq> required then Err (ChunkCount (length chunks) required)
        else map_ok (\<lambda>_. \<lparr>cw_chunks = chunks, cw_trits = trits\<rparr>) (validate_chunks trits chunks))"

definition chunked_eof :: "(usize \<Rightarrow> bool) \<Rightarrow> usize \<Rightarrow> ChunkedProfileWordError + ChunkedProfileWord" where
  "chunked_eof reserve trits =
    (case checked_chunk_count trits of
      Inl e \<Rightarrow> Inl e
    | Inr chunk_count \<Rightarrow>
      (case reserved_chunks reserve chunk_count of
        Inl e \<Rightarrow> Inl e
      | Inr chunks \<Rightarrow>
          Ok \<lparr>cw_chunks = chunks @ map (\<lambda>index. chunk_maximum (chunk_trits trits index)) [0..<chunk_count],
              cw_trits = trits\<rparr>))"

definition chunked_zero :: "(usize \<Rightarrow> bool) \<Rightarrow> usize \<Rightarrow> ChunkedProfileWordError + ChunkedProfileWord" where
  "chunked_zero reserve trits =
    (case checked_chunk_count trits of
      Inl e \<Rightarrow> Inl e
    | Inr chunk_count \<Rightarrow>
      (case reserved_chunks reserve chunk_count of
        Inl e \<Rightarrow> Inl e
      | Inr chunks \<Rightarrow>
          Ok \<lparr>cw_chunks = chunks @ replicate chunk_count 0, cw_trits = trits\<rparr>))"

text \<open>The loop of \<open>from_u64\<close>: \<open>n\<close> indices from \<open>index\<close> are left.\<close>

fun from_u64_loop :: "nat \<Rightarrow> usize \<Rightarrow> usize \<Rightarrow> u64 \<Rightarrow> nat list \<Rightarrow> nat list \<times> u64" where
  "from_u64_loop 0 trits index remaining chunks = (chunks, remaining)"
| "from_u64_loop (Suc n) trits index remaining chunks =
    (let modulus = chunk_modulus (chunk_trits trits index);
         chunk = remaining mod modulus
     in from_u64_loop n trits (index + 1) (remaining div modulus) (chunks @ [try_u8_or_0 chunk]))"

definition chunked_from_u64 ::
  "(usize \<Rightarrow> bool) \<Rightarrow> usize \<Rightarrow> u64 \<Rightarrow> ChunkedProfileWordError + ChunkedProfileWord" where
  "chunked_from_u64 reserve trits v =
    (case checked_chunk_count trits of
      Inl e \<Rightarrow> Inl e
    | Inr chunk_count \<Rightarrow>
      (case reserved_chunks reserve chunk_count of
        Inl e \<Rightarrow> Inl e
      | Inr chunks \<Rightarrow>
        (let (chunks', remaining) = from_u64_loop chunk_count trits 0 v chunks
         in if remaining \<noteq> 0 then Err (ValueOutsideWidth trits v)
            else Ok \<lparr>cw_chunks = chunks', cw_trits = trits\<rparr>)))"

subsection \<open>Operations\<close>

fun crazy_chunks_loop :: "usize \<Rightarrow> usize \<Rightarrow> nat list \<Rightarrow> nat list \<Rightarrow> nat list \<Rightarrow> nat list" where
  "crazy_chunks_loop trits index (d # ds) (a # as) chunks =
    crazy_chunks_loop trits (index + 1) ds as
      (chunks @ [crazy_chunk_at_width d a (chunk_trits trits index)])"
| "crazy_chunks_loop trits index _ _ chunks = chunks"

definition chunked_crazy ::
  "(usize \<Rightarrow> bool) \<Rightarrow> ChunkedProfileWord \<Rightarrow> ChunkedProfileWord \<Rightarrow>
    ChunkedProfileWordError + ChunkedProfileWord" where
  "chunked_crazy reserve self accumulator =
    (if cw_trits self \<noteq> cw_trits accumulator
     then Err (WidthMismatch (cw_trits accumulator) (cw_trits self))
     else
       (case reserved_chunks reserve (length (cw_chunks self)) of
         Inl e \<Rightarrow> Inl e
       | Inr chunks \<Rightarrow>
           Ok \<lparr>cw_chunks =
                 crazy_chunks_loop (cw_trits self) 0 (cw_chunks self) (cw_chunks accumulator) chunks,
               cw_trits = cw_trits self\<rparr>))"

text \<open>The residue of the chunks read from the top: Horner's rule with a reduction per chunk.\<close>

definition chunked_residue :: "ChunkedProfileWord \<Rightarrow> u16 \<Rightarrow> u16 option" where
  "chunked_residue self modulus =
    (if modulus = 0 then None
     else
       (let result = foldl (\<lambda>result chunk.
            sat_add U32_MAX (sat_mul U32_MAX result PROFILE_WORD_CHUNK_CARDINALITY) chunk mod modulus)
            0 (rev (cw_chunks self))
        in if result \<le> U16_MAX then Some result else None))"

definition chunked_low_byte :: "ChunkedProfileWord \<Rightarrow> nat" where
  "chunked_low_byte self =
    (case chunked_residue self 256 of
      None \<Rightarrow> 0
    | Some v \<Rightarrow> if v \<le> U8_MAX then v else 0)"

definition chunked_project ::
  "(usize \<Rightarrow> bool) \<Rightarrow> ChunkedProfileWord \<Rightarrow> usize \<Rightarrow> ChunkedProfileWordError + ChunkedProfileWord" where
  "chunked_project reserve self target_trits =
    (if target_trits = 0 \<or> target_trits > cw_trits self
     then Err (ProjectionWidth (cw_trits self) target_trits)
     else
       (let target_chunks = div_ceil target_trits PROFILE_WORD_CHUNK_TRITS
        in if target_chunks > length (cw_chunks self)
           then Err (ProjectionWidth (cw_trits self) target_trits)
           else
             (case reserved_chunks reserve target_chunks of
               Inl e \<Rightarrow> Inl e
             | Inr chunks \<Rightarrow>
               (let chunks' = chunks @ take target_chunks (cw_chunks self);
                    top = target_chunks - 1;
                    modulus = chunk_modulus (chunk_trits target_trits top)
                in Ok \<lparr>cw_chunks =
                         (case get chunks' top of
                           Some v \<Rightarrow> chunks'[top := try_u8_or_0 (v mod modulus)]
                         | None \<Rightarrow> chunks'),
                       cw_trits = target_trits\<rparr>))))"

text \<open>One pass of the rotate loop: chunk \<open>index\<close> takes the low trit of the chunk above.\<close>

definition rotate_shifted :: "ChunkedProfileWord \<Rightarrow> usize \<Rightarrow> nat" where
  "rotate_shifted self index =
    (let current = (case get (cw_chunks self) index of Some v \<Rightarrow> v | None \<Rightarrow> 0);
         higher_low = (case get (cw_chunks self) (index + 1) of Some v \<Rightarrow> v | None \<Rightarrow> 0) mod CHUNK_RADIX
     in sat_add U8_MAX (current div CHUNK_RADIX) (sat_mul U8_MAX higher_low chunk_high_trit_weight))"

definition chunked_rotate ::
  "(usize \<Rightarrow> bool) \<Rightarrow> ChunkedProfileWord \<Rightarrow> ChunkedProfileWordError + ChunkedProfileWord" where
  "chunked_rotate reserve self =
    (let chunk_count = length (cw_chunks self)
     in case reserved_chunks reserve chunk_count of
          Inl e \<Rightarrow> Inl e
        | Inr _ \<Rightarrow>
          (let chunks = map (rotate_shifted self) [0..<chunk_count];
               low_trit = (case get (cw_chunks self) 0 of Some v \<Rightarrow> v | None \<Rightarrow> 0) mod CHUNK_RADIX;
               top = chunk_count - 1;
               high_weight = trit_weight (chunk_trits (cw_trits self) top - 1)
           in Ok \<lparr>cw_chunks =
                    (case get chunks top of
                      Some v \<Rightarrow> chunks[top := sat_add U8_MAX v (sat_mul U8_MAX low_trit high_weight)]
                    | None \<Rightarrow> chunks),
                  cw_trits = cw_trits self\<rparr>))"

text \<open>The carry loop over the chunks from \<open>index\<close> on; it stops at the first chunk without carry.\<close>

fun successor_loop :: "usize \<Rightarrow> usize \<Rightarrow> bool \<Rightarrow> nat list \<Rightarrow> nat list" where
  "successor_loop trits index carry [] = []"
| "successor_loop trits index carry (chunk # chunks) =
    (if \<not> carry then chunk # chunks
     else
       (let modulus = chunk_modulus (chunk_trits trits index);
            current = sat_add U16_MAX chunk 1;
            carry' = (current \<ge> modulus)
        in (if carry' then 0 else try_u8_or_0 current) # successor_loop trits (index + 1) carry' chunks))"

definition chunked_successor ::
  "(usize \<Rightarrow> bool) \<Rightarrow> ChunkedProfileWord \<Rightarrow> ChunkedProfileWordError + ChunkedProfileWord" where
  "chunked_successor reserve self =
    (case reserved_chunks reserve (length (cw_chunks self)) of
      Inl e \<Rightarrow> Inl e
    | Inr chunks \<Rightarrow>
        Ok \<lparr>cw_chunks = successor_loop (cw_trits self) 0 True (chunks @ cw_chunks self),
            cw_trits = cw_trits self\<rparr>)"

fun to_u64_loop :: "u64 \<Rightarrow> nat list \<Rightarrow> u64 option" where
  "to_u64_loop result [] = Some result"
| "to_u64_loop result (chunk # chunks) =
    (case checked_mul U64_MAX result PROFILE_WORD_CHUNK_CARDINALITY of
      None \<Rightarrow> None
    | Some scaled \<Rightarrow>
      (case checked_add U64_MAX scaled chunk of
        None \<Rightarrow> None
      | Some result2 \<Rightarrow> to_u64_loop result2 chunks))"

definition chunked_to_u64 :: "ChunkedProfileWord \<Rightarrow> u64 option" where
  "chunked_to_u64 self = to_u64_loop 0 (rev (cw_chunks self))"

definition chunked_to_u32 :: "ChunkedProfileWord \<Rightarrow> u32 option" where
  "chunked_to_u32 self =
    (case chunked_to_u64 self of
      None \<Rightarrow> None
    | Some v \<Rightarrow> if v \<le> U32_MAX then Some v else None)"

subsection \<open>The generated recurrence\<close>

text \<open>The \<open>for\<close> loop of \<open>recurrence_cell\<close>, with the number of transitions it has left.\<close>

fun recurrence_loop ::
  "(usize \<Rightarrow> bool) \<Rightarrow> nat \<Rightarrow> ChunkedProfileWord \<Rightarrow> ChunkedProfileWord \<Rightarrow>
    ChunkedProfileWordError + ChunkedProfileWord" where
  "recurrence_loop reserve 0 older_state previous_state = Inr previous_state"
| "recurrence_loop reserve (Suc n) older_state previous_state =
    (case chunked_crazy reserve older_state previous_state of
      Inl e \<Rightarrow> Inl e
    | Inr next_state \<Rightarrow> recurrence_loop reserve n previous_state next_state)"

definition recurrence_cell ::
  "(usize \<Rightarrow> bool) \<Rightarrow> ChunkedProfileWord \<Rightarrow> ChunkedProfileWord \<Rightarrow> nat \<Rightarrow>
    ChunkedProfileWordError + ChunkedProfileWord" where
  "recurrence_cell reserve older previous positive_steps_mod_six =
    (if positive_steps_mod_six > 5 then Err (RecurrencePhase positive_steps_mod_six)
     else if cw_trits older \<noteq> cw_trits previous
     then Err (WidthMismatch (cw_trits previous) (cw_trits older))
     else
       (let transitions = (if positive_steps_mod_six = 0 then 6 else positive_steps_mod_six)
        in case chunked_crazy reserve older previous of
             Inl e \<Rightarrow> Inl e
           | Inr older_state \<Rightarrow>
               if transitions = 1 then Ok older_state
               else
                 (case chunked_crazy reserve previous older_state of
                   Inl e \<Rightarrow> Inl e
                 | Inr previous_state \<Rightarrow>
                     recurrence_loop reserve (transitions - 2) older_state previous_state)))"

subsection \<open>Decode and encrypt at any width\<close>

definition decode_chunked_profile_instruction ::
  "ChunkedProfileWord \<Rightarrow> ChunkedProfileWord \<Rightarrow> ChunkedProfileWordError + u8 option" where
  "decode_chunked_profile_instruction cell pointer =
    (if cw_trits cell \<noteq> cw_trits pointer then Err (WidthMismatch (cw_trits pointer) (cw_trits cell))
     else
       (case chunked_to_u32 cell of
         None \<Rightarrow> Ok None
       | Some cell_value \<Rightarrow>
         (case chunked_residue pointer 94 of
           None \<Rightarrow> Ok None
         | Some phase \<Rightarrow> Ok (decode_profile_value cell_value phase))))"

definition encrypt_chunked_profile_cell ::
  "(usize \<Rightarrow> bool) \<Rightarrow> ChunkedProfileWord \<Rightarrow> ChunkedProfileWordError + ChunkedProfileWord option" where
  "encrypt_chunked_profile_cell reserve cell =
    (case Option.bind (chunked_to_u32 cell) encrypt_profile_value of
      None \<Rightarrow> Ok None
    | Some encrypted \<Rightarrow> map_ok Some (chunked_from_u64 reserve (cw_trits cell) encrypted))"

subsection \<open>The number a word stands for\<close>

fun cval :: "nat list \<Rightarrow> nat" where
  "cval [] = 0"
| "cval (c # cs) = c + 243 * cval cs"

definition word_number :: "ChunkedProfileWord \<Rightarrow> nat" where
  "word_number w = cval (cw_chunks w)"

definition wf_chunked :: "ChunkedProfileWord \<Rightarrow> bool" where
  "wf_chunked w \<longleftrightarrow> 0 < cw_trits w \<and> length (cw_chunks w) = div_ceil (cw_trits w) 5 \<and>
    (\<forall>i < length (cw_chunks w). cw_chunks w ! i < 3 ^ chunk_trits (cw_trits w) i)"

lemma less_div_ceil [simp]: "i < div_ceil t 5 \<longleftrightarrow> 5 * i < t"
  unfolding div_ceil_def by linarith

lemma div_ceil_covers [simp]: "\<not> 5 * div_ceil t 5 < t"
  by (simp flip: less_div_ceil)

lemma div_ceil_pos [simp]: "0 < div_ceil t 5 \<longleftrightarrow> 0 < t"
  unfolding div_ceil_def by linarith

lemma chunk_trits_eq: "5 * i < t \<Longrightarrow> chunk_trits t i = min 5 (t - 5 * i)"
proof -
  assume i: "5 * i < t"
  define c where "c = div_ceil t 5"
  have c: "5 * c < t + 5" "t \<le> 5 * c" using i unfolding c_def div_ceil_def by linarith+
  show ?thesis
  proof (cases "Suc i = c")
    case True
    then have r: "t = 5 * i + (t - 5 * i)" "t - 5 * i \<le> 5" using c i by linarith+
    have "t mod 5 = (t - 5 * i) mod 5" by (subst r(1)) simp
    moreover have "(t - 5 * i) mod 5 = (if t - 5 * i = 5 then 0 else t - 5 * i)"
      using r(2) i by (auto simp: le_less)
    ultimately show ?thesis
      using True r(2) i by (simp add: chunk_trits_def PROFILE_WORD_CHUNK_TRITS_def c_def Let_def)
  next
    case False
    then have "Suc i < c" using i c by linarith
    then have "5 * Suc i < t" by (simp add: c_def)
    then show ?thesis
      using False by (simp add: chunk_trits_def PROFILE_WORD_CHUNK_TRITS_def c_def Let_def)
  qed
qed

lemma digit_in_chunk: "j < t \<Longrightarrow> j mod 5 < chunk_trits t (j div 5)"
proof -
  assume j: "j < t"
  have d: "j = 5 * (j div 5) + j mod 5" "j mod 5 < 5" by simp_all
  then have "5 * (j div 5) < t" "j mod 5 < t - 5 * (j div 5)" using j by linarith+
  then show ?thesis using d(2) by (simp add: chunk_trits_eq)
qed

lemma width_cases: "1 \<le> w \<Longrightarrow> w \<le> 5 \<Longrightarrow> w = 1 \<or> w = 2 \<or> w = 3 \<or> w = 4 \<or> w = (5::nat)"
  by linarith

lemma chunk_modulus_eq: "1 \<le> w \<Longrightarrow> w \<le> 5 \<Longrightarrow> chunk_modulus w = 3 ^ w"
  using width_cases[of w] by (auto simp: chunk_modulus_def PROFILE_WORD_CHUNK_CARDINALITY_def)

lemma chunk_maximum_eq: "1 \<le> w \<Longrightarrow> w \<le> 5 \<Longrightarrow> Suc (chunk_maximum w) = 3 ^ w"
  using width_cases[of w] by (auto simp: chunk_maximum_def)

lemma trit_weight_eq: "k \<le> 4 \<Longrightarrow> trit_weight k = 3 ^ k"
proof -
  assume "k \<le> 4"
  then have "k = 0 \<or> k = 1 \<or> k = 2 \<or> k = 3 \<or> k = 4" by linarith
  then show ?thesis by (auto simp: trit_weight_def)
qed

lemma chunk_trits_bounds: "5 * i < t \<Longrightarrow> 1 \<le> chunk_trits t i \<and> chunk_trits t i \<le> 5"
  by (simp add: chunk_trits_eq)

lemma pow3_le_243: "w \<le> 5 \<Longrightarrow> (3::nat) ^ w \<le> 243"
  using pow3_le_mono[of w 5] by simp

lemma wf_chunk_lt:
  assumes "wf_chunked w" and "c \<in> set (cw_chunks w)"
  shows "c < 243"
proof -
  obtain i where i: "i < length (cw_chunks w)" "c = cw_chunks w ! i"
    using assms(2) by (auto simp: in_set_conv_nth)
  then have "5 * i < cw_trits w" using assms(1) by (simp add: wf_chunked_def)
  then have "(3::nat) ^ chunk_trits (cw_trits w) i \<le> 243"
    using chunk_trits_bounds pow3_le_243 by blast
  then show ?thesis using assms(1) i by (auto simp: wf_chunked_def intro: less_le_trans)
qed

lemma trit_cval:
  "\<forall>c \<in> set cs. c < 243 \<Longrightarrow>
    trit j (cval cs) = (if j div 5 < length cs then trit (j mod 5) (cs ! (j div 5)) else 0)"
proof (induction cs arbitrary: j)
  case Nil
  then show ?case by (simp add: trit_def)
next
  case (Cons c cs)
  have c: "c < 3 ^ 5" using Cons.prems by simp
  show ?case
  proof (cases "j < 5")
    case True
    have "trit j (c + 243 * cval cs) = trit j ((c + 3 ^ 5 * cval cs) mod 3 ^ 5)"
      using trit_mod[OF True, of "c + 3 ^ 5 * cval cs"] by simp
    also have "(c + 3 ^ 5 * cval cs) mod 3 ^ 5 = c" using c by simp
    finally show ?thesis using True by simp
  next
    case False
    then obtain k where k: "j = 5 + k" using le_Suc_ex[of 5 j] by auto
    have "(c + 3 ^ 5 * cval cs) div 3 ^ 5 = cval cs" using c by simp
    then have "trit j (c + 243 * cval cs) = trit k (cval cs)"
      using trit_div[of k "c + 3 ^ 5 * cval cs" 5] by (simp add: k)
    moreover have "j div 5 = Suc (k div 5)" "j mod 5 = k mod 5" by (simp_all add: k)
    ultimately show ?thesis using Cons by (simp add: k)
  qed
qed

lemma lt_pow3I:
  assumes "\<And>k. n \<le> k \<Longrightarrow> trit k v = 0"
  shows "v < 3 ^ n"
proof -
  have big: "v < 3 ^ (n + v)"
    using less_exp[of v] power_mono[of "2::nat" 3 v] power_increasing[of v "n + v" "3::nat"] by linarith
  have "v mod 3 ^ n = v"
  proof (rule trit_eqI[where n = "n + v"])
    show "v < 3 ^ (n + v)" by (rule big)
    then show "v mod 3 ^ n < 3 ^ (n + v)" using mod_less_eq_dividend le_less_trans by blast
    show "trit k (v mod 3 ^ n) = trit k v" for k
    proof (cases "k < n")
      case True
      then show ?thesis by (rule trit_mod)
    next
      case False
      then have "trit k (v mod 3 ^ n) = 0" by (intro trit_ge[where m = n]) simp_all
      then show ?thesis using assms[of k] False by simp
    qed
  qed
  then show ?thesis by (metis mod_less_divisor zero_less_numeral zero_less_power)
qed

lemma trit_word_number:
  assumes "wf_chunked w" and "j < cw_trits w"
  shows "trit j (word_number w) = trit (j mod 5) (cw_chunks w ! (j div 5))"
proof -
  have "j div 5 < length (cw_chunks w)" using assms by (simp add: wf_chunked_def)
  then show ?thesis
    using trit_cval[of "cw_chunks w" j] wf_chunk_lt[OF assms(1)] by (simp add: word_number_def)
qed

lemma word_number_lt:
  assumes wf: "wf_chunked w"
  shows "word_number w < 3 ^ cw_trits w"
proof (rule lt_pow3I)
  fix j
  assume j: "cw_trits w \<le> j"
  show "trit j (word_number w) = 0"
  proof (cases "j div 5 < length (cw_chunks w)")
    case False
    then show ?thesis using trit_cval[of "cw_chunks w" j] wf_chunk_lt[OF wf] by (simp add: word_number_def)
  next
    case True
    then have t: "5 * (j div 5) < cw_trits w" using wf by (simp add: wf_chunked_def)
    have "j mod 5 < 5" by simp
    then have "chunk_trits (cw_trits w) (j div 5) \<le> j mod 5"
      using j unfolding chunk_trits_eq[OF t] by presburger
    moreover have "cw_chunks w ! (j div 5) < 3 ^ chunk_trits (cw_trits w) (j div 5)"
      using wf True by (simp add: wf_chunked_def)
    ultimately have "trit (j mod 5) (cw_chunks w ! (j div 5)) = 0" by (intro trit_ge)
    then show ?thesis
      using trit_cval[of "cw_chunks w" j] wf_chunk_lt[OF wf] True by (simp add: word_number_def)
  qed
qed

text \<open>A word of width \<open>t\<close> is \<open>v\<close> when its trits are.\<close>

lemma word_number_eqI:
  assumes "wf_chunked w" and "v < 3 ^ cw_trits w"
    and "\<And>j. j < cw_trits w \<Longrightarrow> trit (j mod 5) (cw_chunks w ! (j div 5)) = trit j v"
  shows "word_number w = v"
  by (rule trit_eqI[OF word_number_lt[OF assms(1)] assms(2)])
    (simp add: trit_word_number[OF assms(1)] assms(3))

lemma wf_chunkedI:
  assumes "0 < t" and "length cs = div_ceil t 5"
    and "\<And>i. i < div_ceil t 5 \<Longrightarrow> cs ! i < 3 ^ chunk_trits t i"
  shows "wf_chunked \<lparr>cw_chunks = cs, cw_trits = t\<rparr>"
  using assms by (simp add: wf_chunked_def)

subsection \<open>Every operation computes the reference at the width of the word\<close>

lemma crazy_chunk_at_width_eq:
  "1 \<le> w \<Longrightarrow> w \<le> 5 \<Longrightarrow> crazy_chunk_at_width d a w = crazy_digits w d a"
proof -
  assume w: "1 \<le> w" "w \<le> 5"
  have "crazy_digits w d a < 3 ^ w" by (rule crazy_digits_lt)
  moreover have "(3::nat) ^ w \<le> 243" by (rule pow3_le_243[OF w(2)])
  ultimately show ?thesis
    using w by (simp add: crazy_chunk_at_width_def Let_def profile_crazy_digits chunk_modulus_eq)
qed

lemma crazy_chunks_loop_eq:
  "length ds = length as \<Longrightarrow>
    crazy_chunks_loop t k ds as cs =
      cs @ map (\<lambda>i. crazy_chunk_at_width (ds ! i) (as ! i) (chunk_trits t (k + i))) [0..<length ds]"
proof (induction t k ds as cs rule: crazy_chunks_loop.induct)
  case (1 t k d ds a as cs)
  have "map (\<lambda>i. crazy_chunk_at_width ((d # ds) ! i) ((a # as) ! i) (chunk_trits t (k + i))) [0..<length (d # ds)] =
      crazy_chunk_at_width d a (chunk_trits t k) #
      map (\<lambda>i. crazy_chunk_at_width (ds ! i) (as ! i) (chunk_trits t (Suc k + i))) [0..<length ds]"
    by (simp add: upt_conv_Cons map_Suc_upt[symmetric] del: upt_Suc)
  then show ?case using 1 by simp
qed auto

lemma chunked_crazy_number:
  assumes wf: "wf_chunked d" "wf_chunked a" and t: "cw_trits d = cw_trits a"
    and r: "reserve (length (cw_chunks d))"
  obtains w where "chunked_crazy reserve d a = Inr w" "wf_chunked w" "cw_trits w = cw_trits d"
    "word_number w = crazy_digits (cw_trits d) (word_number d) (word_number a)"
proof -
  define cs where "cs = map (\<lambda>i. crazy_chunk_at_width (cw_chunks d ! i) (cw_chunks a ! i)
    (chunk_trits (cw_trits d) i)) [0..<length (cw_chunks d)]"
  define w where "w = \<lparr>cw_chunks = cs, cw_trits = cw_trits d\<rparr>"
  have len: "length (cw_chunks d) = div_ceil (cw_trits d) 5" "length (cw_chunks a) = length (cw_chunks d)"
    using wf t by (simp_all add: wf_chunked_def)
  have bounds: "1 \<le> chunk_trits (cw_trits d) i \<and> chunk_trits (cw_trits d) i \<le> 5"
    if "i < length (cw_chunks d)" for i
    using that len by (intro chunk_trits_bounds) simp
  have nth: "cs ! i = crazy_digits (chunk_trits (cw_trits d) i) (cw_chunks d ! i) (cw_chunks a ! i)"
    if "i < length (cw_chunks d)" for i
    using that bounds[OF that] by (simp add: cs_def crazy_chunk_at_width_eq)
  have wfw: "wf_chunked w"
    using wf(1) len(1) nth unfolding w_def
    by (intro wf_chunkedI) (simp_all add: wf_chunked_def crazy_digits_lt, simp add: cs_def)
  have "word_number w = crazy_digits (cw_trits d) (word_number d) (word_number a)"
  proof (rule word_number_eqI[OF wfw])
    show "crazy_digits (cw_trits d) (word_number d) (word_number a) < 3 ^ cw_trits w"
      by (simp add: w_def crazy_digits_lt)
    fix j
    assume "j < cw_trits w"
    then have j: "j < cw_trits d" by (simp add: w_def)
    then have i: "j div 5 < length (cw_chunks d)" "5 * (j div 5) < cw_trits d" using len by simp_all
    have "j mod 5 < chunk_trits (cw_trits d) (j div 5)" by (rule digit_in_chunk[OF j])
    then show "trit (j mod 5) (cw_chunks w ! (j div 5)) =
        trit j (crazy_digits (cw_trits d) (word_number d) (word_number a))"
      using i(1) j t by (simp add: w_def nth trit_crazy_digits trit_word_number[OF wf(1)]
          trit_word_number[OF wf(2)])
  qed
  moreover have "chunked_crazy reserve d a = Inr w"
    using t r len by (simp add: chunked_crazy_def reserved_chunks_def crazy_chunks_loop_eq w_def cs_def)
  ultimately show ?thesis using that wfw by (simp add: w_def)
qed

lemma foldr_residue:
  assumes "0 < m" and "m \<le> U16_MAX" and "\<forall>c \<in> set cs. c < 243"
  shows "foldl (\<lambda>result chunk.
    sat_add U32_MAX (sat_mul U32_MAX result PROFILE_WORD_CHUNK_CARDINALITY) chunk mod m) 0 (rev cs) = cval cs mod m"
  using assms(3)
proof (induction cs)
  case Nil
  then show ?case by simp
next
  case (Cons c cs)
  have "cval cs mod m \<le> U16_MAX" using assms(1,2) by (meson le_trans mod_less_divisor less_imp_le)
  then have b: "cval cs mod m * 243 + c \<le> U32_MAX"
    using Cons.prems by (simp add: U16_MAX_def U32_MAX_def)
  then have b': "cval cs mod m * 243 \<le> U32_MAX" by simp
  have "(cval cs mod m * 243 + c) mod m = (cval cs * 243 + c) mod m"
    by (simp only: mod_mult_left_eq mod_add_left_eq[symmetric, of "cval cs mod m * 243"])
      (simp only: mod_add_left_eq)
  then show ?case
    using Cons b b' by (simp add: PROFILE_WORD_CHUNK_CARDINALITY_def mult.commute add.commute)
qed

lemma chunked_residue_number:
  "wf_chunked w \<Longrightarrow> 0 < m \<Longrightarrow> m \<le> U16_MAX \<Longrightarrow> chunked_residue w m = Some (word_number w mod m)"
proof -
  assume w: "wf_chunked w" and m: "0 < m" "m \<le> U16_MAX"
  have "word_number w mod m \<le> U16_MAX" using m by (meson le_trans mod_less_divisor less_imp_le)
  then show ?thesis
    using foldr_residue[OF m, of "cw_chunks w"] wf_chunk_lt[OF w] m
    by (simp add: chunked_residue_def word_number_def)
qed

lemma chunked_low_byte_number: "wf_chunked w \<Longrightarrow> chunked_low_byte w = word_number w mod 256"
  using mod_less_divisor[of 256 "word_number w"]
  by (simp add: chunked_low_byte_def chunked_residue_number U16_MAX_def U8_MAX_def)

subsection \<open>Rotation\<close>

lemma top_chunk:
  assumes "0 < t"
  shows "5 * (div_ceil t 5 - 1) < t" "t \<le> 5 * (div_ceil t 5 - 1) + 5"
    "chunk_trits t (div_ceil t 5 - 1) = t - 5 * (div_ceil t 5 - 1)"
proof -
  show b: "5 * (div_ceil t 5 - 1) < t" "t \<le> 5 * (div_ceil t 5 - 1) + 5"
    using assms unfolding div_ceil_def by linarith+
  show "chunk_trits t (div_ceil t 5 - 1) = t - 5 * (div_ceil t 5 - 1)"
    using b by (simp add: chunk_trits_eq)
qed

lemma full_chunk: "5 * i + 5 < t \<Longrightarrow> chunk_trits t i = 5"
  by (simp add: chunk_trits_eq)

lemma trit_add_high:
  assumes "a < 3 ^ m" and "k < m"
  shows "trit k (a + b * 3 ^ m) = trit k a"
  using trit_mod[OF assms(2), of "a + b * 3 ^ m"] assms(1) by simp

lemma trit_add_top: "a < 3 ^ m \<Longrightarrow> b < 3 \<Longrightarrow> trit m (a + b * 3 ^ m) = b"
  by (simp add: trit_def)

text \<open>A chunk of width \<open>m + 1\<close> shifted down with a new top trit.\<close>

lemma shifted_chunk:
  assumes "c < 3 ^ Suc m" and "b < 3" and "m \<le> 4"
  shows "sat_add U8_MAX (c div 3) (sat_mul U8_MAX b (3 ^ m)) = c div 3 + b * 3 ^ m"
    and "c div 3 + b * 3 ^ m < 3 ^ Suc m"
    and "k < m \<Longrightarrow> trit k (c div 3 + b * 3 ^ m) = trit (Suc k) c"
    and "trit m (c div 3 + b * 3 ^ m) = b"
proof -
  have c: "c div 3 < 3 ^ m" by (rule div3_lt_power[OF assms(1)])
  have "b * 3 ^ m \<le> 2 * 3 ^ m" using assms(2) by (intro mult_le_mono1) simp
  then show lt: "c div 3 + b * 3 ^ m < 3 ^ Suc m" using c unfolding power_Suc by linarith
  have "(3::nat) ^ Suc m \<le> 243" using pow3_le_243[of "Suc m"] assms(3) by simp
  then have "c div 3 + b * 3 ^ m \<le> U8_MAX" "b * 3 ^ m \<le> U8_MAX" using lt by (simp_all add: U8_MAX_def)
  then show "sat_add U8_MAX (c div 3) (sat_mul U8_MAX b (3 ^ m)) = c div 3 + b * 3 ^ m" by simp
  show "k < m \<Longrightarrow> trit k (c div 3 + b * 3 ^ m) = trit (Suc k) c"
    using trit_add_high[OF c] by (simp add: trit_Suc)
  show "trit m (c div 3 + b * 3 ^ m) = b" by (rule trit_add_top[OF c assms(2)])
qed

lemma wf_get_chunk: "wf_chunked w \<Longrightarrow>
    (case get (cw_chunks w) i of Some v \<Rightarrow> v | None \<Rightarrow> 0) =
      (if 5 * i < cw_trits w then cw_chunks w ! i else 0)"
  by (auto simp: wf_chunked_def get_def)

lemma rotate_shifted_eq:
  assumes wf: "wf_chunked w" and i: "5 * i < cw_trits w"
  shows "rotate_shifted w i = cw_chunks w ! i div 3 +
    (if 5 * i + 5 < cw_trits w then cw_chunks w ! (i + 1) mod 3 else 0) * 3 ^ 4"
proof -
  have "i < length (cw_chunks w)" using wf i by (simp add: wf_chunked_def)
  then have "cw_chunks w ! i < 3 ^ Suc 4" using wf_chunk_lt[OF wf] by simp
  from shifted_chunk(1)[OF this, of "if 5 * i + 5 < cw_trits w then cw_chunks w ! (i + 1) mod 3 else 0"]
  show ?thesis
    using i by (cases "5 * i + 5 < cw_trits w") (simp_all add: rotate_shifted_def wf_get_chunk[OF wf]
        CHUNK_RADIX_def chunk_high_trit_weight_def PROFILE_WORD_CHUNK_TRITS_def trit_weight_def Let_def)
qed

lemma chunked_rotate_number:
  assumes wf: "wf_chunked w" and r: "reserve (length (cw_chunks w))"
  obtains u where "chunked_rotate reserve w = Inr u" "wf_chunked u" "cw_trits u = cw_trits w"
    "word_number u = rotate_digits (cw_trits w) (word_number w)"
proof -
  define t where "t = cw_trits w"
  define top where "top = div_ceil t 5 - 1"
  define wt where "wt = t - 5 * top"
  have t: "0 < t" and len: "length (cw_chunks w) = div_ceil t 5"
    using wf by (simp_all add: wf_chunked_def t_def)
  have top: "5 * top < t" "t \<le> 5 * top + 5" "chunk_trits t top = wt"
    using top_chunk[OF t] by (simp_all add: top_def wt_def)
  have wt: "wt = Suc (wt - 1)" "wt - 1 \<le> 4" "1 \<le> wt" using top by (simp_all add: wt_def)
  define low where "low = cw_chunks w ! 0 mod 3"
  have c_top: "cw_chunks w ! top < 3 ^ Suc (wt - 1)"
  proof -
    have "cw_chunks w ! top < 3 ^ chunk_trits t top"
      using wf top(1) len by (simp add: wf_chunked_def t_def[symmetric])
    then show ?thesis by (simp only: top(3) wt(1)[symmetric])
  qed
  note top_shift = shifted_chunk[OF c_top _ wt(2), of low]
  define cs where "cs = (map (rotate_shifted w) [0..<div_ceil t 5])
    [top := cw_chunks w ! top div 3 + low * 3 ^ (wt - 1)]"
  define u where "u = \<lparr>cw_chunks = cs, cw_trits = t\<rparr>"
  have low: "low < 3" by (simp add: low_def)
  have nth: "cs ! i = (if i = top then cw_chunks w ! top div 3 + low * 3 ^ (wt - 1)
      else cw_chunks w ! i div 3 + (cw_chunks w ! (i + 1) mod 3) * 3 ^ 4)" if "5 * i < t" for i
    using that top rotate_shifted_eq[OF wf, of i] by (auto simp: cs_def nth_list_update t_def[symmetric])
  have full: "cw_chunks w ! i < 3 ^ Suc 4" if "5 * i < t" for i
    using that wf_chunk_lt[OF wf] len by simp
  note mid_shift = shifted_chunk[OF full mod_less_divisor]
  have wfu: "wf_chunked u"
    unfolding u_def
  proof (rule wf_chunkedI[OF t])
    show "length cs = div_ceil t 5" by (simp add: cs_def)
    fix i
    assume i: "i < div_ceil t 5"
    show "cs ! i < 3 ^ chunk_trits t i"
    proof (cases "i = top")
      case True
      then show ?thesis using i top_shift(2)[OF low] wt(1) top(3) by (simp add: nth)
    next
      case False
      then have "chunk_trits t i = 5" using i top full_chunk[of i t] by simp
      then show ?thesis using i False mid_shift(2)[of i "cw_chunks w ! (i + 1)"] by (simp add: nth)
    qed
  qed
  have "word_number u = rotate_digits t (word_number w)"
  proof (rule word_number_eqI[OF wfu])
    show "rotate_digits t (word_number w) < 3 ^ cw_trits u"
      using rotate_digits_lt[OF t] word_number_lt[OF wf] by (simp add: u_def t_def)
    fix j
    assume "j < cw_trits u"
    then have j: "j < t" by (simp add: u_def)
    define i m where "i = j div 5" and "m = j mod 5"
    have jm: "j = 5 * i + m" "m < 5" "5 * i < t" using j by (simp_all add: i_def m_def)
    have rot: "trit j (rotate_digits t (word_number w)) = trit (Suc j mod t) (word_number w)"
      using trit_rotate_digits[of "word_number w" t j] word_number_lt[OF wf] j by (simp add: t_def)
    have tw: "trit k (word_number w) = trit (k mod 5) (cw_chunks w ! (k div 5))" if "k < t" for k
      using trit_word_number[OF wf, of k] that by (simp add: t_def)
    have "trit m (cs ! i) = trit (Suc j mod t) (word_number w)"
    proof (cases "i = top")
      case True
      show ?thesis
      proof (cases "Suc j = t")
        case e: True
        then have "m = wt - 1" using True jm by (simp add: wt_def)
        then show ?thesis using e True top tw[OF t] top_shift(4)[OF low] by (simp add: nth low_def)
      next
        case e: False
        then have "m < wt - 1" "Suc j < t" using True jm j by (simp_all add: wt_def)
        moreover have "Suc j div 5 = i" "Suc j mod 5 = Suc m"
          using \<open>m < wt - 1\<close> wt(2) by (simp_all add: jm(1) flip: add_Suc_right)
        ultimately show ?thesis
          using True top top_shift(3)[OF low, of m] tw[of "Suc j"] by (simp add: nth)
      qed
    next
      case False
      then have i: "5 * i + 5 < t" using jm top by linarith
      then have sj: "Suc j < t" using jm by linarith
      show ?thesis
      proof (cases "m = 4")
        case True
        then have "Suc j div 5 = Suc i" "Suc j mod 5 = 0" by (simp_all add: jm(1))
        then show ?thesis
          using True False sj jm(3) mid_shift(4)[of i "cw_chunks w ! (i + 1)"] tw[OF sj] by (simp add: nth)
      next
        case m4: False
        then have "m < 4" using jm(2) by simp
        then have "Suc j div 5 = i" "Suc j mod 5 = Suc m" by (simp_all add: jm(1) flip: add_Suc_right)
        then show ?thesis
          using \<open>m < 4\<close> False sj jm(3) mid_shift(3)[of i m "cw_chunks w ! (i + 1)"] tw[OF sj]
          by (simp add: nth)
      qed
    qed
    then show "trit (j mod 5) (cw_chunks u ! (j div 5)) = trit j (rotate_digits t (word_number w))"
      by (simp add: u_def rot i_def m_def)
  qed
  moreover have "chunked_rotate reserve w = Inr u"
  proof -
    have g: "get (cw_chunks w) 0 = Some (cw_chunks w ! 0)" using len t by simp
    have sh: "rotate_shifted w top = cw_chunks w ! top div 3"
      using rotate_shifted_eq[OF wf, of top] top by (simp add: t_def)
    have tp: "div_ceil t 5 - Suc 0 = top" by (simp add: top_def)
    show ?thesis
      using r top top_shift(1)[OF low] g sh wt(2,3)
      by (simp add: chunked_rotate_def reserved_chunks_def len Let_def u_def cs_def t_def[symmetric]
          tp low_def[symmetric] CHUNK_RADIX_def trit_weight_eq get_def)
  qed
  ultimately show ?thesis using that wfu by (simp add: u_def t_def)
qed

subsection \<open>Successor\<close>

text \<open>The chunks from index \<open>k\<close> up, of a word of \<open>t\<close> trits.\<close>

definition chunks_from :: "nat \<Rightarrow> nat \<Rightarrow> nat list \<Rightarrow> bool" where
  "chunks_from t k cs \<longleftrightarrow> 5 * k < t \<and> k + length cs = div_ceil t 5 \<and>
    (\<forall>i < length cs. cs ! i < 3 ^ chunk_trits t (k + i))"

lemma wf_chunked_from: "wf_chunked w \<longleftrightarrow> chunks_from (cw_trits w) 0 (cw_chunks w)"
  by (simp add: wf_chunked_def chunks_from_def)

text \<open>Either the last chunk, of the rest of the trits, or a full chunk and more.\<close>

lemma chunks_from_cases:
  assumes "chunks_from t k cs"
  obtains (last) c where "cs = [c]" "chunk_trits t k = t - 5 * k" "1 \<le> t - 5 * k" "t - 5 * k \<le> 5"
      "c < 3 ^ (t - 5 * k)"
    | (more) c cs' where "cs = c # cs'" "chunk_trits t k = 5" "c < 243" "chunks_from t (Suc k) cs'"
      "(3::nat) ^ (t - 5 * k) = 243 * 3 ^ (t - 5 * Suc k)"
proof -
  have k: "5 * k < t" and len: "k + length cs = div_ceil t 5"
    and lt: "\<And>i. i < length cs \<Longrightarrow> cs ! i < 3 ^ chunk_trits t (k + i)"
    using assms by (simp_all add: chunks_from_def)
  have "k < div_ceil t 5" using k by simp
  then obtain c cs' where cs: "cs = c # cs'" using len by (cases cs) auto
  have c: "c < 3 ^ chunk_trits t k" using lt[of 0] cs by simp
  show ?thesis
  proof (cases "5 * Suc k < t")
    case True
    have w: "chunk_trits t k = 5" using True by (simp add: full_chunk)
    have "chunks_from t (Suc k) cs'"
      using True len cs lt[of "Suc i" for i] by (auto simp: chunks_from_def)
    moreover have "t - 5 * k = 5 + (t - 5 * Suc k)" using True by simp
    then have "(3::nat) ^ (t - 5 * k) = 243 * 3 ^ (t - 5 * Suc k)" by (simp only: power_add) simp
    ultimately show ?thesis using more cs w c by simp
  next
    case False
    then have "div_ceil t 5 \<le> Suc k" using less_div_ceil[of "Suc k" t] by linarith
    moreover have "Suc (k + length cs') = div_ceil t 5" using len cs by simp
    ultimately have "length cs' = 0" by linarith
    then have "cs' = []" by simp
    then show ?thesis using last cs c k False by (simp add: chunk_trits_eq)
  qed
qed

lemma chunks_from_lt: "chunks_from t k cs \<Longrightarrow> cval cs < 3 ^ (t - 5 * k)"
proof (induction cs arbitrary: k)
  case Nil
  then show ?case by (auto elim: chunks_from_cases)
next
  case (Cons c cs)
  from Cons.prems show ?case
  proof (cases rule: chunks_from_cases)
    case (last c')
    then show ?thesis by simp
  next
    case (more c' cs')
    have "cval cs < 3 ^ (t - 5 * Suc k)" using Cons.IH[of "Suc k"] more(1,4) by simp
    then show ?thesis using more(1,3) unfolding more(5) by simp
  qed
qed

lemma chunks_from_last: "1 \<le> t - 5 * k \<Longrightarrow> t - 5 * k \<le> 5 \<Longrightarrow> c < 3 ^ (t - 5 * k) \<Longrightarrow> chunks_from t k [c]"
  unfolding chunks_from_def by (auto simp: chunk_trits_eq div_ceil_def)

lemma chunks_from_more:
  "chunks_from t (Suc k) cs \<Longrightarrow> c < 243 \<Longrightarrow> chunks_from t k (c # cs)"
proof -
  assume a: "chunks_from t (Suc k) cs" "c < 243"
  then have k: "5 * k + 5 < t" by (simp add: chunks_from_def)
  have "(c # cs) ! i < 3 ^ chunk_trits t (k + i)" if "i < Suc (length cs)" for i
    using that a full_chunk[OF k] by (cases i) (auto simp: chunks_from_def)
  then show ?thesis using a k by (simp add: chunks_from_def)
qed

lemma successor_loop_False [simp]: "successor_loop t k False cs = cs"
  by (cases cs) simp_all

lemma successor_loop_number:
  "chunks_from t k cs \<Longrightarrow> chunks_from t k (successor_loop t k True cs) \<and>
    cval (successor_loop t k True cs) = Suc (cval cs) mod 3 ^ (t - 5 * k)"
proof (induction cs arbitrary: k)
  case Nil
  then show ?case by (auto elim: chunks_from_cases)
next
  case (Cons c cs)
  from Cons.prems show ?case
  proof (cases rule: chunks_from_cases)
    case (last c')
    define w where "w = t - 5 * k"
    have w: "chunk_modulus (chunk_trits t k) = 3 ^ w" "(3::nat) ^ w \<le> 243" "0 < (3::nat) ^ w"
      using last pow3_le_243[of w] by (simp_all add: chunk_modulus_eq w_def)
    have c: "c < 3 ^ w" using last by (simp add: w_def)
    have cur: "sat_add U16_MAX c 1 = Suc c" using c w by (simp add: U16_MAX_def)
    show ?thesis
    proof (cases "Suc c = 3 ^ w")
      case True
      then show ?thesis
        using last w cur chunks_from_last[of t k 0] by (simp add: w_def[symmetric])
    next
      case False
      then show ?thesis
        using last w cur c chunks_from_last[of t k "Suc c"] by (simp add: w_def[symmetric])
    qed
  next
    case (more c' cs')
    have w: "chunk_modulus (chunk_trits t k) = 243"
      using more by (simp add: chunk_modulus_eq)
    have cur: "sat_add U16_MAX c 1 = Suc c" using more by (simp add: U16_MAX_def)
    have below: "cval cs < 3 ^ (t - 5 * Suc k)" using chunks_from_lt[of t "Suc k" cs] more by simp
    note mod = more(5)
    note more = more(1-4)
    show ?thesis
    proof (cases "Suc c = 243")
      case True
      have "Suc (cval (c # cs)) = 243 * Suc (cval cs)" using True by simp
      then have "Suc (cval (c # cs)) mod 3 ^ (t - 5 * k) = 243 * (Suc (cval cs) mod 3 ^ (t - 5 * Suc k))"
        unfolding mod by (simp only: mod_mult_mult1)
      then show ?thesis
        using more w cur True Cons.IH[of "Suc k"] chunks_from_more[of t k _ 0] by simp
    next
      case False
      then have "Suc (cval (c # cs)) < 3 ^ (t - 5 * k)" using more below unfolding mod by simp
      then show ?thesis
        using more w cur False chunks_from_more[of t k cs "Suc c"] by simp
    qed
  qed
qed

lemma chunked_successor_number:
  assumes wf: "wf_chunked w" and r: "reserve (length (cw_chunks w))"
  obtains u where "chunked_successor reserve w = Inr u" "wf_chunked u" "cw_trits u = cw_trits w"
    "word_number u = Suc (word_number w) mod 3 ^ cw_trits w"
proof -
  define u where "u = \<lparr>cw_chunks = successor_loop (cw_trits w) 0 True (cw_chunks w), cw_trits = cw_trits w\<rparr>"
  have "chunked_successor reserve w = Inr u"
    using r by (simp add: chunked_successor_def reserved_chunks_def u_def)
  then show ?thesis
    using that successor_loop_number[of "cw_trits w" 0 "cw_chunks w"] wf
    by (simp add: wf_chunked_from u_def word_number_def)
qed

subsection \<open>Conversions\<close>

lemma to_u64_loop_eq:
  "r \<le> U64_MAX \<Longrightarrow> to_u64_loop r cs =
    (let v = foldl (\<lambda>r c. r * 243 + c) r cs in if v \<le> U64_MAX then Some v else None)"
proof (induction cs arbitrary: r)
  case Nil
  then show ?case by simp
next
  case (Cons c cs)
  have mono: "r \<le> foldl (\<lambda>r c. r * 243 + c) r cs" for r
  proof (induction cs arbitrary: r)
    case (Cons x xs)
    have "r \<le> r * 243 + x" by simp
    then show ?case using Cons[of "r * 243 + x"] by (auto intro: le_trans)
  qed simp
  show ?case
    using Cons mono[of "r * 243 + c"]
    by (auto simp: checked_mul_def checked_add_def PROFILE_WORD_CHUNK_CARDINALITY_def Let_def)
qed

lemma foldl_cval: "foldl (\<lambda>r c. r * 243 + c) 0 (rev cs) = cval cs"
  by (induction cs) (simp_all add: mult.commute)

lemma chunked_to_u64_number:
  "chunked_to_u64 w = (if word_number w \<le> U64_MAX then Some (word_number w) else None)"
  by (simp add: chunked_to_u64_def to_u64_loop_eq foldl_cval word_number_def Let_def)

lemma chunked_to_u32_number:
  "chunked_to_u32 w = (if word_number w \<le> U32_MAX then Some (word_number w) else None)"
  by (simp add: chunked_to_u32_def chunked_to_u64_number U32_MAX_def U64_MAX_def)

lemma from_u64_loop_number:
  "n + k = div_ceil t 5 \<Longrightarrow> 5 * k < t \<Longrightarrow>
    \<exists>cs. from_u64_loop n t k v acc = (acc @ cs, v div 3 ^ (t - 5 * k)) \<and> chunks_from t k cs \<and>
      cval cs = v mod 3 ^ (t - 5 * k)"
proof (induction n arbitrary: k v acc)
  case 0
  then have "k < div_ceil t 5" by simp
  then show ?case using 0 by simp
next
  case (Suc n)
  define w where "w = chunk_trits t k"
  have w: "1 \<le> w" "w \<le> 5" "chunk_modulus w = 3 ^ w"
    using chunk_trits_bounds[OF Suc.prems(2)] by (simp_all add: w_def chunk_modulus_eq)
  have m: "v mod 3 ^ w < 3 ^ w" by simp
  then have m243: "v mod 3 ^ w < 243" using pow3_le_243[OF w(2)] by linarith
  have step: "from_u64_loop (Suc n) t k v acc = from_u64_loop n t (Suc k) (v div 3 ^ w) (acc @ [v mod 3 ^ w])"
    using w m243 by (simp add: Let_def w_def[symmetric])
  show ?case
  proof (cases "5 * Suc k < t")
    case True
    then have w5: "w = 5" "t - 5 * k = 5 + (t - 5 * Suc k)" by (simp_all add: w_def full_chunk)
    have "\<exists>cs. from_u64_loop n t (Suc k) (v div 3 ^ w) (acc @ [v mod 3 ^ w]) =
        ((acc @ [v mod 3 ^ w]) @ cs, v div 3 ^ w div 3 ^ (t - 5 * Suc k)) \<and> chunks_from t (Suc k) cs \<and>
      cval cs = v div 3 ^ w mod 3 ^ (t - 5 * Suc k)"
      by (rule Suc.IH) (use Suc.prems True in simp_all)
    then obtain cs where cs: "from_u64_loop n t (Suc k) (v div 3 ^ w) (acc @ [v mod 3 ^ w]) =
        ((acc @ [v mod 3 ^ w]) @ cs, v div 3 ^ w div 3 ^ (t - 5 * Suc k))" "chunks_from t (Suc k) cs"
      "cval cs = v div 3 ^ w mod 3 ^ (t - 5 * Suc k)" by blast
    have pow: "(3::nat) ^ (t - 5 * k) = 243 * 3 ^ (t - 5 * Suc k)"
      unfolding w5(2) by (simp only: power_add) simp
    have "v mod 3 ^ (t - 5 * k) = v mod 243 + 243 * (v div 243 mod 3 ^ (t - 5 * Suc k))"
      "v div 3 ^ (t - 5 * k) = v div 243 div 3 ^ (t - 5 * Suc k)"
      unfolding pow by (simp_all only: mod_mult2_eq div_mult2_eq add.commute mult.commute)
    then show ?thesis
      using cs m243 chunks_from_more[OF cs(2) m243] step
      by (intro exI[of _ "v mod 3 ^ w # cs"]) (simp add: w5(1))
  next
    case False
    then have "\<not> Suc k < div_ceil t 5" by simp
    then have n: "n = 0" using Suc.prems(1) by linarith
    have wt: "w = t - 5 * k" using False Suc.prems by (simp add: w_def chunk_trits_eq)
    then show ?thesis
      using n step m w chunks_from_last[of t k "v mod 3 ^ w"]
      by (intro exI[of _ "[v mod 3 ^ w]"]) simp
  qed
qed

lemma chunked_from_u64_number:
  assumes t: "0 < t" and r: "reserve (div_ceil t 5)"
  shows "(v < 3 ^ t \<longrightarrow> (\<exists>w. chunked_from_u64 reserve t v = Inr w \<and> wf_chunked w \<and> cw_trits w = t \<and>
      word_number w = v)) \<and>
    (3 ^ t \<le> v \<longrightarrow> chunked_from_u64 reserve t v = Inl (ValueOutsideWidth t v))"
proof -
  obtain cs where "from_u64_loop (div_ceil t 5) t 0 v [] = (cs, v div 3 ^ t)" "chunks_from t 0 cs"
    "cval cs = v mod 3 ^ t"
    using from_u64_loop_number[of "div_ceil t 5" 0 t v "[]"] t by auto
  moreover have "3 ^ t \<le> v \<Longrightarrow> v div 3 ^ t \<noteq> 0" by (simp add: div_eq_0_iff not_less)
  ultimately show ?thesis
    using t r by (auto simp: chunked_from_u64_def checked_chunk_count_def reserved_chunks_def Let_def
        PROFILE_WORD_CHUNK_TRITS_def wf_chunked_from word_number_def)
qed

subsection \<open>Constructors and projection\<close>

lemma validate_chunks_loop_Inr:
  "validate_chunks_loop t k cs = Inr () \<longleftrightarrow> (\<forall>i < length cs. cs ! i \<le> chunk_maximum (chunk_trits t (k + i)))"
proof (induction cs arbitrary: k)
  case Nil
  then show ?case by simp
next
  case (Cons c cs)
  have "(\<forall>i < length (c # cs). (c # cs) ! i \<le> chunk_maximum (chunk_trits t (k + i))) \<longleftrightarrow>
      c \<le> chunk_maximum (chunk_trits t k) \<and>
      (\<forall>i < length cs. cs ! i \<le> chunk_maximum (chunk_trits t (Suc k + i)))"
    by (auto simp: less_Suc_eq_0_disj)
  then show ?case using Cons[of "Suc k"] by (auto simp: Let_def not_less)
qed

lemma chunk_maximum_le: "5 * i < t \<Longrightarrow> c \<le> chunk_maximum (chunk_trits t i) \<longleftrightarrow> c < 3 ^ chunk_trits t i"
  using chunk_maximum_eq[of "chunk_trits t i"] chunk_trits_bounds[of i t] by linarith

lemma chunked_from_chunks_Inr:
  "chunked_from_chunks t cs = Inr w \<longleftrightarrow> wf_chunked w \<and> cw_chunks w = cs \<and> cw_trits w = t"
proof -
  have "validate_chunks t cs = Inr () \<longleftrightarrow> (\<forall>i < length cs. cs ! i < 3 ^ chunk_trits t i)"
    if "length cs = div_ceil t 5"
    using that chunk_maximum_le[of _ t] by (auto simp: validate_chunks_def validate_chunks_loop_Inr)
  then show ?thesis
    by (cases w) (auto simp: chunked_from_chunks_def checked_chunk_count_def wf_chunked_def
        PROFILE_WORD_CHUNK_TRITS_def)
qed

lemma trit_ones_complement: "k < n \<Longrightarrow> trit k (3 ^ n - 1) = 2"
proof (induction n arbitrary: k)
  case 0
  then show ?case by simp
next
  case (Suc n)
  have split: "(3::nat) ^ Suc n - 1 = 2 + 3 * (3 ^ n - 1)"
    using one_le_power[of "3::nat" n] unfolding power_Suc by linarith
  show ?case
  proof (cases k)
    case 0
    have "(2 + 3 * (3 ^ n - 1)) mod 3 = (2::nat)" by (simp only: mod_mult_self2) simp
    then show ?thesis using 0 unfolding split by (simp only: trit_0)
  next
    case (Suc j)
    have "(2 + 3 * (3 ^ n - 1)) div 3 = (3::nat) ^ n - 1" by (subst div_mult_self2) simp_all
    then have "trit k (3 ^ Suc n - 1) = trit j (3 ^ n - 1)" using Suc unfolding split by (simp only: trit_Suc)
    then show ?thesis using Suc Suc.prems Suc.IH by simp
  qed
qed

lemma chunked_eof_number:
  assumes t: "0 < t" and r: "reserve (div_ceil t 5)"
  obtains w where "chunked_eof reserve t = Inr w" "wf_chunked w" "cw_trits w = t" "word_number w = 3 ^ t - 1"
proof -
  define w where "w = \<lparr>cw_chunks = map (\<lambda>i. chunk_maximum (chunk_trits t i)) [0..<div_ceil t 5], cw_trits = t\<rparr>"
  have top: "chunk_maximum (chunk_trits t i) = 3 ^ chunk_trits t i - 1" if "5 * i < t" for i
    using chunk_maximum_eq[of "chunk_trits t i"] chunk_trits_bounds[OF that] by simp
  have wf: "wf_chunked w"
    unfolding w_def by (rule wf_chunkedI[OF t]) (simp_all add: chunk_maximum_le[symmetric])
  have "word_number w = 3 ^ t - 1"
  proof (rule word_number_eqI[OF wf])
    show "(3::nat) ^ t - 1 < 3 ^ cw_trits w" by (simp add: w_def)
    fix j
    assume "j < cw_trits w"
    then have j: "j < t" "5 * (j div 5) < t" by (simp_all add: w_def)
    have "j mod 5 < chunk_trits t (j div 5)" by (rule digit_in_chunk[OF j(1)])
    then have "trit (j mod 5) (3 ^ chunk_trits t (j div 5) - 1) = 2" by (rule trit_ones_complement)
    moreover have "trit j (3 ^ t - 1) = 2" by (rule trit_ones_complement[OF j(1)])
    moreover have "cw_chunks w ! (j div 5) = 3 ^ chunk_trits t (j div 5) - 1"
      using j by (simp add: w_def top)
    ultimately show "trit (j mod 5) (cw_chunks w ! (j div 5)) = trit j (3 ^ t - 1)" by (simp only:)
  qed
  moreover have "chunked_eof reserve t = Inr w"
    using t r by (simp add: chunked_eof_def checked_chunk_count_def reserved_chunks_def w_def
        PROFILE_WORD_CHUNK_TRITS_def)
  ultimately show ?thesis using that wf by (simp add: w_def)
qed

lemma chunked_project_number:
  assumes wf: "wf_chunked w" and n: "0 < n" "n \<le> cw_trits w" and r: "reserve (div_ceil n 5)"
  obtains u where "chunked_project reserve w n = Inr u" "wf_chunked u" "cw_trits u = n"
    "word_number u = word_number w mod 3 ^ n"
proof -
  define top where "top = div_ceil n 5 - 1"
  define wt where "wt = chunk_trits n top"
  have len: "length (cw_chunks w) = div_ceil (cw_trits w) 5" using wf by (simp add: wf_chunked_def)
  have le: "div_ceil n 5 \<le> div_ceil (cw_trits w) 5"
    using n(2) unfolding div_ceil_def by (intro div_le_mono) simp
  have top: "5 * top < n" "n \<le> 5 * top + 5" "top < div_ceil n 5" "wt = n - 5 * top"
    using top_chunk[OF n(1)] by (simp_all add: top_def wt_def)
  have wt: "1 \<le> wt" "wt \<le> 5" using top by simp_all
  have m: "c mod chunk_modulus wt = c mod 3 ^ wt" "try_u8_or_0 (c mod 3 ^ wt) = c mod 3 ^ wt" for c
  proof -
    show "c mod chunk_modulus wt = c mod 3 ^ wt" using wt by (simp add: chunk_modulus_eq)
    have "c mod 3 ^ wt < 3 ^ wt" by simp
    then have "c mod 3 ^ wt < 256" using pow3_le_243[OF wt(2)] by linarith
    then show "try_u8_or_0 (c mod 3 ^ wt) = c mod 3 ^ wt" by simp
  qed
  define cs where "cs = (take (div_ceil n 5) (cw_chunks w))[top := cw_chunks w ! top mod 3 ^ wt]"
  define u where "u = \<lparr>cw_chunks = cs, cw_trits = n\<rparr>"
  have lcs: "length (take (div_ceil n 5) (cw_chunks w)) = div_ceil n 5" using le len by simp
  have nth: "cs ! i = (if i = top then cw_chunks w ! top mod 3 ^ wt else cw_chunks w ! i)"
    if "i < div_ceil n 5" for i
    using that lcs by (simp add: cs_def nth_list_update)
  have wfu: "wf_chunked u"
    unfolding u_def
  proof (rule wf_chunkedI[OF n(1)])
    show "length cs = div_ceil n 5" using lcs by (simp add: cs_def)
    fix i
    assume i: "i < div_ceil n 5"
    show "cs ! i < 3 ^ chunk_trits n i"
    proof (cases "i = top")
      case True
      then show ?thesis using nth[OF i] by (simp add: wt_def)
    next
      case False
      then have "5 * i + 5 < n" using i top by simp
      then have w5: "chunk_trits n i = 5" by (rule full_chunk)
      have "i < length (cw_chunks w)" using i le len by linarith
      then have "cw_chunks w ! i < 243" using wf_chunk_lt[OF wf] by simp
      then show ?thesis using nth[OF i] False w5 by simp
    qed
  qed
  have "word_number u = word_number w mod 3 ^ n"
  proof (rule word_number_eqI[OF wfu])
    show "word_number w mod 3 ^ n < 3 ^ cw_trits u" by (simp add: u_def)
    fix j
    assume "j < cw_trits u"
    then have j: "j < n" "j div 5 < div_ceil n 5" by (simp_all add: u_def)
    have "trit (j mod 5) (cs ! (j div 5)) = trit (j mod 5) (cw_chunks w ! (j div 5))"
    proof (cases "j div 5 = top")
      case True
      then have "j mod 5 < wt" using digit_in_chunk[OF j(1)] by (simp add: wt_def)
      then show ?thesis using nth[OF j(2)] True by (simp add: trit_mod)
    next
      case False
      then show ?thesis using nth[OF j(2)] by simp
    qed
    also have "\<dots> = trit j (word_number w)" using trit_word_number[OF wf, of j] j(1) n(2) by simp
    also have "\<dots> = trit j (word_number w mod 3 ^ n)" using trit_mod[OF j(1)] by simp
    finally show "trit (j mod 5) (cw_chunks u ! (j div 5)) = trit j (word_number w mod 3 ^ n)"
      by (simp add: u_def)
  qed
  moreover have "chunked_project reserve w n = Inr u"
  proof -
    have tp: "div_ceil n 5 - Suc 0 = top" by (simp add: top_def)
    have "n \<le> 5 * div_ceil (cw_trits w) 5" using div_ceil_covers[of "cw_trits w"] n(2) by linarith
    moreover have "top < length (take (div_ceil n 5) (cw_chunks w))" using lcs top(3) by simp
    ultimately show ?thesis
      using n r le len top(3) by (simp add: chunked_project_def PROFILE_WORD_CHUNK_TRITS_def Let_def
          reserved_chunks_def tp u_def cs_def wt_def[symmetric] m not_less)
  qed
  ultimately show ?thesis using that wfu by (simp add: u_def)
qed

subsection \<open>The recurrence has period six\<close>

definition recurrence_step :: "nat \<Rightarrow> nat \<times> nat \<Rightarrow> nat \<times> nat" where
  "recurrence_step n p = (snd p, crazy_digits n (fst p) (snd p))"

text \<open>The cell \<open>s\<close> transitions after the seeds.\<close>

definition generated_cell :: "nat \<Rightarrow> nat \<Rightarrow> nat \<Rightarrow> nat \<Rightarrow> nat" where
  "generated_cell n older previous s = snd ((recurrence_step n ^^ s) (older, previous))"

definition trit_step :: "nat \<times> nat \<Rightarrow> nat \<times> nat" where
  "trit_step p = (snd p, crazy_trit (fst p) (snd p))"

lemma trit_recurrence:
  assumes "k < n"
  shows "map_prod (trit k) (trit k) ((recurrence_step n ^^ s) p) = (trit_step ^^ s) (map_prod (trit k) (trit k) p)"
proof (induction s)
  case 0
  then show ?case by simp
next
  case (Suc s)
  have one: "map_prod (trit k) (trit k) (recurrence_step n q) = trit_step (map_prod (trit k) (trit k) q)" for q
    using assms by (cases q) (simp add: recurrence_step_def trit_step_def trit_crazy_digits)
  show ?case by (simp add: one Suc)
qed

lemma trit_step_simps:
  "trit_step (0, 0) = (0, 1)" "trit_step (0, 1) = (1, 0)" "trit_step (0, 2) = (2, 0)"
  "trit_step (1, 0) = (0, 1)" "trit_step (1, 1) = (1, 0)" "trit_step (1, 2) = (2, 2)"
  "trit_step (2, 0) = (0, 2)" "trit_step (2, 1) = (1, 2)" "trit_step (2, 2) = (2, 1)"
  by (simp_all add: trit_step_def crazy_trit_def)

lemma trit_step_period:
  assumes "a < 3" and "b < 3"
  shows "(trit_step ^^ 7) (a, b) = trit_step (a, b)"
proof -
  have "a = 0 \<or> a = 1 \<or> a = 2" "b = 0 \<or> b = 1 \<or> b = 2" using assms by linarith+
  moreover have "(trit_step ^^ 7) p =
      trit_step (trit_step (trit_step (trit_step (trit_step (trit_step (trit_step p))))))" for p
    by (simp add: eval_nat_numeral)
  ultimately show ?thesis by (elim disjE) (simp_all add: trit_step_simps[unfolded One_nat_def])
qed

lemma generated_cell_lt: "0 < s \<Longrightarrow> generated_cell n x y s < 3 ^ n"
  by (cases s) (simp_all add: generated_cell_def recurrence_step_def crazy_digits_lt)

lemma trit_generated_period:
  assumes "k < n" and "0 < s"
  shows "trit k (generated_cell n x y (s + 6)) = trit k (generated_cell n x y s)"
proof -
  obtain r where s: "s = Suc r" using assms(2) by (cases s) auto
  define p where "p = (trit k x, trit k y)"
  have tr: "trit k (generated_cell n x y j) = snd ((trit_step ^^ j) p)" for j
    using trit_recurrence[OF assms(1), of j "(x, y)"]
    by (simp add: generated_cell_def p_def prod_eq_iff)
  have "(trit_step ^^ (s + 6)) p = (trit_step ^^ r) ((trit_step ^^ 7) p)"
    by (simp add: s flip: funpow_add comp_apply[of "trit_step ^^ r"])
      (simp add: add.commute numeral_eq_Suc)
  also have "\<dots> = (trit_step ^^ r) (trit_step p)" by (simp add: trit_step_period p_def)
  also have "\<dots> = (trit_step ^^ s) p" by (simp add: s funpow_swap1)
  finally show ?thesis by (simp add: tr)
qed

lemma generated_cell_period: "0 < s \<Longrightarrow> generated_cell n x y (s + 6) = generated_cell n x y s"
  by (rule trit_eqI[where n = n]) (simp_all add: generated_cell_lt trit_generated_period)

lemma generated_cell_mod:
  assumes "0 < s"
  shows "generated_cell n x y s = generated_cell n x y (if s mod 6 = 0 then 6 else s mod 6)"
  using assms
proof (induction s rule: less_induct)
  case (less s)
  show ?case
  proof (cases "s \<le> 6")
    case True
    then have "s = (if s mod 6 = 0 then 6 else s mod 6)"
      using less.prems by (cases "s = 6") auto
    then show ?thesis by metis
  next
    case False
    then have "generated_cell n x y s = generated_cell n x y (s - 6)"
      using generated_cell_period[of "s - 6" n x y] by simp
    also have "\<dots> = generated_cell n x y (if (s - 6) mod 6 = 0 then 6 else (s - 6) mod 6)"
      by (rule less.IH) (use False in simp_all)
    also have "(s - 6) mod 6 = s mod 6" using False by (simp add: le_mod_geq)
    finally show ?thesis .
  qed
qed

lemma recurrence_loop_number:
  "wf_chunked o1 \<Longrightarrow> wf_chunked p1 \<Longrightarrow> cw_trits o1 = t \<Longrightarrow> cw_trits p1 = t \<Longrightarrow> reserve (div_ceil t 5) \<Longrightarrow>
    \<exists>w. recurrence_loop reserve n o1 p1 = Inr w \<and> wf_chunked w \<and> cw_trits w = t \<and>
      word_number w = generated_cell t (word_number o1) (word_number p1) n"
proof (induction n arbitrary: o1 p1)
  case 0
  then show ?case by (simp add: generated_cell_def)
next
  case (Suc n)
  have "reserve (length (cw_chunks o1))" using Suc.prems by (simp add: wf_chunked_def)
  then obtain c where c: "chunked_crazy reserve o1 p1 = Inr c" "wf_chunked c" "cw_trits c = t"
    "word_number c = crazy_digits t (word_number o1) (word_number p1)"
    using chunked_crazy_number[OF Suc.prems(1,2), of reserve] Suc.prems(3,4) by metis
  then show ?case
    using Suc.IH[OF Suc.prems(2) c(2) Suc.prems(4) c(3) Suc.prems(5)]
    by (simp add: generated_cell_def recurrence_step_def funpow_swap1)
qed

lemma recurrence_cell_number:
  assumes wf: "wf_chunked x" "wf_chunked y" and t: "cw_trits x = t" "cw_trits y = t"
    and r: "reserve (div_ceil t 5)" and s: "0 < s"
  shows "\<exists>w. recurrence_cell reserve x y (s mod 6) = Inr w \<and> wf_chunked w \<and> cw_trits w = t \<and>
    word_number w = generated_cell t (word_number x) (word_number y) s"
proof -
  define tr where "tr = (if s mod 6 = 0 then 6 else s mod 6)"
  have ph: "\<not> 5 < s mod 6" using mod_less_divisor[of 6 s] by linarith
  have rx: "reserve (length (cw_chunks x))" "reserve (length (cw_chunks y))"
    using wf t r by (simp_all add: wf_chunked_def)
  obtain c1 where c1: "chunked_crazy reserve x y = Inr c1" "wf_chunked c1" "cw_trits c1 = t"
    "word_number c1 = crazy_digits t (word_number x) (word_number y)"
    using chunked_crazy_number[OF wf, of reserve] t rx by metis
  obtain c2 where c2: "chunked_crazy reserve y c1 = Inr c2" "wf_chunked c2" "cw_trits c2 = t"
    "word_number c2 = crazy_digits t (word_number y) (word_number c1)"
    using chunked_crazy_number[OF wf(2) c1(2), of reserve] t c1(3) rx by metis
  have gen: "generated_cell t (word_number x) (word_number y) s = generated_cell t (word_number x) (word_number y) tr"
    unfolding tr_def by (rule generated_cell_mod[OF s])
  show ?thesis
  proof (cases "tr = 1")
    case True
    then show ?thesis
      using ph t c1 gen by (simp add: recurrence_cell_def tr_def[symmetric] generated_cell_def
          recurrence_step_def Let_def)
  next
    case False
    then obtain m where m: "tr = Suc (Suc m)" by (cases tr; cases "tr - 1") (auto simp: tr_def split: if_splits)
    obtain w where w: "recurrence_loop reserve m c1 c2 = Inr w" "wf_chunked w" "cw_trits w = t"
      "word_number w = generated_cell t (word_number c1) (word_number c2) m"
      using recurrence_loop_number[where reserve = reserve, OF c1(2) c2(2) c1(3) c2(3) r] by blast
    have "generated_cell t (word_number x) (word_number y) tr = word_number w"
      by (simp add: m w(4) c1(4) c2(4) generated_cell_def recurrence_step_def funpow_swap1)
    then show ?thesis
      using ph t c1(1) c2(1) w gen m
      by (simp add: recurrence_cell_def tr_def[symmetric] Let_def)
  qed
qed

subsection \<open>Properties\<close>

text \<open>
  C28: the chunked crazy operation computes the trit-wise reference at the exact width of its two
  operands, whatever that width is, and returns a valid word.
\<close>
theorem chunked_crazy_exact:
  assumes "wf_chunked d" and "wf_chunked a" and "cw_trits d = cw_trits a"
    and "reserve (length (cw_chunks d))"
  shows "\<exists>w. chunked_crazy reserve d a = Inr w \<and> wf_chunked w \<and> cw_trits w = cw_trits d \<and>
    word_number w = crazy_digits (cw_trits d) (word_number d) (word_number a)"
  using chunked_crazy_number[of d a reserve] assms by metis

definition demo_word :: "nat list \<Rightarrow> ChunkedProfileWord" where
  "demo_word cs = \<lparr>cw_chunks = cs, cw_trits = 7\<rparr>"

lemma demo_word_wf: "c0 < 243 \<Longrightarrow> c1 < 9 \<Longrightarrow> wf_chunked (demo_word [c0, c1])"
  by (simp add: wf_chunked_def demo_word_def div_ceil_def chunk_trits_eq less_Suc_eq)

lemma demo_word_simps [simp]: "cw_trits (demo_word cs) = 7" "cw_chunks (demo_word cs) = cs"
    "word_number (demo_word [c0, c1]) = c0 + 243 * c1"
  by (simp_all add: demo_word_def word_number_def)

theorem chunked_crazy_exact_witness:
  "\<exists>w. chunked_crazy (\<lambda>_. True) (demo_word [200, 7]) (demo_word [31, 2]) = Inr w \<and> cw_trits w = 7 \<and>
    word_number w = crazy_digits 7 1901 517"
  using chunked_crazy_exact[OF demo_word_wf demo_word_wf, of 200 7 31 2 "\<lambda>_. True"] by auto

text \<open>
  Rotation moves the lowest trit to the exact top trit of the width, also when the top chunk
  is narrower than five trits, and the successor wraps exactly at \<open>3 ^ width\<close>.
\<close>
lemma chunked_rotate_successor_exact:
  assumes "wf_chunked w" and "reserve (length (cw_chunks w))"
  shows "(\<exists>u. chunked_rotate reserve w = Inr u \<and> wf_chunked u \<and> cw_trits u = cw_trits w \<and>
      word_number u = rotate_digits (cw_trits w) (word_number w)) \<and>
    (\<exists>u. chunked_successor reserve w = Inr u \<and> wf_chunked u \<and> cw_trits u = cw_trits w \<and>
      word_number u = Suc (word_number w) mod 3 ^ cw_trits w)"
  using chunked_rotate_number[of w reserve] chunked_successor_number[of w reserve] assms by metis

lemma chunked_rotate_successor_exact_witness:
  "\<exists>u. chunked_successor (\<lambda>_. True) (demo_word [242, 8]) = Inr u \<and> cw_trits u = 7 \<and> word_number u = 0"
  using chunked_rotate_successor_exact[OF demo_word_wf, of 242 8 "\<lambda>_. True"] by auto


text \<open>
  A bounded integer is admitted at a width exactly when it is below \<open>3 ^ width\<close>, and then
  reads back as itself; the residues taken chunk by chunk are those of the whole number.
\<close>
lemma chunked_integer_roundtrip:
  assumes "0 < t" and "reserve (div_ceil t 5)" and "v \<le> U64_MAX"
  shows "if v < 3 ^ t
    then \<exists>w. chunked_from_u64 reserve t v = Inr w \<and> wf_chunked w \<and> cw_trits w = t \<and>
      chunked_to_u64 w = Some v \<and> chunked_low_byte w = v mod 256 \<and>
      chunked_residue w 94 = Some (v mod 94)
    else chunked_from_u64 reserve t v = Inl (ValueOutsideWidth t v)"
proof (cases "v < 3 ^ t")
  case True
  then obtain w where w: "chunked_from_u64 reserve t v = Inr w" "wf_chunked w" "cw_trits w = t"
    "word_number w = v"
    using chunked_from_u64_number[where reserve = reserve, OF assms(1,2), of v] by blast
  have "chunked_residue w 94 = Some (v mod 94)"
    using chunked_residue_number[OF w(2), of 94] w(4) by (simp add: U16_MAX_def)
  then show ?thesis
    using True w assms(3) by (auto simp: chunked_to_u64_number chunked_low_byte_number)
next
  case False
  then show ?thesis using chunked_from_u64_number[where reserve = reserve, OF assms(1,2), of v] by simp
qed

lemma chunked_integer_roundtrip_witness:
  "(\<exists>w. chunked_from_u64 (\<lambda>_. True) 12 400000 = Inr w \<and> chunked_to_u64 w = Some 400000 \<and>
      chunked_low_byte w = 128) \<and>
    chunked_from_u64 (\<lambda>_. True) 10 59049 = Inl (ValueOutsideWidth 10 59049)"
  using chunked_integer_roundtrip[of 12 "\<lambda>_. True" 400000]
    chunked_integer_roundtrip[of 10 "\<lambda>_. True" 59049]
  by (auto simp: U64_MAX_def)

text \<open>
  Projection to a narrower width is exact reduction modulo \<open>3 ^ width\<close>.
\<close>
lemma chunked_project_exact:
  assumes "wf_chunked w" and "0 < n" and "n \<le> cw_trits w" and "reserve (div_ceil n 5)"
  shows "\<exists>u. chunked_project reserve w n = Inr u \<and> wf_chunked u \<and> cw_trits u = n \<and>
    word_number u = word_number w mod 3 ^ n"
  using chunked_project_number[of w n reserve] assms by metis

lemma chunked_project_exact_witness:
  "\<exists>u. chunked_project (\<lambda>_. True) (demo_word [242, 8]) 6 = Inr u \<and> cw_trits u = 6 \<and>
    word_number u = 728"
  using chunked_project_exact[OF demo_word_wf, of 242 8 6 "\<lambda>_. True"] by auto

text \<open>
  The cell \<open>s\<close> transitions after two seeds is the one \<open>recurrence_cell\<close> returns for
  \<open>s mod 6\<close>, at every width and for every positive \<open>s\<close>: the recurrence has period dividing six
  after its first transition, so at most six crazy operations reach any cell of memory.
\<close>
lemma recurrence_cell_exact:
  assumes "wf_chunked x" and "wf_chunked y" and "cw_trits x = t" and "cw_trits y = t"
    and "reserve (div_ceil t 5)" and "0 < s"
  shows "\<exists>w. recurrence_cell reserve x y (s mod 6) = Inr w \<and> wf_chunked w \<and> cw_trits w = t \<and>
    word_number w = generated_cell t (word_number x) (word_number y) s"
  by (rule recurrence_cell_number[where reserve = reserve, OF assms])

lemma recurrence_cell_exact_witness:
  "\<exists>w. recurrence_cell (\<lambda>_. True) (demo_word [98, 0]) (demo_word [61, 0]) (1000 mod 6) = Inr w \<and>
    word_number w = generated_cell 7 98 61 1000"
  using recurrence_cell_exact[OF demo_word_wf demo_word_wf, of 98 0 61 0 7 "\<lambda>_. True" 1000] by auto

end
