(* ===== verification/Annotated.thy ===== *)
theory Annotated
  imports ProfileLoading
begin

text \<open>
  \<open>domain/annotated.rs\<close>: the readable presentation of a source, with whitespace anywhere and
  comments on lines of their own. Canonicalization strips both and keeps, for each byte that is
  left, the line, column and offset it came from; the formatter wraps canonical bytes into lines.
  The constructors that load an annotated source are here as well (\<open>domain/machine.rs\<close> and
  \<open>domain/profile_machine.rs\<close>). A cursor method that takes \<open>&mut self\<close> returns the new cursor;
  where it fails the cursor is dropped with the error, as its only caller does.
\<close>

definition COMMENT_MARKER :: u8 where "COMMENT_MARKER = 35"

datatype AnnotatedSourceError =
    InvalidCommentByte usize u8
  | InvalidPresentationByte usize u8
  | ZeroWrapWidth

datatype 'e AnnotatedLoadError =
    AnnotatedFailure AnnotatedSourceError
  | LoadFailure 'e

record AnnotatedSourceLocation =
  loc_column :: usize
  loc_line :: usize
  loc_offset :: usize

record CanonicalizedAnnotatedSource =
  ca_bytes :: "u8 list"
  ca_locations :: "AnnotatedSourceLocation list"

record SourceCursor =
  cur_column :: usize
  cur_line :: usize
  cur_line_has_code :: bool
  cur_offset :: usize

definition source_cursor_default :: SourceCursor where
  "source_cursor_default = \<lparr>cur_column = 1, cur_line = 1, cur_line_has_code = False, cur_offset = 0\<rparr>"

definition advance_newline :: "SourceCursor \<Rightarrow> usize \<Rightarrow> SourceCursor" where
  "advance_newline self bytes =
    self\<lparr>cur_column := 1, cur_line := cur_line self + 1, cur_line_has_code := False,
      cur_offset := cur_offset self + bytes\<rparr>"

definition advance_carriage_return :: "SourceCursor \<Rightarrow> u8 list \<Rightarrow> SourceCursor" where
  "advance_carriage_return self source =
    (let following_lf = get source (cur_offset self + 1) = Some 10;
         bytes = (if following_lf then 2 else 1)
     in advance_newline self bytes)"

definition advance_regular :: "SourceCursor \<Rightarrow> SourceCursor" where
  "advance_regular self = self\<lparr>cur_column := cur_column self + 1, cur_offset := cur_offset self + 1\<rparr>"

definition advance_whitespace :: "SourceCursor \<Rightarrow> u8 list \<Rightarrow> u8 \<Rightarrow> SourceCursor" where
  "advance_whitespace self source byte =
    (if byte = 13 then advance_carriage_return self source
     else if byte = 10 then advance_newline self 1
     else advance_regular self)"

lemma cursor_offsets [simp]:
  "cur_offset (advance_newline self bytes) = cur_offset self + bytes"
  "cur_offset (advance_regular self) = Suc (cur_offset self)"
  "cur_offset self < cur_offset (advance_carriage_return self source)"
  "cur_offset self < cur_offset (advance_whitespace self source byte)"
  by (simp_all add: advance_newline_def advance_regular_def advance_carriage_return_def
      advance_whitespace_def Let_def)

function skip_comment :: "SourceCursor \<Rightarrow> u8 list \<Rightarrow> AnnotatedSourceError + SourceCursor" where
  "skip_comment self source =
    (if cur_offset self < length source then
      (case get source (cur_offset self) of
        None \<Rightarrow> Inl (InvalidCommentByte (cur_offset self) 0)
      | Some byte \<Rightarrow>
          if byte = 10 then Inr (advance_newline self 1)
          else if byte = 13 then Inr (advance_carriage_return self source)
          else if byte = 9 \<or> (0x20 \<le> byte \<and> byte \<le> 0x7e) then
            skip_comment (advance_regular self) source
          else Inl (InvalidCommentByte (cur_offset self) byte))
     else Inr self)"
  by pat_completeness auto
termination
  by (relation "measure (\<lambda>(self, source). length source - cur_offset self)") auto

declare skip_comment.simps [simp del]

lemma skip_comment_cases:
  assumes "skip_comment self source = Inr cur"
  obtains (at_end) "length source \<le> cur_offset self" and "cur = self"
    | (newline) "cur_offset self < length source" and "source ! cur_offset self = 10"
        and "cur = advance_newline self 1"
    | (carriage) "cur_offset self < length source" and "source ! cur_offset self = 13"
        and "cur = advance_carriage_return self source"
    | (regular) "cur_offset self < length source" and "source ! cur_offset self \<noteq> 10"
        and "source ! cur_offset self \<noteq> 13"
        and "source ! cur_offset self = 9 \<or>
          (0x20 \<le> source ! cur_offset self \<and> source ! cur_offset self \<le> 0x7e)"
        and "skip_comment (advance_regular self) source = Inr cur"
  using assms[unfolded skip_comment.simps[of self source]]
  by (cases "cur_offset self < length source") (auto simp: get_lt split: if_splits)

lemma skip_comment_offset:
  "skip_comment self source = Inr cur \<Longrightarrow> cur_offset self \<le> cur_offset cur"
proof (induction self source rule: skip_comment.induct)
  case (1 self source)
  from "1.prems" show ?case
  proof (cases rule: skip_comment_cases)
    case regular
    then have "cur_offset (advance_regular self) \<le> cur_offset cur"
      by (intro "1.IH"[of "source ! cur_offset self"]) (auto simp: get_lt)
    then show ?thesis by simp
  qed (use less_imp_le[OF cursor_offsets(3)[of self source]] in auto)
qed

definition is_comment_start :: "u8 list \<Rightarrow> usize \<Rightarrow> bool \<Rightarrow> bool" where
  "is_comment_start source offset line_has_code =
    (if line_has_code \<or> get source offset \<noteq> Some COMMENT_MARKER then False
     else get source (offset + 1) = Some 32 \<or> get source (offset + 1) = Some 9)"

lemma skip_comment_progress:
  assumes "is_comment_start source (cur_offset self) code" and "skip_comment self source = Inr cur"
    and "cur_offset self < length source"
  shows "cur_offset self < cur_offset cur"
proof -
  have "get source (cur_offset self) = Some 35"
    using assms(1) by (auto simp: is_comment_start_def COMMENT_MARKER_def split: if_splits)
  then have "skip_comment (advance_regular self) source = Inr cur"
    using assms(2,3) by (subst (asm) skip_comment.simps) simp
  from skip_comment_offset[OF this] show ?thesis by simp
qed

function canonicalize_loop ::
  "u8 list \<Rightarrow> SourceCursor \<Rightarrow> u8 list \<Rightarrow> AnnotatedSourceLocation list \<Rightarrow>
    AnnotatedSourceError + CanonicalizedAnnotatedSource" where
  "canonicalize_loop source cursor bytes locations =
    (if cur_offset cursor < length source then
      (if is_comment_start source (cur_offset cursor) (cur_line_has_code cursor) then
        (case skip_comment cursor source of
          Inl e \<Rightarrow> Inl e
        | Inr cursor' \<Rightarrow> canonicalize_loop source cursor' bytes locations)
       else
        (case get source (cur_offset cursor) of
          None \<Rightarrow> Inl (InvalidPresentationByte (cur_offset cursor) 0)
        | Some byte \<Rightarrow>
            if is_source_whitespace byte then
              canonicalize_loop source (advance_whitespace cursor source byte) bytes locations
            else if \<not> (33 \<le> byte \<and> byte \<le> 126) then
              Inl (InvalidPresentationByte (cur_offset cursor) byte)
            else
              canonicalize_loop source (advance_regular (cursor\<lparr>cur_line_has_code := True\<rparr>))
                (bytes @ [byte])
                (locations @ [\<lparr>loc_column = cur_column cursor, loc_line = cur_line cursor,
                  loc_offset = cur_offset cursor\<rparr>])))
     else Inr \<lparr>ca_bytes = bytes, ca_locations = locations\<rparr>)"
  by pat_completeness auto
termination
proof (relation "measure (\<lambda>(source, cursor, _, _). length source - cur_offset cursor)", goal_cases)
  case (2 source cursor bytes locations cursor')
  then show ?case using skip_comment_progress[of source cursor] by fastforce
next
  case (3 source cursor bytes locations byte)
  then show ?case using cursor_offsets(4)[of cursor source byte] by (simp add: diff_less_mono2)
qed auto

declare canonicalize_loop.simps [simp del]

definition canonicalize_annotated_source ::
  "u8 list \<Rightarrow> AnnotatedSourceError + CanonicalizedAnnotatedSource" where
  "canonicalize_annotated_source source = canonicalize_loop source source_cursor_default [] []"

fun format_loop ::
  "usize \<Rightarrow> usize \<Rightarrow> u8 list \<Rightarrow> u8 list \<Rightarrow> AnnotatedSourceError + u8 list" where
  "format_loop width position [] output = Inr output"
| "format_loop width position (byte # rest) output =
    (if \<not> (33 \<le> byte \<and> byte \<le> 126) then Inl (InvalidPresentationByte position byte)
     else
       let output' = (if position \<noteq> 0 \<and> position mod width = 0 then output @ [10] else output)
       in format_loop width (position + 1) rest (output' @ [byte]))"

definition format_annotated_source :: "u8 list \<Rightarrow> usize \<Rightarrow> AnnotatedSourceError + u8 list" where
  "format_annotated_source canonical_bytes width =
    (if width = 0 then Inl ZeroWrapWidth else format_loop width 0 canonical_bytes [])"

definition from_annotated_source ::
  "u8 list \<Rightarrow> u8 list \<Rightarrow> LoadError AnnotatedLoadError + Machine" where
  "from_annotated_source source input =
    (case canonicalize_annotated_source source of
      Inl e \<Rightarrow> Inl (AnnotatedFailure e)
    | Inr c \<Rightarrow> map_err LoadFailure (from_source (ca_bytes c) input))"

definition pfrom_annotated_source ::
  "(usize \<Rightarrow> bool) \<Rightarrow> ProfileDescriptor \<Rightarrow> u8 list \<Rightarrow> u8 list \<Rightarrow>
    ProfileMachineError AnnotatedLoadError + ProfileMachine" where
  "pfrom_annotated_source reserve profile source input =
    (case canonicalize_annotated_source source of
      Inl e \<Rightarrow> Inl (AnnotatedFailure e)
    | Inr c \<Rightarrow> map_err LoadFailure (pfrom_source reserve profile (ca_bytes c) input))"

subsection \<open>What canonicalization keeps\<close>

text \<open>
  The reference reading of an annotated source, over byte offsets: where lines start, how many
  line breaks precede an offset (\<open>CR LF\<close> is one), where a comment opens (only whitespace before it
  on its line, and a space or tab after the hash), and so which bytes are code.
\<close>

definition is_break :: "u8 list \<Rightarrow> nat \<Rightarrow> bool" where
  "is_break source i \<longleftrightarrow> source ! i = 10 \<or> source ! i = 13 \<and> get source (Suc i) \<noteq> Some 10"

fun breaks :: "u8 list \<Rightarrow> nat \<Rightarrow> nat" where
  "breaks source 0 = 0"
| "breaks source (Suc k) = breaks source k + (if is_break source k then 1 else 0)"

fun line_start :: "u8 list \<Rightarrow> nat \<Rightarrow> nat" where
  "line_start source 0 = 0"
| "line_start source (Suc k) =
    (if source ! k = 10 \<or> source ! k = 13 then Suc k else line_start source k)"

definition position_of :: "u8 list \<Rightarrow> nat \<Rightarrow> AnnotatedSourceLocation" where
  "position_of source k =
    \<lparr>loc_column = Suc k - line_start source k, loc_line = Suc (breaks source k), loc_offset = k\<rparr>"

definition comment_opens :: "u8 list \<Rightarrow> nat \<Rightarrow> bool" where
  "comment_opens source k \<longleftrightarrow>
    (\<forall>i \<in> {line_start source k..<k}. is_source_whitespace (source ! i)) \<and>
    get source k = Some 35 \<and> (get source (Suc k) = Some 32 \<or> get source (Suc k) = Some 9)"

definition commented :: "u8 list \<Rightarrow> nat \<Rightarrow> bool" where
  "commented source k \<longleftrightarrow> (\<exists>j \<in> {line_start source k..k}. comment_opens source j)"

definition code_byte :: "u8 list \<Rightarrow> nat \<Rightarrow> bool" where
  "code_byte source k \<longleftrightarrow> \<not> is_source_whitespace (source ! k) \<and> \<not> commented source k"

definition presentable :: "u8 list \<Rightarrow> nat \<Rightarrow> bool" where
  "presentable source k \<longleftrightarrow>
    (if commented source k then source ! k \<in> {9, 10, 13} \<or> (32 \<le> source ! k \<and> source ! k \<le> 126)
     else is_source_whitespace (source ! k) \<or> (33 \<le> source ! k \<and> source ! k \<le> 126))"

lemma line_start_le: "line_start source k \<le> k"
  by (induction k) auto

definition placed :: "u8 list \<Rightarrow> SourceCursor \<Rightarrow> bool" where
  "placed source cur \<longleftrightarrow>
    cur_line cur = Suc (breaks source (cur_offset cur)) \<and>
    cur_column cur + line_start source (cur_offset cur) = Suc (cur_offset cur)"

definition positioned :: "u8 list \<Rightarrow> SourceCursor \<Rightarrow> bool" where
  "positioned source cur \<longleftrightarrow>
    cur_offset cur \<le> length source \<and>
    (cur_offset cur < length source \<longrightarrow>
      placed source cur \<and>
      (cur_line_has_code cur \<longleftrightarrow>
        \<not> (\<forall>i \<in> {line_start source (cur_offset cur)..<cur_offset cur}.
          is_source_whitespace (source ! i))) \<and>
      (\<forall>j \<in> {line_start source (cur_offset cur)..<cur_offset cur}. \<not> comment_opens source j))"

lemma positioned_default: "positioned source source_cursor_default"
  by (simp add: positioned_def placed_def source_cursor_default_def)

lemma ws_values: "is_source_whitespace 9" "is_source_whitespace 10" "is_source_whitespace 13"
  "is_source_whitespace 32" "\<not> is_source_whitespace 35"
  by (simp_all add: is_source_whitespace_def)

lemma comment_start_iff:
  assumes "positioned source cur" and "cur_offset cur < length source"
  shows "is_comment_start source (cur_offset cur) (cur_line_has_code cur) \<longleftrightarrow>
    comment_opens source (cur_offset cur)"
  using assms by (auto simp: positioned_def is_comment_start_def comment_opens_def COMMENT_MARKER_def)

lemma whitespace_not_opening: "is_source_whitespace (source ! k) \<Longrightarrow> \<not> comment_opens source k"
  by (auto simp: comment_opens_def get_Some_iff ws_values)

lemma positioned_whitespace:
  assumes p: "positioned source cur" and lt: "cur_offset cur < length source"
    and ws: "is_source_whitespace (source ! cur_offset cur)"
  shows "positioned source (advance_whitespace cur source (source ! cur_offset cur))"
proof -
  define k where "k = cur_offset cur"
  consider (crlf) "source ! k = 13" "get source (Suc k) = Some 10"
    | (cr) "source ! k = 13" "get source (Suc k) \<noteq> Some 10"
    | (lf) "source ! k = 10" | (plain) "source ! k \<noteq> 13" "source ! k \<noteq> 10"
    by blast
  then show ?thesis
  proof cases
    case crlf
    then show ?thesis
      using p lt by (auto simp: positioned_def placed_def advance_whitespace_def advance_carriage_return_def
          advance_newline_def Let_def k_def[symmetric] is_break_def get_Some_iff)
  next
    case cr
    then show ?thesis
      using p lt by (auto simp: positioned_def placed_def advance_whitespace_def advance_carriage_return_def
          advance_newline_def Let_def k_def[symmetric] is_break_def)
  next
    case lf
    then show ?thesis
      using p lt by (auto simp: positioned_def placed_def advance_whitespace_def
          advance_newline_def Let_def k_def[symmetric] is_break_def)
  next
    case plain
    then show ?thesis
      using p lt ws whitespace_not_opening[OF ws] line_start_le[of source k]
      by (auto simp: positioned_def placed_def advance_whitespace_def advance_regular_def
          k_def[symmetric] is_break_def atLeastLessThanSuc)
  qed
qed

lemma positioned_code:
  assumes p: "positioned source cur" and lt: "cur_offset cur < length source"
    and code: "\<not> is_source_whitespace (source ! cur_offset cur)"
    and "\<not> comment_opens source (cur_offset cur)"
  shows "positioned source (advance_regular (cur\<lparr>cur_line_has_code := True\<rparr>))"
proof -
  have "source ! cur_offset cur \<noteq> 10" "source ! cur_offset cur \<noteq> 13"
    using code ws_values by metis+
  then show ?thesis
    using assms line_start_le[of source "cur_offset cur"]
    by (auto simp: positioned_def placed_def advance_regular_def is_break_def atLeastLessThanSuc)
qed

lemma commented_Suc:
  assumes "commented source k" and "source ! k \<noteq> 10" and "source ! k \<noteq> 13"
  shows "commented source (Suc k)"
  using assms by (auto simp: commented_def intro: less_imp_le)

lemma commented_opening: "comment_opens source k \<Longrightarrow> commented source k"
  using line_start_le[of source k] by (auto simp: commented_def)

lemma not_commented_line_start:
  "line_start source k = k \<Longrightarrow> source ! k \<noteq> 35 \<Longrightarrow> \<not> commented source k"
  by (auto simp: commented_def comment_opens_def get_Some_iff)

text \<open>What skipping a comment, and then canonicalization, owes from an offset on.\<close>

definition skips_to :: "u8 list \<Rightarrow> nat \<Rightarrow> nat \<Rightarrow> bool" where
  "skips_to source k k' \<longleftrightarrow> k \<le> k' \<and> k' \<le> length source \<and>
    (\<forall>i \<in> {k..<k'}. \<not> code_byte source i \<and> presentable source i)"

definition rejected_at :: "u8 list \<Rightarrow> nat \<Rightarrow> AnnotatedSourceError \<Rightarrow> bool" where
  "rejected_at source k e \<longleftrightarrow>
    (\<exists>i < length source. k \<le> i \<and> \<not> presentable source i \<and> (\<forall>j \<in> {k..<i}. presentable source j) \<and>
      e = (if commented source i then InvalidCommentByte i (source ! i)
        else InvalidPresentationByte i (source ! i)))"

lemma skips_to_refl: "k \<le> length source \<Longrightarrow> skips_to source k k"
  by (simp add: skips_to_def)

lemma skips_to_Suc:
  "skips_to source (Suc k) k' \<Longrightarrow> \<not> code_byte source k \<Longrightarrow> presentable source k \<Longrightarrow>
    skips_to source k k'"
  by (fastforce simp: skips_to_def Suc_le_eq nat_less_le)

lemma skips_to_one:
  "k < length source \<Longrightarrow> \<not> code_byte source k \<Longrightarrow> presentable source k \<Longrightarrow> skips_to source k (Suc k)"
  by (simp add: skips_to_Suc skips_to_refl)

lemma rejected_at_skip: "skips_to source k k' \<Longrightarrow> rejected_at source k' e \<Longrightarrow> rejected_at source k e"
  unfolding rejected_at_def skips_to_def
  by (metis (no_types, lifting) atLeastLessThan_iff le_trans not_le_imp_less)

lemma whitespace_skips:
  assumes "k < length source" and "is_source_whitespace (source ! k)" and "\<not> commented source k"
  shows "skips_to source k (Suc k)"
  using assms by (intro skips_to_one) (auto simp: code_byte_def presentable_def)

lemma comment_byte_skips:
  assumes "k < length source" and "commented source k"
    and "source ! k \<in> {9, 10, 13} \<or> (32 \<le> source ! k \<and> source ! k \<le> 126)"
  shows "skips_to source k (Suc k)"
  using assms by (intro skips_to_one) (auto simp: code_byte_def presentable_def)

lemma skips_to_trans: "skips_to source a b \<Longrightarrow> skips_to source b c \<Longrightarrow> skips_to source a c"
  unfolding skips_to_def by (metis atLeastLessThan_iff le_trans not_le_imp_less)

text \<open>The second byte of \<open>CR LF\<close> is whitespace of its own.\<close>

lemma line_feed_skips:
  assumes "source ! k = 13" and "get source (Suc k) = Some 10"
  shows "skips_to source (Suc k) (Suc (Suc k))"
proof (rule whitespace_skips)
  show "Suc k < length source" "is_source_whitespace (source ! Suc k)"
    using assms by (auto simp: get_Some_iff ws_values)
  show "\<not> commented source (Suc k)"
    using assms by (intro not_commented_line_start) (auto simp: get_Some_iff)
qed

lemma skips_break:
  assumes "k < length source" and "skips_to source k (Suc k)" and "cur_offset cur = k"
    and "cur' = advance_newline cur 1 \<and> source ! k = 10 \<or>
      cur' = advance_carriage_return cur source \<and> source ! k = 13"
  shows "skips_to source k (cur_offset cur')"
  using assms(4)
proof
  assume "cur' = advance_newline cur 1 \<and> source ! k = 10"
  then show ?thesis using assms by simp
next
  assume c: "cur' = advance_carriage_return cur source \<and> source ! k = 13"
  show ?thesis
  proof (cases "get source (Suc k) = Some 10")
    case True
    then have "cur_offset cur' = Suc (Suc k)"
      using c assms(3) by (simp add: advance_carriage_return_def Let_def)
    then show ?thesis
      using skips_to_trans[OF assms(2) line_feed_skips[OF _ True]] c by simp
  next
    case False
    then have "cur_offset cur' = Suc k"
      using c assms(3) by (simp add: advance_carriage_return_def Let_def)
    then show ?thesis using assms(2) by simp
  qed
qed

lemma positioned_break:
  assumes "placed source cur" and "cur_offset cur < length source"
    and "cur' = advance_newline cur 1 \<and> source ! cur_offset cur = 10 \<or>
      cur' = advance_carriage_return cur source \<and> source ! cur_offset cur = 13"
  shows "positioned source cur'"
  using assms(3)
proof
  assume "cur' = advance_newline cur 1 \<and> source ! cur_offset cur = 10"
  then show ?thesis
    using assms(1,2) by (auto simp: positioned_def placed_def advance_newline_def is_break_def)
next
  assume c: "cur' = advance_carriage_return cur source \<and> source ! cur_offset cur = 13"
  show ?thesis
    using c assms(1,2)
    by (cases "get source (Suc (cur_offset cur)) = Some 10")
      (auto simp: positioned_def placed_def advance_carriage_return_def advance_newline_def Let_def
        is_break_def get_Some_iff)
qed

lemma placed_regular:
  "placed source cur \<Longrightarrow> source ! cur_offset cur \<noteq> 10 \<Longrightarrow> source ! cur_offset cur \<noteq> 13 \<Longrightarrow>
    placed source (advance_regular cur)"
  by (simp add: placed_def advance_regular_def is_break_def)

lemma skip_comment_spec:
  assumes "cur_offset self \<le> length source"
    and "cur_offset self < length source \<Longrightarrow> placed source self \<and> commented source (cur_offset self)"
  shows "case skip_comment self source of
      Inr cur \<Rightarrow> positioned source cur \<and> skips_to source (cur_offset self) (cur_offset cur)
    | Inl e \<Rightarrow> rejected_at source (cur_offset self) e"
  using assms
proof (induction self source rule: skip_comment.induct)
  case (1 self source)
  define k where "k = cur_offset self"
  consider (at_end) "k = length source" | (break) "k < length source" "source ! k = 10 \<or> source ! k = 13"
    | (regular) "k < length source" "source ! k \<noteq> 10" "source ! k \<noteq> 13"
        "source ! k = 9 \<or> (0x20 \<le> source ! k \<and> source ! k \<le> 0x7e)"
    | (invalid) "k < length source" "source ! k \<noteq> 10" "source ! k \<noteq> 13"
        "\<not> (source ! k = 9 \<or> (0x20 \<le> source ! k \<and> source ! k \<le> 0x7e))"
    using le_imp_less_or_eq[OF "1.prems"(1)] unfolding k_def by blast
  then show ?case
  proof cases
    case at_end
    then show ?thesis
      by (simp add: skip_comment.simps[of self] k_def positioned_def skips_to_refl)
  next
    case break
    define cur where "cur = (if source ! k = 10 then advance_newline self 1
      else advance_carriage_return self source)"
    have s: "skip_comment self source = Inr cur"
      using break by (auto simp: skip_comment.simps[of self] k_def cur_def)
    have c: "cur = advance_newline self 1 \<and> source ! k = 10 \<or>
      cur = advance_carriage_return self source \<and> source ! k = 13"
      using break by (auto simp: cur_def)
    have "skips_to source k (Suc k)"
      using break "1.prems"(2) by (intro comment_byte_skips) (auto simp: k_def)
    then have "skips_to source k (cur_offset cur)"
      using skips_break[OF break(1) _ k_def[symmetric] c] by blast
    moreover have "positioned source cur"
      using positioned_break[of source self cur] c break(1) "1.prems"(2) unfolding k_def by blast
    ultimately show ?thesis unfolding s k_def by simp
  next
    case regular
    have one: "skips_to source k (Suc k)"
      using regular "1.prems"(2) by (intro comment_byte_skips) (auto simp: k_def)
    have "case skip_comment (advance_regular self) source of
        Inr cur \<Rightarrow> positioned source cur \<and>
          skips_to source (cur_offset (advance_regular self)) (cur_offset cur)
      | Inl e \<Rightarrow> rejected_at source (cur_offset (advance_regular self)) e"
    proof (rule "1.IH"[of "source ! k"])
      show "placed source (advance_regular self) \<and>
          commented source (cur_offset (advance_regular self))"
        using regular "1.prems"(2) placed_regular commented_Suc by (simp add: k_def)
    qed (use regular in \<open>auto simp: k_def\<close>)
    moreover have "skip_comment self source = skip_comment (advance_regular self) source"
      using regular by (auto simp: skip_comment.simps[of self] k_def)
    ultimately show ?thesis
      using skips_to_trans[OF one] rejected_at_skip[OF one]
      by (auto simp: k_def split: sum.splits)
  next
    case invalid
    then have "commented source k" using "1.prems"(2) by (simp add: k_def)
    then have "rejected_at source k (InvalidCommentByte k (source ! k))"
      using invalid by (auto simp: rejected_at_def presentable_def intro!: exI[of _ k])
    moreover have "skip_comment self source = Inl (InvalidCommentByte k (source ! k))"
      using invalid by (auto simp: skip_comment.simps[of self] k_def)
    ultimately show ?thesis by (simp add: k_def)
  qed
qed

lemma positioned_not_commented:
  assumes "positioned source cur" and "cur_offset cur < length source"
    and "\<not> comment_opens source (cur_offset cur)"
  shows "\<not> commented source (cur_offset cur)"
  using assms by (auto simp: positioned_def commented_def le_less)

lemma advance_whitespace_skips:
  assumes "k < length source" and "cur_offset cur = k" and "is_source_whitespace (source ! k)"
    and "\<not> commented source k"
  shows "skips_to source k (cur_offset (advance_whitespace cur source (source ! k)))"
proof (cases "source ! k = 10 \<or> source ! k = 13")
  case True
  then show ?thesis
    by (intro skips_break[OF assms(1) whitespace_skips[OF assms(1,3,4)] assms(2)])
      (auto simp: advance_whitespace_def)
next
  case False
  then show ?thesis
    using whitespace_skips[OF assms(1,3,4)] assms(2) by (simp add: advance_whitespace_def)
qed

text \<open>
  Canonicalization, from any cursor position: the bytes kept are the code bytes in order, each
  with its position, and an error is at the first byte that is not presentable.
\<close>

lemma canonicalize_loop_spec:
  assumes "positioned source cursor"
  shows "case canonicalize_loop source cursor bytes locations of
      Inr c \<Rightarrow> (\<forall>i \<in> {cur_offset cursor..<length source}. presentable source i) \<and>
        c = \<lparr>ca_bytes = bytes @
            map ((!) source) (filter (code_byte source) [cur_offset cursor..<length source]),
          ca_locations = locations @
            map (position_of source) (filter (code_byte source) [cur_offset cursor..<length source])\<rparr>
    | Inl e \<Rightarrow> rejected_at source (cur_offset cursor) e"
  using assms
proof (induction source cursor bytes locations rule: canonicalize_loop.induct)
  case (1 source cursor bytes locations)
  define k where "k = cur_offset cursor"
  have upt: "skips_to source k k' \<Longrightarrow>
      filter (code_byte source) [k..<length source] = filter (code_byte source) [k'..<length source]" for k'
    using upt_add_eq_append[of k k' "length source - k'"] by (auto simp: skips_to_def)
  have all: "skips_to source k k' \<Longrightarrow>
      (\<forall>i \<in> {k..<length source}. presentable source i) \<longleftrightarrow>
      (\<forall>i \<in> {k'..<length source}. presentable source i)" for k'
    unfolding skips_to_def by (metis atLeastLessThan_iff le_trans not_le_imp_less)
  consider (at_end) "length source \<le> k"
    | (comment) "k < length source" "comment_opens source k"
    | (white) "k < length source" "\<not> comment_opens source k" "is_source_whitespace (source ! k)"
    | (invalid) "k < length source" "\<not> comment_opens source k" "\<not> is_source_whitespace (source ! k)"
        "\<not> (33 \<le> source ! k \<and> source ! k \<le> 126)"
    | (code) "k < length source" "\<not> comment_opens source k" "\<not> is_source_whitespace (source ! k)"
        "33 \<le> source ! k \<and> source ! k \<le> 126"
    by (meson not_le_imp_less)
  then show ?case
  proof cases
    case at_end
    then show ?thesis by (simp add: canonicalize_loop.simps[of source cursor] k_def)
  next
    case comment
    have start: "is_comment_start source (cur_offset cursor) (cur_line_has_code cursor)"
      using comment_start_iff "1.prems" comment by (simp add: k_def)
    have spec: "case skip_comment cursor source of
        Inr cur \<Rightarrow> positioned source cur \<and> skips_to source k (cur_offset cur)
      | Inl e \<Rightarrow> rejected_at source k e"
      unfolding k_def using "1.prems" comment commented_opening
      by (intro skip_comment_spec) (auto simp: positioned_def k_def)
    show ?thesis
    proof (cases "skip_comment cursor source")
      case (Inl e)
      then show ?thesis using spec start comment
        by (simp add: canonicalize_loop.simps[of source cursor] k_def)
    next
      case (Inr cur)
      then have "positioned source cur" and sk: "skips_to source k (cur_offset cur)"
        using spec by simp_all
      moreover have "canonicalize_loop source cursor bytes locations =
          canonicalize_loop source cur bytes locations"
        using Inr start comment by (simp add: canonicalize_loop.simps[of source cursor] k_def)
      ultimately show ?thesis
        using "1.IH"(1)[OF _ start Inr] comment rejected_at_skip[OF sk] upt[OF sk] all[OF sk]
        by (auto simp: k_def split: sum.splits)
    qed
  next
    case white
    have start: "\<not> is_comment_start source (cur_offset cursor) (cur_line_has_code cursor)"
      using comment_start_iff "1.prems" white by (simp add: k_def)
    let ?cur = "advance_whitespace cursor source (source ! k)"
    have pos: "positioned source ?cur"
      unfolding k_def using positioned_whitespace "1.prems" white by (simp add: k_def)
    have sk: "skips_to source k (cur_offset ?cur)"
      using advance_whitespace_skips[OF white(1) k_def[symmetric] white(3)]
        positioned_not_commented[OF "1.prems"] white by (simp add: k_def)
    have "canonicalize_loop source cursor bytes locations = canonicalize_loop source ?cur bytes locations"
      using start white by (simp add: canonicalize_loop.simps[of source cursor] k_def)
    then show ?thesis
      using "1.IH"(2)[of "source ! k"] start white pos rejected_at_skip[OF sk] upt[OF sk] all[OF sk]
      by (auto simp: k_def split: sum.splits)
  next
    case invalid
    have start: "\<not> is_comment_start source (cur_offset cursor) (cur_line_has_code cursor)"
      using comment_start_iff "1.prems" invalid by (simp add: k_def)
    have "\<not> commented source k"
      using positioned_not_commented[OF "1.prems"] invalid by (simp add: k_def)
    then have "rejected_at source k (InvalidPresentationByte k (source ! k))"
      using invalid by (auto simp: rejected_at_def presentable_def intro!: exI[of _ k])
    then show ?thesis
      using start invalid by (simp add: canonicalize_loop.simps[of source cursor] k_def)
  next
    case code
    have start: "\<not> is_comment_start source (cur_offset cursor) (cur_line_has_code cursor)"
      using comment_start_iff "1.prems" code by (simp add: k_def)
    have nc: "\<not> commented source k"
      using positioned_not_commented[OF "1.prems"] code by (simp add: k_def)
    let ?cur = "advance_regular (cursor\<lparr>cur_line_has_code := True\<rparr>)"
    have pos: "positioned source ?cur"
      using positioned_code "1.prems" code by (simp add: k_def)
    have here: "\<lparr>loc_column = cur_column cursor, loc_line = cur_line cursor, loc_offset = k\<rparr> =
        position_of source k"
      using "1.prems" code by (auto simp: positioned_def placed_def position_of_def k_def)
    have kept: "filter (code_byte source) [k..<length source] =
        k # filter (code_byte source) [Suc k..<length source]"
      using code nc by (simp add: upt_conv_Cons code_byte_def)
    have pk: "presentable source k" using code nc by (simp add: presentable_def)
    have ats: "{k..<length source} = insert k {Suc k..<length source}" using code by auto
    have rej: "rejected_at source (Suc k) e \<Longrightarrow> rejected_at source k e" for e
      unfolding rejected_at_def using pk
      by (metis Suc_leD atLeastLessThan_iff le_antisym not_less_eq_eq)
    have "canonicalize_loop source cursor bytes locations =
        canonicalize_loop source ?cur (bytes @ [source ! k]) (locations @ [position_of source k])"
      using start code here by (simp add: canonicalize_loop.simps[of source cursor] k_def)
    then show ?thesis
      using "1.IH"(3)[of "source ! k"] start code pos here rej kept pk unfolding ats[unfolded k_def]
      by (auto simp: k_def split: sum.splits)
  qed
qed

lemma canonicalize_spec:
  "case canonicalize_annotated_source source of
    Inr c \<Rightarrow> (\<forall>i < length source. presentable source i) \<and>
      ca_bytes c = map ((!) source) (filter (code_byte source) [0..<length source]) \<and>
      ca_locations c = map (position_of source) (filter (code_byte source) [0..<length source])
  | Inl e \<Rightarrow> rejected_at source 0 e"
  using canonicalize_loop_spec[OF positioned_default, of source "[]" "[]"]
  by (auto simp: canonicalize_annotated_source_def source_cursor_default_def split: sum.splits)

subsection \<open>Formatting and the raw loader\<close>

lemma map_nth_filter: "map ((!) xs) (filter (\<lambda>i. P (xs ! i)) [0..<length xs]) = filter P xs"
  using filter_map[of P "(!) xs" "[0..<length xs]"] by (simp add: map_nth comp_def)

lemma not_commented: "35 \<notin> set source \<Longrightarrow> \<not> commented source k"
  by (auto simp: commented_def comment_opens_def get_Some_iff dest: nth_mem)

lemma canonicalize_uncommented:
  assumes "35 \<notin> set source" and "canonicalize_annotated_source source = Inr c"
  shows "ca_bytes c = source_bytes source \<and> (\<forall>b \<in> set (source_bytes source). 33 \<le> b \<and> b \<le> 126)"
proof -
  have "code_byte source = (\<lambda>i. \<not> is_source_whitespace (source ! i))"
    using not_commented[OF assms(1)] by (auto simp: code_byte_def)
  then show ?thesis
    using canonicalize_spec[of source] assms not_commented[OF assms(1)]
      map_nth_filter[of source "\<lambda>b. \<not> is_source_whitespace b"]
    by (auto simp: source_bytes_def presentable_def in_set_conv_nth)
qed

fun wrapped :: "nat \<Rightarrow> nat \<Rightarrow> u8 list \<Rightarrow> u8 list" where
  "wrapped width k [] = []"
| "wrapped width k (b # bs) =
    (if k \<noteq> 0 \<and> k mod width = 0 then [10, b] else [b]) @ wrapped width (Suc k) bs"

lemma format_loop_wrapped:
  "\<forall>b \<in> set bs. 33 \<le> b \<and> b \<le> 126 \<Longrightarrow>
    format_loop width k bs acc = Inr (acc @ wrapped width k bs)"
  by (induction bs arbitrary: k acc) (auto simp: Let_def)

lemma wrapped_append: "wrapped width k (xs @ ys) = wrapped width k xs @ wrapped width (k + length xs) ys"
  by (induction xs arbitrary: k) auto

lemma wrapped_set: "set (wrapped width k bs) \<subseteq> insert 10 (set bs)"
  by (induction bs arbitrary: k) auto

lemma line_start_append: "k \<le> length xs \<Longrightarrow> line_start (xs @ ys) k = line_start xs k"
  by (induction k) (auto simp: nth_append)

lemma breaks_append: "k \<le> length xs \<Longrightarrow> 13 \<notin> set xs \<Longrightarrow> breaks (xs @ ys) k = breaks xs k"
  by (induction k) (auto simp: nth_append is_break_def in_set_conv_nth)

lemma graphical_not_white: "33 \<le> (b :: u8) \<Longrightarrow> \<not> is_source_whitespace b"
  by (auto simp: is_source_whitespace_def)

text \<open>Where each byte of a wrapped source stands, by adding one byte at a time.\<close>

definition wrapped_offset :: "nat \<Rightarrow> nat \<Rightarrow> nat" where
  "wrapped_offset width i = i + i div width"

definition laid_out :: "nat \<Rightarrow> u8 list \<Rightarrow> u8 list \<Rightarrow> bool" where
  "laid_out width bs out \<longleftrightarrow>
    length out = length bs + (length bs - 1) div width \<and>
    breaks out (length out) = (length bs - 1) div width \<and>
    line_start out (length out) = (length bs - 1) div width * Suc width \<and>
    map ((!) out) (map (wrapped_offset width) [0..<length bs]) = bs \<and>
    filter (\<lambda>k. \<not> is_source_whitespace (out ! k)) [0..<length out] =
      map (wrapped_offset width) [0..<length bs] \<and>
    map (position_of out) (map (wrapped_offset width) [0..<length bs]) =
      map (\<lambda>i. \<lparr>loc_column = Suc (i mod width), loc_line = Suc (i div width),
        loc_offset = wrapped_offset width i\<rparr>) [0..<length bs]"

lemma position_of_append:
  "k \<le> length xs \<Longrightarrow> 13 \<notin> set xs \<Longrightarrow> position_of (xs @ ys) k = position_of xs k"
  by (simp add: position_of_def line_start_append breaks_append)

lemma wrapped_offset_lt:
  assumes "laid_out width bs out" and "i < length bs"
  shows "wrapped_offset width i < length out"
proof -
  have kept: "filter (\<lambda>k. \<not> is_source_whitespace (out ! k)) [0..<length out] =
      map (wrapped_offset width) [0..<length bs]"
    using assms(1) unfolding laid_out_def by blast
  have "wrapped_offset width i \<in> set (map (wrapped_offset width) [0..<length bs])"
    using assms(2) by simp
  then show ?thesis unfolding kept[symmetric] by simp
qed

lemma laid_out_snoc:
  assumes l: "laid_out width bs out" and w: "0 < width" and b: "33 \<le> b" and cr: "13 \<notin> set out"
    and sep: "sep = (if length bs \<noteq> 0 \<and> length bs mod width = 0 then [10 :: u8] else [])"
  shows "laid_out width (bs @ [b]) (out @ sep @ [b])"
proof -
  define n where "n = length bs"
  note L = l[unfolded laid_out_def, folded n_def]
  have len: "length out = n + (n - 1) div width" and br: "breaks out (length out) = (n - 1) div width"
    and ls: "line_start out (length out) = (n - 1) div width * Suc width"
    and read_old: "map ((!) out) (map (wrapped_offset width) [0..<n]) = bs"
    and kept_old: "filter (\<lambda>k. \<not> is_source_whitespace (out ! k)) [0..<length out] =
      map (wrapped_offset width) [0..<n]"
    and pos_old: "map (position_of out) (map (wrapped_offset width) [0..<n]) =
      map (\<lambda>i. \<lparr>loc_column = Suc (i mod width), loc_line = Suc (i div width),
        loc_offset = wrapped_offset width i\<rparr>) [0..<n]" using L by blast+
  have white: "\<not> is_source_whitespace b" using b by (rule graphical_not_white)
  have off: "length out + length sep = wrapped_offset width n"
    using w len div_Suc[of "n - 1" width] by (cases n) (auto simp: sep n_def[symmetric] wrapped_offset_def)
  have sepd: "sep = [] \<or> sep = [10]" by (simp add: sep)
  have cr': "13 \<notin> set (out @ sep)" using cr sepd by auto
  have b': "b \<noteq> 10" "b \<noteq> 13" using b by auto
  have brn: "breaks (out @ sep) (length (out @ sep)) = n div width"
    using w br div_Suc[of "n - 1" width] cr
    by (cases n) (auto simp: sep n_def[symmetric] breaks_append is_break_def)
  have lsn: "line_start (out @ sep) (length (out @ sep)) = n div width * Suc width"
  proof (cases "n \<noteq> 0 \<and> n mod width = 0")
    case True
    then have sep10: "sep = [10]" and n: "n = n div width * width"
      using div_mult_mod_eq[of n width] by (simp_all add: sep n_def)
    have "line_start (out @ sep) (length (out @ sep)) = Suc (length out)"
      by (simp add: sep10)
    also have "\<dots> = n + n div width" using off sep10 by (simp add: wrapped_offset_def)
    also have "\<dots> = n div width * Suc width" using n by simp
    finally show ?thesis .
  next
    case False
    then have "sep = []" "n div width = (n - 1) div width"
      using w div_Suc[of "n - 1" width] by (cases n; auto simp: sep n_def[symmetric])+
    then show ?thesis using ls by (simp del: mult_Suc_right)
  qed
  define full where "full = out @ sep @ [b]"
  have old: "position_of full (wrapped_offset width i) = position_of out (wrapped_offset width i)"
    "full ! wrapped_offset width i = out ! wrapped_offset width i" if "i < n" for i
    using wrapped_offset_lt[OF l that[unfolded n_def]] cr
    by (auto simp: full_def position_of_append nth_append)
  have at: "full ! wrapped_offset width n = b"
    unfolding off[symmetric] full_def by (simp add: nth_append)
  have pos: "position_of full (wrapped_offset width n) =
      \<lparr>loc_column = Suc (n mod width), loc_line = Suc (n div width),
        loc_offset = wrapped_offset width n\<rparr>"
  proof -
    have "position_of full (wrapped_offset width n) = position_of (out @ sep) (wrapped_offset width n)"
      using position_of_append[of "wrapped_offset width n" "out @ sep" "[b]"] cr' off
      by (simp add: full_def)
    moreover have "Suc (wrapped_offset width n) - n div width * Suc width = Suc (n mod width)"
      unfolding wrapped_offset_def mult_Suc_right using div_mult_mod_eq[of n width] by linarith
    ultimately show ?thesis
      using brn lsn off by (simp add: position_of_def del: mult_Suc_right)
  qed
  have len': "length full = Suc (wrapped_offset width n)" using off by (simp add: full_def)
  have end_old: "breaks full (wrapped_offset width n) = n div width"
    "line_start full (wrapped_offset width n) = n div width * Suc width"
    using breaks_append[of "wrapped_offset width n" "out @ sep" "[b]"]
      line_start_append[of "wrapped_offset width n" "out @ sep" "[b]"] cr' off brn lsn
    by (simp_all add: full_def del: mult_Suc_right)
  have kept: "filter (\<lambda>k. \<not> is_source_whitespace (full ! k)) [0..<length full] =
      map (wrapped_offset width) [0..<Suc n]"
  proof -
    have "[0..<length full] = [0..<length out] @ [length out..<length out + length sep] @ [wrapped_offset width n]"
      using upt_add_eq_append[of 0 "length out" "length sep"] off[symmetric]
      by (simp add: full_def)
    moreover have "filter (\<lambda>k. \<not> is_source_whitespace (full ! k)) [0..<length out] =
        map (wrapped_offset width) [0..<n]"
    proof -
      have "filter (\<lambda>k. \<not> is_source_whitespace (full ! k)) [0..<length out] =
          filter (\<lambda>k. \<not> is_source_whitespace (out ! k)) [0..<length out]"
        by (rule filter_cong) (auto simp: full_def nth_append)
      then show ?thesis using kept_old by (rule trans)
    qed
    moreover have "filter (\<lambda>k. \<not> is_source_whitespace (full ! k))
        [length out..<length out + length sep] = []"
      using sepd by (auto simp: full_def nth_append ws_values)
    ultimately show ?thesis using at white by simp
  qed
  have sn: "length (bs @ [b]) = Suc n" "(Suc n - 1) div width = n div width"
    by (simp_all add: n_def)
  have "length full = Suc n + n div width" using len' by (simp add: wrapped_offset_def)
  moreover have "breaks full (length full) = n div width"
    "line_start full (length full) = n div width * Suc width"
    unfolding len' using end_old at b' by (simp_all add: is_break_def del: mult_Suc_right)
  moreover have "map ((!) full) (map (wrapped_offset width) [0..<n]) =
      map ((!) out) (map (wrapped_offset width) [0..<n])"
    using old(2) by simp
  then have "map ((!) full) (map (wrapped_offset width) [0..<Suc n]) = bs @ [b]"
    using read_old at by (simp del: map_map map_eq_conv)
  moreover have "map (position_of full) (map (wrapped_offset width) [0..<n]) =
      map (position_of out) (map (wrapped_offset width) [0..<n])"
    using old(1) by simp
  then have "map (position_of full) (map (wrapped_offset width) [0..<Suc n]) =
      map (\<lambda>i. \<lparr>loc_column = Suc (i mod width), loc_line = Suc (i div width),
        loc_offset = wrapped_offset width i\<rparr>) [0..<Suc n]"
    using pos_old pos by (simp del: map_map map_eq_conv)
  ultimately show ?thesis
    unfolding laid_out_def full_def[symmetric] sn using kept by blast
qed

lemma wrapped_laid_out:
  assumes "0 < width" and "\<forall>b \<in> set bs. 33 \<le> b \<and> b \<le> 126"
  shows "laid_out width bs (wrapped width 0 bs)"
  using assms(2)
proof (induction bs rule: rev_induct)
  case Nil
  then show ?case by (simp add: laid_out_def)
next
  case (snoc b bs)
  have "13 \<notin> set (wrapped width 0 bs)"
    using wrapped_set[of width 0 bs] snoc.prems by fastforce
  moreover have "wrapped width 0 (bs @ [b]) = wrapped width 0 bs @
      (if length bs \<noteq> 0 \<and> length bs mod width = 0 then [10] else []) @ [b]"
    by (simp add: wrapped_append)
  ultimately show ?case
    using laid_out_snoc[OF _ assms(1)] snoc by simp
qed

lemma format_then_canonicalize:
  assumes "0 < width" and "\<forall>b \<in> set bs. 33 \<le> b \<and> b \<le> 126"
  shows "\<exists>out. format_annotated_source bs width = Inr out \<and>
    canonicalize_annotated_source out = Inr \<lparr>ca_bytes = bs,
      ca_locations = map (\<lambda>i. \<lparr>loc_column = Suc (i mod width), loc_line = Suc (i div width),
        loc_offset = wrapped_offset width i\<rparr>) [0..<length bs]\<rparr>"
proof -
  define out where "out = wrapped width 0 bs"
  have l: "laid_out width bs out"
    using wrapped_laid_out[OF assms] by (simp add: out_def)
  have kept: "filter (\<lambda>k. \<not> is_source_whitespace (out ! k)) [0..<length out] =
      map (wrapped_offset width) [0..<length bs]"
    and read: "map ((!) out) (map (wrapped_offset width) [0..<length bs]) = bs"
    and pos: "map (position_of out) (map (wrapped_offset width) [0..<length bs]) =
      map (\<lambda>i. \<lparr>loc_column = Suc (i mod width), loc_line = Suc (i div width),
        loc_offset = wrapped_offset width i\<rparr>) [0..<length bs]"
    using l unfolding laid_out_def by blast+
  have bytes: "b = 10 \<or> 33 \<le> b \<and> b \<le> 126" if "b \<in> set out" for b
    using wrapped_set[of width 0 bs] assms(2) that unfolding out_def by fastforce
  have nc: "\<not> commented out k" for k
    using bytes by (fastforce simp: commented_def comment_opens_def get_Some_iff dest: nth_mem)
  then have code: "code_byte out = (\<lambda>k. \<not> is_source_whitespace (out ! k))"
    by (auto simp: code_byte_def)
  have "\<forall>i < length out. presentable out i"
    using bytes nc by (fastforce simp: presentable_def ws_values dest: nth_mem)
  then have "\<not> rejected_at out 0 e" for e by (auto simp: rejected_at_def)
  then obtain c where "canonicalize_annotated_source out = Inr c"
    using canonicalize_spec[of out] by (auto split: sum.splits)
  then have "canonicalize_annotated_source out = Inr \<lparr>ca_bytes = bs,
      ca_locations = map (\<lambda>i. \<lparr>loc_column = Suc (i mod width), loc_line = Suc (i div width),
        loc_offset = wrapped_offset width i\<rparr>) [0..<length bs]\<rparr>"
    using canonicalize_spec[of out] by (cases c) (simp add: code kept read pos del: map_map map_eq_conv)
  then show ?thesis
    using assms format_loop_wrapped[OF assms(2), of width 0 "[]"]
    by (simp add: format_annotated_source_def out_def)
qed

lemma first_bad_unique:
  assumes "i < length xs" "\<not> P (xs ! i)" "\<forall>j < i. P (xs ! j)"
    and "k < length xs" "\<not> P (xs ! k)" "\<forall>j < k. P (xs ! j)"
  shows "i = (k :: nat)"
  using assms by (metis linorder_neqE_nat)

lemma rejected_uncommented:
  assumes "35 \<notin> set source" and "rejected_at source 0 e"
  shows "\<exists>k b. e = InvalidPresentationByte k b \<and> collect_loop 0 source [] = Inl (InvalidSourceByte k b)"
proof -
  let ?P = "\<lambda>b. is_source_whitespace b \<or> (33 \<le> b \<and> b \<le> 126)"
  obtain i where i: "i < length source" "\<not> ?P (source ! i)" "\<forall>j < i. ?P (source ! j)"
    and e: "e = InvalidPresentationByte i (source ! i)"
    using assms(2) not_commented[OF assms(1)] by (auto simp: rejected_at_def presentable_def)
  have "collect_loop 0 source [] \<noteq> Inr bs" for bs
    using i(1,2) by (auto simp: collect_loop_Inr source_bytes_def in_set_conv_nth)
  then obtain e' where e': "collect_loop 0 source [] = Inl e'" by (cases "collect_loop 0 source []") auto
  from collect_loop_Inl[OF this] obtain k where k: "k < length source" "\<not> ?P (source ! k)"
    "\<forall>j < k. ?P (source ! j)" and e'': "e' = InvalidSourceByte k (source ! k)" by auto
  have "i = k" using first_bad_unique[of i source ?P k] i k by blast
  then show ?thesis using e e' e'' by blast
qed

lemma presented_load:
  assumes "\<forall>b \<in> set (source_bytes source). 33 \<le> b \<and> b \<le> 126"
  shows "load source \<noteq> Inl (InvalidSourceByte k b)"
  using load_invalid_byte[of source k b] assms
    collect_loop_Inr[of 0 source "[]" "source_bytes source"] by auto

subsection \<open>Properties\<close>

text \<open>
  The formatter and the canonicalizer are inverse, with an exact source map. Wrapping
  graphical bytes at a positive width always succeeds, the wrapped text canonicalizes to the very
  bytes, and byte \<open>i\<close> is located at line \<open>i div width + 1\<close>, column \<open>i mod width + 1\<close> and the
  offset that counts the line feeds before it. No wrapped line is ever taken for a comment.
\<close>
lemma annotated_layout_roundtrip:
  assumes "0 < width" and "\<forall>b \<in> set bs. 33 \<le> b \<and> b \<le> 126"
  shows "\<exists>out. format_annotated_source bs width = Inr out \<and>
    canonicalize_annotated_source out = Inr \<lparr>ca_bytes = bs,
      ca_locations = map (\<lambda>i. \<lparr>loc_column = Suc (i mod width), loc_line = Suc (i div width),
        loc_offset = i + i div width\<rparr>) [0..<length bs]\<rparr>"
  using format_then_canonicalize[OF assms] by (simp add: wrapped_offset_def)

lemma annotated_layout_roundtrip_witness:
  "\<exists>out. format_annotated_source [35, 40, 35] 2 = Inr out \<and>
    canonicalize_annotated_source out = Inr \<lparr>ca_bytes = [35, 40, 35],
      ca_locations = [\<lparr>loc_column = 1, loc_line = 1, loc_offset = 0\<rparr>,
        \<lparr>loc_column = 2, loc_line = 1, loc_offset = 1\<rparr>,
        \<lparr>loc_column = 1, loc_line = 2, loc_offset = 3\<rparr>]\<rparr>"
proof -
  have "(0 :: nat) < 2" "\<forall>b \<in> set [35, 40, 35 :: u8]. 33 \<le> b \<and> b \<le> 126" by simp_all
  note t = annotated_layout_roundtrip[OF this]
  have "map (\<lambda>i. \<lparr>loc_column = Suc (i mod 2), loc_line = Suc (i div 2), loc_offset = i + i div 2\<rparr>)
      [0..<length [35 :: u8, 40, 35]] =
      [\<lparr>loc_column = 1, loc_line = 1, loc_offset = 0\<rparr>,
        \<lparr>loc_column = 2, loc_line = 1, loc_offset = 1\<rparr>,
        \<lparr>loc_column = 1, loc_line = 2, loc_offset = 3\<rparr>]"
    by code_simp
  from t[unfolded this] show ?thesis .
qed

text \<open>
  C36: canonicalization is exact. On success every byte of the source is presentable and the
  canonical bytes are, in order, those that are neither whitespace nor in a comment, each located
  at its line (\<open>CR\<close>, \<open>LF\<close> and \<open>CR LF\<close> end one), column and offset; an error is at the first byte
  that is not presentable, and of the kind of the place it stands in.
\<close>
theorem canonicalization_is_exact:
  "case canonicalize_annotated_source source of
    Inr c \<Rightarrow> (\<forall>i < length source. presentable source i) \<and>
      ca_bytes c = map ((!) source) (filter (code_byte source) [0..<length source]) \<and>
      ca_locations c = map (position_of source) (filter (code_byte source) [0..<length source])
  | Inl e \<Rightarrow> (\<exists>i < length source. \<not> presentable source i \<and> (\<forall>j < i. presentable source j) \<and>
      e = (if commented source i then InvalidCommentByte i (source ! i)
        else InvalidPresentationByte i (source ! i)))"
  using canonicalize_spec[of source] by (auto simp: rejected_at_def split: sum.splits)

definition demo_source :: "u8 list" where "demo_source = [35, 32, 40, 13, 10, 40]"

theorem canonicalization_is_exact_witness:
  "map ((!) demo_source) (filter (code_byte demo_source) [0..<length demo_source]) = [40] \<and>
    map (position_of demo_source) (filter (code_byte demo_source) [0..<length demo_source]) =
      [\<lparr>loc_column = 1, loc_line = 2, loc_offset = 5\<rparr>]"
proof -
  have "canonicalize_annotated_source demo_source = Inr \<lparr>ca_bytes = [40],
      ca_locations = [\<lparr>loc_column = 1, loc_line = 2, loc_offset = 5\<rparr>]\<rparr>"
    by code_simp
  then show ?thesis using canonicalization_is_exact[of demo_source] by simp
qed

text \<open>
  On a source without a hash the annotated constructor of the classic machine is the raw one:
  it builds the same machine or fails with the same error, a byte that is not graphical being
  reported at the same offset by the canonicalizer instead of the loader.
\<close>
lemma annotated_source_without_hash:
  assumes "35 \<notin> set source"
  shows "from_annotated_source source input =
    (case from_source source input of
      Inl (InvalidSourceByte k b) \<Rightarrow> Inl (AnnotatedFailure (InvalidPresentationByte k b))
    | Inl e \<Rightarrow> Inl (LoadFailure e)
    | Inr m \<Rightarrow> Inr m)"
proof (cases "canonicalize_annotated_source source")
  case (Inl e)
  then obtain k b where "e = InvalidPresentationByte k b"
    "collect_loop 0 source [] = Inl (InvalidSourceByte k b)"
    using canonicalize_spec[of source] rejected_uncommented[OF assms, of e] by auto
  then show ?thesis
    using Inl by (simp add: from_annotated_source_def from_source_def load_def collect_source_def)
next
  case (Inr c)
  note c = canonicalize_uncommented[OF assms Inr]
  then have "from_annotated_source source input = map_err LoadFailure (from_source source input)"
    using Inr load_source_bytes[of source] by (simp add: from_annotated_source_def from_source_def)
  then show ?thesis
    using presented_load[of source] c
    by (cases "load source") (auto simp: from_source_def split: LoadError.split)
qed

lemma annotated_source_without_hash_witness:
  "from_annotated_source [40, 32, 7, 39] [] = Inl (AnnotatedFailure (InvalidPresentationByte 2 7))"
  using annotated_source_without_hash[of "[40, 32, 7, 39]" "[]"]
  by (simp add: from_source_def load_def collect_source_def is_source_whitespace_def)

end
