(* ===== verification/Execution.thy ===== *)
theory Execution
  imports Annotated Equivalence
begin

text \<open>
  \<open>domain/execution.rs\<close>: the facade that fixes an execution mode and a profile for a classic
  machine and tags every failure with the mode. Methods that take \<open>&mut self\<close> return the new
  machine; the accessors are the record's selectors.
\<close>

datatype ExecutionErrorKind =
    ExecutionLoad LoadError
  | ExecutionFailure MachineError
  | ExecutionProfile ProfileRequirementError

record ExecutionError =
  ee_kind :: ExecutionErrorKind
  ee_mode :: ExecutionMode

definition execution_error_load :: "ExecutionMode \<Rightarrow> LoadError \<Rightarrow> ExecutionError" where
  "execution_error_load mode e = \<lparr>ee_kind = ExecutionLoad e, ee_mode = mode\<rparr>"

definition execution_error_machine :: "ExecutionMode \<Rightarrow> MachineError \<Rightarrow> ExecutionError" where
  "execution_error_machine mode e = \<lparr>ee_kind = ExecutionFailure e, ee_mode = mode\<rparr>"

definition execution_error_profile ::
  "ExecutionMode \<Rightarrow> ProfileRequirementError \<Rightarrow> ExecutionError" where
  "execution_error_profile mode e = \<lparr>ee_kind = ExecutionProfile e, ee_mode = mode\<rparr>"

record ExecutionMachine =
  em_machine :: Machine
  em_mode :: ExecutionMode
  em_profile :: ProfileDescriptor

definition execution_from_source_for_profile ::
  "u8 list \<Rightarrow> u8 list \<Rightarrow> ExecutionMode \<Rightarrow> ProfileDescriptor \<Rightarrow>
    ExecutionError + ExecutionMachine" where
  "execution_from_source_for_profile source input mode profile =
    (case preflight_profile profile (source_word_requirement source) SAFE_RUST_CLASSIC of
      Inl e \<Rightarrow> Inl (execution_error_profile mode e)
    | Inr _ \<Rightarrow>
        (case from_source source input of
          Inl e \<Rightarrow> Inl (execution_error_load mode e)
        | Inr machine \<Rightarrow> Inr \<lparr>em_machine = machine, em_mode = mode, em_profile = profile\<rparr>))"

definition execution_from_source ::
  "u8 list \<Rightarrow> u8 list \<Rightarrow> ExecutionMode \<Rightarrow> ExecutionError + ExecutionMachine" where
  "execution_from_source source input mode =
    execution_from_source_for_profile source input mode historical_profile"

definition execution_from_annotated_source_for_profile ::
  "u8 list \<Rightarrow> u8 list \<Rightarrow> ExecutionMode \<Rightarrow> ProfileDescriptor \<Rightarrow>
    ExecutionError AnnotatedLoadError + ExecutionMachine" where
  "execution_from_annotated_source_for_profile source input mode profile =
    (case canonicalize_annotated_source source of
      Inl e \<Rightarrow> Inl (AnnotatedFailure e)
    | Inr c \<Rightarrow> map_err LoadFailure (execution_from_source_for_profile (ca_bytes c) input mode profile))"

definition execution_from_annotated_source ::
  "u8 list \<Rightarrow> u8 list \<Rightarrow> ExecutionMode \<Rightarrow> ExecutionError AnnotatedLoadError + ExecutionMachine" where
  "execution_from_annotated_source source input mode =
    (case canonicalize_annotated_source source of
      Inl e \<Rightarrow> Inl (AnnotatedFailure e)
    | Inr c \<Rightarrow> map_err LoadFailure (execution_from_source (ca_bytes c) input mode))"

definition execution_from_snapshot ::
  "MachineState \<Rightarrow> ExecutionMode \<Rightarrow> ProfileDescriptor \<Rightarrow> ExecutionError + ExecutionMachine" where
  "execution_from_snapshot state mode profile =
    (case preflight_profile profile (pd_memory_words profile) SAFE_RUST_CLASSIC of
      Inl e \<Rightarrow> Inl (execution_error_profile mode e)
    | Inr _ \<Rightarrow> Inr \<lparr>em_machine = from_snapshot state, em_mode = mode, em_profile = profile\<rparr>)"

definition execution_from_state ::
  "Memory \<Rightarrow> u8 list \<Rightarrow> Registers \<Rightarrow> ExecutionMode \<Rightarrow> ExecutionMachine" where
  "execution_from_state memory input registers mode =
    \<lparr>em_machine = with_registers memory input registers, em_mode = mode,
     em_profile = historical_profile\<rparr>"

definition execution_run ::
  "usize \<Rightarrow> ExecutionMachine \<Rightarrow> (ExecutionError + RunOutcome) \<times> ExecutionMachine" where
  "execution_run step_budget self =
    (let (r, machine) = run_in_mode (em_mode self) step_budget (em_machine self)
     in (map_err (execution_error_machine (em_mode self)) r, self\<lparr>em_machine := machine\<rparr>))"

definition execution_run_traced ::
  "('o \<Rightarrow> StepTrace \<Rightarrow> 'o) \<Rightarrow> usize \<Rightarrow> ExecutionMachine \<Rightarrow> 'o \<Rightarrow>
    (ExecutionError + RunOutcome) \<times> ExecutionMachine \<times> 'o" where
  "execution_run_traced observer step_budget self obs =
    (let (r, machine, obs') = run_traced_in_mode (em_mode self) observer step_budget (em_machine self) obs
     in (map_err (execution_error_machine (em_mode self)) r, self\<lparr>em_machine := machine\<rparr>, obs'))"

definition execution_step ::
  "ExecutionMachine \<Rightarrow> (ExecutionError + StepOutcome) \<times> ExecutionMachine" where
  "execution_step self =
    (let (r, machine) = step_in_mode (em_mode self) (em_machine self)
     in (map_err (execution_error_machine (em_mode self)) r, self\<lparr>em_machine := machine\<rparr>))"

definition execution_step_traced ::
  "('o \<Rightarrow> StepTrace \<Rightarrow> 'o) \<Rightarrow> ExecutionMachine \<Rightarrow> 'o \<Rightarrow>
    (ExecutionError + StepOutcome) \<times> ExecutionMachine \<times> 'o" where
  "execution_step_traced observer self obs =
    (let (r, machine, obs') = step_traced_in_mode (em_mode self) observer (em_machine self) obs
     in (map_err (execution_error_machine (em_mode self)) r, self\<lparr>em_machine := machine\<rparr>, obs'))"

definition execution_snapshot_state :: "ExecutionMachine \<Rightarrow> MachineState" where
  "execution_snapshot_state self = snapshot_state (em_machine self)"

definition execution_memory_word :: "ExecutionMachine \<Rightarrow> cword \<Rightarrow> MemoryError + cword" where
  "execution_memory_word self address = memory_word (em_machine self) address"

definition verifier_eligible :: "ExecutionMachine \<Rightarrow> bool" where
  "verifier_eligible self = is_verifier_eligible (em_mode self)"

subsection \<open>Property\<close>

lemma preflight_profile_classic:
  "preflight_profile p n SAFE_RUST_CLASSIC = Inr () \<longleftrightarrow>
    n \<le> pd_memory_words p \<and> pd_word_trits p \<le> 10 \<and> pd_memory_words p \<le> 59049"
  by (auto simp: preflight_profile_def runtime_geometry_missing_def normative_missing_empty Let_def
      SAFE_RUST_CLASSIC_def)

text \<open>
  The facade admits exactly what the classic runtime can execute. For a canonical profile it
  constructs a machine exactly when the profile has ten-trit words and the classic loader accepts
  the source; the machine is then the loaded one with the mode and profile that were asked for, and
  every failure carries that mode.
\<close>
lemma execution_admits_exactly:
  assumes "target_profile s = Some p" and "length source \<le> U64_MAX"
  shows "(execution_from_source_for_profile source input mode p = Inr em \<longleftrightarrow>
      pd_word_trits p = 10 \<and> from_source source input = Inr (em_machine em) \<and>
      em = \<lparr>em_machine = em_machine em, em_mode = mode, em_profile = p\<rparr>) \<and>
    (execution_from_source_for_profile source input mode p = Inl e \<longrightarrow> ee_mode e = mode)"
proof
  have p: "pd_memory_words p = 3 ^ pd_word_trits p" "10 \<le> pd_word_trits p"
    using target_profile_wf[OF assms(1)] by (auto simp: wf_profile_def)
  have fits: "source_word_requirement source \<le> pd_memory_words p"
    if "pd_word_trits p = 10" and "from_source source input = Inr m" for m
  proof -
    have "length (source_bytes source) \<le> MEMORY_WORDS"
      using that(2) load_ok_iff[of source] by (auto simp: from_source_def)
    then show ?thesis
      using that(1) p source_word_requirement_length[OF assms(2)] by (simp add: MEMORY_WORDS_def)
  qed
  have admitted: "preflight_profile p (source_word_requirement source) SAFE_RUST_CLASSIC = Inr () \<longleftrightarrow>
      source_word_requirement source \<le> pd_memory_words p \<and> pd_word_trits p = 10"
    using p by (auto simp: preflight_profile_classic)
  show "execution_from_source_for_profile source input mode p = Inr em \<longleftrightarrow>
      pd_word_trits p = 10 \<and> from_source source input = Inr (em_machine em) \<and>
      em = \<lparr>em_machine = em_machine em, em_mode = mode, em_profile = p\<rparr>"
    using admitted fits
    by (cases "preflight_profile p (source_word_requirement source) SAFE_RUST_CLASSIC")
      (auto simp: execution_from_source_for_profile_def split: sum.splits)
  show "execution_from_source_for_profile source input mode p = Inl e \<longrightarrow> ee_mode e = mode"
    by (auto simp: execution_from_source_for_profile_def execution_error_profile_def
        execution_error_load_def split: sum.splits)
qed

lemma execution_admits_exactly_witness:
  "\<not> (\<exists>em. execution_from_source_for_profile [40, 39] [] Specification PROFILE_1 = Inr em)"
  using execution_admits_exactly[OF target_profile_values(2), of "[40, 39]"]
  by (auto simp: U64_MAX_def PROFILE_1_def)

end
