(* ===== verification/Bytes.thy ===== *)
theory Bytes
  imports Prelude
begin

text \<open>
  What the byte formats share (\<open>domain/capsule.rs\<close>, \<open>contract/profile_resident_wire.rs\<close>): the
  early return of \<open>?\<close>, integers as big- and little-endian bytes, strings as their UTF-8 bytes,
  and the interface of a bounds-checked reader over a byte slice.
\<close>

subsection \<open>Early return\<close>

text \<open>\<open>let x = r?; f x\<close>.\<close>

definition and_then :: "'e + 'a \<Rightarrow> ('a \<Rightarrow> 'e + 'b) \<Rightarrow> 'e + 'b" where
  "and_then r f = (case r of Inl e \<Rightarrow> Inl e | Inr x \<Rightarrow> f x)"

lemma and_then_simps [simp]: "and_then (Inl e) f = Inl e" "and_then (Inr x) f = f x"
  by (simp_all add: and_then_def)

lemma and_then_Inr_iff: "and_then r f = Inr y \<longleftrightarrow> (\<exists>x. r = Inr x \<and> f x = Inr y)"
  by (cases r) auto

lemma and_then_Inl_iff: "and_then r f = Inl e \<longleftrightarrow> r = Inl e \<or> (\<exists>x. r = Inr x \<and> f x = Inl e)"
  by (cases r) auto

lemma and_then_cong [fundef_cong]:
  "r = r' \<Longrightarrow> (\<And>x. r' = Inr x \<Longrightarrow> f x = g x) \<Longrightarrow> and_then r f = and_then r' g"
  by (cases r') auto

subsection \<open>Integers as bytes\<close>

fun be_bytes :: "nat \<Rightarrow> nat \<Rightarrow> u8 list" where
  "be_bytes 0 v = []"
| "be_bytes (Suc n) v = of_nat (v div 256 ^ n) # be_bytes n v"

definition from_be_bytes :: "u8 list \<Rightarrow> nat" where
  "from_be_bytes bs = foldl (\<lambda>v b. v * 256 + unat b) 0 bs"

fun le_bytes :: "nat \<Rightarrow> nat \<Rightarrow> u8 list" where
  "le_bytes 0 v = []"
| "le_bytes (Suc n) v = of_nat v # le_bytes n (v div 256)"

fun from_le_bytes :: "u8 list \<Rightarrow> nat" where
  "from_le_bytes [] = 0"
| "from_le_bytes (b # bs) = unat b + 256 * from_le_bytes bs"

lemma length_be_bytes [simp]: "length (be_bytes n v) = n"
  by (induction n) auto

lemma length_le_bytes [simp]: "length (le_bytes n v) = n"
  by (induction n arbitrary: v) auto

lemma unat_of_nat_u8 [simp]: "unat (of_nat v :: u8) = v mod 256"
  by (simp add: unat_of_nat)

lemma from_be_Nil [simp]: "from_be_bytes [] = 0"
  by (simp add: from_be_bytes_def)

lemma foldl_be: "foldl (\<lambda>v b. v * 256 + unat b) c bs = c * 256 ^ length bs + from_be_bytes bs"
proof (induction bs arbitrary: c)
  case Nil
  then show ?case by simp
next
  case (Cons b bs)
  have "from_be_bytes (b # bs) = unat b * 256 ^ length bs + from_be_bytes bs"
    using Cons[of "unat b"] by (simp add: from_be_bytes_def)
  then show ?case using Cons[of "c * 256 + unat b"] by (simp add: algebra_simps)
qed

lemma from_be_Cons: "from_be_bytes (b # bs) = unat b * 256 ^ length bs + from_be_bytes bs"
  using foldl_be[of "unat b" bs] by (simp add: from_be_bytes_def)

lemma from_be_lt: "from_be_bytes bs < 256 ^ length bs"
proof (induction bs)
  case Nil
  then show ?case by simp
next
  case (Cons b bs)
  have "from_be_bytes (b # bs) < Suc (unat b) * 256 ^ length bs"
    using Cons by (simp add: from_be_Cons)
  also have "\<dots> \<le> 256 * 256 ^ length bs"
    using unat_u8_lt[of b] by (intro mult_le_mono1) (simp add: Suc_le_eq)
  finally show ?case by simp
qed

lemma from_be_be: "from_be_bytes (be_bytes n v) = v mod 256 ^ n"
proof (induction n)
  case 0
  then show ?case by simp
next
  case (Suc n)
  then show ?case
    using mod_mult2_eq[of v "256 ^ n" 256] by (simp add: from_be_Cons ac_simps)
qed

lemma be_bytes_mod: "k \<le> n \<Longrightarrow> be_bytes k (v mod 256 ^ n) = be_bytes k v"
proof (induction k)
  case 0
  then show ?case by simp
next
  case (Suc k)
  then obtain d where n: "n = k + Suc d" using less_imp_add_positive[of k n] by (metis Suc_le_eq gr0_implies_Suc)
  have "(256 :: nat) ^ n = 256 ^ k * 256 ^ Suc d"
    by (simp add: n power_add)
  then have "v mod 256 ^ n div 256 ^ k = v div 256 ^ k mod 256 ^ Suc d"
    by (simp only: mod_mult2_eq) (simp del: power_Suc)
  then have "(of_nat (v mod 256 ^ n div 256 ^ k) :: u8) = of_nat (v div 256 ^ k)"
    by (simp only: word_unat_eq_iff unat_of_nat_u8) (simp add: mod_mult2_eq)
  then show ?case using Suc by simp
qed

lemma be_from_be: "length bs = n \<Longrightarrow> be_bytes n (from_be_bytes bs) = bs"
proof (induction bs arbitrary: n)
  case Nil
  then show ?case by simp
next
  case (Cons b bs)
  then obtain m where n: "n = Suc m" "length bs = m" by auto
  have "from_be_bytes (b # bs) div 256 ^ m = unat b"
    using from_be_lt[of bs] n by (simp add: from_be_Cons)
  moreover have "be_bytes m (from_be_bytes (b # bs)) = be_bytes m (from_be_bytes bs)"
    using be_bytes_mod[of m m "from_be_bytes (b # bs)"] from_be_lt[of bs] n by (simp add: from_be_Cons)
  ultimately show ?case using Cons.IH[OF n(2)] n by simp
qed

lemma from_le_lt: "from_le_bytes bs < 256 ^ length bs"
proof (induction bs)
  case Nil
  then show ?case by simp
next
  case (Cons b bs)
  have "from_le_bytes (b # bs) < 256 * Suc (from_le_bytes bs)"
    using unat_u8_lt[of b] by simp
  also have "\<dots> \<le> 256 * 256 ^ length bs"
    using Cons by (intro mult_le_mono2) simp
  finally show ?case by simp
qed

lemma from_le_le: "from_le_bytes (le_bytes n v) = v mod 256 ^ n"
proof (induction n arbitrary: v)
  case 0
  then show ?case by simp
next
  case (Suc n)
  then show ?case using mod_mult2_eq[of v 256 "256 ^ n"] by simp
qed

lemma le_from_le: "length bs = n \<Longrightarrow> le_bytes n (from_le_bytes bs) = bs"
proof (induction bs arbitrary: n)
  case Nil
  then show ?case by simp
next
  case (Cons b bs)
  have "(of_nat (from_le_bytes (b # bs)) :: u8) = b"
    by (simp only: word_unat_eq_iff from_le_bytes.simps unat_of_nat_u8) simp
  moreover have "from_le_bytes (b # bs) div 256 = from_le_bytes bs"
    using unat_u8_lt[of b] by simp
  ultimately show ?case using Cons by auto
qed

subsection \<open>Strings\<close>

text \<open>
  A \<open>str\<close> is its UTF-8 bytes, one character of the model per byte: \<open>as_bytes\<close> reads them and
  \<open>str::from_utf8\<close> accepts exactly the sequences Unicode allows (no overlong form, no surrogate,
  nothing above \<open>U+10FFFF\<close>).
\<close>

definition as_bytes :: "string \<Rightarrow> u8 list" where
  "as_bytes s = map (\<lambda>c. of_nat (of_char c)) s"

definition utf8_tail :: "u8 \<Rightarrow> bool" where
  "utf8_tail b \<longleftrightarrow> 0x80 \<le> b \<and> b \<le> 0xBF"

text \<open>The range the second byte of a sequence must lie in, after each first byte.\<close>

definition utf8_second :: "u8 \<Rightarrow> u8 \<Rightarrow> bool" where
  "utf8_second b c \<longleftrightarrow>
    (if b = 0xE0 then 0xA0 \<le> c \<and> c \<le> 0xBF
     else if b = 0xED then 0x80 \<le> c \<and> c \<le> 0x9F
     else if b = 0xF0 then 0x90 \<le> c \<and> c \<le> 0xBF
     else if b = 0xF4 then 0x80 \<le> c \<and> c \<le> 0x8F
     else utf8_tail c)"

fun utf8_valid :: "u8 list \<Rightarrow> bool" where
  "utf8_valid [] \<longleftrightarrow> True"
| "utf8_valid (b # bs) \<longleftrightarrow>
    (if b \<le> 0x7F then utf8_valid bs
     else case bs of
       [] \<Rightarrow> False
     | c # cs \<Rightarrow>
         if 0xC2 \<le> b \<and> b \<le> 0xDF then utf8_tail c \<and> utf8_valid cs
         else (case cs of
           [] \<Rightarrow> False
         | d # ds \<Rightarrow>
             if 0xE0 \<le> b \<and> b \<le> 0xEF then utf8_second b c \<and> utf8_tail d \<and> utf8_valid ds
             else (case ds of
               [] \<Rightarrow> False
             | e # es \<Rightarrow>
                 0xF0 \<le> b \<and> b \<le> 0xF4 \<and> utf8_second b c \<and> utf8_tail d \<and> utf8_tail e \<and>
                 utf8_valid es)))"

definition from_utf8 :: "u8 list \<Rightarrow> string option" where
  "from_utf8 bs = (if utf8_valid bs then Some (map (\<lambda>b. char_of (unat b)) bs) else None)"

lemma length_as_bytes [simp]: "length (as_bytes s) = length s"
  by (simp add: as_bytes_def)

lemma char_byte: "char_of (unat (of_nat (of_char c) :: u8)) = (c :: char)"
  by simp

lemma byte_char: "(of_nat (of_char (char_of (unat b) :: char)) :: u8) = b"
  by (simp add: word_unat_eq_iff)

lemma from_utf8_as_bytes: "utf8_valid (as_bytes s) \<Longrightarrow> from_utf8 (as_bytes s) = Some s"
  by (simp add: from_utf8_def as_bytes_def comp_def)

lemma from_utf8_SomeD: "from_utf8 bs = Some s \<Longrightarrow> as_bytes s = bs"
  by (auto simp: from_utf8_def as_bytes_def comp_def byte_char split: if_splits)

lemma utf8_valid_ascii: "\<forall>b \<in> set bs. b \<le> 0x7F \<Longrightarrow> utf8_valid bs"
  by (induction bs) auto

lemma utf8_valid_as_bytes: "\<forall>c \<in> set s. \<not> digit7 c \<Longrightarrow> utf8_valid (as_bytes s)"
proof (rule utf8_valid_ascii, rule ballI)
  fix b
  assume ascii: "\<forall>c \<in> set s. \<not> digit7 c" and "b \<in> set (as_bytes s)"
  then obtain c where c: "\<not> digit7 c" "b = of_nat (of_char c)" by (auto simp: as_bytes_def)
  have "of_char c = (horner_sum of_bool 2 [digit0 c, digit1 c, digit2 c, digit3 c, digit4 c, digit5 c, digit6 c] :: nat)"
    using c(1) by (cases c) simp
  then have "of_char c < (128 :: nat)"
    using horner_sum_of_bool_2_less[of "[digit0 c, digit1 c, digit2 c, digit3 c, digit4 c, digit5 c, digit6 c]"]
    by simp
  then show "b \<le> 0x7F"
    unfolding c(2) by (simp add: word_le_nat_alt)
qed

subsection \<open>Bounds-checked readers\<close>

text \<open>
  The contract of a reader over a byte slice: \<open>valid\<close> says its position is inside the slice and
  \<open>view\<close> is what is left to read; \<open>take n\<close> returns the
  next \<open>n\<close> bytes and leaves the rest, or fails, with the one error of its format, when fewer are
  left. The lemmas turn a sequence of reads into a concatenation and back.
\<close>

locale byte_reader =
  fixes valid :: "'r \<Rightarrow> bool"
    and view :: "'r \<Rightarrow> u8 list"
    and read_bytes :: "'r \<Rightarrow> nat \<Rightarrow> 'e + (u8 list \<times> 'r)"
    and short :: 'e
  assumes read_enough: "valid r \<Longrightarrow> n \<le> length (view r) \<Longrightarrow>
      \<exists>r'. read_bytes r n = Inr (take n (view r), r') \<and> valid r' \<and> view r' = drop n (view r)"
    and read_short: "valid r \<Longrightarrow> length (view r) < n \<Longrightarrow> read_bytes r n = Inl short"
begin

lemma read_Inr:
  assumes "read_bytes r n = Inr (bs, r')" and "valid r"
  shows "view r = bs @ view r' \<and> length bs = n \<and> valid r'"
  using read_enough[of r n] read_short[of r n] assms by (cases "n \<le> length (view r)") auto

lemma read_Inl: "valid r \<Longrightarrow> read_bytes r n = Inl e \<longleftrightarrow> length (view r) < n \<and> e = short"
  using read_enough[of r n] read_short[of r n] by (cases "n \<le> length (view r)") auto

lemma read_append:
  assumes "valid r" and "view r = bs @ rest"
  shows "\<exists>r'. read_bytes r (length bs) = Inr (bs, r') \<and> valid r' \<and> view r' = rest"
  using read_enough[of r "length bs"] assms by simp

lemma read_be_append:
  assumes "valid r" and "view r = be_bytes n v @ rest" and "v < 256 ^ n"
  shows "\<exists>bs r'. read_bytes r n = Inr (bs, r') \<and> from_be_bytes bs = v \<and> valid r' \<and> view r' = rest"
  using read_append[OF assms(1,2)] assms(3) by (auto simp: from_be_be)

lemma read_le_append:
  assumes "valid r" and "view r = le_bytes n v @ rest" and "v < 256 ^ n"
  shows "\<exists>bs r'. read_bytes r n = Inr (bs, r') \<and> from_le_bytes bs = v \<and> valid r' \<and> view r' = rest"
  using read_append[OF assms(1,2)] assms(3) by (auto simp: from_le_le)

lemma read_be_Inr:
  assumes "read_bytes r n = Inr (bs, r')" and "valid r"
  shows "view r = be_bytes n (from_be_bytes bs) @ view r' \<and> from_be_bytes bs < 256 ^ n \<and> valid r'"
  using read_Inr[OF assms] from_be_lt[of bs] be_from_be[of bs n] by auto

lemma read_le_Inr:
  assumes "read_bytes r n = Inr (bs, r')" and "valid r"
  shows "view r = le_bytes n (from_le_bytes bs) @ view r' \<and> from_le_bytes bs < 256 ^ n \<and> valid r'"
  using read_Inr[OF assms] from_le_lt[of bs] le_from_le[of bs n] by auto

end

end
