(* ===== verification/Capsule.thy ===== *)
theory Capsule
  imports Bytes Profile Loader
begin

text \<open>
  \<open>domain/capsule.rs\<close>: a modern payload carried in the trailing whitespace of a historical source.
  \<open>build_capsule\<close> frames profile, fingerprint and payload, appends an FNV-1a checksum and writes
  each bit of the frame as a space or a tab after a fixed fallback program; \<open>parse_capsule\<close>
  recognizes the frame by its magic and validates all of it. The lengths of slices that are in
  memory never overflow \<open>usize\<close>.
\<close>

unbundle bit_operations_syntax

definition BITS_PER_BYTE :: usize where "BITS_PER_BYTE = 8"
definition BIT_MASKS :: "u8 list" where
  "BIT_MASKS = [0x80, 0x40, 0x20, 0x10, 0x08, 0x04, 0x02, 0x01]"
definition CAPSULE_FLAGS :: u8 where "CAPSULE_FLAGS = 0"
definition CAPSULE_MAGIC :: "u8 list" where "CAPSULE_MAGIC = as_bytes ''MALBCAP1''"
definition CAPSULE_VERSION :: u8 where "CAPSULE_VERSION = 1"
definition CHECKSUM_BYTES :: usize where "CHECKSUM_BYTES = 8"
definition FALLBACK_SOURCE :: "u8 list" where "FALLBACK_SOURCE = as_bytes ''(C<;_\"K''"
definition FNV1A64_OFFSET :: "64 word" where "FNV1A64_OFFSET = 0xcbf29ce484222325"
definition FNV1A64_PRIME :: "64 word" where "FNV1A64_PRIME = 0x00000100000001b3"
definition MAGIC_SYMBOLS :: usize where "MAGIC_SYMBOLS = 64"
definition SPACE :: u8 where "SPACE = 32"
definition TAB :: u8 where "TAB = 9"

record Capsule =
  cap_payload :: "u8 list"
  cap_profile :: ProfileDescriptor

datatype CapsuleBuildError = LengthOverflow

datatype CapsuleError =
    ChecksumMismatch u64 u64
  | Malformed
  | ProfileFingerprintMismatch string string string
  | UnknownProfile string
  | UnsupportedFlags u8
  | UnsupportedVersion u8

record FrameCursor =
  fc_bytes :: "u8 list"
  fc_position :: usize

definition frame_cursor_new :: "u8 list \<Rightarrow> FrameCursor" where
  "frame_cursor_new bytes = \<lparr>fc_bytes = bytes, fc_position = 0\<rparr>"

definition fc_remaining :: "FrameCursor \<Rightarrow> usize" where
  "fc_remaining self = length (fc_bytes self) - fc_position self"

definition fc_take :: "FrameCursor \<Rightarrow> usize \<Rightarrow> CapsuleError + (u8 list \<times> FrameCursor)" where
  "fc_take self count =
    (let limit = fc_position self + count
     in if limit \<le> length (fc_bytes self)
        then Inr (take count (drop (fc_position self) (fc_bytes self)), self\<lparr>fc_position := limit\<rparr>)
        else Inl Malformed)"

definition fc_u16 :: "FrameCursor \<Rightarrow> CapsuleError + (u16 \<times> FrameCursor)" where
  "fc_u16 self = and_then (fc_take self 2) (\<lambda>(bytes, self'). Inr (from_be_bytes bytes, self'))"

definition fc_u32 :: "FrameCursor \<Rightarrow> CapsuleError + (u32 \<times> FrameCursor)" where
  "fc_u32 self = and_then (fc_take self 4) (\<lambda>(bytes, self'). Inr (from_be_bytes bytes, self'))"

definition fc_u64 :: "FrameCursor \<Rightarrow> CapsuleError + (u64 \<times> FrameCursor)" where
  "fc_u64 self = and_then (fc_take self 8) (\<lambda>(bytes, self'). Inr (from_be_bytes bytes, self'))"

definition fc_u8 :: "FrameCursor \<Rightarrow> CapsuleError + (u8 \<times> FrameCursor)" where
  "fc_u8 self =
    and_then (fc_take self 1) (\<lambda>(bytes, self'). map_ok (\<lambda>b. (b, self')) (ok_or Malformed (get bytes 0)))"

definition fnv1a64 :: "u8 list \<Rightarrow> 64 word" where
  "fnv1a64 bytes = foldl (\<lambda>hash byte. (hash XOR ucast byte) * FNV1A64_PRIME) FNV1A64_OFFSET bytes"

definition encode_byte :: "u8 \<Rightarrow> u8 list" where
  "encode_byte byte = map (\<lambda>mask. if byte AND mask = 0 then SPACE else TAB) BIT_MASKS"

definition encode_sideband :: "u8 list \<Rightarrow> u8 list \<Rightarrow> u8 list" where
  "encode_sideband frame source = source @ concat (map encode_byte frame)"

text \<open>\<open>as_chunks::<8>\<close>: the full blocks and the remainder.\<close>

definition as_chunks :: "nat \<Rightarrow> 'a list \<Rightarrow> 'a list list \<times> 'a list" where
  "as_chunks n xs =
    (map (\<lambda>i. take n (drop (i * n) xs)) [0..<length xs div n], drop (length xs div n * n) xs)"

fun decode_symbols :: "nat \<Rightarrow> u8 list \<Rightarrow> CapsuleError + nat" where
  "decode_symbols v [] = Inr v"
| "decode_symbols v (symbol # symbols) =
    and_then (ok_or Malformed (checked_mul 255 v 2)) (\<lambda>doubled.
      if symbol = SPACE then decode_symbols doubled symbols
      else if symbol = TAB then
        and_then (ok_or Malformed (checked_add 255 doubled 1)) (\<lambda>v'. decode_symbols v' symbols)
      else Inl Malformed)"

fun decode_chunks :: "u8 list list \<Rightarrow> u8 list \<Rightarrow> CapsuleError + u8 list" where
  "decode_chunks [] decoded = Inr decoded"
| "decode_chunks (chunk # chunks) decoded =
    and_then (decode_symbols 0 chunk) (\<lambda>v. decode_chunks chunks (decoded @ [of_nat v]))"

definition decode_sideband :: "u8 list \<Rightarrow> CapsuleError + u8 list" where
  "decode_sideband sideband =
    (let (chunks, remainder) = as_chunks BITS_PER_BYTE sideband
     in if remainder \<noteq> [] then Inl Malformed else decode_chunks chunks [])"

definition capsule_sideband :: "u8 list \<Rightarrow> u8 list option" where
  "capsule_sideband source =
    (if take (length FALLBACK_SOURCE) source \<noteq> FALLBACK_SOURCE then None
     else
       let sideband = drop (length FALLBACK_SOURCE) source
       in if length sideband < MAGIC_SYMBOLS then None
          else
            let magic_symbols = take MAGIC_SYMBOLS sideband
            in if list_ex (\<lambda>symbol. \<not> (symbol = SPACE \<or> symbol = TAB)) magic_symbols then None
               else (case decode_sideband magic_symbols of
                 Inl _ \<Rightarrow> None
               | Inr decoded_magic \<Rightarrow> if decoded_magic \<noteq> CAPSULE_MAGIC then None else Some sideband))"

definition build_frame :: "u16 \<Rightarrow> u16 \<Rightarrow> u32 \<Rightarrow> u8 list \<Rightarrow> u8 list \<Rightarrow> u8 list \<Rightarrow> u8 list" where
  "build_frame profile_id_len fingerprint_len payload_len profile_id fingerprint payload =
    (let frame = CAPSULE_MAGIC @ [CAPSULE_VERSION] @ [CAPSULE_FLAGS] @
           be_bytes 2 profile_id_len @ be_bytes 2 fingerprint_len @ be_bytes 4 payload_len @
           profile_id @ fingerprint @ payload;
         checksum = fnv1a64 frame
     in frame @ be_bytes 8 (unat checksum))"

definition build_capsule :: "ProfileDescriptor \<Rightarrow> u8 list \<Rightarrow> CapsuleBuildError + u8 list" where
  "build_capsule profile payload =
    (let profile_id = as_bytes (pd_id profile);
         fingerprint = as_bytes (pd_fingerprint profile)
     in if length profile_id > U16_MAX then Inl LengthOverflow
        else if length fingerprint > U16_MAX then Inl LengthOverflow
        else if length payload > U32_MAX then Inl LengthOverflow
        else
          let frame = build_frame (length profile_id) (length fingerprint) (length payload)
                profile_id fingerprint payload
          in Inr (encode_sideband frame FALLBACK_SOURCE))"

definition parse_identity ::
  "u8 list \<Rightarrow> u8 list \<Rightarrow> u8 list \<Rightarrow> CapsuleError + Capsule" where
  "parse_identity profile_id_bytes fingerprint_bytes payload =
    and_then (ok_or Malformed (from_utf8 profile_id_bytes)) (\<lambda>profile_id.
    and_then (ok_or Malformed (from_utf8 fingerprint_bytes)) (\<lambda>fingerprint.
      case target_profile profile_id of
        None \<Rightarrow> Inl (UnknownProfile profile_id)
      | Some profile \<Rightarrow>
          if fingerprint \<noteq> pd_fingerprint profile then
            Inl (ProfileFingerprintMismatch (pd_id profile) fingerprint (pd_fingerprint profile))
          else Inr \<lparr>cap_payload = payload, cap_profile = profile\<rparr>))"

definition parse_body :: "FrameCursor \<Rightarrow> u8 list \<Rightarrow> CapsuleError + Capsule" where
  "parse_body cursor checksum_input =
    and_then (fc_u16 cursor) (\<lambda>(profile_id_len, cursor).
    and_then (fc_u16 cursor) (\<lambda>(fingerprint_len, cursor).
    and_then (fc_u32 cursor) (\<lambda>(payload_len, cursor).
    and_then (fc_take cursor profile_id_len) (\<lambda>(profile_id_bytes, cursor).
    and_then (fc_take cursor fingerprint_len) (\<lambda>(fingerprint_bytes, cursor).
    and_then (fc_take cursor payload_len) (\<lambda>(payload, cursor).
    and_then (fc_u64 cursor) (\<lambda>(expected_checksum, cursor).
      if fc_remaining cursor \<noteq> 0 then Inl Malformed
      else
        let observed_checksum = unat (fnv1a64 checksum_input)
        in if expected_checksum \<noteq> observed_checksum
           then Inl (ChecksumMismatch expected_checksum observed_checksum)
           else parse_identity profile_id_bytes fingerprint_bytes payload)))))))"

definition parse_frame :: "u8 list \<Rightarrow> CapsuleError + Capsule" where
  "parse_frame frame =
    and_then (ok_or Malformed (checked_sub (length frame) CHECKSUM_BYTES)) (\<lambda>checksum_input_len.
      let checksum_input = take checksum_input_len frame
      in
    and_then (fc_take (frame_cursor_new frame) (length CAPSULE_MAGIC)) (\<lambda>(magic, cursor).
      if magic \<noteq> CAPSULE_MAGIC then Inl Malformed
      else
    and_then (fc_u8 cursor) (\<lambda>(version, cursor).
      if version \<noteq> CAPSULE_VERSION then Inl (UnsupportedVersion version)
      else
    and_then (fc_u8 cursor) (\<lambda>(flags, cursor).
      if flags \<noteq> CAPSULE_FLAGS then Inl (UnsupportedFlags flags)
      else parse_body cursor checksum_input))))"

definition parse_capsule :: "u8 list \<Rightarrow> CapsuleError + Capsule option" where
  "parse_capsule source =
    (case capsule_sideband source of
      None \<Rightarrow> Inr None
    | Some sideband \<Rightarrow>
        and_then (decode_sideband sideband) (\<lambda>frame. map_ok Some (parse_frame frame)))"

subsection \<open>The reader of frames\<close>

definition fc_view :: "FrameCursor \<Rightarrow> u8 list" where
  "fc_view self = drop (fc_position self) (fc_bytes self)"

definition fc_valid :: "FrameCursor \<Rightarrow> bool" where
  "fc_valid self \<longleftrightarrow> fc_position self \<le> length (fc_bytes self)"

interpretation frame: byte_reader fc_valid fc_view fc_take Malformed
proof
  fix n r
  show "fc_valid r \<Longrightarrow> n \<le> length (fc_view r) \<Longrightarrow>
      \<exists>r'. fc_take r n = Inr (take n (fc_view r), r') \<and> fc_valid r' \<and> fc_view r' = drop n (fc_view r)"
    by (auto simp: fc_view_def fc_valid_def fc_take_def Let_def add.commute)
  show "fc_valid r \<Longrightarrow> length (fc_view r) < n \<Longrightarrow> fc_take r n = Inl Malformed"
    by (auto simp: fc_view_def fc_valid_def fc_take_def Let_def)
qed

lemma frame_cursor_new_valid: "fc_valid (frame_cursor_new bytes)" "fc_view (frame_cursor_new bytes) = bytes"
  by (simp_all add: fc_valid_def fc_view_def frame_cursor_new_def)

text \<open>Reading back what was written, field by field, and what a successful read means.\<close>

lemma fc_int_append:
  assumes "fc_valid c"
  shows "v < 256 ^ 2 \<Longrightarrow> fc_view c = be_bytes 2 v @ rest \<Longrightarrow>
      \<exists>c'. fc_u16 c = Inr (v, c') \<and> fc_valid c' \<and> fc_view c' = rest"
    and "v < 256 ^ 4 \<Longrightarrow> fc_view c = be_bytes 4 v @ rest \<Longrightarrow>
      \<exists>c'. fc_u32 c = Inr (v, c') \<and> fc_valid c' \<and> fc_view c' = rest"
    and "v < 256 ^ 8 \<Longrightarrow> fc_view c = be_bytes 8 v @ rest \<Longrightarrow>
      \<exists>c'. fc_u64 c = Inr (v, c') \<and> fc_valid c' \<and> fc_view c' = rest"
  using frame.read_be_append[OF assms, of 2 v rest] frame.read_be_append[OF assms, of 4 v rest]
    frame.read_be_append[OF assms, of 8 v rest]
  by (auto simp: fc_u16_def fc_u32_def fc_u64_def)

lemma fc_u8_append:
  "fc_valid c \<Longrightarrow> fc_view c = b # rest \<Longrightarrow> \<exists>c'. fc_u8 c = Inr (b, c') \<and> fc_valid c' \<and> fc_view c' = rest"
  using frame.read_append[of c "[b]" rest] by (auto simp: fc_u8_def)

lemma fc_int_Inr:
  assumes "fc_valid c"
  shows "fc_u16 c = Inr (v, c') \<Longrightarrow> fc_view c = be_bytes 2 v @ fc_view c' \<and> v < 256 ^ 2 \<and> fc_valid c'"
    and "fc_u32 c = Inr (v, c') \<Longrightarrow> fc_view c = be_bytes 4 v @ fc_view c' \<and> v < 256 ^ 4 \<and> fc_valid c'"
    and "fc_u64 c = Inr (v, c') \<Longrightarrow> fc_view c = be_bytes 8 v @ fc_view c' \<and> v < 256 ^ 8 \<and> fc_valid c'"
  using frame.read_be_Inr[of c 2 _ c', OF _ assms] frame.read_be_Inr[of c 4 _ c', OF _ assms]
    frame.read_be_Inr[of c 8 _ c', OF _ assms]
  by (auto simp: fc_u16_def fc_u32_def fc_u64_def and_then_Inr_iff)

lemma fc_u8_Inr:
  "fc_u8 c = Inr (b, c') \<Longrightarrow> fc_valid c \<Longrightarrow> fc_view c = b # fc_view c' \<and> fc_valid c'"
proof -
  assume "fc_u8 c = Inr (b, c')" "fc_valid c"
  then obtain bs where t: "fc_take c 1 = Inr (bs, c')" and b: "get bs 0 = Some b"
    by (auto simp: fc_u8_def and_then_Inr_iff)
  from frame.read_Inr[OF t \<open>fc_valid c\<close>] b show ?thesis
    by (cases bs) (auto simp: get_Some_iff)
qed

subsection \<open>The sideband\<close>

lemma encode_byte_bits: "encode_byte b = rev (map (\<lambda>k. if bit b k then TAB else SPACE) [0..<8])"
proof -
  have masks: "BIT_MASKS = rev (map (\<lambda>k. 2 ^ k) [0..<8])"
    by (simp add: BIT_MASKS_def upt_conv_Cons)
  show ?thesis
    by (simp add: encode_byte_def masks rev_map and_exp_eq_0_iff_not_bit comp_def if_distrib)
qed

lemma SPACE_TAB [simp]: "SPACE \<noteq> TAB" "TAB \<noteq> SPACE"
  by (simp_all add: SPACE_def TAB_def)

lemma decode_symbols_horner:
  assumes "set symbols \<subseteq> {SPACE, TAB}" and "Suc v * 2 ^ length symbols \<le> 256"
  shows "decode_symbols v symbols =
    Inr (v * 2 ^ length symbols + horner_sum of_bool 2 (map (\<lambda>s. s = TAB) (rev symbols)))"
  using assms
proof (induction symbols arbitrary: v)
  case Nil
  then show ?case by simp
next
  case (Cons s ss)
  let ?n = "2 ^ length ss :: nat"
  have "1 \<le> ?n" by simp
  then have "Suc v * 2 \<le> 256"
    using Cons.prems(2) mult_le_mono2[of 1 ?n "Suc v * 2"] by (simp add: ac_simps)
  then have ok: "checked_mul 255 v 2 = Some (v * 2)" "checked_add 255 (v * 2) 1 = Some (Suc (v * 2))"
    by (simp_all add: checked_mul_def checked_add_def)
  have bounds: "Suc (v * 2) * ?n \<le> 256" "Suc (Suc (v * 2)) * ?n \<le> 256"
    using Cons.prems(2) by (simp_all add: algebra_simps)
  have "s = SPACE \<or> s = TAB" using Cons.prems(1) by auto
  then show ?case
  proof
    assume "s = SPACE"
    then show ?thesis
      using ok Cons.IH[OF _ bounds(1)] Cons.prems(1)
      by (simp add: horner_sum_append ac_simps)
  next
    assume "s = TAB"
    then show ?thesis
      using ok Cons.IH[OF _ bounds(2)] Cons.prems(1)
      by (simp add: horner_sum_append algebra_simps)
  qed
qed

lemma decode_symbols_only: "decode_symbols v symbols = Inr r \<Longrightarrow> set symbols \<subseteq> {SPACE, TAB}"
  by (induction v symbols rule: decode_symbols.induct) (auto simp: and_then_Inr_iff split: if_splits)

lemma decode_encode_byte: "decode_symbols 0 (encode_byte b) = Inr (unat b)"
proof -
  have "map (\<lambda>s. s = TAB) (rev (encode_byte b)) = map (bit (unat b)) [0..<8]"
    by (auto simp: encode_byte_bits bit_unsigned_iff)
  moreover have "set (encode_byte b) \<subseteq> {SPACE, TAB}" by (auto simp: encode_byte_bits)
  moreover have "length (encode_byte b) = 8" by (simp add: encode_byte_bits)
  moreover have "take_bit 8 (unat b) = unat b" by (simp add: take_bit_nat_eq_self_iff)
  ultimately show ?thesis
    using decode_symbols_horner[of "encode_byte b" 0] by (simp add: horner_sum_bit_eq_take_bit)
qed

lemma bit_of_nat_u8: "k < 8 \<Longrightarrow> bit (of_nat v :: u8) k \<longleftrightarrow> bit v k"
  by transfer (simp add: bit_take_bit_iff bit_of_nat_iff_bit)

lemma encode_decode_byte:
  assumes "decode_symbols 0 symbols = Inr v" and len: "length symbols = 8"
  shows "encode_byte (of_nat v) = symbols"
proof -
  note only = decode_symbols_only[OF assms(1)]
  have v: "v = horner_sum of_bool 2 (map (\<lambda>s. s = TAB) (rev symbols))"
    using decode_symbols_horner[OF only, of 0] assms by simp
  have "bit (of_nat v :: u8) k \<longleftrightarrow> rev symbols ! k = TAB" if "k < 8" for k
    using that len by (simp add: v bit_of_nat_u8 bit_horner_sum_bit_iff)
  moreover have "rev symbols ! k = SPACE \<or> rev symbols ! k = TAB" if "k < 8" for k
    using only len that nth_mem[of k "rev symbols"] by auto
  ultimately have "(if bit (of_nat v :: u8) k then TAB else SPACE) = rev symbols ! k" if "k < 8" for k
    using that by (metis SPACE_TAB(1))
  then have "encode_byte (of_nat v) = rev (map (\<lambda>k. rev symbols ! k) [0..<8])"
    by (simp add: encode_byte_bits)
  also have "\<dots> = symbols" using len by (metis length_rev map_nth rev_rev_ident)
  finally show ?thesis .
qed

lemma as_chunks_parts:
  assumes "as_chunks n xs = (chunks, remainder)" and "0 < n"
  shows "xs = concat chunks @ remainder \<and> (\<forall>c \<in> set chunks. length c = n) \<and> length remainder < n"
proof -
  have cat: "k * n \<le> length xs \<Longrightarrow>
      concat (map (\<lambda>i. take n (drop (i * n) xs)) [0..<k]) = take (k * n) xs" for k
  proof (induction k)
    case (Suc k)
    have "Suc k * n = k * n + n" by simp
    then show ?case using Suc by (simp only: take_add) simp
  qed simp
  have "concat chunks = take (length xs div n * n) xs"
    using assms(1) cat[of "length xs div n"] by (auto simp: as_chunks_def)
  moreover have "length (take n (drop (i * n) xs)) = n" if "i < length xs div n" for i
  proof -
    have "Suc i * n \<le> length xs div n * n" using that by (intro mult_le_mono1) simp
    also have "\<dots> \<le> length xs" by simp
    finally show ?thesis by simp
  qed
  moreover have "length xs - length xs div n * n < n"
    using assms(2) by (simp add: minus_div_mult_eq_mod)
  ultimately show ?thesis using assms(1) by (auto simp: as_chunks_def)
qed

lemma as_chunks_concat:
  assumes "\<forall>c \<in> set chunks. length c = n" and "0 < n"
  shows "as_chunks n (concat chunks) = (chunks, [])"
proof -
  obtain cs remainder where c: "as_chunks n (concat chunks) = (cs, remainder)" by fastforce
  note p = as_chunks_parts[OF c assms(2)]
  have len: "\<forall>c \<in> set ds. length c = n \<Longrightarrow> length (concat ds) = length ds * n" for ds :: "'a list list"
    by (induction ds) auto
  have "length chunks * n = length cs * n + length remainder"
    using p len[OF assms(1)] len[of cs] by (metis length_append)
  moreover have "(length cs * n + length remainder) div n = length cs"
    using p assms(2) by simp
  moreover have "length chunks * n div n = length chunks" using assms(2) by simp
  ultimately have l: "length chunks = length cs" by metis
  then have "length remainder = 0"
    using \<open>length chunks * n = length cs * n + length remainder\<close> by simp
  then have "concat chunks = concat cs" using p by simp
  then have "chunks = cs"
  proof (rule concat_injective[OF _ l])
    show "\<forall>(x, y) \<in> set (zip chunks cs). length x = length y"
      using assms(1) p set_zip_leftD[of _ _ chunks cs] set_zip_rightD[of _ _ chunks cs] by fastforce
  qed
  then show ?thesis using c \<open>length remainder = 0\<close> by simp
qed

lemma decode_chunks_encode:
  "decode_chunks (map encode_byte bytes) decoded = Inr (decoded @ bytes)"
  by (induction bytes arbitrary: decoded) (simp_all add: decode_encode_byte)

lemma decode_chunks_Inr:
  "decode_chunks chunks decoded = Inr bytes \<Longrightarrow> \<forall>c \<in> set chunks. length c = 8 \<Longrightarrow>
    \<exists>new. bytes = decoded @ new \<and> chunks = map encode_byte new"
proof (induction chunks arbitrary: decoded)
  case Nil
  then show ?case by simp
next
  case (Cons c cs)
  then obtain v where v: "decode_symbols 0 c = Inr v" "decode_chunks cs (decoded @ [of_nat v]) = Inr bytes"
    by (auto simp: and_then_Inr_iff)
  then obtain new where "bytes = decoded @ of_nat v # new" "cs = map encode_byte new"
    using Cons.IH Cons.prems(2) by fastforce
  moreover have "encode_byte (of_nat v) = c" using encode_decode_byte[OF v(1)] Cons.prems(2) by simp
  ultimately show ?case by (intro exI[of _ "of_nat v # new"]) simp
qed

lemma length_encode_byte [simp]: "length (encode_byte b) = 8"
  by (simp add: encode_byte_bits)

lemma decode_sideband_Inr:
  "decode_sideband sideband = Inr frame \<longleftrightarrow> sideband = concat (map encode_byte frame)"
proof
  assume d: "decode_sideband sideband = Inr frame"
  obtain chunks remainder where c: "as_chunks 8 sideband = (chunks, remainder)" by fastforce
  then show "sideband = concat (map encode_byte frame)"
    using d as_chunks_parts[OF c] decode_chunks_Inr[of chunks "[]" frame]
    by (auto simp: decode_sideband_def BITS_PER_BYTE_def split: if_splits)
next
  assume "sideband = concat (map encode_byte frame)"
  then show "decode_sideband sideband = Inr frame"
    using as_chunks_concat[of "map encode_byte frame" 8] decode_chunks_encode[of frame "[]"]
    by (simp add: decode_sideband_def BITS_PER_BYTE_def)
qed

subsection \<open>Frames\<close>

lemma magic_length [simp]: "length CAPSULE_MAGIC = 8" "length FALLBACK_SOURCE = 7"
  by (simp_all add: CAPSULE_MAGIC_def FALLBACK_SOURCE_def)

definition frame_head :: "u8 list \<Rightarrow> u8 list \<Rightarrow> u8 list \<Rightarrow> u8 list" where
  "frame_head profile_id fingerprint payload =
    CAPSULE_MAGIC @ [CAPSULE_VERSION, CAPSULE_FLAGS] @ be_bytes 2 (length profile_id) @
    be_bytes 2 (length fingerprint) @ be_bytes 4 (length payload) @ profile_id @ fingerprint @ payload"

lemma build_frame_eq:
  "build_frame (length i) (length f) (length p) i f p =
    frame_head i f p @ be_bytes 8 (unat (fnv1a64 (frame_head i f p)))"
  by (simp add: build_frame_def frame_head_def Let_def)

lemma unat_hash_lt: "unat (h :: 64 word) < 256 ^ 8"
  using unsigned_less[of h, where ?'a = nat] by simp

text \<open>A frame whose lengths fit parses to its fields, whatever checksum it ends in.\<close>

lemma parse_body_build:
  assumes "fc_valid c" and "length i < 256 ^ 2" and "length f < 256 ^ 2" and "length p < 256 ^ 4"
    and "k < 256 ^ 8"
    and "fc_view c = be_bytes 2 (length i) @ be_bytes 2 (length f) @ be_bytes 4 (length p) @
      i @ f @ p @ be_bytes 8 k"
  shows "parse_body c input =
    (if k \<noteq> unat (fnv1a64 input) then Inl (ChecksumMismatch k (unat (fnv1a64 input)))
     else parse_identity i f p)"
proof -
  obtain c1 where c1: "fc_u16 c = Inr (length i, c1)" "fc_valid c1"
    "fc_view c1 = be_bytes 2 (length f) @ be_bytes 4 (length p) @ i @ f @ p @ be_bytes 8 k"
    using fc_int_append(1)[OF assms(1,2,6)] by blast
  obtain c2 where c2: "fc_u16 c1 = Inr (length f, c2)" "fc_valid c2"
    "fc_view c2 = be_bytes 4 (length p) @ i @ f @ p @ be_bytes 8 k"
    using fc_int_append(1)[OF c1(2) assms(3) c1(3)] by blast
  obtain c3 where c3: "fc_u32 c2 = Inr (length p, c3)" "fc_valid c3"
    "fc_view c3 = i @ f @ p @ be_bytes 8 k"
    using fc_int_append(2)[OF c2(2) assms(4) c2(3)] by blast
  obtain c4 where c4: "fc_take c3 (length i) = Inr (i, c4)" "fc_valid c4" "fc_view c4 = f @ p @ be_bytes 8 k"
    using frame.read_append[OF c3(2,3)] by blast
  obtain c5 where c5: "fc_take c4 (length f) = Inr (f, c5)" "fc_valid c5" "fc_view c5 = p @ be_bytes 8 k"
    using frame.read_append[OF c4(2,3)] by blast
  obtain c6 where c6: "fc_take c5 (length p) = Inr (p, c6)" "fc_valid c6" "fc_view c6 = be_bytes 8 k @ []"
    using frame.read_append[OF c5(2,3)] by auto
  obtain c7 where c7: "fc_u64 c6 = Inr (k, c7)" "fc_valid c7" "fc_view c7 = []"
    using fc_int_append(3)[OF c6(2) assms(5) c6(3)] by blast
  have "fc_remaining c7 = 0" using c7 by (simp add: fc_remaining_def fc_view_def)
  then show ?thesis
    using c1 c2 c3 c4 c5 c6 c7 by (simp add: parse_body_def Let_def)
qed

lemma parse_frame_prefix:
  assumes "length frame = n + 8" and "frame = CAPSULE_MAGIC @ [CAPSULE_VERSION, CAPSULE_FLAGS] @ rest"
  shows "\<exists>c. fc_valid c \<and> fc_view c = rest \<and> parse_frame frame = parse_body c (take n frame)"
proof -
  obtain c1 where c1: "fc_take (frame_cursor_new frame) 8 = Inr (CAPSULE_MAGIC, c1)" "fc_valid c1"
    "fc_view c1 = CAPSULE_VERSION # CAPSULE_FLAGS # rest"
    using frame.read_append[OF frame_cursor_new_valid(1), of frame CAPSULE_MAGIC
        "CAPSULE_VERSION # CAPSULE_FLAGS # rest"] assms(2)
    by (auto simp: frame_cursor_new_valid)
  obtain c2 where c2: "fc_u8 c1 = Inr (CAPSULE_VERSION, c2)" "fc_valid c2"
    "fc_view c2 = CAPSULE_FLAGS # rest"
    using fc_u8_append[OF c1(2,3)] by blast
  obtain c3 where c3: "fc_u8 c2 = Inr (CAPSULE_FLAGS, c3)" "fc_valid c3" "fc_view c3 = rest"
    using fc_u8_append[OF c2(2,3)] by blast
  have "checked_sub (length frame) CHECKSUM_BYTES = Some n"
    using assms(1) by (simp add: checked_sub_def CHECKSUM_BYTES_def)
  then have "parse_frame frame = parse_body c3 (take n frame)"
    using c1 c2 c3 by (simp add: parse_frame_def Let_def)
  then show ?thesis using c3 by blast
qed

lemma parse_frame_build:
  assumes "length i < 256 ^ 2" and "length f < 256 ^ 2" and "length p < 256 ^ 4" and "k < 256 ^ 8"
  shows "parse_frame (frame_head i f p @ be_bytes 8 k) =
    (if k \<noteq> unat (fnv1a64 (frame_head i f p))
     then Inl (ChecksumMismatch k (unat (fnv1a64 (frame_head i f p))))
     else parse_identity i f p)"
proof -
  have len: "length (frame_head i f p @ be_bytes 8 k) = length (frame_head i f p) + 8" by simp
  have parts: "frame_head i f p @ be_bytes 8 k = CAPSULE_MAGIC @ [CAPSULE_VERSION, CAPSULE_FLAGS] @
      be_bytes 2 (length i) @ be_bytes 2 (length f) @ be_bytes 4 (length p) @ i @ f @ p @ be_bytes 8 k"
    by (simp add: frame_head_def)
  obtain c where c: "fc_valid c"
    "fc_view c = be_bytes 2 (length i) @ be_bytes 2 (length f) @ be_bytes 4 (length p) @
      i @ f @ p @ be_bytes 8 k"
    "parse_frame (frame_head i f p @ be_bytes 8 k) = parse_body c (frame_head i f p)"
    using parse_frame_prefix[OF len parts] by auto
  then show ?thesis using parse_body_build[OF c(1) assms c(2)] by simp
qed

text \<open>Conversely, a frame that parses is the one its fields build.\<close>

lemma parse_body_Inr:
  assumes "parse_body c input = Inr capsule" and "fc_valid c"
  shows "\<exists>i f. length i < 256 ^ 2 \<and> length f < 256 ^ 2 \<and> length (cap_payload capsule) < 256 ^ 4 \<and>
    fc_view c = be_bytes 2 (length i) @ be_bytes 2 (length f) @
      be_bytes 4 (length (cap_payload capsule)) @ i @ f @ cap_payload capsule @
      be_bytes 8 (unat (fnv1a64 input)) \<and>
    parse_identity i f (cap_payload capsule) = Inr capsule"
proof -
  obtain il c1 fl c2 pl c3 i c4 f c5 p c6 k c7 where
    r: "fc_u16 c = Inr (il, c1)" "fc_u16 c1 = Inr (fl, c2)" "fc_u32 c2 = Inr (pl, c3)"
      "fc_take c3 il = Inr (i, c4)" "fc_take c4 fl = Inr (f, c5)" "fc_take c5 pl = Inr (p, c6)"
      "fc_u64 c6 = Inr (k, c7)" and e: "fc_remaining c7 = 0" "k = unat (fnv1a64 input)"
      "parse_identity i f p = Inr capsule"
    using assms(1) by (auto simp: parse_body_def and_then_Inr_iff Let_def split: if_splits)
  note v1 = fc_int_Inr(1)[OF assms(2) r(1)]
  note v2 = fc_int_Inr(1)[OF _ r(2)]
  note v3 = fc_int_Inr(2)[OF _ r(3)]
  note v4 = frame.read_Inr[OF r(4)]
  note v5 = frame.read_Inr[OF r(5)]
  note v6 = frame.read_Inr[OF r(6)]
  note v7 = fc_int_Inr(3)[OF _ r(7)]
  have "fc_view c7 = []" using e(1) v1 v2 v3 v4 v5 v6 v7 by (simp add: fc_remaining_def fc_view_def)
  moreover have "cap_payload capsule = p"
    using e(3) by (auto simp: parse_identity_def and_then_Inr_iff split: option.splits if_splits)
  ultimately show ?thesis
    using v1 v2 v3 v4 v5 v6 v7 e by (intro exI[of _ i] exI[of _ f]) auto
qed

lemma parse_frame_Inr:
  assumes "parse_frame frame = Inr capsule"
  shows "\<exists>i f. length i < 256 ^ 2 \<and> length f < 256 ^ 2 \<and> length (cap_payload capsule) < 256 ^ 4 \<and>
    frame = frame_head i f (cap_payload capsule) @
      be_bytes 8 (unat (fnv1a64 (frame_head i f (cap_payload capsule)))) \<and>
    parse_identity i f (cap_payload capsule) = Inr capsule"
proof -
  define input where "input = take (length frame - 8) frame"
  obtain c1 c2 c3 where len: "8 \<le> length frame"
    and r: "fc_take (frame_cursor_new frame) 8 = Inr (CAPSULE_MAGIC, c1)"
      "fc_u8 c1 = Inr (CAPSULE_VERSION, c2)" "fc_u8 c2 = Inr (CAPSULE_FLAGS, c3)"
    and b: "parse_body c3 input = Inr capsule"
    using assms by (auto simp: parse_frame_def and_then_Inr_iff Let_def checked_sub_def
        CHECKSUM_BYTES_def input_def split: if_splits)
  note v1 = frame.read_Inr[OF r(1) frame_cursor_new_valid(1)]
  note v2 = fc_u8_Inr[OF r(2)]
  note v3 = fc_u8_Inr[OF r(3)]
  have c3: "fc_valid c3" using v1 v2 v3 by blast
  obtain i f where p: "length i < 256 ^ 2" "length f < 256 ^ 2" "length (cap_payload capsule) < 256 ^ 4"
    and view: "fc_view c3 = be_bytes 2 (length i) @ be_bytes 2 (length f) @
      be_bytes 4 (length (cap_payload capsule)) @ i @ f @ cap_payload capsule @
      be_bytes 8 (unat (fnv1a64 input))"
    and ident: "parse_identity i f (cap_payload capsule) = Inr capsule"
    using parse_body_Inr[OF b c3] by blast
  have whole: "frame = frame_head i f (cap_payload capsule) @ be_bytes 8 (unat (fnv1a64 input))"
    using v1 v2 v3 view by (simp add: frame_cursor_new_valid frame_head_def)
  moreover have "length frame = length (frame_head i f (cap_payload capsule)) + 8"
    by (subst whole) simp
  then have "input = take (length (frame_head i f (cap_payload capsule))) frame"
    by (simp add: input_def)
  then have "input = frame_head i f (cap_payload capsule)" by (simp add: whole)
  ultimately show ?thesis using p ident by blast
qed

lemma canonical_utf8:
  assumes "target_profile s = Some profile"
  shows "utf8_valid (as_bytes (pd_id profile)) \<and> utf8_valid (as_bytes (pd_fingerprint profile)) \<and>
    length (pd_id profile) \<le> 15 \<and> length (pd_fingerprint profile) = 91 \<and> pd_id profile = s"
proof -
  have "\<forall>p \<in> set PROFILE_DESCRIPTORS. (\<forall>c \<in> set (pd_id p). \<not> digit7 c) \<and>
      (\<forall>c \<in> set (pd_fingerprint p). \<not> digit7 c) \<and> length (pd_id p) \<le> 15 \<and>
      length (pd_fingerprint p) = 91"
    by (simp add: PROFILE_DESCRIPTORS_def profile_defs)
  then have "\<forall>p \<in> set PROFILE_DESCRIPTORS. utf8_valid (as_bytes (pd_id p)) \<and>
      utf8_valid (as_bytes (pd_fingerprint p)) \<and> length (pd_id p) \<le> 15 \<and>
      length (pd_fingerprint p) = 91"
    using utf8_valid_as_bytes by blast
  moreover have "profile \<in> set PROFILE_DESCRIPTORS" "pd_id profile = s"
    using find_SomeD[OF assms[unfolded target_profile_def]] by auto
  ultimately show ?thesis by blast
qed

definition canonical_profile :: "ProfileDescriptor \<Rightarrow> bool" where
  "canonical_profile profile \<longleftrightarrow> target_profile (pd_id profile) = Some profile"

lemma parse_identity_Inr:
  "parse_identity i f p = Inr capsule \<longleftrightarrow>
    cap_payload capsule = p \<and> canonical_profile (cap_profile capsule) \<and>
    i = as_bytes (pd_id (cap_profile capsule)) \<and> f = as_bytes (pd_fingerprint (cap_profile capsule))"
proof
  assume "parse_identity i f p = Inr capsule"
  then obtain s t profile where "from_utf8 i = Some s" "from_utf8 f = Some t"
    "target_profile s = Some profile" "t = pd_fingerprint profile"
    "capsule = \<lparr>cap_payload = p, cap_profile = profile\<rparr>"
    by (auto simp: parse_identity_def and_then_Inr_iff split: option.splits if_splits)
  then show "cap_payload capsule = p \<and> canonical_profile (cap_profile capsule) \<and>
    i = as_bytes (pd_id (cap_profile capsule)) \<and> f = as_bytes (pd_fingerprint (cap_profile capsule))"
    using canonical_utf8[of s profile] by (auto simp: canonical_profile_def dest: from_utf8_SomeD)
next
  assume "cap_payload capsule = p \<and> canonical_profile (cap_profile capsule) \<and>
    i = as_bytes (pd_id (cap_profile capsule)) \<and> f = as_bytes (pd_fingerprint (cap_profile capsule))"
  then show "parse_identity i f p = Inr capsule"
    using canonical_utf8[of "pd_id (cap_profile capsule)" "cap_profile capsule"]
    by (simp add: parse_identity_def canonical_profile_def from_utf8_as_bytes)
qed

lemma length_encoded: "length (concat (map encode_byte bytes)) = 8 * length bytes"
  by (induction bytes) auto

lemma capsule_sideband_frame:
  assumes "frame = CAPSULE_MAGIC @ rest"
  shows "capsule_sideband (FALLBACK_SOURCE @ concat (map encode_byte frame)) =
    Some (concat (map encode_byte frame))"
proof -
  have "take 64 (concat (map encode_byte frame)) = concat (map encode_byte CAPSULE_MAGIC)"
    using length_encoded[of CAPSULE_MAGIC] by (simp add: assms)
  moreover have "list_ex (\<lambda>symbol. \<not> (symbol = SPACE \<or> symbol = TAB))
      (concat (map encode_byte CAPSULE_MAGIC)) \<longleftrightarrow> False"
    by (auto simp: list_ex_iff encode_byte_bits split: if_splits)
  moreover have "decode_sideband (concat (map encode_byte CAPSULE_MAGIC)) = Inr CAPSULE_MAGIC"
    by (simp add: decode_sideband_Inr)
  moreover have "64 \<le> length (concat (map encode_byte frame))"
    unfolding length_encoded by (simp add: assms)
  ultimately show ?thesis
    by (simp add: capsule_sideband_def MAGIC_SYMBOLS_def Let_def)
qed

lemma capsule_sideband_Some:
  "capsule_sideband source = Some sideband \<Longrightarrow> source = FALLBACK_SOURCE @ sideband"
  by (auto simp: capsule_sideband_def Let_def split: if_splits sum.splits)
    (metis append_take_drop_id magic_length(2))

lemma parse_capsule_Some:
  "parse_capsule source = Inr (Some capsule) \<longleftrightarrow>
    (\<exists>frame. source = FALLBACK_SOURCE @ concat (map encode_byte frame) \<and>
      parse_frame frame = Inr capsule)"
proof
  assume "parse_capsule source = Inr (Some capsule)"
  then obtain sideband frame where "capsule_sideband source = Some sideband"
    "decode_sideband sideband = Inr frame" "parse_frame frame = Inr capsule"
    by (auto simp: parse_capsule_def and_then_Inr_iff split: option.splits)
  then show "\<exists>frame. source = FALLBACK_SOURCE @ concat (map encode_byte frame) \<and>
      parse_frame frame = Inr capsule"
    using capsule_sideband_Some by (auto simp: decode_sideband_Inr)
next
  assume "\<exists>frame. source = FALLBACK_SOURCE @ concat (map encode_byte frame) \<and>
      parse_frame frame = Inr capsule"
  then obtain frame where f: "source = FALLBACK_SOURCE @ concat (map encode_byte frame)"
    "parse_frame frame = Inr capsule" by blast
  obtain rest where "frame = CAPSULE_MAGIC @ rest"
    using parse_frame_Inr[OF f(2)] by (auto simp: frame_head_def)
  from capsule_sideband_frame[OF this] show "parse_capsule source = Inr (Some capsule)"
    using f by (simp add: parse_capsule_def decode_sideband_Inr[THEN iffD2])
qed

lemma build_capsule_Inr:
  assumes "canonical_profile profile"
  shows "build_capsule profile payload = Inr source \<longleftrightarrow> length payload \<le> U32_MAX \<and>
    source = FALLBACK_SOURCE @ concat (map encode_byte
      (frame_head (as_bytes (pd_id profile)) (as_bytes (pd_fingerprint profile)) payload @
       be_bytes 8 (unat (fnv1a64
         (frame_head (as_bytes (pd_id profile)) (as_bytes (pd_fingerprint profile)) payload)))))"
proof -
  have "length (pd_id profile) \<le> 15" "length (pd_fingerprint profile) = 91"
    using canonical_utf8[of "pd_id profile" profile] assms by (auto simp: canonical_profile_def)
  then show ?thesis
    using build_frame_eq[of "as_bytes (pd_id profile)" "as_bytes (pd_fingerprint profile)" payload]
    by (auto simp: build_capsule_def Let_def U16_MAX_def encode_sideband_def)
qed

subsection \<open>The checksum\<close>

definition FNV1A64_INVERSE :: "64 word" where "FNV1A64_INVERSE = 0xce965057aff6957b"

lemma fnv_cancel: "x * FNV1A64_PRIME = y * FNV1A64_PRIME \<longleftrightarrow> x = y"
proof
  assume "x * FNV1A64_PRIME = y * FNV1A64_PRIME"
  then have "x * (FNV1A64_PRIME * FNV1A64_INVERSE) = y * (FNV1A64_PRIME * FNV1A64_INVERSE)"
    by (simp only: mult.assoc[symmetric])
  moreover have "FNV1A64_PRIME * FNV1A64_INVERSE = 1"
    by (simp add: FNV1A64_PRIME_def FNV1A64_INVERSE_def)
  ultimately show "x = y" by simp
qed simp

lemma xor_twice: "(x XOR z) XOR z = x" for x z :: "64 word"
  by (simp add: xor.assoc)

lemma xor_right_cancel: "x XOR z = y XOR z \<longleftrightarrow> x = y" for x y z :: "64 word"
proof
  assume "x XOR z = y XOR z"
  then have "(x XOR z) XOR z = (y XOR z) XOR z" by (rule arg_cong)
  then show "x = y" unfolding xor_twice .
qed simp

lemma xor_left_cancel: "z XOR x = z XOR y \<longleftrightarrow> x = y" for x y z :: "64 word"
  unfolding xor.commute[of z] by (rule xor_right_cancel)

lemmas xor_cancel = xor_right_cancel xor_left_cancel

lemma fnv_fold_cancel:
  "foldl (\<lambda>hash byte. (hash XOR ucast byte) * FNV1A64_PRIME) h bs =
    foldl (\<lambda>hash byte. (hash XOR ucast byte) * FNV1A64_PRIME) h' bs \<longleftrightarrow> h = h'"
  by (induction bs arbitrary: h h') (simp_all add: fnv_cancel xor_cancel)

lemma ucast_u8_inject: "(ucast b :: 64 word) = ucast b' \<longleftrightarrow> b = b'" for b b' :: u8
proof
  have keep: "unat (ucast c :: 64 word) = unat c" for c :: u8
    using less_trans[OF unat_u8_lt[of c], of "2 ^ 64"]
    by (simp add: unsigned_ucast_eq take_bit_nat_eq_self_iff)
  assume "(ucast b :: 64 word) = ucast b'"
  then have "unat b = unat b'" using keep by metis
  then show "b = b'" by (simp add: word_unat_eq_iff)
qed simp

lemma fnv1a64_byte: "fnv1a64 (xs @ b # ys) = fnv1a64 (xs @ b' # ys) \<longleftrightarrow> b = b'"
  by (simp add: fnv1a64_def fnv_fold_cancel fnv_cancel xor_cancel ucast_u8_inject)

lemma fnv1a64_update:
  assumes "k < length xs" and "b \<noteq> xs ! k"
  shows "fnv1a64 (xs[k := b]) \<noteq> fnv1a64 xs"
  using fnv1a64_byte[of "take k xs" b "drop (Suc k) xs" "xs ! k"] assms
  by (simp add: upd_conv_take_nth_drop id_take_nth_drop[symmetric])

subsection \<open>Damage\<close>

definition capsule_frame :: "ProfileDescriptor \<Rightarrow> u8 list \<Rightarrow> u8 list" where
  "capsule_frame profile payload =
    (let head = frame_head (as_bytes (pd_id profile)) (as_bytes (pd_fingerprint profile)) payload
     in head @ be_bytes 8 (unat (fnv1a64 head)))"

lemma be_bytes_update_neq:
  assumes "k < n" and "b \<noteq> be_bytes n v ! k" and "v < 256 ^ n"
  shows "\<exists>w. w \<noteq> v \<and> w < 256 ^ n \<and> (be_bytes n v)[k := b] = be_bytes n w"
proof -
  have len: "length ((be_bytes n v)[k := b]) = n" by simp
  have "(be_bytes n v)[k := b] \<noteq> be_bytes n v"
    using assms(1,2) by (metis length_be_bytes nth_list_update_eq)
  then show ?thesis
    using be_from_be[OF len] from_be_lt[of "(be_bytes n v)[k := b]"] len
    by (intro exI[of _ "from_be_bytes ((be_bytes n v)[k := b])"]) auto
qed

text \<open>The head of a frame with its three variable fields kept together.\<close>

lemma frame_head_fields:
  "frame_head i f p = CAPSULE_MAGIC @ CAPSULE_VERSION # CAPSULE_FLAGS # be_bytes 2 (length i) @
    be_bytes 2 (length f) @ be_bytes 4 (length p) @ (i @ f @ p)"
  by (simp add: frame_head_def)

lemma frame_head_update:
  assumes "18 \<le> k" and "k < length (frame_head i f p)"
  shows "\<exists>i' f' p'. length i' = length i \<and> length f' = length f \<and> length p' = length p \<and>
    (frame_head i f p)[k := b] = frame_head i' f' p'"
proof -
  define all where "all = (i @ f @ p)[k - 18 := b]"
  define i' where "i' = take (length i) all"
  define f' where "f' = take (length f) (drop (length i) all)"
  define p' where "p' = drop (length f) (drop (length i) all)"
  have cat: "i' @ f' @ p' = all" unfolding i'_def f'_def p'_def by (simp only: append_take_drop_id)
  have len: "length i' = length i" "length f' = length f" "length p' = length p"
    by (simp_all add: i'_def f'_def p'_def all_def)
  define pre where "pre = CAPSULE_MAGIC @ CAPSULE_VERSION # CAPSULE_FLAGS # be_bytes 2 (length i) @
    be_bytes 2 (length f) @ be_bytes 4 (length p)"
  have pre: "length pre = 18" by (simp add: pre_def)
  have heads: "frame_head i f p = pre @ (i @ f @ p)" "frame_head i' f' p' = pre @ (i' @ f' @ p')"
    by (simp_all add: frame_head_fields pre_def len)
  have "(pre @ (i @ f @ p))[k := b] = pre @ (i @ f @ p)[k - 18 := b]"
    unfolding list_update_append[of pre "i @ f @ p"] using assms(1) pre by simp
  then have "(frame_head i f p)[k := b] = frame_head i' f' p'"
    unfolding heads cat all_def .
  then show ?thesis using len by blast
qed

lemma parse_capsule_encoded:
  assumes "frame = CAPSULE_MAGIC @ rest"
  shows "parse_capsule (FALLBACK_SOURCE @ concat (map encode_byte frame)) = map_ok Some (parse_frame frame)"
  using capsule_sideband_frame[OF assms] decode_sideband_Inr[of "concat (map encode_byte frame)" frame]
  by (simp add: parse_capsule_def)

lemma damaged_frame:
  assumes "length i < 256 ^ 2" and "length f < 256 ^ 2" and "length p < 256 ^ 4"
    and whole: "whole = frame_head i f p @ be_bytes 8 (unat (fnv1a64 (frame_head i f p)))"
    and "18 \<le> k" and "k < length whole" and "b \<noteq> whole ! k"
  shows "\<exists>expected observed. expected \<noteq> observed \<and>
    parse_frame (whole[k := b]) = Inl (ChecksumMismatch expected observed)"
proof (cases "k < length (frame_head i f p)")
  case True
  obtain i' f' p' where n: "length i' = length i" "length f' = length f" "length p' = length p"
    and u: "(frame_head i f p)[k := b] = frame_head i' f' p'"
    using frame_head_update[OF assms(5) True] by blast
  have "b \<noteq> frame_head i f p ! k" using assms(7) True by (simp add: whole nth_append)
  then have "unat (fnv1a64 (frame_head i f p)) \<noteq> unat (fnv1a64 (frame_head i' f' p'))"
    using fnv1a64_update[OF True] unfolding u[symmetric] word_unat_eq_iff[symmetric] by metis
  moreover have "whole[k := b] = frame_head i' f' p' @ be_bytes 8 (unat (fnv1a64 (frame_head i f p)))"
    using True by (simp add: whole list_update_append u)
  ultimately show ?thesis
    using parse_frame_build[of i' f' p' "unat (fnv1a64 (frame_head i f p))"] assms(1-3) n unat_hash_lt
    by simp
next
  case False
  define j where "j = k - length (frame_head i f p)"
  have j: "j < 8" using assms(6) False by (simp add: whole j_def)
  have "b \<noteq> be_bytes 8 (unat (fnv1a64 (frame_head i f p))) ! j"
    using assms(7) False by (simp add: whole nth_append j_def)
  from be_bytes_update_neq[OF j this unat_hash_lt] obtain w where
    w: "w \<noteq> unat (fnv1a64 (frame_head i f p))" "w < 256 ^ 8"
      "(be_bytes 8 (unat (fnv1a64 (frame_head i f p))))[j := b] = be_bytes 8 w" by blast
  have "whole[k := b] = frame_head i f p @ be_bytes 8 w"
    using False w(3) by (simp add: whole list_update_append j_def)
  then show ?thesis using parse_frame_build[OF assms(1-3) w(2)] w(1) by simp
qed

subsection \<open>Properties\<close>

text \<open>
  C32: capsules round trip, both ways. A source parses to a capsule exactly when it is what
  building that payload for that canonical profile writes, so every payload that can be framed is
  recovered and no other source, not even one byte different, is accepted as the same capsule.
\<close>
theorem capsule_roundtrip:
  "parse_capsule source = Inr (Some capsule) \<longleftrightarrow>
    canonical_profile (cap_profile capsule) \<and>
    build_capsule (cap_profile capsule) (cap_payload capsule) = Inr source"
proof
  assume "parse_capsule source = Inr (Some capsule)"
  then obtain frame where s: "source = FALLBACK_SOURCE @ concat (map encode_byte frame)"
    and f: "parse_frame frame = Inr capsule"
    using parse_capsule_Some by blast
  from parse_frame_Inr[OF f] show "canonical_profile (cap_profile capsule) \<and>
    build_capsule (cap_profile capsule) (cap_payload capsule) = Inr source"
    by (auto simp: parse_identity_Inr build_capsule_Inr s U32_MAX_def)
next
  assume b: "canonical_profile (cap_profile capsule) \<and>
    build_capsule (cap_profile capsule) (cap_payload capsule) = Inr source"
  define i f where "i = as_bytes (pd_id (cap_profile capsule))"
    and "f = as_bytes (pd_fingerprint (cap_profile capsule))"
  have len: "length i < 256 ^ 2" "length f < 256 ^ 2" "length (cap_payload capsule) < 256 ^ 4"
    using b canonical_utf8[of "pd_id (cap_profile capsule)" "cap_profile capsule"]
    by (auto simp: i_def f_def canonical_profile_def build_capsule_Inr U32_MAX_def)
  have "parse_identity i f (cap_payload capsule) = Inr capsule"
    using b by (simp add: parse_identity_Inr i_def f_def)
  then have "parse_frame (frame_head i f (cap_payload capsule) @
      be_bytes 8 (unat (fnv1a64 (frame_head i f (cap_payload capsule))))) = Inr capsule"
    using parse_frame_build[OF len unat_hash_lt] by simp
  moreover have "source = FALLBACK_SOURCE @ concat (map encode_byte (frame_head i f (cap_payload capsule) @
      be_bytes 8 (unat (fnv1a64 (frame_head i f (cap_payload capsule))))))"
    using b build_capsule_Inr[of "cap_profile capsule"] unfolding i_def f_def by blast
  ultimately show "parse_capsule source = Inr (Some capsule)"
    using parse_capsule_Some by blast
qed

text \<open>
  C33: every damaged byte is detected. Changing any one byte of a frame after its fixed header
  fields, in the identity, the fingerprint, the payload or the checksum itself, is rejected with a
  checksum mismatch: the FNV step is invertible, so no single change cancels out.
\<close>
theorem capsule_detects_damage:
  assumes "canonical_profile profile" and "length payload \<le> U32_MAX"
    and "18 \<le> k" and "k < length (capsule_frame profile payload)"
    and "b \<noteq> capsule_frame profile payload ! k"
  shows "build_capsule profile payload =
      Inr (encode_sideband (capsule_frame profile payload) FALLBACK_SOURCE) \<and>
    (\<exists>expected observed. expected \<noteq> observed \<and>
      parse_capsule (encode_sideband ((capsule_frame profile payload)[k := b]) FALLBACK_SOURCE) =
        Inl (ChecksumMismatch expected observed))"
proof
  define i f where "i = as_bytes (pd_id profile)" and "f = as_bytes (pd_fingerprint profile)"
  have len: "length i < 256 ^ 2" "length f < 256 ^ 2" "length payload < 256 ^ 4"
    using assms(1,2) canonical_utf8[of "pd_id profile" profile]
    by (auto simp: i_def f_def canonical_profile_def U32_MAX_def)
  have whole: "capsule_frame profile payload =
      frame_head i f payload @ be_bytes 8 (unat (fnv1a64 (frame_head i f payload)))"
    by (simp add: capsule_frame_def i_def f_def Let_def)
  show "build_capsule profile payload =
      Inr (encode_sideband (capsule_frame profile payload) FALLBACK_SOURCE)"
    using assms(1,2) by (simp add: build_capsule_Inr capsule_frame_def encode_sideband_def Let_def)
  obtain expected observed where e: "expected \<noteq> observed"
    "parse_frame ((capsule_frame profile payload)[k := b]) = Inl (ChecksumMismatch expected observed)"
    using damaged_frame[OF len whole assms(3-5)] by blast
  obtain rest where "(capsule_frame profile payload)[k := b] = CAPSULE_MAGIC @ rest"
    using assms(3) by (auto simp: whole frame_head_fields list_update_append)
  from parse_capsule_encoded[OF this] e
  show "\<exists>expected observed. expected \<noteq> observed \<and>
      parse_capsule (encode_sideband ((capsule_frame profile payload)[k := b]) FALLBACK_SOURCE) =
        Inl (ChecksumMismatch expected observed)"
    unfolding encode_sideband_def by auto
qed

lemma demo_frame_length: "length (capsule_frame PROFILE_0 [1, 2]) = 132"
  by (simp add: capsule_frame_def frame_head_def Let_def PROFILE_0_def)

lemma PROFILE_0_canonical: "canonical_profile PROFILE_0"
  by (simp add: canonical_profile_def PROFILE_0_def[unfolded PROFILE_0_def])

theorem capsule_detects_damage_witness:
  "\<exists>b expected observed.
    parse_capsule (encode_sideband ((capsule_frame PROFILE_0 [1, 2])[122 := b]) FALLBACK_SOURCE) =
      Inl (ChecksumMismatch expected observed)"
proof -
  obtain b where "b \<noteq> capsule_frame PROFILE_0 [1, 2] ! 122" using exists_least_iff by (metis zero_neq_one)
  then show ?thesis
    using capsule_detects_damage[OF PROFILE_0_canonical, of "[1, 2]" 122 b]
    by (auto simp: demo_frame_length U32_MAX_def)
qed

end
