(* ===== verification/CapsuleHistory.thy ===== *)
theory CapsuleHistory
  imports Capsule MachineRefinement
begin

text \<open>
  What a capsule is to the historical machine: its sideband is whitespace, so the classic loader
  sees only the fallback program, and that program prints one \<open>!\<close> and halts. The run is computed
  on the abstract machine and carried over by the refinement.
\<close>

subsection \<open>Following abstract steps\<close>

lemma refine_steps:
  assumes "(amstep 10 (mode_input_op mode) (mode_output_op mode) ^^ k) (abs_machine m) s"
    and "wf_machine m" and "m_termination m = None"
  shows "\<exists>m'. continues (step_in_mode mode) k m m' \<and> wf_machine m' \<and> m_termination m' = None \<and>
    abs_machine m' = s"
  using assms
proof (induction k arbitrary: m)
  case 0
  then show ?case by auto
next
  case (Suc k)
  obtain t where t: "amstep 10 (mode_input_op mode) (mode_output_op mode) (abs_machine m) t"
    "(amstep 10 (mode_input_op mode) (mode_output_op mode) ^^ k) t s"
    using Suc.prems(1) by (metis relpowp_Suc_D2)
  obtain m1 where m1: "step_in_mode mode m = (Inr Continued, m1)" "abs_machine m1 = t"
    using refine_step[OF Suc.prems(2,3) t(1)] by blast
  have "continues (step_in_mode mode) 1 m m1" using m1 by (simp add: continues_Suc_iff)
  then have "m_termination m1 = None" using classic_run.continues_live Suc.prems(3) by blast
  then obtain m' where "continues (step_in_mode mode) k m1 m'" "wf_machine m'"
    "m_termination m' = None" "abs_machine m' = s"
    using Suc.IH[of m1] t(2) m1 step_wf[OF Suc.prems(2) m1(1)] by blast
  then show ?case using m1 by (auto simp: continues_Suc_iff)
qed

subsection \<open>The first cells of a loaded image\<close>

text \<open>\<open>grow n l\<close> continues the reversed prefix \<open>l\<close> of an image by \<open>n\<close> cells.\<close>

fun grow :: "nat \<Rightarrow> nat list \<Rightarrow> nat list" where
  "grow (Suc n) (previous # older # rest) =
    grow n (crazy_digits 10 older previous # previous # older # rest)"
| "grow n cells = cells"

lemma grow_image:
  assumes "recurrence j ws" and "\<forall>w \<in> set ws. wf_word w" and "length cells + n \<le> length ws"
    and "j \<le> length cells" and "2 \<le> length cells"
    and "map word_value (take (length cells) ws) = rev cells"
  shows "map word_value (take (length cells + n) ws) = rev (grow n cells)"
  using assms(3-6)
proof (induction n arbitrary: cells)
  case 0
  then show ?case by simp
next
  case (Suc n)
  then obtain previous older rest where c: "cells = previous # older # rest"
    by (metis One_nat_def Suc_1 Suc_le_length_iff)
  let ?k = "length cells"
  have k: "?k < length ws" using Suc.prems(1) by simp
  have at: "word_value (ws ! i) = rev cells ! i" if "i < ?k" for i
    using Suc.prems(4) that k by (metis length_take less_imp_le_nat min.absorb2 nth_map nth_take)
  have last: "word_value (ws ! (?k - 2)) = older" "word_value (ws ! (?k - 1)) = previous"
    using at[of "?k - 2"] at[of "?k - 1"] by (simp_all add: c nth_append)
  have "ws ! ?k = word_crazy (ws ! (?k - 2)) (ws ! (?k - 1))"
    using assms(1) Suc.prems(2) k by (simp add: recurrence_def)
  moreover have "wf_word (ws ! (?k - 2))" "wf_word (ws ! (?k - 1))"
    using assms(2) k by (auto intro: nth_mem)
  ultimately have new: "word_value (ws ! ?k) = crazy_digits 10 older previous"
    using last by (simp add: word_value_crazy)
  define more where "more = crazy_digits 10 older previous # cells"
  have "map word_value (take (length more) ws) = rev more"
    using k Suc.prems(4) new by (simp add: more_def take_Suc_conv_app_nth)
  then have "map word_value (take (length more + n) ws) = rev (grow n more)"
    using Suc.prems by (intro Suc.IH) (simp_all add: more_def)
  then show ?case by (simp add: more_def c)
qed

subsection \<open>The sideband is whitespace\<close>

lemma source_bytes_append: "source_bytes (xs @ ys) = source_bytes xs @ source_bytes ys"
  by (simp add: source_bytes_def)

lemma sideband_whitespace: "source_bytes (concat (map encode_byte frame)) = []"
  by (induction frame)
    (auto simp: source_bytes_def filter_empty_conv encode_byte_bits SPACE_def TAB_def
      is_source_whitespace_def split: if_splits)

lemma fallback_bytes: "FALLBACK_SOURCE = [40, 67, 60, 59, 95, 34, 75]"
  by (simp add: FALLBACK_SOURCE_def as_bytes_def)

lemma fallback_source: "source_bytes FALLBACK_SOURCE = FALLBACK_SOURCE"
  by (simp add: fallback_bytes source_bytes_def is_source_whitespace_def)

lemma build_capsule_load:
  assumes "build_capsule profile payload = Inr source"
  shows "load source = load FALLBACK_SOURCE"
proof -
  obtain frame where "source = FALLBACK_SOURCE @ concat (map encode_byte frame)"
    using assms by (auto simp: build_capsule_def encode_sideband_def Let_def split: if_splits)
  then have b: "source_bytes source = FALLBACK_SOURCE"
    by (simp add: source_bytes_append sideband_whitespace fallback_source)
  have "\<forall>b \<in> set FALLBACK_SOURCE. 33 \<le> b \<and> b \<le> 126" by (simp add: fallback_bytes)
  then show ?thesis using load_source_bytes[of source] b by simp
qed

lemma fallback_loads: "\<exists>m. load FALLBACK_SOURCE = Inr m"
proof -
  have at: "loads_at 0 40" "loads_at 1 67" "loads_at 2 60" "loads_at 3 59" "loads_at 4 95"
    "loads_at 5 34" "loads_at 6 75"
    by (simp_all add: loads_at_def decode_instruction_profile decode_profile_some XLAT1_def)
  have "loads_at i (FALLBACK_SOURCE ! i)" if "i < 7" for i
  proof -
    have "i = 0 \<or> i = 1 \<or> i = 2 \<or> i = 3 \<or> i = 4 \<or> i = 5 \<or> i = 6" using that by linarith
    then show ?thesis using at by (elim disjE) (simp_all add: fallback_bytes)
  qed
  then show ?thesis
    unfolding load_ok_iff fallback_source by (simp add: fallback_bytes MEMORY_WORDS_def)
qed

subsection \<open>What the fallback program does\<close>

lemma grow_numeral:
  "grow (numeral k) (previous # older # rest) =
    grow (pred_numeral k) (crazy_digits 10 older previous # previous # older # rest)"
  unfolding numeral_eq_Suc[of k] by (rule grow.simps(1))

lemma length_grow: "2 \<le> length cells \<Longrightarrow> length (grow n cells) = length cells + n"
  by (induction n cells rule: grow.induct) auto

lemma fallback_grown:
  "grow 39 [75, 34, 95, 59, 60, 67, 40] ! 3 = 75 \<and> grow 39 [75, 34, 95, 59, 60, 67, 40] ! 2 = 29545"
  by (simp add: grow_numeral crazy_digits_numeral crazy_trit_def)

lemma fallback_cells:
  assumes "load FALLBACK_SOURCE = Inr mem"
  shows "map word_value (take 7 (mem_words mem)) = [40, 67, 60, 59, 95, 34, 75]"
    and "word_value (mem_words mem ! 42) = 75" and "word_value (mem_words mem ! 43) = 29545"
proof -
  define cells :: "nat list" where "cells = [75, 34, 95, 59, 60, 67, 40]"
  have len: "length cells = 7" by (simp add: cells_def)
  note img = load_image[OF assms, unfolded fallback_source]
  have wf: "\<forall>w \<in> set (mem_words mem). wf_word w" "length (mem_words mem) = 59049"
    using img(1) by (simp_all add: wf_memory_def MEMORY_WORDS_def)
  show start: "map word_value (take 7 (mem_words mem)) = [40, 67, 60, 59, 95, 34, 75]"
    using arg_cong[OF img(2)[unfolded magic_length], of "map word_value"]
    by (simp add: fallback_bytes word_from_byte_def)
  have "map word_value (take (length cells + 39) (mem_words mem)) = rev (grow 39 cells)"
  proof (rule grow_image[OF img(3) wf(1)])
    show "map word_value (take (length cells) (mem_words mem)) = rev cells"
      unfolding len start by (simp add: cells_def)
  qed (simp_all add: len wf)
  then have "map word_value (take 46 (mem_words mem)) = rev (grow 39 cells)" by (simp add: len)
  moreover have "length (grow 39 cells) = 46" using length_grow[of cells 39] len by simp
  ultimately have "word_value (mem_words mem ! k) = grow 39 cells ! (45 - k)" if "k < 46" for k
    using that wf(2) nth_map[of k "take 46 (mem_words mem)" word_value] by (simp add: rev_nth)
  from this[of 42] this[of 43] show "word_value (mem_words mem ! 42) = 75"
    "word_value (mem_words mem ! 43) = 29545"
    using fallback_grown by (simp_all add: cells_def)
qed

text \<open>The six steps on the abstract machine, from any image with those cells.\<close>

lemma fallback_steps:
  assumes f: "f 0 = 40" "f 1 = 67" "f 2 = 60" "f 3 = 59" "f 4 = 95" "f 5 = 34" "f 6 = 75"
    and d: "f 42 = 75" "f 43 = 29545"
  shows "\<exists>s. (amstep 10 47 60 ^^ 6)
      \<lparr>am_mem = f, am_a = 0, am_c = 0, am_d = 0, am_in = inp, am_out = []\<rparr> s \<and>
    am_halts 47 60 s \<and> am_out s = [33]"
proof -
  define s0 where "s0 = \<lparr>am_mem = f, am_a = 0, am_c = 0, am_d = 0, am_in = inp, am_out = []\<rparr>"
  define s1 where "s1 = am_seal 10 (am_effect 10 OpJumpData s0)"
  have s1: "amstep 10 47 60 s0 s1" unfolding s1_def
    by (rule amstep_seal) (simp_all add: s0_def f graphical_def am_decoded_def am_operation_def XLAT1_def)
  have v1: "am_a s1 = 0" "am_c s1 = 1" "am_d s1 = 41" "am_out s1 = []" "k \<noteq> 0 \<Longrightarrow> am_mem s1 k = f k" for k
    by (simp_all add: s1_def s0_def am_seal_def f)
  have crazy: "crazy_digits 10 75 0 = 29560" "crazy_digits 10 29545 29560 = 33"
    by (simp_all add: crazy_digits_numeral crazy_trit_def)
  define s2 where "s2 = am_seal 10 (am_effect 10 OpNop s1)"
  have s2: "amstep 10 47 60 s1 s2" unfolding s2_def
    by (rule amstep_seal) (simp_all add: v1 f f[unfolded One_nat_def] d crazy Let_def graphical_def am_decoded_def am_operation_def XLAT1_def)
  have v2: "am_a s2 = 0" "am_c s2 = 2" "am_d s2 = 42" "am_out s2 = []"
    "k \<notin> {0, 1} \<Longrightarrow> am_mem s2 k = f k" for k
    by (simp_all add: s2_def v1 am_seal_def Let_def f f[unfolded One_nat_def] d crazy)
  define s3 where "s3 = am_seal 10 (am_effect 10 OpCrazy s2)"
  have s3: "amstep 10 47 60 s2 s3" unfolding s3_def
    by (rule amstep_seal) (simp_all add: v2 f f[unfolded One_nat_def] d crazy Let_def graphical_def am_decoded_def am_operation_def XLAT1_def)
  have v3: "am_a s3 = 29560" "am_c s3 = 3" "am_d s3 = 43" "am_out s3 = []"
    "k \<notin> {0, 1, 2, 42} \<Longrightarrow> am_mem s3 k = f k" for k
    by (simp_all add: s3_def v2 am_seal_def Let_def f f[unfolded One_nat_def] d crazy)
  define s4 where "s4 = am_seal 10 (am_effect 10 OpCrazy s3)"
  have s4: "amstep 10 47 60 s3 s4" unfolding s4_def
    by (rule amstep_seal) (simp_all add: v3 f f[unfolded One_nat_def] d crazy Let_def graphical_def am_decoded_def am_operation_def XLAT1_def)
  have v4: "am_a s4 = 33" "am_c s4 = 4" "am_d s4 = 44" "am_out s4 = []"
    "k \<notin> {0, 1, 2, 3, 42, 43} \<Longrightarrow> am_mem s4 k = f k" for k
    by (simp_all add: s4_def v3 am_seal_def Let_def f f[unfolded One_nat_def] d crazy)
  define s5 where "s5 = am_seal 10 (am_effect 10 OpOutput s4)"
  have s5: "amstep 10 47 60 s4 s5" unfolding s5_def
    by (rule amstep_seal) (simp_all add: v4 f f[unfolded One_nat_def] d crazy Let_def graphical_def am_decoded_def am_operation_def XLAT1_def)
  have v5: "am_a s5 = 33" "am_c s5 = 5" "am_d s5 = 45" "am_out s5 = [33]"
    "k \<notin> {0, 1, 2, 3, 4, 42, 43} \<Longrightarrow> am_mem s5 k = f k" for k
    by (simp_all add: s5_def v4 am_seal_def Let_def f f[unfolded One_nat_def] d crazy)
  define s6 where "s6 = am_seal 10 (am_effect 10 OpRotate s5)"
  have s6: "amstep 10 47 60 s5 s6" unfolding s6_def
    by (rule amstep_seal) (simp_all add: v5 f Let_def graphical_def am_decoded_def am_operation_def XLAT1_def)
  have v6: "am_c s6 = 6" "am_out s6 = [33]" "am_mem s6 6 = 75"
    by (simp_all add: s6_def v5 am_seal_def Let_def f)
  have "am_halts 47 60 s6" by (simp add: am_halts_def v6 graphical_def am_decoded_def am_operation_def XLAT1_def)
  moreover have "(amstep 10 47 60 ^^ 6) s0 s6"
    using s1 s2 s3 s4 s5 s6 by (auto simp: numeral_eq_Suc intro!: relcomppI)
  ultimately show ?thesis using v6(2) unfolding s0_def by blast
qed

subsection \<open>Property\<close>

lemma fallback_run:
  assumes "from_source FALLBACK_SOURCE input = Inr m"
  shows "\<exists>m'. run_in_mode Interpreter 7 m = (Inr (RunTerminated HaltInstruction 7), m') \<and>
    m_output m' = [33]"
proof -
  obtain mem where mem: "load FALLBACK_SOURCE = Inr mem" and m: "m = machine_new mem input"
    using assms by (auto simp: from_source_def)
  define f where "f = abs_words (map word_value (mem_words mem))"
  note cells = fallback_cells[OF mem]
  have len: "length (mem_words mem) = 59049"
    using load_image(1)[OF mem] by (simp add: wf_memory_def MEMORY_WORDS_def)
  have at: "f k = word_value (mem_words mem ! k)" if "k < 59049" for k
    using that len by (simp add: f_def)
  have start: "word_value (mem_words mem ! k) = [40, 67, 60, 59, 95, 34, 75] ! k" if "k < 7" for k
    using cells(1) that len nth_map[of k "take 7 (mem_words mem)" word_value] by simp
  have abs: "abs_machine m =
      \<lparr>am_mem = f, am_a = 0, am_c = 0, am_d = 0, am_in = input, am_out = []\<rparr>"
    by (simp add: abs_machine_def m machine_new_def with_registers_def registers_default_def
        word_ZERO_def f_def)
  obtain s where s: "(amstep 10 47 60 ^^ 6) (abs_machine m) s" "am_halts 47 60 s" "am_out s = [33]"
    using fallback_steps[of f input] at start[of 0] start[of 1] start[of 2] start[of 3] start[of 4]
      start[of 5] start[of 6] cells(2,3) unfolding abs by auto
  have live: "m_termination m = None" by (simp add: m machine_new_def with_registers_def)
  obtain m6 where m6: "continues (step_in_mode Interpreter) 6 m m6" "wf_machine m6"
    "m_termination m6 = None" "abs_machine m6 = s"
    using refine_steps[of 6 Interpreter m s] s(1) from_source_wf[OF assms] live by auto
  have "step_in_mode Interpreter m6 =
      (Inr (Terminated HaltInstruction), m6\<lparr>m_termination := Some HaltInstruction\<rparr>)"
    using refine_halt[OF m6(2,3), of Interpreter] s(2) m6(4) by simp
  then have "run_in_mode Interpreter 7 m =
      (Inr (RunTerminated HaltInstruction 7), m6\<lparr>m_termination := Some HaltInstruction\<rparr>)"
    using m6(1) live by (auto simp: classic_run.run_terminated_iff intro!: exI[of _ 6] exI[of _ m6])
  moreover have "m_output m6 = [33]" using s(3) m6(4) by (auto simp: abs_machine_def)
  ultimately show ?thesis by simp
qed

text \<open>
  C35: a capsule is safe on the historical machine. Whatever profile and payload it carries, the
  classic loader accepts it and builds the image of the fixed fallback program, and the classic
  interpreter prints a single \<open>!\<close> and halts at its seventh step, on any input.
\<close>
theorem capsule_is_historical:
  assumes "build_capsule profile payload = Inr source"
  shows "load source = load FALLBACK_SOURCE \<and>
    (\<exists>m m'. from_source source input = Inr m \<and>
      run_in_mode Interpreter 7 m = (Inr (RunTerminated HaltInstruction 7), m') \<and>
      m_output m' = [33])"
proof -
  have l: "load source = load FALLBACK_SOURCE" using build_capsule_load[OF assms] .
  obtain mem where "load FALLBACK_SOURCE = Inr mem" using fallback_loads by blast
  then have "from_source source input = Inr (machine_new mem input)"
    "from_source FALLBACK_SOURCE input = Inr (machine_new mem input)"
    using l by (simp_all add: from_source_def)
  then show ?thesis using l fallback_run by blast
qed

theorem capsule_is_historical_witness:
  "\<exists>source. build_capsule PROFILE_1 [1, 2, 3] = Inr source \<and> load source = load FALLBACK_SOURCE"
proof -
  obtain source where b: "build_capsule PROFILE_1 [1, 2, 3] = Inr source"
    by (simp add: build_capsule_def Let_def PROFILE_1_def U16_MAX_def U32_MAX_def)
  then show ?thesis using capsule_is_historical[OF b] by blast
qed

end
