(* ===== verification/Detectors.thy ===== *)
theory Detectors
  imports Prelude "HOL-Library.AList"
begin

text \<open>
  Two checks over observations of machines. \<open>domain/cycle.rs\<close>: the exact cycle detector, which
  keeps complete states in buckets chosen by a key and confirms equality, and the diagnostic one,
  which keeps only keys. \<open>domain/differential.rs\<close>: exact agreement of labelled candidates. A
  \<open>HashMap\<close> is an association list with distinct keys: nothing here depends on its order.
\<close>

subsection \<open>Cycle detection\<close>

datatype CycleDetectionError = ObservationIndexExhausted

datatype ExactCycleObservation =
    ExactRepeat u64 u64
  | ExactUnique u64

datatype DiagnosticCycleObservation =
    PossibleRepeat u64 u64
  | DiagnosticUnique u64

record 's ExactEntry =
  entry_first_seen :: u64
  entry_state :: 's

record ('s, 'k) ExactCycleDetector =
  ecd_buckets :: "('k \<times> 's ExactEntry list) list"
  ecd_next_observation :: u64

record 'k DiagnosticCycleDetector =
  dcd_first_seen :: "('k \<times> u64) list"
  dcd_next_observation :: u64

definition exact_detector_new :: "('s, 'k) ExactCycleDetector" where
  "exact_detector_new = \<lparr>ecd_buckets = [], ecd_next_observation = 0\<rparr>"

definition diagnostic_detector_new :: "'k DiagnosticCycleDetector" where
  "diagnostic_detector_new = \<lparr>dcd_first_seen = [], dcd_next_observation = 0\<rparr>"

text \<open>The index is taken and advanced, or the error leaves it alone.\<close>

definition advance_observation :: "u64 \<Rightarrow> (CycleDetectionError + u64) \<times> u64" where
  "advance_observation next_observation =
    (case checked_add U64_MAX next_observation 1 of
      None \<Rightarrow> (Inl ObservationIndexExhausted, next_observation)
    | Some advanced \<Rightarrow> (Inr next_observation, advanced))"

definition exact_observe ::
  "('s, 'k) ExactCycleDetector \<Rightarrow> 'k \<Rightarrow> 's \<Rightarrow>
    (CycleDetectionError + ExactCycleObservation) \<times> ('s, 'k) ExactCycleDetector" where
  "exact_observe self key state =
    (case advance_observation (ecd_next_observation self) of
      (Inl e, next_observation) \<Rightarrow> (Inl e, self\<lparr>ecd_next_observation := next_observation\<rparr>)
    | (Inr observed_at, next_observation) \<Rightarrow>
        let bucket = (case map_of (ecd_buckets self) key of None \<Rightarrow> [] | Some entries \<Rightarrow> entries)
        in (case find (\<lambda>entry. entry_state entry = state) bucket of
             Some entry \<Rightarrow>
               (Inr (ExactRepeat (entry_first_seen entry) observed_at),
                self\<lparr>ecd_next_observation := next_observation,
                  ecd_buckets := AList.update key bucket (ecd_buckets self)\<rparr>)
           | None \<Rightarrow>
               (Inr (ExactUnique observed_at),
                self\<lparr>ecd_next_observation := next_observation,
                  ecd_buckets := AList.update key
                    (bucket @ [\<lparr>entry_first_seen = observed_at, entry_state = state\<rparr>])
                    (ecd_buckets self)\<rparr>)))"

definition retained_state_count :: "('s, 'k) ExactCycleDetector \<Rightarrow> usize" where
  "retained_state_count self = sum_list (map (\<lambda>(_, entries). length entries) (ecd_buckets self))"

definition diagnostic_observe ::
  "'k DiagnosticCycleDetector \<Rightarrow> 'k \<Rightarrow>
    (CycleDetectionError + DiagnosticCycleObservation) \<times> 'k DiagnosticCycleDetector" where
  "diagnostic_observe self key =
    (case advance_observation (dcd_next_observation self) of
      (Inl e, next_observation) \<Rightarrow> (Inl e, self\<lparr>dcd_next_observation := next_observation\<rparr>)
    | (Inr observed_at, next_observation) \<Rightarrow>
        (case map_of (dcd_first_seen self) key of
          Some first_seen \<Rightarrow>
            (Inr (PossibleRepeat first_seen observed_at), self\<lparr>dcd_next_observation := next_observation\<rparr>)
        | None \<Rightarrow>
            (Inr (DiagnosticUnique observed_at),
             self\<lparr>dcd_next_observation := next_observation,
               dcd_first_seen := AList.update key observed_at (dcd_first_seen self)\<rparr>)))"

definition retained_key_count :: "'k DiagnosticCycleDetector \<Rightarrow> usize" where
  "retained_key_count self = length (dcd_first_seen self)"

subsection \<open>Differential verification\<close>

record ('b, 'v) DifferentialCandidate =
  dc_backend :: 'b
  dc_observation :: 'v

datatype 'b DifferentialVerificationError =
    InsufficientCandidates usize
  | Mismatch 'b 'b

fun verify_candidates_loop ::
  "('b, 'v) DifferentialCandidate \<Rightarrow> ('b, 'v) DifferentialCandidate list \<Rightarrow>
    'b DifferentialVerificationError + unit" where
  "verify_candidates_loop reference [] = Inr ()"
| "verify_candidates_loop reference (candidate # candidates) =
    (if dc_observation candidate \<noteq> dc_observation reference
     then Inl (Mismatch (dc_backend candidate) (dc_backend reference))
     else verify_candidates_loop reference candidates)"

definition verify_differential_candidates ::
  "('b, 'v) DifferentialCandidate list \<Rightarrow> 'b DifferentialVerificationError + unit" where
  "verify_differential_candidates candidates =
    (case candidates of
      [] \<Rightarrow> Inl (InsufficientCandidates 0)
    | reference # remaining \<Rightarrow>
        if remaining = [] then Inl (InsufficientCandidates 1)
        else verify_candidates_loop reference remaining)"

subsection \<open>What a detector has seen\<close>

text \<open>
  Observing a sequence: the outcomes, in order, and the detector that is left. The reference
  outcome at index \<open>n\<close> compares the observation with all earlier ones.
\<close>

fun observe_all :: "('d \<Rightarrow> 'x \<Rightarrow> 'r \<times> 'd) \<Rightarrow> 'd \<Rightarrow> 'x list \<Rightarrow> 'r list \<times> 'd" where
  "observe_all observe d [] = ([], d)"
| "observe_all observe d (x # xs) =
    (let (r, d1) = observe d x; (rs, d2) = observe_all observe d1 xs in (r # rs, d2))"

fun index_of :: "'x \<Rightarrow> 'x list \<Rightarrow> nat option" where
  "index_of x [] = None"
| "index_of x (y # ys) = (if y = x then Some 0 else map_option Suc (index_of x ys))"

lemma index_of_None: "index_of x xs = None \<longleftrightarrow> x \<notin> set xs"
  by (induction xs) auto

lemma index_of_Some:
  "index_of x xs = Some i \<longleftrightarrow> i < length xs \<and> xs ! i = x \<and> (\<forall>j < i. xs ! j \<noteq> x)"
proof (induction xs arbitrary: i)
  case Nil
  then show ?case by simp
next
  case (Cons y ys)
  then show ?case by (cases i) (auto simp: All_less_Suc2)
qed

lemma index_of_snoc:
  "index_of x (xs @ [y]) =
    (case index_of x xs of None \<Rightarrow> if y = x then Some (length xs) else None | Some i \<Rightarrow> Some i)"
  by (induction xs) (auto split: option.splits)

text \<open>
  The contract of a detector: \<open>reflects d xs\<close> says the detector has observed exactly \<open>xs\<close>. While
  the index can advance, an observation reports the index of the first equal one among them and
  its own; afterwards it fails and changes nothing.
\<close>

locale history_detector =
  fixes observe :: "'d \<Rightarrow> 'x \<Rightarrow> ('e + 'r) \<times> 'd"
    and reflects :: "'d \<Rightarrow> 'x list \<Rightarrow> bool"
    and report :: "nat option \<Rightarrow> nat \<Rightarrow> 'r"
    and exhausted :: 'e
  assumes observe_step: "reflects d xs \<Longrightarrow> length xs < U64_MAX \<Longrightarrow>
      \<exists>d'. observe d x = (Inr (report (index_of x xs) (length xs)), d') \<and> reflects d' (xs @ [x])"
    and observe_full: "reflects d xs \<Longrightarrow> U64_MAX \<le> length xs \<Longrightarrow> observe d x = (Inl exhausted, d)"
begin

lemma observe_all_reports:
  assumes "reflects d xs" and "length xs + length ys \<le> U64_MAX"
  shows "\<exists>d'. observe_all observe d ys =
      (map (\<lambda>n. Inr (report (index_of (ys ! n) (xs @ take n ys)) (length xs + n))) [0..<length ys], d') \<and>
    reflects d' (xs @ ys)"
  using assms
proof (induction ys arbitrary: d xs)
  case Nil
  then show ?case by auto
next
  case (Cons y ys)
  obtain d1 where d1: "observe d y = (Inr (report (index_of y xs) (length xs)), d1)"
    "reflects d1 (xs @ [y])"
    using observe_step[OF Cons.prems(1), of y] Cons.prems(2) by auto
  obtain d' where d': "observe_all observe d1 ys =
      (map (\<lambda>n. Inr (report (index_of (ys ! n) ((xs @ [y]) @ take n ys)) (length (xs @ [y]) + n)))
        [0..<length ys], d')" "reflects d' ((xs @ [y]) @ ys)"
    using Cons.IH[OF d1(2)] Cons.prems(2) by auto
  have "map (\<lambda>n. Inr (report (index_of ((y # ys) ! n) (xs @ take n (y # ys))) (length xs + n)))
        [0..<length (y # ys)] =
      Inr (report (index_of y xs) (length xs)) #
      map (\<lambda>n. Inr (report (index_of (ys ! n) ((xs @ [y]) @ take n ys)) (length (xs @ [y]) + n)))
        [0..<length ys]"
    by (rule nth_equalityI) (auto simp: nth_Cons simp del: upt_Suc split: nat.splits)
  note this[symmetric]
  then show ?case using d1 d' by (simp del: upt_Suc)
qed

end

subsection \<open>The two detectors keep the contract\<close>

definition exact_report :: "nat option \<Rightarrow> nat \<Rightarrow> ExactCycleObservation" where
  "exact_report seen n = (case seen of None \<Rightarrow> ExactUnique n | Some i \<Rightarrow> ExactRepeat i n)"

definition diagnostic_report :: "nat option \<Rightarrow> nat \<Rightarrow> DiagnosticCycleObservation" where
  "diagnostic_report seen n = (case seen of None \<Rightarrow> DiagnosticUnique n | Some i \<Rightarrow> PossibleRepeat i n)"

definition bucket_of :: "('k \<times> 'a list) list \<Rightarrow> 'k \<Rightarrow> 'a list" where
  "bucket_of al k = (case map_of al k of None \<Rightarrow> [] | Some entries \<Rightarrow> entries)"

lemma bucket_of_update [simp]: "bucket_of (AList.update k v al) j = (if j = k then v else bucket_of al j)"
  by (simp add: bucket_of_def update_conv')

lemma count_update:
  "sum_list (map (\<lambda>(_, es). length es) (AList.update k v al)) + length (bucket_of al k) =
    sum_list (map (\<lambda>(_, es). length es) al) + length v"
  by (induction al) (auto simp: bucket_of_def)

definition exact_reflects :: "('s, 'k) ExactCycleDetector \<Rightarrow> ('k \<times> 's) list \<Rightarrow> bool" where
  "exact_reflects d xs \<longleftrightarrow>
    ecd_next_observation d = length xs \<and>
    (\<forall>k s. find (\<lambda>entry. entry_state entry = s) (bucket_of (ecd_buckets d) k) =
      map_option (\<lambda>i. \<lparr>entry_first_seen = i, entry_state = s\<rparr>) (index_of (k, s) xs)) \<and>
    retained_state_count d = card (set xs)"

definition diagnostic_reflects :: "'k DiagnosticCycleDetector \<Rightarrow> 'k list \<Rightarrow> bool" where
  "diagnostic_reflects d xs \<longleftrightarrow>
    dcd_next_observation d = length xs \<and> (\<forall>k. map_of (dcd_first_seen d) k = index_of k xs) \<and>
    distinct (map fst (dcd_first_seen d))"

lemma find_snoc: "find P (xs @ [y]) = (case find P xs of None \<Rightarrow> if P y then Some y else None | Some x \<Rightarrow> Some x)"
  by (induction xs) auto

lemma exact_observe_step:
  assumes r: "exact_reflects d xs" and lt: "length xs < U64_MAX"
  shows "\<exists>d'. exact_observe d k s = (Inr (exact_report (index_of (k, s) xs) (length xs)), d') \<and>
    exact_reflects d' (xs @ [(k, s)])"
proof -
  have next_index: "advance_observation (ecd_next_observation d) = (Inr (length xs), Suc (length xs))"
    using r lt by (simp add: exact_reflects_def advance_observation_def checked_add_def)
  have look: "find (\<lambda>entry. entry_state entry = t) (bucket_of (ecd_buckets d) j) =
      map_option (\<lambda>i. \<lparr>entry_first_seen = i, entry_state = t\<rparr>) (index_of (j, t) xs)" for j t
    using r by (simp add: exact_reflects_def)
  note count = count_update[of k _ "ecd_buckets d"]
  show ?thesis
  proof (cases "index_of (k, s) xs")
    case None
    define d' where "d' = d\<lparr>ecd_next_observation := Suc (length xs), ecd_buckets := AList.update k
      (bucket_of (ecd_buckets d) k @ [\<lparr>entry_first_seen = length xs, entry_state = s\<rparr>]) (ecd_buckets d)\<rparr>"
    have "exact_observe d k s = (Inr (ExactUnique (length xs)), d')"
      using None look[of s k] by (simp add: exact_observe_def next_index Let_def bucket_of_def[symmetric] d'_def)
    moreover have "exact_reflects d' (xs @ [(k, s)])"
      using None None[unfolded index_of_None] look count[of "bucket_of (ecd_buckets d) k @ [\<lparr>entry_first_seen = length xs, entry_state = s\<rparr>]"] r
      by (auto simp: exact_reflects_def d'_def find_snoc index_of_snoc retained_state_count_def
          card_insert_if split: option.splits)
    ultimately show ?thesis using None by (auto simp: exact_report_def)
  next
    case (Some i)
    define d' where "d' = d\<lparr>ecd_next_observation := Suc (length xs), ecd_buckets := AList.update k
      (bucket_of (ecd_buckets d) k) (ecd_buckets d)\<rparr>"
    have "exact_observe d k s = (Inr (ExactRepeat i (length xs)), d')"
      using Some look[of s k] by (simp add: exact_observe_def next_index Let_def bucket_of_def[symmetric] d'_def)
    moreover have "(k, s) \<in> set xs" using Some by (metis index_of_None option.distinct(1))
    then have "exact_reflects d' (xs @ [(k, s)])"
      using look count[of "bucket_of (ecd_buckets d) k"] r
      by (auto simp: exact_reflects_def d'_def index_of_snoc retained_state_count_def insert_absorb
          index_of_None split: option.splits)
    ultimately show ?thesis using Some by (auto simp: exact_report_def)
  qed
qed

interpretation exact: history_detector "\<lambda>d (k, s). exact_observe d k s" exact_reflects exact_report
  ObservationIndexExhausted
proof
  fix d :: "('s, 'k) ExactCycleDetector" and xs and x :: "'k \<times> 's"
  show "exact_reflects d xs \<Longrightarrow> length xs < U64_MAX \<Longrightarrow>
      \<exists>d'. (case x of (k, s) \<Rightarrow> exact_observe d k s) =
        (Inr (exact_report (index_of x xs) (length xs)), d') \<and> exact_reflects d' (xs @ [x])"
    using exact_observe_step[of d xs "fst x" "snd x"] by (cases x) auto
  show "exact_reflects d xs \<Longrightarrow> U64_MAX \<le> length xs \<Longrightarrow>
      (case x of (k, s) \<Rightarrow> exact_observe d k s) = (Inl ObservationIndexExhausted, d)"
    by (cases x) (auto simp: exact_observe_def advance_observation_def checked_add_def exact_reflects_def)
qed

lemma diagnostic_observe_step:
  assumes r: "diagnostic_reflects d xs" and lt: "length xs < U64_MAX"
  shows "\<exists>d'. diagnostic_observe d k = (Inr (diagnostic_report (index_of k xs) (length xs)), d') \<and>
    diagnostic_reflects d' (xs @ [k])"
proof -
  have adv: "advance_observation (length xs) = (Inr (length xs), Suc (length xs))"
    and next_index: "dcd_next_observation d = length xs"
    and look: "map_of (dcd_first_seen d) = (\<lambda>k. index_of k xs)"
    using r lt by (auto simp: diagnostic_reflects_def advance_observation_def checked_add_def)
  show ?thesis
  proof (cases "index_of k xs")
    case None
    define d' where "d' = d\<lparr>dcd_next_observation := Suc (length xs),
      dcd_first_seen := AList.update k (length xs) (dcd_first_seen d)\<rparr>"
    have "diagnostic_observe d k = (Inr (DiagnosticUnique (length xs)), d')"
      using None by (simp add: diagnostic_observe_def next_index adv look d'_def)
    moreover have "diagnostic_reflects d' (xs @ [k])"
      using r None
      by (auto simp: diagnostic_reflects_def d'_def look update_conv' index_of_snoc distinct_update
          split: option.splits)
    ultimately show ?thesis using None by (auto simp: diagnostic_report_def)
  next
    case (Some i)
    then have "k \<in> set xs" by (metis index_of_None option.distinct(1))
    define d' where "d' = d\<lparr>dcd_next_observation := Suc (length xs)\<rparr>"
    have "diagnostic_observe d k = (Inr (PossibleRepeat i (length xs)), d')"
      using Some by (simp add: diagnostic_observe_def next_index adv look d'_def)
    moreover have "diagnostic_reflects d' (xs @ [k])"
      using r \<open>k \<in> set xs\<close> by (auto simp: diagnostic_reflects_def d'_def look index_of_snoc index_of_None
          split: option.splits)
    ultimately show ?thesis using Some by (auto simp: diagnostic_report_def)
  qed
qed

interpretation diagnostic: history_detector diagnostic_observe diagnostic_reflects diagnostic_report
  ObservationIndexExhausted
proof
  fix d :: "'k DiagnosticCycleDetector" and xs x
  show "diagnostic_reflects d xs \<Longrightarrow> length xs < U64_MAX \<Longrightarrow>
      \<exists>d'. diagnostic_observe d x = (Inr (diagnostic_report (index_of x xs) (length xs)), d') \<and>
        diagnostic_reflects d' (xs @ [x])"
    by (rule diagnostic_observe_step)
  show "diagnostic_reflects d xs \<Longrightarrow> U64_MAX \<le> length xs \<Longrightarrow>
      diagnostic_observe d x = (Inl ObservationIndexExhausted, d)"
    by (auto simp: diagnostic_observe_def advance_observation_def checked_add_def diagnostic_reflects_def)
qed

subsection \<open>Properties\<close>

lemma exact_new_reflects: "exact_reflects exact_detector_new []"
  by (simp add: exact_reflects_def exact_detector_new_def retained_state_count_def bucket_of_def)

lemma diagnostic_new_reflects: "diagnostic_reflects diagnostic_detector_new []"
  by (simp add: diagnostic_reflects_def diagnostic_detector_new_def)

text \<open>
  C37: cycle detection is exact. Over any sequence of keyed states (within the range of the index)
  the exact detector reports, at each observation, the first earlier observation with the same key
  and an equal state, or that there is none, and retains each distinct one once, whatever the keys;
  the diagnostic detector does the same for the keys alone.
\<close>
theorem cycle_detection_is_exact:
  assumes "length xs \<le> U64_MAX"
  shows "(\<exists>d. observe_all (\<lambda>d (k, s). exact_observe d k s) exact_detector_new xs =
      (map (\<lambda>n. Inr (case index_of (xs ! n) (take n xs) of
          None \<Rightarrow> ExactUnique n | Some i \<Rightarrow> ExactRepeat i n)) [0..<length xs], d) \<and>
      retained_state_count d = card (set xs)) \<and>
    (\<exists>d. observe_all diagnostic_observe diagnostic_detector_new (map fst xs) =
      (map (\<lambda>n. Inr (case index_of (fst (xs ! n)) (map fst (take n xs)) of
          None \<Rightarrow> DiagnosticUnique n | Some i \<Rightarrow> PossibleRepeat i n)) [0..<length xs], d) \<and>
      retained_key_count d = card (fst ` set xs))"
proof
  show "\<exists>d. observe_all (\<lambda>d (k, s). exact_observe d k s) exact_detector_new xs =
      (map (\<lambda>n. Inr (case index_of (xs ! n) (take n xs) of
          None \<Rightarrow> ExactUnique n | Some i \<Rightarrow> ExactRepeat i n)) [0..<length xs], d) \<and>
      retained_state_count d = card (set xs)"
    using exact.observe_all_reports[OF exact_new_reflects, of xs] assms
    by (auto simp: exact_report_def exact_reflects_def)
  obtain d where d: "observe_all diagnostic_observe diagnostic_detector_new (map fst xs) =
      (map (\<lambda>n. Inr (diagnostic_report (index_of (map fst xs ! n) (take n (map fst xs))) n))
        [0..<length xs], d)" "diagnostic_reflects d (map fst xs)"
    using diagnostic.observe_all_reports[OF diagnostic_new_reflects, of "map fst xs"] assms by auto
  have "set (map fst (dcd_first_seen d)) = fst ` set xs"
  proof -
    have look: "map_of (dcd_first_seen d) k = index_of k (map fst xs)" for k
      using d(2) by (simp add: diagnostic_reflects_def)
    have "k \<in> fst ` set (dcd_first_seen d) \<longleftrightarrow> k \<in> fst ` set xs" for k
      using map_of_eq_None_iff[of "dcd_first_seen d" k] index_of_None[of k "map fst xs"] look[of k] by auto
    then show ?thesis by auto
  qed
  then have "retained_key_count d = card (fst ` set xs)"
    using d(2) distinct_card[of "map fst (dcd_first_seen d)"]
    by (simp add: retained_key_count_def diagnostic_reflects_def)
  moreover have "map (\<lambda>n. Inr (diagnostic_report (index_of (map fst xs ! n) (take n (map fst xs))) n))
        [0..<length xs] =
      map (\<lambda>n. Inr (case index_of (fst (xs ! n)) (map fst (take n xs)) of
          None \<Rightarrow> DiagnosticUnique n | Some i \<Rightarrow> PossibleRepeat i n)) [0..<length xs]"
    by (simp add: diagnostic_report_def take_map)
  ultimately show "\<exists>d. observe_all diagnostic_observe diagnostic_detector_new (map fst xs) =
      (map (\<lambda>n. Inr (case index_of (fst (xs ! n)) (map fst (take n xs)) of
          None \<Rightarrow> DiagnosticUnique n | Some i \<Rightarrow> PossibleRepeat i n)) [0..<length xs], d) \<and>
      retained_key_count d = card (fst ` set xs)"
    using d(1) by (intro exI[of _ d]) simp
qed

theorem cycle_detection_is_exact_witness:
  "\<exists>d. observe_all (\<lambda>d (k, s). exact_observe d k s) exact_detector_new
      [(0 :: nat, True), (0, False), (0, True)] =
    ([Inr (ExactUnique 0), Inr (ExactUnique 1), Inr (ExactRepeat 0 2)], d) \<and> retained_state_count d = 2"
proof -
  have "card (set [(0 :: nat, True), (0, False), (0, True)]) = 2" by (simp add: card_insert_if)
  moreover have "map (\<lambda>n. Inr (case index_of ([(0 :: nat, True), (0, False), (0, True)] ! n)
        (take n [(0, True), (0, False), (0, True)]) of
      None \<Rightarrow> ExactUnique n | Some i \<Rightarrow> ExactRepeat i n)) [0..<length [(0 :: nat, True), (0, False), (0, True)]] =
      [Inr (ExactUnique 0), Inr (ExactUnique 1),
       Inr (ExactRepeat 0 2) :: CycleDetectionError + ExactCycleObservation]"
    by code_simp
  moreover have "length [(0 :: nat, True), (0, False), (0, True)] \<le> U64_MAX" by (simp add: U64_MAX_def)
  from cycle_detection_is_exact[OF this] obtain d where
    "observe_all (\<lambda>d (k, s). exact_observe d k s) exact_detector_new
      [(0 :: nat, True), (0, False), (0, True)] =
    (map (\<lambda>n. Inr (case index_of ([(0 :: nat, True), (0, False), (0, True)] ! n)
        (take n [(0, True), (0, False), (0, True)]) of
      None \<Rightarrow> ExactUnique n | Some i \<Rightarrow> ExactRepeat i n))
      [0..<length [(0 :: nat, True), (0, False), (0, True)]], d)"
    "retained_state_count d = card (set [(0 :: nat, True), (0, False), (0, True)])" by blast
  ultimately show ?thesis by (intro exI[of _ d]) simp
qed

lemma verify_candidates_loop_iff:
  "verify_candidates_loop reference cs = Inr () \<longleftrightarrow> (\<forall>c \<in> set cs. dc_observation c = dc_observation reference)"
  by (induction cs) auto

lemma verify_candidates_loop_Inl:
  "verify_candidates_loop reference cs = Inl e \<longleftrightarrow>
    (\<exists>i < length cs. dc_observation (cs ! i) \<noteq> dc_observation reference \<and>
      (\<forall>j < i. dc_observation (cs ! j) = dc_observation reference) \<and>
      e = Mismatch (dc_backend (cs ! i)) (dc_backend reference))"
  by (induction cs) (auto simp: Ex_less_Suc2 All_less_Suc2)

text \<open>
  Differential verification accepts exactly two or more candidates whose observations are all
  equal, in any order of the candidates; a mismatch names the first candidate that differs and the
  reference, and fewer than two candidates are counted.
\<close>
lemma differential_verification_is_exact:
  "(verify_differential_candidates cs = Inr () \<longleftrightarrow>
      2 \<le> length cs \<and> card (dc_observation ` set cs) = 1) \<and>
   (verify_differential_candidates cs = Inl (InsufficientCandidates n) \<longleftrightarrow> length cs = n \<and> n < 2) \<and>
   (verify_differential_candidates cs = Inl (Mismatch b r) \<longleftrightarrow>
      (\<exists>i. i < length cs \<and> dc_observation (cs ! i) \<noteq> dc_observation (cs ! 0) \<and>
        card (dc_observation ` set (take i cs)) = 1 \<and>
        b = dc_backend (cs ! i) \<and> r = dc_backend (cs ! 0)))"
proof (cases cs)
  case Nil
  then show ?thesis by (auto simp: verify_differential_candidates_def)
next
  case (Cons c rest)
  have one: "card (dc_observation ` set (c # xs)) = 1 \<longleftrightarrow>
      (\<forall>x \<in> set xs. dc_observation x = dc_observation c)" for xs
    by (auto simp: card_1_singleton_iff)
  have first: "card (dc_observation ` set (take (Suc i) cs)) = 1 \<longleftrightarrow>
      (\<forall>j < i. dc_observation (rest ! j) = dc_observation c)" if "i < length rest" for i
    using one[of "take i rest"] that nth_image[of i rest, symmetric] by (auto simp: Cons)
  have shift: "(\<exists>i. i < length cs \<and> dc_observation (cs ! i) \<noteq> dc_observation (cs ! 0) \<and>
        card (dc_observation ` set (take i cs)) = 1 \<and>
        b = dc_backend (cs ! i) \<and> r = dc_backend (cs ! 0)) \<longleftrightarrow>
      (\<exists>i < length rest. dc_observation (rest ! i) \<noteq> dc_observation c \<and>
        (\<forall>j < i. dc_observation (rest ! j) = dc_observation c) \<and>
        b = dc_backend (rest ! i) \<and> r = dc_backend c)"
    using first by (auto simp: Cons Ex_less_Suc2)
  have kind: "verify_candidates_loop c rest \<noteq> Inl (InsufficientCandidates n)"
    by (auto simp: verify_candidates_loop_Inl)
  have v: "verify_differential_candidates cs =
      (if rest = [] then Inl (InsufficientCandidates 1) else verify_candidates_loop c rest)"
    by (simp add: verify_differential_candidates_def Cons)
  have len: "length cs = Suc (length rest)" by (simp add: Cons)
  show ?thesis
  proof (cases "rest = []")
    case True
    then show ?thesis unfolding shift v unfolding len by auto
  next
    case False
    then have two: "2 \<le> Suc (length rest)" "\<not> Suc (length rest) < 2" by (cases rest; simp)+
    have v': "verify_differential_candidates cs = verify_candidates_loop c rest"
      using False v by simp
    have c: "card (dc_observation ` set cs) = 1 \<longleftrightarrow>
        (\<forall>x \<in> set rest. dc_observation x = dc_observation c)" unfolding Cons by (rule one)
    show ?thesis
      unfolding shift v' c verify_candidates_loop_iff verify_candidates_loop_Inl
      unfolding len using two by (intro conjI) (auto simp: Suc_le_eq)
  qed
qed

end
