(* ===== verification/ResidentWire.thy ===== *)
theory ResidentWire
  imports Bytes
begin

text \<open>
  \<open>contract/profile_resident_wire.rs\<close>: the MBPRN2 framing between the scheduler and an optional
  resident backend. Requests are encoded from admitted machine views, responses are decoded from
  untrusted bytes, and \<open>profile_resident_response_byte_limit\<close> bounds what a backend may send.
  \<open>usize\<close> has 64 bits, so converting a \<open>u32\<close> to it never fails.
\<close>

definition USIZE_MAX :: nat where "USIZE_MAX = 18446744073709551615"

definition PROFILE_RESIDENT_WIRE_MAGIC :: "u8 list" where
  "PROFILE_RESIDENT_WIRE_MAGIC = as_bytes ''MBPRN2'' @ [0, 0]"
definition RESPONSE_RESULTS :: u32 where "RESPONSE_RESULTS = 0"
definition RESPONSE_UNAVAILABLE :: u32 where "RESPONSE_UNAVAILABLE = 1"
definition RESULT_FIXED_U32_FIELDS :: usize where "RESULT_FIXED_U32_FIELDS = 11"

datatype ProfileResidentWireError =
    CounterOverflow
  | MemoryLengthMismatch u32 usize
  | MixedGeometry
  | ReadFailure
  | ResponseKind u32
  | ResponseMagic
  | TrailingResponse

record ProfileResidentWireGeometry =
  prwg_eof_word :: u32
  prwg_input_instruction :: u8
  prwg_memory_words :: u32
  prwg_output_instruction :: u8
  prwg_word_modulus :: u32
  prwg_word_trits :: u8

datatype ProfileResidentWireTermination = WireHaltInstruction | WireNonGraphicalCell | WireNone

fun wire_termination_code :: "ProfileResidentWireTermination \<Rightarrow> u32" where
  "wire_termination_code WireNone = 0"
| "wire_termination_code WireHaltInstruction = 1"
| "wire_termination_code WireNonGraphicalCell = 2"

record ProfileResidentWireRequest =
  prwq_accumulator :: u32
  prwq_code_pointer :: u32
  prwq_data_pointer :: u32
  prwq_geometry :: ProfileResidentWireGeometry
  prwq_input :: "u8 list"
  prwq_input_consumed :: usize
  prwq_memory :: "u32 list"
  prwq_output :: "u8 list"
  prwq_step_budget :: usize
  prwq_termination :: ProfileResidentWireTermination

record ProfileResidentWireResult =
  prwr_accumulator :: u32
  prwr_code_pointer :: u32
  prwr_data_pointer :: u32
  prwr_error :: u32
  prwr_error_pointer :: u32
  prwr_error_value :: u32
  prwr_input_consumed :: u32
  prwr_memory :: "u32 list"
  prwr_output :: "u8 list"
  prwr_status :: u32
  prwr_steps :: u32
  prwr_termination :: u32

datatype ProfileResidentWireResponse =
    Results "ProfileResidentWireResult list"
  | Unavailable

subsection \<open>Decoding responses\<close>

record WireReader =
  wr_bytes :: "u8 list"
  wr_offset :: usize

definition wr_new :: "u8 list \<Rightarrow> WireReader" where
  "wr_new bytes = \<lparr>wr_bytes = bytes, wr_offset = 0\<rparr>"

definition wr_finish :: "WireReader \<Rightarrow> ProfileResidentWireError + unit" where
  "wr_finish self =
    (if wr_offset self = length (wr_bytes self) then Inr () else Inl TrailingResponse)"

definition wr_remaining :: "WireReader \<Rightarrow> usize" where
  "wr_remaining self = length (wr_bytes self) - wr_offset self"

definition wr_take :: "WireReader \<Rightarrow> usize \<Rightarrow> ProfileResidentWireError + (u8 list \<times> WireReader)" where
  "wr_take self count =
    and_then (ok_or ReadFailure (checked_add USIZE_MAX (wr_offset self) count)) (\<lambda>limit.
      if limit \<le> length (wr_bytes self)
      then Inr (take count (drop (wr_offset self) (wr_bytes self)), self\<lparr>wr_offset := limit\<rparr>)
      else Inl ReadFailure)"

definition wr_u32 :: "WireReader \<Rightarrow> ProfileResidentWireError + (u32 \<times> WireReader)" where
  "wr_u32 self = and_then (wr_take self 4) (\<lambda>(bytes, self'). Inr (from_le_bytes bytes, self'))"

fun wr_words_loop ::
  "WireReader \<Rightarrow> nat \<Rightarrow> u32 list \<Rightarrow> ProfileResidentWireError + (u32 list \<times> WireReader)" where
  "wr_words_loop self 0 words = Inr (words, self)"
| "wr_words_loop self (Suc n) words =
    and_then (wr_u32 self) (\<lambda>(v, self'). wr_words_loop self' n (words @ [v]))"

definition wr_words ::
  "WireReader \<Rightarrow> usize \<Rightarrow> ProfileResidentWireError + (u32 list \<times> WireReader)" where
  "wr_words self count =
    and_then (ok_or ReadFailure (checked_mul USIZE_MAX count 4)) (\<lambda>required.
      if required > wr_remaining self then Inl ReadFailure else wr_words_loop self count [])"

definition usize_from_u32 :: "u32 \<Rightarrow> ProfileResidentWireError + usize" where
  "usize_from_u32 v = ok_or CounterOverflow (if v \<le> USIZE_MAX then Some v else None)"

definition decode_result ::
  "WireReader \<Rightarrow> usize \<Rightarrow> ProfileResidentWireError + (ProfileResidentWireResult \<times> WireReader)" where
  "decode_result reader memory_words =
    and_then (wr_u32 reader) (\<lambda>(status, reader).
    and_then (wr_u32 reader) (\<lambda>(error, reader).
    and_then (wr_u32 reader) (\<lambda>(accumulator, reader).
    and_then (wr_u32 reader) (\<lambda>(code_pointer, reader).
    and_then (wr_u32 reader) (\<lambda>(data_pointer, reader).
    and_then (wr_u32 reader) (\<lambda>(input_consumed, reader).
    and_then (wr_u32 reader) (\<lambda>(output_field, reader).
    and_then (usize_from_u32 output_field) (\<lambda>output_len.
    and_then (wr_u32 reader) (\<lambda>(termination, reader).
    and_then (wr_u32 reader) (\<lambda>(error_pointer, reader).
    and_then (wr_u32 reader) (\<lambda>(error_value, reader).
    and_then (wr_u32 reader) (\<lambda>(steps, reader).
    and_then (wr_words reader memory_words) (\<lambda>(memory, reader).
    and_then (wr_take reader output_len) (\<lambda>(output, reader).
      Inr (\<lparr>prwr_accumulator = accumulator, prwr_code_pointer = code_pointer,
            prwr_data_pointer = data_pointer, prwr_error = error,
            prwr_error_pointer = error_pointer, prwr_error_value = error_value,
            prwr_input_consumed = input_consumed, prwr_memory = memory, prwr_output = output,
            prwr_status = status, prwr_steps = steps, prwr_termination = termination\<rparr>,
           reader)))))))))))))))"

fun decode_results_loop ::
  "WireReader \<Rightarrow> usize \<Rightarrow> nat \<Rightarrow> ProfileResidentWireResult list \<Rightarrow>
    ProfileResidentWireError + (ProfileResidentWireResult list \<times> WireReader)" where
  "decode_results_loop reader memory_len 0 results = Inr (results, reader)"
| "decode_results_loop reader memory_len (Suc n) results =
    and_then (decode_result reader memory_len) (\<lambda>(result, reader').
      decode_results_loop reader' memory_len n (results @ [result]))"

definition response_fits :: "usize \<Rightarrow> usize \<Rightarrow> WireReader \<Rightarrow> ProfileResidentWireError + unit" where
  "response_fits count memory_len reader =
    (if count \<noteq> 0 then
       and_then (ok_or ReadFailure
         (Option.bind (checked_add USIZE_MAX memory_len RESULT_FIXED_U32_FIELDS)
           (\<lambda>words. checked_mul USIZE_MAX words 4))) (\<lambda>minimum_result_bytes.
       and_then (ok_or ReadFailure (checked_mul USIZE_MAX count minimum_result_bytes))
         (\<lambda>minimum_batch_bytes.
           if minimum_batch_bytes > wr_remaining reader then Inl ReadFailure else Inr ()))
     else Inr ())"

definition decode_profile_resident_response ::
  "u8 list \<Rightarrow> u32 \<Rightarrow> ProfileResidentWireError + ProfileResidentWireResponse" where
  "decode_profile_resident_response bytes memory_words =
    and_then (wr_take (wr_new bytes) (length PROFILE_RESIDENT_WIRE_MAGIC)) (\<lambda>(magic, reader).
      if magic \<noteq> PROFILE_RESIDENT_WIRE_MAGIC then Inl ResponseMagic
      else
    and_then (wr_u32 reader) (\<lambda>(kind, reader).
    and_then (wr_u32 reader) (\<lambda>(count_field, reader).
    and_then (usize_from_u32 count_field) (\<lambda>count.
      if kind = RESPONSE_UNAVAILABLE then
        (if count \<noteq> 0 then Inl (ResponseKind kind)
         else and_then (wr_finish reader) (\<lambda>_. Inr Unavailable))
      else if kind \<noteq> RESPONSE_RESULTS then Inl (ResponseKind kind)
      else
    and_then (usize_from_u32 memory_words) (\<lambda>memory_len.
    and_then (response_fits count memory_len reader) (\<lambda>_.
    and_then (decode_results_loop reader memory_len count []) (\<lambda>(results, reader).
    and_then (wr_finish reader) (\<lambda>_. Inr (Results results)))))))))"

subsection \<open>Encoding requests\<close>

definition usize_u32 :: "usize \<Rightarrow> ProfileResidentWireError + u32" where
  "usize_u32 v = (if v \<le> U32_MAX then Inr v else Inl CounterOverflow)"

definition push_u32 :: "u8 list \<Rightarrow> u32 \<Rightarrow> u8 list" where
  "push_u32 bytes v = bytes @ le_bytes 4 v"

definition homogeneous_geometry ::
  "ProfileResidentWireRequest list \<Rightarrow>
    ProfileResidentWireError + ProfileResidentWireGeometry option" where
  "homogeneous_geometry requests =
    (case requests of
      [] \<Rightarrow> Inr None
    | first # _ \<Rightarrow>
        let geometry = prwq_geometry first
        in if list_ex (\<lambda>request. prwq_geometry request \<noteq> geometry) requests then Inl MixedGeometry
           else Inr (Some geometry))"

definition geometry_values :: "ProfileResidentWireGeometry \<Rightarrow> u32 list" where
  "geometry_values geometry =
    [prwg_eof_word geometry, unat (prwg_input_instruction geometry), prwg_memory_words geometry,
     unat (prwg_output_instruction geometry), prwg_word_modulus geometry,
     unat (prwg_word_trits geometry)]"

definition encode_request ::
  "u8 list \<Rightarrow> ProfileResidentWireRequest \<Rightarrow> ProfileResidentWireError + u8 list" where
  "encode_request bytes request =
    (let expected = prwg_memory_words (prwq_geometry request)
     in and_then (usize_from_u32 expected) (\<lambda>expected_len.
      if length (prwq_memory request) \<noteq> expected_len
      then Inl (MemoryLengthMismatch expected (length (prwq_memory request)))
      else
    and_then (usize_u32 (length (prwq_input request))) (\<lambda>input_len.
    and_then (usize_u32 (prwq_input_consumed request)) (\<lambda>input_consumed.
    and_then (usize_u32 (length (prwq_output request))) (\<lambda>output_len.
    and_then (usize_u32 (prwq_step_budget request)) (\<lambda>step_budget.
      let bytes = foldl push_u32 bytes
            [prwq_accumulator request, prwq_code_pointer request, prwq_data_pointer request,
             input_len, input_consumed, output_len, step_budget,
             wire_termination_code (prwq_termination request)];
          bytes = foldl push_u32 bytes (prwq_memory request)
      in Inr (bytes @ prwq_input request @ prwq_output request)))))))"

fun encode_requests_loop ::
  "u8 list \<Rightarrow> ProfileResidentWireRequest list \<Rightarrow> ProfileResidentWireError + u8 list" where
  "encode_requests_loop bytes [] = Inr bytes"
| "encode_requests_loop bytes (request # requests) =
    and_then (encode_request bytes request) (\<lambda>bytes'. encode_requests_loop bytes' requests)"

fun memory_lengths_loop ::
  "u32 \<Rightarrow> usize \<Rightarrow> ProfileResidentWireRequest list \<Rightarrow> ProfileResidentWireError + unit" where
  "memory_lengths_loop memory_words memory_len [] = Inr ()"
| "memory_lengths_loop memory_words memory_len (request # requests) =
    (if length (prwq_memory request) \<noteq> memory_len
     then Inl (MemoryLengthMismatch memory_words (length (prwq_memory request)))
     else memory_lengths_loop memory_words memory_len requests)"

definition encode_profile_resident_batch ::
  "ProfileResidentWireRequest list \<Rightarrow> ProfileResidentWireError + u8 list" where
  "encode_profile_resident_batch requests =
    and_then (homogeneous_geometry requests) (\<lambda>geometry_option.
      case geometry_option of
        None \<Rightarrow> Inr []
      | Some geometry \<Rightarrow>
    and_then (usize_from_u32 (prwg_memory_words geometry)) (\<lambda>memory_len.
    and_then (usize_u32 (length requests)) (\<lambda>request_count.
    and_then (memory_lengths_loop (prwg_memory_words geometry) memory_len requests) (\<lambda>_.
    and_then (ok_or CounterOverflow
      (Option.bind (checked_mul USIZE_MAX (length requests) memory_len) (\<lambda>words.
       Option.bind (checked_mul USIZE_MAX words 4) (\<lambda>bytes. checked_add USIZE_MAX bytes 1024))))
      (\<lambda>capacity.
        let bytes = PROFILE_RESIDENT_WIRE_MAGIC;
            bytes = foldl push_u32 bytes (geometry_values geometry @ [request_count])
        in encode_requests_loop bytes requests)))))"

fun response_limit_loop ::
  "usize \<Rightarrow> usize \<Rightarrow> ProfileResidentWireRequest list \<Rightarrow> ProfileResidentWireError + usize" where
  "response_limit_loop memory_bytes limit [] = Inr limit"
| "response_limit_loop memory_bytes limit (request # requests) =
    and_then (ok_or CounterOverflow
      (checked_add USIZE_MAX (length (prwq_output request)) (prwq_step_budget request)))
      (\<lambda>output_capacity.
    and_then (usize_u32 output_capacity) (\<lambda>_.
    and_then (ok_or CounterOverflow (checked_mul USIZE_MAX RESULT_FIXED_U32_FIELDS 4)) (\<lambda>fixed.
    and_then (ok_or CounterOverflow
      (Option.bind (checked_add USIZE_MAX fixed memory_bytes)
        (\<lambda>v. checked_add USIZE_MAX v output_capacity))) (\<lambda>item.
    and_then (ok_or CounterOverflow (checked_add USIZE_MAX limit item)) (\<lambda>limit.
      response_limit_loop memory_bytes limit requests)))))"

definition profile_resident_response_byte_limit ::
  "ProfileResidentWireRequest list \<Rightarrow> ProfileResidentWireError + usize" where
  "profile_resident_response_byte_limit requests =
    and_then (usize_u32 (length requests)) (\<lambda>_.
    and_then (ok_or CounterOverflow (checked_mul USIZE_MAX 2 4)) (\<lambda>prefix_scalars.
    and_then (ok_or CounterOverflow
      (checked_add USIZE_MAX (length PROFILE_RESIDENT_WIRE_MAGIC) prefix_scalars)) (\<lambda>prefix_bytes.
    and_then (homogeneous_geometry requests) (\<lambda>geometry_option.
      case geometry_option of
        None \<Rightarrow> Inr prefix_bytes
      | Some geometry \<Rightarrow>
    and_then (usize_from_u32 (prwg_memory_words geometry)) (\<lambda>memory_words.
    and_then (ok_or CounterOverflow (checked_mul USIZE_MAX memory_words 4)) (\<lambda>memory_bytes.
      response_limit_loop memory_bytes prefix_bytes requests))))))"

subsection \<open>The reader of responses\<close>

definition wr_view :: "WireReader \<Rightarrow> u8 list" where
  "wr_view self = drop (wr_offset self) (wr_bytes self)"

definition wr_valid :: "WireReader \<Rightarrow> bool" where
  "wr_valid self \<longleftrightarrow> wr_offset self \<le> length (wr_bytes self) \<and> length (wr_bytes self) \<le> USIZE_MAX"

interpretation wire: byte_reader wr_valid wr_view wr_take ReadFailure
proof
  fix n r
  show "wr_valid r \<Longrightarrow> n \<le> length (wr_view r) \<Longrightarrow>
      \<exists>r'. wr_take r n = Inr (take n (wr_view r), r') \<and> wr_valid r' \<and> wr_view r' = drop n (wr_view r)"
    by (auto simp: wr_view_def wr_valid_def wr_take_def checked_add_def add.commute)
  show "wr_valid r \<Longrightarrow> length (wr_view r) < n \<Longrightarrow> wr_take r n = Inl ReadFailure"
    by (auto simp: wr_view_def wr_valid_def wr_take_def checked_add_def)
qed

lemma wr_new_valid: "length bytes \<le> USIZE_MAX \<Longrightarrow> wr_valid (wr_new bytes)" "wr_view (wr_new bytes) = bytes"
  by (simp_all add: wr_valid_def wr_view_def wr_new_def)

lemma wr_remaining_view: "wr_remaining r = length (wr_view r)"
  by (simp add: wr_remaining_def wr_view_def)

lemma wr_finish_iff: "wr_valid r \<Longrightarrow> wr_finish r = Inr u \<longleftrightarrow> wr_view r = []"
  by (auto simp: wr_finish_def wr_valid_def wr_view_def)

text \<open>The words of a response, and the layout of one.\<close>

definition words_bytes :: "u32 list \<Rightarrow> u8 list" where
  "words_bytes ws = concat (map (le_bytes 4) ws)"

definition are_u32 :: "nat list \<Rightarrow> bool" where
  "are_u32 ws \<longleftrightarrow> list_all (\<lambda>w. w \<le> U32_MAX) ws"

definition result_fields :: "ProfileResidentWireResult \<Rightarrow> u32 list" where
  "result_fields r =
    [prwr_status r, prwr_error r, prwr_accumulator r, prwr_code_pointer r, prwr_data_pointer r,
     prwr_input_consumed r, length (prwr_output r), prwr_termination r, prwr_error_pointer r,
     prwr_error_value r, prwr_steps r]"

definition result_bytes :: "ProfileResidentWireResult \<Rightarrow> u8 list" where
  "result_bytes r = words_bytes (result_fields r) @ words_bytes (prwr_memory r) @ prwr_output r"

definition result_ok :: "u32 \<Rightarrow> ProfileResidentWireResult \<Rightarrow> bool" where
  "result_ok n r \<longleftrightarrow> length (prwr_memory r) = n \<and> are_u32 (result_fields r) \<and> are_u32 (prwr_memory r)"

fun response_bytes :: "ProfileResidentWireResponse \<Rightarrow> u8 list" where
  "response_bytes Unavailable = PROFILE_RESIDENT_WIRE_MAGIC @ words_bytes [1, 0]"
| "response_bytes (Results rs) =
    PROFILE_RESIDENT_WIRE_MAGIC @ words_bytes [0, length rs] @ concat (map result_bytes rs)"

fun response_ok :: "u32 \<Rightarrow> ProfileResidentWireResponse \<Rightarrow> bool" where
  "response_ok n Unavailable \<longleftrightarrow> True"
| "response_ok n (Results rs) \<longleftrightarrow> length rs \<le> U32_MAX \<and> list_all (result_ok n) rs"

lemma words_bytes_simps [simp]:
  "words_bytes [] = []" "words_bytes (w # ws) = le_bytes 4 w @ words_bytes ws"
  "words_bytes (ws @ vs) = words_bytes ws @ words_bytes vs" "length (words_bytes ws) = 4 * length ws"
  by (induction ws) (simp_all add: words_bytes_def)

lemma are_u32_simps [simp]:
  "are_u32 []" "are_u32 (w # ws) \<longleftrightarrow> w \<le> U32_MAX \<and> are_u32 ws"
  "are_u32 (ws @ vs) \<longleftrightarrow> are_u32 ws \<and> are_u32 vs"
  by (auto simp: are_u32_def)

lemma U32_lt: "v \<le> U32_MAX \<longleftrightarrow> v < 256 ^ 4"
  by (simp add: U32_MAX_def less_Suc_eq_le[symmetric])

lemma wr_u32_Inr:
  assumes "wr_u32 r = Inr (v, r')" and "wr_valid r"
  shows "wr_view r = le_bytes 4 v @ wr_view r' \<and> v \<le> U32_MAX \<and> wr_valid r'"
  using assms wire.read_le_Inr[of r 4 _ r', OF _ assms(2)]
  by (auto simp: wr_u32_def and_then_Inr_iff U32_lt simp del: power_numeral)

lemma wr_u32_append:
  assumes "wr_view r = le_bytes 4 v @ rest" and "wr_valid r" and "v \<le> U32_MAX"
  shows "\<exists>r'. wr_u32 r = Inr (v, r') \<and> wr_valid r' \<and> wr_view r' = rest"
  using wire.read_le_append[OF assms(2,1)] assms(3) by (auto simp: wr_u32_def U32_lt)

lemma wr_words_loop_Inr:
  "wr_words_loop r n ws = Inr (vs, r') \<Longrightarrow> wr_valid r \<Longrightarrow>
    \<exists>new. vs = ws @ new \<and> length new = n \<and> are_u32 new \<and> wr_view r = words_bytes new @ wr_view r' \<and>
      wr_valid r'"
proof (induction n arbitrary: r ws)
  case 0
  then show ?case by simp
next
  case (Suc n)
  then obtain v q where v: "wr_u32 r = Inr (v, q)" "wr_words_loop q n (ws @ [v]) = Inr (vs, r')"
    by (auto simp: and_then_Inr_iff)
  note q = wr_u32_Inr[OF v(1) Suc.prems(2)]
  then obtain new where "vs = (ws @ [v]) @ new" "length new = n" "are_u32 new"
    "wr_view q = words_bytes new @ wr_view r'" "wr_valid r'"
    using Suc.IH[OF v(2)] by blast
  then show ?case using q by (intro exI[of _ "v # new"]) simp
qed

lemma wr_words_loop_append:
  "wr_view r = words_bytes new @ rest \<Longrightarrow> wr_valid r \<Longrightarrow> are_u32 new \<Longrightarrow>
    \<exists>r'. wr_words_loop r (length new) ws = Inr (ws @ new, r') \<and> wr_valid r' \<and> wr_view r' = rest"
proof (induction new arbitrary: r ws)
  case Nil
  then show ?case by simp
next
  case (Cons v new)
  then obtain q where "wr_u32 r = Inr (v, q)" "wr_valid q" "wr_view q = words_bytes new @ rest"
    using wr_u32_append[of r v "words_bytes new @ rest"] by auto
  then show ?case using Cons.IH[of q "ws @ [v]"] Cons.prems by simp
qed

lemma wr_view_length: "wr_valid r \<Longrightarrow> length (wr_view r) \<le> USIZE_MAX"
  by (auto simp: wr_valid_def wr_view_def)

lemma wr_words_Inr:
  "wr_words r n = Inr (vs, r') \<Longrightarrow> wr_valid r \<Longrightarrow>
    length vs = n \<and> are_u32 vs \<and> wr_view r = words_bytes vs @ wr_view r' \<and> wr_valid r'"
  using wr_words_loop_Inr[of r n "[]" vs r'] by (auto simp: wr_words_def and_then_Inr_iff split: if_splits)

lemma wr_words_append:
  assumes "wr_view r = words_bytes vs @ rest" and "wr_valid r" and "are_u32 vs"
  shows "\<exists>r'. wr_words r (length vs) = Inr (vs, r') \<and> wr_valid r' \<and> wr_view r' = rest"
  using wr_words_loop_append[OF assms, of "[]"] wr_view_length[OF assms(2)] assms(1)
  by (auto simp: wr_words_def checked_mul_def wr_remaining_view mult.commute)

lemma usize_from_u32_ok [simp]: "v \<le> U32_MAX \<Longrightarrow> usize_from_u32 v = Inr v"
  by (simp add: usize_from_u32_def USIZE_MAX_def U32_MAX_def)

lemma usize_from_u32_Inr: "usize_from_u32 v = Inr n \<Longrightarrow> n = v"
  by (auto simp: usize_from_u32_def split: if_splits)

subsection \<open>One result, and a response\<close>

lemma decode_result_Inr:
  "decode_result r n = Inr (v, r') \<Longrightarrow> wr_valid r \<Longrightarrow>
    result_ok n v \<and> wr_view r = result_bytes v @ wr_view r' \<and> wr_valid r'"
  by (auto simp: decode_result_def and_then_Inr_iff result_ok_def result_bytes_def result_fields_def
      dest!: wr_u32_Inr usize_from_u32_Inr wr_words_Inr wire.read_Inr)


definition wr_next :: "WireReader \<Rightarrow> WireReader" where
  "wr_next r = snd (projr (wr_u32 r))"

lemma wr_u32_next:
  "wr_view r = le_bytes 4 w @ rest \<Longrightarrow> wr_valid r \<Longrightarrow> w \<le> U32_MAX \<Longrightarrow> wr_u32 r = Inr (w, wr_next r)"
  "wr_view r = le_bytes 4 w @ rest \<Longrightarrow> wr_valid r \<Longrightarrow> w \<le> U32_MAX \<Longrightarrow> wr_valid (wr_next r)"
  "wr_view r = le_bytes 4 w @ rest \<Longrightarrow> wr_valid r \<Longrightarrow> w \<le> U32_MAX \<Longrightarrow> wr_view (wr_next r) = rest"
  using wr_u32_append[of r w rest] by (auto simp: wr_next_def)

lemma decode_result_append:
  assumes "wr_view r = result_bytes v @ rest" and "wr_valid r" and "result_ok n v"
  shows "\<exists>r'. decode_result r n = Inr (v, r') \<and> wr_valid r' \<and> wr_view r' = rest"
proof -
  define tail where "tail = words_bytes (prwr_memory v) @ prwr_output v @ rest"
  have ok: "are_u32 (result_fields v)" "are_u32 (prwr_memory v)" "length (prwr_memory v) = n"
    using assms(3) by (simp_all add: result_ok_def)
  have view: "wr_view r = words_bytes (result_fields v) @ tail"
    using assms(1) by (simp add: result_bytes_def tail_def)
  define q where "q = wr_next (wr_next (wr_next (wr_next (wr_next (wr_next (wr_next (wr_next
      (wr_next (wr_next (wr_next r))))))))))"
  have q: "wr_valid q" "wr_view q = tail"
    using view assms(2) ok(1) by (simp_all add: q_def result_fields_def wr_u32_next)
  have fields: "decode_result r n =
      and_then (wr_words q n) (\<lambda>(memory, reader).
      and_then (wr_take reader (length (prwr_output v))) (\<lambda>(output, reader).
        Inr (v\<lparr>prwr_memory := memory, prwr_output := output\<rparr>, reader)))"
    using view assms(2) ok(1)
    by (cases v) (simp add: decode_result_def result_fields_def wr_u32_next q_def)
  obtain p where p: "wr_words q n = Inr (prwr_memory v, p)" "wr_valid p"
      "wr_view p = prwr_output v @ rest"
    using wr_words_append[of q "prwr_memory v" "prwr_output v @ rest"] q ok by (auto simp: tail_def)
  then show ?thesis using wire.read_append[of p "prwr_output v" rest] fields by auto
qed

lemma decode_results_loop_Inr:
  "decode_results_loop r n k rs = Inr (vs, r') \<Longrightarrow> wr_valid r \<Longrightarrow>
    \<exists>new. vs = rs @ new \<and> length new = k \<and> list_all (result_ok n) new \<and>
      wr_view r = concat (map result_bytes new) @ wr_view r' \<and> wr_valid r'"
proof (induction k arbitrary: r rs)
  case 0
  then show ?case by simp
next
  case (Suc k)
  then obtain v q where v: "decode_result r n = Inr (v, q)" "decode_results_loop q n k (rs @ [v]) = Inr (vs, r')"
    by (auto simp: and_then_Inr_iff)
  note q = decode_result_Inr[OF v(1) Suc.prems(2)]
  then obtain new where "vs = (rs @ [v]) @ new" "length new = k" "list_all (result_ok n) new"
    "wr_view q = concat (map result_bytes new) @ wr_view r'" "wr_valid r'"
    using Suc.IH[OF v(2)] by blast
  then show ?case using q by (intro exI[of _ "v # new"]) simp
qed

lemma decode_results_loop_append:
  "wr_view r = concat (map result_bytes new) @ rest \<Longrightarrow> wr_valid r \<Longrightarrow> list_all (result_ok n) new \<Longrightarrow>
    \<exists>r'. decode_results_loop r n (length new) rs = Inr (rs @ new, r') \<and> wr_valid r' \<and> wr_view r' = rest"
proof (induction new arbitrary: r rs)
  case Nil
  then show ?case by simp
next
  case (Cons v new)
  then obtain q where "decode_result r n = Inr (v, q)" "wr_valid q"
      "wr_view q = concat (map result_bytes new) @ rest"
    using decode_result_append[of r v "concat (map result_bytes new) @ rest" n] by auto
  then show ?case using Cons.IH[of q "rs @ [v]"] Cons.prems by simp
qed

lemma length_result_bytes: "result_ok n v \<Longrightarrow> length (result_bytes v) = 44 + 4 * n + length (prwr_output v)"
  by (simp add: result_ok_def result_bytes_def result_fields_def)

lemma length_results: "list_all (result_ok n) rs \<Longrightarrow>
    length (concat (map result_bytes rs)) = (\<Sum>v\<leftarrow>rs. 44 + 4 * n + length (prwr_output v))"
  by (induction rs) (simp_all add: length_result_bytes)

lemma response_fits_results:
  assumes "wr_view r = concat (map result_bytes rs)" and "wr_valid r" and "list_all (result_ok n) rs"
  shows "response_fits (length rs) n r = Inr ()"
proof (cases rs)
  case Nil
  then show ?thesis by (simp add: response_fits_def)
next
  case (Cons v vs)
  have "length rs * (44 + 4 * n) \<le> length (concat (map result_bytes rs))"
    unfolding length_results[OF assms(3)] by (induction rs) (auto simp: algebra_simps)
  then have fits: "length rs * (44 + 4 * n) \<le> length (wr_view r)" using assms(1) by simp
  moreover have "44 + 4 * n \<le> length rs * (44 + 4 * n)" using Cons by simp
  moreover note wr_view_length[OF assms(2)]
  ultimately show ?thesis
    using Cons by (simp add: response_fits_def checked_add_def checked_mul_def wr_remaining_view
        RESULT_FIXED_U32_FIELDS_def algebra_simps)
qed

lemma wire_magic_length [simp]: "length PROFILE_RESIDENT_WIRE_MAGIC = 8"
  by (simp add: PROFILE_RESIDENT_WIRE_MAGIC_def)

lemma decode_response_Inr:
  assumes "decode_profile_resident_response bytes n = Inr r" and "length bytes \<le> USIZE_MAX"
  shows "response_ok n r \<and> bytes = response_bytes r"
proof -
  note valid = wr_new_valid[of bytes]
  obtain reader kind count q q' where
    magic: "wr_take (wr_new bytes) 8 = Inr (PROFILE_RESIDENT_WIRE_MAGIC, reader)"
    and kind: "wr_u32 reader = Inr (kind, q)" and count: "wr_u32 q = Inr (count, q')"
    and rest: "kind = 1 \<and> count = 0 \<and> wr_finish q' = Inr () \<and> r = Unavailable \<or>
       kind = 0 \<and> (\<exists>rs q''. decode_results_loop q' n count [] = Inr (rs, q'') \<and>
         wr_finish q'' = Inr () \<and> r = Results rs)"
    using assms(1)
    by (fastforce simp: decode_profile_resident_response_def and_then_Inr_iff RESPONSE_RESULTS_def
        RESPONSE_UNAVAILABLE_def split: if_splits dest!: usize_from_u32_Inr)
  note 1 = wire.read_Inr[OF magic valid(1)[OF assms(2)]]
  then have 2: "wr_view reader = le_bytes 4 kind @ wr_view q" "wr_valid q"
    using wr_u32_Inr[OF kind] by auto
  then show ?thesis
    using 1 rest wr_new_valid(2)[of bytes] wr_u32_Inr[OF count]
    by (auto simp: wr_finish_iff dest!: decode_results_loop_Inr)
qed

lemma decode_response_bytes:
  assumes "response_ok n r" and "length (response_bytes r) \<le> USIZE_MAX" and "n \<le> U32_MAX"
  shows "decode_profile_resident_response (response_bytes r) n = Inr r"
proof -
  define body where "body = drop 8 (response_bytes r)"
  define kind :: nat where "kind = (case r of Results _ \<Rightarrow> 0 | Unavailable \<Rightarrow> 1)"
  define count where "count = (case r of Results rs \<Rightarrow> length rs | Unavailable \<Rightarrow> 0)"
  define items where "items = (case r of Results rs \<Rightarrow> concat (map result_bytes rs) | Unavailable \<Rightarrow> [])"
  have layout: "response_bytes r = PROFILE_RESIDENT_WIRE_MAGIC @ le_bytes 4 kind @ le_bytes 4 count @ items"
    by (cases r) (simp_all add: kind_def count_def items_def)
  have bounds: "kind \<le> U32_MAX" "count \<le> U32_MAX"
    using assms(1) by (cases r; simp add: kind_def count_def U32_MAX_def)+
  obtain r1 where 1: "wr_take (wr_new (response_bytes r)) 8 = Inr (PROFILE_RESIDENT_WIRE_MAGIC, r1)"
      "wr_valid r1" "wr_view r1 = le_bytes 4 kind @ le_bytes 4 count @ items"
    using wire.read_append[OF wr_new_valid(1)[OF assms(2)]] layout wr_new_valid(2)
    by (metis wire_magic_length)
  then obtain r2 where 2: "wr_u32 r1 = Inr (kind, r2)" "wr_valid r2" "wr_view r2 = le_bytes 4 count @ items"
    using wr_u32_append bounds by meson
  then obtain r3 where 3: "wr_u32 r2 = Inr (count, r3)" "wr_valid r3" "wr_view r3 = items"
    using wr_u32_append bounds by meson
  show ?thesis
  proof (cases r)
    case Unavailable
    then have "wr_finish r3 = Inr ()" using 3 by (simp add: wr_finish_iff items_def)
    then show ?thesis
      using 1 2 3 bounds Unavailable
      by (simp add: decode_profile_resident_response_def kind_def count_def RESPONSE_UNAVAILABLE_def)
  next
    case (Results rs)
    then have ok: "list_all (result_ok n) rs" "items = concat (map result_bytes rs)"
      using assms(1) by (simp_all add: items_def)
    obtain r4 where 4: "decode_results_loop r3 n (length rs) [] = Inr (rs, r4)" "wr_valid r4" "wr_view r4 = []"
      using decode_results_loop_append[of r3 rs "[]" n "[]"] 3 ok by auto
    then have "wr_finish r4 = Inr ()" by (simp add: wr_finish_iff)
    moreover have "response_fits (length rs) n r3 = Inr ()"
      using response_fits_results 3 ok by simp
    ultimately show ?thesis
      using 1 2 3 4 bounds Results assms(3)
      by (simp add: decode_profile_resident_response_def kind_def count_def RESPONSE_UNAVAILABLE_def
          RESPONSE_RESULTS_def)
  qed
qed

subsection \<open>The limit of a response\<close>

lemma homogeneous_geometry_Inr:
  "homogeneous_geometry qs = Inr geometry \<longleftrightarrow>
    (case geometry of None \<Rightarrow> qs = [] | Some g \<Rightarrow> qs \<noteq> [] \<and> (\<forall>q \<in> set qs. prwq_geometry q = g))"
  by (auto simp: homogeneous_geometry_def list_ex_iff Let_def split: list.splits option.splits)

lemma usize_u32_Inr [simp]: "usize_u32 v = Inr w \<longleftrightarrow> v \<le> U32_MAX \<and> w = v"
  by (auto simp: usize_u32_def)

declare checked_Some [simp]

definition request_limit :: "u32 \<Rightarrow> ProfileResidentWireRequest \<Rightarrow> nat" where
  "request_limit n q = 44 + 4 * n + (length (prwq_output q) + prwq_step_budget q)"

lemma response_limit_loop_Inr:
  "response_limit_loop (4 * n) limit qs = Inr l \<Longrightarrow>
    l = limit + sum_list (map (request_limit n) qs) \<and>
    (\<forall>q \<in> set qs. length (prwq_output q) + prwq_step_budget q \<le> U32_MAX)"
  by (induction qs arbitrary: limit)
    (fastforce simp: and_then_Inr_iff RESULT_FIXED_U32_FIELDS_def request_limit_def bind_eq_Some_conv)+

lemma byte_limit_Inr:
  assumes "profile_resident_response_byte_limit qs = Inr l"
    and "\<forall>q \<in> set qs. prwg_memory_words (prwq_geometry q) = n"
  shows "l = 16 + sum_list (map (request_limit n) qs) \<and> length qs \<le> U32_MAX \<and>
    (\<forall>q \<in> set qs. length (prwq_output q) + prwq_step_budget q \<le> U32_MAX)"
proof -
  have limit: "response_limit_loop (n * 4) 16 qs = Inr l \<and> length qs \<le> U32_MAX"
    using assms by (cases qs)
      (auto simp: profile_resident_response_byte_limit_def and_then_Inr_iff homogeneous_geometry_Inr
        split: option.splits dest!: usize_from_u32_Inr)
  then show ?thesis using response_limit_loop_Inr[of n 16 qs l] by (simp add: mult.commute)
qed

text \<open>What a backend may answer to a request: at most one new byte of output for each step.\<close>

definition answers :: "ProfileResidentWireResult \<Rightarrow> ProfileResidentWireRequest \<Rightarrow> bool" where
  "answers v q \<longleftrightarrow> length (prwr_output v) \<le> length (prwq_output q) + prwq_step_budget q"

lemma answers_size:
  "list_all2 answers rs qs \<Longrightarrow>
    (\<Sum>v\<leftarrow>rs. 44 + 4 * n + length (prwr_output v)) \<le> sum_list (map (request_limit n) qs)"
  by (induction rule: list_all2_induct) (auto simp: answers_def request_limit_def)

text \<open>The longest answer.\<close>

definition longest_answer :: "u32 \<Rightarrow> ProfileResidentWireRequest \<Rightarrow> ProfileResidentWireResult" where
  "longest_answer n q = \<lparr>prwr_accumulator = 0, prwr_code_pointer = 0, prwr_data_pointer = 0,
    prwr_error = 0, prwr_error_pointer = 0, prwr_error_value = 0, prwr_input_consumed = 0,
    prwr_memory = replicate n 0,
    prwr_output = replicate (length (prwq_output q) + prwq_step_budget q) 0,
    prwr_status = 0, prwr_steps = 0, prwr_termination = 0\<rparr>"

lemma are_u32_replicate [simp]: "are_u32 (replicate n 0)"
  by (auto simp: are_u32_def list_all_iff)

lemma longest_answer_ok:
  "length (prwq_output q) + prwq_step_budget q \<le> U32_MAX \<Longrightarrow> result_ok n (longest_answer n q)"
  by (simp add: result_ok_def longest_answer_def result_fields_def)

lemma length_longest_answer:
  "length (prwr_output (longest_answer n q)) = length (prwq_output q) + prwq_step_budget q"
  by (simp add: longest_answer_def)

subsection \<open>Properties\<close>

definition demo_result :: ProfileResidentWireResult where
  "demo_result = \<lparr>prwr_accumulator = 7, prwr_code_pointer = 300, prwr_data_pointer = 2,
    prwr_error = 0, prwr_error_pointer = 0, prwr_error_value = 0, prwr_input_consumed = 1,
    prwr_memory = [70000], prwr_output = [65, 66], prwr_status = 0, prwr_steps = 3,
    prwr_termination = 1\<rparr>"

text \<open>
  C14: the decoder of backend responses accepts exactly the well-formed responses: a byte string
  decodes to a response precisely when it is the layout of that response, with one complete
  memory for each result, nothing missing and nothing left over.
\<close>
theorem response_decoding_is_exact:
  assumes "length bytes \<le> USIZE_MAX" and "memory_words \<le> U32_MAX"
  shows "decode_profile_resident_response bytes memory_words = Inr response \<longleftrightarrow>
    response_ok memory_words response \<and> bytes = response_bytes response"
  using decode_response_Inr[OF _ assms(1)] decode_response_bytes[OF _ _ assms(2)] assms(1) by blast

lemma response_decoding_is_exact_witness:
  "decode_profile_resident_response (response_bytes (Results [demo_result])) 1 = Inr (Results [demo_result])"
proof -
  have size: "length (response_bytes (Results [demo_result])) \<le> USIZE_MAX"
    by (simp add: demo_result_def result_bytes_def result_fields_def USIZE_MAX_def)
  have "response_ok 1 (Results [demo_result])"
    by (simp add: demo_result_def result_ok_def result_fields_def U32_MAX_def)
  then show ?thesis
    using response_decoding_is_exact[OF size, of 1 "Results [demo_result]"] by (simp add: U32_MAX_def)
qed

text \<open>
  The byte limit of a batch is a bound and the least one: every response that answers the
  requests one by one, with complete memories and at most one new output byte for each step,
  stays within the limit, as does the refusal, and some such response has exactly that length.
\<close>
lemma response_byte_limit_is_least:
  assumes "profile_resident_response_byte_limit requests = Inr limit"
    and "\<forall>request \<in> set requests. prwg_memory_words (prwq_geometry request) = n"
  shows "(\<forall>results. list_all2 answers results requests \<and> response_ok n (Results results) \<longrightarrow>
        length (response_bytes (Results results)) \<le> limit) \<and>
     length (response_bytes Unavailable) \<le> limit \<and>
     (\<exists>results. list_all2 answers results requests \<and> response_ok n (Results results) \<and>
        length (response_bytes (Results results)) = limit)"
proof (intro conjI allI impI)
  note limit = byte_limit_Inr[OF assms]
  show "length (response_bytes (Results results)) \<le> limit"
    if "list_all2 answers results requests \<and> response_ok n (Results results)" for results
    using limit answers_size[of results requests n] that by (simp add: length_results[of n])
  show "length (response_bytes Unavailable) \<le> limit" using limit by simp
  let ?rs = "map (longest_answer n) requests"
  have ok: "list_all (result_ok n) ?rs" using limit longest_answer_ok by (auto simp: list_all_iff)
  moreover have "list_all2 answers ?rs requests"
    by (auto simp: list_all2_map1 answers_def length_longest_answer intro: list.rel_refl)
  moreover have "length (response_bytes (Results ?rs)) = limit"
    using limit length_results[OF ok]
    by (simp add: comp_def length_longest_answer request_limit_def[abs_def] add.assoc)
  ultimately show "\<exists>results. list_all2 answers results requests \<and> response_ok n (Results results) \<and>
      length (response_bytes (Results results)) = limit"
    using limit by (intro exI[of _ ?rs]) simp
qed

definition demo_request :: ProfileResidentWireRequest where
  "demo_request = \<lparr>prwq_accumulator = 1, prwq_code_pointer = 2, prwq_data_pointer = 0,
    prwq_geometry = \<lparr>prwg_eof_word = 8, prwg_input_instruction = 23, prwg_memory_words = 1,
      prwg_output_instruction = 5, prwg_word_modulus = 9, prwg_word_trits = 2\<rparr>,
    prwq_input = [104], prwq_input_consumed = 1, prwq_memory = [70000], prwq_output = [65],
    prwq_step_budget = 1, prwq_termination = WireNone\<rparr>"

lemma response_byte_limit_is_least_witness:
  "length (response_bytes (Results [demo_result])) \<le> 66 \<and>
   profile_resident_response_byte_limit [demo_request] = Inr 66"
proof -
  have limit: "profile_resident_response_byte_limit [demo_request] = Inr 66"
    by (simp add: profile_resident_response_byte_limit_def homogeneous_geometry_def demo_request_def
        usize_u32_def checked_add_def checked_mul_def RESULT_FIXED_U32_FIELDS_def USIZE_MAX_def U32_MAX_def)
  have "\<forall>request \<in> set [demo_request]. prwg_memory_words (prwq_geometry request) = 1"
    by (simp add: demo_request_def)
  note bound = response_byte_limit_is_least[OF limit this]
  have "list_all2 answers [demo_result] [demo_request] \<and> response_ok 1 (Results [demo_result])"
    by (simp add: answers_def demo_request_def demo_result_def result_ok_def result_fields_def U32_MAX_def)
  then show ?thesis using bound limit by blast
qed

subsection \<open>Requests\<close>

definition request_fields :: "ProfileResidentWireRequest \<Rightarrow> u32 list" where
  "request_fields q =
    [prwq_accumulator q, prwq_code_pointer q, prwq_data_pointer q, length (prwq_input q),
     prwq_input_consumed q, length (prwq_output q), prwq_step_budget q,
     wire_termination_code (prwq_termination q)]"

definition request_bytes :: "ProfileResidentWireRequest \<Rightarrow> u8 list" where
  "request_bytes q =
    words_bytes (request_fields q) @ words_bytes (prwq_memory q) @ prwq_input q @ prwq_output q"

text \<open>The range of the \<open>u32\<close> fields, and what the encoder itself demands of a request.\<close>

definition wf_request :: "ProfileResidentWireRequest \<Rightarrow> bool" where
  "wf_request q \<longleftrightarrow> are_u32 [prwq_accumulator q, prwq_code_pointer q, prwq_data_pointer q] \<and>
    are_u32 (prwq_memory q) \<and> are_u32 (geometry_values (prwq_geometry q))"

definition encodable :: "ProfileResidentWireRequest \<Rightarrow> bool" where
  "encodable q \<longleftrightarrow> length (prwq_memory q) = prwg_memory_words (prwq_geometry q) \<and>
    are_u32 [length (prwq_input q), prwq_input_consumed q, length (prwq_output q), prwq_step_budget q]"

lemma foldl_push_u32: "foldl push_u32 bytes ws = bytes @ words_bytes ws"
  by (induction ws arbitrary: bytes) (simp_all add: push_u32_def)

lemma encode_request_Inr:
  "encode_request bytes q = Inr out \<Longrightarrow> out = bytes @ request_bytes q \<and> encodable q"
  by (auto simp: encode_request_def and_then_Inr_iff Let_def foldl_push_u32 push_u32_def request_bytes_def
      request_fields_def encodable_def split: if_splits dest!: usize_from_u32_Inr)

lemma encode_requests_loop_Inr:
  "encode_requests_loop bytes qs = Inr out \<Longrightarrow>
    out = bytes @ concat (map request_bytes qs) \<and> (\<forall>q \<in> set qs. encodable q)"
  by (induction qs arbitrary: bytes) (fastforce simp: and_then_Inr_iff dest!: encode_request_Inr)+

lemma encode_batch_Inr:
  assumes "encode_profile_resident_batch qs = Inr out" and "qs \<noteq> []"
  shows "out = PROFILE_RESIDENT_WIRE_MAGIC @
      words_bytes (geometry_values (prwq_geometry (hd qs)) @ [length qs]) @ concat (map request_bytes qs) \<and>
    (\<forall>q \<in> set qs. encodable q \<and> prwq_geometry q = prwq_geometry (hd qs)) \<and> length qs \<le> U32_MAX"
proof -
  obtain g where g: "homogeneous_geometry qs = Inr (Some g)" and "length qs \<le> U32_MAX"
    and loop: "encode_requests_loop (foldl push_u32 PROFILE_RESIDENT_WIRE_MAGIC
      (geometry_values g @ [length qs])) qs = Inr out"
    using assms
    by (auto simp: encode_profile_resident_batch_def and_then_Inr_iff homogeneous_geometry_Inr Let_def
        split: option.splits)
  moreover have same: "\<forall>q \<in> set qs. prwq_geometry q = g" using g by (simp add: homogeneous_geometry_Inr)
  moreover have "prwq_geometry (hd qs) = g" using same assms(2) by simp
  moreover note encode_requests_loop_Inr[OF loop]
  ultimately show ?thesis by (simp only: foldl_push_u32 append_assoc) simp
qed

lemma le_bytes_inject: "v \<le> U32_MAX \<Longrightarrow> w \<le> U32_MAX \<Longrightarrow> le_bytes 4 v = le_bytes 4 w \<longleftrightarrow> v = w"
  using from_le_le[of 4 v] from_le_le[of 4 w] by (metis U32_lt mod_less)

lemma words_bytes_inject:
  "length vs = length ws \<Longrightarrow> are_u32 vs \<Longrightarrow> are_u32 ws \<Longrightarrow>
    words_bytes vs @ a = words_bytes ws @ b \<longleftrightarrow> vs = ws \<and> a = b"
proof (induction vs ws rule: list_induct2)
  case (Cons v vs w ws)
  then show ?case
    using append_eq_append_conv[of "le_bytes 4 v" "le_bytes 4 w"]
    by (auto simp del: le_bytes.simps simp: le_bytes_inject)
qed simp

lemma wire_termination_code_inject [simp]: "wire_termination_code s = wire_termination_code t \<longleftrightarrow> s = t"
  by (cases s; cases t) auto

lemma wire_termination_code_le [simp]: "wire_termination_code t \<le> U32_MAX"
  by (cases t) (simp_all add: U32_MAX_def)

lemma request_bytes_inject:
  assumes "wf_request p" "wf_request q" "encodable p" "encodable q"
    and "prwq_geometry p = prwq_geometry q"
    and "request_bytes p @ a = request_bytes q @ b"
  shows "p = q \<and> a = b"
proof -
  have fields: "are_u32 (request_fields r)" if "wf_request r" "encodable r" for r
    using that by (simp add: wf_request_def encodable_def request_fields_def)
  have "request_fields p = request_fields q \<and>
      words_bytes (prwq_memory p) @ prwq_input p @ prwq_output p @ a =
      words_bytes (prwq_memory q) @ prwq_input q @ prwq_output q @ b"
    using words_bytes_inject[OF _ fields fields, of p q] assms
    by (simp add: request_bytes_def) (simp add: request_fields_def)
  moreover from this have "prwq_memory p = prwq_memory q \<and>
      prwq_input p @ prwq_output p @ a = prwq_input q @ prwq_output q @ b"
    using words_bytes_inject[of "prwq_memory p" "prwq_memory q"] assms
    by (simp add: wf_request_def encodable_def)
  ultimately show ?thesis using assms(5) by (simp add: request_fields_def ProfileResidentWireRequest.equality)
qed

lemma request_list_inject:
  assumes "concat (map request_bytes ps) = concat (map request_bytes qs)" and "length ps = length qs"
    and "\<forall>q \<in> set (ps @ qs). wf_request q \<and> encodable q \<and> prwq_geometry q = g"
  shows "ps = qs"
  using assms(2,1,3)
proof (induction ps qs rule: list_induct2)
  case (Cons p ps q qs)
  then have "p = q \<and> concat (map request_bytes ps) = concat (map request_bytes qs)"
    by (intro request_bytes_inject) simp_all
  then show ?case using Cons.IH Cons.prems(2) by simp
qed simp

lemma geometry_values_inject [simp]: "geometry_values g = geometry_values h \<longleftrightarrow> g = h"
  by (cases g; cases h) (auto simp: geometry_values_def simp flip: word_unat_eq_iff)

text \<open>
  Request framing is unambiguous: two batches of requests with the same encoding are the
  same batch, so nothing a backend needs is lost in the bytes.
\<close>
lemma request_encoding_is_injective:
  assumes "encode_profile_resident_batch requests = Inr bytes"
    and "encode_profile_resident_batch others = Inr bytes"
    and "list_all wf_request requests" and "list_all wf_request others"
  shows "requests = others"
proof (cases "requests = [] \<or> others = []")
  case True
  have "bytes \<noteq> []" if "encode_profile_resident_batch qs = Inr bytes" "qs \<noteq> []" for qs
    using encode_batch_Inr[OF that] wire_magic_length by (metis append_is_Nil_conv list.size(3) zero_neq_numeral)
  moreover have "encode_profile_resident_batch [] = Inr []"
    by (simp add: encode_profile_resident_batch_def homogeneous_geometry_def)
  ultimately show ?thesis using True assms(1,2) by (metis sum.inject(2))
next
  case False
  let ?g = "prwq_geometry (hd requests)" and ?h = "prwq_geometry (hd others)"
  have r: "bytes = PROFILE_RESIDENT_WIRE_MAGIC @ words_bytes (geometry_values ?g @ [length requests]) @
        concat (map request_bytes requests)"
      "\<forall>q \<in> set requests. encodable q \<and> prwq_geometry q = ?g" "length requests \<le> U32_MAX"
    and o: "bytes = PROFILE_RESIDENT_WIRE_MAGIC @ words_bytes (geometry_values ?h @ [length others]) @
        concat (map request_bytes others)"
      "\<forall>q \<in> set others. encodable q \<and> prwq_geometry q = ?h" "length others \<le> U32_MAX"
    using encode_batch_Inr[OF assms(1)] encode_batch_Inr[OF assms(2)] False by blast+
  have "are_u32 (geometry_values ?g)" "are_u32 (geometry_values ?h)"
    using False assms(3,4) by (auto simp: list_all_iff wf_request_def)
  then have u32: "are_u32 (geometry_values ?g @ [length requests])"
      "are_u32 (geometry_values ?h @ [length others])"
    using r(3) o(3) by simp_all
  have "length (geometry_values ?g @ [length requests]) = length (geometry_values ?h @ [length others])"
    by (simp add: geometry_values_def)
  from words_bytes_inject[OF this u32]
  have "geometry_values ?g @ [length requests] = geometry_values ?h @ [length others] \<and>
      concat (map request_bytes requests) = concat (map request_bytes others)"
    using r(1) o(1) by (metis same_append_eq)
  then have same: "length requests = length others" "?g = ?h"
      "concat (map request_bytes requests) = concat (map request_bytes others)" by simp_all
  have "\<forall>q \<in> set (requests @ others). wf_request q \<and> encodable q \<and> prwq_geometry q = ?g"
    using r(2) o(2) assms(3,4) same(2) unfolding list_all_iff set_append ball_Un by metis
  then show ?thesis using request_list_inject same by blast
qed

lemma request_encoding_is_injective_witness:
  "\<exists>bytes. encode_profile_resident_batch [demo_request] = Inr bytes \<and>
    encode_profile_resident_batch [demo_request\<lparr>prwq_input_consumed := 0\<rparr>] \<noteq> Inr bytes"
proof -
  have "\<exists>bytes. encode_profile_resident_batch [demo_request] = Inr bytes"
    by (simp add: encode_profile_resident_batch_def homogeneous_geometry_def demo_request_def
        encode_request_def Let_def usize_u32_def checked_add_def checked_mul_def USIZE_MAX_def U32_MAX_def)
  moreover have "[demo_request] \<noteq> [demo_request\<lparr>prwq_input_consumed := 0\<rparr>]"
    by (simp add: demo_request_def)
  moreover have "list_all wf_request [demo_request]"
    "list_all wf_request [demo_request\<lparr>prwq_input_consumed := 0\<rparr>]"
    by (simp_all add: wf_request_def demo_request_def geometry_values_def U32_MAX_def)
  ultimately show ?thesis
    using request_encoding_is_injective[of "[demo_request]" _ "[demo_request\<lparr>prwq_input_consumed := 0\<rparr>]"]
    by blast
qed

end
