(* ===== verification/Lockstep.thy ===== *)
theory Lockstep
  imports ProfileLoading ProfileRefinement
begin

text \<open>
  When a narrower machine computes what a wider one does. Two abstract machines of \<open>n\<close> and
  \<open>N\<close> trits \<open>agree\<close> when their pointers, streams are equal and the narrow memory and accumulator
  are the low trits of the wide ones; \<open>lockstep\<close> is the certificate that both halt after the
  same steps, agreeing all along. A certificate makes every bounded run of the two profile
  machines report the same.
\<close>

subsection \<open>Agreement\<close>

definition agrees :: "nat \<Rightarrow> amachine \<Rightarrow> amachine \<Rightarrow> bool" where
  "agrees n s s' \<longleftrightarrow> am_c s = am_c s' \<and> am_d s = am_d s' \<and> am_c s < 3 ^ n \<and> am_d s < 3 ^ n \<and>
    am_in s = am_in s' \<and> am_out s = am_out s' \<and> am_a s = am_a s' mod 3 ^ n \<and>
    (\<forall>i < 3 ^ n. am_mem s i = am_mem s' i mod 3 ^ n)"

inductive lockstep :: "nat \<Rightarrow> nat \<Rightarrow> u8 \<Rightarrow> u8 \<Rightarrow> amachine \<Rightarrow> amachine \<Rightarrow> bool"
  for n N inop outop where
  lockstep_halt: "agrees n s s' \<Longrightarrow> am_halts inop outop s \<Longrightarrow> am_halts inop outop s' \<Longrightarrow>
    lockstep n N inop outop s s'"
| lockstep_step: "agrees n s s' \<Longrightarrow> amstep n inop outop s t \<Longrightarrow> amstep N inop outop s' t' \<Longrightarrow>
    lockstep n N inop outop t t' \<Longrightarrow> lockstep n N inop outop s s'"

lemma lockstep_agrees: "lockstep n N i q s s' \<Longrightarrow> agrees n s s'"
  by (induction rule: lockstep.induct)

text \<open>What each operation needs of agreeing machines in order to leave them agreeing.\<close>

fun keeps :: "nat \<Rightarrow> nat \<Rightarrow> operation \<Rightarrow> amachine \<Rightarrow> amachine \<Rightarrow> bool" where
  "keeps n N OpRotate s s' \<longleftrightarrow>
    rotate_digits n (am_mem s (am_d s)) = rotate_digits N (am_mem s' (am_d s')) mod 3 ^ n"
| "keeps n N OpJumpCode s s' \<longleftrightarrow> am_mem s (am_d s) = am_mem s' (am_d s')"
| "keeps n N OpJumpData s s' \<longleftrightarrow> am_mem s (am_d s) = am_mem s' (am_d s')"
| "keeps n N OpOutput s s' \<longleftrightarrow> am_a s = am_a s'"
| "keeps n N opn s s' \<longleftrightarrow> True"

lemma pow3_bounds: "6 \<le> n \<Longrightarrow> 255 < (3::nat) ^ n"
  using power_increasing[of 6 n "3::nat"] by simp

lemma eof_projects: "n \<le> N \<Longrightarrow> ((3::nat) ^ N - 1) mod 3 ^ n = 3 ^ n - 1"
proof -
  assume "n \<le> N"
  then obtain k where N: "N = n + k" using le_Suc_ex by blast
  have "(3::nat) ^ N - 1 = (3 ^ k - 1) * 3 ^ n + (3 ^ n - 1)"
    using one_le_power[of 3 k] by (simp add: N power_add diff_mult_distrib algebra_simps)
  then show ?thesis by (simp only: mod_mult_self3) simp
qed

lemma crazy_projects:
  assumes "n \<le> N" and "x = x' mod 3 ^ n" and "y = y' mod 3 ^ n"
  shows "crazy_digits n x y = crazy_digits N x' y' mod 3 ^ n"
  using assms by (simp add: crazy_digits_prefix)

lemma effect_agrees:
  assumes "agrees n s s'" and "n \<le> N" and "6 \<le> n" and "keeps n N opn s s'"
  shows "agrees n (am_effect n opn s) (am_effect N opn s')"
proof -
  have word: "am_mem s (am_d s) = am_mem s' (am_d s') mod 3 ^ n" "am_mem s (am_d s) < 3 ^ n"
    using assms(1) by (auto simp: agrees_def)
  have crazy: "crazy_digits n (am_mem s (am_d s)) (am_a s) =
      crazy_digits N (am_mem s' (am_d s')) (am_a s') mod 3 ^ n"
    using assms(1,2) word(1) by (intro crazy_projects) (auto simp: agrees_def)
  show ?thesis
  proof (cases opn)
    case OpInput
    show ?thesis
    proof (cases "am_in s")
      case Nil
      moreover from Nil have "am_in s' = []" using assms(1) by (simp add: agrees_def)
      ultimately show ?thesis
        using assms OpInput eof_projects[OF assms(2)] by (simp add: agrees_def)
    next
      case (Cons b bs)
      moreover from Cons have "am_in s' = b # bs" using assms(1) by (simp add: agrees_def)
      moreover have "unat b < 3 ^ n" using pow3_bounds[OF assms(3)] unat_u8_le[of b] by linarith
      ultimately show ?thesis using assms OpInput by (simp add: agrees_def)
    qed
  qed (use assms word crazy in \<open>auto simp: agrees_def Let_def\<close>)
qed

lemma seal_agrees:
  assumes "agrees n t t'" and "n \<le> N" and "6 \<le> n" and "am_mem t (am_c t) = am_mem t' (am_c t)"
    and "Suc (am_c t) < 3 ^ n" and "Suc (am_d t) < 3 ^ n"
  shows "agrees n (am_seal n t) (am_seal N t')"
proof -
  have pow: "(3::nat) ^ n \<le> 3 ^ N" using assms(2) by simp
  have "Suc (am_c t) mod 3 ^ N = Suc (am_c t)" "Suc (am_d t) mod 3 ^ N = Suc (am_d t)"
    using mod_less[OF less_le_trans[OF assms(5) pow]] mod_less[OF less_le_trans[OF assms(6) pow]]
    by simp_all
  moreover have "unat (XLAT2 ! k) < 3 ^ n" for k
    using pow3_bounds[OF assms(3)] unat_u8_le[of "XLAT2 ! k"] by linarith
  ultimately show ?thesis using assms by (auto simp: agrees_def am_seal_def)
qed

lemma decoded_agrees:
  "agrees n s s' \<Longrightarrow> am_mem s (am_c s) = am_mem s' (am_c s) \<Longrightarrow> am_decoded s = am_decoded s'"
  by (simp add: agrees_def am_decoded_def)

text \<open>
  One step of a certificate. \<open>after k opn s\<close> is the machine a step with the operation \<open>opn\<close> leaves.
\<close>

definition after :: "nat \<Rightarrow> operation \<Rightarrow> amachine \<Rightarrow> amachine" where
  "after k opn s = am_seal k (am_effect k opn s)"

lemma lockstep_next:
  assumes "agrees n s s'" and "n \<le> N" and "6 \<le> n"
    and "graphical (am_mem s (am_c s))" and "am_mem s' (am_c s) = am_mem s (am_c s)"
    and "am_operation i q (am_decoded s) = opn" and "opn \<noteq> OpHalt" and "keeps n N opn s s'"
    and "t = am_effect n opn s" and "graphical (am_mem t (am_c t))"
    and "am_mem (am_effect N opn s') (am_c t) = am_mem t (am_c t)"
    and "Suc (am_c t) < 3 ^ n" and "Suc (am_d t) < 3 ^ n"
    and "lockstep n N i q (after n opn s) (after N opn s')"
  shows "lockstep n N i q s s'"
proof (rule lockstep_step[OF assms(1)])
  have t: "agrees n t (am_effect N opn s')"
    using effect_agrees[OF assms(1,2,3,8)] assms(9) by simp
  have c: "am_c s' = am_c s" "am_c (am_effect N opn s') = am_c t"
    using assms(1) t by (simp_all add: agrees_def)
  show "amstep n i q s (after n opn s)"
    unfolding after_def using assms(4,6,7,9,10) by (intro amstep_seal) simp_all
  show "amstep N i q s' (after N opn s')"
    unfolding after_def
    using assms(4,5,6,7,10,11) c decoded_agrees[OF assms(1)] by (intro amstep_seal) simp_all
  show "lockstep n N i q (after n opn s) (after N opn s')" by (rule assms(14))
qed

lemma lockstep_stop:
  assumes "agrees n s s'" and "graphical (am_mem s (am_c s))" and "am_mem s' (am_c s) = am_mem s (am_c s)"
    and "am_operation i q (am_decoded s) = OpHalt"
  shows "lockstep n N i q s s'"
proof (rule lockstep_halt[OF assms(1)])
  show "am_halts i q s" using assms by (simp add: am_halts_def)
  have "am_c s' = am_c s" using assms(1) by (simp add: agrees_def)
  then show "am_halts i q s'"
    using assms(2-4) decoded_agrees[OF assms(1)] by (simp add: am_halts_def)
qed

subsection \<open>A certificate covers every run\<close>

text \<open>What is observed of a machine that ran: all of it but its memory image and accumulator.\<close>

definition same_view :: "ProfileMachine \<Rightarrow> ProfileMachine \<Rightarrow> bool" where
  "same_view m m' \<longleftrightarrow> pm_output m = pm_output m' \<and> pm_input m = pm_input m' \<and>
    pm_input_cursor m = pm_input_cursor m' \<and> pm_termination m = pm_termination m' \<and>
    preg_code_pointer (pm_registers m) = preg_code_pointer (pm_registers m') \<and>
    preg_data_pointer (pm_registers m) = preg_data_pointer (pm_registers m')"

text \<open>Two machines of one program: well formed, the same streams and I/O bytes, agreeing images.\<close>

definition paired :: "ProfileMachine \<Rightarrow> ProfileMachine \<Rightarrow> bool" where
  "paired m m' \<longleftrightarrow> wf_pmachine m \<and> wf_pmachine m' \<and> pm_input m = pm_input m' \<and>
    pm_profile m = pm_profile m' \<and> pm_termination m = pm_termination m' \<and>
    agrees (geo_word_trits (pm_geometry m)) (abs_pmachine m) (abs_pmachine m')"

lemma paired_view:
  assumes "paired m m'"
  shows "same_view m m'"
proof -
  have same: "pm_input m' = pm_input m" using assms by (simp add: paired_def)
  have "am_in (abs_pmachine m) = am_in (abs_pmachine m')" using assms by (simp add: paired_def agrees_def)
  with same have "drop (pm_input_cursor m) (pm_input m) = drop (pm_input_cursor m') (pm_input m)"
    by (simp add: abs_pmachine_def)
  from arg_cong[OF this, of length]
  have "length (pm_input m) - pm_input_cursor m = length (pm_input m) - pm_input_cursor m'" by simp
  moreover have "pm_input_cursor m \<le> length (pm_input m)" "pm_input_cursor m' \<le> length (pm_input m)"
    using assms wf_pmachineD(6)[of m] wf_pmachineD(6)[of m'] by (simp_all add: paired_def)
  ultimately have "pm_input_cursor m = pm_input_cursor m'" by simp
  then show ?thesis using assms by (simp add: same_view_def paired_def agrees_def abs_pmachine_def)
qed

lemma abs_halted [simp]: "abs_pmachine (m\<lparr>pm_termination := t\<rparr>) = abs_pmachine m"
  by (simp add: abs_pmachine_def)

lemma wf_halted [simp]: "wf_pmachine (m\<lparr>pm_termination := t\<rparr>) = wf_pmachine m"
  by (simp add: wf_pmachine_def)

lemma paired_halted: "paired m m' \<Longrightarrow> paired (m\<lparr>pm_termination := t\<rparr>) (m'\<lparr>pm_termination := t\<rparr>)"
  by (simp add: paired_def)

abbreviation certified :: "ProfileMachine \<Rightarrow> ProfileMachine \<Rightarrow> bool" where
  "certified m m' \<equiv> lockstep (geo_word_trits (pm_geometry m)) (geo_word_trits (pm_geometry m'))
    (pd_input_instruction (pm_profile m)) (pd_output_instruction (pm_profile m))
    (abs_pmachine m) (abs_pmachine m')"

lemma pstep_unchanged:
  assumes "wf_pmachine m" and "pstep m = (r, m')"
  shows "pm_geometry m' = pm_geometry m \<and> pm_profile m' = pm_profile m \<and> pm_input m' = pm_input m"
proof (cases "pm_termination m")
  case None
  then show ?thesis
    using assms by (auto simp: pstep_wf[OF assms(1) None] Let_def pcommitted_def split: if_splits)
qed (use assms profile_run.step_stopped[of m] in auto)

lemma certified_run_loop:
  assumes "lockstep n N i q s s'"
  shows "paired m m' \<Longrightarrow> pm_termination m = None \<Longrightarrow> abs_pmachine m = s \<Longrightarrow> abs_pmachine m' = s' \<Longrightarrow>
    geo_word_trits (pm_geometry m) = n \<Longrightarrow> geo_word_trits (pm_geometry m') = N \<Longrightarrow>
    pd_input_instruction (pm_profile m) = i \<Longrightarrow> pd_output_instruction (pm_profile m) = q \<Longrightarrow>
    fst (prun_loop (k + b) k m) = fst (prun_loop (k + b) k m') \<and>
    paired (snd (prun_loop (k + b) k m)) (snd (prun_loop (k + b) k m'))"
  using assms
proof (induction arbitrary: m m' k b rule: lockstep.induct)
  case (lockstep_halt s s')
  note wf = lockstep_halt.prems(1)[unfolded paired_def]
  show ?case
  proof (cases b)
    case 0
    then show ?thesis using lockstep_halt.prems(1) by simp
  next
    case (Suc b)
    have "pstep m = (Inr (Terminated HaltInstruction), m\<lparr>pm_termination := Some HaltInstruction\<rparr>)"
      "pstep m' = (Inr (Terminated HaltInstruction), m'\<lparr>pm_termination := Some HaltInstruction\<rparr>)"
      using lockstep_halt wf by (intro prefine_halt; simp)+
    then show ?thesis
      using Suc paired_halted[OF lockstep_halt.prems(1)] by (simp add: profile_run.run_loop_simps)
  qed
next
  case (lockstep_step s s' t t')
  note wf = lockstep_step.prems(1)[unfolded paired_def]
  show ?case
  proof (cases b)
    case 0
    then show ?thesis using lockstep_step.prems(1) by simp
  next
    case (Suc b)
    have live: "pm_termination m' = None" using wf lockstep_step.prems(2) by simp
    obtain u where u: "pstep m = (Inr Continued, u)" "abs_pmachine u = t"
      using prefine_step[of m t] wf lockstep_step by auto
    obtain u' where u': "pstep m' = (Inr Continued, u')" "abs_pmachine u' = t'"
      using prefine_step[of m' t'] wf live lockstep_step by auto
    note stay = pstep_unchanged[OF _ u(1)] pstep_unchanged[OF _ u'(1)]
    have geo: "pm_geometry u = pm_geometry m" "pm_geometry u' = pm_geometry m'"
      "pm_profile u = pm_profile m" "pm_profile u' = pm_profile m'"
      "pm_input u = pm_input m" "pm_input u' = pm_input m'"
      using stay wf by simp_all
    have p: "paired u u'" "pm_termination u = None"
      using wf geo u u' lockstep_step.prems(5) lockstep_agrees[OF lockstep_step.hyps(4)]
        profile_run.step_continued[OF u(1)] profile_run.step_continued[OF u'(1)]
        pstep_preserves_wf[OF _ u(1)] pstep_preserves_wf[OF _ u'(1)]
      by (simp_all add: paired_def)
    have "fst (prun_loop (Suc k + b) (Suc k) u) = fst (prun_loop (Suc k + b) (Suc k) u') \<and>
        paired (snd (prun_loop (Suc k + b) (Suc k) u)) (snd (prun_loop (Suc k + b) (Suc k) u'))"
      using lockstep_step.prems geo p u(2) u'(2) by (intro lockstep_step.IH) simp_all
    then show ?thesis using u(1) u'(1) Suc by (simp add: profile_run.run_loop_simps)
  qed
qed

lemma certified_run:
  assumes "paired m m'" and "pm_termination m = None" and "certified m m'"
  shows "fst (prun budget m) = fst (prun budget m') \<and>
    paired (snd (prun budget m)) (snd (prun budget m'))"
  using certified_run_loop[OF assms(3,1,2), of 0 budget] assms(1,2)
  by (simp add: prun_def paired_def)

end
