(* ===== verification/WidthProof.thy ===== *)
theory WidthProof
  imports ProfileMachine Bytes
begin

text \<open>
  \<open>domain/profile_width.rs\<close>: the verifiers that admit a narrower execution geometry for one
  source, the search for the narrowest admitted width, and the two constructors of
  \<open>domain/profile_machine.rs\<close> that use them. A \<open>u32\<close> always converts to \<open>usize\<close>, so only the
  conversions of positions to \<open>u32\<close> are kept as fallible.
\<close>

definition MINIMUM_ADAPTIVE_WORD_TRITS :: nat where "MINIMUM_ADAPTIVE_WORD_TRITS = 10"

datatype ProfileWidthProofKind =
    InitialHalt
  | InputOutputHaltProjection
  | InputThenHaltProjection
  | JumpCodeHaltProjection
  | JumpCodeIoHaltProjection
  | JumpCodeRotateHaltProjection
  | JumpCrazyHaltProjection
  | JumpCrazyIoHaltProjection
  | JumpDataHaltProjection
  | JumpRotateCrazyHaltProjection
  | JumpRotateHaltProjection
  | JumpRotateIoHaltProjection
  | NoopPrefixHalt
  | RepeatedJumpDataProjection
  | StraightLineIoProjection

record VerifiedProfileExecutionGeometry =
  vg_geometry :: ProfileExecutionGeometry
  vg_proof_kind :: ProfileWidthProofKind
  vg_source :: "u8 list"

datatype ProfileWidthVerificationError =
    GeometryInvariant
  | InitialInstructionNotHalt u8
  | InputOutputHaltInstruction u32 u8
  | InputThenHaltInstruction u32 u8
  | JumpCodeHaltInstruction u32 u8
  | JumpCodeIoHaltInstruction u32 u8
  | JumpCodeProjection
  | JumpCodeRotateHaltInstruction u32 u8
  | JumpCodeRotateProjection
  | JumpCrazyHaltInstruction u32 u8
  | JumpCrazyProjection
  | JumpDataHaltInstruction u32 u8
  | JumpRotateHaltInstruction u32 u8
  | JumpRotateProjection
  | NoopPrefixInstruction u32 u8
  | NoopPrefixMissingHalt
  | RepeatedJumpInstruction u32 u8
  | RepeatedJumpMemoryMismatch u32
  | RepeatedJumpMissingHalt
  | Source ProfileLoadError
  | StraightLineInstruction u32 u8
  | StraightLineMissingHalt
  | WidthOutOfRange nat nat

subsection \<open>What the verifiers share\<close>

definition vg_new ::
  "ProfileExecutionInputPolicy \<Rightarrow> u32 \<Rightarrow> ProfileDescriptor \<Rightarrow> nat \<Rightarrow> ProfileWidthProofKind \<Rightarrow>
    u8 list \<Rightarrow> VerifiedProfileExecutionGeometry" where
  "vg_new policy memory_words profile word_trits kind source =
    \<lparr>vg_geometry = \<lparr>geo_input_policy = policy, geo_memory_words = memory_words,
       geo_profile = profile, geo_word_trits = word_trits\<rparr>,
     vg_proof_kind = kind, vg_source = source\<rparr>"

fun derived_loop :: "nat \<Rightarrow> u32 \<Rightarrow> ProfileWidthVerificationError + u32" where
  "derived_loop 0 memory_words = Inr memory_words"
| "derived_loop (Suc n) memory_words =
    and_then (ok_or GeometryInvariant (checked_mul U32_MAX memory_words TERNARY_RADIX))
      (derived_loop n)"

definition derived_memory_words ::
  "ProfileDescriptor \<Rightarrow> nat \<Rightarrow> ProfileWidthVerificationError + u32" where
  "derived_memory_words profile word_trits =
    (if word_trits < MINIMUM_ADAPTIVE_WORD_TRITS \<or> word_trits > pd_word_trits profile
     then Inl (WidthOutOfRange (pd_word_trits profile) word_trits)
     else
       and_then (derived_loop word_trits 1) (\<lambda>memory_words.
         if memory_words > pd_memory_words profile then Inl GeometryInvariant
         else Inr memory_words))"

definition admitted_source :: "u8 list \<Rightarrow> u32 \<Rightarrow> ProfileWidthVerificationError + u32 list" where
  "admitted_source source memory_words = map_err Source (admit_profile_source source memory_words)"

definition u32_position :: "usize \<Rightarrow> ProfileWidthVerificationError + u32" where
  "u32_position position = (if position \<le> U32_MAX then Inr position else Inl GeometryInvariant)"

definition decoded_cell :: "u32 \<Rightarrow> u32 \<Rightarrow> ProfileWidthVerificationError + u8" where
  "decoded_cell cell pointer = ok_or GeometryInvariant (decode_profile_instruction cell pointer)"

text \<open>\<open>v.checked_add(1).filter(|next| *next < memory_words).ok_or(e)\<close>\<close>

definition next_address ::
  "ProfileWidthVerificationError \<Rightarrow> u32 \<Rightarrow> u32 \<Rightarrow> ProfileWidthVerificationError + u32" where
  "next_address e v memory_words =
    ok_or e (option_filter (\<lambda>address. address < memory_words) (checked_add U32_MAX v 1))"

text \<open>
  The fixed instruction sequences of three verifiers: each position holds the expected
  instruction, or \<open>reject\<close> reports the position and what it decodes to.
\<close>

fun expected_loop ::
  "(u32 \<Rightarrow> u8 \<Rightarrow> ProfileWidthVerificationError) \<Rightarrow> u32 list \<Rightarrow> usize \<Rightarrow> u8 list \<Rightarrow>
    ProfileWidthVerificationError + unit" where
  "expected_loop reject admitted position [] = Inr ()"
| "expected_loop reject admitted position (expected_instruction # rest) =
    and_then (u32_position position) (\<lambda>pointer.
    and_then (ok_or GeometryInvariant (get admitted position)) (\<lambda>cell.
    and_then (decoded_cell cell pointer) (\<lambda>decoded.
      if decoded \<noteq> expected_instruction then Inl (reject pointer decoded)
      else expected_loop reject admitted (position + 1) rest)))"

definition verify_initial_halt_profile_width ::
  "ProfileDescriptor \<Rightarrow> u8 list \<Rightarrow> nat \<Rightarrow>
    ProfileWidthVerificationError + VerifiedProfileExecutionGeometry" where
  "verify_initial_halt_profile_width profile source word_trits =
    and_then (derived_memory_words profile word_trits) (\<lambda>memory_words.
    and_then (admitted_source source memory_words) (\<lambda>admitted.
    and_then (ok_or GeometryInvariant (get admitted 0)) (\<lambda>first.
    and_then (decoded_cell first 0) (\<lambda>decoded.
      if decoded \<noteq> 118 then Inl (InitialInstructionNotHalt decoded)
      else Inr (vg_new Any memory_words profile word_trits InitialHalt source)))))"

definition verify_input_output_halt_profile_width ::
  "ProfileDescriptor \<Rightarrow> u8 list \<Rightarrow> nat \<Rightarrow>
    ProfileWidthVerificationError + VerifiedProfileExecutionGeometry" where
  "verify_input_output_halt_profile_width profile source word_trits =
    and_then (derived_memory_words profile word_trits) (\<lambda>memory_words.
    and_then (admitted_source source memory_words) (\<lambda>admitted.
    and_then (expected_loop InputOutputHaltInstruction admitted 0
      [pd_input_instruction profile, pd_output_instruction profile, 118]) (\<lambda>_.
      Inr (vg_new (MinimumLength 1) memory_words profile word_trits InputOutputHaltProjection source))))"

definition verify_input_then_halt_profile_width ::
  "ProfileDescriptor \<Rightarrow> u8 list \<Rightarrow> nat \<Rightarrow>
    ProfileWidthVerificationError + VerifiedProfileExecutionGeometry" where
  "verify_input_then_halt_profile_width profile source word_trits =
    and_then (derived_memory_words profile word_trits) (\<lambda>memory_words.
    and_then (admitted_source source memory_words) (\<lambda>admitted.
    and_then (expected_loop InputThenHaltInstruction admitted 0 [pd_input_instruction profile, 118]) (\<lambda>_.
      Inr (vg_new Any memory_words profile word_trits InputThenHaltProjection source))))"

definition verify_jump_data_halt_profile_width ::
  "ProfileDescriptor \<Rightarrow> u8 list \<Rightarrow> nat \<Rightarrow>
    ProfileWidthVerificationError + VerifiedProfileExecutionGeometry" where
  "verify_jump_data_halt_profile_width profile source word_trits =
    and_then (derived_memory_words profile word_trits) (\<lambda>memory_words.
    and_then (admitted_source source memory_words) (\<lambda>admitted.
    and_then (expected_loop JumpDataHaltInstruction admitted 0 [106, 118]) (\<lambda>_.
    and_then (ok_or GeometryInvariant (get admitted 0)) (\<lambda>first.
    and_then (ok_or GeometryInvariant (checked_add U32_MAX first 1)) (\<lambda>next_word.
      if next_word \<ge> memory_words then Inl GeometryInvariant
      else Inr (vg_new Any memory_words profile word_trits JumpDataHaltProjection source))))))"

subsection \<open>Straight lines\<close>

fun noop_prefix_loop ::
  "usize \<Rightarrow> usize \<Rightarrow> u32 list \<Rightarrow> ProfileWidthVerificationError + unit" where
  "noop_prefix_loop position noops [] = Inl NoopPrefixMissingHalt"
| "noop_prefix_loop position noops (cell # cells) =
    and_then (u32_position position) (\<lambda>pointer.
    and_then (decoded_cell cell pointer) (\<lambda>decoded.
      if decoded = 111 then noop_prefix_loop (position + 1) (noops + 1) cells
      else if decoded = 118 \<and> noops > 0 then Inr ()
      else Inl (NoopPrefixInstruction pointer decoded)))"

definition verify_noop_prefix_halt_profile_width ::
  "ProfileDescriptor \<Rightarrow> u8 list \<Rightarrow> nat \<Rightarrow>
    ProfileWidthVerificationError + VerifiedProfileExecutionGeometry" where
  "verify_noop_prefix_halt_profile_width profile source word_trits =
    and_then (derived_memory_words profile word_trits) (\<lambda>memory_words.
    and_then (admitted_source source memory_words) (\<lambda>admitted.
    and_then (noop_prefix_loop 0 0 admitted) (\<lambda>_.
      Inr (vg_new Any memory_words profile word_trits NoopPrefixHalt source))))"

fun straight_line_loop ::
  "ProfileDescriptor \<Rightarrow> usize \<Rightarrow> usize \<Rightarrow> usize \<Rightarrow> u32 list \<Rightarrow>
    ProfileWidthVerificationError + usize" where
  "straight_line_loop profile position input_ordinal required_input_len [] =
    Inl StraightLineMissingHalt"
| "straight_line_loop profile position input_ordinal required_input_len (cell # cells) =
    and_then (u32_position position) (\<lambda>pointer.
    and_then (decoded_cell cell pointer) (\<lambda>decoded.
      if decoded = 118 then Inr required_input_len
      else if decoded = pd_input_instruction profile then
        straight_line_loop profile (position + 1) (input_ordinal + 1) required_input_len cells
      else if decoded = pd_output_instruction profile then
        straight_line_loop profile (position + 1) input_ordinal
          (max required_input_len input_ordinal) cells
      else if decoded \<noteq> 111 then Inl (StraightLineInstruction pointer decoded)
      else straight_line_loop profile (position + 1) input_ordinal required_input_len cells))"

definition verify_straight_line_io_profile_width ::
  "ProfileDescriptor \<Rightarrow> u8 list \<Rightarrow> nat \<Rightarrow>
    ProfileWidthVerificationError + VerifiedProfileExecutionGeometry" where
  "verify_straight_line_io_profile_width profile source word_trits =
    and_then (derived_memory_words profile word_trits) (\<lambda>memory_words.
    and_then (admitted_source source memory_words) (\<lambda>admitted.
    and_then (straight_line_loop profile 0 0 0 admitted) (\<lambda>required_input_len.
      Inr (vg_new (MinimumLength required_input_len) memory_words profile word_trits
        StraightLineIoProjection source))))"

subsection \<open>Data jumps\<close>

fun initial_memory_loop :: "nat \<Rightarrow> u32 \<Rightarrow> u32 \<Rightarrow> nat \<Rightarrow> u32" where
  "initial_memory_loop 0 older previous word_trits = previous"
| "initial_memory_loop (Suc k) older previous word_trits =
    initial_memory_loop k previous (profile_crazy older previous word_trits) word_trits"

definition verified_initial_memory_word ::
  "u32 list \<Rightarrow> nat \<Rightarrow> u32 \<Rightarrow> ProfileWidthVerificationError + u32" where
  "verified_initial_memory_word source_words word_trits address =
    (case get source_words address of
      Some v \<Rightarrow> Inr v
    | None \<Rightarrow>
        and_then (ok_or GeometryInvariant
          (if source_words = [] then None else Some (last source_words))) (\<lambda>previous.
        and_then (ok_or GeometryInvariant (get source_words (length source_words - 2))) (\<lambda>older.
          Inr (initial_memory_loop (address + 1 - length source_words) older previous word_trits))))"

record RepeatedJumpContext =
  rjc_canonical_word_trits :: nat
  rjc_memory_words :: u32
  rjc_narrow :: "u32 list"
  rjc_wide :: "u32 list"
  rjc_word_trits :: nat

definition advance_verified_jump_address ::
  "RepeatedJumpContext \<Rightarrow> u32 \<Rightarrow> u32 \<Rightarrow> ProfileWidthVerificationError + u32" where
  "advance_verified_jump_address context data_address code_ptr =
    (if data_address < code_ptr \<and> data_address < length (rjc_narrow context)
     then Inl (RepeatedJumpMemoryMismatch data_address)
     else
    and_then (verified_initial_memory_word (rjc_narrow context) (rjc_word_trits context) data_address)
      (\<lambda>narrow_word.
    and_then (verified_initial_memory_word (rjc_wide context) (rjc_canonical_word_trits context)
      data_address) (\<lambda>wide_word.
      if narrow_word \<noteq> wide_word then Inl (RepeatedJumpMemoryMismatch data_address)
      else next_address GeometryInvariant narrow_word (rjc_memory_words context))))"

fun repeated_jump_loop ::
  "RepeatedJumpContext \<Rightarrow> usize \<Rightarrow> u32 \<Rightarrow> usize \<Rightarrow> u32 list \<Rightarrow>
    ProfileWidthVerificationError + unit" where
  "repeated_jump_loop context position data_address jumps [] = Inl RepeatedJumpMissingHalt"
| "repeated_jump_loop context position data_address jumps (cell # cells) =
    and_then (u32_position position) (\<lambda>pointer.
    and_then (decoded_cell cell pointer) (\<lambda>decoded.
      if decoded = 118 then (if jumps < 2 then Inl RepeatedJumpMissingHalt else Inr ())
      else if decoded \<noteq> 106 then Inl (RepeatedJumpInstruction pointer decoded)
      else
    and_then (advance_verified_jump_address context data_address pointer) (\<lambda>data_address.
      repeated_jump_loop context (position + 1) data_address (jumps + 1) cells)))"

definition verify_repeated_jump_data_profile_width ::
  "ProfileDescriptor \<Rightarrow> u8 list \<Rightarrow> nat \<Rightarrow>
    ProfileWidthVerificationError + VerifiedProfileExecutionGeometry" where
  "verify_repeated_jump_data_profile_width profile source word_trits =
    and_then (derived_memory_words profile word_trits) (\<lambda>memory_words.
    and_then (admitted_source source memory_words) (\<lambda>narrow.
    and_then (admitted_source source (pd_memory_words profile)) (\<lambda>wide.
      let context = \<lparr>rjc_canonical_word_trits = pd_word_trits profile,
            rjc_memory_words = memory_words, rjc_narrow = narrow, rjc_wide = wide,
            rjc_word_trits = word_trits\<rparr>
      in
    and_then (repeated_jump_loop context 0 0 0 narrow) (\<lambda>_.
      Inr (vg_new Any memory_words profile word_trits RepeatedJumpDataProjection source)))))"

subsection \<open>Guarded crazy operations\<close>

type_synonym GuardedCrazyProjectionState = "u32 \<times> u32 \<times> u32"

definition advance_guarded_crazy_projection ::
  "u32 list \<Rightarrow> ProfileExecutionGeometry \<Rightarrow> GuardedCrazyProjectionState \<Rightarrow> u32 \<Rightarrow>
    ProfileWidthVerificationError + GuardedCrazyProjectionState" where
  "advance_guarded_crazy_projection source_words geometry state code_ptr =
    (case state of (data_address, narrow_accumulator, wide_accumulator) \<Rightarrow>
      if data_address = code_ptr \<or> (data_address > code_ptr \<and> data_address < length source_words)
      then Inl JumpCrazyProjection
      else
    and_then (verified_initial_memory_word source_words (geo_word_trits geometry) data_address)
      (\<lambda>narrow_data.
    and_then (verified_initial_memory_word source_words (pd_word_trits (geo_profile geometry))
      data_address) (\<lambda>wide_data.
      if wide_data mod geo_memory_words geometry \<noteq> narrow_data then Inl JumpCrazyProjection
      else
        let narrow_crazy = profile_crazy narrow_data narrow_accumulator (geo_word_trits geometry);
            wide_crazy = profile_crazy wide_data wide_accumulator (pd_word_trits (geo_profile geometry))
        in if wide_crazy mod geo_memory_words geometry \<noteq> narrow_crazy then Inl JumpCrazyProjection
           else
    and_then (next_address GeometryInvariant data_address (geo_memory_words geometry))
      (\<lambda>next_data. Inr (next_data, narrow_crazy, wide_crazy)))))"

fun jump_crazy_loop ::
  "u32 list \<Rightarrow> ProfileExecutionGeometry \<Rightarrow> usize \<Rightarrow> GuardedCrazyProjectionState \<Rightarrow> usize \<Rightarrow>
    u32 list \<Rightarrow> ProfileWidthVerificationError + unit" where
  "jump_crazy_loop admitted geometry position state crazies [] = Inl JumpCrazyProjection"
| "jump_crazy_loop admitted geometry position state crazies (cell # cells) =
    and_then (u32_position position) (\<lambda>pointer.
    and_then (decoded_cell cell pointer) (\<lambda>decoded.
      if decoded = 118 then (if crazies = 0 then Inl JumpCrazyProjection else Inr ())
      else if decoded \<noteq> 112 then Inl (JumpCrazyHaltInstruction pointer decoded)
      else
    and_then (advance_guarded_crazy_projection admitted geometry state pointer) (\<lambda>state.
      jump_crazy_loop admitted geometry (position + 1) state (crazies + 1) cells)))"

text \<open>The first instruction must be a data jump, which establishes the data address.\<close>

definition jump_initial_address ::
  "(u32 \<Rightarrow> u8 \<Rightarrow> ProfileWidthVerificationError) \<Rightarrow> u32 list \<Rightarrow> u32 \<Rightarrow>
    ProfileWidthVerificationError + u32" where
  "jump_initial_address reject admitted memory_words =
    and_then (ok_or GeometryInvariant (get admitted 0)) (\<lambda>first.
    and_then (decoded_cell first 0) (\<lambda>decoded.
      if decoded \<noteq> 106 then Inl (reject 0 decoded)
      else next_address GeometryInvariant first memory_words))"

definition verify_jump_crazy_halt_profile_width ::
  "ProfileDescriptor \<Rightarrow> u8 list \<Rightarrow> nat \<Rightarrow>
    ProfileWidthVerificationError + VerifiedProfileExecutionGeometry" where
  "verify_jump_crazy_halt_profile_width profile source word_trits =
    and_then (derived_memory_words profile word_trits) (\<lambda>memory_words.
      let verified = vg_new Any memory_words profile word_trits JumpCrazyHaltProjection source
      in
    and_then (admitted_source source memory_words) (\<lambda>admitted.
    and_then (jump_initial_address JumpCrazyHaltInstruction admitted memory_words) (\<lambda>first_data_address.
    and_then (jump_crazy_loop admitted (vg_geometry verified) 1 (first_data_address, 0, 0) 0
      (drop 1 admitted)) (\<lambda>_. Inr verified))))"

fun jump_crazy_io_suffix_loop ::
  "u32 list \<Rightarrow> ProfileExecutionGeometry \<Rightarrow> u32 \<Rightarrow> usize \<Rightarrow> u8 list \<Rightarrow>
    ProfileWidthVerificationError + unit" where
  "jump_crazy_io_suffix_loop admitted geometry data_address position [] = Inr ()"
| "jump_crazy_io_suffix_loop admitted geometry data_address position (expected_instruction # rest) =
    and_then (u32_position position) (\<lambda>pointer.
    and_then (ok_or JumpCrazyProjection (get admitted position)) (\<lambda>cell.
    and_then (decoded_cell cell pointer) (\<lambda>suffix_decoded.
      if suffix_decoded \<noteq> expected_instruction
      then Inl (JumpCrazyHaltInstruction pointer suffix_decoded)
      else
    and_then (if expected_instruction \<noteq> 118
      then next_address GeometryInvariant data_address (geo_memory_words geometry)
      else Inr data_address) (\<lambda>data_address.
      jump_crazy_io_suffix_loop admitted geometry data_address (position + 1) rest))))"

definition verify_jump_crazy_io_suffix ::
  "u32 list \<Rightarrow> ProfileExecutionGeometry \<Rightarrow> u32 \<Rightarrow> usize \<Rightarrow> ProfileWidthVerificationError + unit" where
  "verify_jump_crazy_io_suffix admitted geometry data_address position =
    jump_crazy_io_suffix_loop admitted geometry data_address position
      [pd_input_instruction (geo_profile geometry), pd_output_instruction (geo_profile geometry), 118]"

function jump_crazy_prefix_loop ::
  "u32 list \<Rightarrow> ProfileExecutionGeometry \<Rightarrow> GuardedCrazyProjectionState \<Rightarrow> usize \<Rightarrow> usize \<Rightarrow>
    ProfileWidthVerificationError + (GuardedCrazyProjectionState \<times> usize \<times> usize)" where
  "jump_crazy_prefix_loop admitted geometry state position crazies =
    (case get admitted position of
      None \<Rightarrow> Inr (state, position, crazies)
    | Some cell \<Rightarrow>
        and_then (u32_position position) (\<lambda>pointer.
        and_then (decoded_cell cell pointer) (\<lambda>prefix_decoded.
          if prefix_decoded \<noteq> 112 then Inr (state, position, crazies)
          else
        and_then (advance_guarded_crazy_projection admitted geometry state pointer) (\<lambda>state.
          jump_crazy_prefix_loop admitted geometry state (position + 1) (crazies + 1)))))"
  by pat_completeness auto
termination
  by (relation "measure (\<lambda>(admitted, _, _, position, _). length admitted - position)")
    (auto simp: get_Some_iff)

declare jump_crazy_prefix_loop.simps [simp del]

definition verify_jump_crazy_io_halt_profile_width ::
  "ProfileDescriptor \<Rightarrow> u8 list \<Rightarrow> nat \<Rightarrow>
    ProfileWidthVerificationError + VerifiedProfileExecutionGeometry" where
  "verify_jump_crazy_io_halt_profile_width profile source word_trits =
    and_then (derived_memory_words profile word_trits) (\<lambda>memory_words.
      let verified = vg_new (MinimumLength 1) memory_words profile word_trits
            JumpCrazyIoHaltProjection source
      in
    and_then (admitted_source source memory_words) (\<lambda>admitted.
    and_then (jump_initial_address JumpCrazyHaltInstruction admitted memory_words) (\<lambda>data_address.
    and_then (jump_crazy_prefix_loop admitted (vg_geometry verified) (data_address, 0, 0) 1 0)
      (\<lambda>(state, position, crazies).
      if crazies = 0 then Inl JumpCrazyProjection
      else
    and_then (verify_jump_crazy_io_suffix admitted (vg_geometry verified) (fst state) position)
      (\<lambda>_. Inr verified)))))"

subsection \<open>Projected rotations\<close>

type_synonym JumpRotateProjectionValues = "u32 \<times> u32"

definition jump_rotate_initial_address ::
  "u32 list \<Rightarrow> u32 \<Rightarrow> ProfileWidthVerificationError + u32" where
  "jump_rotate_initial_address admitted memory_words =
    jump_initial_address JumpRotateHaltInstruction admitted memory_words"

definition advance_jump_rotate_address :: "u32 \<Rightarrow> u32 \<Rightarrow> ProfileWidthVerificationError + u32" where
  "advance_jump_rotate_address data_address memory_words =
    next_address GeometryInvariant data_address memory_words"

definition jump_rotate_projection_values ::
  "u32 list \<Rightarrow> ProfileExecutionGeometry \<Rightarrow> u32 \<Rightarrow>
    ProfileWidthVerificationError + JumpRotateProjectionValues" where
  "jump_rotate_projection_values admitted geometry data_address =
    (if data_address < length admitted then Inl JumpRotateProjection
     else
    and_then (verified_initial_memory_word admitted (geo_word_trits geometry) data_address)
      (\<lambda>narrow_data.
    and_then (verified_initial_memory_word admitted (pd_word_trits (geo_profile geometry)) data_address)
      (\<lambda>wide_data.
      if wide_data mod geo_memory_words geometry \<noteq> narrow_data then Inl JumpRotateProjection
      else
        let narrow_rotate = profile_rotate narrow_data (geo_word_modulus geometry);
            wide_rotate = profile_rotate wide_data (pd_memory_words (geo_profile geometry))
        in if wide_rotate mod geo_memory_words geometry \<noteq> narrow_rotate
           then Inl JumpRotateProjection else Inr (narrow_rotate, wide_rotate))))"

definition verify_jump_rotate_projection ::
  "u32 list \<Rightarrow> ProfileExecutionGeometry \<Rightarrow> u32 \<Rightarrow> ProfileWidthVerificationError + unit" where
  "verify_jump_rotate_projection admitted geometry data_address =
    map_ok (\<lambda>_. ()) (jump_rotate_projection_values admitted geometry data_address)"

fun jump_rotate_halt_loop ::
  "u32 list \<Rightarrow> ProfileExecutionGeometry \<Rightarrow> usize \<Rightarrow> u32 \<Rightarrow> bool \<Rightarrow> u32 list \<Rightarrow>
    ProfileWidthVerificationError + unit" where
  "jump_rotate_halt_loop admitted geometry position data_address rotated [] = Inl JumpRotateProjection"
| "jump_rotate_halt_loop admitted geometry position data_address rotated (cell # cells) =
    and_then (u32_position position) (\<lambda>pointer.
    and_then (decoded_cell cell pointer) (\<lambda>decoded.
      if \<not> rotated \<and> decoded = 111 then
        and_then (advance_jump_rotate_address data_address (geo_memory_words geometry)) (\<lambda>data_address.
          jump_rotate_halt_loop admitted geometry (position + 1) data_address rotated cells)
      else if \<not> rotated \<and> decoded = 42 then
        and_then (verify_jump_rotate_projection admitted geometry data_address) (\<lambda>_.
        and_then (advance_jump_rotate_address data_address (geo_memory_words geometry)) (\<lambda>data_address.
          jump_rotate_halt_loop admitted geometry (position + 1) data_address True cells))
      else if rotated \<and> decoded = 118 then Inr ()
      else Inl (JumpRotateHaltInstruction pointer decoded)))"

definition verify_jump_rotate_halt_profile_width ::
  "ProfileDescriptor \<Rightarrow> u8 list \<Rightarrow> nat \<Rightarrow>
    ProfileWidthVerificationError + VerifiedProfileExecutionGeometry" where
  "verify_jump_rotate_halt_profile_width profile source word_trits =
    and_then (derived_memory_words profile word_trits) (\<lambda>memory_words.
      let verified = vg_new Any memory_words profile word_trits JumpRotateHaltProjection source
      in
    and_then (admitted_source source memory_words) (\<lambda>admitted.
    and_then (jump_rotate_initial_address admitted memory_words) (\<lambda>data_address.
    and_then (jump_rotate_halt_loop admitted (vg_geometry verified) 1 data_address False
      (drop 1 admitted)) (\<lambda>_. Inr verified))))"

fun jump_rotate_crazy_suffix_loop ::
  "u32 list \<Rightarrow> ProfileExecutionGeometry \<Rightarrow> GuardedCrazyProjectionState \<Rightarrow> usize \<Rightarrow> usize \<Rightarrow> bool \<Rightarrow>
    u32 list \<Rightarrow> ProfileWidthVerificationError + unit" where
  "jump_rotate_crazy_suffix_loop admitted geometry state position crazies suffix_noop [] =
    Inl JumpCrazyProjection"
| "jump_rotate_crazy_suffix_loop admitted geometry state position crazies suffix_noop (cell # cells) =
    and_then (u32_position position) (\<lambda>pointer.
    and_then (decoded_cell cell pointer) (\<lambda>decoded.
      if decoded = 112 \<and> \<not> suffix_noop then
        and_then (advance_guarded_crazy_projection admitted geometry state pointer) (\<lambda>state.
          jump_rotate_crazy_suffix_loop admitted geometry state (position + 1) (crazies + 1)
            suffix_noop cells)
      else if decoded = 111 \<and> crazies > 0 then
        and_then (advance_jump_rotate_address (fst state) (geo_memory_words geometry)) (\<lambda>data_address.
          jump_rotate_crazy_suffix_loop admitted geometry (data_address, snd state) (position + 1)
            crazies True cells)
      else if decoded = 118 \<and> crazies > 0 then Inr ()
      else Inl (JumpCrazyHaltInstruction pointer decoded)))"

definition verify_jump_rotate_crazy_suffix ::
  "u32 list \<Rightarrow> ProfileExecutionGeometry \<Rightarrow> GuardedCrazyProjectionState \<Rightarrow> usize \<Rightarrow>
    ProfileWidthVerificationError + unit" where
  "verify_jump_rotate_crazy_suffix admitted geometry state start_position =
    jump_rotate_crazy_suffix_loop admitted geometry state start_position 0 False
      (drop start_position admitted)"

fun jump_rotate_crazy_loop ::
  "u32 list \<Rightarrow> ProfileExecutionGeometry \<Rightarrow> usize \<Rightarrow> u32 \<Rightarrow> u32 list \<Rightarrow>
    ProfileWidthVerificationError + unit" where
  "jump_rotate_crazy_loop admitted geometry position data_address [] = Inl JumpRotateProjection"
| "jump_rotate_crazy_loop admitted geometry position data_address (cell # cells) =
    and_then (u32_position position) (\<lambda>pointer.
    and_then (decoded_cell cell pointer) (\<lambda>decoded.
      if decoded = 111 then
        and_then (advance_jump_rotate_address data_address (geo_memory_words geometry)) (\<lambda>data_address.
          jump_rotate_crazy_loop admitted geometry (position + 1) data_address cells)
      else if decoded \<noteq> 42 then Inl (JumpRotateHaltInstruction pointer decoded)
      else
    and_then (jump_rotate_projection_values admitted geometry data_address)
      (\<lambda>(narrow_accumulator, wide_accumulator).
    and_then (advance_jump_rotate_address data_address (geo_memory_words geometry)) (\<lambda>next_data.
      verify_jump_rotate_crazy_suffix admitted geometry
        (next_data, narrow_accumulator, wide_accumulator) (position + 1)))))"

definition verify_jump_rotate_crazy_halt_profile_width ::
  "ProfileDescriptor \<Rightarrow> u8 list \<Rightarrow> nat \<Rightarrow>
    ProfileWidthVerificationError + VerifiedProfileExecutionGeometry" where
  "verify_jump_rotate_crazy_halt_profile_width profile source word_trits =
    and_then (derived_memory_words profile word_trits) (\<lambda>memory_words.
      let verified = vg_new Any memory_words profile word_trits JumpRotateCrazyHaltProjection source
      in
    and_then (admitted_source source memory_words) (\<lambda>admitted.
    and_then (jump_rotate_initial_address admitted memory_words) (\<lambda>data_address.
    and_then (jump_rotate_crazy_loop admitted (vg_geometry verified) 1 data_address
      (drop 1 admitted)) (\<lambda>_. Inr verified))))"

definition jump_rotate_io_decoded_at ::
  "u32 list \<Rightarrow> usize \<Rightarrow> ProfileWidthVerificationError + (u8 \<times> u32)" where
  "jump_rotate_io_decoded_at admitted position =
    and_then (u32_position position) (\<lambda>pointer.
    and_then (ok_or JumpRotateProjection (get admitted position)) (\<lambda>cell.
    and_then (decoded_cell cell pointer) (\<lambda>decoded. Inr (decoded, pointer))))"

function jump_rotate_io_suffix_loop ::
  "u32 list \<Rightarrow> ProfileExecutionGeometry \<Rightarrow> u32 \<Rightarrow> usize \<Rightarrow> usize \<Rightarrow>
    ProfileWidthVerificationError + usize" where
  "jump_rotate_io_suffix_loop admitted geometry data_address position required_input =
    and_then (jump_rotate_io_decoded_at admitted position) (\<lambda>(decoded, pointer).
      if decoded = 118 then
        (if required_input = 0 then Inl (JumpRotateHaltInstruction pointer decoded)
         else Inr required_input)
      else if decoded \<noteq> pd_input_instruction (geo_profile geometry)
      then Inl (JumpRotateHaltInstruction pointer decoded)
      else
    and_then (advance_jump_rotate_address data_address (geo_memory_words geometry)) (\<lambda>data_address.
    and_then (jump_rotate_io_decoded_at admitted (position + 1)) (\<lambda>(decoded, pointer).
      if decoded \<noteq> pd_output_instruction (geo_profile geometry)
      then Inl (JumpRotateHaltInstruction pointer decoded)
      else
    and_then (advance_jump_rotate_address data_address (geo_memory_words geometry)) (\<lambda>data_address.
      jump_rotate_io_suffix_loop admitted geometry data_address (position + 1 + 1)
        (required_input + 1)))))"
  by pat_completeness auto
termination
  by (relation "measure (\<lambda>(admitted, _, _, position, _). length admitted - position)")
    (auto simp: jump_rotate_io_decoded_at_def and_then_Inr_iff get_Some_iff)

declare jump_rotate_io_suffix_loop.simps [simp del]

definition verify_jump_rotate_io_suffix ::
  "u32 list \<Rightarrow> ProfileExecutionGeometry \<Rightarrow> u32 \<Rightarrow> usize \<Rightarrow>
    ProfileWidthVerificationError + usize" where
  "verify_jump_rotate_io_suffix admitted geometry data_address position =
    jump_rotate_io_suffix_loop admitted geometry data_address position 0"

function jump_rotate_io_loop ::
  "u32 list \<Rightarrow> ProfileExecutionGeometry \<Rightarrow> u32 \<Rightarrow> usize \<Rightarrow>
    ProfileWidthVerificationError + usize" where
  "jump_rotate_io_loop admitted geometry data_address position =
    (case get admitted position of
      None \<Rightarrow> Inl JumpRotateProjection
    | Some cell \<Rightarrow>
        and_then (u32_position position) (\<lambda>pointer.
        and_then (decoded_cell cell pointer) (\<lambda>decoded.
          if decoded = 111 then
            and_then (advance_jump_rotate_address data_address (geo_memory_words geometry))
              (\<lambda>data_address. jump_rotate_io_loop admitted geometry data_address (position + 1))
          else if decoded \<noteq> 42 then Inl (JumpRotateHaltInstruction pointer decoded)
          else
        and_then (verify_jump_rotate_projection admitted geometry data_address) (\<lambda>_.
        and_then (advance_jump_rotate_address data_address (geo_memory_words geometry)) (\<lambda>data_address.
          verify_jump_rotate_io_suffix admitted geometry data_address (position + 1))))))"
  by pat_completeness auto
termination
  by (relation "measure (\<lambda>(admitted, _, _, position). length admitted - position)")
    (auto simp: get_Some_iff)

declare jump_rotate_io_loop.simps [simp del]

definition verify_jump_rotate_io_halt_profile_width ::
  "ProfileDescriptor \<Rightarrow> u8 list \<Rightarrow> nat \<Rightarrow>
    ProfileWidthVerificationError + VerifiedProfileExecutionGeometry" where
  "verify_jump_rotate_io_halt_profile_width profile source word_trits =
    and_then (derived_memory_words profile word_trits) (\<lambda>memory_words.
      let geometry = \<lparr>geo_input_policy = MinimumLength 1, geo_memory_words = memory_words,
            geo_profile = profile, geo_word_trits = word_trits\<rparr>
      in
    and_then (admitted_source source memory_words) (\<lambda>admitted.
    and_then (jump_rotate_initial_address admitted memory_words) (\<lambda>data_address.
    and_then (jump_rotate_io_loop admitted geometry data_address 1) (\<lambda>required_input.
      Inr (vg_new (MinimumLength required_input) memory_words profile word_trits
        JumpRotateIoHaltProjection source)))))"

subsection \<open>Code jumps inside the source\<close>

record SourceBackedCodeJumpPrefix =
  cjp_code_pointer :: u32
  cjp_data_pointer :: u32
  cjp_decoded :: u8
  cjp_jumps :: usize
  cjp_shadow :: "u32 list"

text \<open>The mutable shadow of the source is returned beside the two pointers.\<close>

definition advance_source_backed_code_jump ::
  "u32 list \<Rightarrow> u32 \<Rightarrow> u32 \<Rightarrow>
    ProfileWidthVerificationError + ((u32 \<times> u32) \<times> u32 list)" where
  "advance_source_backed_code_jump shadow data_ptr memory_words =
    and_then (ok_or JumpCodeProjection (get shadow data_ptr)) (\<lambda>target_word.
    and_then (ok_or JumpCodeProjection (get shadow target_word)) (\<lambda>target_cell.
    and_then (ok_or JumpCodeProjection (encrypt_profile_cell target_cell)) (\<lambda>encrypted.
    and_then (ok_or GeometryInvariant (checked_add U32_MAX target_word 1)) (\<lambda>next_code.
      if get shadow next_code = None then Inl JumpCodeProjection
      else
    and_then (next_address JumpCodeProjection data_ptr memory_words) (\<lambda>next_data.
    and_then (ok_or JumpCodeProjection (get shadow target_word)) (\<lambda>_.
      Inr ((next_code, next_data), shadow[target_word := encrypted])))))))"

fun code_jump_prefix_loop ::
  "nat \<Rightarrow> u32 list \<Rightarrow> u32 \<Rightarrow> u32 \<Rightarrow> usize \<Rightarrow> u32 \<Rightarrow>
    ProfileWidthVerificationError + SourceBackedCodeJumpPrefix" where
  "code_jump_prefix_loop 0 shadow code_ptr data_ptr jumps memory_words = Inl JumpCodeProjection"
| "code_jump_prefix_loop (Suc n) shadow code_ptr data_ptr jumps memory_words =
    and_then (ok_or JumpCodeProjection (get shadow code_ptr)) (\<lambda>cell.
    and_then (decoded_cell cell code_ptr) (\<lambda>decoded.
      if decoded \<noteq> 105 then
        Inr \<lparr>cjp_code_pointer = code_ptr, cjp_data_pointer = data_ptr, cjp_decoded = decoded,
             cjp_jumps = jumps, cjp_shadow = shadow\<rparr>
      else
    and_then (advance_source_backed_code_jump shadow data_ptr memory_words)
      (\<lambda>((code_ptr, data_ptr), shadow).
        code_jump_prefix_loop n shadow code_ptr data_ptr (jumps + 1) memory_words)))"

definition verify_source_backed_code_jump_prefix ::
  "u8 list \<Rightarrow> u32 \<Rightarrow> ProfileWidthVerificationError + SourceBackedCodeJumpPrefix" where
  "verify_source_backed_code_jump_prefix source memory_words =
    and_then (admitted_source source memory_words) (\<lambda>shadow.
      code_jump_prefix_loop (length shadow + 1) shadow 0 0 0 memory_words)"

definition advance_source_backed_ordinary_instruction ::
  "u32 list \<Rightarrow> u32 \<Rightarrow> u32 \<Rightarrow> u32 \<Rightarrow>
    ProfileWidthVerificationError + ((u32 \<times> u32) \<times> u32 list)" where
  "advance_source_backed_ordinary_instruction shadow code_ptr data_ptr memory_words =
    and_then (ok_or JumpCodeProjection (get shadow code_ptr)) (\<lambda>cell.
    and_then (ok_or JumpCodeProjection (encrypt_profile_cell cell)) (\<lambda>encrypted.
    and_then (ok_or GeometryInvariant (checked_add U32_MAX code_ptr 1)) (\<lambda>next_code.
      if get shadow next_code = None then Inl JumpCodeProjection
      else
    and_then (next_address JumpCodeProjection data_ptr memory_words) (\<lambda>next_data.
    and_then (ok_or JumpCodeProjection (get shadow code_ptr)) (\<lambda>_.
      Inr ((next_code, next_data), shadow[code_ptr := encrypted]))))))"

definition advance_source_backed_expected_instruction ::
  "SourceBackedCodeJumpPrefix \<Rightarrow> u8 \<Rightarrow> u32 \<Rightarrow>
    ProfileWidthVerificationError + SourceBackedCodeJumpPrefix" where
  "advance_source_backed_expected_instruction prefix expected memory_words =
    (if cjp_decoded prefix \<noteq> expected
     then Inl (JumpCodeIoHaltInstruction (cjp_code_pointer prefix) (cjp_decoded prefix))
     else
    and_then (advance_source_backed_ordinary_instruction (cjp_shadow prefix) (cjp_code_pointer prefix)
      (cjp_data_pointer prefix) memory_words) (\<lambda>((code_ptr, data_ptr), shadow).
    and_then (ok_or JumpCodeProjection (get shadow code_ptr)) (\<lambda>cell.
    and_then (decoded_cell cell code_ptr) (\<lambda>decoded.
      Inr (prefix\<lparr>cjp_code_pointer := code_ptr, cjp_data_pointer := data_ptr,
        cjp_shadow := shadow, cjp_decoded := decoded\<rparr>)))))"

lemma advance_expected_Inr:
  "advance_source_backed_expected_instruction prefix expected memory_words = Inr prefix' \<Longrightarrow>
    length (cjp_shadow prefix') = length (cjp_shadow prefix) \<and>
    cjp_code_pointer prefix' = Suc (cjp_code_pointer prefix) \<and>
    cjp_code_pointer prefix' < length (cjp_shadow prefix)"
  by (auto simp: advance_source_backed_expected_instruction_def and_then_Inr_iff
      advance_source_backed_ordinary_instruction_def checked_add_def get_Some_iff
      split: if_splits)

definition verify_jump_code_halt_profile_width ::
  "ProfileDescriptor \<Rightarrow> u8 list \<Rightarrow> nat \<Rightarrow>
    ProfileWidthVerificationError + VerifiedProfileExecutionGeometry" where
  "verify_jump_code_halt_profile_width profile source word_trits =
    and_then (derived_memory_words profile word_trits) (\<lambda>memory_words.
    and_then (verify_source_backed_code_jump_prefix source memory_words) (\<lambda>prefix.
      if cjp_jumps prefix = 0 \<or> cjp_decoded prefix \<noteq> 118
      then Inl (JumpCodeHaltInstruction (cjp_code_pointer prefix) (cjp_decoded prefix))
      else Inr (vg_new Any memory_words profile word_trits JumpCodeHaltProjection source)))"

function jump_code_io_loop ::
  "ProfileDescriptor \<Rightarrow> u32 \<Rightarrow> SourceBackedCodeJumpPrefix \<Rightarrow> usize \<Rightarrow>
    ProfileWidthVerificationError + (SourceBackedCodeJumpPrefix \<times> usize)" where
  "jump_code_io_loop profile memory_words prefix required_input =
    (if cjp_decoded prefix \<noteq> 118 then
    and_then (advance_source_backed_expected_instruction prefix (pd_input_instruction profile)
      memory_words) (\<lambda>prefix'.
    and_then (advance_source_backed_expected_instruction prefix' (pd_output_instruction profile)
      memory_words) (\<lambda>prefix''.
      jump_code_io_loop profile memory_words prefix'' (required_input + 1)))
     else Inr (prefix, required_input))"
  by pat_completeness auto
termination
  by (relation "measure (\<lambda>(_, _, prefix, _). length (cjp_shadow prefix) - cjp_code_pointer prefix)")
    (auto dest!: advance_expected_Inr)

declare jump_code_io_loop.simps [simp del]

definition verify_jump_code_io_halt_profile_width ::
  "ProfileDescriptor \<Rightarrow> u8 list \<Rightarrow> nat \<Rightarrow>
    ProfileWidthVerificationError + VerifiedProfileExecutionGeometry" where
  "verify_jump_code_io_halt_profile_width profile source word_trits =
    and_then (derived_memory_words profile word_trits) (\<lambda>memory_words.
    and_then (verify_source_backed_code_jump_prefix source memory_words) (\<lambda>prefix.
      if cjp_jumps prefix = 0
      then Inl (JumpCodeIoHaltInstruction (cjp_code_pointer prefix) (cjp_decoded prefix))
      else
    and_then (jump_code_io_loop profile memory_words prefix 0) (\<lambda>(prefix, required_input).
      if required_input = 0
      then Inl (JumpCodeIoHaltInstruction (cjp_code_pointer prefix) (cjp_decoded prefix))
      else Inr (vg_new (MinimumLength required_input) memory_words profile word_trits
        JumpCodeIoHaltProjection source))))"

definition verify_source_backed_jump_rotate_projection ::
  "SourceBackedCodeJumpPrefix \<Rightarrow> ProfileExecutionGeometry \<Rightarrow> ProfileWidthVerificationError + unit" where
  "verify_source_backed_jump_rotate_projection prefix geometry =
    and_then (ok_or JumpCodeRotateProjection (get (cjp_shadow prefix) (cjp_data_pointer prefix))) (\<lambda>data.
    and_then (next_address JumpCodeRotateProjection (cjp_code_pointer prefix) (geo_memory_words geometry))
      (\<lambda>next_code.
      if cjp_data_pointer prefix = cjp_code_pointer prefix \<or> cjp_data_pointer prefix = next_code \<or>
         get (cjp_shadow prefix) next_code = None
      then Inl JumpCodeRotateProjection
      else
        let narrow_rotate = profile_rotate data (geo_word_modulus geometry);
            wide_rotate = profile_rotate data (pd_memory_words (geo_profile geometry))
        in if wide_rotate mod geo_memory_words geometry \<noteq> narrow_rotate
           then Inl JumpCodeRotateProjection
           else
    and_then (next_address JumpCodeRotateProjection (cjp_data_pointer prefix) (geo_memory_words geometry))
      (\<lambda>_.
    and_then (ok_or JumpCodeRotateProjection (get (cjp_shadow prefix) next_code)) (\<lambda>halt_cell.
    and_then (decoded_cell halt_cell next_code) (\<lambda>halt_decoded.
      if halt_decoded \<noteq> 118 then Inl (JumpCodeRotateHaltInstruction next_code halt_decoded)
      else Inr ())))))"

definition verify_jump_code_rotate_halt_profile_width ::
  "ProfileDescriptor \<Rightarrow> u8 list \<Rightarrow> nat \<Rightarrow>
    ProfileWidthVerificationError + VerifiedProfileExecutionGeometry" where
  "verify_jump_code_rotate_halt_profile_width profile source word_trits =
    and_then (derived_memory_words profile word_trits) (\<lambda>memory_words.
      let verified = vg_new Any memory_words profile word_trits JumpCodeRotateHaltProjection source
      in
    and_then (verify_source_backed_code_jump_prefix source memory_words) (\<lambda>prefix.
      if cjp_jumps prefix = 0 \<or> cjp_decoded prefix \<noteq> 42
      then Inl (JumpCodeRotateHaltInstruction (cjp_code_pointer prefix) (cjp_decoded prefix))
      else
    and_then (verify_source_backed_jump_rotate_projection prefix (vg_geometry verified)) (\<lambda>_.
      Inr verified)))"

subsection \<open>The narrowest verified width\<close>

type_synonym ProfileWidthVerifier =
  "ProfileDescriptor \<Rightarrow> u8 list \<Rightarrow> nat \<Rightarrow>
    ProfileWidthVerificationError + VerifiedProfileExecutionGeometry"

type_synonym MinimumProfileWidthVerifier =
  "ProfileDescriptor \<Rightarrow> u8 list \<Rightarrow> ProfileWidthVerificationError + VerifiedProfileExecutionGeometry"

text \<open>
  The loop over the candidate widths: a rejection \<open>retry\<close> holds of moves on to the next width,
  any other ends the search.
\<close>

fun minimum_width_loop ::
  "(ProfileWidthVerificationError \<Rightarrow> bool) \<Rightarrow> ProfileWidthVerifier \<Rightarrow> ProfileDescriptor \<Rightarrow> u8 list \<Rightarrow>
    ProfileWidthVerificationError option \<Rightarrow> nat list \<Rightarrow>
    ProfileWidthVerificationError + VerifiedProfileExecutionGeometry" where
  "minimum_width_loop retry candidate_verifier profile source missed [] =
    Inl (case missed of
      Some e \<Rightarrow> e
    | None \<Rightarrow> WidthOutOfRange (pd_word_trits profile) MINIMUM_ADAPTIVE_WORD_TRITS)"
| "minimum_width_loop retry candidate_verifier profile source missed (word_trits # widths) =
    (case candidate_verifier profile source word_trits of
      Inr admission \<Rightarrow> Inr admission
    | Inl e \<Rightarrow>
        if retry e then minimum_width_loop retry candidate_verifier profile source (Some e) widths
        else Inl e)"

definition candidate_widths :: "ProfileDescriptor \<Rightarrow> nat list" where
  "candidate_widths profile = [MINIMUM_ADAPTIVE_WORD_TRITS..<Suc (pd_word_trits profile)]"

definition verify_minimum_width ::
  "ProfileDescriptor \<Rightarrow> u8 list \<Rightarrow> ProfileWidthVerifier \<Rightarrow>
    ProfileWidthVerificationError + VerifiedProfileExecutionGeometry" where
  "verify_minimum_width profile source candidate_verifier =
    minimum_width_loop (\<lambda>e. e = Source PSourceTooLong) candidate_verifier profile source None
      (candidate_widths profile)"

definition verify_minimum_initial_halt_profile_width :: MinimumProfileWidthVerifier where
  "verify_minimum_initial_halt_profile_width profile source =
    verify_minimum_width profile source verify_initial_halt_profile_width"

definition verify_minimum_input_output_halt_profile_width :: MinimumProfileWidthVerifier where
  "verify_minimum_input_output_halt_profile_width profile source =
    verify_minimum_width profile source verify_input_output_halt_profile_width"

definition verify_minimum_input_then_halt_profile_width :: MinimumProfileWidthVerifier where
  "verify_minimum_input_then_halt_profile_width profile source =
    verify_minimum_width profile source verify_input_then_halt_profile_width"

definition verify_minimum_repeated_jump_data_profile_width :: MinimumProfileWidthVerifier where
  "verify_minimum_repeated_jump_data_profile_width profile source =
    verify_minimum_width profile source verify_repeated_jump_data_profile_width"

definition verify_minimum_straight_line_io_profile_width :: MinimumProfileWidthVerifier where
  "verify_minimum_straight_line_io_profile_width profile source =
    verify_minimum_width profile source verify_straight_line_io_profile_width"

definition verify_minimum_jump_code_halt_profile_width :: MinimumProfileWidthVerifier where
  "verify_minimum_jump_code_halt_profile_width profile source =
    verify_minimum_width profile source verify_jump_code_halt_profile_width"

definition verify_minimum_jump_code_io_halt_profile_width :: MinimumProfileWidthVerifier where
  "verify_minimum_jump_code_io_halt_profile_width profile source =
    verify_minimum_width profile source verify_jump_code_io_halt_profile_width"

definition verify_minimum_jump_code_rotate_halt_profile_width :: MinimumProfileWidthVerifier where
  "verify_minimum_jump_code_rotate_halt_profile_width profile source =
    minimum_width_loop (\<lambda>e. e = Source PSourceTooLong \<or> e = JumpCodeRotateProjection)
      verify_jump_code_rotate_halt_profile_width profile source None (candidate_widths profile)"

definition verify_minimum_jump_crazy_halt_profile_width :: MinimumProfileWidthVerifier where
  "verify_minimum_jump_crazy_halt_profile_width profile source =
    verify_minimum_width profile source verify_jump_crazy_halt_profile_width"

definition verify_minimum_jump_crazy_io_halt_profile_width :: MinimumProfileWidthVerifier where
  "verify_minimum_jump_crazy_io_halt_profile_width profile source =
    verify_minimum_width profile source verify_jump_crazy_io_halt_profile_width"

definition verify_minimum_jump_data_halt_profile_width :: MinimumProfileWidthVerifier where
  "verify_minimum_jump_data_halt_profile_width profile source =
    verify_minimum_width profile source verify_jump_data_halt_profile_width"

definition verify_minimum_jump_rotate_halt_profile_width :: MinimumProfileWidthVerifier where
  "verify_minimum_jump_rotate_halt_profile_width profile source =
    minimum_width_loop (\<lambda>e. e = Source PSourceTooLong \<or> e = JumpRotateProjection)
      verify_jump_rotate_halt_profile_width profile source None (candidate_widths profile)"

definition verify_minimum_jump_rotate_crazy_halt_profile_width :: MinimumProfileWidthVerifier where
  "verify_minimum_jump_rotate_crazy_halt_profile_width profile source =
    minimum_width_loop (\<lambda>e. e = Source PSourceTooLong \<or> e = JumpRotateProjection)
      verify_jump_rotate_crazy_halt_profile_width profile source None (candidate_widths profile)"

definition verify_minimum_jump_rotate_io_halt_profile_width :: MinimumProfileWidthVerifier where
  "verify_minimum_jump_rotate_io_halt_profile_width profile source =
    minimum_width_loop (\<lambda>e. e = Source PSourceTooLong \<or> e = JumpRotateProjection)
      verify_jump_rotate_io_halt_profile_width profile source None (candidate_widths profile)"

definition verify_minimum_noop_prefix_halt_profile_width :: MinimumProfileWidthVerifier where
  "verify_minimum_noop_prefix_halt_profile_width profile source =
    verify_minimum_width profile source verify_noop_prefix_halt_profile_width"

fun select_loop ::
  "ProfileDescriptor \<Rightarrow> u8 list \<Rightarrow> u8 list \<Rightarrow> MinimumProfileWidthVerifier list \<Rightarrow>
    VerifiedProfileExecutionGeometry option \<Rightarrow> VerifiedProfileExecutionGeometry option" where
  "select_loop profile source input [] selected = selected"
| "select_loop profile source input (verifier # verifiers) selected =
    (case verifier profile source of
      Inl _ \<Rightarrow> select_loop profile source input verifiers selected
    | Inr candidate \<Rightarrow>
        if geo_word_trits (vg_geometry candidate) \<ge> pd_word_trits profile \<or>
           \<not> admits_input (vg_geometry candidate) input
        then select_loop profile source input verifiers selected
        else if (case selected of
               None \<Rightarrow> True
             | Some current \<Rightarrow>
                 geo_word_trits (vg_geometry candidate) < geo_word_trits (vg_geometry current))
        then select_loop profile source input verifiers (Some candidate)
        else select_loop profile source input verifiers selected)"

definition select_minimum_verified_profile_width ::
  "ProfileDescriptor \<Rightarrow> u8 list \<Rightarrow> u8 list \<Rightarrow> VerifiedProfileExecutionGeometry option" where
  "select_minimum_verified_profile_width profile source input =
    select_loop profile source input
      [verify_minimum_initial_halt_profile_width,
       verify_minimum_input_output_halt_profile_width,
       verify_minimum_input_then_halt_profile_width,
       verify_minimum_jump_code_halt_profile_width,
       verify_minimum_jump_code_io_halt_profile_width,
       verify_minimum_jump_code_rotate_halt_profile_width,
       verify_minimum_jump_crazy_halt_profile_width,
       verify_minimum_jump_crazy_io_halt_profile_width,
       verify_minimum_jump_data_halt_profile_width,
       verify_minimum_jump_rotate_halt_profile_width,
       verify_minimum_jump_rotate_crazy_halt_profile_width,
       verify_minimum_jump_rotate_io_halt_profile_width,
       verify_minimum_noop_prefix_halt_profile_width,
       verify_minimum_repeated_jump_data_profile_width,
       verify_minimum_straight_line_io_profile_width] None"

subsection \<open>Machines over a verified geometry\<close>

definition pfrom_verified_source ::
  "(usize \<Rightarrow> bool) \<Rightarrow> VerifiedProfileExecutionGeometry \<Rightarrow> u8 list \<Rightarrow>
    ProfileMachineError + ProfileMachine" where
  "pfrom_verified_source reserve verified input =
    (let geometry = vg_geometry verified
     in if \<not> admits_input geometry input then Inl VerifiedInputRejected
        else
          let profile = geo_profile geometry;
              source = vg_source verified
          in
    and_then (map_err ProfileFailure
      (preflight_profile profile (source_word_requirement source) SAFE_RUST_PROFILED)) (\<lambda>_.
    and_then (map_err Load (load_profile reserve geometry source)) (\<lambda>memory.
      Inr \<lparr>pm_geometry = geometry, pm_input = input, pm_input_cursor = 0,
           pm_memory = memory, pm_output = [], pm_profile = profile,
           pm_registers = profile_registers_default, pm_termination = None\<rparr>)))"

definition pfrom_adaptive_source ::
  "(usize \<Rightarrow> bool) \<Rightarrow> ProfileDescriptor \<Rightarrow> u8 list \<Rightarrow> u8 list \<Rightarrow>
    ProfileMachineError + ProfileMachine" where
  "pfrom_adaptive_source reserve profile source input =
    (case select_minimum_verified_profile_width profile source input of
      None \<Rightarrow> pfrom_source reserve profile source input
    | Some verified \<Rightarrow>
        (case pfrom_verified_source reserve verified input of
          Inr machine \<Rightarrow> Inr machine
        | Inl _ \<Rightarrow> pfrom_source reserve profile source input))"

end
