(* ===== verification/WidthSoundness.thy ===== *)
theory WidthSoundness
  imports Lockstep WidthProof
begin

text \<open>
  The verifiers of narrow widths are sound: whatever a verifier of \<open>domain/profile_width.rs\<close>
  admits has a \<open>lockstep\<close> certificate, for every input its policy admits. The straight-line
  verifiers follow the program counter through cells the run has not yet touched (\<open>line\<close>), the
  code-jump verifiers carry an exact copy of the source region (\<open>shadowed\<close>).
\<close>

subsection \<open>The loaded image, cell by cell\<close>

function initial :: "nat \<Rightarrow> nat list \<Rightarrow> nat \<Rightarrow> nat" where
  "initial n ws i =
    (if i < length ws \<or> i < 2 then ws ! i
     else crazy_digits n (initial n ws (i - 2)) (initial n ws (i - 1)))"
  by pat_completeness auto
termination by (relation "measure (\<lambda>(_, _, i). i)") auto

declare initial.simps [simp del]

lemma initial_source [simp]: "i < length ws \<Longrightarrow> initial n ws i = ws ! i"
  by (simp add: initial.simps)

lemma initial_step:
  "length ws \<le> i \<Longrightarrow> 2 \<le> i \<Longrightarrow> initial n ws i = crazy_digits n (initial n ws (i - 2)) (initial n ws (i - 1))"
  by (subst initial.simps) simp

lemma image_initial:
  assumes "precurrence n (length ws) img" and "take (length ws) img = ws" and "2 \<le> length ws"
  shows "i < length img \<Longrightarrow> img ! i = initial n ws i"
proof (induction i rule: less_induct)
  case (less i)
  show ?case
  proof (cases "i < length ws")
    case True
    then have "img ! i = take (length ws) img ! i" by simp
    then show ?thesis using True assms(2) by simp
  next
    case False
    then have "img ! i = crazy_digits n (img ! (i - 2)) (img ! (i - 1))"
      using assms(1) less.prems by (simp add: precurrence_def)
    then show ?thesis
      using False assms(3) less.IH[of "i - 2"] less.IH[of "i - 1"] less.prems
      by (simp add: initial_step)
  qed
qed

lemma initial_lt:
  assumes "2 \<le> length ws" and "\<forall>w \<in> set ws. w < 3 ^ n"
  shows "initial n ws i < 3 ^ n"
proof (cases "i < length ws")
  case False
  then show ?thesis using assms(1) by (simp add: initial_step crazy_digits_lt)
qed (use assms in simp)

lemma initial_projects:
  assumes "n \<le> N" and "2 \<le> length ws" and "\<forall>w \<in> set ws. w < 3 ^ n"
  shows "initial n ws i = initial N ws i mod 3 ^ n"
proof (induction i rule: less_induct)
  case (less i)
  show ?case
  proof (cases "i < length ws")
    case False
    then show ?thesis
      using assms(1,2) less.IH[of "i - 2"] less.IH[of "i - 1"]
      by (simp add: initial_step crazy_digits_prefix)
  qed (use assms in simp)
qed

lemma initial_memory_loop_initial:
  "n \<le> 20 \<Longrightarrow> 1 \<le> j \<Longrightarrow> length ws \<le> Suc j \<Longrightarrow>
    initial_memory_loop k (initial n ws (j - 1)) (initial n ws j) n = initial n ws (j + k)"
proof (induction k arbitrary: j)
  case (Suc k)
  have "profile_crazy (initial n ws (j - 1)) (initial n ws j) n = initial n ws (Suc j)"
    using Suc.prems initial_step[of ws "Suc j" n] by (simp add: profile_crazy_digits)
  then show ?case using Suc.IH[of "Suc j"] Suc.prems by simp
qed simp

lemma verified_initial_memory_word_initial:
  assumes "n \<le> 20" and "2 \<le> length ws"
  shows "verified_initial_memory_word ws n a = Inr (initial n ws a)"
proof (cases "a < length ws")
  case True
  then show ?thesis by (simp add: verified_initial_memory_word_def)
next
  case False
  have ne: "ws \<noteq> []" using assms(2) by auto
  have l: "last ws = initial n ws (length ws - 1)" "ws ! (length ws - 2) = initial n ws (length ws - 1 - 1)"
    using assms(2) ne by (simp_all add: last_conv_nth numeral_2_eq_2)
  have "initial_memory_loop (a + 1 - length ws) (ws ! (length ws - 2)) (last ws) n =
      initial n ws (length ws - 1 + (a + 1 - length ws))"
    unfolding l using assms by (intro initial_memory_loop_initial) simp_all
  moreover have "length ws - 1 + (a + 1 - length ws) = a" using False assms(2) by simp
  ultimately show ?thesis
    using False assms(2) ne by (simp add: verified_initial_memory_word_def)
qed

subsection \<open>One width inside another\<close>

definition width_pair :: "nat \<Rightarrow> nat \<Rightarrow> u8 \<Rightarrow> u8 \<Rightarrow> nat list \<Rightarrow> bool" where
  "width_pair n N i q ws \<longleftrightarrow> 6 \<le> n \<and> n \<le> N \<and> N \<le> 20 \<and> {i, q} = {47, 60} \<and> i \<noteq> q \<and>
    2 \<le> length ws \<and> length ws \<le> 3 ^ n \<and> (\<forall>w \<in> set ws. graphical w)"

lemma width_pair_operations:
  assumes "width_pair n N i q ws"
  shows "am_operation i q 118 = OpHalt" "am_operation i q 111 = OpNop" "am_operation i q 112 = OpCrazy"
    "am_operation i q 42 = OpRotate" "am_operation i q 105 = OpJumpCode" "am_operation i q 106 = OpJumpData"
    "am_operation i q i = OpInput" "am_operation i q q = OpOutput"
proof -
  have "i = 47 \<and> q = 60 \<or> i = 60 \<and> q = 47"
    using assms by (auto simp: width_pair_def doubleton_eq_iff)
  then show "am_operation i q 118 = OpHalt" "am_operation i q 111 = OpNop"
    "am_operation i q 112 = OpCrazy" "am_operation i q 42 = OpRotate"
    "am_operation i q 105 = OpJumpCode" "am_operation i q 106 = OpJumpData"
    "am_operation i q i = OpInput" "am_operation i q q = OpOutput"
    by (auto simp: am_operation_def)
qed

lemma width_pair_words:
  assumes "width_pair n N i q ws"
  shows "w \<in> set ws \<Longrightarrow> w < 3 ^ n" and "n \<le> 20" and "\<forall>w \<in> set ws. w < 3 ^ n"
proof -
  show all: "\<forall>w \<in> set ws. w < 3 ^ n"
    using assms pow3_bounds[of n] by (force simp: width_pair_def graphical_def)
  then show "w \<in> set ws \<Longrightarrow> w < 3 ^ n" by blast
  show "n \<le> 20" using assms by (simp add: width_pair_def)
qed

lemma decoded_cell_Inr:
  "decoded_cell cell p = Inr b \<Longrightarrow>
    graphical cell \<and> b = XLAT1 ! ((cell - 33 + p mod 94) mod 94)"
proof -
  assume d: "decoded_cell cell p = Inr b"
  then have "graphical cell"
    by (auto simp: decoded_cell_def decode_profile_instruction_def decode_profile_value_def
        graphical_def split: if_splits)
  then show ?thesis
    using d by (simp add: decoded_cell_def decode_profile_instruction_def decode_profile_some graphical_def)
qed

subsection \<open>Following untouched cells\<close>

text \<open>
  \<open>line W p d\<close>: the counters are at \<open>p\<close> and \<open>d\<close>, and every cell from \<open>p\<close> on, but for the
  ones in \<open>W\<close> that were written as data, still holds the word the loader put there.
\<close>

definition line ::
  "nat \<Rightarrow> nat \<Rightarrow> nat list \<Rightarrow> nat set \<Rightarrow> nat \<Rightarrow> nat \<Rightarrow> amachine \<Rightarrow> amachine \<Rightarrow> bool" where
  "line n N ws W p d s s' \<longleftrightarrow> agrees n s s' \<and> am_c s = p \<and> am_d s = d \<and>
    (\<forall>k < 3 ^ n. p \<le> k \<longrightarrow> k \<notin> W \<longrightarrow> am_mem s k = initial n ws k \<and> am_mem s' k = initial N ws k)"

lemma lineD:
  assumes "line n N ws W p d s s'"
  shows "agrees n s s'" "am_c s = p" "am_c s' = p" "am_d s = d" "am_d s' = d" "p < 3 ^ n" "d < 3 ^ n"
    "am_in s' = am_in s"
    "p \<le> k \<Longrightarrow> k < 3 ^ n \<Longrightarrow> k \<notin> W \<Longrightarrow> am_mem s k = initial n ws k"
    "p \<le> k \<Longrightarrow> k < 3 ^ n \<Longrightarrow> k \<notin> W \<Longrightarrow> am_mem s' k = initial N ws k"
  using assms by (auto simp: line_def agrees_def)

lemma line_cell:
  assumes "line n N ws W p d s s'" and "width_pair n N i q ws" and "p < length ws" and "p \<notin> W"
    and "decoded_cell (ws ! p) p = Inr b"
  shows "graphical (am_mem s (am_c s))" "am_mem s' (am_c s) = am_mem s (am_c s)" "am_decoded s = b"
  using lineD[OF assms(1)] assms(3,4) decoded_cell_Inr[OF assms(5)] assms(2)
  by (simp_all add: am_decoded_def)

lemma line_halt:
  assumes "line n N ws W p d s s'" and "width_pair n N i q ws" and "p < length ws" and "p \<notin> W"
    and "decoded_cell (ws ! p) p = Inr 118"
  shows "lockstep n N i q s s'"
  using line_cell[OF assms] lineD(1)[OF assms(1)] width_pair_operations(1)[OF assms(2)]
  by (intro lockstep_stop) simp_all

definition writes_data :: "operation \<Rightarrow> bool" where
  "writes_data opn \<longleftrightarrow> opn = OpCrazy \<or> opn = OpRotate"

lemma effect_simps:
  "am_c (am_effect k opn s) = (if opn = OpJumpCode then am_mem s (am_d s) else am_c s)"
  "am_d (am_effect k opn s) = (if opn = OpJumpData then am_mem s (am_d s) else am_d s)"
  "\<not> writes_data opn \<Longrightarrow> am_mem (am_effect k opn s) = am_mem s"
  "j \<noteq> am_d s \<Longrightarrow> am_mem (am_effect k opn s) j = am_mem s j"
  by (cases opn; simp add: Let_def writes_data_def split: list.splits)+

lemma after_simps:
  "am_a (after k opn s) = am_a (am_effect k opn s)" "am_in (after k opn s) = am_in (am_effect k opn s)"
  "am_d (after k opn s) = Suc (am_d (am_effect k opn s)) mod 3 ^ k"
  "am_c (after k opn s) = Suc (am_c (am_effect k opn s)) mod 3 ^ k"
  "j \<noteq> am_c (am_effect k opn s) \<Longrightarrow> am_mem (after k opn s) j = am_mem (am_effect k opn s) j"
  by (simp_all add: after_def am_seal_def)

lemma line_step:
  assumes line: "line n N ws W p d s s'" and pair: "width_pair n N i q ws" and p: "p < length ws" "p \<notin> W"
    and dec: "decoded_cell (ws ! p) p = Inr b" and opn: "am_operation i q b = opn"
    and forward: "opn \<noteq> OpHalt" "opn \<noteq> OpJumpCode" and keeps: "keeps n N opn s s'"
    and W': "W' = (if writes_data opn then insert d W else W)" "p \<notin> W'"
    and d': "d' = (if opn = OpJumpData then am_mem s d else d)"
    and room: "Suc p < 3 ^ n" "Suc d' < 3 ^ n"
    and rest: "line n N ws W' (Suc p) (Suc d') (after n opn s) (after N opn s') \<Longrightarrow>
      lockstep n N i q (after n opn s) (after N opn s')"
  shows "lockstep n N i q s s'"
proof -
  note cell = line_cell[OF line pair p dec]
  note l = lineD[OF line]
  have n: "6 \<le> n" "n \<le> N" using pair by (simp_all add: width_pair_def)
  have pow: "(3::nat) ^ n \<le> 3 ^ N" using n by simp
  let ?t = "am_effect n opn s" and ?t' = "am_effect N opn s'"
  have c: "am_c ?t = p" "am_c ?t' = p" and d: "am_d ?t = d'"
    using l(2-5) forward d' by (simp_all add: effect_simps)
  have target: "writes_data opn \<Longrightarrow> d \<noteq> p" using W' by auto
  have same: "am_mem ?t p = am_mem s p" "am_mem ?t' p = am_mem s' p"
    using target l(4,5) by (cases "writes_data opn"; simp add: effect_simps)+
  have t: "agrees n ?t ?t'" by (rule effect_agrees[OF l(1) n(2,1) keeps])
  have seal: "agrees n (after n opn s) (after N opn s')"
    unfolding after_def using t n c d same room cell l(2) by (intro seal_agrees) simp_all
  have untouched: "am_mem (after n opn s) k = am_mem s k" "am_mem (after N opn s') k = am_mem s' k"
    if "Suc p \<le> k" "k \<notin> W'" for k
  proof -
    have "am_mem ?t k = am_mem s k" "am_mem ?t' k = am_mem s' k"
      using that(2) l(4,5) W' by (cases "writes_data opn"; simp add: effect_simps)+
    then show "am_mem (after n opn s) k = am_mem s k" "am_mem (after N opn s') k = am_mem s' k"
      using that(1) c by (simp_all add: after_simps)
  qed
  have next_line: "line n N ws W' (Suc p) (Suc d') (after n opn s) (after N opn s')"
    unfolding line_def
    using seal room c d untouched l(9,10) W' by (auto simp: after_simps split: if_splits)
  show ?thesis
  proof (rule lockstep_next[OF l(1) n(2,1) cell(1,2) _ forward(1) keeps refl])
    show "am_operation i q (am_decoded s) = opn" using opn cell(3) by simp
    show "graphical (am_mem ?t (am_c ?t))" "am_mem ?t' (am_c ?t) = am_mem ?t (am_c ?t)"
      using c same cell l(2) by simp_all
    show "Suc (am_c ?t) < 3 ^ n" "Suc (am_d ?t) < 3 ^ n" using c d room by simp_all
    show "lockstep n N i q (after n opn s) (after N opn s')" by (rule rest[OF next_line])
  qed
qed

text \<open>The instructions of the straight-line families, one rule each.\<close>

lemma line_nop:
  assumes "line n N ws W p d s s'" and pair: "width_pair n N i q ws" and "p < length ws" and "p \<notin> W"
    and "decoded_cell (ws ! p) p = Inr 111" and "Suc p < 3 ^ n" and "Suc d < 3 ^ n"
    and "\<And>t t'. line n N ws W (Suc p) (Suc d) t t' \<Longrightarrow> am_in t = am_in s \<Longrightarrow> am_a t = am_a s \<Longrightarrow>
      am_a t' = am_a s' \<Longrightarrow> lockstep n N i q t t'"
  shows "lockstep n N i q s s'"
  using assms(4,6,7)
  by (intro line_step[OF assms(1-5) width_pair_operations(2)[OF pair], of W d])
    (auto simp: writes_data_def after_simps intro!: assms(8))

lemma line_input:
  assumes "line n N ws W p d s s'" and pair: "width_pair n N i q ws" and "p < length ws" and "p \<notin> W"
    and "decoded_cell (ws ! p) p = Inr i" and "Suc p < 3 ^ n" and "Suc d < 3 ^ n"
    and "\<And>t t'. line n N ws W (Suc p) (Suc d) t t' \<Longrightarrow> am_in t = tl (am_in s) \<Longrightarrow>
      (am_in s \<noteq> [] \<Longrightarrow> am_a t = am_a t') \<Longrightarrow> lockstep n N i q t t'"
  shows "lockstep n N i q s s'"
  using assms(4,6,7) lineD(8)[OF assms(1)]
  by (intro line_step[OF assms(1-5) width_pair_operations(7)[OF pair], of W d])
    (auto simp: writes_data_def after_simps intro!: assms(8) split: list.splits)

lemma line_output:
  assumes "line n N ws W p d s s'" and pair: "width_pair n N i q ws" and "p < length ws" and "p \<notin> W"
    and "decoded_cell (ws ! p) p = Inr q" and "Suc p < 3 ^ n" and "Suc d < 3 ^ n" and "am_a s = am_a s'"
    and "\<And>t t'. line n N ws W (Suc p) (Suc d) t t' \<Longrightarrow> am_in t = am_in s \<Longrightarrow> am_a t = am_a s \<Longrightarrow>
      am_a t' = am_a s' \<Longrightarrow> lockstep n N i q t t'"
  shows "lockstep n N i q s s'"
  using assms(4,6,7,8)
  by (intro line_step[OF assms(1-5) width_pair_operations(8)[OF pair], of W d])
    (auto simp: writes_data_def after_simps intro!: assms(9))

lemma line_crazy:
  assumes "line n N ws W p d s s'" and pair: "width_pair n N i q ws" and "p < length ws" and "p \<notin> W"
    and "decoded_cell (ws ! p) p = Inr 112" and "Suc p < 3 ^ n" and "Suc d < 3 ^ n" and "d \<noteq> p"
    and "\<And>t t'. line n N ws (insert d W) (Suc p) (Suc d) t t' \<Longrightarrow> am_in t = am_in s \<Longrightarrow>
      lockstep n N i q t t'"
  shows "lockstep n N i q s s'"
  using assms(4,6,7,8)
  by (intro line_step[OF assms(1-5) width_pair_operations(3)[OF pair], of "insert d W" d])
    (auto simp: writes_data_def after_simps Let_def intro!: assms(9))

lemma line_rotate:
  assumes "line n N ws W p d s s'" and pair: "width_pair n N i q ws" and "p < length ws" and "p \<notin> W"
    and "decoded_cell (ws ! p) p = Inr 42" and "Suc p < 3 ^ n" and "Suc d < 3 ^ n" and "d \<noteq> p"
    and "keeps n N OpRotate s s'"
    and "\<And>t t'. line n N ws (insert d W) (Suc p) (Suc d) t t' \<Longrightarrow> am_in t = am_in s \<Longrightarrow>
      lockstep n N i q t t'"
  shows "lockstep n N i q s s'"
  using assms(4,6,7,8,9)
  by (intro line_step[OF assms(1-5) width_pair_operations(4)[OF pair], of "insert d W" d])
    (auto simp: writes_data_def after_simps Let_def intro!: assms(10))

lemma line_jump_data:
  assumes "line n N ws W p d s s'" and pair: "width_pair n N i q ws" and "p < length ws" and "p \<notin> W"
    and "decoded_cell (ws ! p) p = Inr 106" and "Suc p < 3 ^ n" and "Suc (am_mem s d) < 3 ^ n"
    and "am_mem s d = am_mem s' d"
    and "\<And>t t'. line n N ws W (Suc p) (Suc (am_mem s d)) t t' \<Longrightarrow> am_in t = am_in s \<Longrightarrow>
      am_a t = am_a s \<Longrightarrow> am_a t' = am_a s' \<Longrightarrow> lockstep n N i q t t'"
  shows "lockstep n N i q s s'"
  using assms(4,6,7,8) lineD(4,5)[OF assms(1)]
  by (intro line_step[OF assms(1-5) width_pair_operations(6)[OF pair], of W "am_mem s d"])
    (auto simp: writes_data_def after_simps intro!: assms(9))

lemma drop_Cons:
  "cell # cells = drop p ws \<Longrightarrow> p < length ws \<and> cell = ws ! p \<and> cells = drop (Suc p) ws"
proof -
  assume c: "cell # cells = drop p ws"
  then have p: "p < length ws" by (metis drop_all leI list.discI)
  then show ?thesis using c Cons_nth_drop_Suc[OF p] by (metis list.inject)
qed

lemma drop_more: "cells = drop p ws \<Longrightarrow> cells \<noteq> [] \<Longrightarrow> p < length ws"
  by (metis drop_all leI)

lemma u32_position_Inr [simp]: "u32_position p = Inr p' \<longleftrightarrow> p \<le> U32_MAX \<and> p' = p"
  by (auto simp: u32_position_def)

subsection \<open>The straight-line verifiers\<close>

lemma noop_prefix_lockstep:
  assumes pair: "width_pair n N i q ws"
  shows "cells = drop p ws \<Longrightarrow> noop_prefix_loop p k cells = Inr () \<Longrightarrow> line n N ws {} p p s s' \<Longrightarrow>
    lockstep n N i q s s'"
proof (induction cells arbitrary: p k s s')
  case Nil
  then show ?case by simp
next
  case (Cons cell cells)
  have len: "length ws \<le> 3 ^ n" using pair by (simp add: width_pair_def)
  note c = drop_Cons[OF Cons.prems(1)]
  obtain b where b: "decoded_cell (ws ! p) p = Inr b"
    and go: "if b = 111 then noop_prefix_loop (p + 1) (k + 1) cells = Inr () else b = 118"
    using Cons.prems(2) c by (auto simp: and_then_Inr_iff split: if_splits)
  show ?case
  proof (cases "b = 111")
    case True
    then have "noop_prefix_loop (Suc p) (k + 1) cells = Inr ()" using go by simp
    moreover from this have "cells \<noteq> []" by auto
    then have "Suc p < length ws" using c drop_more[of cells "Suc p" ws] by simp
    ultimately show ?thesis
      using Cons.prems(3) b True c len
      by (intro line_nop[OF Cons.prems(3) pair]) (auto intro: Cons.IH[of "Suc p"])
  next
    case False
    then show ?thesis using Cons.prems(3) b go c by (intro line_halt[OF Cons.prems(3) pair]) auto
  qed
qed

lemma straight_line_mono:
  "straight_line_loop profile p k required cells = Inr r \<Longrightarrow> required \<le> r"
  by (induction profile p k required cells rule: straight_line_loop.induct)
    (auto simp: and_then_Inr_iff split: if_splits)

lemma straight_line_lockstep:
  assumes pair: "width_pair n N i q ws"
    and ops: "pd_input_instruction profile = i" "pd_output_instruction profile = q"
  shows "cells = drop p ws \<Longrightarrow> straight_line_loop profile p k required cells = Inr r \<Longrightarrow>
    line n N ws {} p p s s' \<Longrightarrow> am_in s = drop k input \<Longrightarrow> (k \<le> length input \<Longrightarrow> am_a s = am_a s') \<Longrightarrow>
    r \<le> length input \<Longrightarrow> lockstep n N i q s s'"
proof (induction cells arbitrary: p k required s s')
  case Nil
  then show ?case by simp
next
  case (Cons cell cells)
  have len: "length ws \<le> 3 ^ n" and ops_distinct: "i \<noteq> 118" "q \<noteq> 118" "i \<noteq> q"
    using pair by (auto simp: width_pair_def doubleton_eq_iff)
  note c = drop_Cons[OF Cons.prems(1)]
  obtain b where b: "decoded_cell (ws ! p) p = Inr b"
    and rest: "b = 118 \<or> (\<exists>k' required'. straight_line_loop profile (Suc p) k' required' cells = Inr r \<and>
      (b = i \<and> k' = Suc k \<or> b = q \<and> k' = k \<and> k \<le> required' \<or> b = 111 \<and> k' = k))"
    using Cons.prems(2) c ops by (fastforce simp: and_then_Inr_iff split: if_splits)
  show ?case
  proof (cases "b = 118")
    case True
    then show ?thesis using Cons.prems(3) b c by (intro line_halt[OF Cons.prems(3) pair]) auto
  next
    case False
    then obtain k' required' where loop: "straight_line_loop profile (Suc p) k' required' cells = Inr r"
      and k': "b = i \<and> k' = Suc k \<or> b = q \<and> k' = k \<and> k \<le> required' \<or> b = 111 \<and> k' = k"
      using rest by blast
    then have "cells \<noteq> []" by auto
    then have room: "Suc p < 3 ^ n" using c drop_more[of cells "Suc p" ws] len by simp
    note go = Cons.IH[OF _ loop]
    from k' consider "b = i" "k' = Suc k" | "b = q" "k' = k" "k \<le> required'" | "b = 111" "k' = k" by blast
    then show ?thesis
    proof cases
      case 1
      show ?thesis
      proof (rule line_input[OF Cons.prems(3) pair])
        fix t t'
        assume t: "line n N ws {} (Suc p) (Suc p) t t'" "am_in t = tl (am_in s)"
          "am_in s \<noteq> [] \<Longrightarrow> am_a t = am_a t'"
        show "lockstep n N i q t t'"
          using c t 1 Cons.prems(4,6) by (intro go) (auto simp: tl_drop drop_Suc)
      qed (use c b 1 room in auto)
    next
      case 2
      have "k \<le> length input" using 2(3) straight_line_mono[OF loop] Cons.prems(6) by simp
      then show ?thesis
        using c b 2 room Cons.prems(4-6)
        by (intro line_output[OF Cons.prems(3) pair]) (auto intro!: go)
    next
      case 3
      then show ?thesis
        using c b room Cons.prems(4-6)
        by (intro line_nop[OF Cons.prems(3) pair]) (auto intro!: go)
    qed
  qed
qed

lemma next_address_Inr:
  "next_address e v m = Inr a \<longleftrightarrow> a = Suc v \<and> a < m \<and> a \<le> U32_MAX"
  by (auto simp: next_address_def option_filter_def checked_add_def split: if_splits option.splits)

lemma line_initial:
  assumes "line n N ws W p d s s'" and "p \<le> d" and "d \<notin> W"
  shows "am_mem s d = initial n ws d" "am_mem s' d = initial N ws d"
  using lineD[OF assms(1)] assms(2,3) by simp_all

lemma repeated_jump_lockstep:
  assumes pair: "width_pair n N i q ws"
    and context_is: "context = \<lparr>rjc_canonical_word_trits = N, rjc_memory_words = 3 ^ n,
      rjc_narrow = ws, rjc_wide = ws, rjc_word_trits = n\<rparr>"
  shows "cells = drop p ws \<Longrightarrow> repeated_jump_loop context p d k cells = Inr () \<Longrightarrow>
    line n N ws {} p d s s' \<Longrightarrow> lockstep n N i q s s'"
proof (induction cells arbitrary: p d k s s')
  case Nil
  then show ?case by simp
next
  case (Cons cell cells)
  have len: "length ws \<le> 3 ^ n" "2 \<le> length ws" and N: "N \<le> 20" using pair by (simp_all add: width_pair_def)
  note c = drop_Cons[OF Cons.prems(1)]
  obtain b where b: "decoded_cell (ws ! p) p = Inr b"
    and go: "b = 118 \<or> b = 106 \<and> (\<exists>d'. advance_verified_jump_address context d p = Inr d' \<and>
      repeated_jump_loop context (Suc p) d' (Suc k) cells = Inr ())"
    using Cons.prems(2) c by (auto simp: and_then_Inr_iff split: if_splits)
  show ?case
  proof (cases "b = 118")
    case True
    then show ?thesis using Cons.prems(3) b c by (intro line_halt[OF Cons.prems(3) pair]) auto
  next
    case False
    then obtain d' where jump: "b = 106" "advance_verified_jump_address context d p = Inr d'"
      and loop: "repeated_jump_loop context (Suc p) d' (Suc k) cells = Inr ()"
      using go by blast
    from loop have "cells \<noteq> []" by auto
    then have room: "Suc p < 3 ^ n" using c drop_more[of cells "Suc p" ws] len by simp
    have d': "p \<le> d" "initial n ws d = initial N ws d" "d' = Suc (initial n ws d)" "d' < 3 ^ n"
      using jump(2) c width_pair_words(2)[OF pair] N len
      by (auto simp: advance_verified_jump_address_def context_is and_then_Inr_iff next_address_Inr
          verified_initial_memory_word_initial split: if_splits)
    note word = line_initial[OF Cons.prems(3) d'(1)]
    show ?thesis
      using b c jump(1) room d' word
      by (intro line_jump_data[OF Cons.prems(3) pair]) (auto intro!: Cons.IH[OF _ loop])
  qed
qed

subsection \<open>The crazy and rotate families\<close>

text \<open>Data is written behind the program counter or beyond the source, never into code ahead.\<close>

definition ahead_clear :: "nat list \<Rightarrow> nat set \<Rightarrow> nat \<Rightarrow> bool" where
  "ahead_clear ws W p \<longleftrightarrow> (\<forall>k \<in> W. p \<le> k \<longrightarrow> length ws \<le> k)"

lemma ahead_clear_simps:
  "ahead_clear ws {} p" "ahead_clear ws W p \<Longrightarrow> ahead_clear ws W (Suc p)"
  "ahead_clear ws W p \<Longrightarrow> p < length ws \<Longrightarrow> p \<notin> W"
  "ahead_clear ws W p \<Longrightarrow> d \<le> p \<or> length ws \<le> d \<Longrightarrow> ahead_clear ws (insert d W) (Suc p)"
  by (auto simp: ahead_clear_def)

lemma guarded_crazy_Inr:
  assumes "advance_guarded_crazy_projection ws g (d, a, a') p = Inr state"
  shows "d \<noteq> p \<and> (d < p \<or> length ws \<le> d) \<and> fst state = Suc d \<and> Suc d < geo_memory_words g"
  using assms
  by (auto simp: advance_guarded_crazy_projection_def and_then_Inr_iff Let_def next_address_Inr
      split: if_splits)

lemma guarded_crazy_line:
  assumes line: "line n N ws W p (fst state) s s'" and pair: "width_pair n N i q ws"
    and p: "p < length ws" "Suc p < 3 ^ n" and clear: "ahead_clear ws W p"
    and dec: "decoded_cell (ws ! p) p = Inr 112"
    and adv: "advance_guarded_crazy_projection ws g state p = Inr state'"
    and g: "geo_memory_words g = 3 ^ n"
    and rest: "\<And>W' t t'. line n N ws W' (Suc p) (fst state') t t' \<Longrightarrow> ahead_clear ws W' (Suc p) \<Longrightarrow>
      am_in t = am_in s \<Longrightarrow> lockstep n N i q t t'"
  shows "lockstep n N i q s s'"
proof -
  obtain d a a' where state: "state = (d, a, a')" by (cases state)
  note d = guarded_crazy_Inr[OF adv[unfolded state]]
  have clear': "ahead_clear ws (insert d W) (Suc p)"
    using clear d by (intro ahead_clear_simps(4)) auto
  show ?thesis
  proof (rule line_crazy[OF _ pair p(1) _ dec p(2)])
    show "line n N ws W p d s s'" using line state by simp
    show "p \<notin> W" by (rule ahead_clear_simps(3)[OF clear p(1)])
    show "Suc d < 3 ^ n" "d \<noteq> p" using d g by simp_all
    show "lockstep n N i q t t'"
      if "line n N ws (insert d W) (Suc p) (Suc d) t t'" "am_in t = am_in s" for t t'
      using rest[OF _ clear' that(2)] that(1) d by simp
  qed
qed

lemma jump_crazy_lockstep:
  assumes pair: "width_pair n N i q ws" and g: "geo_memory_words g = 3 ^ n"
  shows "cells = drop p ws \<Longrightarrow> jump_crazy_loop ws g p state k cells = Inr () \<Longrightarrow>
    line n N ws W p (fst state) s s' \<Longrightarrow> ahead_clear ws W p \<Longrightarrow> lockstep n N i q s s'"
proof (induction cells arbitrary: p state k W s s')
  case Nil
  then show ?case by simp
next
  case (Cons cell cells)
  have len: "length ws \<le> 3 ^ n" using pair by (simp add: width_pair_def)
  note c = drop_Cons[OF Cons.prems(1)]
  obtain b where b: "decoded_cell (ws ! p) p = Inr b"
    and go: "b = 118 \<or> b = 112 \<and> (\<exists>state'. advance_guarded_crazy_projection ws g state p = Inr state' \<and>
      jump_crazy_loop ws g (Suc p) state' (Suc k) cells = Inr ())"
    using Cons.prems(2) c by (auto simp: and_then_Inr_iff split: if_splits)
  show ?case
  proof (cases "b = 118")
    case True
    then show ?thesis
      using b c ahead_clear_simps(3)[OF Cons.prems(4)] by (intro line_halt[OF Cons.prems(3) pair]) auto
  next
    case False
    then obtain state' where adv: "b = 112" "advance_guarded_crazy_projection ws g state p = Inr state'"
      and loop: "jump_crazy_loop ws g (Suc p) state' (Suc k) cells = Inr ()"
      using go by blast
    from loop have "cells \<noteq> []" by auto
    then have room: "Suc p < 3 ^ n" using c drop_more[of cells "Suc p" ws] len by simp
    show ?thesis
      using c b adv(1) room Cons.IH[OF _ loop]
      by (intro guarded_crazy_line[OF Cons.prems(3) pair _ _ Cons.prems(4) _ adv(2) g]) auto
  qed
qed

text \<open>The data jump every program of these families begins with.\<close>

lemma jump_first_line:
  assumes line: "line n N ws {} 0 0 s s'" and pair: "width_pair n N i q ws"
    and jump: "jump_initial_address reject ws (3 ^ n) = Inr d"
    and rest: "\<And>t t'. line n N ws {} 1 d t t' \<Longrightarrow> am_in t = am_in s \<Longrightarrow> lockstep n N i q t t'"
  shows "lockstep n N i q s s'"
proof -
  have len: "2 \<le> length ws" "length ws \<le> 3 ^ n" using pair by (simp_all add: width_pair_def)
  have d: "decoded_cell (ws ! 0) 0 = Inr 106" "d = Suc (ws ! 0)" "d < 3 ^ n"
    using jump len by (auto simp: jump_initial_address_def and_then_Inr_iff next_address_Inr
        get_Some_iff split: if_splits)
  have "0 < length ws" using len by linarith
  then have word: "am_mem s 0 = ws ! 0" "am_mem s' 0 = ws ! 0" using line_initial[OF line] by simp_all
  show ?thesis
    using len d word by (intro line_jump_data[OF line pair]) (auto intro!: rest)
qed

lemma jump_crazy_prefix_le:
  "jump_crazy_prefix_loop admitted g state p k = Inr (state', p', k') \<Longrightarrow> p \<le> p'"
proof (induction admitted g state p k rule: jump_crazy_prefix_loop.induct)
  case (1 admitted g state p k)
  from "1.prems" show ?case
    by (subst (asm) jump_crazy_prefix_loop.simps)
      (auto simp: and_then_Inr_iff split: option.splits if_splits dest!: "1.IH")
qed

lemma jump_crazy_prefix_lockstep:
  assumes pair: "width_pair n N i q ws" and g: "geo_memory_words g = 3 ^ n"
  shows "jump_crazy_prefix_loop admitted g state p k = Inr (state', p', k') \<Longrightarrow> admitted = ws \<Longrightarrow>
    p' < length ws \<Longrightarrow> line n N ws W p (fst state) s s' \<Longrightarrow> ahead_clear ws W p \<Longrightarrow> am_in s = input \<Longrightarrow>
    (\<And>W' t t'. line n N ws W' p' (fst state') t t' \<Longrightarrow> ahead_clear ws W' p' \<Longrightarrow> am_in t = input \<Longrightarrow>
      lockstep n N i q t t') \<Longrightarrow> geo_memory_words g = 3 ^ n \<Longrightarrow> lockstep n N i q s s'"
proof (induction admitted g state p k arbitrary: W s s' rule: jump_crazy_prefix_loop.induct)
  case (1 admitted g state p k)
  have len: "length ws \<le> 3 ^ n" using pair by (simp add: width_pair_def)
  note le = jump_crazy_prefix_le[OF "1.prems"(1)]
  then have p: "p < length ws" using "1.prems"(3) by simp
  then have cell: "get admitted p = Some (ws ! p)" using "1.prems"(2) by simp
  obtain b where b: "decoded_cell (ws ! p) p = Inr b" "p \<le> U32_MAX"
    and go: "b \<noteq> 112 \<and> (state', p', k') = (state, p, k) \<or>
      b = 112 \<and> (\<exists>next. advance_guarded_crazy_projection admitted g state p = Inr next \<and>
        jump_crazy_prefix_loop admitted g next (Suc p) (Suc k) = Inr (state', p', k'))"
    using "1.prems"(1) cell
    by (subst (asm) jump_crazy_prefix_loop.simps) (auto simp: and_then_Inr_iff split: if_splits)
  show ?case
  proof (cases "b = 112")
    case False
    then show ?thesis using go "1.prems"(4-7) by auto
  next
    case True
    then obtain nxt where adv: "advance_guarded_crazy_projection admitted g state p = Inr nxt"
      and loop: "jump_crazy_prefix_loop admitted g nxt (Suc p) (Suc k) = Inr (state', p', k')"
      using go by blast
    have room: "Suc p < 3 ^ n" using jump_crazy_prefix_le[OF loop] "1.prems"(3) len by simp
    show ?thesis
    proof (rule guarded_crazy_line[OF "1.prems"(4) pair p room "1.prems"(5) _ _ "1.prems"(8)])
      show "decoded_cell (ws ! p) p = Inr 112" using b(1) True by simp
      show "advance_guarded_crazy_projection ws g state p = Inr nxt" using adv "1.prems"(2) by simp
      show "lockstep n N i q t t'"
        if "line n N ws W' (Suc p) (fst nxt) t t'" "ahead_clear ws W' (Suc p)" "am_in t = am_in s" for W' t t'
      proof (rule "1.IH"[OF cell _ _ _ adv])
        show "u32_position p = Inr p" "decoded_cell (ws ! p) p = Inr b" "\<not> b \<noteq> 112"
          using b True by simp_all
        show "am_in t = input" using that(3) "1.prems"(6) by simp
      qed (use loop "1.prems" that in simp_all)
    qed
  qed
qed

text \<open>An input followed by an output, when there is a byte to read.\<close>

lemma io_pair_line:
  assumes line: "line n N ws W p d s s'" and pair: "width_pair n N i q ws" and clear: "ahead_clear ws W p"
    and dec: "decoded_cell (ws ! p) p = Inr i" "decoded_cell (ws ! Suc p) (Suc p) = Inr q"
    and room: "Suc (Suc p) < length ws" "Suc (Suc d) < 3 ^ n" and byte: "am_in s \<noteq> []"
    and rest: "\<And>t t'. line n N ws W (Suc (Suc p)) (Suc (Suc d)) t t' \<Longrightarrow> am_in t = tl (am_in s) \<Longrightarrow>
      lockstep n N i q t t'"
  shows "lockstep n N i q s s'"
proof -
  have len: "length ws \<le> 3 ^ n" using pair by (simp add: width_pair_def)
  have out: "p \<notin> W" "Suc p \<notin> W"
    using ahead_clear_simps(3)[OF clear] ahead_clear_simps(3)[OF ahead_clear_simps(2)[OF clear]] room
    by simp_all
  show ?thesis
  proof (rule line_input[OF line pair _ out(1) dec(1)])
    fix t t'
    assume t: "line n N ws W (Suc p) (Suc d) t t'" "am_in t = tl (am_in s)" "am_in s \<noteq> [] \<Longrightarrow> am_a t = am_a t'"
    show "lockstep n N i q t t'"
      using room len byte t(2,3) by (intro line_output[OF t(1) pair _ out(2) dec(2)]) (auto intro!: rest)
  qed (use room len in auto)
qed

lemma io_halt_line:
  assumes "line n N ws W p d s s'" and pair: "width_pair n N i q ws" and clear: "ahead_clear ws W p"
    and "decoded_cell (ws ! p) p = Inr i" "decoded_cell (ws ! Suc p) (Suc p) = Inr q"
    and "decoded_cell (ws ! Suc (Suc p)) (Suc (Suc p)) = Inr 118"
    and room: "Suc (Suc p) < length ws" "Suc (Suc d) < 3 ^ n" and "am_in s \<noteq> []"
  shows "lockstep n N i q s s'"
proof (rule io_pair_line[OF assms(1-5,7,8,9)])
  have out: "Suc (Suc p) \<notin> W"
    using ahead_clear_simps(3)[OF ahead_clear_simps(2)[OF ahead_clear_simps(2)[OF clear]] room(1)] .
  show "lockstep n N i q t t'" if "line n N ws W (Suc (Suc p)) (Suc (Suc d)) t t'" for t t'
    using line_halt[OF that pair room(1) out] assms(6) by simp
qed

lemma jump_crazy_io_suffix_lockstep:
  assumes pair: "width_pair n N i q ws" and g: "geo_memory_words g = 3 ^ n"
    "pd_input_instruction (geo_profile g) = i" "pd_output_instruction (geo_profile g) = q"
    and suffix: "verify_jump_crazy_io_suffix ws g d p = Inr ()"
    and line: "line n N ws W p d s s'" and clear: "ahead_clear ws W p" and byte: "am_in s \<noteq> []"
  shows "lockstep n N i q s s'"
proof -
  have ops: "i \<noteq> 118" "q \<noteq> 118" using pair by (auto simp: width_pair_def doubleton_eq_iff)
  have "decoded_cell (ws ! p) p = Inr i" "decoded_cell (ws ! Suc p) (Suc p) = Inr q"
    "decoded_cell (ws ! Suc (Suc p)) (Suc (Suc p)) = Inr 118" "Suc (Suc p) < length ws"
    "Suc (Suc d) < 3 ^ n"
    using suffix ops g
    by (auto simp: verify_jump_crazy_io_suffix_def and_then_Inr_iff next_address_Inr get_Some_iff
        split: if_splits)
  then show ?thesis using io_halt_line[OF line pair clear] byte by blast
qed

definition geometry_pair :: "nat \<Rightarrow> nat \<Rightarrow> u8 \<Rightarrow> u8 \<Rightarrow> ProfileExecutionGeometry \<Rightarrow> bool" where
  "geometry_pair n N i q g \<longleftrightarrow> geo_memory_words g = 3 ^ n \<and> geo_word_trits g = n \<and>
    pd_word_trits (geo_profile g) = N \<and> pd_memory_words (geo_profile g) = 3 ^ N \<and>
    pd_input_instruction (geo_profile g) = i \<and> pd_output_instruction (geo_profile g) = q"

lemma rotate_projection_Inr:
  assumes pair: "width_pair n N i q ws" and g: "geometry_pair n N i q g"
    and vals: "jump_rotate_projection_values ws g d = Inr v"
  shows "length ws \<le> d \<and>
    rotate_digits n (initial n ws d) = rotate_digits N (initial N ws d) mod 3 ^ n"
proof -
  have N: "1 \<le> n" "n \<le> 20" "1 \<le> N" "N \<le> 20" "n \<le> N" "2 \<le> length ws" using pair by (simp_all add: width_pair_def)
  have lt: "initial n ws d < 3 ^ n" "initial N ws d < 3 ^ N"
    using initial_lt[OF N(6)] width_pair_words(1)[OF pair] power_increasing[OF N(5), of "3::nat"]
    by (force intro: initial_lt[OF N(6)] less_le_trans)+
  show ?thesis
    using vals N g
    by (auto simp: jump_rotate_projection_values_def and_then_Inr_iff Let_def geometry_pair_def
        verified_initial_memory_word_initial geo_word_modulus_def profile_rotate_digits lt split: if_splits)
qed

lemma rotate_line:
  assumes line: "line n N ws {} p d s s'" and pair: "width_pair n N i q ws" and g: "geometry_pair n N i q g"
    and p: "p < length ws" "Suc p < 3 ^ n" and dec: "decoded_cell (ws ! p) p = Inr 42"
    and vals: "jump_rotate_projection_values ws g d = Inr v"
    and adv: "advance_jump_rotate_address d (geo_memory_words g) = Inr d'"
    and rest: "\<And>t t'. line n N ws {d} (Suc p) d' t t' \<Longrightarrow> ahead_clear ws {d} (Suc p) \<Longrightarrow>
      am_in t = am_in s \<Longrightarrow> lockstep n N i q t t'"
  shows "lockstep n N i q s s'"
proof -
  note v = rotate_projection_Inr[OF pair g vals]
  have d: "d' = Suc d" "Suc d < 3 ^ n" "p \<le> d" "d \<noteq> p"
    using adv g v p by (auto simp: advance_jump_rotate_address_def next_address_Inr geometry_pair_def)
  have "keeps n N OpRotate s s'"
    using line_initial[OF line d(3)] lineD(4,5)[OF line] v by simp
  moreover have "ahead_clear ws {d} (Suc p)" using v by (simp add: ahead_clear_def)
  ultimately show ?thesis
    using d p by (intro line_rotate[OF line pair p(1) _ dec]) (auto intro!: rest)
qed

lemma noop_step_line:
  assumes line: "line n N ws W p d s s'" and pair: "width_pair n N i q ws" and clear: "ahead_clear ws W p"
    and p: "p < length ws" "Suc p < 3 ^ n" and dec: "decoded_cell (ws ! p) p = Inr 111"
    and adv: "advance_jump_rotate_address d (3 ^ n) = Inr d'"
    and rest: "\<And>t t'. line n N ws W (Suc p) d' t t' \<Longrightarrow> ahead_clear ws W (Suc p) \<Longrightarrow>
      am_in t = am_in s \<Longrightarrow> lockstep n N i q t t'"
  shows "lockstep n N i q s s'"
proof -
  have "d' = Suc d" "Suc d < 3 ^ n" using adv by (auto simp: advance_jump_rotate_address_def next_address_Inr)
  then show ?thesis
    using p ahead_clear_simps(2)[OF clear] by (intro line_nop[OF line pair p(1) ahead_clear_simps(3)[OF clear p(1)] dec])
      (auto intro!: rest)
qed

lemma jump_rotate_halt_lockstep:
  assumes pair: "width_pair n N i q ws" and g: "geometry_pair n N i q g"
  shows "cells = drop p ws \<Longrightarrow> jump_rotate_halt_loop ws g p d rotated cells = Inr () \<Longrightarrow>
    line n N ws W p d s s' \<Longrightarrow> ahead_clear ws W p \<Longrightarrow> (\<not> rotated \<Longrightarrow> W = {}) \<Longrightarrow> lockstep n N i q s s'"
proof (induction cells arbitrary: p d rotated W s s')
  case Nil
  then show ?case by simp
next
  case (Cons cell cells)
  have len: "length ws \<le> 3 ^ n" using pair by (simp add: width_pair_def)
  have gm: "geo_memory_words g = 3 ^ n" using g by (simp add: geometry_pair_def)
  note c = drop_Cons[OF Cons.prems(1)]
  obtain b where b: "decoded_cell (ws ! p) p = Inr b" and go: "b = 118 \<or>
      (\<not> rotated \<and> b = 111 \<and> (\<exists>d'. advance_jump_rotate_address d (3 ^ n) = Inr d' \<and>
        jump_rotate_halt_loop ws g (Suc p) d' rotated cells = Inr ())) \<or>
      (\<not> rotated \<and> b = 42 \<and> (\<exists>v d'. jump_rotate_projection_values ws g d = Inr v \<and>
        advance_jump_rotate_address d (3 ^ n) = Inr d' \<and>
        jump_rotate_halt_loop ws g (Suc p) d' True cells = Inr ()))"
    using Cons.prems(2) c gm by (auto simp: and_then_Inr_iff verify_jump_rotate_projection_def split: if_splits)
  from go consider "b = 118"
    | d' where "\<not> rotated" "b = 111" "advance_jump_rotate_address d (3 ^ n) = Inr d'"
        "jump_rotate_halt_loop ws g (Suc p) d' rotated cells = Inr ()"
    | v d' where "\<not> rotated" "b = 42" "jump_rotate_projection_values ws g d = Inr v"
        "advance_jump_rotate_address d (3 ^ n) = Inr d'"
        "jump_rotate_halt_loop ws g (Suc p) d' True cells = Inr ()" by blast
  then show ?case
  proof cases
    case 1
    then show ?thesis
      using b c ahead_clear_simps(3)[OF Cons.prems(4)] by (intro line_halt[OF Cons.prems(3) pair]) auto
  next
    case 2
    from 2(4) have "cells \<noteq> []" by auto
    then have room: "Suc p < 3 ^ n" using c drop_more[of cells "Suc p" ws] len by simp
    show ?thesis
      using b c 2(1,2) room Cons.prems(5)
      by (intro noop_step_line[OF Cons.prems(3) pair Cons.prems(4) _ room _ 2(3)])
        (auto intro!: Cons.IH[OF _ 2(4)])
  next
    case 3
    from 3(5) have "cells \<noteq> []" by auto
    then have room: "Suc p < 3 ^ n" using c drop_more[of cells "Suc p" ws] len by simp
    have line: "line n N ws {} p d s s'" using Cons.prems(3,5) 3(1) by simp
    show ?thesis
      using b c 3(2,4) gm
      by (intro rotate_line[OF line pair g _ room _ 3(3)]) (auto intro!: Cons.IH[OF _ 3(5)])
  qed
qed

lemma jump_rotate_crazy_suffix_lockstep:
  assumes pair: "width_pair n N i q ws" and g: "geometry_pair n N i q g"
  shows "cells = drop p ws \<Longrightarrow> jump_rotate_crazy_suffix_loop ws g state p k noop cells = Inr () \<Longrightarrow>
    line n N ws W p (fst state) s s' \<Longrightarrow> ahead_clear ws W p \<Longrightarrow> lockstep n N i q s s'"
proof (induction cells arbitrary: p state k noop W s s')
  case Nil
  then show ?case by simp
next
  case (Cons cell cells)
  have len: "length ws \<le> 3 ^ n" using pair by (simp add: width_pair_def)
  have gm: "geo_memory_words g = 3 ^ n" using g by (simp add: geometry_pair_def)
  note c = drop_Cons[OF Cons.prems(1)]
  obtain b where b: "decoded_cell (ws ! p) p = Inr b" and go: "b = 118 \<or>
      (b = 112 \<and> (\<exists>state'. advance_guarded_crazy_projection ws g state p = Inr state' \<and>
        jump_rotate_crazy_suffix_loop ws g state' (Suc p) (Suc k) noop cells = Inr ())) \<or>
      (b = 111 \<and> (\<exists>d'. advance_jump_rotate_address (fst state) (3 ^ n) = Inr d' \<and>
        jump_rotate_crazy_suffix_loop ws g (d', snd state) (Suc p) k True cells = Inr ()))"
    using Cons.prems(2) c gm by (auto simp: and_then_Inr_iff split: if_splits)
  from go consider "b = 118"
    | state' where "b = 112" "advance_guarded_crazy_projection ws g state p = Inr state'"
        "jump_rotate_crazy_suffix_loop ws g state' (Suc p) (Suc k) noop cells = Inr ()"
    | d' where "b = 111" "advance_jump_rotate_address (fst state) (3 ^ n) = Inr d'"
        "jump_rotate_crazy_suffix_loop ws g (d', snd state) (Suc p) k True cells = Inr ()" by blast
  then show ?case
  proof cases
    case 1
    then show ?thesis
      using b c ahead_clear_simps(3)[OF Cons.prems(4)] by (intro line_halt[OF Cons.prems(3) pair]) auto
  next
    case 2
    from 2(3) have "cells \<noteq> []" by auto
    then have room: "Suc p < 3 ^ n" using c drop_more[of cells "Suc p" ws] len by simp
    show ?thesis
      using c b 2(1) room Cons.IH[OF _ 2(3)]
      by (intro guarded_crazy_line[OF Cons.prems(3) pair _ _ Cons.prems(4) _ 2(2) gm]) auto
  next
    case 3
    from 3(3) have "cells \<noteq> []" by auto
    then have room: "Suc p < 3 ^ n" using c drop_more[of cells "Suc p" ws] len by simp
    show ?thesis
      using b c 3(1) room
      by (intro noop_step_line[OF Cons.prems(3) pair Cons.prems(4) _ room _ 3(2)])
        (auto intro!: Cons.IH[OF _ 3(3)])
  qed
qed

lemma jump_rotate_crazy_lockstep:
  assumes pair: "width_pair n N i q ws" and g: "geometry_pair n N i q g"
  shows "cells = drop p ws \<Longrightarrow> jump_rotate_crazy_loop ws g p d cells = Inr () \<Longrightarrow>
    line n N ws {} p d s s' \<Longrightarrow> lockstep n N i q s s'"
proof (induction cells arbitrary: p d s s')
  case Nil
  then show ?case by simp
next
  case (Cons cell cells)
  have len: "length ws \<le> 3 ^ n" using pair by (simp add: width_pair_def)
  have gm: "geo_memory_words g = 3 ^ n" using g by (simp add: geometry_pair_def)
  note c = drop_Cons[OF Cons.prems(1)]
  obtain b where b: "decoded_cell (ws ! p) p = Inr b" and go:
      "(b = 111 \<and> (\<exists>d'. advance_jump_rotate_address d (3 ^ n) = Inr d' \<and>
        jump_rotate_crazy_loop ws g (Suc p) d' cells = Inr ())) \<or>
      (b = 42 \<and> (\<exists>a a' d'. jump_rotate_projection_values ws g d = Inr (a, a') \<and>
        advance_jump_rotate_address d (3 ^ n) = Inr d' \<and>
        verify_jump_rotate_crazy_suffix ws g (d', a, a') (Suc p) = Inr ()))"
    using Cons.prems(2) c gm by (auto simp: and_then_Inr_iff split: if_splits)
  from go consider d' where "b = 111" "advance_jump_rotate_address d (3 ^ n) = Inr d'"
        "jump_rotate_crazy_loop ws g (Suc p) d' cells = Inr ()"
    | a a' d' where "b = 42" "jump_rotate_projection_values ws g d = Inr (a, a')"
        "advance_jump_rotate_address d (3 ^ n) = Inr d'"
        "jump_rotate_crazy_suffix_loop ws g (d', a, a') (Suc p) 0 False (drop (Suc p) ws) = Inr ()"
    by (auto simp: verify_jump_rotate_crazy_suffix_def)
  then show ?case
  proof cases
    case 1
    from 1(3) have "cells \<noteq> []" by auto
    then have room: "Suc p < 3 ^ n" using c drop_more[of cells "Suc p" ws] len by simp
    show ?thesis
      using b c 1(1) room
      by (intro noop_step_line[OF Cons.prems(3) pair ahead_clear_simps(1) _ room _ 1(2)])
        (auto intro!: Cons.IH[OF _ 1(3)])
  next
    case 2
    from 2(4) have "drop (Suc p) ws \<noteq> []" by (metis Inr_Inl_False jump_rotate_crazy_suffix_loop.simps(1))
    then have room: "Suc p < 3 ^ n" using len by simp
    show ?thesis
      using b c 2(1,3) gm jump_rotate_crazy_suffix_lockstep[OF pair g refl 2(4)]
      by (intro rotate_line[OF Cons.prems(3) pair g _ room _ 2(2)]) auto
  qed
qed

lemma jump_rotate_io_decoded_at_Inr:
  "jump_rotate_io_decoded_at ws p = Inr (b, r) \<longleftrightarrow>
    p \<le> U32_MAX \<and> p < length ws \<and> decoded_cell (ws ! p) p = Inr b \<and> r = p"
  by (auto simp: jump_rotate_io_decoded_at_def and_then_Inr_iff get_Some_iff)

lemma jump_rotate_io_suffix_step:
  assumes "jump_rotate_io_suffix_loop ws g d p k = Inr r"
  obtains "p < length ws" "decoded_cell (ws ! p) p = Inr 118" "r = k"
  | d' where "p < length ws" "decoded_cell (ws ! p) p = Inr (pd_input_instruction (geo_profile g))"
      "Suc p < length ws"
      "decoded_cell (ws ! Suc p) (Suc p) = Inr (pd_output_instruction (geo_profile g))"
      "d' = Suc (Suc d)" "d' < geo_memory_words g" "jump_rotate_io_suffix_loop ws g d' (Suc (Suc p)) (Suc k) = Inr r"
  using assms
  by (subst (asm) jump_rotate_io_suffix_loop.simps)
    (auto simp: and_then_Inr_iff jump_rotate_io_decoded_at_Inr advance_jump_rotate_address_def
      next_address_Inr split: if_splits)

lemma jump_rotate_io_suffix_bounds:
  "jump_rotate_io_suffix_loop admitted g d p k = Inr r \<Longrightarrow> p < length admitted \<and> k \<le> r"
proof (induction "length admitted - p" arbitrary: d p k rule: less_induct)
  case less
  from less.prems show ?case
  proof (rule jump_rotate_io_suffix_step)
    fix d'
    assume "p < length admitted" "jump_rotate_io_suffix_loop admitted g d' (Suc (Suc p)) (Suc k) = Inr r"
    moreover from this have "length admitted - Suc (Suc p) < length admitted - p" by simp
    ultimately have "Suc k \<le> r" using less.hyps by blast
    with \<open>p < length admitted\<close> show ?thesis by simp
  qed simp
qed

lemma jump_rotate_io_suffix_lockstep:
  assumes pair: "width_pair n N i q ws" and g: "geometry_pair n N i q g"
  shows "jump_rotate_io_suffix_loop ws g d p k = Inr r \<Longrightarrow> line n N ws W p d s s' \<Longrightarrow>
    ahead_clear ws W p \<Longrightarrow> am_in s = drop k input \<Longrightarrow> r \<le> length input \<Longrightarrow> lockstep n N i q s s'"
proof (induction "length ws - p" arbitrary: d p k s s' rule: less_induct)
  case less
  from less.prems(1) show ?case
  proof (rule jump_rotate_io_suffix_step)
    assume "p < length ws" "decoded_cell (ws ! p) p = Inr 118"
    then show ?thesis
      using ahead_clear_simps(3)[OF less.prems(3)] by (intro line_halt[OF less.prems(2) pair]) auto
  next
    fix d'
    assume p: "p < length ws" "decoded_cell (ws ! p) p = Inr (pd_input_instruction (geo_profile g))"
      "decoded_cell (ws ! Suc p) (Suc p) = Inr (pd_output_instruction (geo_profile g))"
      "d' = Suc (Suc d)" "d' < geo_memory_words g"
      and loop: "jump_rotate_io_suffix_loop ws g d' (Suc (Suc p)) (Suc k) = Inr r"
    have b: "Suc (Suc p) < length ws" "Suc k \<le> r" using jump_rotate_io_suffix_bounds[OF loop] by simp_all
    have byte: "am_in s \<noteq> []" using less.prems(4,5) b by simp
    have ops: "pd_input_instruction (geo_profile g) = i" "pd_output_instruction (geo_profile g) = q"
      "geo_memory_words g = 3 ^ n" using g by (simp_all add: geometry_pair_def)
    show ?thesis
    proof (rule io_pair_line[OF less.prems(2) pair less.prems(3) _ _ b(1) _ byte])
      fix t t'
      assume t: "line n N ws W (Suc (Suc p)) (Suc (Suc d)) t t'" "am_in t = tl (am_in s)"
      show "lockstep n N i q t t'"
      proof (rule less.hyps[OF _ loop])
        show "am_in t = drop (Suc k) input" using t(2) less.prems(4) by (simp add: tl_drop drop_Suc)
        show "ahead_clear ws W (Suc (Suc p))" by (intro ahead_clear_simps(2) less.prems(3))
      qed (use p t less.prems in auto)
    qed (use p ops in auto)
  qed
qed

lemma jump_rotate_io_lockstep:
  assumes pair: "width_pair n N i q ws" and g: "geometry_pair n N i q g"
  shows "jump_rotate_io_loop ws g d p = Inr r \<Longrightarrow> line n N ws {} p d s s' \<Longrightarrow> am_in s = input \<Longrightarrow>
    r \<le> length input \<Longrightarrow> lockstep n N i q s s'"
proof (induction "length ws - p" arbitrary: d p s s' rule: less_induct)
  case less
  have len: "length ws \<le> 3 ^ n" using pair by (simp add: width_pair_def)
  have gm: "geo_memory_words g = 3 ^ n" using g by (simp add: geometry_pair_def)
  obtain b where p: "p < length ws" and b: "decoded_cell (ws ! p) p = Inr b" and go:
      "(b = 111 \<and> (\<exists>d'. advance_jump_rotate_address d (3 ^ n) = Inr d' \<and>
        jump_rotate_io_loop ws g d' (Suc p) = Inr r)) \<or>
      (b = 42 \<and> (\<exists>v d'. jump_rotate_projection_values ws g d = Inr v \<and>
        advance_jump_rotate_address d (3 ^ n) = Inr d' \<and>
        jump_rotate_io_suffix_loop ws g d' (Suc p) 0 = Inr r))"
    using less.prems(1) gm
    by (subst (asm) jump_rotate_io_loop.simps)
      (auto simp: and_then_Inr_iff get_Some_iff verify_jump_rotate_projection_def
        verify_jump_rotate_io_suffix_def split: option.splits if_splits)
  from go consider d' where "b = 111" "advance_jump_rotate_address d (3 ^ n) = Inr d'"
      "jump_rotate_io_loop ws g d' (Suc p) = Inr r"
    | v d' where "b = 42" "jump_rotate_projection_values ws g d = Inr v"
      "advance_jump_rotate_address d (3 ^ n) = Inr d'"
      "jump_rotate_io_suffix_loop ws g d' (Suc p) 0 = Inr r" by blast
  then show ?case
  proof cases
    case 1
    have "Suc p < length ws"
      using 1(3) by (subst (asm) jump_rotate_io_loop.simps) (auto simp: get_Some_iff split: option.splits)
    then have room: "Suc p < 3 ^ n" using len by simp
    show ?thesis
      using b 1(1) room p less.prems(3,4)
      by (intro noop_step_line[OF less.prems(2) pair ahead_clear_simps(1) p room _ 1(2)])
        (auto intro!: less.hyps[OF _ 1(3)])
  next
    case 2
    have room: "Suc p < 3 ^ n" using jump_rotate_io_suffix_bounds[OF 2(4)] len by simp
    show ?thesis
      using b 2(1,3) gm less.prems(3,4)
      by (intro rotate_line[OF less.prems(2) pair g p room _ 2(2)])
        (auto intro!: jump_rotate_io_suffix_lockstep[OF pair g 2(4)])
  qed
qed

subsection \<open>Code jumps inside an exact copy of the source\<close>

definition shadowed ::
  "nat \<Rightarrow> nat list \<Rightarrow> nat \<Rightarrow> nat \<Rightarrow> amachine \<Rightarrow> amachine \<Rightarrow> bool" where
  "shadowed n sh c d s s' \<longleftrightarrow> agrees n s s' \<and> am_c s = c \<and> am_d s = d \<and> length sh \<le> 3 ^ n \<and>
    (\<forall>k < length sh. am_mem s k = sh ! k \<and> am_mem s' k = sh ! k)"

lemma shadowedD:
  assumes "shadowed n sh c d s s'"
  shows "agrees n s s'" "am_c s = c" "am_c s' = c" "am_d s = d" "am_d s' = d" "length sh \<le> 3 ^ n"
    "am_in s' = am_in s"
    "k < length sh \<Longrightarrow> am_mem s k = sh ! k" "k < length sh \<Longrightarrow> am_mem s' k = sh ! k"
  using assms by (auto simp: shadowed_def agrees_def)

lemma shadow_cell:
  assumes "shadowed n sh c d s s'" and "c < length sh" and "decoded_cell (sh ! c) c = Inr b"
  shows "graphical (am_mem s (am_c s))" "am_mem s' (am_c s) = am_mem s (am_c s)" "am_decoded s = b"
  using shadowedD[OF assms(1)] assms(2) decoded_cell_Inr[OF assms(3)] by (simp_all add: am_decoded_def)

lemma shadow_halt:
  assumes "shadowed n sh c d s s'" and pair: "width_pair n N i q ws" and "c < length sh"
    and "decoded_cell (sh ! c) c = Inr 118"
  shows "lockstep n N i q s s'"
  using shadow_cell[OF assms(1,3,4)] shadowedD(1)[OF assms(1)] width_pair_operations(1)[OF pair]
  by (intro lockstep_stop) simp_all

lemma encrypt_profile_cell_Some:
  "encrypt_profile_cell cell = Some e \<longleftrightarrow> graphical cell \<and> e = unat (XLAT2 ! (cell - 33))"
  by (auto simp: encrypt_profile_cell_def encrypt_profile_value_def checked_sub_def GRAPHICAL_START_def
      get_Some_iff graphical_def split: option.splits if_splits)

lemma shadow_step:
  assumes sh: "shadowed n sh c d s s'" and pair: "width_pair n N i q ws" and c: "c < length sh"
    and dec: "decoded_cell (sh ! c) c = Inr b" and opn: "am_operation i q b = opn"
    and plain: "opn \<noteq> OpHalt" "opn \<noteq> OpJumpData" "\<not> writes_data opn" and keeps: "keeps n N opn s s'"
    and c': "c' = (if opn = OpJumpCode then am_mem s d else c)" "c' < length sh" "graphical (sh ! c')"
    and room: "Suc c' < 3 ^ n" "Suc d < 3 ^ n"
    and rest: "shadowed n (sh[c' := unat (XLAT2 ! (sh ! c' - 33))]) (Suc c') (Suc d)
        (after n opn s) (after N opn s') \<Longrightarrow> lockstep n N i q (after n opn s) (after N opn s')"
  shows "lockstep n N i q s s'"
proof -
  note cell = shadow_cell[OF sh c dec]
  note l = shadowedD[OF sh]
  have n: "6 \<le> n" "n \<le> N" using pair by (simp_all add: width_pair_def)
  let ?t = "am_effect n opn s" and ?t' = "am_effect N opn s'"
  have t: "agrees n ?t ?t'" by (rule effect_agrees[OF l(1) n(2,1) keeps])
  have at: "am_c ?t = c'" "am_d ?t = d" using l(2,4) c'(1) plain by (simp_all add: effect_simps)
  have at': "am_c ?t' = c'" using t at(1) unfolding agrees_def by metis
  have mem: "am_mem ?t = am_mem s" "am_mem ?t' = am_mem s'" using plain by (simp_all add: effect_simps)
  have seal: "agrees n (after n opn s) (after N opn s')"
    unfolding after_def using t n at mem l(8,9)[OF c'(2)] room by (intro seal_agrees) simp_all
  have next_shadow: "shadowed n (sh[c' := unat (XLAT2 ! (sh ! c' - 33))]) (Suc c') (Suc d)
      (after n opn s) (after N opn s')"
    unfolding shadowed_def
    using seal at at' mem l(6,8,9) room c'(2) by (auto simp: after_def am_seal_def nth_list_update)
  show ?thesis
  proof (rule lockstep_next[OF l(1) n(2,1) cell(1,2) _ plain(1) keeps refl])
    show "am_operation i q (am_decoded s) = opn" using opn cell(3) by simp
    show "graphical (am_mem ?t (am_c ?t))" "am_mem ?t' (am_c ?t) = am_mem ?t (am_c ?t)"
      using at mem l(8,9)[OF c'(2)] c'(3) by simp_all
    show "Suc (am_c ?t) < 3 ^ n" "Suc (am_d ?t) < 3 ^ n" using at room by simp_all
    show "lockstep n N i q (after n opn s) (after N opn s')" by (rule rest[OF next_shadow])
  qed
qed

lemma shadow_jump:
  assumes sh: "shadowed n sh c d s s'" and pair: "width_pair n N i q ws" and c: "c < length sh"
    and dec: "decoded_cell (sh ! c) c = Inr 105"
    and adv: "advance_source_backed_code_jump sh d (3 ^ n) = Inr ((c', d'), sh')"
    and rest: "\<And>t t'. shadowed n sh' c' d' t t' \<Longrightarrow> am_in t = am_in s \<Longrightarrow> lockstep n N i q t t'"
  shows "lockstep n N i q s s'"
proof -
  note l = shadowedD[OF sh]
  have a: "d < length sh" "sh ! d < length sh" "graphical (sh ! (sh ! d))" "c' = Suc (sh ! d)"
    "Suc (sh ! d) < length sh" "d' = Suc d" "Suc d < 3 ^ n"
    "sh' = sh[sh ! d := unat (XLAT2 ! (sh ! (sh ! d) - 33))]"
    using adv by (auto simp: advance_source_backed_code_jump_def and_then_Inr_iff get_Some_iff
        next_address_Inr encrypt_profile_cell_Some checked_Some split: if_splits)
  have d: "am_mem s d = sh ! d" "am_mem s' d = sh ! d" using l(8,9)[OF a(1)] by simp_all
  show ?thesis
  proof (rule shadow_step[OF sh pair c dec width_pair_operations(5)[OF pair]])
    show "lockstep n N i q (after n OpJumpCode s) (after N OpJumpCode s')"
      if "shadowed n (sh[sh ! d := unat (XLAT2 ! (sh ! (sh ! d) - 33))]) (Suc (sh ! d)) (Suc d)
        (after n OpJumpCode s) (after N OpJumpCode s')"
      using rest that a by (simp add: after_simps)
  qed (use a d l(4,5,6) in \<open>simp_all add: writes_data_def\<close>)
qed

lemma ordinary_Inr:
  "advance_source_backed_ordinary_instruction sh c d m = Inr ((c', d'), sh') \<Longrightarrow>
    c < length sh \<and> graphical (sh ! c) \<and> c' = Suc c \<and> Suc c < length sh \<and> d' = Suc d \<and> Suc d < m \<and>
    sh' = sh[c := unat (XLAT2 ! (sh ! c - 33))]"
  by (auto simp: advance_source_backed_ordinary_instruction_def and_then_Inr_iff get_Some_iff
      next_address_Inr encrypt_profile_cell_Some checked_Some split: if_splits)

definition at_prefix ::
  "nat \<Rightarrow> SourceBackedCodeJumpPrefix \<Rightarrow> amachine \<Rightarrow> amachine \<Rightarrow> bool" where
  "at_prefix n prefix s s' \<longleftrightarrow>
    shadowed n (cjp_shadow prefix) (cjp_code_pointer prefix) (cjp_data_pointer prefix) s s' \<and>
    cjp_code_pointer prefix < length (cjp_shadow prefix) \<and>
    decoded_cell (cjp_shadow prefix ! cjp_code_pointer prefix) (cjp_code_pointer prefix) =
      Inr (cjp_decoded prefix)"

lemma code_jump_prefix_lockstep:
  assumes pair: "width_pair n N i q ws"
  shows "code_jump_prefix_loop k sh c d j (3 ^ n) = Inr prefix \<Longrightarrow> shadowed n sh c d s s' \<Longrightarrow>
    am_in s = input \<Longrightarrow>
    (\<And>t t'. at_prefix n prefix t t' \<Longrightarrow> am_in t = input \<Longrightarrow> lockstep n N i q t t') \<Longrightarrow>
    lockstep n N i q s s'"
proof (induction k arbitrary: sh c d j s s')
  case 0
  then show ?case by simp
next
  case (Suc k)
  obtain b where c: "c < length sh" "decoded_cell (sh ! c) c = Inr b" and go: "b \<noteq> 105 \<and>
      prefix = \<lparr>cjp_code_pointer = c, cjp_data_pointer = d, cjp_decoded = b, cjp_jumps = j, cjp_shadow = sh\<rparr>
    \<or> b = 105 \<and> (\<exists>c' d' sh'. advance_source_backed_code_jump sh d (3 ^ n) = Inr ((c', d'), sh') \<and>
      code_jump_prefix_loop k sh' c' d' (Suc j) (3 ^ n) = Inr prefix)"
    using Suc.prems(1) by (fastforce simp: and_then_Inr_iff get_Some_iff split: if_splits)
  show ?case
  proof (cases "b = 105")
    case False
    then show ?thesis using c go Suc.prems(2-4) by (auto simp: at_prefix_def)
  next
    case True
    then obtain c' d' sh' where adv: "advance_source_backed_code_jump sh d (3 ^ n) = Inr ((c', d'), sh')"
      and loop: "code_jump_prefix_loop k sh' c' d' (Suc j) (3 ^ n) = Inr prefix" using go by blast
    show ?thesis
    proof (rule shadow_jump[OF Suc.prems(2) pair c(1) _ adv])
      show "decoded_cell (sh ! c) c = Inr 105" using c(2) True by simp
      show "lockstep n N i q t t'" if "shadowed n sh' c' d' t t'" "am_in t = am_in s" for t t'
        using Suc.IH[OF loop that(1)] that(2) Suc.prems(3,4) by simp
    qed
  qed
qed

lemma expected_instruction_step:
  assumes at: "at_prefix n prefix s s'" and pair: "width_pair n N i q ws"
    and adv: "advance_source_backed_expected_instruction prefix expected (3 ^ n) = Inr prefix'"
    and opn: "am_operation i q expected = opn" "opn \<noteq> OpHalt" "opn \<noteq> OpJumpData" "opn \<noteq> OpJumpCode"
      "\<not> writes_data opn" and keeps: "keeps n N opn s s'"
    and rest: "at_prefix n prefix' (after n opn s) (after N opn s') \<Longrightarrow>
      lockstep n N i q (after n opn s) (after N opn s')"
  shows "lockstep n N i q s s'"
proof -
  let ?sh = "cjp_shadow prefix" and ?c = "cjp_code_pointer prefix" and ?d = "cjp_data_pointer prefix"
  have dec: "cjp_decoded prefix = expected" and ord:
      "advance_source_backed_ordinary_instruction ?sh ?c ?d (3 ^ n) =
        Inr ((cjp_code_pointer prefix', cjp_data_pointer prefix'), cjp_shadow prefix')"
    and nxt: "cjp_code_pointer prefix' < length (cjp_shadow prefix')"
      "decoded_cell (cjp_shadow prefix' ! cjp_code_pointer prefix') (cjp_code_pointer prefix') =
        Inr (cjp_decoded prefix')"
    using adv by (auto simp: advance_source_backed_expected_instruction_def and_then_Inr_iff get_Some_iff
        split: if_splits)
  note o = ordinary_Inr[OF ord]
  note a = at[unfolded at_prefix_def]
  have len: "length ?sh \<le> 3 ^ n" using a shadowedD(6) by blast
  show ?thesis
  proof (rule shadow_step[OF a[THEN conjunct1] pair _ _ opn(1,2,3) opn(5) keeps, where c' = ?c])
    show "decoded_cell (?sh ! ?c) ?c = Inr expected" using a dec by simp
    show "lockstep n N i q (after n opn s) (after N opn s')"
      if "shadowed n (?sh[?c := unat (XLAT2 ! (?sh ! ?c - 33))]) (Suc ?c) (Suc ?d)
        (after n opn s) (after N opn s')"
      using that o nxt by (intro rest) (simp add: at_prefix_def)
  qed (use o len opn in auto)
qed

lemma jump_code_io_mono:
  "jump_code_io_loop profile m prefix k = Inr (prefix', r) \<Longrightarrow> k \<le> r \<and> cjp_decoded prefix' = 118"
proof (induction profile m prefix k rule: jump_code_io_loop.induct)
  case (1 profile m prefix k)
  from "1.prems" show ?case
    by (subst (asm) jump_code_io_loop.simps)
      (auto simp: and_then_Inr_iff split: if_splits dest!: "1.IH")
qed

lemma jump_code_io_lockstep:
  assumes pair: "width_pair n N i q ws"
    and ops: "pd_input_instruction profile = i" "pd_output_instruction profile = q"
  shows "jump_code_io_loop profile m prefix k = Inr (prefix', r) \<Longrightarrow> at_prefix n prefix s s' \<Longrightarrow>
    am_in s = drop k input \<Longrightarrow> r \<le> length input \<Longrightarrow> m = 3 ^ n \<Longrightarrow> pd_input_instruction profile = i \<Longrightarrow>
    pd_output_instruction profile = q \<Longrightarrow> lockstep n N i q s s'"
proof (induction profile m prefix k arbitrary: s s' rule: jump_code_io_loop.induct)
  case (1 profile m prefix k)
  note at = "1.prems"(2)[unfolded at_prefix_def]
  show ?case
  proof (cases "cjp_decoded prefix = 118")
    case True
    then show ?thesis using at by (intro shadow_halt[OF at[THEN conjunct1] pair]) auto
  next
    case False
    obtain mid nxt where steps:
      "advance_source_backed_expected_instruction prefix (pd_input_instruction profile) m = Inr mid"
      "advance_source_backed_expected_instruction mid (pd_output_instruction profile) m = Inr nxt"
      and loop: "jump_code_io_loop profile m nxt (k + 1) = Inr (prefix', r)"
      using "1.prems"(1) False
      by (subst (asm) jump_code_io_loop.simps) (auto simp: and_then_Inr_iff)
    have "k < length input" using jump_code_io_mono[OF loop] "1.prems"(4) by simp
    then obtain b bs where byte: "am_in s = b # bs" "bs = drop (k + 1) input"
      using "1.prems"(3) by (metis Cons_nth_drop_Suc Suc_eq_plus1)
    have byte': "am_in s' = b # bs"
      using byte(1) shadowedD(7)[OF at[THEN conjunct1]] by simp
    show ?thesis
    proof (rule expected_instruction_step[OF "1.prems"(2) pair
          steps(1)[unfolded "1.prems"(5,6)] width_pair_operations(7)[OF pair]])
      assume in_at: "at_prefix n mid (after n OpInput s) (after N OpInput s')"
      show "lockstep n N i q (after n OpInput s) (after N OpInput s')"
      proof (rule expected_instruction_step[OF in_at pair
            steps(2)[unfolded "1.prems"(5,7)] width_pair_operations(8)[OF pair]])
        show "keeps n N OpOutput (after n OpInput s) (after N OpInput s')"
          using byte byte' by (simp add: after_simps)
        assume out_at: "at_prefix n nxt (after n OpOutput (after n OpInput s))
          (after N OpOutput (after N OpInput s'))"
        show "lockstep n N i q (after n OpOutput (after n OpInput s))
          (after N OpOutput (after N OpInput s'))"
          using byte by (intro "1.IH"[OF False steps(1,2) loop out_at _ "1.prems"(4-7)])
            (simp add: after_simps)
      qed (simp_all add: writes_data_def)
    qed (simp_all add: writes_data_def)
  qed
qed

lemma jump_code_rotate_lockstep:
  assumes pair: "width_pair n N i q ws" and g: "geometry_pair n N i q g"
    and at: "at_prefix n prefix s s'" and rotate: "cjp_decoded prefix = 42"
    and proj: "verify_source_backed_jump_rotate_projection prefix g = Inr ()"
  shows "lockstep n N i q s s'"
proof -
  let ?sh = "cjp_shadow prefix" and ?c = "cjp_code_pointer prefix" and ?d = "cjp_data_pointer prefix"
  note a = at[unfolded at_prefix_def]
  note l = shadowedD[OF a[THEN conjunct1]]
  have n: "6 \<le> n" "n \<le> N" "N \<le> 20" using pair by (simp_all add: width_pair_def)
  have d: "?d < length ?sh" "?d \<noteq> ?c" "?d \<noteq> Suc ?c" "Suc ?c < length ?sh" "Suc ?d < 3 ^ n"
    "Suc ?c < 3 ^ n" "decoded_cell (?sh ! Suc ?c) (Suc ?c) = Inr 118"
    and rot: "profile_rotate (?sh ! ?d) (3 ^ N) mod 3 ^ n = profile_rotate (?sh ! ?d) (3 ^ n)"
    using proj g
    by (auto simp: verify_source_backed_jump_rotate_projection_def and_then_Inr_iff get_Some_iff
        next_address_Inr Let_def geometry_pair_def geo_word_modulus_def split: if_splits)
  note cell = shadow_cell[OF a[THEN conjunct1] a[THEN conjunct2, THEN conjunct1] a[THEN conjunct2, THEN conjunct2]]
  have word: "am_mem s ?d = ?sh ! ?d" "am_mem s' ?d = ?sh ! ?d" using l(8,9)[OF d(1)] by simp_all
  have "am_mem s ?d = am_mem s' ?d mod 3 ^ n" using l(1,6) d(1) by (simp add: agrees_def)
  then have small: "?sh ! ?d < 3 ^ n" using mod_less_divisor[of "3 ^ n" "am_mem s' ?d"] word(1) by simp
  have "?sh ! ?d < 3 ^ N" by (rule less_le_trans[OF small]) (simp add: n)
  then have keeps: "keeps n N OpRotate s s'"
    using word small rot n l(4,5) by (simp add: profile_rotate_digits)
  let ?t = "am_effect n OpRotate s" and ?t' = "am_effect N OpRotate s'"
  have mem: "j \<noteq> ?d \<Longrightarrow> am_mem ?t j = am_mem s j \<and> am_mem ?t' j = am_mem s' j" for j
    using l(4,5) by (simp add: effect_simps Let_def)
  have at': "am_c ?t = ?c" "am_d ?t = ?d" "am_c ?t' = ?c" using l(2-5) by (simp_all add: effect_simps Let_def)
  have code: "am_mem ?t ?c = ?sh ! ?c" "am_mem ?t' ?c = ?sh ! ?c" using mem[of ?c] d(2) l(8,9) a by auto
  have gr: "graphical (?sh ! ?c)" using cell(1) l(2,8) a by simp
  have t: "agrees n ?t ?t'" by (rule effect_agrees[OF l(1) n(2,1) keeps])
  have seal: "agrees n (after n OpRotate s) (after N OpRotate s')"
    unfolding after_def using t n at' code d by (intro seal_agrees) simp_all
  have c': "am_c (after n OpRotate s) = Suc ?c" using at' d by (simp add: after_simps)
  have halt: "am_mem (after n OpRotate s) (Suc ?c) = ?sh ! Suc ?c"
    "am_mem (after N OpRotate s') (Suc ?c) = ?sh ! Suc ?c"
    using at' mem[of "Suc ?c"] d l(8,9)[OF d(4)] by (simp_all add: after_simps del: am_effect.simps)
  show ?thesis
  proof (rule lockstep_next[OF l(1) n(2,1) cell(1,2) _ _ keeps refl])
    show "am_operation i q (am_decoded s) = OpRotate"
      using cell(3) rotate width_pair_operations(4)[OF pair] by simp
    show "graphical (am_mem ?t (am_c ?t))" "am_mem ?t' (am_c ?t) = am_mem ?t (am_c ?t)"
      using at' code gr by simp_all
    show "Suc (am_c ?t) < 3 ^ n" "Suc (am_d ?t) < 3 ^ n" using at' d by simp_all
    show "lockstep n N i q (after n OpRotate s) (after N OpRotate s')"
    proof (rule lockstep_stop[OF seal])
      show "graphical (am_mem (after n OpRotate s) (am_c (after n OpRotate s)))"
        using decoded_cell_Inr[OF d(7)] halt c' by simp
      show "am_mem (after N OpRotate s') (am_c (after n OpRotate s)) =
          am_mem (after n OpRotate s) (am_c (after n OpRotate s))" using halt c' by simp
      have "am_decoded (after n OpRotate s) = 118"
        using decoded_cell_Inr[OF d(7)] halt c' by (simp add: am_decoded_def)
      then show "am_operation i q (am_decoded (after n OpRotate s)) = OpHalt"
        using width_pair_operations(1)[OF pair] by simp
    qed
  qed simp
qed

end
