(* ===== verification/WidthVerifiers.thy ===== *)
theory WidthVerifiers
  imports WidthSoundness
begin

text \<open>
  Every verifier of \<open>profile_width.rs\<close> is sound: the geometry it admits comes with a certificate
  that the machine of that width and the machine of the full profile run in lockstep.
\<close>

section \<open>Every verifier is sound\<close>

text \<open>
  What an admitted geometry promises: its width, its source, and a certificate for the two
  machines loaded with that source, for every input the policy admits.
\<close>

definition sound_for ::
  "ProfileDescriptor \<Rightarrow> u8 list \<Rightarrow> VerifiedProfileExecutionGeometry \<Rightarrow> bool" where
  "sound_for profile source v \<longleftrightarrow> (\<exists>policy word_trits kind.
    v = vg_new policy (3 ^ word_trits) profile word_trits kind source \<and>
    10 \<le> word_trits \<and> word_trits \<le> pd_word_trits profile \<and> admissible (3 ^ word_trits) source \<and>
    (\<forall>s s'. line word_trits (pd_word_trits profile) (map unat (source_bytes source)) {} 0 0 s s' \<and>
        admits_input (vg_geometry v) (am_in s) \<and> am_a s = 0 \<and> am_a s' = 0 \<longrightarrow>
      lockstep word_trits (pd_word_trits profile) (pd_input_instruction profile)
        (pd_output_instruction profile) s s'))"

lemma derived_loop_Inr: "derived_loop k m = Inr r \<Longrightarrow> r = m * 3 ^ k"
  by (induction k arbitrary: m r) (force simp: and_then_Inr_iff checked_Some TERNARY_RADIX_def)+

lemma derived_memory_words_Inr:
  "derived_memory_words p w = Inr m \<Longrightarrow> m = 3 ^ w \<and> 10 \<le> w \<and> w \<le> pd_word_trits p"
  by (auto simp: derived_memory_words_def and_then_Inr_iff MINIMUM_ADAPTIVE_WORD_TRITS_def
      dest!: derived_loop_Inr split: if_splits)

lemma pow3_u32: "n \<le> 20 \<Longrightarrow> (3::nat) ^ n \<le> U32_MAX"
  using power_increasing[of n 20 "3::nat"] by (simp add: U32_MAX_def)

lemma admitted_source_Inr:
  "m \<le> U32_MAX \<Longrightarrow> admitted_source source m = Inr ws \<longleftrightarrow>
    admissible m source \<and> ws = map unat (source_bytes source)"
  by (simp add: admitted_source_def admit_profile_source_Inr)

lemma admitted_width_pair:
  assumes wf: "wf_profile p" and w: "10 \<le> w" "w \<le> pd_word_trits p" and adm: "admissible (3 ^ w) source"
  shows "width_pair w (pd_word_trits p) (pd_input_instruction p) (pd_output_instruction p)
    (map unat (source_bytes source))"
  using wf w adm
  by (auto simp: width_pair_def wf_profile_def admissible_def graphical_def word_le_nat_alt)

lemma sound_forI:
  assumes wf: "wf_profile p" and derived: "derived_memory_words p w = Inr m"
    and admitted: "admitted_source source m = Inr ws"
    and cert: "\<And>s s'. width_pair w (pd_word_trits p) (pd_input_instruction p) (pd_output_instruction p) ws \<Longrightarrow>
      geometry_pair w (pd_word_trits p) (pd_input_instruction p) (pd_output_instruction p)
        (vg_geometry (vg_new policy m p w kind source)) \<Longrightarrow> m = 3 ^ w \<Longrightarrow>
      line w (pd_word_trits p) ws {} 0 0 s s' \<Longrightarrow>
      admits_input (vg_geometry (vg_new policy m p w kind source)) (am_in s) \<Longrightarrow>
      am_a s = 0 \<Longrightarrow> am_a s' = 0 \<Longrightarrow>
      lockstep w (pd_word_trits p) (pd_input_instruction p) (pd_output_instruction p) s s'"
  shows "sound_for p source (vg_new policy m p w kind source)"
proof -
  note d = derived_memory_words_Inr[OF derived]
  have "w \<le> 20" using d wf by (simp add: wf_profile_def)
  then have a: "admissible (3 ^ w) source" "ws = map unat (source_bytes source)"
    using admitted d by (simp_all add: admitted_source_Inr pow3_u32)
  have "geometry_pair w (pd_word_trits p) (pd_input_instruction p) (pd_output_instruction p)
      (vg_geometry (vg_new policy m p w kind source))"
    using wf d by (simp add: geometry_pair_def vg_new_def wf_profile_def)
  then show ?thesis
    using cert a d admitted_width_pair[OF wf _ _ a(1)] unfolding sound_for_def by blast
qed

lemma vg_policy [simp]:
  "admits_input (vg_geometry (vg_new Any m p w kind source)) input"
  "admits_input (vg_geometry (vg_new (MinimumLength k) m p w kind source)) input \<longleftrightarrow> k \<le> length input"
  by (simp_all add: admits_input_def vg_new_def)

lemma line_shadowed: "line n N ws {} 0 0 s s' \<Longrightarrow> width_pair n N i q ws \<Longrightarrow> shadowed n ws 0 0 s s'"
  by (auto simp: line_def shadowed_def width_pair_def)

lemma initial_halt_sound:
  "wf_profile p \<Longrightarrow> verify_initial_halt_profile_width p source w = Inr v \<Longrightarrow> sound_for p source v"
  by (auto simp: verify_initial_halt_profile_width_def and_then_Inr_iff get_Some_iff split: if_splits
      intro!: sound_forI intro: line_halt)

lemma input_output_halt_sound:
  "wf_profile p \<Longrightarrow> verify_input_output_halt_profile_width p source w = Inr v \<Longrightarrow> sound_for p source v"
proof -
  assume wf: "wf_profile p" and v: "verify_input_output_halt_profile_width p source w = Inr v"
  obtain m ws where ok: "derived_memory_words p w = Inr m" "admitted_source source m = Inr ws"
    and v_is: "v = vg_new (MinimumLength 1) m p w InputOutputHaltProjection source"
    and code: "decoded_cell (ws ! 0) 0 = Inr (pd_input_instruction p)"
      "decoded_cell (ws ! Suc 0) (Suc 0) = Inr (pd_output_instruction p)"
      "decoded_cell (ws ! Suc (Suc 0)) (Suc (Suc 0)) = Inr 118" "Suc (Suc 0) < length ws"
    using v by (auto simp: verify_input_output_halt_profile_width_def and_then_Inr_iff get_Some_iff
        numeral_2_eq_2 split: if_splits)
  show "sound_for p source v"
    unfolding v_is
  proof (rule sound_forI[OF wf ok])
    fix s s'
    assume pair: "width_pair w (pd_word_trits p) (pd_input_instruction p) (pd_output_instruction p) ws"
      and line: "line w (pd_word_trits p) ws {} 0 0 s s'"
      and adm: "admits_input (vg_geometry (vg_new (MinimumLength 1) m p w InputOutputHaltProjection source)) (am_in s)"
    have "(255::nat) < 3 ^ w" using pair by (intro pow3_bounds) (simp add: width_pair_def)
    then show "lockstep w (pd_word_trits p) (pd_input_instruction p) (pd_output_instruction p) s s'"
      using adm code by (intro io_halt_line[OF line pair ahead_clear_simps(1)]) auto
  qed
qed

lemma input_then_halt_sound:
  "wf_profile p \<Longrightarrow> verify_input_then_halt_profile_width p source w = Inr v \<Longrightarrow> sound_for p source v"
proof -
  assume wf: "wf_profile p" and v: "verify_input_then_halt_profile_width p source w = Inr v"
  obtain m ws where ok: "derived_memory_words p w = Inr m" "admitted_source source m = Inr ws"
    and v_is: "v = vg_new Any m p w InputThenHaltProjection source"
    and code: "decoded_cell (ws ! 0) 0 = Inr (pd_input_instruction p)"
      "decoded_cell (ws ! Suc 0) (Suc 0) = Inr 118" "Suc 0 < length ws"
    using v by (auto simp: verify_input_then_halt_profile_width_def and_then_Inr_iff get_Some_iff
        split: if_splits)
  show "sound_for p source v"
    unfolding v_is
  proof (rule sound_forI[OF wf ok])
    fix s s'
    assume pair: "width_pair w (pd_word_trits p) (pd_input_instruction p) (pd_output_instruction p) ws"
      and line: "line w (pd_word_trits p) ws {} 0 0 s s'"
    have room: "Suc 0 < 3 ^ w" using pair pow3_bounds[of w] by (simp add: width_pair_def)
    show "lockstep w (pd_word_trits p) (pd_input_instruction p) (pd_output_instruction p) s s'"
      using code room by (intro line_input[OF line pair]) (auto intro: line_halt[OF _ pair])
  qed
qed

lemma jump_data_halt_sound:
  "wf_profile p \<Longrightarrow> verify_jump_data_halt_profile_width p source w = Inr v \<Longrightarrow> sound_for p source v"
proof -
  assume wf: "wf_profile p" and v: "verify_jump_data_halt_profile_width p source w = Inr v"
  obtain m ws where ok: "derived_memory_words p w = Inr m" "admitted_source source m = Inr ws"
    and v_is: "v = vg_new Any m p w JumpDataHaltProjection source"
    and code: "decoded_cell (ws ! 0) 0 = Inr 106" "decoded_cell (ws ! Suc 0) (Suc 0) = Inr 118"
      "Suc 0 < length ws" "Suc (ws ! 0) < m" "ws ! 0 < U32_MAX"
    using v by (auto simp: verify_jump_data_halt_profile_width_def and_then_Inr_iff get_Some_iff
        checked_Some split: if_splits)
  show "sound_for p source v"
    unfolding v_is
  proof (rule sound_forI[OF wf ok])
    fix s s'
    assume pair: "width_pair w (pd_word_trits p) (pd_input_instruction p) (pd_output_instruction p) ws"
      and m: "m = 3 ^ w" and line: "line w (pd_word_trits p) ws {} 0 0 s s'"
    have jump: "jump_initial_address JumpDataHaltInstruction ws (3 ^ w) = Inr (Suc (ws ! 0))"
      using code m by (auto simp: jump_initial_address_def and_then_Inr_iff next_address_Inr get_Some_iff)
    show "lockstep w (pd_word_trits p) (pd_input_instruction p) (pd_output_instruction p) s s'"
      using code by (intro jump_first_line[OF line pair jump]) (auto intro: line_halt[OF _ pair])
  qed
qed

lemma noop_prefix_sound:
  "wf_profile p \<Longrightarrow> verify_noop_prefix_halt_profile_width p source w = Inr v \<Longrightarrow> sound_for p source v"
proof -
  assume wf: "wf_profile p" and v: "verify_noop_prefix_halt_profile_width p source w = Inr v"
  obtain m ws where ok: "derived_memory_words p w = Inr m" "admitted_source source m = Inr ws"
    and v_is: "v = vg_new Any m p w NoopPrefixHalt source"
    and code: "noop_prefix_loop 0 0 ws = Inr ()"
    using v by (auto simp: verify_noop_prefix_halt_profile_width_def and_then_Inr_iff split: if_splits)
  show "sound_for p source v"
    unfolding v_is
  proof (rule sound_forI[OF wf ok])
    fix s s'
    assume pair: "width_pair w (pd_word_trits p) (pd_input_instruction p) (pd_output_instruction p) ws"
      and g: "geometry_pair w (pd_word_trits p) (pd_input_instruction p) (pd_output_instruction p)
        (vg_geometry (vg_new Any m p w NoopPrefixHalt source))"
      and m: "m = 3 ^ w" and line: "line w (pd_word_trits p) ws {} 0 0 s s'"
      and input: "admits_input (vg_geometry (vg_new Any m p w NoopPrefixHalt source)) (am_in s)"
      and zero: "am_a s = 0" "am_a s' = 0"
    show "lockstep w (pd_word_trits p) (pd_input_instruction p) (pd_output_instruction p) s s'"
      using code line by (intro noop_prefix_lockstep[OF pair, where p = 0 and k = 0]) auto
  qed
qed

lemma straight_line_sound:
  "wf_profile p \<Longrightarrow> verify_straight_line_io_profile_width p source w = Inr v \<Longrightarrow> sound_for p source v"
proof -
  assume wf: "wf_profile p" and v: "verify_straight_line_io_profile_width p source w = Inr v"
  obtain m ws r where ok: "derived_memory_words p w = Inr m" "admitted_source source m = Inr ws"
    and v_is: "v = vg_new (MinimumLength r) m p w StraightLineIoProjection source"
    and code: "straight_line_loop p 0 0 0 ws = Inr r"
    using v by (auto simp: verify_straight_line_io_profile_width_def and_then_Inr_iff split: if_splits)
  show "sound_for p source v"
    unfolding v_is
  proof (rule sound_forI[OF wf ok])
    fix s s'
    assume pair: "width_pair w (pd_word_trits p) (pd_input_instruction p) (pd_output_instruction p) ws"
      and g: "geometry_pair w (pd_word_trits p) (pd_input_instruction p) (pd_output_instruction p)
        (vg_geometry (vg_new (MinimumLength r) m p w StraightLineIoProjection source))"
      and m: "m = 3 ^ w" and line: "line w (pd_word_trits p) ws {} 0 0 s s'"
      and input: "admits_input (vg_geometry (vg_new (MinimumLength r) m p w StraightLineIoProjection source)) (am_in s)"
      and zero: "am_a s = 0" "am_a s' = 0"
    show "lockstep w (pd_word_trits p) (pd_input_instruction p) (pd_output_instruction p) s s'"
      using code line zero input
      by (intro straight_line_lockstep[OF pair refl refl, where p = 0 and k = 0 and input = "am_in s"]) auto
  qed
qed

lemma repeated_jump_sound:
  "wf_profile p \<Longrightarrow> verify_repeated_jump_data_profile_width p source w = Inr v \<Longrightarrow> sound_for p source v"
proof -
  assume wf: "wf_profile p" and v: "verify_repeated_jump_data_profile_width p source w = Inr v"
  obtain m ws wide where ok: "derived_memory_words p w = Inr m" "admitted_source source m = Inr ws"
    and v_is: "v = vg_new Any m p w RepeatedJumpDataProjection source"
    and code: "admitted_source source (pd_memory_words p) = Inr wide" "repeated_jump_loop
      \<lparr>rjc_canonical_word_trits = pd_word_trits p, rjc_memory_words = m, rjc_narrow = ws,
        rjc_wide = wide, rjc_word_trits = w\<rparr> 0 0 0 ws = Inr ()"
    using v by (auto simp: verify_repeated_jump_data_profile_width_def and_then_Inr_iff Let_def split: if_splits)
  show "sound_for p source v"
    unfolding v_is
  proof (rule sound_forI[OF wf ok])
    fix s s'
    assume pair: "width_pair w (pd_word_trits p) (pd_input_instruction p) (pd_output_instruction p) ws"
      and g: "geometry_pair w (pd_word_trits p) (pd_input_instruction p) (pd_output_instruction p)
        (vg_geometry (vg_new Any m p w RepeatedJumpDataProjection source))"
      and m: "m = 3 ^ w" and line: "line w (pd_word_trits p) ws {} 0 0 s s'"
      and input: "admits_input (vg_geometry (vg_new Any m p w RepeatedJumpDataProjection source)) (am_in s)"
      and zero: "am_a s = 0" "am_a s' = 0"
    have "w \<le> 20" "pd_word_trits p \<le> 20" using wf pair by (simp_all add: wf_profile_def width_pair_def)
    then have "wide = ws" using ok(2) code(1) m wf by (simp add: admitted_source_Inr pow3_u32 wf_profile_def)
    show "lockstep w (pd_word_trits p) (pd_input_instruction p) (pd_output_instruction p) s s'"
      using code m \<open>wide = ws\<close> by (intro repeated_jump_lockstep[OF pair refl _ _ line]) auto
  qed
qed

lemma jump_crazy_sound:
  "wf_profile p \<Longrightarrow> verify_jump_crazy_halt_profile_width p source w = Inr v \<Longrightarrow> sound_for p source v"
proof -
  assume wf: "wf_profile p" and v: "verify_jump_crazy_halt_profile_width p source w = Inr v"
  obtain m ws d where ok: "derived_memory_words p w = Inr m" "admitted_source source m = Inr ws"
    and v_is: "v = vg_new Any m p w JumpCrazyHaltProjection source"
    and code: "jump_initial_address JumpCrazyHaltInstruction ws m = Inr d"
      "jump_crazy_loop ws (vg_geometry (vg_new Any m p w JumpCrazyHaltProjection source)) 1
        (d, 0, 0) 0 (drop 1 ws) = Inr ()"
    using v by (auto simp: verify_jump_crazy_halt_profile_width_def and_then_Inr_iff Let_def split: if_splits)
  show "sound_for p source v"
    unfolding v_is
  proof (rule sound_forI[OF wf ok])
    fix s s'
    assume pair: "width_pair w (pd_word_trits p) (pd_input_instruction p) (pd_output_instruction p) ws"
      and g: "geometry_pair w (pd_word_trits p) (pd_input_instruction p) (pd_output_instruction p)
        (vg_geometry (vg_new Any m p w JumpCrazyHaltProjection source))"
      and m: "m = 3 ^ w" and line: "line w (pd_word_trits p) ws {} 0 0 s s'"
      and input: "admits_input (vg_geometry (vg_new Any m p w JumpCrazyHaltProjection source)) (am_in s)"
      and zero: "am_a s = 0" "am_a s' = 0"
    show "lockstep w (pd_word_trits p) (pd_input_instruction p) (pd_output_instruction p) s s'"
    proof (rule jump_first_line[OF line pair code(1)[unfolded m]])
      fix t t' assume "line w (pd_word_trits p) ws {} 1 d t t'"
      then show "lockstep w (pd_word_trits p) (pd_input_instruction p) (pd_output_instruction p) t t'"
        using g by (intro jump_crazy_lockstep[OF pair _ refl code(2)]) (auto simp: geometry_pair_def ahead_clear_simps)
    qed
  qed
qed

lemma jump_rotate_sound:
  "wf_profile p \<Longrightarrow> verify_jump_rotate_halt_profile_width p source w = Inr v \<Longrightarrow> sound_for p source v"
proof -
  assume wf: "wf_profile p" and v: "verify_jump_rotate_halt_profile_width p source w = Inr v"
  obtain m ws d where ok: "derived_memory_words p w = Inr m" "admitted_source source m = Inr ws"
    and v_is: "v = vg_new Any m p w JumpRotateHaltProjection source"
    and code: "jump_initial_address JumpRotateHaltInstruction ws m = Inr d"
      "jump_rotate_halt_loop ws (vg_geometry (vg_new Any m p w JumpRotateHaltProjection source)) 1
        d False (drop 1 ws) = Inr ()"
    using v by (auto simp: verify_jump_rotate_halt_profile_width_def and_then_Inr_iff Let_def jump_rotate_initial_address_def split: if_splits)
  show "sound_for p source v"
    unfolding v_is
  proof (rule sound_forI[OF wf ok])
    fix s s'
    assume pair: "width_pair w (pd_word_trits p) (pd_input_instruction p) (pd_output_instruction p) ws"
      and g: "geometry_pair w (pd_word_trits p) (pd_input_instruction p) (pd_output_instruction p)
        (vg_geometry (vg_new Any m p w JumpRotateHaltProjection source))"
      and m: "m = 3 ^ w" and line: "line w (pd_word_trits p) ws {} 0 0 s s'"
      and input: "admits_input (vg_geometry (vg_new Any m p w JumpRotateHaltProjection source)) (am_in s)"
      and zero: "am_a s = 0" "am_a s' = 0"
    show "lockstep w (pd_word_trits p) (pd_input_instruction p) (pd_output_instruction p) s s'"
    proof (rule jump_first_line[OF line pair code(1)[unfolded m]])
      fix t t' assume "line w (pd_word_trits p) ws {} 1 d t t'"
      then show "lockstep w (pd_word_trits p) (pd_input_instruction p) (pd_output_instruction p) t t'"
        by (intro jump_rotate_halt_lockstep[OF pair g refl code(2)]) (auto simp: ahead_clear_simps)
    qed
  qed
qed

lemma jump_rotate_crazy_sound:
  "wf_profile p \<Longrightarrow> verify_jump_rotate_crazy_halt_profile_width p source w = Inr v \<Longrightarrow> sound_for p source v"
proof -
  assume wf: "wf_profile p" and v: "verify_jump_rotate_crazy_halt_profile_width p source w = Inr v"
  obtain m ws d where ok: "derived_memory_words p w = Inr m" "admitted_source source m = Inr ws"
    and v_is: "v = vg_new Any m p w JumpRotateCrazyHaltProjection source"
    and code: "jump_initial_address JumpRotateHaltInstruction ws m = Inr d"
      "jump_rotate_crazy_loop ws (vg_geometry (vg_new Any m p w JumpRotateCrazyHaltProjection source)) 1
        d (drop 1 ws) = Inr ()"
    using v by (auto simp: verify_jump_rotate_crazy_halt_profile_width_def and_then_Inr_iff Let_def jump_rotate_initial_address_def split: if_splits)
  show "sound_for p source v"
    unfolding v_is
  proof (rule sound_forI[OF wf ok])
    fix s s'
    assume pair: "width_pair w (pd_word_trits p) (pd_input_instruction p) (pd_output_instruction p) ws"
      and g: "geometry_pair w (pd_word_trits p) (pd_input_instruction p) (pd_output_instruction p)
        (vg_geometry (vg_new Any m p w JumpRotateCrazyHaltProjection source))"
      and m: "m = 3 ^ w" and line: "line w (pd_word_trits p) ws {} 0 0 s s'"
      and input: "admits_input (vg_geometry (vg_new Any m p w JumpRotateCrazyHaltProjection source)) (am_in s)"
      and zero: "am_a s = 0" "am_a s' = 0"
    show "lockstep w (pd_word_trits p) (pd_input_instruction p) (pd_output_instruction p) s s'"
    proof (rule jump_first_line[OF line pair code(1)[unfolded m]])
      fix t t' assume "line w (pd_word_trits p) ws {} 1 d t t'"
      then show "lockstep w (pd_word_trits p) (pd_input_instruction p) (pd_output_instruction p) t t'"
        by (rule jump_rotate_crazy_lockstep[OF pair g refl code(2)])
    qed
  qed
qed

lemma jump_rotate_io_sound:
  "wf_profile p \<Longrightarrow> verify_jump_rotate_io_halt_profile_width p source w = Inr v \<Longrightarrow> sound_for p source v"
proof -
  assume wf: "wf_profile p" and v: "verify_jump_rotate_io_halt_profile_width p source w = Inr v"
  obtain m ws d r where ok: "derived_memory_words p w = Inr m" "admitted_source source m = Inr ws"
    and v_is: "v = vg_new (MinimumLength r) m p w JumpRotateIoHaltProjection source"
    and code: "jump_initial_address JumpRotateHaltInstruction ws m = Inr d"
      "jump_rotate_io_loop ws \<lparr>geo_input_policy = MinimumLength 1, geo_memory_words = m,
        geo_profile = p, geo_word_trits = w\<rparr> d 1 = Inr r"
    using v by (auto simp: verify_jump_rotate_io_halt_profile_width_def and_then_Inr_iff Let_def jump_rotate_initial_address_def split: if_splits)
  show "sound_for p source v"
    unfolding v_is
  proof (rule sound_forI[OF wf ok])
    fix s s'
    assume pair: "width_pair w (pd_word_trits p) (pd_input_instruction p) (pd_output_instruction p) ws"
      and g: "geometry_pair w (pd_word_trits p) (pd_input_instruction p) (pd_output_instruction p)
        (vg_geometry (vg_new (MinimumLength r) m p w JumpRotateIoHaltProjection source))"
      and m: "m = 3 ^ w" and line: "line w (pd_word_trits p) ws {} 0 0 s s'"
      and input: "admits_input (vg_geometry (vg_new (MinimumLength r) m p w JumpRotateIoHaltProjection source)) (am_in s)"
      and zero: "am_a s = 0" "am_a s' = 0"
    have g': "geometry_pair w (pd_word_trits p) (pd_input_instruction p) (pd_output_instruction p)
      \<lparr>geo_input_policy = MinimumLength 1, geo_memory_words = m, geo_profile = p, geo_word_trits = w\<rparr>"
      using g by (simp add: geometry_pair_def vg_new_def)
    show "lockstep w (pd_word_trits p) (pd_input_instruction p) (pd_output_instruction p) s s'"
    proof (rule jump_first_line[OF line pair code(1)[unfolded m]])
      fix t t' assume t: "line w (pd_word_trits p) ws {} 1 d t t'" "am_in t = am_in s"
      then show "lockstep w (pd_word_trits p) (pd_input_instruction p) (pd_output_instruction p) t t'"
        using input by (intro jump_rotate_io_lockstep[OF pair g' code(2) t]) simp
    qed
  qed
qed

lemma jump_crazy_io_sound:
  "wf_profile p \<Longrightarrow> verify_jump_crazy_io_halt_profile_width p source w = Inr v \<Longrightarrow> sound_for p source v"
proof -
  assume wf: "wf_profile p" and v: "verify_jump_crazy_io_halt_profile_width p source w = Inr v"
  obtain m ws d state c k where ok: "derived_memory_words p w = Inr m" "admitted_source source m = Inr ws"
    and v_is: "v = vg_new (MinimumLength 1) m p w JumpCrazyIoHaltProjection source"
    and code: "jump_initial_address JumpCrazyHaltInstruction ws m = Inr d"
      "jump_crazy_prefix_loop ws (vg_geometry (vg_new (MinimumLength 1) m p w
        JumpCrazyIoHaltProjection source)) (d, 0, 0) 1 0 = Inr (state, c, k)"
      "verify_jump_crazy_io_suffix ws (vg_geometry (vg_new (MinimumLength 1) m p w
        JumpCrazyIoHaltProjection source)) (fst state) c = Inr ()"
    using v by (auto simp: verify_jump_crazy_io_halt_profile_width_def and_then_Inr_iff Let_def split: if_splits)
  show "sound_for p source v"
    unfolding v_is
  proof (rule sound_forI[OF wf ok])
    fix s s'
    assume pair: "width_pair w (pd_word_trits p) (pd_input_instruction p) (pd_output_instruction p) ws"
      and g: "geometry_pair w (pd_word_trits p) (pd_input_instruction p) (pd_output_instruction p)
        (vg_geometry (vg_new (MinimumLength 1) m p w JumpCrazyIoHaltProjection source))"
      and m: "m = 3 ^ w" and line: "line w (pd_word_trits p) ws {} 0 0 s s'"
      and input: "admits_input (vg_geometry (vg_new (MinimumLength 1) m p w JumpCrazyIoHaltProjection source)) (am_in s)"
      and zero: "am_a s = 0" "am_a s' = 0"
    have g': "geo_memory_words (vg_geometry (vg_new (MinimumLength 1) m p w JumpCrazyIoHaltProjection source)) = 3 ^ w"
      using m by (simp add: vg_new_def)
    have c: "c < length ws" using code(3) by (auto simp: verify_jump_crazy_io_suffix_def and_then_Inr_iff get_Some_iff)
    have byte: "am_in s \<noteq> []" using input by auto
    note suffix = jump_crazy_io_suffix_lockstep[OF pair g' _ _ code(3)]
    show "lockstep w (pd_word_trits p) (pd_input_instruction p) (pd_output_instruction p) s s'"
    proof (rule jump_first_line[OF line pair code(1)[unfolded m]])
      fix t t' assume t: "line w (pd_word_trits p) ws {} 1 d t t'" "am_in t = am_in s"
      show "lockstep w (pd_word_trits p) (pd_input_instruction p) (pd_output_instruction p) t t'"
      proof (rule jump_crazy_prefix_lockstep[OF pair g' code(2) refl c _ ahead_clear_simps(1) t(2) _ g'])
        show "line w (pd_word_trits p) ws {} 1 (fst (d, 0, 0)) t t'" using t by simp
      qed (use byte in \<open>auto intro!: suffix simp: vg_new_def\<close>)
    qed
  qed
qed

lemma jump_code_halt_sound:
  "wf_profile p \<Longrightarrow> verify_jump_code_halt_profile_width p source w = Inr v \<Longrightarrow> sound_for p source v"
proof -
  assume wf: "wf_profile p" and v: "verify_jump_code_halt_profile_width p source w = Inr v"
  obtain m ws prefix where ok: "derived_memory_words p w = Inr m" "admitted_source source m = Inr ws"
    and v_is: "v = vg_new Any m p w JumpCodeHaltProjection source"
    and code: "code_jump_prefix_loop (Suc (length ws)) ws 0 0 0 m = Inr prefix" "cjp_decoded prefix = 118"
    using v by (auto simp: verify_jump_code_halt_profile_width_def and_then_Inr_iff Let_def verify_source_backed_code_jump_prefix_def split: if_splits)
  show "sound_for p source v"
    unfolding v_is
  proof (rule sound_forI[OF wf ok])
    fix s s'
    assume pair: "width_pair w (pd_word_trits p) (pd_input_instruction p) (pd_output_instruction p) ws"
      and g: "geometry_pair w (pd_word_trits p) (pd_input_instruction p) (pd_output_instruction p)
        (vg_geometry (vg_new Any m p w JumpCodeHaltProjection source))"
      and m: "m = 3 ^ w" and line: "line w (pd_word_trits p) ws {} 0 0 s s'"
      and input: "admits_input (vg_geometry (vg_new Any m p w JumpCodeHaltProjection source)) (am_in s)"
      and zero: "am_a s = 0" "am_a s' = 0"
    have start: "shadowed w ws 0 0 s s'" by (rule line_shadowed[OF line pair])
    show "lockstep w (pd_word_trits p) (pd_input_instruction p) (pd_output_instruction p) s s'"
      using code(2)
      by (intro code_jump_prefix_lockstep[OF pair code(1)[unfolded m] start refl])
        (auto simp: at_prefix_def intro!: shadow_halt[OF _ pair])
  qed
qed

lemma jump_code_io_sound:
  "wf_profile p \<Longrightarrow> verify_jump_code_io_halt_profile_width p source w = Inr v \<Longrightarrow> sound_for p source v"
proof -
  assume wf: "wf_profile p" and v: "verify_jump_code_io_halt_profile_width p source w = Inr v"
  obtain m ws prefix prefix' r where ok: "derived_memory_words p w = Inr m" "admitted_source source m = Inr ws"
    and v_is: "v = vg_new (MinimumLength r) m p w JumpCodeIoHaltProjection source"
    and code: "code_jump_prefix_loop (Suc (length ws)) ws 0 0 0 m = Inr prefix"
      "jump_code_io_loop p m prefix 0 = Inr (prefix', r)"
    using v by (auto simp: verify_jump_code_io_halt_profile_width_def and_then_Inr_iff Let_def verify_source_backed_code_jump_prefix_def split: if_splits)
  show "sound_for p source v"
    unfolding v_is
  proof (rule sound_forI[OF wf ok])
    fix s s'
    assume pair: "width_pair w (pd_word_trits p) (pd_input_instruction p) (pd_output_instruction p) ws"
      and g: "geometry_pair w (pd_word_trits p) (pd_input_instruction p) (pd_output_instruction p)
        (vg_geometry (vg_new (MinimumLength r) m p w JumpCodeIoHaltProjection source))"
      and m: "m = 3 ^ w" and line: "line w (pd_word_trits p) ws {} 0 0 s s'"
      and input: "admits_input (vg_geometry (vg_new (MinimumLength r) m p w JumpCodeIoHaltProjection source)) (am_in s)"
      and zero: "am_a s = 0" "am_a s' = 0"
    have start: "shadowed w ws 0 0 s s'" by (rule line_shadowed[OF line pair])
    show "lockstep w (pd_word_trits p) (pd_input_instruction p) (pd_output_instruction p) s s'"
    proof (rule code_jump_prefix_lockstep[OF pair code(1)[unfolded m] start refl])
      fix t t' assume t: "at_prefix w prefix t t'" "am_in t = am_in s"
      then show "lockstep w (pd_word_trits p) (pd_input_instruction p) (pd_output_instruction p) t t'"
        using input m by (intro jump_code_io_lockstep[OF pair refl refl code(2) t(1), where input = "am_in s"]) auto
    qed
  qed
qed

lemma jump_code_rotate_sound:
  "wf_profile p \<Longrightarrow> verify_jump_code_rotate_halt_profile_width p source w = Inr v \<Longrightarrow> sound_for p source v"
proof -
  assume wf: "wf_profile p" and v: "verify_jump_code_rotate_halt_profile_width p source w = Inr v"
  obtain m ws prefix where ok: "derived_memory_words p w = Inr m" "admitted_source source m = Inr ws"
    and v_is: "v = vg_new Any m p w JumpCodeRotateHaltProjection source"
    and code: "code_jump_prefix_loop (Suc (length ws)) ws 0 0 0 m = Inr prefix" "cjp_decoded prefix = 42"
      "verify_source_backed_jump_rotate_projection prefix
        (vg_geometry (vg_new Any m p w JumpCodeRotateHaltProjection source)) = Inr ()"
    using v by (auto simp: verify_jump_code_rotate_halt_profile_width_def and_then_Inr_iff Let_def verify_source_backed_code_jump_prefix_def split: if_splits)
  show "sound_for p source v"
    unfolding v_is
  proof (rule sound_forI[OF wf ok])
    fix s s'
    assume pair: "width_pair w (pd_word_trits p) (pd_input_instruction p) (pd_output_instruction p) ws"
      and g: "geometry_pair w (pd_word_trits p) (pd_input_instruction p) (pd_output_instruction p)
        (vg_geometry (vg_new Any m p w JumpCodeRotateHaltProjection source))"
      and m: "m = 3 ^ w" and line: "line w (pd_word_trits p) ws {} 0 0 s s'"
      and input: "admits_input (vg_geometry (vg_new Any m p w JumpCodeRotateHaltProjection source)) (am_in s)"
      and zero: "am_a s = 0" "am_a s' = 0"
    have start: "shadowed w ws 0 0 s s'" by (rule line_shadowed[OF line pair])
    show "lockstep w (pd_word_trits p) (pd_input_instruction p) (pd_output_instruction p) s s'"
      using jump_code_rotate_lockstep[OF pair g _ code(2,3)]
      by (intro code_jump_prefix_lockstep[OF pair code(1)[unfolded m] start refl])
  qed
qed

end
