(* ===== verification/WidthSelection.thy ===== *)
theory WidthSelection
  imports WidthVerifiers
begin

text \<open>
  The minimum searches and the selection of \<open>profile_width.rs\<close> are sound and minimal, and the
  machine \<open>from_source\<close> builds over the selected width cannot be told apart from the full one.
\<close>

section \<open>The searches and the selection\<close>

lemma minimum_width_loop_Inr:
  "minimum_width_loop retry f p source missed ws = Inr v \<Longrightarrow> \<exists>k < length ws. f p source (ws ! k) = Inr v \<and>
    (\<forall>j < k. \<exists>e. f p source (ws ! j) = Inl e \<and> retry e)"
proof (induction ws arbitrary: missed)
  case (Cons w ws)
  show ?case
  proof (cases "f p source w")
    case (Inl e)
    then have "minimum_width_loop retry f p source (Some e) ws = Inr v" and retry: "retry e"
      using Cons.prems by (auto split: if_splits)
    from Cons.IH[OF this(1)] obtain k where k: "k < length ws" "f p source (ws ! k) = Inr v"
      "\<forall>j < k. \<exists>e. f p source (ws ! j) = Inl e \<and> retry e" by blast
    have "\<exists>e. f p source ((w # ws) ! j) = Inl e \<and> retry e" if "j < Suc k" for j
      using that k(3) Inl retry by (cases j) auto
    then show ?thesis using k by (intro exI[of _ "Suc k"]) simp
  qed (use Cons.prems in \<open>auto intro: exI[of _ 0]\<close>)
qed simp

text \<open>
  The interface of a width verifier: every geometry it admits is sound. The search for the
  narrowest width inherits it, whatever rejections it moves on from.
\<close>

locale width_verifier =
  fixes verifier :: ProfileWidthVerifier
  assumes sound: "wf_profile p \<Longrightarrow> verifier p source w = Inr v \<Longrightarrow> sound_for p source v"
begin

lemma search_sound:
  "wf_profile p \<Longrightarrow> minimum_width_loop retry verifier p source missed ws = Inr v \<Longrightarrow> sound_for p source v"
  using minimum_width_loop_Inr sound by blast

lemma minimum_sound:
  "wf_profile p \<Longrightarrow> verify_minimum_width p source verifier = Inr v \<Longrightarrow> sound_for p source v"
  unfolding verify_minimum_width_def by (rule search_sound)

end

interpretation width_initial_halt: width_verifier verify_initial_halt_profile_width
  by unfold_locales (rule initial_halt_sound)

interpretation width_input_output_halt: width_verifier verify_input_output_halt_profile_width
  by unfold_locales (rule input_output_halt_sound)

interpretation width_input_then_halt: width_verifier verify_input_then_halt_profile_width
  by unfold_locales (rule input_then_halt_sound)

interpretation width_jump_code_halt: width_verifier verify_jump_code_halt_profile_width
  by unfold_locales (rule jump_code_halt_sound)

interpretation width_jump_code_io: width_verifier verify_jump_code_io_halt_profile_width
  by unfold_locales (rule jump_code_io_sound)

interpretation width_jump_code_rotate: width_verifier verify_jump_code_rotate_halt_profile_width
  by unfold_locales (rule jump_code_rotate_sound)

interpretation width_jump_crazy: width_verifier verify_jump_crazy_halt_profile_width
  by unfold_locales (rule jump_crazy_sound)

interpretation width_jump_crazy_io: width_verifier verify_jump_crazy_io_halt_profile_width
  by unfold_locales (rule jump_crazy_io_sound)

interpretation width_jump_data_halt: width_verifier verify_jump_data_halt_profile_width
  by unfold_locales (rule jump_data_halt_sound)

interpretation width_jump_rotate: width_verifier verify_jump_rotate_halt_profile_width
  by unfold_locales (rule jump_rotate_sound)

interpretation width_jump_rotate_crazy: width_verifier verify_jump_rotate_crazy_halt_profile_width
  by unfold_locales (rule jump_rotate_crazy_sound)

interpretation width_jump_rotate_io: width_verifier verify_jump_rotate_io_halt_profile_width
  by unfold_locales (rule jump_rotate_io_sound)

interpretation width_noop_prefix: width_verifier verify_noop_prefix_halt_profile_width
  by unfold_locales (rule noop_prefix_sound)

interpretation width_repeated_jump: width_verifier verify_repeated_jump_data_profile_width
  by unfold_locales (rule repeated_jump_sound)

interpretation width_straight_line: width_verifier verify_straight_line_io_profile_width
  by unfold_locales (rule straight_line_sound)

definition sound_verifier :: "MinimumProfileWidthVerifier \<Rightarrow> bool" where
  "sound_verifier f \<longleftrightarrow> (\<forall>p source v. wf_profile p \<longrightarrow> f p source = Inr v \<longrightarrow> sound_for p source v)"

lemma minimum_searches_sound:
  "sound_verifier verify_minimum_initial_halt_profile_width"
  "sound_verifier verify_minimum_input_output_halt_profile_width"
  "sound_verifier verify_minimum_input_then_halt_profile_width"
  "sound_verifier verify_minimum_jump_code_halt_profile_width"
  "sound_verifier verify_minimum_jump_code_io_halt_profile_width"
  "sound_verifier verify_minimum_jump_code_rotate_halt_profile_width"
  "sound_verifier verify_minimum_jump_crazy_halt_profile_width"
  "sound_verifier verify_minimum_jump_crazy_io_halt_profile_width"
  "sound_verifier verify_minimum_jump_data_halt_profile_width"
  "sound_verifier verify_minimum_jump_rotate_halt_profile_width"
  "sound_verifier verify_minimum_jump_rotate_crazy_halt_profile_width"
  "sound_verifier verify_minimum_jump_rotate_io_halt_profile_width"
  "sound_verifier verify_minimum_noop_prefix_halt_profile_width"
  "sound_verifier verify_minimum_repeated_jump_data_profile_width"
  "sound_verifier verify_minimum_straight_line_io_profile_width"
  unfolding sound_verifier_def
    verify_minimum_initial_halt_profile_width_def
    verify_minimum_input_output_halt_profile_width_def
    verify_minimum_input_then_halt_profile_width_def
    verify_minimum_jump_code_halt_profile_width_def
    verify_minimum_jump_code_io_halt_profile_width_def
    verify_minimum_jump_code_rotate_halt_profile_width_def
    verify_minimum_jump_crazy_halt_profile_width_def
    verify_minimum_jump_crazy_io_halt_profile_width_def
    verify_minimum_jump_data_halt_profile_width_def
    verify_minimum_jump_rotate_halt_profile_width_def
    verify_minimum_jump_rotate_crazy_halt_profile_width_def
    verify_minimum_jump_rotate_io_halt_profile_width_def
    verify_minimum_noop_prefix_halt_profile_width_def
    verify_minimum_repeated_jump_data_profile_width_def
    verify_minimum_straight_line_io_profile_width_def
  by (intro allI impI,
   ((erule (1) width_initial_halt.minimum_sound) |
    (erule (1) width_input_output_halt.minimum_sound) |
    (erule (1) width_input_then_halt.minimum_sound) |
    (erule (1) width_jump_code_halt.minimum_sound) |
    (erule (1) width_jump_code_io.minimum_sound) |
    (erule (1) width_jump_code_rotate.search_sound) |
    (erule (1) width_jump_crazy.minimum_sound) |
    (erule (1) width_jump_crazy_io.minimum_sound) |
    (erule (1) width_jump_data_halt.minimum_sound) |
    (erule (1) width_jump_rotate.search_sound) |
    (erule (1) width_jump_rotate_crazy.search_sound) |
    (erule (1) width_jump_rotate_io.search_sound) |
    (erule (1) width_noop_prefix.minimum_sound) |
    (erule (1) width_repeated_jump.minimum_sound) |
    (erule (1) width_straight_line.minimum_sound)))+

lemma select_loop_cases:
  "select_loop p source input verifiers selected = Some v \<Longrightarrow>
    selected = Some v \<or> (\<exists>f \<in> set verifiers. f p source = Inr v \<and>
      geo_word_trits (vg_geometry v) < pd_word_trits p \<and> admits_input (vg_geometry v) input)"
  by (induction verifiers arbitrary: selected) (fastforce split: sum.splits if_splits option.splits)+

lemma selection_sound:
  assumes "wf_profile p" and "select_minimum_verified_profile_width p source input = Some v"
  shows "sound_for p source v \<and> geo_word_trits (vg_geometry v) < pd_word_trits p \<and>
    admits_input (vg_geometry v) input"
  using select_loop_cases[OF assms(2)[unfolded select_minimum_verified_profile_width_def]]
    minimum_searches_sound assms(1)
  by (auto simp: sound_verifier_def)

text \<open>The selected width is minimal: no verifier admits the source and input at a smaller one.\<close>

lemma select_loop_minimal:
  "select_loop p source input verifiers selected = r \<Longrightarrow>
    (\<forall>u. selected = Some u \<longrightarrow> (\<exists>v. r = Some v \<and>
      geo_word_trits (vg_geometry v) \<le> geo_word_trits (vg_geometry u))) \<and>
    (\<forall>f \<in> set verifiers. \<forall>u. f p source = Inr u \<and> geo_word_trits (vg_geometry u) < pd_word_trits p \<and>
      admits_input (vg_geometry u) input \<longrightarrow>
      (\<exists>v. r = Some v \<and> geo_word_trits (vg_geometry v) \<le> geo_word_trits (vg_geometry u)))"
proof (induction verifiers arbitrary: selected)
  case (Cons f fs)
  show ?case
  proof (cases "f p source")
    case (Inl e)
    then show ?thesis using Cons by auto
  next
    case (Inr u)
    show ?thesis
    proof (cases "geo_word_trits (vg_geometry u) < pd_word_trits p \<and> admits_input (vg_geometry u) input")
      case False
      then have "select_loop p source input fs selected = r" using Cons.prems Inr by (auto split: if_splits)
      then show ?thesis using Cons.IH[of selected] Inr False by auto
    next
      case good: True
      show ?thesis
      proof (cases "\<exists>w. selected = Some w \<and> geo_word_trits (vg_geometry w) \<le> geo_word_trits (vg_geometry u)")
        case True
        then obtain w where w: "selected = Some w"
          "geo_word_trits (vg_geometry w) \<le> geo_word_trits (vg_geometry u)" by blast
        then have "select_loop p source input fs selected = r" using Cons.prems Inr good by (auto split: if_splits)
        from Cons.IH[OF this] w Inr show ?thesis by (auto intro: order_trans)
      next
        case False
        then have "select_loop p source input fs (Some u) = r"
          using Cons.prems Inr good by (auto split: if_splits option.splits)
        from Cons.IH[OF this] False Inr show ?thesis by (fastforce simp: not_le intro: order_trans less_imp_le)
      qed
    qed
  qed
qed simp

section \<open>Loading at a verified width\<close>

lemma vg_new_fields [simp]:
  "vg_geometry (vg_new policy m p w kind source) =
    \<lparr>geo_input_policy = policy, geo_memory_words = m, geo_profile = p, geo_word_trits = w\<rparr>"
  "vg_source (vg_new policy m p w kind source) = source"
  by (simp_all add: vg_new_def)

definition fresh_machine :: "ProfileExecutionGeometry \<Rightarrow> u8 list \<Rightarrow> u32 list \<Rightarrow> ProfileMachine" where
  "fresh_machine g input img = \<lparr>pm_geometry = g, pm_input = input, pm_input_cursor = 0, pm_memory = img,
    pm_output = [], pm_profile = geo_profile g, pm_registers = profile_registers_default,
    pm_termination = None\<rparr>"

lemma pfrom_source_Inr:
  "pfrom_source reserve p source input = Inr m \<longleftrightarrow>
    preflight_profile p (source_word_requirement source) SAFE_RUST_PROFILED = Inr () \<and>
    (\<exists>img. load_profile reserve (canonical p) source = Inr img \<and> m = fresh_machine (canonical p) input img)"
  by (auto simp: pfrom_source_def fresh_machine_def Let_def canonical_def split: sum.splits)

lemma pfrom_verified_source_Inr:
  "pfrom_verified_source reserve v input = Inr m \<longleftrightarrow> admits_input (vg_geometry v) input \<and>
    preflight_profile (geo_profile (vg_geometry v)) (source_word_requirement (vg_source v))
      SAFE_RUST_PROFILED = Inr () \<and>
    (\<exists>img. load_profile reserve (vg_geometry v) (vg_source v) = Inr img \<and>
      m = fresh_machine (vg_geometry v) input img)"
  by (auto simp: pfrom_verified_source_def fresh_machine_def Let_def and_then_Inr_iff
      split: sum.splits if_splits)

lemma wf_geometry_vg:
  "wf_profile p \<Longrightarrow> 10 \<le> w \<Longrightarrow> w \<le> 20 \<Longrightarrow>
    wf_geometry \<lparr>geo_input_policy = policy, geo_memory_words = 3 ^ w, geo_profile = p, geo_word_trits = w\<rparr>"
  by (simp add: wf_geometry_def)

lemma fresh_machine_wf:
  assumes "wf_geometry g" and "load_profile reserve g source = Inr img" and "admits_input g input"
  shows "wf_pmachine (fresh_machine g input img)"
  using load_profile_Inr(1,2)[OF assms(1,2)] assms wf_geometry_bounds(1)[OF assms(1)]
  by (simp add: wf_pmachine_def fresh_machine_def pregisters_default_wf)

lemma loaded_cell:
  assumes g: "wf_geometry g" and l: "load_profile reserve g source = Inr img"
    and k: "k < geo_memory_words g"
  shows "am_mem (abs_pmachine (fresh_machine g input img)) k =
    initial (geo_word_trits g) (map unat (source_bytes source)) k"
proof -
  note img = load_profile_Inr[OF g l]
  have "img ! k = initial (geo_word_trits g) (map unat (source_bytes source)) k"
    using img k by (intro image_initial) (simp_all add: admissible_def)
  then show ?thesis using img(1) k by (simp add: abs_pmachine_def fresh_machine_def abs_words_def)
qed

lemma loaded_line:
  assumes g: "wf_geometry g" and g': "wf_geometry g'" and le: "geo_word_trits g \<le> geo_word_trits g'"
    and adm: "admissible (geo_memory_words g) source"
    and l: "load_profile reserve g source = Inr img" and l': "load_profile reserve g' source = Inr img'"
  shows "line (geo_word_trits g) (geo_word_trits g') (map unat (source_bytes source)) {} 0 0
    (abs_pmachine (fresh_machine g input img)) (abs_pmachine (fresh_machine g' input img'))"
proof -
  let ?ws = "map unat (source_bytes source)" and ?n = "geo_word_trits g" and ?N = "geo_word_trits g'"
  have size: "geo_memory_words g = 3 ^ ?n" "geo_memory_words g' = 3 ^ ?N" "6 \<le> ?n"
    using g g' by (simp_all add: wf_geometry_def)
  have pow: "(3::nat) ^ ?n \<le> 3 ^ ?N" using le by simp
  have "unat b < 3 ^ ?n" for b :: u8
    using pow3_bounds[OF size(3)] unat_u8_le[of b] by (rule le_less_trans[rotated])
  then have words: "2 \<le> length ?ws" "\<forall>w \<in> set ?ws. w < 3 ^ ?n"
    using adm by (auto simp: admissible_def)
  have cells: "am_mem (abs_pmachine (fresh_machine g input img)) k = initial ?n ?ws k"
    "am_mem (abs_pmachine (fresh_machine g' input img')) k = initial ?N ?ws k" if "k < 3 ^ ?n" for k
    using that less_le_trans[OF that pow] loaded_cell[OF g l, of k input] loaded_cell[OF g' l', of k input] size
    by simp_all
  have "agrees ?n (abs_pmachine (fresh_machine g input img)) (abs_pmachine (fresh_machine g' input img'))"
    using cells initial_projects[OF le words]
    by (auto simp: agrees_def) (auto simp: abs_pmachine_def fresh_machine_def profile_registers_default_def)
  then show ?thesis
    using cells by (auto simp: line_def) (auto simp: abs_pmachine_def fresh_machine_def profile_registers_default_def)
qed

text \<open>
  Two profile machines nobody can tell apart by running them: every budget gives the same
  outcome and leaves the same streams, counters and termination.
\<close>

definition runs_alike :: "ProfileMachine \<Rightarrow> ProfileMachine \<Rightarrow> bool" where
  "runs_alike m m' \<longleftrightarrow> (\<forall>budget. fst (prun budget m) = fst (prun budget m') \<and>
    same_view (snd (prun budget m)) (snd (prun budget m')))"

lemma runs_alike_refl [simp]: "runs_alike m m"
  by (simp add: runs_alike_def same_view_def)

lemma verified_runs_alike:
  assumes wf: "wf_profile p" and sound: "sound_for p source v"
    and v: "pfrom_verified_source reserve v input = Inr m"
    and full: "pfrom_source reserve p source input = Inr m'"
  shows "runs_alike m m'"
proof -
  obtain policy w kind where v_is: "v = vg_new policy (3 ^ w) p w kind source"
    and w: "10 \<le> w" "w \<le> pd_word_trits p" and adm: "admissible (3 ^ w) source"
    and cert: "\<And>s s'. line w (pd_word_trits p) (map unat (source_bytes source)) {} 0 0 s s' \<Longrightarrow>
      admits_input (vg_geometry v) (am_in s) \<Longrightarrow> am_a s = 0 \<Longrightarrow> am_a s' = 0 \<Longrightarrow>
      lockstep w (pd_word_trits p) (pd_input_instruction p) (pd_output_instruction p) s s'"
    using sound unfolding sound_for_def by blast
  let ?g = "vg_geometry v" and ?g' = "canonical p"
  have g: "wf_geometry ?g" "wf_geometry ?g'" "geo_word_trits ?g = w" "geo_memory_words ?g = 3 ^ w"
    "geo_profile ?g = p" "vg_source v = source" "geo_word_trits ?g' = pd_word_trits p" "geo_profile ?g' = p"
    using wf_geometry_vg[OF wf w(1)] w wf canonical_wf[OF wf]
    by (simp_all add: v_is wf_profile_def) (simp_all add: canonical_def)
  obtain img where m: "m = fresh_machine ?g input img" and l: "load_profile reserve ?g source = Inr img"
    and input: "admits_input ?g input"
    using v g(6) by (auto simp: pfrom_verified_source_Inr)
  obtain img' where m': "m' = fresh_machine ?g' input img'" and l': "load_profile reserve ?g' source = Inr img'"
    using full by (auto simp: pfrom_source_Inr)
  have any: "admits_input ?g' input" by (simp add: canonical_def admits_input_def)
  have line: "line w (pd_word_trits p) (map unat (source_bytes source)) {} 0 0 (abs_pmachine m) (abs_pmachine m')"
    using loaded_line[OF g(1,2) _ _ l l', of input] g w adm m m' by simp
  have fresh: "am_in (abs_pmachine m) = input" "am_a (abs_pmachine m) = 0" "am_a (abs_pmachine m') = 0"
    "pm_termination m = None" "pm_termination m' = None" "pm_geometry m = ?g" "pm_geometry m' = ?g'"
    "pm_profile m = p" "pm_profile m' = p" "pm_input m = pm_input m'"
    using g by (simp_all add: m m' abs_pmachine_def fresh_machine_def profile_registers_default_def)
  have "certified m m'" using cert[OF line] input fresh g by simp
  moreover have "paired m m'"
    using fresh_machine_wf[OF g(1) l input] fresh_machine_wf[OF g(2) l' any] lineD(1)[OF line] fresh g
    by (simp add: paired_def m m')
  ultimately show ?thesis
    using certified_run[of m m'] paired_view fresh(4) unfolding runs_alike_def by blast
qed

lemma verified_source_admissible:
  assumes wf: "wf_profile p" and sound: "sound_for p source v"
  shows "admissible (pd_memory_words p) source"
proof -
  obtain w where "w \<le> pd_word_trits p" "admissible (3 ^ w) source" using sound unfolding sound_for_def by blast
  moreover have "(3::nat) ^ w \<le> 3 ^ pd_word_trits p" using \<open>w \<le> pd_word_trits p\<close> by simp
  ultimately show ?thesis using wf unfolding admissible_def wf_profile_def by (metis le_trans)
qed

definition minimum_searches :: "MinimumProfileWidthVerifier list" where
  "minimum_searches =
    [verify_minimum_initial_halt_profile_width,
     verify_minimum_input_output_halt_profile_width,
     verify_minimum_input_then_halt_profile_width,
     verify_minimum_jump_code_halt_profile_width,
     verify_minimum_jump_code_io_halt_profile_width,
     verify_minimum_jump_code_rotate_halt_profile_width,
     verify_minimum_jump_crazy_halt_profile_width,
     verify_minimum_jump_crazy_io_halt_profile_width,
     verify_minimum_jump_data_halt_profile_width,
     verify_minimum_jump_rotate_halt_profile_width,
     verify_minimum_jump_rotate_crazy_halt_profile_width,
     verify_minimum_jump_rotate_io_halt_profile_width,
     verify_minimum_noop_prefix_halt_profile_width,
     verify_minimum_repeated_jump_data_profile_width,
     verify_minimum_straight_line_io_profile_width]"

lemma select_minimum_searches:
  "select_minimum_verified_profile_width p source input = select_loop p source input minimum_searches None"
  by (simp add: select_minimum_verified_profile_width_def minimum_searches_def)

lemma full_failure:
  assumes wf: "wf_profile p" and sound: "sound_for p source v"
    and v: "pfrom_verified_source reserve v input = Inr m"
    and full: "pfrom_source reserve p source input = Inl e"
  shows "e = Load MemoryAllocation"
proof -
  have v_is: "geo_profile (vg_geometry v) = p" "vg_source v = source"
    using sound by (auto simp: sound_for_def)
  have pre: "preflight_profile p (source_word_requirement source) SAFE_RUST_PROFILED = Inr ()"
    using v v_is by (auto simp: pfrom_verified_source_Inr)
  have geo: "geo_memory_words (canonical p) = pd_memory_words p" by (simp add: canonical_def)
  have adm: "admissible (geo_memory_words (canonical p)) source"
    using verified_source_admissible[OF wf sound] by (simp add: canonical_def)
  have no: "\<nexists>img. load_profile reserve (canonical p) source = Inr img"
    using full pre by (auto simp: pfrom_source_def Let_def split: sum.splits)
  have "\<not> reserve (geo_memory_words (canonical p) - length (source_bytes source))"
    using no adm load_profile_ok_iff[OF canonical_wf[OF wf], of reserve source] by blast
  moreover have "admit_profile_source source (geo_memory_words (canonical p)) =
      Inr (map unat (source_bytes source))"
    using adm wf_geometry_bounds(2)[OF canonical_wf[OF wf]] by (simp add: admit_profile_source_Inr)
  ultimately have "load_profile reserve (canonical p) source = Inl MemoryAllocation"
    by (simp add: load_profile_def)
  then show ?thesis using full pre by (simp add: pfrom_source_def)
qed

lemma selection_le:
  "f \<in> set minimum_searches \<Longrightarrow> f p source = Inr u \<Longrightarrow> geo_word_trits (vg_geometry u) < pd_word_trits p \<Longrightarrow>
    admits_input (vg_geometry u) input \<Longrightarrow> \<exists>v. select_minimum_verified_profile_width p source input = Some v \<and>
      geo_word_trits (vg_geometry v) \<le> geo_word_trits (vg_geometry u)"
  using select_loop_minimal[of p source input minimum_searches None] by (simp add: select_minimum_searches)

section \<open>A concrete selection\<close>

lemma derived_loop_ok: "m * 3 ^ k \<le> U32_MAX \<Longrightarrow> derived_loop k m = Inr (m * 3 ^ k)"
proof (induction k arbitrary: m)
  case (Suc k)
  have "m * 3 * 1 \<le> m * 3 * 3 ^ k" by (rule mult_le_mono2) simp
  then have "m * 3 \<le> U32_MAX" using Suc.prems by (simp only: mult.assoc power_Suc)
  then show ?case using Suc by (simp add: checked_Some checked_mul_def TERNARY_RADIX_def mult.assoc)
qed simp

lemma derived_memory_words_ok:
  "wf_profile p \<Longrightarrow> 10 \<le> w \<Longrightarrow> w \<le> pd_word_trits p \<Longrightarrow> derived_memory_words p w = Inr (3 ^ w)"
  by (simp add: derived_memory_words_def MINIMUM_ADAPTIVE_WORD_TRITS_def derived_loop_ok pow3_u32 wf_profile_def)

text \<open>The concrete run: \<open>QP\<close>, two halts, on the fifteen-trit profile.\<close>

definition halting_source :: "u8 list" where "halting_source = [81, 80]"

lemma length_halting: "length halting_source = 2"
  by (simp add: halting_source_def)

lemma halting_cells:
  "is_source_whitespace 81 = False" "is_source_whitespace 80 = False"
  "decode_profile_instruction 81 0 = Some 118" "decode_profile_instruction 80 (Suc 0) = Some 118"
  "(118 \<in> load_instructions) = True" "source_bytes halting_source = [81, 80]"
  by code_simp+

lemma halting_admitted:
  "59049 \<le> m \<Longrightarrow> admit_profile_source halting_source m = Inr [81, 80]"
  by (simp add: halting_source_def admit_profile_source_def halting_cells U32_MAX_def)

lemma halting_admissible: "admissible 59049 halting_source"
  using halting_admitted[of 59049] admit_profile_source_Inr[of 59049 halting_source "[81, 80]"]
  by (simp add: U32_MAX_def)

lemma halting_searched:
  "verify_minimum_initial_halt_profile_width PROFILE_1 halting_source =
    Inr (vg_new Any 59049 PROFILE_1 10 InitialHalt halting_source)"
proof -
  have "derived_memory_words PROFILE_1 10 = Inr 59049"
    using derived_memory_words_ok[OF PROFILE_wf(2), of 10] by (simp add: profile_defs)
  then have "verify_initial_halt_profile_width PROFILE_1 halting_source 10 =
      Inr (vg_new Any 59049 PROFILE_1 10 InitialHalt halting_source)"
    by (simp add: verify_initial_halt_profile_width_def admitted_source_def halting_admitted
        decoded_cell_def halting_cells)
  moreover have "candidate_widths PROFILE_1 = 10 # [11..<16]"
    by (simp add: candidate_widths_def profile_defs MINIMUM_ADAPTIVE_WORD_TRITS_def upt_conv_Cons)
  ultimately show ?thesis
    by (simp add: verify_minimum_initial_halt_profile_width_def verify_minimum_width_def)
qed

lemma profile_1_size: "pd_word_trits PROFILE_1 = 15" "pd_memory_words PROFILE_1 = 14348907"
  by (simp_all add: PROFILE_1_def)

lemma halting_selected:
  obtains v where "select_minimum_verified_profile_width PROFILE_1 halting_source [] = Some v"
    "sound_for PROFILE_1 halting_source v" "geo_word_trits (vg_geometry v) = 10"
    "geo_memory_words (vg_geometry v) = 59049" "geo_profile (vg_geometry v) = PROFILE_1"
    "admits_input (vg_geometry v) []" "vg_source v = halting_source"
proof -
  have "verify_minimum_initial_halt_profile_width \<in> set minimum_searches" by (simp add: minimum_searches_def)
  from selection_le[OF this halting_searched, of "[]"] obtain v where
    v: "select_minimum_verified_profile_width PROFILE_1 halting_source [] = Some v"
    "geo_word_trits (vg_geometry v) \<le> 10"
    by (auto simp: profile_1_size admits_input_def)
  note s = selection_sound[OF PROFILE_wf(2) v(1)]
  obtain policy w kind where w: "v = vg_new policy (3 ^ w) PROFILE_1 w kind halting_source" "10 \<le> w"
    using s unfolding sound_for_def by blast
  then have "w = 10" using v(2) by simp
  then show ?thesis using that v(1) s w by simp
qed

lemma halting_preflight:
  "preflight_profile PROFILE_1 (source_word_requirement halting_source) SAFE_RUST_PROFILED = Inr ()"
  using preflight_profile_profiled[OF PROFILE_wf(2)] source_word_requirement_length[of halting_source]
  by (simp add: profile_1_size halting_cells U64_MAX_def length_halting)

lemma halting_loads:
  assumes "geo_profile g = PROFILE_1" and "wf_geometry g" and "59049 \<le> geo_memory_words g"
  shows "\<exists>img. load_profile (\<lambda>_. True) g halting_source = Inr img"
proof -
  have "admissible (geo_memory_words g) halting_source"
    using halting_admissible assms(3) by (auto simp: admissible_def)
  then show ?thesis using load_profile_ok_iff[OF assms(2)] by blast
qed
lemma halting_builds:
  obtains m m' where "pfrom_source (\<lambda>_. True) PROFILE_1 halting_source [] = Inr m'"
    "pfrom_adaptive_source (\<lambda>_. True) PROFILE_1 halting_source [] = Inr m"
    "length (pm_memory m) = 59049" "length (pm_memory m') = 14348907"
proof -
  obtain v where v: "select_minimum_verified_profile_width PROFILE_1 halting_source [] = Some v"
    "sound_for PROFILE_1 halting_source v" "geo_word_trits (vg_geometry v) = 10"
    "geo_memory_words (vg_geometry v) = 59049" "geo_profile (vg_geometry v) = PROFILE_1"
    "admits_input (vg_geometry v) []" "vg_source v = halting_source" by (rule halting_selected)
  have g: "wf_geometry (vg_geometry v)" using v by (simp add: wf_geometry_def PROFILE_wf)
  have c: "geo_profile (canonical PROFILE_1) = PROFILE_1" "geo_memory_words (canonical PROFILE_1) = 14348907"
    by (simp_all add: canonical_def profile_1_size)
  note g' = canonical_wf[OF PROFILE_wf(2)]
  obtain img where l: "load_profile (\<lambda>_. True) (vg_geometry v) halting_source = Inr img"
    using halting_loads[OF v(5) g] v(4) by auto
  obtain img' where l': "load_profile (\<lambda>_. True) (canonical PROFILE_1) halting_source = Inr img'"
    using halting_loads[OF c(1) g'] c(2) by auto
  have "pfrom_verified_source (\<lambda>_. True) v [] = Inr (fresh_machine (vg_geometry v) [] img)"
    using l v halting_preflight by (simp add: pfrom_verified_source_Inr)
  then have "pfrom_adaptive_source (\<lambda>_. True) PROFILE_1 halting_source [] =
      Inr (fresh_machine (vg_geometry v) [] img)"
    using v(1) by (simp add: pfrom_adaptive_source_def)
  moreover have "pfrom_source (\<lambda>_. True) PROFILE_1 halting_source [] =
      Inr (fresh_machine (canonical PROFILE_1) [] img')"
    using l' halting_preflight by (simp add: pfrom_source_Inr)
  ultimately show ?thesis
    using that load_profile_Inr(1)[OF g l] load_profile_Inr(1)[OF g' l'] v(4) c(2)
    by (simp add: fresh_machine_def)
qed

section \<open>Properties\<close>

text \<open>
  C4: building a machine with the narrow-width search on is unobservable. Where \<open>from_source\<close>
  builds the machine of the full profile, the adaptive constructor also builds one, and every
  bounded run of the two has the same outcome and leaves the same output, input cursor,
  termination and counters. Where it fails, so does \<open>from_source\<close>, for the same reason; and where
  \<open>from_source\<close> fails but it does not, the only cause is the memory the full image needs.
\<close>
theorem adaptive_construction_unobservable:
  assumes wf: "wf_profile p"
  shows "(\<forall>m'. pfrom_source reserve p source input = Inr m' \<longrightarrow>
      (\<exists>m. pfrom_adaptive_source reserve p source input = Inr m \<and> runs_alike m m')) \<and>
    (\<forall>e. pfrom_adaptive_source reserve p source input = Inl e \<longrightarrow>
      pfrom_source reserve p source input = Inl e) \<and>
    (\<forall>e m. pfrom_source reserve p source input = Inl e \<longrightarrow>
      pfrom_adaptive_source reserve p source input = Inr m \<longrightarrow> e = Load MemoryAllocation)"
proof (cases "select_minimum_verified_profile_width p source input")
  case None
  then show ?thesis by (auto simp: pfrom_adaptive_source_def)
next
  case (Some v)
  note sel = selection_sound[OF wf Some]
  show ?thesis
  proof (cases "pfrom_verified_source reserve v input")
    case (Inl e)
    then show ?thesis using Some by (auto simp: pfrom_adaptive_source_def)
  next
    case (Inr m)
    have "pfrom_adaptive_source reserve p source input = Inr m"
      using Some Inr by (simp add: pfrom_adaptive_source_def)
    moreover have "e = Load MemoryAllocation" if "pfrom_source reserve p source input = Inl e" for e
      using that full_failure[OF wf _ Inr] sel by blast
    ultimately show ?thesis using verified_runs_alike[OF wf _ Inr] sel by auto
  qed
qed

theorem adaptive_construction_unobservable_witness:
  "\<exists>m m'. pfrom_source (\<lambda>_. True) PROFILE_1 halting_source [] = Inr m' \<and>
    pfrom_adaptive_source (\<lambda>_. True) PROFILE_1 halting_source [] = Inr m \<and>
    length (pm_memory m) = 59049 \<and> length (pm_memory m') = 14348907 \<and> runs_alike m m'"
proof -
  obtain m m' where "pfrom_source (\<lambda>_. True) PROFILE_1 halting_source [] = Inr m'"
    "pfrom_adaptive_source (\<lambda>_. True) PROFILE_1 halting_source [] = Inr m"
    "length (pm_memory m) = 59049" "length (pm_memory m') = 14348907" by (rule halting_builds)
  then show ?thesis
    using adaptive_construction_unobservable[OF PROFILE_wf(2), of "\<lambda>_. True" halting_source "[]"]
    by auto
qed

text \<open>
  C13: the selected geometry is sound and the narrowest on offer: it is strictly narrower than the
  profile, admits the input, carries the certificate of \<open>sound_for\<close>, and no search admits the
  source and input at a smaller width; and nothing is selected only when no search admits them
  below the full width.
\<close>
theorem selected_width_is_sound_and_minimal:
  assumes wf: "wf_profile p"
  shows "case select_minimum_verified_profile_width p source input of
      Some v \<Rightarrow> sound_for p source v \<and> geo_word_trits (vg_geometry v) < pd_word_trits p \<and>
        admits_input (vg_geometry v) input \<and>
        (\<forall>f \<in> set minimum_searches. \<forall>u. f p source = Inr u \<and> admits_input (vg_geometry u) input \<longrightarrow>
          geo_word_trits (vg_geometry v) \<le> geo_word_trits (vg_geometry u))
    | None \<Rightarrow> (\<forall>f \<in> set minimum_searches. \<forall>u. f p source = Inr u \<longrightarrow>
        pd_word_trits p \<le> geo_word_trits (vg_geometry u) \<or> \<not> admits_input (vg_geometry u) input)"
proof (cases "select_minimum_verified_profile_width p source input")
  case None
  then show ?thesis
    using select_loop_minimal[of p source input minimum_searches None]
    by (auto simp: select_minimum_searches not_le)
next
  case (Some v)
  note sel = selection_sound[OF wf Some]
  have "geo_word_trits (vg_geometry v) \<le> geo_word_trits (vg_geometry u)"
    if "f \<in> set minimum_searches" "f p source = Inr u" "admits_input (vg_geometry u) input" for f u
  proof (cases "geo_word_trits (vg_geometry u) < pd_word_trits p")
    case True
    then show ?thesis
      using that Some select_loop_minimal[of p source input minimum_searches None]
      by (fastforce simp: select_minimum_searches)
  qed (use sel in linarith)
  then show ?thesis using Some sel by auto
qed

theorem selected_width_is_sound_and_minimal_witness:
  "\<exists>v. select_minimum_verified_profile_width PROFILE_1 halting_source [] = Some v \<and>
    geo_word_trits (vg_geometry v) = 10 \<and> sound_for PROFILE_1 halting_source v"
  using halting_selected selected_width_is_sound_and_minimal[OF PROFILE_wf(2), of halting_source "[]"]
  by (auto split: option.splits)

text \<open>
  A minimum search is the verifier at the first candidate width where it does not reject the
  source as too long; it runs out of candidates only when every one rejects it so.
\<close>
lemma minimum_search_takes_first_width_with_room:
  "verify_minimum_width p source f =
    (case find (\<lambda>w. f p source w \<noteq> Inl (Source PSourceTooLong)) (candidate_widths p) of
      Some w \<Rightarrow> f p source w
    | None \<Rightarrow> if pd_word_trits p < MINIMUM_ADAPTIVE_WORD_TRITS
        then Inl (WidthOutOfRange (pd_word_trits p) MINIMUM_ADAPTIVE_WORD_TRITS)
        else Inl (Source PSourceTooLong))"
proof -
  have "minimum_width_loop (\<lambda>e. e = Source PSourceTooLong) f p source missed ws =
      (case find (\<lambda>w. f p source w \<noteq> Inl (Source PSourceTooLong)) ws of
        Some w \<Rightarrow> f p source w
      | None \<Rightarrow> if ws = [] then (case missed of Some e \<Rightarrow> Inl e
          | None \<Rightarrow> Inl (WidthOutOfRange (pd_word_trits p) MINIMUM_ADAPTIVE_WORD_TRITS))
        else Inl (Source PSourceTooLong))" for missed ws
    by (induction ws arbitrary: missed) (auto split: sum.splits option.splits)
  moreover have "candidate_widths p = [] \<longleftrightarrow> pd_word_trits p < MINIMUM_ADAPTIVE_WORD_TRITS"
    by (auto simp: candidate_widths_def)
  ultimately show ?thesis by (simp add: verify_minimum_width_def split: option.split)
qed

end
