(* ===== verification/EffectIR.thy ===== *)
theory EffectIR
  imports Bytes ProfileLoading
begin

unbundle bit_operations_syntax

text \<open>
  \<open>domain/execution_ir.rs\<close>: the portable effect programs the native tiers consume. A program is
  projected from the observed steps of a profile machine; it lists the effects of the region and
  what the region reads before it writes it (live-ins of memory and registers), and renders to
  canonical bytes in one of four schema versions. The accessors that only return a field are not
  repeated. A \<open>BTreeMap\<close> is an association list in ascending key order, a \<open>BTreeSet\<close> a set.
\<close>

definition EFFECT_IR_VERSION :: u16 where "EFFECT_IR_VERSION = 3"
definition EFFECT_IR_WIDE_PROFILE_VERSION :: u16 where "EFFECT_IR_WIDE_PROFILE_VERSION = 4"
definition EFFECT_IR_EXECUTION_GEOMETRY_VERSION :: u16 where "EFFECT_IR_EXECUTION_GEOMETRY_VERSION = 5"
definition EFFECT_IR_REGISTER_MASK_VERSION :: u16 where "EFFECT_IR_REGISTER_MASK_VERSION = 6"
definition SEMANTIC_WIDTH_MINIMUM_TRITS :: usize where "SEMANTIC_WIDTH_MINIMUM_TRITS = 10"
definition IR_MAGIC :: "u8 list" where "IR_MAGIC = as_bytes ''MBIR''"

lemmas ir_versions = EFFECT_IR_VERSION_def EFFECT_IR_WIDE_PROFILE_VERSION_def
  EFFECT_IR_EXECUTION_GEOMETRY_VERSION_def EFFECT_IR_REGISTER_MASK_VERSION_def

subsection \<open>Programs and errors\<close>

record EffectOp =
  eff_after :: ProfileMachineObservation
  eff_before :: ProfileMachineObservation
  eff_input :: "TraceInput option"
  eff_memory_delta :: ProfileMemoryDelta
  eff_output :: "u8 option"

record MemoryLiveIn =
  li_address :: u32
  li_value :: u32

record ProfileExecutionGeometryRequirement =
  pegr_memory_words :: u32
  pegr_word_trits :: nat

datatype ProfileExecutionGeometryRequirementError = MemoryWords | WordWidth

record RegionEffectProgram =
  rep_effects :: "EffectOp list"
  rep_format_version :: u16
  rep_memory_live_ins :: "MemoryLiveIn list"
  rep_outcome :: RunOutcome
  rep_profile_fingerprint :: string
  rep_profile_id :: string
  rep_profile_requirement :: TargetProfileRequirement
  rep_step_budget :: usize

record ExecutionGeometryRegionEffectProgram =
  gep_execution_geometry :: ProfileExecutionGeometryRequirement
  gep_program :: RegionEffectProgram

record RegisterMaskedRegionEffectProgram =
  mep_program :: RegionEffectProgram
  mep_register_live_ins :: ProfileRegisterSet
  mep_register_writes :: "ProfileRegisterSet list"

datatype IrEncodingError =
    LengthOverflow
  | ProfileMemoryWordsOverflow
  | RegisterMaskCountMismatch
  | UnsupportedFormatVersion

datatype StepProgramProjectionError =
    ConflictingMemoryRead
  | ExecutionGeometry
  | FetchAddress
  | FetchValue
  | MissingFetch
  | StepOutcomeMismatch
  | RejectedTrace
  | TerminatedEntry

datatype RegisterMaskedRegionProjectionError =
    RegionConflictingMemoryRead
  | DiscontinuousTrace usize
  | RegionEmpty
  | RegionOutcomeMismatch
  | RegionProfileMismatch usize
  | RegionStep usize StepProgramProjectionError

definition effect_from_trace :: "ProfileStepTrace \<Rightarrow> EffectOp" where
  "effect_from_trace trace =
    \<lparr>eff_after = ptr_after trace, eff_before = ptr_before trace, eff_input = ptr_input trace,
     eff_memory_delta = ptr_memory_delta trace, eff_output = ptr_output trace\<rparr>"

subsection \<open>Declared execution geometry\<close>

fun ternary_memory_loop :: "nat \<Rightarrow> u32 \<Rightarrow> u32 option" where
  "ternary_memory_loop 0 v = Some v"
| "ternary_memory_loop (Suc n) v = Option.bind (checked_mul U32_MAX v 3) (ternary_memory_loop n)"

definition ternary_memory_words :: "nat \<Rightarrow> u32 option" where
  "ternary_memory_words word_trits = ternary_memory_loop word_trits 1"

definition geometry_requirement_new ::
  "nat \<Rightarrow> u32 \<Rightarrow>
    ProfileExecutionGeometryRequirementError + ProfileExecutionGeometryRequirement" where
  "geometry_requirement_new word_trits memory_words =
    (if word_trits < SEMANTIC_WIDTH_MINIMUM_TRITS then Inl WordWidth
     else case ternary_memory_words word_trits of
       None \<Rightarrow> Inl WordWidth
     | Some expected \<Rightarrow>
         if memory_words \<noteq> expected then Inl MemoryWords
         else Inr \<lparr>pegr_memory_words = memory_words, pegr_word_trits = word_trits\<rparr>)"

definition from_execution_geometry ::
  "ProfileExecutionGeometry \<Rightarrow> ProfileExecutionGeometryRequirement" where
  "from_execution_geometry geometry =
    \<lparr>pegr_memory_words = geo_memory_words geometry, pegr_word_trits = geo_word_trits geometry\<rparr>"

definition geometry_is_canonical_for ::
  "ProfileExecutionGeometryRequirement \<Rightarrow> ProfileDescriptor \<Rightarrow> bool" where
  "geometry_is_canonical_for self profile \<longleftrightarrow>
    pegr_word_trits self = pd_word_trits profile \<and> pegr_memory_words self = pd_memory_words profile"

definition pegr_eof_word :: "ProfileExecutionGeometryRequirement \<Rightarrow> u32" where
  "pegr_eof_word self = pegr_memory_words self - 1"

subsection \<open>The memory a program addresses\<close>

definition words_through_address :: "u32 \<Rightarrow> u64" where
  "words_through_address address = sat_add U64_MAX address 1"

definition observation_required_memory_words :: "ProfileMachineObservation \<Rightarrow> u64" where
  "observation_required_memory_words seen =
    max (words_through_address (preg_code_pointer (pobs_registers seen)))
      (words_through_address (preg_data_pointer (pobs_registers seen)))"

definition memory_write_required_memory_words :: "ProfileMemoryWrite option \<Rightarrow> u64" where
  "memory_write_required_memory_words write =
    (case write of None \<Rightarrow> 0 | Some change \<Rightarrow> words_through_address (pmw_address change))"

definition memory_delta_required_memory_words :: "ProfileMemoryDelta \<Rightarrow> u64" where
  "memory_delta_required_memory_words delta =
    max (memory_write_required_memory_words (pdelta_data delta))
      (memory_write_required_memory_words (pdelta_encryption delta))"

definition effect_required_memory_words :: "EffectOp \<Rightarrow> u64" where
  "effect_required_memory_words effect =
    max (max (observation_required_memory_words (eff_before effect))
        (observation_required_memory_words (eff_after effect)))
      (memory_delta_required_memory_words (eff_memory_delta effect))"

definition required_memory_words :: "MemoryLiveIn list \<Rightarrow> EffectOp list \<Rightarrow> u64" where
  "required_memory_words memory_live_ins effects =
    foldl (\<lambda>required effect. max required (effect_required_memory_words effect))
      (foldl (\<lambda>required item. max required (words_through_address (li_address item))) 0 memory_live_ins)
      effects"

definition region_required_memory_words :: "RegionEffectProgram \<Rightarrow> u64" where
  "region_required_memory_words self =
    required_memory_words (rep_memory_live_ins self) (rep_effects self)"

definition fits_declared_profile_capacity :: "RegionEffectProgram \<Rightarrow> bool" where
  "fits_declared_profile_capacity self \<longleftrightarrow>
    region_required_memory_words self \<le> req_memory_words (rep_profile_requirement self)"

definition fits_execution_geometry_capacity :: "ExecutionGeometryRegionEffectProgram \<Rightarrow> bool" where
  "fits_execution_geometry_capacity self \<longleftrightarrow>
    region_required_memory_words (gep_program self) \<le> pegr_memory_words (gep_execution_geometry self)"

subsection \<open>Projecting one step\<close>

text \<open>\<open>BTreeMap::insert\<close> on the ascending association list.\<close>

fun btree_insert :: "u32 \<Rightarrow> u32 \<Rightarrow> (u32 \<times> u32) list \<Rightarrow> (u32 \<times> u32) list" where
  "btree_insert k v [] = [(k, v)]"
| "btree_insert k v ((k', v') # entries) =
    (if k < k' then (k, v) # (k', v') # entries
     else if k = k' then (k, v) # entries
     else (k', v') # btree_insert k v entries)"

definition insert_trace_read ::
  "(u32 \<times> u32) list \<Rightarrow> ProfileMemoryRead \<Rightarrow> StepProgramProjectionError + (u32 \<times> u32) list" where
  "insert_trace_read live_ins read =
    (case map_of live_ins (read_address read) of
      Some v \<Rightarrow> if v \<noteq> read_value read then Inl ConflictingMemoryRead else Inr live_ins
    | None \<Rightarrow> Inr (btree_insert (read_address read) (read_value read) live_ins))"

fun insert_reads_loop ::
  "(u32 \<times> u32) list \<Rightarrow> ProfileMemoryRead list \<Rightarrow>
    StepProgramProjectionError + (u32 \<times> u32) list" where
  "insert_reads_loop live_ins [] = Inr live_ins"
| "insert_reads_loop live_ins (read # mreads) =
    and_then (insert_trace_read live_ins read) (\<lambda>live_ins. insert_reads_loop live_ins mreads)"

text \<open>\<open>into_iter().flatten()\<close> of an array of options.\<close>

definition present :: "'a option list \<Rightarrow> 'a list" where
  "present xs = concat (map (\<lambda>x. case x of None \<Rightarrow> [] | Some v \<Rightarrow> [v]) xs)"

definition live_in_list :: "(u32 \<times> u32) list \<Rightarrow> MemoryLiveIn list" where
  "live_in_list live_ins = map (\<lambda>(address, v). \<lparr>li_address = address, li_value = v\<rparr>) live_ins"

definition project_profile_step_trace ::
  "ProfileStepTrace \<Rightarrow> StepProgramProjectionError + (MemoryLiveIn list \<times> RunOutcome)" where
  "project_profile_step_trace trace =
    (if pobs_termination (ptr_before trace) \<noteq> None then Inl TerminatedEntry
     else
    and_then (ok_or MissingFetch (reads_fetch (ptr_memory_reads trace))) (\<lambda>fetch.
      if read_address fetch \<noteq> preg_code_pointer (pobs_registers (ptr_before trace))
      then Inl FetchAddress
      else if ptr_fetched_cell trace \<noteq> Some (read_value fetch) then Inl FetchValue
      else
    and_then (case ptr_result trace of
        Inr Continued \<Rightarrow>
          if pobs_termination (ptr_after trace) = None then Inr (BudgetExhausted 1)
          else Inl StepOutcomeMismatch
      | Inr (Terminated reason) \<Rightarrow>
          if pobs_termination (ptr_after trace) = Some reason then Inr (RunTerminated reason 1)
          else Inl StepOutcomeMismatch
      | Inl _ \<Rightarrow> Inl RejectedTrace) (\<lambda>outcome.
    and_then (insert_reads_loop [] (present [Some fetch, reads_data (ptr_memory_reads trace),
        reads_encryption (ptr_memory_reads trace)])) (\<lambda>live_ins.
      Inr (live_in_list live_ins, outcome)))))"

definition trace_uses_canonical_geometry :: "ProfileStepTrace \<Rightarrow> bool" where
  "trace_uses_canonical_geometry trace \<longleftrightarrow>
    geo_word_trits (ptr_geometry trace) = pd_word_trits (ptr_profile trace) \<and>
    geo_word_modulus (ptr_geometry trace) = pd_word_modulus (ptr_profile trace) \<and>
    geo_memory_words (ptr_geometry trace) = pd_memory_words (ptr_profile trace) \<and>
    geo_eof_word (ptr_geometry trace) = pd_eof_word (ptr_profile trace)"

definition one_step_program ::
  "ProfileStepTrace \<Rightarrow> u16 \<Rightarrow> MemoryLiveIn list \<Rightarrow> RunOutcome \<Rightarrow> RegionEffectProgram" where
  "one_step_program trace version memory_live_ins outcome =
    \<lparr>rep_effects = [effect_from_trace trace], rep_format_version = version,
     rep_memory_live_ins = memory_live_ins, rep_outcome = outcome,
     rep_profile_fingerprint = pd_fingerprint (ptr_profile trace),
     rep_profile_id = pd_id (ptr_profile trace),
     rep_profile_requirement = requirement_from_descriptor (ptr_profile trace),
     rep_step_budget = 1\<rparr>"

definition region_from_step_trace ::
  "ProfileStepTrace \<Rightarrow> StepProgramProjectionError + RegionEffectProgram" where
  "region_from_step_trace trace =
    (if \<not> trace_uses_canonical_geometry trace then Inl ExecutionGeometry
     else
    and_then (project_profile_step_trace trace) (\<lambda>(memory_live_ins, outcome).
      Inr (one_step_program trace EFFECT_IR_VERSION memory_live_ins outcome)))"

definition geometry_from_step_trace ::
  "ProfileStepTrace \<Rightarrow> StepProgramProjectionError + ExecutionGeometryRegionEffectProgram" where
  "geometry_from_step_trace trace =
    and_then (project_profile_step_trace trace) (\<lambda>(memory_live_ins, outcome).
      Inr \<lparr>gep_execution_geometry = from_execution_geometry (ptr_geometry trace),
           gep_program =
             one_step_program trace EFFECT_IR_EXECUTION_GEOMETRY_VERSION memory_live_ins outcome\<rparr>)"

definition masked_from_step_trace ::
  "ProfileStepTrace \<Rightarrow> StepProgramProjectionError + RegisterMaskedRegionEffectProgram" where
  "masked_from_step_trace trace =
    and_then (region_from_step_trace trace) (\<lambda>program.
      Inr \<lparr>mep_program = program\<lparr>rep_format_version := EFFECT_IR_REGISTER_MASK_VERSION\<rparr>,
           mep_register_live_ins = acc_reads (ptr_register_accesses trace),
           mep_register_writes = [acc_writes (ptr_register_accesses trace)]\<rparr>)"

subsection \<open>Projecting a region\<close>

record RegisterMaskedRegionProjection =
  rmrp_effects :: "EffectOp list"
  rmrp_memory_live_ins :: "MemoryLiveIn list"
  rmrp_register_live_ins :: ProfileRegisterSet
  rmrp_register_writes :: "ProfileRegisterSet list"

fun collect_reads_loop ::
  "ProfileMemoryRead list \<Rightarrow> (u32 \<times> u32) list \<Rightarrow> u32 set \<Rightarrow>
    RegisterMaskedRegionProjectionError + (u32 \<times> u32) list" where
  "collect_reads_loop [] live_ins written = Inr live_ins"
| "collect_reads_loop (read # mreads) live_ins written =
    (if read_address read \<in> written then collect_reads_loop mreads live_ins written
     else case map_of live_ins (read_address read) of
       Some v \<Rightarrow>
         if v \<noteq> read_value read then Inl RegionConflictingMemoryRead
         else collect_reads_loop mreads live_ins written
     | None \<Rightarrow>
         collect_reads_loop mreads (btree_insert (read_address read) (read_value read) live_ins) written)"

definition collect_region_memory_live_ins ::
  "ProfileStepTrace \<Rightarrow> (u32 \<times> u32) list \<Rightarrow> u32 set \<Rightarrow>
    RegisterMaskedRegionProjectionError + (u32 \<times> u32) list" where
  "collect_region_memory_live_ins trace live_ins written =
    collect_reads_loop (present [reads_fetch (ptr_memory_reads trace),
      reads_data (ptr_memory_reads trace), reads_encryption (ptr_memory_reads trace)]) live_ins written"

definition collect_region_register_live_ins ::
  "ProfileStepTrace \<Rightarrow> ProfileRegisterSet \<Rightarrow> ProfileRegisterSet \<Rightarrow> ProfileRegisterSet" where
  "collect_region_register_live_ins trace live_ins written =
    (let rreads = acc_reads (ptr_register_accesses trace)
     in live_ins
        \<lparr>rs_accumulator := rs_accumulator live_ins \<or> (rs_accumulator rreads \<and> \<not> rs_accumulator written),
         rs_code_pointer := rs_code_pointer live_ins \<or> (rs_code_pointer rreads \<and> \<not> rs_code_pointer written),
         rs_data_pointer := rs_data_pointer live_ins \<or> (rs_data_pointer rreads \<and> \<not> rs_data_pointer written)\<rparr>)"

definition merge_register_sets :: "ProfileRegisterSet \<Rightarrow> ProfileRegisterSet \<Rightarrow> ProfileRegisterSet" where
  "merge_register_sets destination source =
    destination
      \<lparr>rs_accumulator := rs_accumulator destination \<or> rs_accumulator source,
       rs_code_pointer := rs_code_pointer destination \<or> rs_code_pointer source,
       rs_data_pointer := rs_data_pointer destination \<or> rs_data_pointer source\<rparr>"

text \<open>The locals of the projection loop, one step at a time.\<close>

record ProjectionLocals =
  pl_live_memory :: "(u32 \<times> u32) list"
  pl_written_memory :: "u32 set"
  pl_live_registers :: ProfileRegisterSet
  pl_written_registers :: ProfileRegisterSet
  pl_effects :: "EffectOp list"
  pl_register_writes :: "ProfileRegisterSet list"
  pl_previous_after :: "ProfileMachineObservation option"

definition projection_locals_init :: ProjectionLocals where
  "projection_locals_init =
    \<lparr>pl_live_memory = [], pl_written_memory = {}, pl_live_registers = profile_register_set_default,
     pl_written_registers = profile_register_set_default, pl_effects = [], pl_register_writes = [],
     pl_previous_after = None\<rparr>"

definition written_addresses :: "ProfileMemoryDelta \<Rightarrow> u32 list" where
  "written_addresses delta = map pmw_address (present [pdelta_data delta, pdelta_encryption delta])"

definition project_region_step ::
  "ProfileDescriptor \<Rightarrow> usize \<Rightarrow> ProfileStepTrace \<Rightarrow> ProjectionLocals \<Rightarrow>
    RegisterMaskedRegionProjectionError + ProjectionLocals" where
  "project_region_step profile index trace locals =
    (if ptr_profile trace \<noteq> profile then Inl (RegionProfileMismatch index)
     else if pl_previous_after locals \<noteq> None \<and> pl_previous_after locals \<noteq> Some (ptr_before trace)
     then Inl (DiscontinuousTrace index)
     else
    and_then (map_err (RegionStep index) (region_from_step_trace trace)) (\<lambda>_.
    and_then (collect_region_memory_live_ins trace (pl_live_memory locals) (pl_written_memory locals))
      (\<lambda>live_memory.
      Inr \<lparr>pl_live_memory = live_memory,
           pl_written_memory =
             pl_written_memory locals \<union> set (written_addresses (ptr_memory_delta trace)),
           pl_live_registers =
             collect_region_register_live_ins trace (pl_live_registers locals) (pl_written_registers locals),
           pl_written_registers =
             merge_register_sets (pl_written_registers locals) (acc_writes (ptr_register_accesses trace)),
           pl_effects = pl_effects locals @ [effect_from_trace trace],
           pl_register_writes = pl_register_writes locals @ [acc_writes (ptr_register_accesses trace)],
           pl_previous_after = Some (ptr_after trace)\<rparr>)))"

fun project_region_loop ::
  "ProfileDescriptor \<Rightarrow> usize \<Rightarrow> ProfileStepTrace list \<Rightarrow> ProjectionLocals \<Rightarrow>
    RegisterMaskedRegionProjectionError + ProjectionLocals" where
  "project_region_loop profile index [] locals = Inr locals"
| "project_region_loop profile index (trace # traces) locals =
    and_then (project_region_step profile index trace locals) (\<lambda>locals.
      project_region_loop profile (index + 1) traces locals)"

definition project_profile_region_traces ::
  "ProfileDescriptor \<Rightarrow> ProfileStepTrace list \<Rightarrow>
    RegisterMaskedRegionProjectionError + RegisterMaskedRegionProjection" where
  "project_profile_region_traces profile traces =
    and_then (project_region_loop profile 0 traces projection_locals_init) (\<lambda>locals.
      Inr \<lparr>rmrp_effects = pl_effects locals,
           rmrp_memory_live_ins = live_in_list (pl_live_memory locals),
           rmrp_register_live_ins = pl_live_registers locals,
           rmrp_register_writes = pl_register_writes locals\<rparr>)"

definition validate_profile_region_final_state ::
  "ProfileStepTrace list \<Rightarrow> RunOutcome \<Rightarrow> RegisterMaskedRegionProjectionError + unit" where
  "validate_profile_region_final_state traces outcome =
    and_then (ok_or RegionEmpty (if traces = [] then None else Some (last traces))) (\<lambda>final_trace.
      let valid = (case outcome of
            BudgetExhausted _ \<Rightarrow> pobs_termination (ptr_after final_trace) = None
          | RunTerminated reason _ \<Rightarrow> pobs_termination (ptr_after final_trace) = Some reason)
      in if valid then Inr () else Inl RegionOutcomeMismatch)"

definition validate_profile_region_outcome ::
  "ProfileStepTrace list \<Rightarrow> usize \<Rightarrow> RunOutcome \<Rightarrow> RegisterMaskedRegionProjectionError + unit" where
  "validate_profile_region_outcome traces step_budget outcome =
    (if traces = [] then Inl RegionEmpty
     else
    and_then (case outcome of
        BudgetExhausted steps \<Rightarrow> if steps \<noteq> step_budget then Inl RegionOutcomeMismatch else Inr steps
      | RunTerminated _ steps \<Rightarrow> if steps > step_budget then Inl RegionOutcomeMismatch else Inr steps)
      (\<lambda>steps. if steps = length traces then Inr () else Inl RegionOutcomeMismatch))"

definition from_profile_region_traces ::
  "ProfileDescriptor \<Rightarrow> ProfileStepTrace list \<Rightarrow> usize \<Rightarrow> RunOutcome \<Rightarrow>
    RegisterMaskedRegionProjectionError + RegisterMaskedRegionEffectProgram" where
  "from_profile_region_traces profile traces step_budget outcome =
    and_then (validate_profile_region_outcome traces step_budget outcome) (\<lambda>_.
    and_then (project_profile_region_traces profile traces) (\<lambda>projection.
    and_then (validate_profile_region_final_state traces outcome) (\<lambda>_.
      Inr \<lparr>mep_program =
             \<lparr>rep_effects = rmrp_effects projection,
              rep_format_version = EFFECT_IR_REGISTER_MASK_VERSION,
              rep_memory_live_ins = rmrp_memory_live_ins projection, rep_outcome = outcome,
              rep_profile_fingerprint = pd_fingerprint profile, rep_profile_id = pd_id profile,
              rep_profile_requirement = requirement_from_descriptor profile,
              rep_step_budget = step_budget\<rparr>,
           mep_register_live_ins = rmrp_register_live_ins projection,
           mep_register_writes = rmrp_register_writes projection\<rparr>)))"

subsection \<open>Canonical bytes\<close>

definition ir_push_u16 :: "u8 list \<Rightarrow> u16 \<Rightarrow> u8 list" where
  "ir_push_u16 out v = out @ le_bytes 2 v"

definition ir_push_u32 :: "u8 list \<Rightarrow> u32 \<Rightarrow> u8 list" where
  "ir_push_u32 out v = out @ le_bytes 4 v"

definition ir_push_u64 :: "u8 list \<Rightarrow> u64 \<Rightarrow> u8 list" where
  "ir_push_u64 out v = out @ le_bytes 8 v"

definition push_usize :: "u8 list \<Rightarrow> usize \<Rightarrow> IrEncodingError + u8 list" where
  "push_usize out v =
    and_then (ok_or LengthOverflow (if v \<le> U64_MAX then Some v else None)) (\<lambda>v.
      Inr (ir_push_u64 out v))"

definition push_bytes :: "u8 list \<Rightarrow> u8 list \<Rightarrow> IrEncodingError + u8 list" where
  "push_bytes out v = and_then (push_usize out (length v)) (\<lambda>out. Inr (out @ v))"

definition push_termination :: "u8 list \<Rightarrow> Termination option \<Rightarrow> u8 list" where
  "push_termination out term_reason =
    out @ [case term_reason of
        None \<Rightarrow> 0
      | Some HaltInstruction \<Rightarrow> 1
      | Some NonGraphicalCell \<Rightarrow> 2]"

definition push_run_outcome :: "u8 list \<Rightarrow> RunOutcome \<Rightarrow> IrEncodingError + u8 list" where
  "push_run_outcome out outcome =
    (case outcome of
      BudgetExhausted steps \<Rightarrow> push_usize (out @ [0]) steps
    | RunTerminated reason steps \<Rightarrow> push_usize (push_termination (out @ [1]) (Some reason)) steps)"

definition push_register_set :: "u8 list \<Rightarrow> ProfileRegisterSet \<Rightarrow> u8 list" where
  "push_register_set out registers =
    (let mask = (0 :: u8);
         mask = (if rs_accumulator registers then mask OR 1 else mask);
         mask = (if rs_code_pointer registers then mask OR 2 else mask);
         mask = (if rs_data_pointer registers then mask OR 4 else mask)
     in out @ [mask])"

fun push_features_loop :: "u8 list \<Rightarrow> string list \<Rightarrow> IrEncodingError + u8 list" where
  "push_features_loop out [] = Inr out"
| "push_features_loop out (feature # features) =
    and_then (push_bytes out (as_bytes feature)) (\<lambda>out. push_features_loop out features)"

definition push_profile_requirement ::
  "u8 list \<Rightarrow> TargetProfileRequirement \<Rightarrow> u16 \<Rightarrow> IrEncodingError + u8 list" where
  "push_profile_requirement out requirement format_version =
    and_then (push_bytes out (as_bytes (req_version requirement))) (\<lambda>out.
    and_then (push_usize out (length (req_features requirement))) (\<lambda>out.
    and_then (push_features_loop out (req_features requirement)) (\<lambda>out.
      let out = out @ [of_nat (req_word_trits requirement)]
      in if format_version = EFFECT_IR_VERSION then
           (if req_memory_words requirement \<le> U32_MAX
            then Inr (ir_push_u32 out (req_memory_words requirement))
            else Inl ProfileMemoryWordsOverflow)
         else if format_version \<in> {EFFECT_IR_WIDE_PROFILE_VERSION,
             EFFECT_IR_EXECUTION_GEOMETRY_VERSION, EFFECT_IR_REGISTER_MASK_VERSION}
         then Inr (ir_push_u64 out (req_memory_words requirement))
         else Inl UnsupportedFormatVersion)))"

definition push_execution_geometry ::
  "u8 list \<Rightarrow> ProfileExecutionGeometryRequirement \<Rightarrow> u8 list" where
  "push_execution_geometry out geometry =
    ir_push_u32 (out @ [of_nat (pegr_word_trits geometry)]) (pegr_memory_words geometry)"

definition push_observation ::
  "u8 list \<Rightarrow> ProfileMachineObservation \<Rightarrow> IrEncodingError + u8 list" where
  "push_observation out seen =
    and_then (push_usize out (pobs_input_consumed seen)) (\<lambda>out.
    and_then (push_usize out (pobs_output_len seen)) (\<lambda>out.
      let out = ir_push_u32 out (preg_accumulator (pobs_registers seen));
          out = ir_push_u32 out (preg_code_pointer (pobs_registers seen));
          out = ir_push_u32 out (preg_data_pointer (pobs_registers seen))
      in Inr (push_termination out (pobs_termination seen))))"

definition push_memory_write :: "u8 list \<Rightarrow> ProfileMemoryWrite option \<Rightarrow> u8 list" where
  "push_memory_write out write =
    (case write of
      None \<Rightarrow> out @ [0]
    | Some change \<Rightarrow>
        ir_push_u32 (ir_push_u32 (ir_push_u32 (out @ [1]) (pmw_address change)) (pmw_before change))
          (pmw_after change))"

definition push_memory_delta :: "u8 list \<Rightarrow> ProfileMemoryDelta \<Rightarrow> u8 list" where
  "push_memory_delta out delta =
    push_memory_write (push_memory_write out (pdelta_data delta)) (pdelta_encryption delta)"

definition push_effect :: "u8 list \<Rightarrow> EffectOp \<Rightarrow> IrEncodingError + u8 list" where
  "push_effect out effect =
    and_then (push_observation out (eff_before effect)) (\<lambda>out.
    and_then (push_observation out (eff_after effect)) (\<lambda>out.
      let out = out @ (case eff_input effect of
            None \<Rightarrow> [0] | Some (TraceByte v) \<Rightarrow> [1, v] | Some EndOfInput \<Rightarrow> [2]);
          out = out @ (case eff_output effect of None \<Rightarrow> [0] | Some v \<Rightarrow> [1, v])
      in Inr (push_memory_delta out (eff_memory_delta effect))))"

fun push_live_ins_loop :: "u8 list \<Rightarrow> MemoryLiveIn list \<Rightarrow> u8 list" where
  "push_live_ins_loop out [] = out"
| "push_live_ins_loop out (live_in # live_ins) =
    push_live_ins_loop (ir_push_u32 (ir_push_u32 out (li_address live_in)) (li_value live_in)) live_ins"

fun push_effects_loop :: "u8 list \<Rightarrow> EffectOp list \<Rightarrow> IrEncodingError + u8 list" where
  "push_effects_loop out [] = Inr out"
| "push_effects_loop out (effect # effects) =
    and_then (push_effect out effect) (\<lambda>out. push_effects_loop out effects)"

fun push_masked_effects_loop ::
  "u8 list \<Rightarrow> (EffectOp \<times> ProfileRegisterSet) list \<Rightarrow> IrEncodingError + u8 list" where
  "push_masked_effects_loop out [] = Inr out"
| "push_masked_effects_loop out ((effect, rwrites) # effects) =
    and_then (push_effect out effect) (\<lambda>out.
      push_masked_effects_loop (push_register_set out rwrites) effects)"

definition is_canonical_effect_ir_version :: "u16 \<Rightarrow> bool" where
  "is_canonical_effect_ir_version format_version \<longleftrightarrow>
    format_version \<in> {EFFECT_IR_VERSION, EFFECT_IR_WIDE_PROFILE_VERSION}"

definition canonical_bytes :: "RegionEffectProgram \<Rightarrow> IrEncodingError + u8 list" where
  "canonical_bytes self =
    (if \<not> is_canonical_effect_ir_version (rep_format_version self) then Inl UnsupportedFormatVersion
     else
       let out = ir_push_u16 IR_MAGIC (rep_format_version self)
       in
    and_then (push_bytes out (as_bytes (rep_profile_id self))) (\<lambda>out.
    and_then (push_bytes out (as_bytes (rep_profile_fingerprint self))) (\<lambda>out.
    and_then (push_profile_requirement out (rep_profile_requirement self) (rep_format_version self)) (\<lambda>out.
    and_then (push_usize out (rep_step_budget self)) (\<lambda>out.
    and_then (push_run_outcome out (rep_outcome self)) (\<lambda>out.
    and_then (push_usize out (length (rep_memory_live_ins self))) (\<lambda>out.
    and_then (push_usize (push_live_ins_loop out (rep_memory_live_ins self))
      (length (rep_effects self))) (\<lambda>out.
      push_effects_loop out (rep_effects self)))))))))"

definition geometry_canonical_bytes ::
  "ExecutionGeometryRegionEffectProgram \<Rightarrow> IrEncodingError + u8 list" where
  "geometry_canonical_bytes self =
    (let out = ir_push_u16 IR_MAGIC EFFECT_IR_EXECUTION_GEOMETRY_VERSION;
         program = gep_program self
     in
    and_then (push_bytes out (as_bytes (rep_profile_id program))) (\<lambda>out.
    and_then (push_bytes out (as_bytes (rep_profile_fingerprint program))) (\<lambda>out.
    and_then (push_profile_requirement out (rep_profile_requirement program)
      EFFECT_IR_EXECUTION_GEOMETRY_VERSION) (\<lambda>out.
    and_then (push_usize (push_execution_geometry out (gep_execution_geometry self))
      (rep_step_budget program)) (\<lambda>out.
    and_then (push_run_outcome out (rep_outcome program)) (\<lambda>out.
    and_then (push_usize out (length (rep_memory_live_ins program))) (\<lambda>out.
    and_then (push_usize (push_live_ins_loop out (rep_memory_live_ins program))
      (length (rep_effects program))) (\<lambda>out.
      push_effects_loop out (rep_effects program)))))))))"

definition masked_canonical_bytes ::
  "RegisterMaskedRegionEffectProgram \<Rightarrow> IrEncodingError + u8 list" where
  "masked_canonical_bytes self =
    (let program = mep_program self
     in if rep_format_version program \<noteq> EFFECT_IR_REGISTER_MASK_VERSION then Inl UnsupportedFormatVersion
        else if length (rep_effects program) \<noteq> length (mep_register_writes self)
        then Inl RegisterMaskCountMismatch
        else
          let out = ir_push_u16 IR_MAGIC EFFECT_IR_REGISTER_MASK_VERSION
          in
    and_then (push_bytes out (as_bytes (rep_profile_id program))) (\<lambda>out.
    and_then (push_bytes out (as_bytes (rep_profile_fingerprint program))) (\<lambda>out.
    and_then (push_profile_requirement out (rep_profile_requirement program)
      EFFECT_IR_REGISTER_MASK_VERSION) (\<lambda>out.
    and_then (push_usize out (rep_step_budget program)) (\<lambda>out.
    and_then (push_run_outcome out (rep_outcome program)) (\<lambda>out.
    and_then (push_usize out (length (rep_memory_live_ins program))) (\<lambda>out.
    and_then (push_usize (push_register_set (push_live_ins_loop out (rep_memory_live_ins program))
      (mep_register_live_ins self)) (length (rep_effects program))) (\<lambda>out.
      push_masked_effects_loop out (zip (rep_effects program) (mep_register_writes self))))))))))"

end
