(* ===== verification/RegionReplay.thy ===== *)
theory RegionReplay
  imports EffectIR Lockstep
begin

text \<open>
  What the live-ins of a projected region are worth. A step of the profile machine depends on
  nothing but its streams, the registers its evidence reports as read and the cells its evidence
  reports as read; so a machine that meets the live-ins of a region replays the region.
\<close>

subsection \<open>The evidence of a step, in closed form\<close>

definition reads_data_cell :: "ProfileInstruction \<Rightarrow> bool" where
  "reads_data_cell i \<longleftrightarrow> i \<in> {PCrazy, PRotate, PJumpCode, PJumpData}"

definition step_reads :: "ProfileMachine \<Rightarrow> ProfileInstruction \<Rightarrow> ProfileMemoryReads" where
  "step_reads m i =
    (let c = preg_code_pointer (pm_registers m); d = preg_data_pointer (pm_registers m);
         p = pplanned m i; target = preg_code_pointer (pp_registers p);
         cell = (\<lambda>a. Some \<lparr>read_address = a, read_value = pm_memory m ! a\<rparr>)
     in \<lparr>reads_data = (if reads_data_cell i then cell d else None),
         reads_encryption = (if pp_memory_write p \<noteq> None \<and> d = target then None else cell target),
         reads_fetch = cell c\<rparr>)"

definition step_accesses :: "ProfileMachine \<Rightarrow> ProfileInstruction \<Rightarrow> ProfileRegisterAccesses" where
  "step_accesses m i =
    \<lparr>acc_reads = \<lparr>rs_accumulator = i \<in> {PCrazy, POutput}, rs_code_pointer = True, rs_data_pointer = True\<rparr>,
     acc_writes = \<lparr>rs_accumulator = i \<in> {PCrazy, PRotate, PInput}, rs_code_pointer = True,
       rs_data_pointer = True\<rparr>\<rparr>"

definition step_delta :: "ProfileMachine \<Rightarrow> ProfileTransitionPlan \<Rightarrow> u32 \<Rightarrow> ProfileMemoryDelta" where
  "step_delta m p e =
    (let target = preg_code_pointer (pp_registers p);
         change = (\<lambda>a v. if pm_memory m ! a \<noteq> v
           then Some \<lparr>pmw_address = a, pmw_after = v, pmw_before = pm_memory m ! a\<rparr> else None)
     in \<lparr>pdelta_data = (case pp_memory_write p of
           Some (a, v) \<Rightarrow> if a \<noteq> target then change a v else None | None \<Rightarrow> None),
         pdelta_encryption = change target e\<rparr>)"

lemma pmemory_delta_step: "plan_fits m p \<Longrightarrow> pmemory_delta m p e = Inr (step_delta m p e)"
  by (cases "pp_memory_write p")
    (auto simp: pmemory_delta_def step_delta_def Let_def plan_fits_def split: prod.splits)

lemma step_after_decode_exact:
  assumes wf: "wf_pmachine m" and i: "i \<noteq> PHalt" and p: "p = pplanned m i"
    and t: "profile_cell_is_graphical (pencryption_cell m p)"
    and e: "e = unat (XLAT2 ! (pencryption_cell m p - 33))"
    and mr: "mr = profile_memory_reads_default\<lparr>reads_fetch := Some
        \<lparr>read_address = preg_code_pointer (pm_registers m),
         read_value = pm_memory m ! preg_code_pointer (pm_registers m)\<rparr>\<rparr>"
    and acc: "acc = profile_register_accesses_default\<lparr>acc_reads :=
        (acc_reads profile_register_accesses_default)\<lparr>rs_code_pointer := True\<rparr>\<rparr>"
  shows "step_after_decode i mr acc m =
    (exec_continued (step_delta m p e) (step_reads m i) (step_accesses m i), pcommitted m p e)"
proof -
  note wfd = wf_pmachineD[OF wf]
  have d: "preg_data_pointer (pm_registers m) < length (pm_memory m)" using wfd by simp
  have fits: "plan_fits m p" unfolding p by (rule pplanned_fits[OF wf])
  then have target: "preg_code_pointer (pp_registers p) < length (pm_memory m)" by (simp add: plan_fits_def)
  define rr where "rr = \<lparr>rs_accumulator = i \<in> {PCrazy, POutput}, rs_code_pointer = True,
    rs_data_pointer = reads_data_cell i\<rparr>"
  define mr1 where "mr1 = mr\<lparr>reads_data := (if reads_data_cell i then Some
    \<lparr>read_address = preg_data_pointer (pm_registers m),
     read_value = pm_memory m ! preg_data_pointer (pm_registers m)\<rparr> else None)\<rparr>"
  have plan: "pplan m i mr (acc_reads acc) = (Inr p, mr1, rr)"
    using d by (cases i) (simp_all add: pplan_def p pplanned_def Let_def pplan_crazy_def pplan_rotate_def
        semantic_data_read_def pplan_init_def mr1_def rr_def reads_data_cell_def mr acc
        profile_memory_reads_default_def profile_register_accesses_default_def
        profile_register_set_default_def)
  have slot: "pp_memory_write p = Some (a, v) \<Longrightarrow> a = preg_data_pointer (pm_registers m)" for a v
    by (cases i) (simp_all add: p pplanned_def Let_def pplan_init_def pplan_input_def split: option.splits)
  have val: "pvalidate_encryption m p mr1 = (Inr e, step_reads m i)"
    using target t slot d
    by (auto simp: pvalidate_encryption_def Let_def pencryption_cell_def pplanned_memory_def e
        encrypt_profile_cell_def encrypt_profile_some profile_cell_is_graphical_def step_reads_def
        p[symmetric] mr1_def mr profile_memory_reads_default_def nth_list_update split: option.splits if_splits)
  obtain acc2 where com: "pcommit m p e (acc\<lparr>acc_reads := rr\<rparr>) = (Inr (), pcommitted m p e, acc2)"
    using pcommit_fits[OF fits XLAT2_lt_modulus[OF wfd(1)]] e by blast
  have "acc2 = \<lparr>acc_reads = rr\<lparr>rs_code_pointer := True, rs_data_pointer := True\<rparr>,
      acc_writes = (pp_register_writes p)\<lparr>rs_code_pointer := True, rs_data_pointer := True\<rparr>\<rparr>"
    using com by (auto simp: pcommit_def Let_def split: option.splits sum.splits prod.splits if_splits)
  moreover have "rs_accumulator (pp_register_writes p) \<longleftrightarrow> i \<in> {PCrazy, PRotate, PInput}"
    by (cases i) (simp_all add: p pplanned_def Let_def pplan_init_def pplan_input_def
        profile_register_set_default_def split: option.splits)
  ultimately have acc2: "acc2 = step_accesses m i"
    by (simp add: rr_def step_accesses_def)
  show ?thesis
    using i plan val com acc2 pmemory_delta_step[OF fits]
    by (simp add: step_after_decode_def Let_def)
qed

text \<open>The whole of a successful step: a cell that is not graphical, a halt, or a committed plan.\<close>

definition fetch_only :: "ProfileMachine \<Rightarrow> ProfileMemoryReads" where
  "fetch_only m = \<lparr>reads_data = None, reads_encryption = None, reads_fetch = Some
    \<lparr>read_address = preg_code_pointer (pm_registers m),
     read_value = pm_memory m ! preg_code_pointer (pm_registers m)\<rparr>\<rparr>"

definition fetch_access :: ProfileRegisterAccesses where
  "fetch_access = profile_register_accesses_default\<lparr>acc_reads :=
    profile_register_set_default\<lparr>rs_code_pointer := True\<rparr>\<rparr>"

lemma step_execution_exact:
  assumes wf: "wf_pmachine m" and live: "pm_termination m = None"
  shows "step_execution m =
    (let cell = pm_memory m ! preg_code_pointer (pm_registers m); i = pdecoded m; p = pplanned m i;
         t = pencryption_cell m p; e = unat (XLAT2 ! (t - 33))
     in if \<not> profile_cell_is_graphical cell then
          (if pd_kind (pm_profile m) = HistoricalConformance
           then (exec_continued profile_memory_delta_default (fetch_only m) fetch_access, m)
           else (exec_outcome (fetch_only m) fetch_access (Terminated NonGraphicalCell),
             m\<lparr>pm_termination := Some NonGraphicalCell\<rparr>))
        else if i = PHalt then
          (exec_outcome (fetch_only m) fetch_access (Terminated HaltInstruction),
           m\<lparr>pm_termination := Some HaltInstruction\<rparr>)
        else if \<not> profile_cell_is_graphical t then step_execution m
        else (exec_continued (step_delta m p e) (step_reads m i) (step_accesses m i), pcommitted m p e))"
proof -
  have c: "preg_code_pointer (pm_registers m) < length (pm_memory m)" using wf_pmachineD[OF wf] by simp
  have start: "step_execution m = step_after_fetch (pm_memory m ! preg_code_pointer (pm_registers m))
      (fetch_only m) fetch_access m"
    using live c by (simp add: step_execution_def Let_def fetch_only_def fetch_access_def
        profile_memory_reads_default_def profile_register_accesses_default_def)
  show ?thesis
  proof (cases "profile_cell_is_graphical (pm_memory m ! preg_code_pointer (pm_registers m))")
    case False
    then show ?thesis by (simp add: start step_after_fetch_def)
  next
    case True
    have "decode_profile_instruction (pm_memory m ! preg_code_pointer (pm_registers m))
        (preg_code_pointer (pm_registers m)) =
      Some (XLAT1 ! ((pm_memory m ! preg_code_pointer (pm_registers m) - 33 +
        preg_code_pointer (pm_registers m) mod 94) mod 94))"
      using True by (simp add: decode_profile_instruction_def decode_profile_some
          profile_cell_is_graphical_def)
    then have "step_execution m = step_after_decode (pdecoded m) (fetch_only m) fetch_access m"
      using True by (simp add: start step_after_fetch_def pdecoded_def)
    moreover have "step_after_decode (pdecoded m) (fetch_only m) fetch_access m =
        (exec_outcome (fetch_only m) fetch_access (Terminated HaltInstruction),
         m\<lparr>pm_termination := Some HaltInstruction\<rparr>)" if "pdecoded m = PHalt"
      using that by (simp add: step_after_decode_def)
    moreover note step_after_decode_exact[OF wf _ refl _ refl, of "pdecoded m" "fetch_only m" fetch_access]
    ultimately show ?thesis
      using True by (simp add: Let_def fetch_only_def fetch_access_def profile_memory_reads_default_def
          profile_register_accesses_default_def)
  qed
qed

subsection \<open>A step depends on what it reads\<close>

definition registers_agree :: "ProfileRegisterSet \<Rightarrow> ProfileRegisters \<Rightarrow> ProfileRegisters \<Rightarrow> bool" where
  "registers_agree s r r' \<longleftrightarrow>
    (rs_accumulator s \<longrightarrow> preg_accumulator r = preg_accumulator r') \<and>
    (rs_code_pointer s \<longrightarrow> preg_code_pointer r = preg_code_pointer r') \<and>
    (rs_data_pointer s \<longrightarrow> preg_data_pointer r = preg_data_pointer r')"

definition reads_of :: "ProfileMemoryReads \<Rightarrow> ProfileMemoryRead list" where
  "reads_of r = present [reads_fetch r, reads_data r, reads_encryption r]"

definition holds_reads :: "ProfileMachine \<Rightarrow> ProfileMemoryReads \<Rightarrow> bool" where
  "holds_reads m r \<longleftrightarrow> (\<forall>read \<in> set (reads_of r). pm_memory m ! read_address read = read_value read)"

text \<open>Two machines of one program in the same place of their streams.\<close>

definition same_streams :: "ProfileMachine \<Rightarrow> ProfileMachine \<Rightarrow> bool" where
  "same_streams m m' \<longleftrightarrow> pm_geometry m = pm_geometry m' \<and> pm_profile m = pm_profile m' \<and>
    pm_input m = pm_input m' \<and> pm_input_cursor m = pm_input_cursor m' \<and> pm_output m = pm_output m' \<and>
    pm_termination m = pm_termination m'"

lemma present_simps [simp]:
  "present [] = []" "present (None # xs) = present xs" "present (Some x # xs) = x # present xs"
  by (simp_all add: present_def)

lemma pplanned_same:
  assumes "same_streams m m'" and "registers_agree (acc_reads (step_accesses m i)) (pm_registers m) (pm_registers m')"
    and "reads_data_cell i \<Longrightarrow>
      pm_memory m' ! preg_data_pointer (pm_registers m) = pm_memory m ! preg_data_pointer (pm_registers m)"
  shows "pp_memory_write (pplanned m' i) = pp_memory_write (pplanned m i)"
    "pp_output (pplanned m' i) = pp_output (pplanned m i)"
    "pp_input_advance (pplanned m' i) = pp_input_advance (pplanned m i)"
    "preg_code_pointer (pp_registers (pplanned m' i)) = preg_code_pointer (pp_registers (pplanned m i))"
    "preg_data_pointer (pp_registers (pplanned m' i)) = preg_data_pointer (pp_registers (pplanned m i))"
    "rs_accumulator (acc_writes (step_accesses m i)) \<or> preg_accumulator (pm_registers m) = preg_accumulator (pm_registers m') \<Longrightarrow>
      preg_accumulator (pp_registers (pplanned m' i)) = preg_accumulator (pp_registers (pplanned m i))"
  using assms
  by (cases i; auto simp: pplanned_def Let_def pplan_init_def pplan_input_def step_accesses_def
      registers_agree_def reads_data_cell_def same_streams_def split: option.splits)+

definition written_cells :: "ProfileMemoryDelta \<Rightarrow> nat set" where
  "written_cells delta = set (written_addresses delta)"

text \<open>
  What a machine that replays the step of another ends with: its streams and the registers either
  step reported, the cells the step wrote, and its own memory elsewhere.
\<close>

definition replayed ::
  "ProfileStepExecution \<Rightarrow> ProfileMachine \<Rightarrow> ProfileMachine \<Rightarrow> ProfileMachine \<Rightarrow> bool" where
  "replayed ex t m' t' \<longleftrightarrow> same_streams t t' \<and> length (pm_memory t') = length (pm_memory m') \<and>
    (\<forall>a < length (pm_memory m'). pm_memory t' ! a =
      (if a \<in> written_cells (exec_memory_delta ex) then pm_memory t ! a else pm_memory m' ! a))"

lemma write_slot:
  "pp_memory_write (pplanned m i) = Some (a, v) \<Longrightarrow>
    a = preg_data_pointer (pm_registers m) \<and> reads_data_cell i"
  by (cases i) (simp_all add: pplanned_def Let_def pplan_init_def pplan_input_def reads_data_cell_def
      split: option.splits)

lemma step_reads_hold:
  assumes "holds_reads m' (step_reads m i)"
  shows "pm_memory m' ! preg_code_pointer (pm_registers m) = pm_memory m ! preg_code_pointer (pm_registers m)"
    "reads_data_cell i \<Longrightarrow>
      pm_memory m' ! preg_data_pointer (pm_registers m) = pm_memory m ! preg_data_pointer (pm_registers m)"
    "pp_memory_write (pplanned m i) = None \<or>
      preg_data_pointer (pm_registers m) \<noteq> preg_code_pointer (pp_registers (pplanned m i)) \<Longrightarrow>
      pm_memory m' ! preg_code_pointer (pp_registers (pplanned m i)) =
      pm_memory m ! preg_code_pointer (pp_registers (pplanned m i))"
  using assms by (auto simp: holds_reads_def reads_of_def step_reads_def Let_def split: if_splits)

lemma committed_replay:
  assumes wf: "wf_pmachine m" "wf_pmachine m'" and s: "same_streams m m'"
    and r: "registers_agree (acc_reads (step_accesses m i)) (pm_registers m) (pm_registers m')"
    and h: "holds_reads m' (step_reads m i)"
  shows "step_reads m' i = step_reads m i"
    "pencryption_cell m' (pplanned m' i) = pencryption_cell m (pplanned m i)"
    "step_delta m' (pplanned m' i) e = step_delta m (pplanned m i) e"
    "replayed (exec_continued (step_delta m (pplanned m i) e) (step_reads m i) (step_accesses m i))
      (pcommitted m (pplanned m i) e) m' (pcommitted m' (pplanned m' i) e)"
    "registers_agree live (pm_registers m) (pm_registers m') \<Longrightarrow>
      registers_agree (merge_register_sets live (acc_writes (step_accesses m i)))
        (pm_registers (pcommitted m (pplanned m i) e)) (pm_registers (pcommitted m' (pplanned m' i) e))"
proof -
  let ?p = "pplanned m i" and ?p' = "pplanned m' i"
  let ?d = "preg_data_pointer (pm_registers m)" and ?c = "preg_code_pointer (pp_registers (pplanned m i))"
  note hold = step_reads_hold[OF h]
  note same = pplanned_same[OF s r hold(2)]
  have regs: "preg_code_pointer (pm_registers m') = preg_code_pointer (pm_registers m)"
    "preg_data_pointer (pm_registers m') = ?d"
    using r by (simp_all add: registers_agree_def step_accesses_def)
  have len: "length (pm_memory m') = length (pm_memory m)"
    using s wf_pmachineD(2)[OF wf(1)] wf_pmachineD(2)[OF wf(2)] by (simp add: same_streams_def)
  have fits: "plan_fits m ?p" by (rule pplanned_fits[OF wf(1)])
  have data: "pp_memory_write ?p = Some (a, v) \<Longrightarrow> a = ?d \<and> pm_memory m' ! ?d = pm_memory m ! ?d" for a v
    using write_slot[of m i a v] hold(2) by simp
  have target: "pp_memory_write ?p = None \<Longrightarrow> pm_memory m' ! ?c = pm_memory m ! ?c"
    "?d \<noteq> ?c \<Longrightarrow> pm_memory m' ! ?c = pm_memory m ! ?c" using hold(3) by blast+
  have before: "pm_memory m' ! ?c = pm_memory m ! ?c"
  proof (cases "pp_memory_write ?p")
    case (Some w)
    then show ?thesis using data[of "fst w" "snd w"] target(2) by (cases "?d = ?c") auto
  qed (rule target(1))
  have fetched: "reads_data_cell i \<Longrightarrow> pm_memory m' ! ?d = pm_memory m ! ?d" by (rule hold(2))
  show "step_reads m' i = step_reads m i"
    using regs same(1,4) hold(1) fetched before by (simp add: step_reads_def Let_def)
  show cell: "pencryption_cell m' ?p' = pencryption_cell m ?p"
    using fits len before same(1,4)
    by (auto simp: pencryption_cell_def pplanned_memory_def plan_fits_def nth_list_update split: option.splits)
  show delta: "step_delta m' ?p' e = step_delta m ?p e"
    using before data same(1,4) by (auto simp: step_delta_def Let_def split: option.splits)
  have streams: "same_streams (pcommitted m ?p e) (pcommitted m' ?p' e)"
    using s same(2,3) by (simp add: same_streams_def pcommitted_def split: option.split)
  have memory: "pm_memory (pcommitted m' ?p' e) ! a =
      (if a \<in> written_cells (step_delta m ?p e) then pm_memory (pcommitted m ?p e) ! a else pm_memory m' ! a)"
    if "a < length (pm_memory m')" for a
  proof (cases "pp_memory_write ?p")
    case None
    then show ?thesis
      using that len before same(1,4) fits
      by (auto simp: pcommitted_def pplanned_memory_def written_cells_def written_addresses_def
          step_delta_def Let_def nth_list_update plan_fits_def)
  next
    case (Some w)
    then obtain v where w: "pp_memory_write ?p = Some (?d, v)" using data[of "fst w" "snd w"] by (cases w) auto
    have eq: "pm_memory m' ! ?d = pm_memory m ! ?d" using data[OF w] by simp
    have cells: "written_cells (step_delta m ?p e) =
        {a. a = ?c \<and> pm_memory m ! ?c \<noteq> e \<or> a = ?d \<and> ?d \<noteq> ?c \<and> pm_memory m ! ?d \<noteq> v}"
      using w by (auto simp: written_cells_def written_addresses_def step_delta_def Let_def)
    have images: "pm_memory (pcommitted m ?p e) = (pm_memory m)[?d := v, ?c := e]"
      "pm_memory (pcommitted m' ?p' e) = (pm_memory m')[?d := v, ?c := e]"
      using w same(1,4) by (simp_all add: pcommitted_def pplanned_memory_def)
    have "?d < length (pm_memory m)" "?c < length (pm_memory m)"
      using fits w by (simp_all add: plan_fits_def)
    then show ?thesis
      unfolding cells images using that len before eq by (auto simp: nth_list_update)
  qed
  show "replayed (exec_continued (step_delta m ?p e) (step_reads m i) (step_accesses m i))
      (pcommitted m ?p e) m' (pcommitted m' ?p' e)"
    using streams memory by (simp add: replayed_def exec_continued_def)
      (simp add: pcommitted_def pplanned_memory_def split: option.splits)
  show "registers_agree (merge_register_sets live (acc_writes (step_accesses m i)))
      (pm_registers (pcommitted m ?p e)) (pm_registers (pcommitted m' ?p' e))"
    if "registers_agree live (pm_registers m) (pm_registers m')"
    using that same(4,5,6) s
    by (auto simp: registers_agree_def merge_register_sets_def pcommitted_def step_accesses_def same_streams_def)
qed

lemma replayed_still:
  "same_streams m m' \<Longrightarrow> exec_memory_delta ex = profile_memory_delta_default \<Longrightarrow>
    replayed ex (m\<lparr>pm_termination := r\<rparr>) m' (m'\<lparr>pm_termination := r\<rparr>)"
  "same_streams m m' \<Longrightarrow> exec_memory_delta ex = profile_memory_delta_default \<Longrightarrow> replayed ex m m' m'"
proof -
  have none: "exec_memory_delta ex = profile_memory_delta_default \<Longrightarrow> written_cells (exec_memory_delta ex) = {}"
    by (simp add: written_cells_def written_addresses_def profile_memory_delta_default_def)
  show "same_streams m m' \<Longrightarrow> exec_memory_delta ex = profile_memory_delta_default \<Longrightarrow>
      replayed ex (m\<lparr>pm_termination := r\<rparr>) m' (m'\<lparr>pm_termination := r\<rparr>)"
    unfolding replayed_def using none by (auto simp: same_streams_def)
  show "same_streams m m' \<Longrightarrow> exec_memory_delta ex = profile_memory_delta_default \<Longrightarrow> replayed ex m m' m'"
    unfolding replayed_def using none by auto
qed

lemma exec_simps [simp]:
  "exec_result (exec_continued d mr acc) = Inr Continued"
  "exec_result (exec_outcome mr acc oc) = Inr oc"
  "exec_memory_reads (exec_continued d mr acc) = mr" "exec_memory_reads (exec_outcome mr acc oc) = mr"
  "exec_register_accesses (exec_continued d mr acc) = acc"
  "exec_register_accesses (exec_outcome mr acc oc) = acc"
  "exec_memory_delta (exec_continued d mr acc) = d"
  "exec_memory_delta (exec_outcome mr acc oc) = profile_memory_delta_default"
  by (simp_all add: exec_continued_def exec_outcome_def)

lemma merge_nothing [simp]: "merge_register_sets s (acc_writes fetch_access) = s"
  by (cases s) (simp add: merge_register_sets_def fetch_access_def profile_register_accesses_default_def
      profile_register_set_default_def)

text \<open>
  The step of \<open>m'\<close> reports the very evidence of the step of \<open>m\<close>, if it agrees on the registers
  and cells that evidence says were read.
\<close>

lemma step_replay:
  assumes wf: "wf_pmachine m" "wf_pmachine m'" and live: "pm_termination m = None"
    and s: "same_streams m m'" and step: "step_execution m = (ex, t)" and ok: "exec_result ex = Inr oc"
    and r: "registers_agree (acc_reads (exec_register_accesses ex)) (pm_registers m) (pm_registers m')"
    and h: "holds_reads m' (exec_memory_reads ex)"
  obtains t' where "step_execution m' = (ex, t')" "replayed ex t m' t'"
    "\<And>known. registers_agree known (pm_registers m) (pm_registers m') \<Longrightarrow>
      registers_agree (merge_register_sets known (acc_writes (exec_register_accesses ex)))
        (pm_registers t) (pm_registers t')"
proof -
  let ?cell = "pm_memory m ! preg_code_pointer (pm_registers m)" and ?i = "pdecoded m"
  let ?t = "pencryption_cell m (pplanned m ?i)"
  let ?e = "unat (XLAT2 ! (?t - 33))"
  have live': "pm_termination m' = None" using live s by (simp add: same_streams_def)
  have kind: "pm_profile m' = pm_profile m" using s by (simp add: same_streams_def)
  note exact = step_execution_exact[OF wf(1) live] step_execution_exact[OF wf(2) live']
  have fetch: "preg_code_pointer (pm_registers m') = preg_code_pointer (pm_registers m)"
      "pm_memory m' ! preg_code_pointer (pm_registers m) = ?cell"
    if "rs_code_pointer (acc_reads (exec_register_accesses ex))"
      "reads_fetch (exec_memory_reads ex) = reads_fetch (fetch_only m)"
    using that r h by (simp_all add: registers_agree_def holds_reads_def reads_of_def fetch_only_def)
  show ?thesis
  proof (cases "profile_cell_is_graphical ?cell \<and> ?i \<noteq> PHalt")
    case False
    then have ex: "exec_memory_reads ex = fetch_only m" "exec_register_accesses ex = fetch_access"
      "exec_memory_delta ex = profile_memory_delta_default"
      using step exact(1) by (auto simp: Let_def split: if_splits)
    then have at: "preg_code_pointer (pm_registers m') = preg_code_pointer (pm_registers m)"
      "pm_memory m' ! preg_code_pointer (pm_registers m) = ?cell"
      using fetch by (simp_all add: fetch_access_def)
    have "pdecoded m' = ?i" "fetch_only m' = fetch_only m"
      using at kind by (simp_all add: pdecoded_def fetch_only_def)
    then have "\<exists>t'. step_execution m' = (ex, t') \<and> replayed ex t m' t' \<and>
        pm_registers t = pm_registers m \<and> pm_registers t' = pm_registers m'"
      using step exact at kind False replayed_still[OF s ex(3)]
      by (auto simp: Let_def split: if_splits)
    then show ?thesis using that ex(2) by auto
  next
    case True
    have graphical: "profile_cell_is_graphical ?t"
    proof -
      have "pstep m = (Inr oc, t)" using step ok by (simp add: pstep_def)
      then show ?thesis using True by (auto simp: pstep_wf[OF wf(1) live] Let_def split: if_splits)
    qed
    then have ex: "ex = exec_continued (step_delta m (pplanned m ?i) ?e) (step_reads m ?i) (step_accesses m ?i)"
      "t = pcommitted m (pplanned m ?i) ?e"
      using step exact(1) True by (simp_all add: Let_def)
    have "reads_fetch (exec_memory_reads ex) = reads_fetch (fetch_only m)"
      by (simp add: ex step_reads_def fetch_only_def Let_def)
    then have at: "preg_code_pointer (pm_registers m') = preg_code_pointer (pm_registers m)"
      "pm_memory m' ! preg_code_pointer (pm_registers m) = ?cell"
      using fetch by (simp_all add: ex step_accesses_def)
    have i: "pdecoded m' = ?i" using at kind by (simp add: pdecoded_def)
    note c = committed_replay[OF wf s, of ?i, folded ex]
    have r': "registers_agree (acc_reads (step_accesses m ?i)) (pm_registers m) (pm_registers m')"
      and h': "holds_reads m' (step_reads m ?i)" using r h by (simp_all add: ex)
    note c = committed_replay[OF wf s r' h']
    have acc: "step_accesses m' ?i = step_accesses m ?i" by (simp add: step_accesses_def)
    have "step_execution m' = (ex, pcommitted m' (pplanned m' ?i) ?e)"
      using exact(2) True graphical i at c(1,2) c(3)[of ?e] acc by (simp add: Let_def ex)
    then show ?thesis using that c(4,5) by (simp add: ex)
  qed
qed

lemma set_present: "x \<in> set (present xs) \<longleftrightarrow> Some x \<in> set xs"
  by (induction xs) (auto simp: present_def split: option.splits)

lemma step_reads_sound:
  assumes "wf_pmachine m" and "pm_termination m = None" and "step_execution m = (ex, t)"
    and "exec_result ex = Inr oc"
  shows "holds_reads m (exec_memory_reads ex)"
    "\<forall>read \<in> set (reads_of (exec_memory_reads ex)). read_address read < length (pm_memory m)"
    "reads_fetch (exec_memory_reads ex) = Some \<lparr>read_address = preg_code_pointer (pm_registers m),
      read_value = pm_memory m ! preg_code_pointer (pm_registers m)\<rparr>"
proof -
  have fits: "preg_code_pointer (pp_registers (pplanned m i)) < length (pm_memory m)" for i
    using pplanned_fits[OF assms(1)] by (simp add: plan_fits_def)
  have cp: "preg_code_pointer (pm_registers m) < length (pm_memory m)"
    "preg_data_pointer (pm_registers m) < length (pm_memory m)" using wf_pmachineD[OF assms(1)] by simp_all
  have "pstep m = (Inr oc, t)" using assms(3,4) by (simp add: pstep_def)
  then have "exec_memory_reads ex = fetch_only m \<or> exec_memory_reads ex = step_reads m (pdecoded m)"
    using assms(3) step_execution_exact[OF assms(1,2)]
    by (auto simp: pstep_wf[OF assms(1,2)] Let_def split: if_splits)
  then show "holds_reads m (exec_memory_reads ex)"
    "\<forall>read \<in> set (reads_of (exec_memory_reads ex)). read_address read < length (pm_memory m)"
    "reads_fetch (exec_memory_reads ex) = Some \<lparr>read_address = preg_code_pointer (pm_registers m),
      read_value = pm_memory m ! preg_code_pointer (pm_registers m)\<rparr>"
    using fits cp by (auto simp: holds_reads_def reads_of_def set_present fetch_only_def step_reads_def Let_def
        split: if_splits)
qed

lemma step_unwritten:
  assumes "wf_pmachine m" and "pm_termination m = None" and "step_execution m = (ex, t)"
    and "exec_result ex = Inr oc"
  shows "length (pm_memory t) = length (pm_memory m) \<and>
    (\<forall>a. a \<notin> written_cells (exec_memory_delta ex) \<longrightarrow> pm_memory t ! a = pm_memory m ! a)"
proof -
  have "pstep m = (Inr oc, t)" using assms(3,4) by (simp add: pstep_def)
  then consider "pm_memory t = pm_memory m" |
    "t = pcommitted m (pplanned m (pdecoded m)) (unat (XLAT2 ! (pencryption_cell m (pplanned m (pdecoded m)) - 33)))"
    "exec_memory_delta ex = step_delta m (pplanned m (pdecoded m))
      (unat (XLAT2 ! (pencryption_cell m (pplanned m (pdecoded m)) - 33)))"
    using assms(3) step_execution_exact[OF assms(1,2)]
    by (auto simp: pstep_wf[OF assms(1,2)] Let_def split: if_splits)
  then show ?thesis
  proof cases
    case 2
    let ?p = "pplanned m (pdecoded m)" and ?e = "unat (XLAT2 ! (pencryption_cell m (pplanned m (pdecoded m)) - 33))"
    have fits: "plan_fits m ?p" by (rule pplanned_fits[OF assms(1)])
    show ?thesis
    proof (cases "pp_memory_write ?p")
      case None
      then show ?thesis
        using fits by (auto simp: 2 pcommitted_def pplanned_memory_def written_cells_def
            written_addresses_def step_delta_def Let_def nth_list_update plan_fits_def)
    next
      case (Some w)
      obtain d v where w: "pp_memory_write ?p = Some (d, v)" using Some by (cases w) simp
      have cells: "written_cells (exec_memory_delta ex) =
          {a. a = preg_code_pointer (pp_registers ?p) \<and> pm_memory m ! a \<noteq> ?e \<or>
            a = d \<and> d \<noteq> preg_code_pointer (pp_registers ?p) \<and> pm_memory m ! d \<noteq> v}"
        using w by (auto simp: 2 written_cells_def written_addresses_def step_delta_def Let_def)
      have entry: "pm_memory t = (pm_memory m)[d := v, preg_code_pointer (pp_registers ?p) := ?e]"
        using w by (simp add: 2 pcommitted_def pplanned_memory_def)
      show ?thesis
        unfolding cells entry using fits w by (auto simp: nth_list_update plan_fits_def)
    qed
  qed simp
qed

subsection \<open>The record of a step\<close>

text \<open>A record without the registers its two observations show.\<close>

definition blind :: "ProfileStepTrace \<Rightarrow> ProfileStepTrace" where
  "blind tr = tr\<lparr>ptr_before := (ptr_before tr)\<lparr>pobs_registers := profile_registers_default\<rparr>,
    ptr_after := (ptr_after tr)\<lparr>pobs_registers := profile_registers_default\<rparr>\<rparr>"

lemma trace_fields:
  assumes "step_execution m = (ex, t)"
  shows "ptr_before (pstep_trace m) = pobservation m" "ptr_after (pstep_trace m) = pobservation t"
    "ptr_memory_reads (pstep_trace m) = exec_memory_reads ex"
    "ptr_memory_delta (pstep_trace m) = exec_memory_delta ex"
    "ptr_register_accesses (pstep_trace m) = exec_register_accesses ex"
    "ptr_result (pstep_trace m) = exec_result ex" "ptr_profile (pstep_trace m) = pm_profile t"
    "ptr_geometry (pstep_trace m) = pm_geometry t"
    "ptr_fetched_cell (pstep_trace m) = map_option read_value (reads_fetch (exec_memory_reads ex))"
  using assms by (simp_all add: pstep_trace_def Let_def)

lemma blind_replay:
  assumes "step_execution m = (ex, t)" and "step_execution m' = (ex, t')"
    and "same_streams m m'" and "same_streams t t'"
    and "preg_code_pointer (pm_registers m) = preg_code_pointer (pm_registers m')"
  shows "blind (pstep_trace m') = blind (pstep_trace m)"
  using assms by (auto simp: pstep_trace_def blind_def Let_def pobservation_def same_streams_def)

subsection \<open>Projection and replay of a region\<close>

lemma map_of_btree_insert [simp]: "map_of (btree_insert k v xs) = (map_of xs)(k \<mapsto> v)"
  by (induction k v xs rule: btree_insert.induct) auto

lemma set_btree_insert: "x \<in> set (btree_insert k v xs) \<Longrightarrow> x = (k, v) \<or> x \<in> set xs"
  by (induction k v xs rule: btree_insert.induct) (auto split: if_splits)

lemma btree_insert_ascending:
  "sorted_wrt (<) (map fst xs) \<Longrightarrow> sorted_wrt (<) (map fst (btree_insert k v xs))"
  by (induction k v xs rule: btree_insert.induct) (auto dest!: set_btree_insert)

lemma collect_reads_Cons:
  assumes "collect_reads_loop (read # mreads) live written = Inr live'"
  obtains "read_address read \<in> written" "collect_reads_loop mreads live written = Inr live'"
  | "read_address read \<notin> written" "map_of live (read_address read) = Some (read_value read)"
    "collect_reads_loop mreads live written = Inr live'"
  | "read_address read \<notin> written" "map_of live (read_address read) = None"
    "collect_reads_loop mreads (btree_insert (read_address read) (read_value read) live) written = Inr live'"
  using assms by (auto split: if_splits option.splits)

lemma map_le_insert: "map_of live k = None \<Longrightarrow> map_of live \<subseteq>\<^sub>m map_of (btree_insert k v live)"
  by (auto simp: map_le_def)

lemma map_leD: "f \<subseteq>\<^sub>m g \<Longrightarrow> f k = Some v \<Longrightarrow> g k = Some v"
  by (force simp: map_le_def)

lemma collect_reads_le:
  "collect_reads_loop mreads live written = Inr live' \<Longrightarrow> map_of live \<subseteq>\<^sub>m map_of live'"
proof (induction mreads arbitrary: live)
  case (Cons read mreads)
  show ?case
    using Cons.prems
    by (cases rule: collect_reads_Cons) (use Cons.IH map_le_insert map_le_trans in \<open>blast+\<close>)
qed simp

lemma collect_reads_known:
  "collect_reads_loop mreads live written = Inr live' \<Longrightarrow> read \<in> set mreads \<Longrightarrow>
    read_address read \<in> written \<or> map_of live' (read_address read) = Some (read_value read)"
proof (induction mreads arbitrary: live)
  case (Cons first mreads)
  show ?case
  proof (cases "read = first")
    case True
    show ?thesis
      using Cons.prems(1)
    proof (cases rule: collect_reads_Cons)
      case 2
      then show ?thesis using True map_leD[OF collect_reads_le] by blast
    next
      case 3
      have "map_of (btree_insert (read_address first) (read_value first) live) (read_address first) =
          Some (read_value first)" by simp
      then show ?thesis using True map_leD[OF collect_reads_le[OF 3(3)]] by blast
    qed (use True in simp)
  next
    case False
    with Cons.prems(2) have "read \<in> set mreads" by simp
    with Cons.prems(1) show ?thesis by (cases rule: collect_reads_Cons) (use Cons.IH in blast)+
  qed
qed simp

lemma collect_reads_ascending:
  "collect_reads_loop mreads live written = Inr live' \<Longrightarrow> sorted_wrt (<) (map fst live) \<Longrightarrow>
    sorted_wrt (<) (map fst live')"
proof (induction mreads arbitrary: live)
  case (Cons read mreads)
  show ?case
    using Cons.prems(1)
    by (cases rule: collect_reads_Cons) (use Cons.IH Cons.prems(2) btree_insert_ascending in blast)+
qed simp

lemma collect_reads_ok:
  assumes "\<And>read. read \<in> set mreads \<Longrightarrow> read_address read \<notin> written \<Longrightarrow> P (read_address read) (read_value read)"
    and "\<And>a v. (a, v) \<in> set live \<Longrightarrow> P a v" and "\<And>a v w. P a v \<Longrightarrow> P a w \<Longrightarrow> v = w"
  shows "\<exists>live'. collect_reads_loop mreads live written = Inr live' \<and> (\<forall>(a, v) \<in> set live'. P a v)"
  using assms(1,2)
proof (induction mreads arbitrary: live)
  case (Cons read mreads)
  let ?a = "read_address read" and ?v = "read_value read"
  have rest: "\<exists>live'. collect_reads_loop mreads xs written = Inr live' \<and> (\<forall>(a, v) \<in> set live'. P a v)"
    if "\<And>a v. (a, v) \<in> set xs \<Longrightarrow> P a v" for xs
    using Cons.prems(1) that by (intro Cons.IH) auto
  show ?case
  proof (cases "?a \<in> written")
    case True
    then show ?thesis using rest[of live] Cons.prems(2) by simp
  next
    case False
    then have P: "P ?a ?v" using Cons.prems(1) by simp
    then have "P a v" if "(a, v) \<in> set (btree_insert ?a ?v live)" for a v
      using set_btree_insert[OF that] Cons.prems(2) by auto
    moreover have "map_of live ?a = Some w \<Longrightarrow> w = ?v" for w
      using assms(3)[OF P] Cons.prems(2) by (metis map_of_SomeD)
    ultimately show ?thesis
      using False rest[of live] rest[of "btree_insert ?a ?v live"] Cons.prems(2)
      by (cases "map_of live ?a") auto
  qed
qed auto

text \<open>The records of the steps of a bounded run, in order.\<close>

fun traces_of :: "nat \<Rightarrow> ProfileMachine \<Rightarrow> ProfileStepTrace list" where
  "traces_of 0 m = []"
| "traces_of (Suc n) m =
    pstep_trace m # (if fst (pstep m) = Inr Continued then traces_of n (snd (pstep m)) else [])"

lemma trun_loop_traces:
  "snd (snd (prun_traced_loop (\<lambda>ts t. ts @ [t]) (k + n) k m ts)) = ts @ traces_of n m"
proof (induction n arbitrary: k m ts)
  case (Suc n)
  show ?case
    by (cases m rule: profile_run.step_cases)
      (use Suc[of "Suc k"] in \<open>simp_all add: profile_run.trun_loop_simps\<close>)
qed simp

lemma prun_traced_traces:
  assumes "pm_termination m = None"
  shows "prun_traced (\<lambda>ts t. ts @ [t]) n m [] = (fst (prun n m), snd (prun n m), traces_of n m)"
proof -
  have "snd (snd (prun_traced (\<lambda>ts t. ts @ [t]) n m [])) = traces_of n m"
    using assms trun_loop_traces[of 0 n m "[]"] by (simp add: prun_traced_def)
  then show ?thesis using profile_run.trun_project[of "\<lambda>ts t. ts @ [t]" n m "[]"] by auto
qed

definition set_le :: "ProfileRegisterSet \<Rightarrow> ProfileRegisterSet \<Rightarrow> bool" where
  "set_le s s' \<longleftrightarrow> (rs_accumulator s \<longrightarrow> rs_accumulator s') \<and>
    (rs_code_pointer s \<longrightarrow> rs_code_pointer s') \<and> (rs_data_pointer s \<longrightarrow> rs_data_pointer s')"

lemma set_le_trans: "set_le s s' \<Longrightarrow> set_le s' s'' \<Longrightarrow> set_le s s''"
  by (auto simp: set_le_def)

lemma registers_agree_le: "registers_agree s' r r' \<Longrightarrow> set_le s s' \<Longrightarrow> registers_agree s r r'"
  by (auto simp: registers_agree_def set_le_def)

lemma project_step_Inr:
  assumes "project_region_step profile index tr locals = Inr locals'"
  shows "collect_reads_loop (reads_of (ptr_memory_reads tr)) (pl_live_memory locals) (pl_written_memory locals) =
      Inr (pl_live_memory locals')"
    "pl_written_memory locals' = pl_written_memory locals \<union> written_cells (ptr_memory_delta tr)"
    "pl_written_registers locals' =
      merge_register_sets (pl_written_registers locals) (acc_writes (ptr_register_accesses tr))"
    "pl_live_registers locals' =
      collect_region_register_live_ins tr (pl_live_registers locals) (pl_written_registers locals)"
    "set_le (acc_reads (ptr_register_accesses tr))
      (merge_register_sets (pl_live_registers locals') (pl_written_registers locals))"
    "set_le (pl_live_registers locals) (pl_live_registers locals')"
    "ptr_profile tr = profile"
  using assms
  by (auto simp: project_region_step_def and_then_Inr_iff collect_region_memory_live_ins_def reads_of_def
      written_cells_def set_le_def merge_register_sets_def collect_region_register_live_ins_def Let_def
      split: if_splits)

lemma project_loop_mono:
  "project_region_loop profile index trs locals = Inr locals' \<Longrightarrow>
    map_of (pl_live_memory locals) \<subseteq>\<^sub>m map_of (pl_live_memory locals') \<and>
    set_le (pl_live_registers locals) (pl_live_registers locals')"
proof (induction trs arbitrary: index locals)
  case (Cons tr trs)
  then obtain mid where step: "project_region_step profile index tr locals = Inr mid"
    and rest: "project_region_loop profile (index + 1) trs mid = Inr locals'"
    by (auto simp: and_then_Inr_iff)
  show ?case
    using Cons.IH[OF rest] collect_reads_le[OF project_step_Inr(1)[OF step]] project_step_Inr(6)[OF step]
      map_le_trans set_le_trans by blast
qed (simp add: set_le_def)

text \<open>
  The state of a replay: the second machine is in the same place of the streams, knows the
  registers that are live or written, has the cells written so far, and still holds the live-ins
  at the cells not written yet.
\<close>

definition following ::
  "(u32 \<times> u32) list \<Rightarrow> ProfileRegisterSet \<Rightarrow> ProjectionLocals \<Rightarrow> ProfileMachine \<Rightarrow> ProfileMachine \<Rightarrow> bool" where
  "following live_memory live_registers locals m m' \<longleftrightarrow> wf_pmachine m \<and> wf_pmachine m' \<and> same_streams m m' \<and>
    registers_agree (merge_register_sets live_registers (pl_written_registers locals))
      (pm_registers m) (pm_registers m') \<and>
    (\<forall>a < length (pm_memory m). a \<in> pl_written_memory locals \<longrightarrow> pm_memory m' ! a = pm_memory m ! a) \<and>
    (\<forall>a < length (pm_memory m). \<forall>v. map_of live_memory a = Some v \<longrightarrow>
      a \<notin> pl_written_memory locals \<longrightarrow> pm_memory m' ! a = v)"

lemma following_step:
  assumes f: "following live_memory live_registers locals m m'" and live: "pm_termination m = None"
    and proj: "project_region_step profile index (pstep_trace m) locals = Inr mid"
    and le: "map_of (pl_live_memory mid) \<subseteq>\<^sub>m map_of live_memory" "set_le (pl_live_registers mid) live_registers"
    and step: "pstep m = (Inr oc, t)"
  obtains t' where "pstep m' = (Inr oc, t')" "blind (pstep_trace m') = blind (pstep_trace m)"
    "following live_memory live_registers mid t t'"
    "\<forall>a < length (pm_memory m'). pm_memory t' ! a =
      (if a \<in> written_cells (ptr_memory_delta (pstep_trace m)) then pm_memory t ! a else pm_memory m' ! a)"
    "length (pm_memory t') = length (pm_memory m')"
proof -
  obtain ex where ex: "step_execution m = (ex, t)" "exec_result ex = Inr oc"
    using step by (auto simp: pstep_unfold)
  note tr = trace_fields[OF ex(1)]
  note p = project_step_Inr[OF proj, unfolded tr]
  have wf: "wf_pmachine m" "wf_pmachine m'" and s: "same_streams m m'" using f by (simp_all add: following_def)
  have lens: "length (pm_memory m') = length (pm_memory m)"
    using s wf_pmachineD(2)[OF wf(1)] wf_pmachineD(2)[OF wf(2)] by (simp add: same_streams_def)
  note sound = step_reads_sound[OF wf(1) live ex]
  have agree: "registers_agree (merge_register_sets live_registers (pl_written_registers locals))
      (pm_registers m) (pm_registers m')" using f by (simp add: following_def)
  have "set_le (acc_reads (exec_register_accesses ex)) (merge_register_sets live_registers (pl_written_registers locals))"
    using p(5) le(2) by (auto simp: set_le_def merge_register_sets_def)
  then have r: "registers_agree (acc_reads (exec_register_accesses ex)) (pm_registers m) (pm_registers m')"
    by (rule registers_agree_le[OF agree])
  have h: "holds_reads m' (exec_memory_reads ex)"
    unfolding holds_reads_def
  proof
    fix read assume read: "read \<in> set (reads_of (exec_memory_reads ex))"
    then have here: "pm_memory m ! read_address read = read_value read" "read_address read < length (pm_memory m)"
      using sound by (auto simp: holds_reads_def)
    show "pm_memory m' ! read_address read = read_value read"
    proof (cases "read_address read \<in> pl_written_memory locals")
      case True
      then show ?thesis using here f by (simp add: following_def)
    next
      case False
      then have "map_of live_memory (read_address read) = Some (read_value read)"
        using collect_reads_known[OF p(1) read] map_leD[OF le(1)] by blast
      then show ?thesis using False f here(2) by (simp add: following_def)
    qed
  qed
  obtain t' where t': "step_execution m' = (ex, t')" "replayed ex t m' t'"
    "\<And>known. registers_agree known (pm_registers m) (pm_registers m') \<Longrightarrow>
      registers_agree (merge_register_sets known (acc_writes (exec_register_accesses ex)))
        (pm_registers t) (pm_registers t')"
    using step_replay[OF wf live s ex r h] by blast
  have step': "pstep m' = (Inr oc, t')" using t'(1) ex(2) by (simp add: pstep_def)
  have cells: "\<forall>a < length (pm_memory m'). pm_memory t' ! a =
      (if a \<in> written_cells (exec_memory_delta ex) then pm_memory t ! a else pm_memory m' ! a)"
    "length (pm_memory t') = length (pm_memory m')" "same_streams t t'"
    using t'(2) by (simp_all add: replayed_def)
  note keep = step_unwritten[OF wf(1) live ex]
  have cp: "preg_code_pointer (pm_registers m) = preg_code_pointer (pm_registers m')"
    using r ex(1) step_execution_exact[OF wf(1) live] step pstep_wf[OF wf(1) live]
    by (auto simp: registers_agree_def Let_def fetch_access_def step_accesses_def split: if_splits)
  have "following live_memory live_registers mid t t'"
    unfolding following_def
  proof (intro conjI allI impI)
    show "wf_pmachine t" "wf_pmachine t'"
      using pstep_preserves_wf[OF wf(1) step] pstep_preserves_wf[OF wf(2) step'] by simp_all
    show "same_streams t t'" by (rule cells(3))
    have "merge_register_sets live_registers (pl_written_registers mid) =
        merge_register_sets (merge_register_sets live_registers (pl_written_registers locals))
          (acc_writes (exec_register_accesses ex))"
      by (simp add: p(3) merge_register_sets_def)
    then show "registers_agree (merge_register_sets live_registers (pl_written_registers mid))
        (pm_registers t) (pm_registers t')"
      using t'(3)[OF agree] by simp
    show "pm_memory t' ! a = pm_memory t ! a" if "a < length (pm_memory t)" "a \<in> pl_written_memory mid" for a
      using that keep cells(1) lens p(2) f by (auto simp: following_def)
    show "pm_memory t' ! a = v"
      if "a < length (pm_memory t)" "map_of live_memory a = Some v" "a \<notin> pl_written_memory mid" for a v
      using that keep cells(1) lens p(2) f by (auto simp: following_def)
  qed
  then show ?thesis using that step' blind_replay[OF ex(1) t'(1) s cells(3) cp] cells tr(4) by simp
qed

definition cells_of :: "ProfileStepTrace list \<Rightarrow> nat set" where
  "cells_of trs = (\<Union>tr \<in> set trs. written_cells (ptr_memory_delta tr))"

lemma cells_of_Cons [simp]:
  "cells_of [] = {}" "cells_of (tr # trs) = written_cells (ptr_memory_delta tr) \<union> cells_of trs"
  by (simp_all add: cells_of_def)

lemma run_unwritten:
  "wf_pmachine m \<Longrightarrow> pm_termination m = None \<Longrightarrow> prun_loop (k + n) k m = (Inr outcome, t) \<Longrightarrow>
    a \<notin> cells_of (traces_of n m) \<Longrightarrow> pm_memory t ! a = pm_memory m ! a"
proof (induction n arbitrary: m k)
  case (Suc n)
  obtain oc m1 where step: "pstep m = (Inr oc, m1)"
    using Suc.prems(3) by (cases m rule: profile_run.step_cases) (auto simp: profile_run.run_loop_simps)
  obtain ex where ex: "step_execution m = (ex, m1)" "exec_result ex = Inr oc"
    using step by (auto simp: pstep_unfold)
  have here: "pm_memory m1 ! a = pm_memory m ! a"
    using step_unwritten[OF Suc.prems(1,2) ex] trace_fields(4)[OF ex(1)] Suc.prems(4) by simp
  show ?case
  proof (cases oc)
    case Continued
    then show ?thesis
      using Suc.IH[of m1 "Suc k"] Suc.prems step here pstep_preserves_wf[OF Suc.prems(1) step]
        profile_run.step_continued by (simp add: profile_run.run_loop_simps)
  qed (use Suc.prems step here in \<open>simp add: profile_run.run_loop_simps\<close>)
qed simp

lemma following_run:
  assumes "following live_memory live_registers locals m m'" and "pm_termination m = None"
    and "project_region_loop profile index (traces_of n m) locals = Inr locals'"
    and "map_of (pl_live_memory locals') \<subseteq>\<^sub>m map_of live_memory"
    and "set_le (pl_live_registers locals') live_registers"
    and "prun_loop (k + n) k m = (Inr outcome, t)"
  shows "\<exists>t'. prun_loop (k + n) k m' = (Inr outcome, t') \<and>
    map blind (traces_of n m') = map blind (traces_of n m) \<and>
    following live_memory live_registers locals' t t' \<and>
    length (pm_memory t') = length (pm_memory m') \<and>
    (\<forall>a < length (pm_memory m'). pm_memory t' ! a =
      (if a \<in> cells_of (traces_of n m) then pm_memory t ! a else pm_memory m' ! a))"
  using assms
proof (induction n arbitrary: m m' k index locals)
  case 0
  then show ?case by auto
next
  case (Suc n)
  obtain oc m1 where step: "pstep m = (Inr oc, m1)"
    using Suc.prems(6) by (cases m rule: profile_run.step_cases) (auto simp: profile_run.run_loop_simps)
  have trs: "traces_of (Suc n) m = pstep_trace m # (if oc = Continued then traces_of n m1 else [])"
    using step by (cases oc) simp_all
  obtain mid where proj: "project_region_step profile index (pstep_trace m) locals = Inr mid"
    and rest: "project_region_loop profile (index + 1)
      (if oc = Continued then traces_of n m1 else []) mid = Inr locals'"
    using Suc.prems(3)[unfolded trs] by (auto simp: and_then_Inr_iff)
  note mono = project_loop_mono[OF rest]
  have le: "map_of (pl_live_memory mid) \<subseteq>\<^sub>m map_of live_memory" "set_le (pl_live_registers mid) live_registers"
    using mono Suc.prems(4,5) map_le_trans set_le_trans by blast+
  obtain m1' where m1': "pstep m' = (Inr oc, m1')" "blind (pstep_trace m') = blind (pstep_trace m)"
    "following live_memory live_registers mid m1 m1'"
    "\<forall>a < length (pm_memory m'). pm_memory m1' ! a =
      (if a \<in> written_cells (ptr_memory_delta (pstep_trace m)) then pm_memory m1 ! a else pm_memory m' ! a)"
    "length (pm_memory m1') = length (pm_memory m')"
    using following_step[OF Suc.prems(1,2) proj le step] by blast
  show ?case
  proof (cases oc)
    case (Terminated r)
    then have "locals' = mid" "t = m1" "outcome = RunTerminated r (Suc k)"
      using rest step Suc.prems(6) by (simp_all add: profile_run.run_loop_simps)
    then show ?thesis
      using m1' step Terminated by (simp add: profile_run.run_loop_simps)
  next
    case Continued
    have run: "prun_loop (Suc k + n) (Suc k) m1 = (Inr outcome, t)"
      using Suc.prems(6) step Continued by (simp add: profile_run.run_loop_simps)
    have live: "pm_termination m1 = None" using profile_run.step_continued step Continued by simp
    have "project_region_loop profile (index + 1) (traces_of n m1) mid = Inr locals'"
      using rest Continued by simp
    from Suc.IH[OF m1'(3) live this Suc.prems(4,5) run] obtain t' where
      t': "prun_loop (Suc k + n) (Suc k) m1' = (Inr outcome, t')"
      "map blind (traces_of n m1') = map blind (traces_of n m1)"
      "following live_memory live_registers locals' t t'"
      "length (pm_memory t') = length (pm_memory m1')"
      "\<forall>a < length (pm_memory m1'). pm_memory t' ! a =
        (if a \<in> cells_of (traces_of n m1) then pm_memory t ! a else pm_memory m1' ! a)" by blast
    have wf1: "wf_pmachine m1" using m1'(3) by (simp add: following_def)
    have "pm_memory t' ! a =
      (if a \<in> cells_of (traces_of (Suc n) m) then pm_memory t ! a else pm_memory m' ! a)"
      if "a < length (pm_memory m')" for a
      using that t'(5) m1'(4,5) run_unwritten[OF wf1 live run, of a] by (simp add: step Continued)
    then show ?thesis
      using t' m1' step Continued by (simp add: profile_run.run_loop_simps)
  qed
qed

subsection \<open>A run projects\<close>

text \<open>The machine runs at the full width of its profile, the only geometry legacy programs admit.\<close>

definition full_width :: "ProfileMachine \<Rightarrow> bool" where
  "full_width m \<longleftrightarrow> geo_word_trits (pm_geometry m) = pd_word_trits (pm_profile m)"

lemma insert_reads_collect:
  "insert_reads_loop live mreads =
    map_err (\<lambda>_. ConflictingMemoryRead) (collect_reads_loop mreads live {})"
  by (induction mreads arbitrary: live) (auto simp: insert_trace_read_def split: option.splits)

lemma reads_of_fetch: "reads_fetch r = Some f \<Longrightarrow> present [Some f, reads_data r, reads_encryption r] = reads_of r"
  by (simp add: reads_of_def)

lemma step_projection:
  assumes wf: "wf_pmachine m" and live: "pm_termination m = None" and step: "pstep m = (Inr oc, t)"
  obtains live_ins outcome where
    "project_profile_step_trace (pstep_trace m) = Inr (live_in_list live_ins, outcome)"
    "\<forall>(a, v) \<in> set live_ins. a < length (pm_memory m) \<and> v = pm_memory m ! a"
    "ptr_geometry (pstep_trace m) = pm_geometry m" "ptr_profile (pstep_trace m) = pm_profile m"
proof -
  obtain ex where ex: "step_execution m = (ex, t)" "exec_result ex = Inr oc"
    using step by (auto simp: pstep_unfold)
  note tr = trace_fields[OF ex(1)] and sound = step_reads_sound[OF wf live ex]
  have "\<exists>live'. collect_reads_loop (reads_of (exec_memory_reads ex)) [] {} = Inr live' \<and>
      (\<forall>(a, v) \<in> set live'. a < length (pm_memory m) \<and> v = pm_memory m ! a)"
    using sound(1,2) by (intro collect_reads_ok) (auto simp: holds_reads_def)
  then obtain live' where live': "insert_reads_loop [] (reads_of (exec_memory_reads ex)) = Inr live'"
    "\<forall>(a, v) \<in> set live'. a < length (pm_memory m) \<and> v = pm_memory m ! a"
    by (auto simp: insert_reads_collect)
  have stay: "pm_geometry t = pm_geometry m" "pm_profile t = pm_profile m"
    using pstep_unchanged[OF wf step] by simp_all
  have after: "case oc of Continued \<Rightarrow> pm_termination t = None | Terminated r \<Rightarrow> pm_termination t = Some r"
    using step profile_run.step_continued profile_run.step_terminated by (cases oc) auto
  note at = live'(1)[folded reads_of_fetch[OF sound(3)]]
  obtain outcome where "project_profile_step_trace (pstep_trace m) = Inr (live_in_list live', outcome)"
    using live after sound(3) at
    by (cases oc) (auto simp: project_profile_step_trace_def tr pobservation_def ex(2)
        simp del: present_simps insert_reads_loop.simps)
  then show ?thesis using that live'(2) tr stay by simp
qed

lemma step_projects:
  assumes wf: "wf_pmachine m" and live: "pm_termination m = None" and full: "full_width m"
    and step: "pstep m = (Inr oc, t)"
  obtains live_ins outcome where
    "region_from_step_trace (pstep_trace m) = Inr (one_step_program (pstep_trace m) EFFECT_IR_VERSION live_ins outcome)"
    "project_profile_step_trace (pstep_trace m) = Inr (live_ins, outcome)"
proof -
  obtain live' outcome where p: "project_profile_step_trace (pstep_trace m) = Inr (live_in_list live', outcome)"
    "ptr_geometry (pstep_trace m) = pm_geometry m" "ptr_profile (pstep_trace m) = pm_profile m"
    using step_projection[OF wf live step] by blast
  have "trace_uses_canonical_geometry (pstep_trace m)"
    using full p wf_pmachineD(1,7)[OF wf] wf_geometry_bounds[OF wf_pmachineD(1)[OF wf]]
    by (auto simp: trace_uses_canonical_geometry_def full_width_def wf_geometry_def wf_profile_def
        geo_word_modulus_def geo_eof_word_def)
  then show ?thesis using that p by (simp add: region_from_step_trace_def)
qed

lemma run_projects:
  assumes "wf_pmachine m" and "pm_termination m = None" and "full_width m" and "profile = pm_profile m"
    and "prun_loop (k + n) k m = (Inr outcome, t)"
    and "length entry = length (pm_memory m)"
    and "\<forall>(a, v) \<in> set (pl_live_memory locals). a < length entry \<and> v = entry ! a"
    and "\<forall>a < length entry. a \<notin> pl_written_memory locals \<longrightarrow> pm_memory m ! a = entry ! a"
    and "pl_previous_after locals = None \<or> pl_previous_after locals = Some (pobservation m)"
  shows "\<exists>locals'. project_region_loop profile index (traces_of n m) locals = Inr locals' \<and>
    (\<forall>(a, v) \<in> set (pl_live_memory locals'). a < length entry \<and> v = entry ! a)"
  using assms
proof (induction n arbitrary: m k index locals)
  case (Suc n)
  obtain oc m1 where step: "pstep m = (Inr oc, m1)"
    using Suc.prems(5) by (cases m rule: profile_run.step_cases) (auto simp: profile_run.run_loop_simps)
  obtain ex where ex: "step_execution m = (ex, m1)" "exec_result ex = Inr oc"
    using step by (auto simp: pstep_unfold)
  note tr = trace_fields[OF ex(1)] and sound = step_reads_sound[OF Suc.prems(1,2) ex]
  note keep = step_unwritten[OF Suc.prems(1,2) ex] and stay = pstep_unchanged[OF Suc.prems(1) step]
  have trs: "traces_of (Suc n) m = pstep_trace m # (if oc = Continued then traces_of n m1 else [])"
    using step by (cases oc) simp_all
  obtain li o1 where one: "region_from_step_trace (pstep_trace m) =
      Inr (one_step_program (pstep_trace m) EFFECT_IR_VERSION li o1)"
    using step_projects[OF Suc.prems(1,2,3) step] by blast
  have "\<exists>live'. collect_reads_loop (reads_of (exec_memory_reads ex)) (pl_live_memory locals)
      (pl_written_memory locals) = Inr live' \<and> (\<forall>(a, v) \<in> set live'. a < length entry \<and> v = entry ! a)"
    using sound Suc.prems(6,7,8) by (intro collect_reads_ok) (auto simp: holds_reads_def)
  then obtain live' where live': "collect_reads_loop (reads_of (exec_memory_reads ex)) (pl_live_memory locals)
      (pl_written_memory locals) = Inr live'" "\<forall>(a, v) \<in> set live'. a < length entry \<and> v = entry ! a" by blast
  obtain mid where mid: "project_region_step profile index (pstep_trace m) locals = Inr mid"
    "pl_live_memory mid = live'" "pl_previous_after mid = Some (pobservation m1)"
    using one live' Suc.prems(4,9) stay
    by (auto simp: project_region_step_def collect_region_memory_live_ins_def tr reads_of_def)
  show ?case
  proof (cases oc)
    case (Terminated r)
    then show ?thesis unfolding trs using mid live' by simp
  next
    case Continued
    have "prun_loop (Suc k + n) (Suc k) m1 = (Inr outcome, t)"
      using Suc.prems(5) step Continued by (simp add: profile_run.run_loop_simps)
    moreover have "pm_termination m1 = None" using profile_run.step_continued step Continued by simp
    moreover have "\<forall>a < length entry. a \<notin> pl_written_memory mid \<longrightarrow> pm_memory m1 ! a = entry ! a"
      using keep Suc.prems(8) project_step_Inr(2)[OF mid(1)] tr by auto
    ultimately have "\<exists>locals'. project_region_loop profile (Suc index) (traces_of n m1) mid = Inr locals' \<and>
        (\<forall>(a, v) \<in> set (pl_live_memory locals'). a < length entry \<and> v = entry ! a)"
      using Suc.prems(3,4,6) stay keep mid live' pstep_preserves_wf[OF Suc.prems(1) step]
      by (intro Suc.IH[of m1 "Suc k"]) (auto simp: full_width_def)
    then show ?thesis unfolding trs using mid Continued by auto
  qed
qed simp

lemma run_traces:
  "pm_termination m = None \<Longrightarrow> prun_loop (k + n) k m = (Inr outcome, t) \<Longrightarrow>
    (case outcome of
      BudgetExhausted j \<Rightarrow> j = k + n \<and> length (traces_of n m) = n \<and> pm_termination t = None
    | RunTerminated r j \<Rightarrow> j \<le> k + n \<and> j = k + length (traces_of n m) \<and> pm_termination t = Some r) \<and>
    (0 < n \<longrightarrow> traces_of n m \<noteq> [] \<and> ptr_after (last (traces_of n m)) = pobservation t)"
proof (induction n arbitrary: m k)
  case (Suc n)
  obtain oc m1 where step: "pstep m = (Inr oc, m1)"
    using Suc.prems(2) by (cases m rule: profile_run.step_cases) (auto simp: profile_run.run_loop_simps)
  obtain ex where ex: "step_execution m = (ex, m1)" using step by (auto simp: pstep_unfold)
  show ?case
  proof (cases oc)
    case (Terminated r)
    then show ?thesis
      using Suc.prems step profile_run.step_terminated[of m r m1] trace_fields(2)[OF ex]
      by (auto simp: profile_run.run_loop_simps)
  next
    case Continued
    then have "pm_termination m1 = None" "prun_loop (Suc k + n) (Suc k) m1 = (Inr outcome, t)"
      using Suc.prems(2) step profile_run.step_continued by (simp_all add: profile_run.run_loop_simps)
    note IH = Suc.IH[OF this]
    show ?thesis
    proof (cases n)
      case 0
      then have "t = m1" "outcome = BudgetExhausted (Suc k)"
        using Suc.prems(2) step Continued by (simp_all add: profile_run.run_loop_simps)
      then show ?thesis
        using 0 step Continued trace_fields(2)[OF ex] profile_run.step_continued by simp
    next
      case (Suc n')
      then show ?thesis using IH step Continued by (cases outcome) auto
    qed
  qed
qed auto

lemma merge_assoc: "merge_register_sets (merge_register_sets a b) c = merge_register_sets a (merge_register_sets b c)"
  by (simp add: merge_register_sets_def disj_assoc)

lemma foldl_merge: "foldl merge_register_sets (merge_register_sets a b) ws = merge_register_sets a (foldl merge_register_sets b ws)"
  by (induction ws arbitrary: b) (simp_all add: merge_assoc)

lemma merge_default [simp]: "merge_register_sets a profile_register_set_default = a"
  by (cases a) (simp add: merge_register_sets_def profile_register_set_default_def)

lemma project_loop_writes:
  "project_region_loop profile index trs locals = Inr locals' \<Longrightarrow>
    pl_effects locals' = pl_effects locals @ map effect_from_trace trs \<and>
    pl_register_writes locals' = pl_register_writes locals @ map (\<lambda>tr. acc_writes (ptr_register_accesses tr)) trs \<and>
    pl_written_registers locals' = foldl merge_register_sets (pl_written_registers locals)
      (map (\<lambda>tr. acc_writes (ptr_register_accesses tr)) trs) \<and>
    (sorted_wrt (<) (map fst (pl_live_memory locals)) \<longrightarrow> sorted_wrt (<) (map fst (pl_live_memory locals')))"
proof (induction trs arbitrary: index locals)
  case (Cons tr trs)
  then obtain mid where step: "project_region_step profile index tr locals = Inr mid"
    and rest: "project_region_loop profile (index + 1) trs mid = Inr locals'"
    by (auto simp: and_then_Inr_iff)
  have "pl_effects mid = pl_effects locals @ [effect_from_trace tr]"
    "pl_register_writes mid = pl_register_writes locals @ [acc_writes (ptr_register_accesses tr)]"
    using step by (auto simp: project_region_step_def and_then_Inr_iff split: if_splits)
  then show ?case
    using Cons.IH[OF rest] project_step_Inr(3)[OF step] collect_reads_ascending[OF project_step_Inr(1)[OF step]]
    by simp
qed simp

text \<open>
  What a region program asks of the machine it is entered with, and the registers it leaves known.
\<close>

definition meets_live_ins :: "RegisterMaskedRegionEffectProgram \<Rightarrow> ProfileMachine \<Rightarrow> ProfileMachine \<Rightarrow> bool" where
  "meets_live_ins prog m m' \<longleftrightarrow>
    registers_agree (mep_register_live_ins prog) (pm_registers m) (pm_registers m') \<and>
    (\<forall>li \<in> set (rep_memory_live_ins (mep_program prog)). pm_memory m' ! li_address li = li_value li)"

definition known_registers :: "RegisterMaskedRegionEffectProgram \<Rightarrow> ProfileRegisterSet" where
  "known_registers prog = foldl merge_register_sets (mep_register_live_ins prog) (mep_register_writes prog)"

lemma set_live_in_list: "sorted_wrt (<) (map fst xs) \<Longrightarrow>
    map_of xs a = Some v \<longleftrightarrow> \<lparr>li_address = a, li_value = v\<rparr> \<in> set (live_in_list xs)"
proof -
  assume "sorted_wrt (<) (map fst xs)"
  then have "distinct (map fst xs)" by (simp add: strict_sorted_iff)
  then have "map_of xs a = Some v \<longleftrightarrow> (a, v) \<in> set xs" by simp
  then show ?thesis by (force simp: live_in_list_def)
qed

lemma region_program:
  assumes wf: "wf_pmachine m" and live: "pm_termination m = None" and full: "full_width m"
    and budget: "0 < budget" and run: "prun budget m = (Inr outcome, t)"
  obtains prog locals where
    "from_profile_region_traces (pm_profile m) (traces_of budget m) budget outcome = Inr prog"
    "project_region_loop (pm_profile m) 0 (traces_of budget m) projection_locals_init = Inr locals"
    "mep_register_live_ins prog = pl_live_registers locals" "mep_register_writes prog = pl_register_writes locals"
    "rep_memory_live_ins (mep_program prog) = live_in_list (pl_live_memory locals)"
    "rep_effects (mep_program prog) = map effect_from_trace (traces_of budget m)"
    "\<forall>(a, v) \<in> set (pl_live_memory locals). a < length (pm_memory m) \<and> v = pm_memory m ! a"
    "sorted_wrt (<) (map fst (pl_live_memory locals))"
    "merge_register_sets (pl_live_registers locals) (pl_written_registers locals) = known_registers prog"
proof -
  have loop: "prun_loop (0 + budget) 0 m = (Inr outcome, t)" using run live by (simp add: prun_def)
  obtain locals where l: "project_region_loop (pm_profile m) 0 (traces_of budget m) projection_locals_init = Inr locals"
    "\<forall>(a, v) \<in> set (pl_live_memory locals). a < length (pm_memory m) \<and> v = pm_memory m ! a"
    using run_projects[OF wf live full refl loop refl, of projection_locals_init 0]
    by (auto simp: projection_locals_init_def)
  note tr = run_traces[OF live loop]
  have some: "traces_of budget m \<noteq> []" "ptr_after (last (traces_of budget m)) = pobservation t"
    using tr budget by simp_all
  have "validate_profile_region_outcome (traces_of budget m) budget outcome = Inr ()"
    "validate_profile_region_final_state (traces_of budget m) outcome = Inr ()"
    using tr some by (auto simp: validate_profile_region_outcome_def validate_profile_region_final_state_def
        pobservation_def split: RunOutcome.splits)
  then obtain prog where prog: "from_profile_region_traces (pm_profile m) (traces_of budget m) budget outcome = Inr prog"
    "mep_register_live_ins prog = pl_live_registers locals" "mep_register_writes prog = pl_register_writes locals"
    "rep_memory_live_ins (mep_program prog) = live_in_list (pl_live_memory locals)"
    "rep_effects (mep_program prog) = pl_effects locals"
    using l(1) by (simp add: from_profile_region_traces_def project_profile_region_traces_def)
  note w = project_loop_writes[OF l(1)]
  have sorted: "sorted_wrt (<) (map fst (pl_live_memory locals))" using w by (simp add: projection_locals_init_def)
  have known: "merge_register_sets (pl_live_registers locals) (pl_written_registers locals) = known_registers prog"
    using w prog(2,3) foldl_merge[of "pl_live_registers locals" profile_register_set_default]
    by (simp add: known_registers_def projection_locals_init_def)
  show ?thesis
    using that[OF prog(1) l(1) prog(2,3,4) _ l(2) sorted known] prog(5) w
    by (simp add: projection_locals_init_def)
qed

lemma region_replay:
  assumes wf: "wf_pmachine m" and live: "pm_termination m = None"
    and run: "prun_loop (0 + budget) 0 m = (Inr outcome, t)"
    and proj: "project_region_loop (pm_profile m) 0 (traces_of budget m) projection_locals_init = Inr locals"
    and prog: "mep_register_live_ins prog = pl_live_registers locals"
      "rep_memory_live_ins (mep_program prog) = live_in_list (pl_live_memory locals)"
      "sorted_wrt (<) (map fst (pl_live_memory locals))"
      "merge_register_sets (pl_live_registers locals) (pl_written_registers locals) = known_registers prog"
    and m': "wf_pmachine m'" "same_streams m m'" "meets_live_ins prog m m'"
  shows "\<exists>t' trs'. prun_traced (\<lambda>trs tr. trs @ [tr]) budget m' [] = (Inr outcome, t', trs') \<and>
    map blind trs' = map blind (traces_of budget m) \<and> same_streams t t' \<and>
    registers_agree (known_registers prog) (pm_registers t) (pm_registers t') \<and>
    (\<forall>a < length (pm_memory m'). pm_memory t' ! a =
      (if a \<in> cells_of (traces_of budget m) then pm_memory t ! a else pm_memory m' ! a))"
proof -
  have "following (pl_live_memory locals) (pl_live_registers locals) projection_locals_init m m'"
    using m' wf prog(1,2) set_live_in_list[OF prog(3)]
    by (auto simp: following_def meets_live_ins_def projection_locals_init_def)
  from following_run[OF this live proj _ _ run] obtain t' where
    t': "prun_loop (0 + budget) 0 m' = (Inr outcome, t')"
    "map blind (traces_of budget m') = map blind (traces_of budget m)"
    "following (pl_live_memory locals) (pl_live_registers locals) locals t t'"
    "\<forall>a < length (pm_memory m'). pm_memory t' ! a =
      (if a \<in> cells_of (traces_of budget m) then pm_memory t ! a else pm_memory m' ! a)"
    by (auto simp: set_le_def)
  have "pm_termination m' = None" using m'(2) live by (simp add: same_streams_def)
  then have "prun_traced (\<lambda>trs tr. trs @ [tr]) budget m' [] = (Inr outcome, t', traces_of budget m')"
    using prun_traced_traces[of m' budget] t'(1) by (simp add: prun_def)
  then show ?thesis using t' prog(4) by (auto simp: following_def)
qed

text \<open>
  C5: a region is replayed by every machine that meets its live-ins. The records of any bounded
  run project to a region program; its memory live-ins are cells of the machine the run started
  from, in ascending address order; and a machine in the same place of its streams that agrees on
  the live-in registers and holds the live-in cells, whatever the rest of its memory and
  accumulator, runs to the same outcome with the same inputs, outputs, reads and writes: it ends
  with the same streams, the same values in every register that was live or written and in every
  cell the region wrote, and its own memory elsewhere.
\<close>
theorem region_live_ins_suffice:
  assumes "wf_pmachine m" and "pm_termination m = None" and "full_width m"
    and "0 < budget" and "prun_traced (\<lambda>trs tr. trs @ [tr]) budget m [] = (Inr outcome, t, trs)"
  shows "\<exists>prog. from_profile_region_traces (pm_profile m) trs budget outcome = Inr prog \<and>
    sorted_wrt (<) (map li_address (rep_memory_live_ins (mep_program prog))) \<and> meets_live_ins prog m m \<and>
    (\<forall>m'. wf_pmachine m' \<and> same_streams m m' \<and> meets_live_ins prog m m' \<longrightarrow>
      (\<exists>t' trs'. prun_traced (\<lambda>trs tr. trs @ [tr]) budget m' [] = (Inr outcome, t', trs') \<and>
        map blind trs' = map blind trs \<and> same_streams t t' \<and>
        registers_agree (known_registers prog) (pm_registers t) (pm_registers t') \<and>
        (\<forall>a < length (pm_memory m'). pm_memory t' ! a =
          (if a \<in> cells_of trs then pm_memory t ! a else pm_memory m' ! a))))"
proof -
  have run: "prun budget m = (Inr outcome, t)" "trs = traces_of budget m"
    using assms(5) prun_traced_traces[OF assms(2), of budget] by (auto simp: prod_eq_iff)
  have loop: "prun_loop (0 + budget) 0 m = (Inr outcome, t)" using run assms(2) by (simp add: prun_def)
  obtain prog locals where prog:
    "from_profile_region_traces (pm_profile m) (traces_of budget m) budget outcome = Inr prog"
    "project_region_loop (pm_profile m) 0 (traces_of budget m) projection_locals_init = Inr locals"
    "mep_register_live_ins prog = pl_live_registers locals" "mep_register_writes prog = pl_register_writes locals"
    "rep_memory_live_ins (mep_program prog) = live_in_list (pl_live_memory locals)"
    "rep_effects (mep_program prog) = map effect_from_trace (traces_of budget m)"
    "\<forall>(a, v) \<in> set (pl_live_memory locals). a < length (pm_memory m) \<and> v = pm_memory m ! a"
    "sorted_wrt (<) (map fst (pl_live_memory locals))"
    "merge_register_sets (pl_live_registers locals) (pl_written_registers locals) = known_registers prog"
    by (rule region_program[OF assms(1-4) run(1)])
  note replay = region_replay[OF assms(1,2) loop prog(2,3,5,8,9)]
  have "sorted_wrt (<) (map li_address (rep_memory_live_ins (mep_program prog)))"
    using prog(5,8) by (simp add: live_in_list_def comp_def case_prod_beta)
  moreover have "meets_live_ins prog m m"
    using prog(3,5,7) by (auto simp: meets_live_ins_def registers_agree_def live_in_list_def)
  ultimately show ?thesis using prog(1) run(2) replay by blast
qed

text \<open>The concrete region: one crazy operation on the full-width historical profile.\<close>

definition region_demo :: "u32 \<Rightarrow> ProfileMachine" where
  "region_demo cell =
    \<lparr>pm_geometry = canonical PROFILE_0, pm_input = [], pm_input_cursor = 0,
     pm_memory = [62, 5] @ replicate 59046 0 @ [cell], pm_output = [], pm_profile = PROFILE_0,
     pm_registers = \<lparr>preg_accumulator = 0, preg_code_pointer = 0, preg_data_pointer = 1\<rparr>,
     pm_termination = None\<rparr>"

lemma region_demo_wf: "cell < 59049 \<Longrightarrow> wf_pmachine (region_demo cell)"
  by (auto simp: wf_pmachine_def region_demo_def canonical_def wf_geometry_def PROFILE_wf
      wf_pregisters_def admits_input_def PROFILE_0_def wf_profile_def)

lemma region_demo_runs: "\<exists>t. prun 1 (region_demo 0) = (Inr (BudgetExhausted 1), t)"
proof -
  have cell: "pm_memory (region_demo 0) ! preg_code_pointer (pm_registers (region_demo 0)) = 62"
    by (simp add: region_demo_def)
  have "XLAT1 ! 29 = 112" by (simp add: XLAT1_def)
  then have dec: "pdecoded (region_demo 0) = PCrazy"
    by (simp add: pdecoded_def region_demo_def profile_instruction_for_def profile_instruction_def
        PROFILE_0_def)
  have plan: "preg_code_pointer (pp_registers (pplanned (region_demo 0) PCrazy)) = 0"
    "pencryption_cell (region_demo 0) (pplanned (region_demo 0) PCrazy) = 62"
    by (simp_all add: pplanned_def pplan_init_def region_demo_def pencryption_cell_def pplanned_memory_def Let_def)
  have live: "pm_termination (region_demo 0) = None" by (simp add: region_demo_def)
  obtain t where "pstep (region_demo 0) = (Inr Continued, t)"
    by (simp add: pstep_wf[OF region_demo_wf live] cell dec plan
        profile_cell_is_graphical_def Let_def)
  then show ?thesis using live by (simp add: prun_def prun_loop.simps)
qed


lemma region_demo_facts: "pm_profile (region_demo c) = PROFILE_0" "pm_termination (region_demo c) = None"
    "full_width (region_demo c)"
  by (simp_all add: region_demo_def full_width_def canonical_def)

theorem region_live_ins_suffice_witness:
  "\<exists>prog t trs. prun_traced (\<lambda>trs tr. trs @ [tr]) 1 (region_demo 0) [] = (Inr (BudgetExhausted 1), t, trs) \<and>
    from_profile_region_traces PROFILE_0 trs 1 (BudgetExhausted 1) = Inr prog \<and>
    meets_live_ins prog (region_demo 0) (region_demo 0)"
proof -
  obtain t trs where run: "prun_traced (\<lambda>trs tr. trs @ [tr]) 1 (region_demo 0) [] = (Inr (BudgetExhausted 1), t, trs)"
    using region_demo_runs prun_traced_traces[of "region_demo 0" 1] region_demo_facts(2) by fastforce
  show ?thesis
    using region_live_ins_suffice[OF region_demo_wf region_demo_facts(2,3) _ run] run
    unfolding region_demo_facts by (metis zero_less_numeral zero_less_one)
qed

end
