(* ===== verification/EffectPrograms.thy ===== *)
theory EffectPrograms
  imports RegionReplay
begin

text \<open>
  What the projections of \<open>domain/execution_ir.rs\<close> make of observed steps: a region of one step is
  the step's own program, and every program addresses only the memory it declares.
\<close>

subsection \<open>A region of one step\<close>

text \<open>A live-in set read off an empty region is what the reads of the step are.\<close>

lemma register_live_ins_first:
  "collect_region_register_live_ins tr profile_register_set_default profile_register_set_default =
    acc_reads (ptr_register_accesses tr)"
  by (simp add: collect_region_register_live_ins_def profile_register_set_default_def Let_def)

lemma merge_default_left: "merge_register_sets profile_register_set_default a = a"
  by (simp add: merge_register_sets_def profile_register_set_default_def)

lemma region_from_step_trace_Inr:
  "region_from_step_trace tr = Inr r \<longleftrightarrow> trace_uses_canonical_geometry tr \<and>
    (\<exists>lis oc. project_profile_step_trace tr = Inr (lis, oc) \<and> r = one_step_program tr EFFECT_IR_VERSION lis oc)"
  by (auto simp: region_from_step_trace_def and_then_Inr_iff split: if_splits)

lemma map_err_Inr [simp]: "map_err f r = Inr x \<longleftrightarrow> r = Inr x"
  by (cases r) auto

text \<open>What a record says of its own one-step run.\<close>

definition reports :: "ProfileStepTrace \<Rightarrow> RunOutcome \<Rightarrow> bool" where
  "reports tr outcome \<longleftrightarrow> (case outcome of
      BudgetExhausted n \<Rightarrow> n = 1 \<and> ptr_result tr = Inr Continued \<and> pobs_termination (ptr_after tr) = None
    | RunTerminated r n \<Rightarrow> n = 1 \<and> ptr_result tr = Inr (Terminated r) \<and> pobs_termination (ptr_after tr) = Some r)"

lemma reports_unique: "reports tr o1 \<Longrightarrow> reports tr o2 \<Longrightarrow> o1 = o2"
  by (auto simp: reports_def split: RunOutcome.splits)

lemma project_profile_step_trace_Inr:
  "project_profile_step_trace tr = Inr (lis, oc) \<longleftrightarrow>
    pobs_termination (ptr_before tr) = None \<and>
    (\<exists>fetch live. reads_fetch (ptr_memory_reads tr) = Some fetch \<and>
      read_address fetch = preg_code_pointer (pobs_registers (ptr_before tr)) \<and>
      ptr_fetched_cell tr = Some (read_value fetch) \<and>
      collect_reads_loop (reads_of (ptr_memory_reads tr)) [] {} = Inr live \<and> lis = live_in_list live) \<and>
    reports tr oc"
proof (cases "reads_fetch (ptr_memory_reads tr)")
  case None
  then show ?thesis by (auto simp: project_profile_step_trace_def)
next
  case (Some fetch)
  have reads: "insert_reads_loop [] (present [Some fetch, reads_data (ptr_memory_reads tr),
      reads_encryption (ptr_memory_reads tr)]) =
    map_err (\<lambda>_. ConflictingMemoryRead) (collect_reads_loop (reads_of (ptr_memory_reads tr)) [] {})"
    by (simp add: insert_reads_collect reads_of_fetch[OF Some] del: present_simps)
  show ?thesis
    using Some
    by (auto simp: project_profile_step_trace_def and_then_Inr_iff reads reports_def simp del: present_simps
        split: if_splits sum.splits StepOutcome.splits RunOutcome.splits)
qed

lemma one_step_projection:
  "project_profile_region_traces (ptr_profile tr) [tr] = Inr r \<longleftrightarrow>
    (\<exists>lis oc. trace_uses_canonical_geometry tr \<and> project_profile_step_trace tr = Inr (lis, oc) \<and>
      r = \<lparr>rmrp_effects = [effect_from_trace tr], rmrp_memory_live_ins = lis,
           rmrp_register_live_ins = acc_reads (ptr_register_accesses tr),
           rmrp_register_writes = [acc_writes (ptr_register_accesses tr)]\<rparr>)"
proof -
  have "collect_region_memory_live_ins tr live written = collect_reads_loop (reads_of (ptr_memory_reads tr)) live written"
    for live written by (simp add: collect_region_memory_live_ins_def reads_of_def)
  then show ?thesis
    by (auto simp: project_profile_region_traces_def project_region_step_def projection_locals_init_def
        and_then_Inr_iff region_from_step_trace_Inr project_profile_step_trace_Inr register_live_ins_first
        merge_default_left simp del: present_simps)
qed

lemma one_step_versioned:
  "(one_step_program tr v lis oc)\<lparr>rep_format_version := v'\<rparr> = one_step_program tr v' lis oc"
  by (simp add: one_step_program_def)

lemma region_outcome_Inr:
  "validate_profile_region_outcome trs budget outcome = Inr () \<longleftrightarrow> trs \<noteq> [] \<and>
    (case outcome of BudgetExhausted n \<Rightarrow> n = budget \<and> n = length trs
      | RunTerminated r n \<Rightarrow> n \<le> budget \<and> n = length trs)"
  "validate_profile_region_final_state trs outcome = Inr () \<longleftrightarrow> trs \<noteq> [] \<and>
    (case outcome of BudgetExhausted n \<Rightarrow> pobs_termination (ptr_after (last trs)) = None
      | RunTerminated r n \<Rightarrow> pobs_termination (ptr_after (last trs)) = Some r)"
  by (auto simp: validate_profile_region_outcome_def validate_profile_region_final_state_def
      split: RunOutcome.splits)

text \<open>
  A region of one step is the step's own program. Projecting a single record as a region
  succeeds exactly when the step projection succeeds with the reported outcome, and then both
  produce the same register-masked program.
\<close>
lemma one_step_region_is_step_program:
  "from_profile_region_traces (ptr_profile tr) [tr] 1 outcome = Inr prog \<longleftrightarrow>
    masked_from_step_trace tr = Inr prog \<and> rep_outcome (mep_program prog) = outcome"
proof -
  have agree: "reports tr oc \<Longrightarrow> validate_profile_region_outcome [tr] 1 outcome = Inr () \<and>
      validate_profile_region_final_state [tr] outcome = Inr () \<longleftrightarrow> outcome = oc" for oc
    by (auto simp: region_outcome_Inr reports_def split: RunOutcome.splits)
  have proj: "project_profile_step_trace tr = Inr (lis, oc) \<Longrightarrow> reports tr oc" for lis oc
    by (simp add: project_profile_step_trace_Inr)
  have masked: "masked_from_step_trace tr = Inr prog \<longleftrightarrow> (\<exists>lis oc. trace_uses_canonical_geometry tr \<and>
      project_profile_step_trace tr = Inr (lis, oc) \<and> reports tr oc \<and>
      prog = \<lparr>mep_program = one_step_program tr EFFECT_IR_REGISTER_MASK_VERSION lis oc,
        mep_register_live_ins = acc_reads (ptr_register_accesses tr),
        mep_register_writes = [acc_writes (ptr_register_accesses tr)]\<rparr>)"
    unfolding masked_from_step_trace_def and_then_Inr_iff region_from_step_trace_Inr
    using proj by (auto simp: one_step_versioned)
  have "from_profile_region_traces (ptr_profile tr) [tr] 1 outcome = Inr prog \<longleftrightarrow>
    (\<exists>lis oc. trace_uses_canonical_geometry tr \<and> project_profile_step_trace tr = Inr (lis, oc) \<and>
      reports tr oc \<and> validate_profile_region_outcome [tr] 1 outcome = Inr () \<and>
      validate_profile_region_final_state [tr] outcome = Inr () \<and>
      prog = \<lparr>mep_program = one_step_program tr EFFECT_IR_REGISTER_MASK_VERSION lis outcome,
        mep_register_live_ins = acc_reads (ptr_register_accesses tr),
        mep_register_writes = [acc_writes (ptr_register_accesses tr)]\<rparr>)"
    by (auto simp: from_profile_region_traces_def and_then_Inr_iff one_step_projection one_step_program_def
        project_profile_step_trace_Inr)
  then show ?thesis unfolding masked using agree by (auto simp: one_step_program_def)
qed

subsection \<open>The memory a program addresses\<close>

lemma foldl_max: "foldl (\<lambda>n x. max n (f x)) b xs \<le> (c :: nat) \<longleftrightarrow> b \<le> c \<and> (\<forall>x \<in> set xs. f x \<le> c)"
  by (induction xs arbitrary: b) auto

lemma words_through: "a < c \<Longrightarrow> c \<le> U64_MAX \<Longrightarrow> words_through_address a \<le> c"
  by (simp add: words_through_address_def sat_add_def)

lemma region_required_le:
  "region_required_memory_words p \<le> c \<longleftrightarrow>
    (\<forall>li \<in> set (rep_memory_live_ins p). words_through_address (li_address li) \<le> c) \<and>
    (\<forall>e \<in> set (rep_effects p). effect_required_memory_words e \<le> c)"
  by (simp add: region_required_memory_words_def required_memory_words_def foldl_max)

lemma effect_required_le:
  assumes "c \<le> U64_MAX"
    and "\<forall>seen \<in> {eff_before e, eff_after e}. preg_code_pointer (pobs_registers seen) < c \<and>
      preg_data_pointer (pobs_registers seen) < c"
    and "\<forall>a \<in> written_cells (eff_memory_delta e). a < c"
  shows "effect_required_memory_words e \<le> c"
  using assms by (auto simp: effect_required_memory_words_def observation_required_memory_words_def words_through
      memory_delta_required_memory_words_def memory_write_required_memory_words_def written_cells_def
      written_addresses_def set_present split: option.splits)


lemma step_written_bound:
  assumes "wf_pmachine m" and "pm_termination m = None" and "step_execution m = (ex, t)"
    and "exec_result ex = Inr oc"
  shows "\<forall>a \<in> written_cells (exec_memory_delta ex). a < length (pm_memory m)"
proof -
  have "pstep m = (Inr oc, t)" using assms(3,4) by (simp add: pstep_def)
  then have "exec_memory_delta ex = profile_memory_delta_default \<or>
      (\<exists>e. exec_memory_delta ex = step_delta m (pplanned m (pdecoded m)) e)"
    using assms(3) step_execution_exact[OF assms(1,2)]
    by (auto simp: pstep_wf[OF assms(1,2)] Let_def split: if_splits)
  moreover have "plan_fits m (pplanned m (pdecoded m))" by (rule pplanned_fits[OF assms(1)])
  ultimately show ?thesis
    by (auto simp: written_cells_def written_addresses_def set_present step_delta_def plan_fits_def Let_def
        profile_memory_delta_default_def split: option.splits if_splits prod.splits)
qed

lemma traces_of_spec:
  "wf_pmachine m \<Longrightarrow> pm_termination m = None \<Longrightarrow> prun_loop (k + n) k m = (Inr outcome, t) \<Longrightarrow>
    tr \<in> set (traces_of n m) \<Longrightarrow>
    \<exists>u u' oc. wf_pmachine u \<and> pm_termination u = None \<and> pm_geometry u = pm_geometry m \<and>
      pstep u = (Inr oc, u') \<and> tr = pstep_trace u"
proof (induction n arbitrary: m k)
  case (Suc n)
  obtain oc m1 where step: "pstep m = (Inr oc, m1)"
    using Suc.prems(3) by (cases m rule: profile_run.step_cases) (auto simp: profile_run.run_loop_simps)
  show ?case
  proof (cases "tr = pstep_trace m")
    case False
    then have oc: "oc = Continued" "tr \<in> set (traces_of n m1)" using Suc.prems(4) step by (auto split: if_splits)
    then have "pm_termination m1 = None" "prun_loop (Suc k + n) (Suc k) m1 = (Inr outcome, t)"
      using Suc.prems(3) step profile_run.step_continued by (simp_all add: profile_run.run_loop_simps)
    from Suc.IH[OF _ this oc(2)] show ?thesis
      using pstep_preserves_wf[OF Suc.prems(1) step] pstep_unchanged[OF Suc.prems(1) step] by auto
  qed (use Suc.prems step in blast)
qed simp

lemma trace_addresses:
  assumes wf: "wf_pmachine m" and live: "pm_termination m = None" and step: "pstep m = (Inr oc, t)"
  shows "effect_required_memory_words (effect_from_trace (pstep_trace m)) \<le> length (pm_memory m)"
    "\<forall>read \<in> set (reads_of (ptr_memory_reads (pstep_trace m))). read_address read < length (pm_memory m)"
    "ptr_geometry (pstep_trace m) = pm_geometry m"
proof -
  obtain ex where ex: "step_execution m = (ex, t)" "exec_result ex = Inr oc"
    using step by (auto simp: pstep_unfold)
  note tr = trace_fields[OF ex(1)] and stay = pstep_unchanged[OF wf step]
  note w = wf_pmachineD[OF wf] wf_pmachineD[OF pstep_preserves_wf[OF wf step]]
  have "length (pm_memory m) \<le> U64_MAX"
    using wf_geometry_bounds(2)[OF w(1)] w(2) by (simp add: U32_MAX_def U64_MAX_def)
  then show "effect_required_memory_words (effect_from_trace (pstep_trace m)) \<le> length (pm_memory m)"
    using w stay step_written_bound[OF wf live ex]
    by (intro effect_required_le) (auto simp: effect_from_trace_def tr pobservation_def)
  show "\<forall>read \<in> set (reads_of (ptr_memory_reads (pstep_trace m))). read_address read < length (pm_memory m)"
    using step_reads_sound(2)[OF wf live ex] by (simp add: tr)
  show "ptr_geometry (pstep_trace m) = pm_geometry m" using stay by (simp add: tr)
qed

lemma ternary_memory_loop_exact: "ternary_memory_loop n v = (if v * 3 ^ n \<le> U32_MAX then Some (v * 3 ^ n) else None)"
  if "0 < v" "v \<le> U32_MAX"
  using that
proof (induction n arbitrary: v)
  case (Suc n)
  have step: "ternary_memory_loop (Suc n) v = (if v * 3 \<le> U32_MAX then ternary_memory_loop n (v * 3) else None)"
    by (simp add: checked_mul_def)
  show ?case
  proof (cases "v * 3 \<le> U32_MAX")
    case True
    then show ?thesis using step Suc.IH[of "v * 3"] Suc.prems by (simp add: mult.assoc)
  next
    case False
    have "v * 3 \<le> v * 3 ^ Suc n" by simp
    then have "\<not> v * 3 ^ Suc n \<le> U32_MAX" using False by linarith
    then show ?thesis using step False by (simp del: ternary_memory_loop.simps)
  qed
qed auto

lemma geometry_requirement_new_Inr:
  "geometry_requirement_new w n = Inr r \<longleftrightarrow>
    10 \<le> w \<and> n = 3 ^ w \<and> n \<le> U32_MAX \<and> r = \<lparr>pegr_memory_words = n, pegr_word_trits = w\<rparr>"
  using ternary_memory_loop_exact[of 1 w]
  by (auto simp: geometry_requirement_new_def ternary_memory_words_def SEMANTIC_WIDTH_MINIMUM_TRITS_def U32_MAX_def)

lemma live_ins_required:
  "\<forall>(a, v) \<in> set lis. a < c \<Longrightarrow> c \<le> U64_MAX \<Longrightarrow> li \<in> set (live_in_list lis) \<Longrightarrow>
    words_through_address (li_address li) \<le> c"
  by (auto simp: live_in_list_def intro!: words_through)

text \<open>
  C7: what a program addresses fits the geometry it declares. The step of any well-formed machine
  projects to a geometry program whose instruction pointers, data pointers, writes and live-ins lie
  inside the declared memory, and from ten trits on the declared geometry passes the validating
  constructor; a full-width run projects to a region program that fits its declared profile.
\<close>
theorem effect_programs_fit_their_geometry:
  assumes wf: "wf_pmachine m" and live: "pm_termination m = None"
  shows "(\<forall>oc t. pstep m = (Inr oc, t) \<longrightarrow>
      (\<exists>gp. geometry_from_step_trace (pstep_trace m) = Inr gp \<and> fits_execution_geometry_capacity gp \<and>
        (10 \<le> geo_word_trits (pm_geometry m) \<longrightarrow>
          geometry_requirement_new (geo_word_trits (pm_geometry m)) (geo_memory_words (pm_geometry m)) =
            Inr (gep_execution_geometry gp)))) \<and>
    (\<forall>budget outcome t trs. full_width m \<and> 0 < budget \<and>
      prun_traced (\<lambda>trs tr. trs @ [tr]) budget m [] = (Inr outcome, t, trs) \<longrightarrow>
      (\<exists>prog. from_profile_region_traces (pm_profile m) trs budget outcome = Inr prog \<and>
        fits_declared_profile_capacity (mep_program prog)))"
proof -
  note w = wf_pmachineD[OF wf] and g = wf_geometry_bounds[OF wf_pmachineD(1)[OF wf]]
  have top: "length (pm_memory m) \<le> U64_MAX" using g(2) w(2) by (simp add: U32_MAX_def U64_MAX_def)
  have "\<exists>gp. geometry_from_step_trace (pstep_trace m) = Inr gp \<and> fits_execution_geometry_capacity gp \<and>
        (10 \<le> geo_word_trits (pm_geometry m) \<longrightarrow>
          geometry_requirement_new (geo_word_trits (pm_geometry m)) (geo_memory_words (pm_geometry m)) =
            Inr (gep_execution_geometry gp))" if step: "pstep m = (Inr oc, t)" for oc t
  proof -
    obtain lis outcome where p: "project_profile_step_trace (pstep_trace m) = Inr (live_in_list lis, outcome)"
      "\<forall>(a, v) \<in> set lis. a < length (pm_memory m) \<and> v = pm_memory m ! a"
      "ptr_geometry (pstep_trace m) = pm_geometry m" by (rule step_projection[OF wf live step])
    define gp where "gp = \<lparr>gep_execution_geometry = from_execution_geometry (pm_geometry m),
      gep_program = one_step_program (pstep_trace m) EFFECT_IR_EXECUTION_GEOMETRY_VERSION (live_in_list lis) outcome\<rparr>"
    have "geometry_from_step_trace (pstep_trace m) = Inr gp"
      by (simp add: geometry_from_step_trace_def p(1,3) gp_def)
    moreover have "\<forall>(a, v) \<in> set lis. a < length (pm_memory m)" using p(2) by auto
    then have "region_required_memory_words (gep_program gp) \<le> length (pm_memory m)"
      using live_ins_required[OF _ top] trace_addresses(1)[OF wf live step]
      by (simp add: gp_def region_required_le one_step_program_def)
    then have "fits_execution_geometry_capacity gp"
      by (simp add: fits_execution_geometry_capacity_def gp_def from_execution_geometry_def w(2))
    moreover have "gep_execution_geometry gp = \<lparr>pegr_memory_words = geo_memory_words (pm_geometry m),
        pegr_word_trits = geo_word_trits (pm_geometry m)\<rparr>"
      by (simp add: gp_def from_execution_geometry_def)
    moreover have "geo_memory_words (pm_geometry m) = 3 ^ geo_word_trits (pm_geometry m)"
      using w(1) by (simp add: wf_geometry_def)
    ultimately show ?thesis
      using g(2) geometry_requirement_new_Inr by metis
  qed
  moreover have "\<exists>prog. from_profile_region_traces (pm_profile m) (traces_of budget m) budget outcome = Inr prog \<and>
      fits_declared_profile_capacity (mep_program prog)"
    if full: "full_width m" and budget: "0 < budget" and run: "prun budget m = (Inr outcome, t)"
    for budget outcome t
  proof (rule region_program[OF wf live full budget run])
    fix prog locals
    assume prog: "from_profile_region_traces (pm_profile m) (traces_of budget m) budget outcome = Inr prog"
      "rep_memory_live_ins (mep_program prog) = live_in_list (pl_live_memory locals)"
      "rep_effects (mep_program prog) = map effect_from_trace (traces_of budget m)"
      "\<forall>(a, v) \<in> set (pl_live_memory locals). a < length (pm_memory m) \<and> v = pm_memory m ! a"
    have "prun_loop (0 + budget) 0 m = (Inr outcome, t)" using run live by (simp add: prun_def)
    note traces = traces_of_spec[OF wf live this]
    have "effect_required_memory_words e \<le> length (pm_memory m)" if e: "e \<in> set (rep_effects (mep_program prog))" for e
    proof -
      obtain tr where "tr \<in> set (traces_of budget m)" "e = effect_from_trace tr" using e prog(3) by auto
      then obtain u u' oc where "wf_pmachine u" "pm_termination u = None" "pm_geometry u = pm_geometry m"
        "pstep u = (Inr oc, u')" "e = effect_from_trace (pstep_trace u)" using traces by blast
      then show ?thesis using trace_addresses(1)[of u oc u'] wf_pmachineD(2)[of u] w(2) by simp
    qed
    moreover have "\<forall>(a, v) \<in> set (pl_live_memory locals). a < length (pm_memory m)" using prog(4) by auto
    note live_ins_required[OF this top]
    moreover have "req_memory_words (rep_profile_requirement (mep_program prog)) = length (pm_memory m)"
    proof -
      have "rep_profile_requirement (mep_program prog) = requirement_from_descriptor (pm_profile m)"
        using prog(1) by (auto simp: from_profile_region_traces_def and_then_Inr_iff)
      then show ?thesis
        using full w(1,2,7) by (simp add: requirement_from_descriptor_def full_width_def wf_geometry_def wf_profile_def)
    qed
    ultimately show ?thesis
      using prog(1,2) by (simp add: fits_declared_profile_capacity_def region_required_le)
  qed
  moreover have "prun budget m = (Inr outcome, t) \<and> trs = traces_of budget m"
    if "prun_traced (\<lambda>trs tr. trs @ [tr]) budget m [] = (Inr outcome, t, trs)" for budget outcome t trs
    using that prun_traced_traces[OF live] by (auto simp: prod_eq_iff)
  ultimately show ?thesis by metis
qed

theorem effect_programs_fit_their_geometry_witness:
  "\<exists>prog gp trs t. prun_traced (\<lambda>trs tr. trs @ [tr]) 1 (region_demo 0) [] = (Inr (BudgetExhausted 1), t, trs) \<and>
    from_profile_region_traces PROFILE_0 trs 1 (BudgetExhausted 1) = Inr prog \<and>
    fits_declared_profile_capacity (mep_program prog) \<and>
    geometry_from_step_trace (pstep_trace (region_demo 0)) = Inr gp \<and> fits_execution_geometry_capacity gp"
proof -
  obtain t where run: "prun 1 (region_demo 0) = (Inr (BudgetExhausted 1), t)" using region_demo_runs by blast
  then have traced: "prun_traced (\<lambda>trs tr. trs @ [tr]) 1 (region_demo 0) [] =
      (Inr (BudgetExhausted 1), t, traces_of 1 (region_demo 0))"
    using prun_traced_traces[of "region_demo 0" 1, OF region_demo_facts(2)] by simp
  obtain oc u where step: "pstep (region_demo 0) = (Inr oc, u)"
    using run by (cases "region_demo 0" rule: profile_run.step_cases)
      (auto simp: prun_def region_demo_facts(2) profile_run.run_loop_simps)
  have wf: "wf_pmachine (region_demo 0)" by (rule region_demo_wf) simp
  show ?thesis
    using effect_programs_fit_their_geometry[OF wf region_demo_facts(2)]
    unfolding region_demo_facts(1) using step traced region_demo_facts(3) by fastforce
qed

end
