(* ===== verification/EffectEncoding.thy ===== *)
theory EffectEncoding
  imports EffectIR
begin

text \<open>
  The canonical bytes of \<open>domain/execution_ir.rs\<close>: what each encoder appends, when encoding fails,
  and that the bytes of the four schemas are prefix-free. The interface is \<open>delimited\<close>, a code that
  can be peeled off whatever follows it; every part of a program is an interpretation of it.
\<close>

subsection \<open>Codes that delimit themselves\<close>

text \<open>
  An encoding whose values can be told apart whatever bytes follow them. Encodings of this kind
  compose by concatenation, so a sequence preceded by its length is one too.
\<close>

definition counted :: "('a \<Rightarrow> u8 list) \<Rightarrow> 'a list \<Rightarrow> u8 list" where
  "counted enc xs = le_bytes 8 (length xs) @ concat (map enc xs)"

locale delimited =
  fixes ok :: "'a \<Rightarrow> bool" and enc :: "'a \<Rightarrow> u8 list"
  assumes delimits: "ok x \<Longrightarrow> ok y \<Longrightarrow> enc x @ r = enc y @ s \<Longrightarrow> x = y \<and> r = s"
begin

lemma peel: "ok x \<Longrightarrow> ok y \<Longrightarrow> enc x @ r = enc y @ s \<longleftrightarrow> x = y \<and> r = s"
  using delimits by blast

lemma inject: "ok x \<Longrightarrow> ok y \<Longrightarrow> enc x = enc y \<longleftrightarrow> x = y"
  using delimits[of x y "[]" "[]"] by auto

lemma list_peel:
  "length xs = length ys \<Longrightarrow> \<forall>x \<in> set (xs @ ys). ok x \<Longrightarrow>
    concat (map enc xs) @ r = concat (map enc ys) @ s \<longleftrightarrow> xs = ys \<and> r = s"
  by (induction xs ys arbitrary: r s rule: list_induct2) (auto simp: peel)

end

lemma le_inject:
  assumes "v < 256 ^ n" and "w < 256 ^ n" and "le_bytes n v @ r = le_bytes n w @ s"
  shows "v = w \<and> r = s"
proof -
  have same: "le_bytes n v = le_bytes n w \<and> r = s"
    using append_eq_append_conv[THEN iffD1, OF _ assms(3)] length_le_bytes by simp
  have "v mod 256 ^ n = w mod 256 ^ n"
    using arg_cong[OF conjunct1[OF same], of from_le_bytes] unfolding from_le_le .
  then show ?thesis using assms(1,2) same by simp
qed

interpretation code_u16: delimited "\<lambda>v. v \<le> U16_MAX" "le_bytes 2"
  by unfold_locales (rule le_inject, simp_all add: U16_MAX_def)

interpretation code_u32: delimited "\<lambda>v. v \<le> U32_MAX" "le_bytes 4"
  by unfold_locales (rule le_inject, simp_all add: U32_MAX_def)

interpretation code_u64: delimited "\<lambda>v. v \<le> U64_MAX" "le_bytes 8"
  by unfold_locales (rule le_inject, simp_all add: U64_MAX_def)

context delimited
begin

lemma counted_delimited:
  "delimited (\<lambda>xs. length xs \<le> U64_MAX \<and> (\<forall>x \<in> set xs. ok x)) (counted enc)"
proof
  fix xs ys r s
  assume ok: "length xs \<le> U64_MAX \<and> (\<forall>x \<in> set xs. ok x)" "length ys \<le> U64_MAX \<and> (\<forall>x \<in> set ys. ok x)"
    and "counted enc xs @ r = counted enc ys @ s"
  then have "le_bytes 8 (length xs) @ concat (map enc xs) @ r = le_bytes 8 (length ys) @ concat (map enc ys) @ s"
    by (simp only: counted_def append_assoc)
  then have "length xs = length ys \<and> concat (map enc xs) @ r = concat (map enc ys) @ s"
    using code_u64.delimits ok by blast
  then show "xs = ys \<and> r = s" using list_peel[of xs ys r s] ok by auto
qed

end

subsection \<open>The bytes of each part\<close>

definition text_bytes :: "string \<Rightarrow> u8 list" where
  "text_bytes s = counted (\<lambda>c. [of_nat (of_char c)]) s"

definition ok_text :: "string \<Rightarrow> bool" where
  "ok_text s \<longleftrightarrow> length s \<le> U64_MAX"

definition termination_byte :: "Termination option \<Rightarrow> u8" where
  "termination_byte t = (case t of None \<Rightarrow> 0 | Some HaltInstruction \<Rightarrow> 1 | Some NonGraphicalCell \<Rightarrow> 2)"

definition outcome_bytes :: "RunOutcome \<Rightarrow> u8 list" where
  "outcome_bytes outcome = (case outcome of
      BudgetExhausted steps \<Rightarrow> 0 # le_bytes 8 steps
    | RunTerminated reason steps \<Rightarrow> 1 # termination_byte (Some reason) # le_bytes 8 steps)"

definition ok_outcome :: "RunOutcome \<Rightarrow> bool" where
  "ok_outcome outcome \<longleftrightarrow> (case outcome of
      BudgetExhausted steps \<Rightarrow> steps \<le> U64_MAX | RunTerminated _ steps \<Rightarrow> steps \<le> U64_MAX)"

definition mask_byte :: "ProfileRegisterSet \<Rightarrow> u8" where
  "mask_byte s = of_bool (rs_accumulator s) + 2 * of_bool (rs_code_pointer s) + 4 * of_bool (rs_data_pointer s)"

definition observation_bytes :: "ProfileMachineObservation \<Rightarrow> u8 list" where
  "observation_bytes seen = le_bytes 8 (pobs_input_consumed seen) @ le_bytes 8 (pobs_output_len seen) @
    le_bytes 4 (preg_accumulator (pobs_registers seen)) @ le_bytes 4 (preg_code_pointer (pobs_registers seen)) @
    le_bytes 4 (preg_data_pointer (pobs_registers seen)) @ [termination_byte (pobs_termination seen)]"

definition ok_observation :: "ProfileMachineObservation \<Rightarrow> bool" where
  "ok_observation seen \<longleftrightarrow> pobs_input_consumed seen \<le> U64_MAX \<and> pobs_output_len seen \<le> U64_MAX \<and>
    preg_accumulator (pobs_registers seen) \<le> U32_MAX \<and> preg_code_pointer (pobs_registers seen) \<le> U32_MAX \<and>
    preg_data_pointer (pobs_registers seen) \<le> U32_MAX"

definition write_bytes :: "ProfileMemoryWrite option \<Rightarrow> u8 list" where
  "write_bytes write = (case write of
      None \<Rightarrow> [0]
    | Some change \<Rightarrow> 1 # le_bytes 4 (pmw_address change) @ le_bytes 4 (pmw_before change) @
        le_bytes 4 (pmw_after change))"

definition ok_write :: "ProfileMemoryWrite option \<Rightarrow> bool" where
  "ok_write write \<longleftrightarrow> (case write of None \<Rightarrow> True | Some change \<Rightarrow>
    pmw_address change \<le> U32_MAX \<and> pmw_before change \<le> U32_MAX \<and> pmw_after change \<le> U32_MAX)"

definition input_bytes :: "TraceInput option \<Rightarrow> u8 list" where
  "input_bytes i = (case i of None \<Rightarrow> [0] | Some (TraceByte v) \<Rightarrow> [1, v] | Some EndOfInput \<Rightarrow> [2])"

definition output_bytes :: "u8 option \<Rightarrow> u8 list" where
  "output_bytes b = (case b of None \<Rightarrow> [0] | Some v \<Rightarrow> [1, v])"

definition effect_bytes :: "EffectOp \<Rightarrow> u8 list" where
  "effect_bytes e = observation_bytes (eff_before e) @ observation_bytes (eff_after e) @
    input_bytes (eff_input e) @ output_bytes (eff_output e) @
    write_bytes (pdelta_data (eff_memory_delta e)) @ write_bytes (pdelta_encryption (eff_memory_delta e))"

definition ok_effect :: "EffectOp \<Rightarrow> bool" where
  "ok_effect e \<longleftrightarrow> ok_observation (eff_before e) \<and> ok_observation (eff_after e) \<and>
    ok_write (pdelta_data (eff_memory_delta e)) \<and> ok_write (pdelta_encryption (eff_memory_delta e))"

definition live_in_bytes :: "MemoryLiveIn \<Rightarrow> u8 list" where
  "live_in_bytes li = le_bytes 4 (li_address li) @ le_bytes 4 (li_value li)"

definition ok_live_in :: "MemoryLiveIn \<Rightarrow> bool" where
  "ok_live_in li \<longleftrightarrow> li_address li \<le> U32_MAX \<and> li_value li \<le> U32_MAX"

lemma termination_byte_inject: "termination_byte s = termination_byte t \<longleftrightarrow> s = t"
  by (auto simp: termination_byte_def split: option.splits Termination.splits)

lemma mask_byte_inject: "mask_byte s = mask_byte t \<longleftrightarrow> s = t"
  by (cases s; cases t) (auto simp: mask_byte_def split: if_splits simp: of_bool_def)

lemma push_register_set_bytes: "push_register_set out s = out @ [mask_byte s]"
  by (cases s) (simp add: push_register_set_def mask_byte_def of_bool_def)

lemma letter_byte: "(of_nat (of_char c) :: u8) = of_nat (of_char d) \<longleftrightarrow> c = (d :: char)"
proof -
  have "unat (of_nat (of_char c) :: u8) = of_char c" for c :: char
    by (simp add: unat_of_nat)
  then show ?thesis by (metis of_char_eq_iff)
qed

interpretation code_char: delimited "\<lambda>_. True" "\<lambda>c. [of_nat (of_char c) :: u8]"
  by unfold_locales (simp add: letter_byte)

interpretation code_text: delimited ok_text text_bytes
  using code_char.counted_delimited by (simp add: text_bytes_def[abs_def] ok_text_def[abs_def])

interpretation code_texts: delimited "\<lambda>xs. length xs \<le> U64_MAX \<and> (\<forall>x \<in> set xs. ok_text x)" "counted text_bytes"
  by (rule code_text.counted_delimited)

lemmas peels = code_u16.peel code_u32.peel code_u64.peel code_text.peel code_texts.peel
  code_u16.inject code_u32.inject code_u64.inject code_text.inject code_texts.inject

interpretation code_outcome: delimited ok_outcome outcome_bytes
  by unfold_locales (auto simp: outcome_bytes_def ok_outcome_def termination_byte_inject peels simp del: le_bytes.simps
      split: RunOutcome.splits)

interpretation code_observation: delimited ok_observation observation_bytes
  by unfold_locales (auto simp: observation_bytes_def ok_observation_def termination_byte_inject peels
      simp del: le_bytes.simps intro!: ProfileMachineObservation.equality ProfileRegisters.equality)

interpretation code_write: delimited ok_write write_bytes
  by unfold_locales (auto simp: write_bytes_def ok_write_def peels simp del: le_bytes.simps
      split: option.splits intro!: ProfileMemoryWrite.equality)

lemmas part_peels = peels code_outcome.peel code_observation.peel code_write.peel

interpretation code_input: delimited "\<lambda>_. True" input_bytes
  by unfold_locales (auto simp: input_bytes_def split: option.splits TraceInput.splits)

interpretation code_output: delimited "\<lambda>_. True" output_bytes
  by unfold_locales (auto simp: output_bytes_def split: option.splits)

interpretation code_effect: delimited ok_effect effect_bytes
  by unfold_locales (auto simp: effect_bytes_def ok_effect_def part_peels code_input.peel code_output.peel
      intro!: EffectOp.equality ProfileMemoryDelta.equality)

interpretation code_live_in: delimited ok_live_in live_in_bytes
  by unfold_locales (auto simp: live_in_bytes_def ok_live_in_def peels simp del: le_bytes.simps
      intro!: MemoryLiveIn.equality)

interpretation code_live_ins: delimited "\<lambda>xs. length xs \<le> U64_MAX \<and> (\<forall>x \<in> set xs. ok_live_in x)" "counted live_in_bytes"
  by (rule code_live_in.counted_delimited)

interpretation code_effects: delimited "\<lambda>xs. length xs \<le> U64_MAX \<and> (\<forall>x \<in> set xs. ok_effect x)" "counted effect_bytes"
  by (rule code_effect.counted_delimited)


subsection \<open>What each encoder appends\<close>

lemma concat_singles: "concat (map (\<lambda>x. [f x]) xs) = map f xs"
  by (induction xs) simp_all

lemma push_usize_Inr [simp]: "v \<le> U64_MAX \<Longrightarrow> push_usize out v = Inr (out @ le_bytes 8 v)"
  by (simp add: push_usize_def ir_push_u64_def)

lemma push_text [simp]: "ok_text s \<Longrightarrow> push_bytes out (as_bytes s) = Inr (out @ text_bytes s)"
  by (simp add: push_bytes_def ok_text_def text_bytes_def counted_def as_bytes_def concat_singles)

lemma push_features: "\<forall>s \<in> set xs. ok_text s \<Longrightarrow> push_features_loop out xs = Inr (out @ concat (map text_bytes xs))"
  by (induction xs arbitrary: out) simp_all

lemma push_outcome [simp]: "ok_outcome oc \<Longrightarrow> push_run_outcome out oc = Inr (out @ outcome_bytes oc)"
  by (cases oc) (simp_all add: push_run_outcome_def ok_outcome_def outcome_bytes_def push_termination_def
      termination_byte_def del: le_bytes.simps)

lemma push_observation_ok [simp]:
  "ok_observation seen \<Longrightarrow> push_observation out seen = Inr (out @ observation_bytes seen)"
  by (simp add: push_observation_def ok_observation_def observation_bytes_def ir_push_u32_def push_termination_def
      termination_byte_def Let_def del: le_bytes.simps)

lemma push_write [simp]: "push_memory_write out w = out @ write_bytes w"
  by (cases w) (simp_all add: push_memory_write_def write_bytes_def ir_push_u32_def)

lemma push_effect_ok [simp]: "ok_effect e \<Longrightarrow> push_effect out e = Inr (out @ effect_bytes e)"
  by (simp add: push_effect_def ok_effect_def effect_bytes_def push_memory_delta_def input_bytes_def
      output_bytes_def Let_def)

lemma push_live_ins: "push_live_ins_loop out xs = out @ concat (map live_in_bytes xs)"
  by (induction xs arbitrary: out) (simp_all add: live_in_bytes_def ir_push_u32_def)

lemma push_effects: "\<forall>e \<in> set xs. ok_effect e \<Longrightarrow> push_effects_loop out xs = Inr (out @ concat (map effect_bytes xs))"
  by (induction xs arbitrary: out) simp_all


text \<open>The requirement and the three schemas.\<close>

definition requirement_bytes :: "u16 \<Rightarrow> TargetProfileRequirement \<Rightarrow> u8 list" where
  "requirement_bytes v req = text_bytes (req_version req) @ counted text_bytes (req_features req) @
    [of_nat (req_word_trits req)] @
    (if v = EFFECT_IR_VERSION then le_bytes 4 (req_memory_words req) else le_bytes 8 (req_memory_words req))"

definition ok_requirement :: "TargetProfileRequirement \<Rightarrow> bool" where
  "ok_requirement req \<longleftrightarrow> ok_text (req_version req) \<and> length (req_features req) \<le> U64_MAX \<and>
    (\<forall>f \<in> set (req_features req). ok_text f) \<and> req_word_trits req \<le> 255 \<and> req_memory_words req \<le> U64_MAX"

definition header_bytes :: "u16 \<Rightarrow> RegionEffectProgram \<Rightarrow> u8 list" where
  "header_bytes v p = IR_MAGIC @ le_bytes 2 v @ text_bytes (rep_profile_id p) @
    text_bytes (rep_profile_fingerprint p) @ requirement_bytes v (rep_profile_requirement p)"

definition run_bytes :: "RegionEffectProgram \<Rightarrow> u8 list" where
  "run_bytes p = le_bytes 8 (rep_step_budget p) @ outcome_bytes (rep_outcome p) @
    counted live_in_bytes (rep_memory_live_ins p)"

definition ok_program :: "RegionEffectProgram \<Rightarrow> bool" where
  "ok_program p \<longleftrightarrow> ok_text (rep_profile_id p) \<and> ok_text (rep_profile_fingerprint p) \<and>
    ok_requirement (rep_profile_requirement p) \<and> rep_format_version p \<le> U16_MAX \<and>
    rep_step_budget p \<le> U64_MAX \<and> ok_outcome (rep_outcome p) \<and>
    length (rep_memory_live_ins p) \<le> U64_MAX \<and> (\<forall>li \<in> set (rep_memory_live_ins p). ok_live_in li) \<and>
    length (rep_effects p) \<le> U64_MAX \<and> (\<forall>e \<in> set (rep_effects p). ok_effect e)"

lemma ok_programD:
  assumes "ok_program p"
  shows "ok_text (rep_profile_id p)" "ok_text (rep_profile_fingerprint p)"
    "ok_requirement (rep_profile_requirement p)" "rep_format_version p \<le> U16_MAX"
    "rep_step_budget p \<le> U64_MAX" "ok_outcome (rep_outcome p)" "length (rep_memory_live_ins p) \<le> U64_MAX"
    "\<forall>li \<in> set (rep_memory_live_ins p). ok_live_in li" "length (rep_effects p) \<le> U64_MAX"
    "\<forall>e \<in> set (rep_effects p). ok_effect e"
  using assms by (auto simp: ok_program_def)

definition masked_effect_bytes :: "EffectOp \<times> ProfileRegisterSet \<Rightarrow> u8 list" where
  "masked_effect_bytes x = effect_bytes (fst x) @ [mask_byte (snd x)]"

lemma push_masked_effects:
  "\<forall>x \<in> set xs. ok_effect (fst x) \<Longrightarrow>
    push_masked_effects_loop out xs = Inr (out @ concat (map masked_effect_bytes xs))"
  by (induction xs arbitrary: out) (auto simp: push_register_set_bytes masked_effect_bytes_def)

lemma push_requirement:
  assumes "ok_requirement req"
  shows "push_profile_requirement out req v =
    (if v \<notin> {3, 4, 5, 6} then Inl UnsupportedFormatVersion
     else if v = 3 \<and> U32_MAX < req_memory_words req then Inl ProfileMemoryWordsOverflow
     else Inr (out @ requirement_bytes v req))"
  using assms by (auto simp: push_profile_requirement_def ok_requirement_def requirement_bytes_def counted_def
      push_features ir_versions ir_push_u32_def ir_push_u64_def Let_def simp del: le_bytes.simps)

text \<open>\<open>canonical_bytes\<close> of each schema, exactly.\<close>

lemma canonical_bytes_exact:
  assumes "ok_program p"
  shows "canonical_bytes p =
    (if rep_format_version p \<notin> {3, 4} then Inl UnsupportedFormatVersion
     else if rep_format_version p = 3 \<and> U32_MAX < req_memory_words (rep_profile_requirement p)
     then Inl ProfileMemoryWordsOverflow
     else Inr (header_bytes (rep_format_version p) p @ run_bytes p @ counted effect_bytes (rep_effects p)))"
  using ok_programD[OF assms]
  by (auto simp: canonical_bytes_def is_canonical_effect_ir_version_def ir_versions push_requirement push_live_ins
      push_effects header_bytes_def run_bytes_def counted_def ir_push_u16_def Let_def simp del: le_bytes.simps)

lemma geometry_canonical_bytes_exact:
  assumes "ok_program (gep_program g)"
  shows "geometry_canonical_bytes g =
    Inr (header_bytes 5 (gep_program g) @ [of_nat (pegr_word_trits (gep_execution_geometry g))] @
      le_bytes 4 (pegr_memory_words (gep_execution_geometry g)) @ run_bytes (gep_program g) @
      counted effect_bytes (rep_effects (gep_program g)))"
  using ok_programD[OF assms]
  by (auto simp: geometry_canonical_bytes_def push_execution_geometry_def ir_versions push_requirement push_live_ins
      push_effects header_bytes_def run_bytes_def counted_def ir_push_u16_def ir_push_u32_def Let_def
      simp del: le_bytes.simps)

lemma masked_canonical_bytes_exact:
  assumes "ok_program (mep_program m)"
  shows "masked_canonical_bytes m =
    (if rep_format_version (mep_program m) \<noteq> 6 then Inl UnsupportedFormatVersion
     else if length (rep_effects (mep_program m)) \<noteq> length (mep_register_writes m) then Inl RegisterMaskCountMismatch
     else Inr (header_bytes 6 (mep_program m) @ run_bytes (mep_program m) @ [mask_byte (mep_register_live_ins m)] @
       counted masked_effect_bytes (zip (rep_effects (mep_program m)) (mep_register_writes m))))"
proof -
  have "\<forall>x \<in> set (zip (rep_effects (mep_program m)) (mep_register_writes m)). ok_effect (fst x)"
    using ok_programD(10)[OF assms] by (auto dest: set_zip_leftD)
  then show ?thesis
    using ok_programD[OF assms]
    by (auto simp: masked_canonical_bytes_def ir_versions push_requirement push_live_ins push_register_set_bytes
        push_masked_effects header_bytes_def run_bytes_def counted_def ir_push_u16_def Let_def simp del: le_bytes.simps)
qed


subsection \<open>Different programs have different bytes\<close>

definition encodes_words :: "u16 \<Rightarrow> TargetProfileRequirement \<Rightarrow> bool" where
  "encodes_words v req \<longleftrightarrow> (v = 3 \<longrightarrow> req_memory_words req \<le> U32_MAX)"

lemma byte_inject: "a \<le> 255 \<Longrightarrow> b \<le> 255 \<Longrightarrow> (of_nat a :: u8) = of_nat b \<longleftrightarrow> a = b"
  by (auto dest: arg_cong[of _ _ unat])

interpretation code_requirement: delimited "\<lambda>req. ok_requirement req \<and> encodes_words v req" "requirement_bytes v" for v
  by unfold_locales (auto simp: requirement_bytes_def ok_requirement_def encodes_words_def peels byte_inject ir_versions
      simp del: le_bytes.simps split: if_splits intro!: TargetProfileRequirement.equality)

lemma header_peel:
  assumes "header_bytes v p @ r = header_bytes w q @ s" and "v \<le> U16_MAX" and "w \<le> U16_MAX"
    and "ok_program p" and "ok_program q"
    and "encodes_words v (rep_profile_requirement p)" and "encodes_words w (rep_profile_requirement q)"
  shows "v = w \<and> rep_profile_id p = rep_profile_id q \<and> rep_profile_fingerprint p = rep_profile_fingerprint q \<and>
    rep_profile_requirement p = rep_profile_requirement q \<and> r = s"
proof -
  have "le_bytes 2 v @ text_bytes (rep_profile_id p) @ text_bytes (rep_profile_fingerprint p) @
      requirement_bytes v (rep_profile_requirement p) @ r =
    le_bytes 2 w @ text_bytes (rep_profile_id q) @ text_bytes (rep_profile_fingerprint q) @
      requirement_bytes w (rep_profile_requirement q) @ s"
    using assms(1) by (simp add: header_bytes_def del: le_bytes.simps)
  then have "v = w \<and> text_bytes (rep_profile_id p) @ text_bytes (rep_profile_fingerprint p) @
      requirement_bytes v (rep_profile_requirement p) @ r =
      text_bytes (rep_profile_id q) @ text_bytes (rep_profile_fingerprint q) @
      requirement_bytes w (rep_profile_requirement q) @ s"
    using assms(2,3) code_u16.peel by blast
  then show ?thesis
    using assms(4-7) ok_programD(1-3)[OF assms(4)] ok_programD(1-3)[OF assms(5)]
    by (auto simp: code_text.peel code_requirement.peel)
qed

lemma run_peel:
  assumes "run_bytes p @ r = run_bytes q @ s" and "ok_program p" and "ok_program q"
  shows "rep_step_budget p = rep_step_budget q \<and> rep_outcome p = rep_outcome q \<and>
    rep_memory_live_ins p = rep_memory_live_ins q \<and> r = s"
  using assms(1) ok_programD(5-8)[OF assms(2)] ok_programD(5-8)[OF assms(3)]
  by (simp add: run_bytes_def peels code_outcome.peel code_live_ins.peel del: le_bytes.simps)

interpretation code_masked_effect: delimited "\<lambda>x. ok_effect (fst x)" masked_effect_bytes
  by unfold_locales (auto simp: masked_effect_bytes_def code_effect.peel mask_byte_inject prod_eq_iff)

interpretation code_masked_effects: delimited
    "\<lambda>xs. length xs \<le> U64_MAX \<and> (\<forall>x \<in> set xs. ok_effect (fst x))" "counted masked_effect_bytes"
  by (rule code_masked_effect.counted_delimited)

text \<open>A program of any schema, its canonical bytes, and the ranges of the Rust integer types.\<close>

datatype AnyEffectProgram =
    PlainProgram RegionEffectProgram
  | GeometryProgram ExecutionGeometryRegionEffectProgram
  | MaskedProgram RegisterMaskedRegionEffectProgram

fun any_canonical_bytes :: "AnyEffectProgram \<Rightarrow> IrEncodingError + u8 list" where
  "any_canonical_bytes (PlainProgram p) = canonical_bytes p"
| "any_canonical_bytes (GeometryProgram g) = geometry_canonical_bytes g"
| "any_canonical_bytes (MaskedProgram m) = masked_canonical_bytes m"

fun ok_any :: "AnyEffectProgram \<Rightarrow> bool" where
  "ok_any (PlainProgram p) \<longleftrightarrow> ok_program p"
| "ok_any (GeometryProgram g) \<longleftrightarrow> ok_program (gep_program g) \<and> rep_format_version (gep_program g) = 5 \<and>
    pegr_word_trits (gep_execution_geometry g) \<le> 255 \<and> pegr_memory_words (gep_execution_geometry g) \<le> U32_MAX"
| "ok_any (MaskedProgram m) \<longleftrightarrow> ok_program (mep_program m)"

text \<open>
  C34: the canonical bytes of an effect program fail for the declared reasons only. A plain program
  has them exactly when its version is 3 or 4 and a version 3 program's memory fits a \<open>u32\<close>; a
  geometry program always has them; a register-masked program has them exactly when its version is
  6 and it has one write mask per effect.
\<close>
theorem effect_encoding_fails_exactly:
  assumes "ok_any x"
  shows "case any_canonical_bytes x of
      Inl e \<Rightarrow> (case x of
          PlainProgram p \<Rightarrow>
            e = UnsupportedFormatVersion \<and> rep_format_version p \<notin> {3, 4} \<or>
            e = ProfileMemoryWordsOverflow \<and> rep_format_version p = 3 \<and>
              U32_MAX < req_memory_words (rep_profile_requirement p)
        | GeometryProgram g \<Rightarrow> False
        | MaskedProgram m \<Rightarrow>
            e = UnsupportedFormatVersion \<and> rep_format_version (mep_program m) \<noteq> 6 \<or>
            e = RegisterMaskCountMismatch \<and> rep_format_version (mep_program m) = 6 \<and>
              length (rep_effects (mep_program m)) \<noteq> length (mep_register_writes m))
    | Inr bytes \<Rightarrow> (case x of
          PlainProgram p \<Rightarrow> rep_format_version p \<in> {3, 4} \<and> encodes_words (rep_format_version p) (rep_profile_requirement p)
        | GeometryProgram g \<Rightarrow> True
        | MaskedProgram m \<Rightarrow> rep_format_version (mep_program m) = 6 \<and>
            length (rep_effects (mep_program m)) = length (mep_register_writes m))"
proof (cases x)
  case (PlainProgram p)
  then show ?thesis using assms by (auto simp: canonical_bytes_exact encodes_words_def)
next
  case (GeometryProgram g)
  then show ?thesis using assms by (simp add: geometry_canonical_bytes_exact)
next
  case (MaskedProgram m)
  then show ?thesis using assms by (auto simp: masked_canonical_bytes_exact)
qed


text \<open>What follows the header in each schema.\<close>

definition of_schema :: "AnyEffectProgram \<Rightarrow> u16 \<Rightarrow> RegionEffectProgram \<Rightarrow> u8 list \<Rightarrow> bool" where
  "of_schema x v p rest \<longleftrightarrow> (case x of
      PlainProgram p' \<Rightarrow> p = p' \<and> v = rep_format_version p \<and> v \<in> {3, 4} \<and>
        rest = run_bytes p @ counted effect_bytes (rep_effects p)
    | GeometryProgram g \<Rightarrow> p = gep_program g \<and> v = 5 \<and>
        rest = [of_nat (pegr_word_trits (gep_execution_geometry g))] @
          le_bytes 4 (pegr_memory_words (gep_execution_geometry g)) @ run_bytes p @
          counted effect_bytes (rep_effects p)
    | MaskedProgram m \<Rightarrow> p = mep_program m \<and> v = 6 \<and> rep_format_version p = 6 \<and>
        length (rep_effects p) = length (mep_register_writes m) \<and>
        rest = run_bytes p @ [mask_byte (mep_register_live_ins m)] @
          counted masked_effect_bytes (zip (rep_effects p) (mep_register_writes m)))"

lemma any_bytes_header:
  assumes "ok_any x" and "any_canonical_bytes x = Inr bytes"
  obtains v p rest where "bytes = header_bytes v p @ rest" "v \<le> U16_MAX" "ok_program p"
    "encodes_words v (rep_profile_requirement p)" "of_schema x v p rest"
proof (cases x)
  case (PlainProgram p)
  then show ?thesis
    using assms ok_programD(4)[of p]
    by (intro that[of "rep_format_version p" p "run_bytes p @ counted effect_bytes (rep_effects p)"])
      (auto simp: canonical_bytes_exact encodes_words_def of_schema_def split: if_splits)
next
  case (GeometryProgram g)
  then show ?thesis
    using assms by (intro that[of 5 "gep_program g"])
      (auto simp: geometry_canonical_bytes_exact encodes_words_def U16_MAX_def of_schema_def)
next
  case (MaskedProgram m)
  then show ?thesis
    using assms by (intro that[of 6 "mep_program m"])
      (auto simp: masked_canonical_bytes_exact encodes_words_def U16_MAX_def of_schema_def split: if_splits)
qed

definition same_header :: "RegionEffectProgram \<Rightarrow> RegionEffectProgram \<Rightarrow> bool" where
  "same_header p q \<longleftrightarrow> rep_profile_id p = rep_profile_id q \<and>
    rep_profile_fingerprint p = rep_profile_fingerprint q \<and>
    rep_profile_requirement p = rep_profile_requirement q \<and> rep_format_version p = rep_format_version q"

lemma program_eqI:
  fixes p q :: RegionEffectProgram
  assumes "same_header p q" and "rep_step_budget p = rep_step_budget q"
    and "rep_outcome p = rep_outcome q" and "rep_memory_live_ins p = rep_memory_live_ins q"
    and "rep_effects p = rep_effects q"
  shows "p = q"
  using assms by (auto simp: same_header_def intro!: RegionEffectProgram.equality)

lemma plain_rest_inject:
  assumes "run_bytes p @ counted effect_bytes (rep_effects p) @ r = run_bytes q @ counted effect_bytes (rep_effects q) @ s"
    and "ok_program p" and "ok_program q" and "same_header p q"
  shows "p = q \<and> r = s"
  using run_peel[OF assms(1-3)] assms(4) ok_programD(9,10)[OF assms(2)] ok_programD(9,10)[OF assms(3)]
    code_effects.delimits[of "rep_effects p" "rep_effects q" r s]
  by (auto intro!: program_eqI)

lemma plain_schema_inject:
  fixes g h :: RegionEffectProgram
  assumes "of_schema (PlainProgram g) v p rest" and "of_schema (PlainProgram h) w q rest'"
    and "ok_program p" and "ok_program q" and "rest @ r = rest' @ s" and "same_header p q"
  shows "g = h \<and> r = s"
proof -
  note plain = assms(1,2)[unfolded of_schema_def AnyEffectProgram.case]
  have "run_bytes p @ counted effect_bytes (rep_effects p) @ r = run_bytes q @ counted effect_bytes (rep_effects q) @ s"
    using assms(5) plain by simp
  then show ?thesis using plain_rest_inject[OF _ assms(3,4,6)] plain by blast
qed

lemma geometry_schema_inject:
  fixes g h :: ExecutionGeometryRegionEffectProgram
  assumes "of_schema (GeometryProgram g) 5 p rest" and "of_schema (GeometryProgram h) 5 q rest'"
    and "ok_any (GeometryProgram g)" and "ok_any (GeometryProgram h)"
    and "rest @ r = rest' @ s" and "same_header p q"
  shows "g = h \<and> r = s"
proof -
  note geo = assms(1,2)[unfolded of_schema_def AnyEffectProgram.case]
  note ranges = assms(3,4)[unfolded ok_any.simps]
  have heads: "pegr_word_trits (gep_execution_geometry g) = pegr_word_trits (gep_execution_geometry h)"
    "pegr_memory_words (gep_execution_geometry g) = pegr_memory_words (gep_execution_geometry h)"
    "run_bytes p @ counted effect_bytes (rep_effects p) @ r = run_bytes q @ counted effect_bytes (rep_effects q) @ s"
    using assms(5) geo ranges by (auto simp: byte_inject peels simp del: le_bytes.simps)
  from plain_rest_inject[OF heads(3) _ _ assms(6)] have "p = q \<and> r = s" using geo ranges by auto
  then show ?thesis
    using geo heads
    by (auto intro!: ExecutionGeometryRegionEffectProgram.equality ProfileExecutionGeometryRequirement.equality)
qed

lemma masked_schema_inject:
  fixes m n :: RegisterMaskedRegionEffectProgram
  assumes "of_schema (MaskedProgram m) 6 p rest" and "of_schema (MaskedProgram n) 6 q rest'"
    and "ok_any (MaskedProgram m)" and "ok_any (MaskedProgram n)"
    and "rest @ r = rest' @ s" and "same_header p q"
  shows "m = n \<and> r = s"
proof -
  note msk = assms(1,2)[unfolded of_schema_def AnyEffectProgram.case]
  have ok: "ok_program p" "ok_program q" using msk assms(3,4) by simp_all
  let ?zp = "zip (rep_effects p) (mep_register_writes m)" and ?zq = "zip (rep_effects q) (mep_register_writes n)"
  have "run_bytes p @ mask_byte (mep_register_live_ins m) # counted masked_effect_bytes ?zp @ r =
      run_bytes q @ mask_byte (mep_register_live_ins n) # counted masked_effect_bytes ?zq @ s"
    using assms(5) msk by simp
  from run_peel[OF this ok] have run: "rep_step_budget p = rep_step_budget q" "rep_outcome p = rep_outcome q"
    "rep_memory_live_ins p = rep_memory_live_ins q" "mep_register_live_ins m = mep_register_live_ins n"
    "counted masked_effect_bytes ?zp @ r = counted masked_effect_bytes ?zq @ s"
    by (simp_all add: mask_byte_inject)
  have "?zp = ?zq \<and> r = s"
    using ok_programD(9,10)[OF ok(1)] ok_programD(9,10)[OF ok(2)] msk
    by (intro code_masked_effects.delimits[OF _ _ run(5)]) (auto dest: set_zip_leftD)
  then have "rep_effects p = rep_effects q \<and> mep_register_writes m = mep_register_writes n \<and> r = s"
    using msk by (metis map_fst_zip map_snd_zip)
  then show ?thesis
    using msk run assms(6) by (auto intro!: RegisterMaskedRegionEffectProgram.equality program_eqI)
qed

text \<open>
  C6: the canonical bytes of the effect programs are prefix-free. Whatever their schemas, two
  programs within the ranges of their integer types whose encodings start two equal byte strings
  are the same program: no encoding is another's, and none is a proper prefix of another.
\<close>
theorem effect_encoding_is_prefix_free:
  assumes "any_canonical_bytes x = Inr bytes" and "any_canonical_bytes y = Inr others"
    and "ok_any x" and "ok_any y" and "bytes @ r = others @ s"
  shows "x = y \<and> r = s"
proof -
  obtain v p rest where p: "bytes = header_bytes v p @ rest" "v \<le> U16_MAX" "ok_program p"
    "encodes_words v (rep_profile_requirement p)" "of_schema x v p rest" by (rule any_bytes_header[OF assms(3,1)])
  obtain w q rest' where q: "others = header_bytes w q @ rest'" "w \<le> U16_MAX" "ok_program q"
    "encodes_words w (rep_profile_requirement q)" "of_schema y w q rest'" by (rule any_bytes_header[OF assms(4,2)])
  have same: "v = w" "rep_profile_id p = rep_profile_id q" "rep_profile_fingerprint p = rep_profile_fingerprint q"
    "rep_profile_requirement p = rep_profile_requirement q" "rest @ r = rest' @ s"
    using header_peel[of v p "rest @ r" w q "rest' @ s"] assms(5) p q by simp_all
  show ?thesis
  proof (cases x)
    case (PlainProgram p')
    then obtain q' where y: "y = PlainProgram q'" using p(5) q(5) same(1) by (cases y) (auto simp: of_schema_def)
    have "same_header p q"
      using PlainProgram y p(5) q(5) same(1-4) unfolding of_schema_def same_header_def by simp
    then show ?thesis
      using PlainProgram y plain_schema_inject[OF _ _ p(3) q(3) same(5)] p(5) q(5) by blast
  next
    case (GeometryProgram g)
    then obtain h where y: "y = GeometryProgram h" using p(5) q(5) same(1) by (cases y) (auto simp: of_schema_def)
    have "same_header p q" "v = 5" "w = 5"
      using GeometryProgram y p(5) q(5) same assms(3,4) by (auto simp: of_schema_def same_header_def)
    then show ?thesis
      using GeometryProgram y geometry_schema_inject[OF _ _ _ _ same(5)] p(5) q(5) assms(3,4) by blast
  next
    case (MaskedProgram m)
    then obtain n where y: "y = MaskedProgram n" using p(5) q(5) same(1) by (cases y) (auto simp: of_schema_def)
    have "same_header p q" "v = 6" "w = 6"
      using MaskedProgram y p(5) q(5) same by (auto simp: of_schema_def same_header_def)
    then show ?thesis
      using MaskedProgram y masked_schema_inject[OF _ _ _ _ same(5)] p(5) q(5) assms(3,4) by blast
  qed
qed


text \<open>Two encodings of the same step, one of each of two schemas, on the default machine record.\<close>

definition idle_observation :: ProfileMachineObservation where
  "idle_observation = \<lparr>pobs_input_consumed = 0, pobs_output_len = 0,
     pobs_registers = profile_registers_default, pobs_termination = None\<rparr>"

definition one_effect_program :: "u16 \<Rightarrow> RegionEffectProgram" where
  "one_effect_program v =
    \<lparr>rep_effects = [\<lparr>eff_after = idle_observation, eff_before = idle_observation, eff_input = None,
       eff_memory_delta = profile_memory_delta_default, eff_output = Some 33\<rparr>],
     rep_format_version = v, rep_memory_live_ins = [\<lparr>li_address = 0, li_value = 60\<rparr>],
     rep_outcome = BudgetExhausted 1, rep_profile_fingerprint = [], rep_profile_id = ''p'',
     rep_profile_requirement = \<lparr>req_features = [], req_memory_words = 59049, req_version = ''1998'',
       req_word_trits = 10\<rparr>, rep_step_budget = 1\<rparr>"

lemma one_effect_program_ok: "v \<le> U16_MAX \<Longrightarrow> ok_program (one_effect_program v)"
  by (simp add: ok_program_def one_effect_program_def ok_text_def ok_requirement_def ok_outcome_def ok_live_in_def
      ok_effect_def ok_observation_def ok_write_def idle_observation_def profile_registers_default_def
      profile_memory_delta_default_def U64_MAX_def U32_MAX_def)

theorem effect_encoding_fails_exactly_witness:
  "any_canonical_bytes (PlainProgram (one_effect_program 6)) = Inl UnsupportedFormatVersion"
proof -
  have "ok_any (PlainProgram (one_effect_program 6))" by (simp add: one_effect_program_ok U16_MAX_def)
  from effect_encoding_fails_exactly[OF this] show ?thesis
    by (auto simp: one_effect_program_def split: sum.splits)
qed

theorem effect_encoding_is_prefix_free_witness:
  "\<exists>bytes. any_canonical_bytes (PlainProgram (one_effect_program 3)) = Inr bytes \<and>
    (\<exists>others. any_canonical_bytes (PlainProgram (one_effect_program 4)) = Inr others \<and> others \<noteq> bytes)"
proof -
  let ?x = "PlainProgram (one_effect_program 3)" and ?y = "PlainProgram (one_effect_program 4)"
  have ok: "ok_any ?x" "ok_any ?y" by (simp_all add: one_effect_program_ok U16_MAX_def)
  obtain bytes others where enc: "any_canonical_bytes ?x = Inr bytes" "any_canonical_bytes ?y = Inr others"
    using canonical_bytes_exact[of "one_effect_program 3"] canonical_bytes_exact[of "one_effect_program 4"] ok
    by (auto simp: one_effect_program_def U32_MAX_def)
  have "?x \<noteq> ?y" by (simp add: one_effect_program_def)
  then show ?thesis
    using effect_encoding_is_prefix_free[OF enc ok, of "[]" "[]"] enc by auto
qed

end
