(* ===== verification/Batch.thy ===== *)
theory Batch
  imports Execution ProfileLoading ResidentWire
begin

text \<open>
  \<open>application/batch.rs\<close> and \<open>application/batch_backend.rs\<close>: batches of independent requests, run
  in order, across host workers, or through an optional backend that falls back to the machines of
  this development; with \<open>adapter-outbound/threading.rs\<close>, the scoped threads that implement the
  parallel port. A backend and a transport are functions from what they are offered to what they
  answer; a closure that panics is one that returns \<open>None\<close>.
\<close>

subsection \<open>Host workers\<close>

datatype ParallelExecutionError = PortWorkerPanicked usize | PortZeroWorkers

definition execute_chunk :: "'r list \<Rightarrow> ('r \<Rightarrow> 'o option) \<Rightarrow> 'o list option" where
  "execute_chunk chunk execute = those (map execute chunk)"

function owned_chunks :: "'r list \<Rightarrow> usize \<Rightarrow> 'r list list" where
  "owned_chunks remaining chunk_size =
    (let chunk = take chunk_size remaining
     in if chunk = [] then [] else chunk # owned_chunks (drop chunk_size remaining) chunk_size)"
  by pat_completeness auto
termination by (relation "measure (\<lambda>(remaining, _). length remaining)") auto

declare owned_chunks.simps [simp del]

fun join_workers_loop ::
  "(usize \<times> 'o list option) list \<Rightarrow> 'o list \<Rightarrow> usize option \<Rightarrow> 'o list \<times> usize option" where
  "join_workers_loop [] results failed_worker = (results, failed_worker)"
| "join_workers_loop ((worker, joined) # handles) results failed_worker =
    (case joined of
      Some chunk_results \<Rightarrow>
        join_workers_loop handles
          (if failed_worker = None then results @ chunk_results else results) failed_worker
    | None \<Rightarrow>
        join_workers_loop handles results
          (if failed_worker = None then Some worker else failed_worker))"

definition collect_joined_workers ::
  "(usize \<times> 'o list option) list \<Rightarrow> ParallelExecutionError + 'o list" where
  "collect_joined_workers handles =
    (let (results, failed_worker) = join_workers_loop handles [] None
     in case failed_worker of None \<Rightarrow> Inr results | Some worker \<Rightarrow> Inl (PortWorkerPanicked worker))"

definition scoped_execute ::
  "'r list \<Rightarrow> usize \<Rightarrow> ('r \<Rightarrow> 'o option) \<Rightarrow> ParallelExecutionError + 'o list" where
  "scoped_execute requests worker_count execute =
    (if worker_count = 0 then Inl PortZeroWorkers
     else if requests = [] then Inr []
     else
       let workers = min worker_count (length requests);
           chunk_size = (length requests + workers - 1) div workers;
           chunks = owned_chunks requests chunk_size
       in collect_joined_workers
            (map (\<lambda>(worker, chunk). (worker, execute_chunk chunk execute)) (enumerate 0 chunks)))"

type_synonym ('r, 'o) ParallelExecutionPort =
  "'r list \<Rightarrow> usize \<Rightarrow> ('r \<Rightarrow> 'o) \<Rightarrow> ParallelExecutionError + 'o list"

definition ScopedThreadParallelism :: "('r, 'o) ParallelExecutionPort" where
  "ScopedThreadParallelism requests worker_count execute =
    scoped_execute requests worker_count (\<lambda>request. Some (execute request))"

subsection \<open>Requests and results\<close>

datatype BatchSeed =
    BatchSeedMachine ExecutionMachine
  | BatchSeedSource "u8 list" ExecutionMode "u8 list"

datatype ProfileBatchSeed =
    ProfileBatchSeedMachine ProfileMachine
  | ProfileBatchSeedSource "u8 list" ProfileDescriptor "u8 list"

record BuiltRequest =
  br_machine :: ExecutionMachine
  br_step_budget :: usize

record BuiltProfileRequest =
  bpr_machine :: ProfileMachine
  bpr_step_budget :: usize

datatype BatchError = WorkerPanicked usize | ZeroWorkers

record BatchRequest =
  bq_seed :: BatchSeed
  bq_step_budget :: usize

record ProfileBatchRequest =
  pbq_seed :: ProfileBatchSeed
  pbq_step_budget :: usize

datatype BatchResult =
    BatchCompleted ExecutionMachine RunOutcome
  | BatchRejected ExecutionError "ExecutionMachine option"

datatype ProfileBatchResult =
    ProfileBatchCompleted ProfileMachine RunOutcome
  | ProfileBatchRejected ProfileMachineError "ProfileMachine option"

fun batch_error_from_parallel :: "ParallelExecutionError \<Rightarrow> BatchError" where
  "batch_error_from_parallel (PortWorkerPanicked worker) = WorkerPanicked worker"
| "batch_error_from_parallel PortZeroWorkers = ZeroWorkers"

definition batch_build :: "BatchRequest \<Rightarrow> ExecutionError + BuiltRequest" where
  "batch_build self =
    and_then (case bq_seed self of
        BatchSeedMachine machine \<Rightarrow> Inr machine
      | BatchSeedSource input mode source \<Rightarrow> execution_from_source source input mode) (\<lambda>machine.
      Inr \<lparr>br_machine = machine, br_step_budget = bq_step_budget self\<rparr>)"

definition batch_from_machine :: "ExecutionMachine \<Rightarrow> usize \<Rightarrow> BatchRequest" where
  "batch_from_machine machine step_budget =
    \<lparr>bq_seed = BatchSeedMachine machine, bq_step_budget = step_budget\<rparr>"

definition batch_from_source ::
  "u8 list \<Rightarrow> u8 list \<Rightarrow> ExecutionMode \<Rightarrow> usize \<Rightarrow> BatchRequest" where
  "batch_from_source source input mode step_budget =
    \<lparr>bq_seed = BatchSeedSource input mode source, bq_step_budget = step_budget\<rparr>"

definition batch_mode :: "BatchRequest \<Rightarrow> ExecutionMode" where
  "batch_mode self =
    (case bq_seed self of
      BatchSeedMachine machine \<Rightarrow> em_mode machine | BatchSeedSource _ mode _ \<Rightarrow> mode)"

fun batch_result_error :: "BatchResult \<Rightarrow> ExecutionError option" where
  "batch_result_error (BatchCompleted _ _) = None"
| "batch_result_error (BatchRejected e _) = Some e"

fun batch_result_machine :: "BatchResult \<Rightarrow> ExecutionMachine option" where
  "batch_result_machine (BatchCompleted machine _) = Some machine"
| "batch_result_machine (BatchRejected _ machine) = machine"

fun batch_result_outcome :: "BatchResult \<Rightarrow> RunOutcome option" where
  "batch_result_outcome (BatchCompleted _ outcome) = Some outcome"
| "batch_result_outcome (BatchRejected _ _) = None"

definition pbatch_build ::
  "(usize \<Rightarrow> bool) \<Rightarrow> ProfileBatchRequest \<Rightarrow> ProfileMachineError + BuiltProfileRequest" where
  "pbatch_build reserve self =
    and_then (case pbq_seed self of
        ProfileBatchSeedMachine machine \<Rightarrow> Inr machine
      | ProfileBatchSeedSource input profile source \<Rightarrow> pfrom_source reserve profile source input) (\<lambda>machine.
      Inr \<lparr>bpr_machine = machine, bpr_step_budget = pbq_step_budget self\<rparr>)"

definition pbatch_from_machine :: "ProfileMachine \<Rightarrow> usize \<Rightarrow> ProfileBatchRequest" where
  "pbatch_from_machine machine step_budget =
    \<lparr>pbq_seed = ProfileBatchSeedMachine machine, pbq_step_budget = step_budget\<rparr>"

definition pbatch_from_source ::
  "ProfileDescriptor \<Rightarrow> u8 list \<Rightarrow> u8 list \<Rightarrow> usize \<Rightarrow> ProfileBatchRequest" where
  "pbatch_from_source profile source input step_budget =
    \<lparr>pbq_seed = ProfileBatchSeedSource input profile source, pbq_step_budget = step_budget\<rparr>"

definition pbatch_profile :: "ProfileBatchRequest \<Rightarrow> ProfileDescriptor" where
  "pbatch_profile self =
    (case pbq_seed self of
      ProfileBatchSeedMachine machine \<Rightarrow> pm_profile machine
    | ProfileBatchSeedSource _ profile _ \<Rightarrow> profile)"

fun pbatch_result_error :: "ProfileBatchResult \<Rightarrow> ProfileMachineError option" where
  "pbatch_result_error (ProfileBatchCompleted _ _) = None"
| "pbatch_result_error (ProfileBatchRejected e _) = Some e"

fun pbatch_result_into_machine :: "ProfileBatchResult \<Rightarrow> ProfileMachineError + ProfileMachine" where
  "pbatch_result_into_machine (ProfileBatchCompleted machine _) = Inr machine"
| "pbatch_result_into_machine (ProfileBatchRejected e _) = Inl e"

fun pbatch_result_machine :: "ProfileBatchResult \<Rightarrow> ProfileMachine option" where
  "pbatch_result_machine (ProfileBatchCompleted machine _) = Some machine"
| "pbatch_result_machine (ProfileBatchRejected _ machine) = machine"

fun pbatch_result_outcome :: "ProfileBatchResult \<Rightarrow> RunOutcome option" where
  "pbatch_result_outcome (ProfileBatchCompleted _ outcome) = Some outcome"
| "pbatch_result_outcome (ProfileBatchRejected _ _) = None"

subsection \<open>Batches\<close>

definition execute_built :: "BuiltRequest \<Rightarrow> BatchResult" where
  "execute_built request =
    (case execution_run (br_step_budget request) (br_machine request) of
      (Inr outcome, machine) \<Rightarrow> BatchCompleted machine outcome
    | (Inl e, machine) \<Rightarrow> BatchRejected e (Some machine))"

definition execute_one :: "BatchRequest \<Rightarrow> BatchResult" where
  "execute_one request =
    (case batch_build request of Inr built \<Rightarrow> execute_built built | Inl e \<Rightarrow> BatchRejected e None)"

definition execute_batch :: "BatchRequest list \<Rightarrow> BatchResult list" where
  "execute_batch requests = map execute_one requests"

definition execute_batch_parallel_with ::
  "(BatchRequest, BatchResult) ParallelExecutionPort \<Rightarrow> BatchRequest list \<Rightarrow> usize \<Rightarrow>
    BatchError + BatchResult list" where
  "execute_batch_parallel_with port requests worker_count =
    map_err batch_error_from_parallel (port requests worker_count execute_one)"

definition execute_profile_built :: "BuiltProfileRequest \<Rightarrow> ProfileBatchResult" where
  "execute_profile_built request =
    (case prun (bpr_step_budget request) (bpr_machine request) of
      (Inr outcome, machine) \<Rightarrow> ProfileBatchCompleted machine outcome
    | (Inl e, machine) \<Rightarrow> ProfileBatchRejected e (Some machine))"

definition execute_profile_one ::
  "(usize \<Rightarrow> bool) \<Rightarrow> ProfileBatchRequest \<Rightarrow> ProfileBatchResult" where
  "execute_profile_one reserve request =
    (case pbatch_build reserve request of
      Inr built \<Rightarrow> execute_profile_built built | Inl e \<Rightarrow> ProfileBatchRejected e None)"

definition execute_profile_batch ::
  "(usize \<Rightarrow> bool) \<Rightarrow> ProfileBatchRequest list \<Rightarrow> ProfileBatchResult list" where
  "execute_profile_batch reserve requests = map (execute_profile_one reserve) requests"

definition execute_profile_batch_parallel_with ::
  "(ProfileBatchRequest, ProfileBatchResult) ParallelExecutionPort \<Rightarrow> (usize \<Rightarrow> bool) \<Rightarrow>
    ProfileBatchRequest list \<Rightarrow> usize \<Rightarrow> BatchError + ProfileBatchResult list" where
  "execute_profile_batch_parallel_with port reserve requests worker_count =
    map_err batch_error_from_parallel (port requests worker_count (execute_profile_one reserve))"

subsection \<open>Host workers keep the input order\<close>

text \<open>
  What a client of the parallel port relies on: no worker is an error, and any number of workers
  returns what running the items one after the other returns.
\<close>

locale parallel_port =
  fixes execute_port :: "('r, 'o) ParallelExecutionPort"
  assumes no_workers: "execute_port requests 0 f = Inl PortZeroWorkers"
    and in_order: "0 < n \<Longrightarrow> execute_port requests n f = Inr (map f requests)"
begin

lemma runs_as_map: "map_err batch_error_from_parallel (execute_port requests n f) =
    (if n = 0 then Inl ZeroWorkers else Inr (map f requests))"
  using no_workers in_order by simp

end

lemma owned_chunks_concat: "0 < k \<Longrightarrow> concat (owned_chunks xs k) = xs"
proof (induction xs k rule: owned_chunks.induct)
  case (1 xs k)
  then show ?case
    by (subst owned_chunks.simps) (auto simp: Let_def)
qed

lemma owned_chunks_sizes:
  "0 < k \<Longrightarrow> \<forall>c \<in> set (owned_chunks xs k). 0 < length c \<and> length c \<le> k"
proof (induction xs k rule: owned_chunks.induct)
  case (1 xs k)
  then show ?case by (subst owned_chunks.simps) (auto simp: Let_def)
qed

lemma those_append: "those (xs @ ys) =
    (case those xs of None \<Rightarrow> None | Some as \<Rightarrow> map_option (\<lambda>bs. as @ bs) (those ys))"
proof (induction xs)
  case Nil
  then show ?case by (cases "those ys") simp_all
next
  case (Cons x xs)
  then show ?case by (cases "those ys") (auto split: option.splits)
qed

lemma those_Some: "those (map (\<lambda>x. Some (f x)) xs) = Some (map f xs)"
  by (induction xs) auto

text \<open>The workers joined in spawn order: the first failure wins, otherwise the chunks in order.\<close>

lemma join_failed: "snd (join_workers_loop handles results (Some w)) = Some w"
  by (induction handles arbitrary: results) (auto split: option.splits)

lemma those_concat: "those (map f (concat chunks)) = None \<longleftrightarrow> (\<exists>c \<in> set chunks. those (map f c) = None)"
  by (induction chunks) (auto simp: those_append split: option.splits)

lemma join_workers_all:
  "\<forall>c \<in> set chunks. those (map f c) \<noteq> None \<Longrightarrow>
    join_workers_loop (map (\<lambda>(worker, chunk). (worker, execute_chunk chunk f)) (enumerate i chunks)) results None =
      (results @ the (those (map f (concat chunks))), None)"
proof (induction chunks arbitrary: i results)
  case (Cons c chunks)
  moreover have "those (map f (concat chunks)) \<noteq> None" using Cons.prems those_concat[of f chunks] by auto
  ultimately show ?case by (auto simp: execute_chunk_def those_append)
qed simp

lemma join_workers_panic:
  "\<exists>c \<in> set chunks. those (map f c) = None \<Longrightarrow>
    snd (join_workers_loop (map (\<lambda>(worker, chunk). (worker, execute_chunk chunk f)) (enumerate i chunks)) results None) =
      Some (i + length (takeWhile (\<lambda>c. those (map f c) \<noteq> None) chunks))"
proof (induction chunks arbitrary: i results)
  case (Cons c chunks)
  show ?case
  proof (cases "those (map f c)")
    case None
    then show ?thesis by (simp add: execute_chunk_def join_failed)
  next
    case (Some os)
    then show ?thesis using Cons by (simp add: execute_chunk_def)
  qed
qed simp

definition worker_chunks :: "'r list \<Rightarrow> usize \<Rightarrow> 'r list list" where
  "worker_chunks requests workers =
    (let n = min workers (length requests) in owned_chunks requests ((length requests + n - 1) div n))"

lemma worker_chunks:
  assumes "0 < workers" and "requests \<noteq> []"
  shows "concat (worker_chunks requests workers) = requests"
    "scoped_execute requests workers f = collect_joined_workers
      (map (\<lambda>(worker, chunk). (worker, execute_chunk chunk f)) (enumerate 0 (worker_chunks requests workers)))"
proof -
  define n where "n = min workers (length requests)"
  have "0 < n" "n \<le> length requests" using assms by (auto simp: n_def)
  then have "0 < (length requests + n - 1) div n" by (auto simp: div_greater_zero_iff)
  then show "concat (worker_chunks requests workers) = requests"
    by (simp only: worker_chunks_def Let_def n_def[symmetric] owned_chunks_concat)
  show "scoped_execute requests workers f = collect_joined_workers
      (map (\<lambda>(worker, chunk). (worker, execute_chunk chunk f)) (enumerate 0 (worker_chunks requests workers)))"
    using assms by (simp only: scoped_execute_def worker_chunks_def Let_def if_False simp_thms) simp
qed

lemma scoped_all: "0 < workers \<Longrightarrow> those (map f requests) = Some results \<Longrightarrow>
    scoped_execute requests workers f = Inr results"
proof (cases "requests = []")
  case False
  assume *: "0 < workers" "those (map f requests) = Some results"
  note chunks = worker_chunks(1)[OF *(1) False] worker_chunks(2)[OF *(1) False, of f]
  have "\<forall>c \<in> set (worker_chunks requests workers). those (map f c) \<noteq> None"
    using those_concat[of f "worker_chunks requests workers"] chunks(1) *(2) by auto
  from join_workers_all[OF this, of 0 "[]"] show ?thesis
    using *(2) chunks by (simp add: collect_joined_workers_def)
qed (simp add: scoped_execute_def)

text \<open>
  C27: scoped threads are unobservable. Whatever the number of workers, each item is executed as it
  would be alone and the results come back in input order; without workers the call fails, and when
  items panic it reports the first worker, in spawn order, whose chunk holds one of them.
\<close>
theorem scoped_threads_keep_order:
  "scoped_execute requests workers f =
    (if workers = 0 then Inl PortZeroWorkers
     else case those (map f requests) of
       Some results \<Rightarrow> Inr results
     | None \<Rightarrow> Inl (PortWorkerPanicked
         (length (takeWhile (\<lambda>chunk. those (map f chunk) \<noteq> None) (worker_chunks requests workers)))))"
proof (cases "those (map f requests)")
  case None
  then have some: "requests \<noteq> []" by auto
  show ?thesis
  proof (cases "0 < workers")
    case True
    note chunks = worker_chunks(1)[OF True some] worker_chunks(2)[OF True some, of f]
    have "\<exists>c \<in> set (worker_chunks requests workers). those (map f c) = None"
      using those_concat[of f "worker_chunks requests workers"] chunks(1) None by simp
    from join_workers_panic[OF this, of 0 "[]"] show ?thesis
      using True None chunks(2) by (auto simp: collect_joined_workers_def split: prod.splits)
  qed (simp add: scoped_execute_def)
next
  case (Some results)
  then show ?thesis using scoped_all[of workers f requests results] by (auto simp: scoped_execute_def)
qed

interpretation scoped: parallel_port ScopedThreadParallelism
proof
  show "ScopedThreadParallelism requests 0 f = Inl PortZeroWorkers" for requests :: "'c list" and f :: "'c \<Rightarrow> 'd"
    by (simp add: ScopedThreadParallelism_def scoped_execute_def)
  show "0 < n \<Longrightarrow> ScopedThreadParallelism requests n f = Inr (map f requests)"
    for n and requests :: "'c list" and f :: "'c \<Rightarrow> 'd"
    by (simp add: ScopedThreadParallelism_def scoped_all those_Some)
qed

text \<open>
  A parallel batch is the sequential batch. Over the scoped threads, for classic and for profile
  requests, any positive number of workers returns what the sequential call returns, each request's
  success or rejection in its place; zero workers is the only failure.
\<close>
lemma parallel_batch_is_sequential:
  "execute_batch_parallel_with ScopedThreadParallelism requests workers =
      (if workers = 0 then Inl ZeroWorkers else Inr (execute_batch requests)) \<and>
    execute_profile_batch_parallel_with ScopedThreadParallelism reserve others workers =
      (if workers = 0 then Inl ZeroWorkers else Inr (execute_profile_batch reserve others))"
  by (simp add: execute_batch_parallel_with_def execute_profile_batch_parallel_with_def scoped.runs_as_map
      execute_batch_def execute_profile_batch_def)

end
