(* ===== verification/BatchBackend.thy ===== *)
theory BatchBackend
  imports Batch
begin

text \<open>
  \<open>application/batch_backend.rs\<close>: batches offered to an optional backend. The backend answers with
  checkpoints; whatever it leaves out, or answers inconsistently, runs on the machines of this
  development. \<open>port-outbound/profile_resident.rs\<close> is the transport under the profile backend.
\<close>

definition RESIDENT_ERROR_NONE :: u32 where "RESIDENT_ERROR_NONE = 0"
definition RESIDENT_RUN_BUDGET_EXHAUSTED :: u32 where "RESIDENT_RUN_BUDGET_EXHAUSTED = 0"
definition RESIDENT_RUN_ERROR :: u32 where "RESIDENT_RUN_ERROR = 2"
definition RESIDENT_RUN_TERMINATED :: u32 where "RESIDENT_RUN_TERMINATED = 1"

lemmas resident_codes = RESIDENT_ERROR_NONE_def RESIDENT_RUN_BUDGET_EXHAUSTED_def RESIDENT_RUN_ERROR_def
  RESIDENT_RUN_TERMINATED_def

datatype BatchExecutionOrigin = Backend | SafeRustAdmissionRejection | SafeRustFallback

record BatchExecutionReport =
  ber_origins :: "BatchExecutionOrigin list"

definition origin_count :: "BatchExecutionOrigin \<Rightarrow> BatchExecutionReport \<Rightarrow> usize" where
  "origin_count origin self = length (filter (\<lambda>o'. o' = origin) (ber_origins self))"

definition admission_rejection_count :: "BatchExecutionReport \<Rightarrow> usize" where
  "admission_rejection_count self = origin_count SafeRustAdmissionRejection self"

definition backend_count :: "BatchExecutionReport \<Rightarrow> usize" where
  "backend_count self = origin_count Backend self"

definition fallback_count :: "BatchExecutionReport \<Rightarrow> usize" where
  "fallback_count self = origin_count SafeRustFallback self"

record BatchBackendRequest =
  bbr_machine :: ExecutionMachine
  bbr_step_budget :: usize

record BatchBackendCompletion =
  bbc_outcome :: RunOutcome
  bbc_state :: MachineState

record ProfileBatchBackendRequest =
  pbbr_machine :: ProfileMachine
  pbbr_step_budget :: usize

record ProfileBatchBackendCompletion =
  pbbc_outcome :: RunOutcome
  pbbc_state :: ProfileMachineState

type_synonym BatchExecutionBackend =
  "BatchBackendRequest list \<Rightarrow> BatchBackendCompletion option list option"

type_synonym ProfileBatchExecutionBackend =
  "ProfileBatchBackendRequest list \<Rightarrow> ProfileBatchBackendCompletion option list option"

type_synonym ProfileResidentTransport =
  "ProfileResidentWireRequest list \<Rightarrow> ProfileResidentWireResult option list option"

definition resident_wire_request :: "ProfileBatchBackendRequest \<Rightarrow> ProfileResidentWireRequest" where
  "resident_wire_request self =
    (let machine = pbbr_machine self;
         registers = pm_registers machine;
         geometry = pm_geometry machine
     in \<lparr>prwq_accumulator = preg_accumulator registers,
         prwq_code_pointer = preg_code_pointer registers,
         prwq_data_pointer = preg_data_pointer registers,
         prwq_geometry =
           \<lparr>prwg_eof_word = geo_eof_word geometry,
            prwg_input_instruction = pd_input_instruction (pm_profile machine),
            prwg_memory_words = geo_memory_words geometry,
            prwg_output_instruction = pd_output_instruction (pm_profile machine),
            prwg_word_modulus = geo_word_modulus geometry,
            prwg_word_trits = of_nat (geo_word_trits geometry)\<rparr>,
         prwq_input = pm_input machine,
         prwq_input_consumed = pm_input_cursor machine,
         prwq_memory = pm_memory machine,
         prwq_output = pm_output machine,
         prwq_step_budget = pbbr_step_budget self,
         prwq_termination = (case pm_termination machine of
             None \<Rightarrow> WireNone
           | Some HaltInstruction \<Rightarrow> WireHaltInstruction
           | Some NonGraphicalCell \<Rightarrow> WireNonGraphicalCell)\<rparr>)"

definition profile_backend_completion_from_resident_wire ::
  "ProfileBatchBackendRequest \<Rightarrow> ProfileResidentWireResult \<Rightarrow> ProfileBatchBackendCompletion option" where
  "profile_backend_completion_from_resident_wire request result =
    (if prwr_status result = RESIDENT_RUN_ERROR \<or> prwr_error result \<noteq> RESIDENT_ERROR_NONE then None
     else
    Option.bind (if prwr_termination result = 0 then Some None
       else if prwr_termination result = 1 then Some (Some HaltInstruction)
       else if prwr_termination result = 2 then Some (Some NonGraphicalCell)
       else None) (\<lambda>term_reason.
    Option.bind (if prwr_steps result \<le> USIZE_MAX then Some (prwr_steps result) else None) (\<lambda>steps.
    Option.bind (if prwr_status result = RESIDENT_RUN_BUDGET_EXHAUSTED \<and> term_reason = None
         then Some (BudgetExhausted steps)
       else if prwr_status result = RESIDENT_RUN_TERMINATED
         then map_option (\<lambda>reason. RunTerminated reason steps) term_reason
       else None) (\<lambda>outcome.
    Option.bind (if prwr_input_consumed result \<le> USIZE_MAX then Some (prwr_input_consumed result) else None) (\<lambda>consumed.
    case profile_io_state_new (pm_input (pbbr_machine request)) consumed (prwr_output result) term_reason of
      Inl _ \<Rightarrow> None
    | Inr io \<Rightarrow>
    (case profile_state_new_with_geometry (pm_geometry (pbbr_machine request)) (prwr_memory result)
        \<lparr>preg_accumulator = prwr_accumulator result, preg_code_pointer = prwr_code_pointer result,
         preg_data_pointer = prwr_data_pointer result\<rparr> io of
      Inl _ \<Rightarrow> None
    | Inr state \<Rightarrow> Some \<lparr>pbbc_outcome = outcome, pbbc_state = state\<rparr>))))))"

definition resident_backend_execute :: "ProfileResidentTransport \<Rightarrow> ProfileBatchExecutionBackend" where
  "resident_backend_execute transport requests =
    (let wire_requests = map resident_wire_request requests
     in Option.bind (transport wire_requests) (\<lambda>results.
          if length results \<noteq> length requests then None
          else Some (map (\<lambda>(request, result).
              Option.bind result (profile_backend_completion_from_resident_wire request))
            (zip requests results))))"

datatype ClassicSlot = Prepared BuiltRequest | Rejected BatchResult
datatype ProfileSlot = ProfilePrepared BuiltProfileRequest | ProfileRejected ProfileBatchResult

definition prepare_classic :: "BatchRequest list \<Rightarrow> ClassicSlot list" where
  "prepare_classic requests =
    map (\<lambda>request. case batch_build request of
      Inr built \<Rightarrow> Prepared built | Inl e \<Rightarrow> Rejected (BatchRejected e None)) requests"

definition classic_views :: "ClassicSlot list \<Rightarrow> BatchBackendRequest list" where
  "classic_views slots =
    List.map_filter (\<lambda>slot. case slot of
      Prepared request \<Rightarrow>
        Some \<lparr>bbr_machine = br_machine request, bbr_step_budget = br_step_budget request\<rparr>
    | Rejected _ \<Rightarrow> None) slots"

definition valid_classic_attempts ::
  "BatchBackendCompletion option list option \<Rightarrow> usize \<Rightarrow> BatchBackendCompletion option list option" where
  "valid_classic_attempts attempts expected =
    option_filter (\<lambda>items. length items = expected) attempts"

definition outcome_matches_state :: "RunOutcome \<Rightarrow> Termination option \<Rightarrow> usize \<Rightarrow> bool" where
  "outcome_matches_state outcome term_reason step_budget =
    (case outcome of
      BudgetExhausted steps \<Rightarrow> steps = step_budget \<and> term_reason = None
    | RunTerminated reason steps \<Rightarrow> steps \<le> step_budget \<and> term_reason = Some reason)"

definition accept_classic ::
  "BuiltRequest \<Rightarrow> BatchBackendCompletion option \<Rightarrow> BatchResult \<times> BatchExecutionOrigin" where
  "accept_classic request maybe_completion =
    (case maybe_completion of
      None \<Rightarrow> (execute_built request, SafeRustFallback)
    | Some completion \<Rightarrow>
        if \<not> outcome_matches_state (bbc_outcome completion) (io_termination (st_io (bbc_state completion)))
          (br_step_budget request)
        then (execute_built request, SafeRustFallback)
        else
          let mode = em_mode (br_machine request);
              profile = em_profile (br_machine request)
          in case execution_from_snapshot (bbc_state completion) mode profile of
               Inl _ \<Rightarrow> (execute_built request, SafeRustFallback)
             | Inr machine \<Rightarrow> (BatchCompleted machine (bbc_outcome completion), Backend))"

fun collect_classic_loop ::
  "ClassicSlot list \<Rightarrow> BatchBackendCompletion option list \<Rightarrow> BatchResult list \<Rightarrow>
    BatchExecutionOrigin list \<Rightarrow> BatchResult list \<times> BatchExecutionOrigin list" where
  "collect_classic_loop [] attempts results origins = (results, origins)"
| "collect_classic_loop (Rejected result # slots) attempts results origins =
    collect_classic_loop slots attempts (results @ [result]) (origins @ [SafeRustAdmissionRejection])"
| "collect_classic_loop (Prepared request # slots) attempts results origins =
    (let completion = (case attempts of [] \<Rightarrow> None | attempt # _ \<Rightarrow> attempt);
         (result, origin) = accept_classic request completion
     in collect_classic_loop slots (tl attempts) (results @ [result]) (origins @ [origin]))"

definition collect_classic ::
  "ClassicSlot list \<Rightarrow> BatchBackendCompletion option list option \<Rightarrow>
    BatchResult list \<times> BatchExecutionReport" where
  "collect_classic slots attempts =
    (let (results, origins) = collect_classic_loop slots (case attempts of None \<Rightarrow> [] | Some items \<Rightarrow> items) [] []
     in (results, \<lparr>ber_origins = origins\<rparr>))"

definition execute_batch_with_backend_report ::
  "BatchRequest list \<Rightarrow> BatchExecutionBackend \<Rightarrow> BatchResult list \<times> BatchExecutionReport" where
  "execute_batch_with_backend_report requests backend =
    (let slots = prepare_classic requests;
         views = classic_views slots;
         attempts = (if views = [] then None else valid_classic_attempts (backend views) (length views))
     in collect_classic slots attempts)"

definition execute_batch_with_backend ::
  "BatchRequest list \<Rightarrow> BatchExecutionBackend \<Rightarrow> BatchResult list" where
  "execute_batch_with_backend requests backend = fst (execute_batch_with_backend_report requests backend)"

definition prepare_profile :: "(usize \<Rightarrow> bool) \<Rightarrow> ProfileBatchRequest list \<Rightarrow> ProfileSlot list" where
  "prepare_profile reserve requests =
    map (\<lambda>request. case pbatch_build reserve request of
      Inr built \<Rightarrow> ProfilePrepared built
    | Inl e \<Rightarrow> ProfileRejected (ProfileBatchRejected e None)) requests"

definition profile_views :: "ProfileSlot list \<Rightarrow> ProfileBatchBackendRequest list" where
  "profile_views slots =
    List.map_filter (\<lambda>slot. case slot of
      ProfilePrepared request \<Rightarrow>
        Some \<lparr>pbbr_machine = bpr_machine request, pbbr_step_budget = bpr_step_budget request\<rparr>
    | ProfileRejected _ \<Rightarrow> None) slots"

definition valid_profile_attempts ::
  "ProfileBatchBackendCompletion option list option \<Rightarrow> usize \<Rightarrow>
    ProfileBatchBackendCompletion option list option" where
  "valid_profile_attempts attempts expected =
    option_filter (\<lambda>items. length items = expected) attempts"

definition accept_profile ::
  "BuiltProfileRequest \<Rightarrow> ProfileBatchBackendCompletion option \<Rightarrow>
    ProfileBatchResult \<times> BatchExecutionOrigin" where
  "accept_profile request maybe_completion =
    (case maybe_completion of
      None \<Rightarrow> (execute_profile_built request, SafeRustFallback)
    | Some completion \<Rightarrow>
        if pst_profile (pbbc_state completion) \<noteq> pm_profile (bpr_machine request) \<or>
          pst_geometry (pbbc_state completion) \<noteq> pm_geometry (bpr_machine request) \<or>
          \<not> outcome_matches_state (pbbc_outcome completion) (pio_termination (pst_io (pbbc_state completion)))
            (bpr_step_budget request)
        then (execute_profile_built request, SafeRustFallback)
        else (ProfileBatchCompleted (pfrom_snapshot (pbbc_state completion)) (pbbc_outcome completion), Backend))"

fun collect_profile_loop ::
  "ProfileSlot list \<Rightarrow> ProfileBatchBackendCompletion option list \<Rightarrow> ProfileBatchResult list \<Rightarrow>
    BatchExecutionOrigin list \<Rightarrow> ProfileBatchResult list \<times> BatchExecutionOrigin list" where
  "collect_profile_loop [] attempts results origins = (results, origins)"
| "collect_profile_loop (ProfileRejected result # slots) attempts results origins =
    collect_profile_loop slots attempts (results @ [result]) (origins @ [SafeRustAdmissionRejection])"
| "collect_profile_loop (ProfilePrepared request # slots) attempts results origins =
    (let completion = (case attempts of [] \<Rightarrow> None | attempt # _ \<Rightarrow> attempt);
         (result, origin) = accept_profile request completion
     in collect_profile_loop slots (tl attempts) (results @ [result]) (origins @ [origin]))"

definition collect_profile ::
  "ProfileSlot list \<Rightarrow> ProfileBatchBackendCompletion option list option \<Rightarrow>
    ProfileBatchResult list \<times> BatchExecutionReport" where
  "collect_profile slots attempts =
    (let (results, origins) = collect_profile_loop slots (case attempts of None \<Rightarrow> [] | Some items \<Rightarrow> items) [] []
     in (results, \<lparr>ber_origins = origins\<rparr>))"

definition execute_profile_batch_with_backend_report ::
  "(usize \<Rightarrow> bool) \<Rightarrow> ProfileBatchRequest list \<Rightarrow> ProfileBatchExecutionBackend \<Rightarrow>
    ProfileBatchResult list \<times> BatchExecutionReport" where
  "execute_profile_batch_with_backend_report reserve requests backend =
    (let slots = prepare_profile reserve requests;
         views = profile_views slots;
         attempts = (if views = [] then None else valid_profile_attempts (backend views) (length views))
     in collect_profile slots attempts)"

definition execute_profile_batch_with_backend ::
  "(usize \<Rightarrow> bool) \<Rightarrow> ProfileBatchRequest list \<Rightarrow> ProfileBatchExecutionBackend \<Rightarrow> ProfileBatchResult list" where
  "execute_profile_batch_with_backend reserve requests backend =
    fst (execute_profile_batch_with_backend_report reserve requests backend)"

subsection \<open>Routing a batch\<close>

text \<open>
  Both kinds of batch settle their slots alike: a rejected slot keeps its result, a prepared one
  consumes the next attempt. \<open>settle\<close> is that loop over a sum; the locale holds what an acceptance
  has to promise, that a request without an attempt runs here.
\<close>

fun settle ::
  "('b \<Rightarrow> 'c option \<Rightarrow> 'r \<times> BatchExecutionOrigin) \<Rightarrow> ('r + 'b) list \<Rightarrow> 'c option list \<Rightarrow>
    ('r \<times> BatchExecutionOrigin) list" where
  "settle accept [] attempts = []"
| "settle accept (Inl r # slots) attempts = (r, SafeRustAdmissionRejection) # settle accept slots attempts"
| "settle accept (Inr b # slots) attempts =
    accept b (case attempts of [] \<Rightarrow> None | attempt # _ \<Rightarrow> attempt) # settle accept slots (tl attempts)"

definition prepared :: "('r + 'b) list \<Rightarrow> 'b list" where
  "prepared slots = List.map_filter (case_sum (\<lambda>_. None) Some) slots"

lemma prepared_simps [simp]:
  "prepared [] = []" "prepared (Inl r # slots) = prepared slots" "prepared (Inr b # slots) = b # prepared slots"
  by (simp_all add: prepared_def)

locale routed_batch =
  fixes run :: "'b \<Rightarrow> 'r" and accept :: "'b \<Rightarrow> 'c option \<Rightarrow> 'r \<times> BatchExecutionOrigin"
  assumes defers: "accept b None = (run b, SafeRustFallback)"
    and falls_back: "snd (accept b a) \<noteq> Backend \<Longrightarrow> accept b a = (run b, SafeRustFallback)"
begin

lemma settle_contained:
  "list_all2 (\<lambda>slot e. case slot of Inl r \<Rightarrow> e = (r, SafeRustAdmissionRejection)
      | Inr b \<Rightarrow> e = (run b, SafeRustFallback) \<or> (\<exists>a. e = accept b a \<and> snd e = Backend)) slots
    (settle accept slots attempts)"
proof (induction slots arbitrary: attempts)
  case (Cons slot slots)
  then show ?case using falls_back by (cases slot) auto
qed simp

lemma settle_sound:
  "attempts = [] \<or> list_all2 (\<lambda>b a. fst (accept b a) = run b) (prepared slots) attempts \<Longrightarrow>
    map fst (settle accept slots attempts) = map (case_sum id run) slots"
proof (induction slots arbitrary: attempts)
  case (Cons slot slots)
  show ?case
  proof (cases slot)
    case (Inr b)
    show ?thesis
    proof (cases attempts)
      case Nil
      then show ?thesis using Inr Cons.IH[of "[]"] by (simp add: defers)
    next
      case (Cons a as)
      then show ?thesis using Inr Cons.IH[of as] Cons.prems by (auto simp: list_all2_Cons2)
    qed
  qed (use Cons in auto)
qed simp

end

text \<open>The two instances.\<close>

fun classic_slot :: "ClassicSlot \<Rightarrow> BatchResult + BuiltRequest" where
  "classic_slot (Prepared b) = Inr b"
| "classic_slot (Rejected r) = Inl r"

fun profile_slot :: "ProfileSlot \<Rightarrow> ProfileBatchResult + BuiltProfileRequest" where
  "profile_slot (ProfilePrepared b) = Inr b"
| "profile_slot (ProfileRejected r) = Inl r"

interpretation classic_route: routed_batch execute_built accept_classic
  by unfold_locales (auto simp: accept_classic_def Let_def split: option.splits sum.splits if_splits)

interpretation profile_route: routed_batch execute_profile_built accept_profile
  by unfold_locales (auto simp: accept_profile_def split: option.splits if_splits)

lemma collect_classic_settles:
  "collect_classic_loop slots attempts results origins =
    (results @ map fst (settle accept_classic (map classic_slot slots) attempts),
     origins @ map snd (settle accept_classic (map classic_slot slots) attempts))"
  by (induction slots attempts results origins rule: collect_classic_loop.induct) (simp_all add: Let_def split: prod.split)

lemma collect_profile_settles:
  "collect_profile_loop slots attempts results origins =
    (results @ map fst (settle accept_profile (map profile_slot slots) attempts),
     origins @ map snd (settle accept_profile (map profile_slot slots) attempts))"
  by (induction slots attempts results origins rule: collect_profile_loop.induct) (simp_all add: Let_def split: prod.split)

definition classic_view :: "BuiltRequest \<Rightarrow> BatchBackendRequest" where
  "classic_view b = \<lparr>bbr_machine = br_machine b, bbr_step_budget = br_step_budget b\<rparr>"

definition profile_view :: "BuiltProfileRequest \<Rightarrow> ProfileBatchBackendRequest" where
  "profile_view b = \<lparr>pbbr_machine = bpr_machine b, pbbr_step_budget = bpr_step_budget b\<rparr>"

lemma classic_views_prepared: "classic_views slots = map classic_view (prepared (map classic_slot slots))"
proof (induction slots)
  case (Cons slot slots)
  then show ?case by (cases slot) (simp_all add: classic_views_def classic_view_def)
qed (simp add: classic_views_def)

lemma profile_views_prepared: "profile_views slots = map profile_view (prepared (map profile_slot slots))"
proof (induction slots)
  case (Cons slot slots)
  then show ?case by (cases slot) (simp_all add: profile_views_def profile_view_def)
qed (simp add: profile_views_def)

lemma slots_sequential:
  "map (case_sum id execute_built) (map classic_slot (prepare_classic requests)) = execute_batch requests"
  "map (case_sum id execute_profile_built) (map profile_slot (prepare_profile reserve others)) =
    execute_profile_batch reserve others"
  by (auto simp: prepare_classic_def execute_batch_def execute_one_def prepare_profile_def
      execute_profile_batch_def execute_profile_one_def split: sum.split)

subsection \<open>Backends\<close>

text \<open>What a backend that computes runs would answer.\<close>

definition sound_backend :: "BatchExecutionBackend \<Rightarrow> bool" where
  "sound_backend backend \<longleftrightarrow> (\<forall>views items. backend views = Some items \<and> length items = length views \<longrightarrow>
    list_all2 (\<lambda>view item. \<forall>c. item = Some c \<longrightarrow>
      execution_run (bbr_step_budget view) (bbr_machine view) =
        (Inr (bbc_outcome c), (bbr_machine view)\<lparr>em_machine := from_snapshot (bbc_state c)\<rparr>)) views items)"

definition sound_profile_backend :: "ProfileBatchExecutionBackend \<Rightarrow> bool" where
  "sound_profile_backend backend \<longleftrightarrow> (\<forall>views items. backend views = Some items \<and> length items = length views \<longrightarrow>
    list_all2 (\<lambda>view item. \<forall>c. item = Some c \<longrightarrow>
      prun (pbbr_step_budget view) (pbbr_machine view) =
        (Inr (pbbc_outcome c), pfrom_snapshot (pbbc_state c))) views items)"

text \<open>The same of one prepared request and its attempt.\<close>

definition sound_classic :: "BuiltRequest \<Rightarrow> BatchBackendCompletion option \<Rightarrow> bool" where
  "sound_classic b a \<longleftrightarrow> (\<forall>c. a = Some c \<longrightarrow> execution_run (br_step_budget b) (br_machine b) =
    (Inr (bbc_outcome c), (br_machine b)\<lparr>em_machine := from_snapshot (bbc_state c)\<rparr>))"

definition sound_profile :: "BuiltProfileRequest \<Rightarrow> ProfileBatchBackendCompletion option \<Rightarrow> bool" where
  "sound_profile b a \<longleftrightarrow> (\<forall>c. a = Some c \<longrightarrow> prun (bpr_step_budget b) (bpr_machine b) =
    (Inr (pbbc_outcome c), pfrom_snapshot (pbbc_state c)))"

lemma accept_profile_sound: "sound_profile b a \<Longrightarrow> fst (accept_profile b a) = execute_profile_built b"
  by (auto simp: sound_profile_def accept_profile_def execute_profile_built_def split: option.split)

lemma accept_classic_sound:
  assumes "sound_classic b a"
  shows "fst (accept_classic b a) = execute_built b"
proof (cases "snd (accept_classic b a) = Backend")
  case True
  then obtain c where "a = Some c" "accept_classic b a =
      (BatchCompleted \<lparr>em_machine = from_snapshot (bbc_state c), em_mode = em_mode (br_machine b),
        em_profile = em_profile (br_machine b)\<rparr> (bbc_outcome c), Backend)"
    by (auto simp: accept_classic_def execution_from_snapshot_def Let_def split: option.splits if_splits sum.splits)
  then show ?thesis using assms by (simp add: sound_classic_def execute_built_def)
next
  case False
  then show ?thesis using classic_route.falls_back by (metis fst_conv)
qed

text \<open>
  C8: a sound backend is unobservable. If every completion a backend answers is the checkpoint of
  the run it was asked for, the batch returns what running every request here returns, whichever
  requests the backend defers, whether it answers at all, and even if it answers the wrong number
  of items; for classic and for profile requests.
\<close>
theorem sound_backend_is_unobservable:
  "(sound_backend backend \<longrightarrow> execute_batch_with_backend requests backend = execute_batch requests) \<and>
    (sound_profile_backend profile_backend \<longrightarrow>
      execute_profile_batch_with_backend reserve others profile_backend = execute_profile_batch reserve others)"
proof (intro conjI impI)
  let ?slots = "map classic_slot (prepare_classic requests)"
  let ?views = "classic_views (prepare_classic requests)"
  assume sound: "sound_backend backend"
  define attempts where "attempts = (case (if ?views = [] then None else
    valid_classic_attempts (backend ?views) (length ?views)) of None \<Rightarrow> [] | Some items \<Rightarrow> items)"
  have "attempts = [] \<or> list_all2 (\<lambda>b a. fst (accept_classic b a) = execute_built b) (prepared ?slots) attempts"
  proof (cases "attempts = []")
    case False
    then have answered: "backend ?views = Some attempts \<and> length attempts = length ?views"
      by (auto simp: attempts_def valid_classic_attempts_def option_filter_def split: if_splits option.splits)
    note sound[unfolded sound_backend_def, rule_format, OF answered]
    then have "list_all2 sound_classic (prepared ?slots) attempts"
      unfolding classic_views_prepared list_all2_map1 sound_classic_def by (simp add: classic_view_def)
    then have "list_all2 (\<lambda>b a. fst (accept_classic b a) = execute_built b) (prepared ?slots) attempts"
      by (rule list_all2_mono) (rule accept_classic_sound)
    then show ?thesis ..
  qed simp
  from classic_route.settle_sound[OF this, unfolded slots_sequential]
  show "execute_batch_with_backend requests backend = execute_batch requests"
    by (simp add: execute_batch_with_backend_def execute_batch_with_backend_report_def collect_classic_def
        collect_classic_settles Let_def attempts_def)
next
  let ?slots = "map profile_slot (prepare_profile reserve others)"
  let ?views = "profile_views (prepare_profile reserve others)"
  assume sound: "sound_profile_backend profile_backend"
  define attempts where "attempts = (case (if ?views = [] then None else
    valid_profile_attempts (profile_backend ?views) (length ?views)) of None \<Rightarrow> [] | Some items \<Rightarrow> items)"
  have "attempts = [] \<or> list_all2 (\<lambda>b a. fst (accept_profile b a) = execute_profile_built b) (prepared ?slots) attempts"
  proof (cases "attempts = []")
    case False
    then have answered: "profile_backend ?views = Some attempts \<and> length attempts = length ?views"
      by (auto simp: attempts_def valid_profile_attempts_def option_filter_def split: if_splits option.splits)
    note sound[unfolded sound_profile_backend_def, rule_format, OF answered]
    then have "list_all2 sound_profile (prepared ?slots) attempts"
      unfolding profile_views_prepared list_all2_map1 sound_profile_def by (simp add: profile_view_def)
    then have "list_all2 (\<lambda>b a. fst (accept_profile b a) = execute_profile_built b) (prepared ?slots) attempts"
      by (rule list_all2_mono) (rule accept_profile_sound)
    then show ?thesis ..
  qed simp
  from profile_route.settle_sound[OF this, unfolded slots_sequential]
  show "execute_profile_batch_with_backend reserve others profile_backend = execute_profile_batch reserve others"
    by (simp add: execute_profile_batch_with_backend_def execute_profile_batch_with_backend_report_def
        collect_profile_def collect_profile_settles Let_def attempts_def)
qed

text \<open>The transport that runs each request and answers with the final state.\<close>

definition resident_result :: "RunOutcome \<Rightarrow> ProfileMachine \<Rightarrow> ProfileResidentWireResult" where
  "resident_result outcome m =
    \<lparr>prwr_accumulator = preg_accumulator (pm_registers m), prwr_code_pointer = preg_code_pointer (pm_registers m),
     prwr_data_pointer = preg_data_pointer (pm_registers m), prwr_error = 0, prwr_error_pointer = 0,
     prwr_error_value = 0, prwr_input_consumed = pm_input_cursor m, prwr_memory = pm_memory m,
     prwr_output = pm_output m,
     prwr_status = (case outcome of BudgetExhausted _ \<Rightarrow> 0 | RunTerminated _ _ \<Rightarrow> 1),
     prwr_steps = (case outcome of BudgetExhausted n \<Rightarrow> n | RunTerminated _ n \<Rightarrow> n),
     prwr_termination = wire_termination_code (case pm_termination m of
       None \<Rightarrow> WireNone | Some HaltInstruction \<Rightarrow> WireHaltInstruction | Some NonGraphicalCell \<Rightarrow> WireNonGraphicalCell)\<rparr>"

definition outcome_steps :: "RunOutcome \<Rightarrow> nat" where
  "outcome_steps outcome = (case outcome of BudgetExhausted n \<Rightarrow> n | RunTerminated _ n \<Rightarrow> n)"

definition outcome_reason :: "RunOutcome \<Rightarrow> Termination option" where
  "outcome_reason outcome = (case outcome of BudgetExhausted _ \<Rightarrow> None | RunTerminated r _ \<Rightarrow> Some r)"

definition status_code :: "RunOutcome \<Rightarrow> u32" where
  "status_code outcome = (case outcome of BudgetExhausted _ \<Rightarrow> 0 | RunTerminated _ _ \<Rightarrow> 1)"

definition reason_code :: "Termination option \<Rightarrow> u32" where
  "reason_code t = (case t of None \<Rightarrow> 0 | Some HaltInstruction \<Rightarrow> 1 | Some NonGraphicalCell \<Rightarrow> 2)"

lemma state_new_exact:
  "profile_state_new_with_geometry g memory registers io = Inr s \<longleftrightarrow>
    (\<exists>s'. profile_state_new_with_geometry g memory registers io = Inr s') \<and>
    s = \<lparr>pst_geometry = g, pst_io = io, pst_memory = memory, pst_profile = geo_profile g, pst_registers = registers\<rparr>"
  by (auto simp: profile_state_new_with_geometry_def Let_def split: sum.splits if_splits)

lemma io_new_exact:
  "profile_io_state_new input cursor out t = Inr io \<longleftrightarrow> cursor \<le> length input \<and>
    io = \<lparr>pio_input = input, pio_input_cursor = cursor, pio_output = out, pio_termination = t\<rparr>"
  by (auto simp: profile_io_state_new_def validate_input_cursor_def map_ok_Inr_iff split: if_splits)

lemma completion_Some:
  "profile_backend_completion_from_resident_wire request result = Some c \<longleftrightarrow>
    prwr_error result = 0 \<and> prwr_steps result \<le> USIZE_MAX \<and> prwr_input_consumed result \<le> USIZE_MAX \<and>
    prwr_status result = status_code (pbbc_outcome c) \<and> prwr_steps result = outcome_steps (pbbc_outcome c) \<and>
    prwr_termination result = reason_code (outcome_reason (pbbc_outcome c)) \<and>
    (\<exists>io. profile_io_state_new (pm_input (pbbr_machine request)) (prwr_input_consumed result) (prwr_output result)
        (outcome_reason (pbbc_outcome c)) = Inr io \<and>
      profile_state_new_with_geometry (pm_geometry (pbbr_machine request)) (prwr_memory result)
        \<lparr>preg_accumulator = prwr_accumulator result, preg_code_pointer = prwr_code_pointer result,
         preg_data_pointer = prwr_data_pointer result\<rparr> io = Inr (pbbc_state c))" (is "?l \<longleftrightarrow> ?r")
proof
  assume ?l
  then show ?r
    by (auto simp: profile_backend_completion_from_resident_wire_def resident_codes status_code_def
        reason_code_def outcome_reason_def outcome_steps_def bind_eq_Some_conv split: if_splits sum.splits)
next
  assume r: ?r
  obtain oc st where c: "c = \<lparr>pbbc_outcome = oc, pbbc_state = st\<rparr>" by (cases c) simp
  show ?l
    using r by (cases oc) (auto simp: c profile_backend_completion_from_resident_wire_def resident_codes status_code_def
        reason_code_def outcome_reason_def outcome_steps_def split: Termination.splits)
qed

text \<open>
  C15: a resident result is accepted exactly when it is a machine's. For a request on a well-formed
  machine, a decoded result becomes a completion exactly when it reports no error and is what some
  well-formed machine of the request's own geometry, profile and input writes with an outcome that
  agrees with that machine's termination; the completion is then that machine's checkpoint.
\<close>
theorem resident_completion_is_exact:
  assumes wf: "wf_pmachine m" and cap: "geo_memory_words (pm_geometry m) \<le> pd_memory_words (pm_profile m)"
  shows "profile_backend_completion_from_resident_wire \<lparr>pbbr_machine = m, pbbr_step_budget = n\<rparr> result = Some c \<longleftrightarrow>
    prwr_steps result \<le> USIZE_MAX \<and> prwr_input_consumed result \<le> USIZE_MAX \<and>
    (\<exists>m'. wf_pmachine m' \<and> pm_geometry m' = pm_geometry m \<and> pm_profile m' = pm_profile m \<and>
      pm_input m' = pm_input m \<and> pm_termination m' = outcome_reason (pbbc_outcome c) \<and>
      result\<lparr>prwr_error_pointer := 0, prwr_error_value := 0\<rparr> = resident_result (pbbc_outcome c) m' \<and>
      pbbc_state c = psnapshot_state m')" (is "?l \<longleftrightarrow> ?r")
proof
  let ?g = "pm_geometry m"
  note w = wf_pmachineD[OF wf]
  assume ?l
  then obtain io where c: "prwr_error result = 0" "prwr_steps result \<le> USIZE_MAX" "prwr_input_consumed result \<le> USIZE_MAX"
    "prwr_status result = status_code (pbbc_outcome c)" "prwr_steps result = outcome_steps (pbbc_outcome c)"
    "prwr_termination result = reason_code (outcome_reason (pbbc_outcome c))"
    "profile_io_state_new (pm_input m) (prwr_input_consumed result) (prwr_output result)
        (outcome_reason (pbbc_outcome c)) = Inr io"
    and s: "profile_state_new_with_geometry ?g (prwr_memory result)
        \<lparr>preg_accumulator = prwr_accumulator result, preg_code_pointer = prwr_code_pointer result,
         preg_data_pointer = prwr_data_pointer result\<rparr> io = Inr (pbbc_state c)"
    by (auto simp: completion_Some)
  note io = c(7)[unfolded io_new_exact] and st = conjunct2[OF iffD1[OF state_new_exact s]]
  have "wf_pmachine (pfrom_snapshot (pbbc_state c))"
    using profile_state_new_machine_wf[OF w(1) _ s] io by simp
  then show ?r
    using c io st w(7)
    by (intro conjI exI[of _ "pfrom_snapshot (pbbc_state c)"])
      (auto simp: pfrom_snapshot_def psnapshot_state_def resident_result_def status_code_def outcome_steps_def
        reason_code_def split: RunOutcome.splits option.splits Termination.splits)
next
  let ?g = "pm_geometry m"
  assume ?r
  then obtain m' where m': "prwr_steps result \<le> USIZE_MAX" "prwr_input_consumed result \<le> USIZE_MAX"
    "wf_pmachine m'" "pm_geometry m' = ?g" "pm_profile m' = pm_profile m" "pm_input m' = pm_input m"
    "pm_termination m' = outcome_reason (pbbc_outcome c)" "pbbc_state c = psnapshot_state m'"
    and res: "result\<lparr>prwr_error_pointer := 0, prwr_error_value := 0\<rparr> = resident_result (pbbc_outcome c) m'" by blast
  have f: "prwr_error result = 0" "prwr_status result = status_code (pbbc_outcome c)"
    "prwr_steps result = outcome_steps (pbbc_outcome c)" "prwr_memory result = pm_memory m'"
    "prwr_termination result = reason_code (outcome_reason (pbbc_outcome c))"
    "prwr_input_consumed result = pm_input_cursor m'" "prwr_output result = pm_output m'"
    "\<lparr>preg_accumulator = prwr_accumulator result, preg_code_pointer = prwr_code_pointer result,
      preg_data_pointer = prwr_data_pointer result\<rparr> = pm_registers m'"
    using res m'(7)
    by (cases result; auto simp: resident_result_def status_code_def outcome_steps_def reason_code_def
        split: RunOutcome.splits option.splits Termination.splits)+
  have "psnapshot_state m' = \<lparr>pst_geometry = ?g, pst_io = pst_io (psnapshot_state m'),
      pst_memory = pm_memory m', pst_profile = geo_profile ?g, pst_registers = pm_registers m'\<rparr>"
    using m'(3-5) wf_pmachineD(7)[OF m'(3)] by (simp add: psnapshot_state_def)
  moreover have "profile_state_new_with_geometry ?g (pm_memory m') (pm_registers m') (pst_io (psnapshot_state m')) =
      Inr (psnapshot_state m')"
    using psnapshot_revalidates[OF m'(3)] cap m'(4,5) by (simp add: psnapshot_state_def)
  moreover have "profile_io_state_new (pm_input m) (pm_input_cursor m') (pm_output m')
      (outcome_reason (pbbc_outcome c)) = Inr (pst_io (psnapshot_state m'))"
    using wf_pmachineD(6)[OF m'(3)] m'(6,7) by (simp add: io_new_exact psnapshot_state_def)
  ultimately show ?l using f m'(1,2,8) by (simp add: completion_Some)
qed

definition resident_demo :: ProfileMachine where
  "resident_demo =
    \<lparr>pm_geometry = \<lparr>geo_input_policy = Any, geo_memory_words = 729, geo_profile = PROFILE_0, geo_word_trits = 6\<rparr>,
     pm_input = [7], pm_input_cursor = 1, pm_memory = replicate 729 0, pm_output = [33], pm_profile = PROFILE_0,
     pm_registers = \<lparr>preg_accumulator = 0, preg_code_pointer = 0, preg_data_pointer = 1\<rparr>,
     pm_termination = None\<rparr>"

theorem resident_completion_is_exact_witness:
  "profile_backend_completion_from_resident_wire \<lparr>pbbr_machine = resident_demo, pbbr_step_budget = 9\<rparr>
      (resident_result (BudgetExhausted 9) resident_demo) =
    Some \<lparr>pbbc_outcome = BudgetExhausted 9, pbbc_state = psnapshot_state resident_demo\<rparr>"
proof -
  have wf: "wf_pmachine resident_demo"
    by (simp add: wf_pmachine_def resident_demo_def wf_geometry_def PROFILE_wf wf_pregisters_def admits_input_def)
  have "geo_memory_words (pm_geometry resident_demo) \<le> pd_memory_words (pm_profile resident_demo)"
    by (simp add: resident_demo_def PROFILE_0_def)
  note exact = resident_completion_is_exact[OF wf this]
  have "pm_termination resident_demo = None" "pm_input_cursor resident_demo = 1"
    by (simp_all add: resident_demo_def)
  then show ?thesis
    unfolding exact using wf
    by (intro conjI exI[of _ resident_demo]) (simp_all add: resident_result_def outcome_reason_def USIZE_MAX_def)
qed

text \<open>
  C9: no backend can do more than answer. Whatever a backend returns, the report has one origin per
  request; a request that does not build is rejected as it is here and is reported so; a request
  reported as a fallback has the result of running it here; and one reported as the backend's is a
  completed machine of the request's own profile and geometry (or mode and profile) whose
  termination agrees with the outcome and the budget.
\<close>
theorem any_backend_is_contained:
  "(let (results, report) = execute_profile_batch_with_backend_report reserve others profile_backend in
    list_all2 (\<lambda>request (result, origin).
      case pbatch_build reserve request of
        Inl e \<Rightarrow> result = ProfileBatchRejected e None \<and> origin = SafeRustAdmissionRejection
      | Inr b \<Rightarrow> result = execute_profile_one reserve request \<and> origin = SafeRustFallback \<or>
          (\<exists>m oc. result = ProfileBatchCompleted m oc \<and> origin = Backend \<and>
            pm_profile m = pm_profile (bpr_machine b) \<and> pm_geometry m = pm_geometry (bpr_machine b) \<and>
            outcome_matches_state oc (pm_termination m) (pbq_step_budget request)))
      others (zip results (ber_origins report)) \<and> length results = length others) \<and>
   (let (results, report) = execute_batch_with_backend_report requests backend in
    list_all2 (\<lambda>request (result, origin).
      case batch_build request of
        Inl e \<Rightarrow> result = BatchRejected e None \<and> origin = SafeRustAdmissionRejection
      | Inr b \<Rightarrow> result = execute_one request \<and> origin = SafeRustFallback \<or>
          (\<exists>m oc. result = BatchCompleted m oc \<and> origin = Backend \<and>
            em_mode m = em_mode (br_machine b) \<and> em_profile m = em_profile (br_machine b) \<and>
            outcome_matches_state oc (m_termination (em_machine m)) (bq_step_budget request)))
      requests (zip results (ber_origins report)) \<and> length results = length requests)"
proof -
  have profile: "\<exists>m oc. r = ProfileBatchCompleted m oc \<and>
      pm_profile m = pm_profile (bpr_machine b) \<and> pm_geometry m = pm_geometry (bpr_machine b) \<and>
      outcome_matches_state oc (pm_termination m) (bpr_step_budget b)"
    if "accept_profile b a = (r, Backend)" for r a b
    using that by (auto simp: accept_profile_def pfrom_snapshot_def split: option.splits if_splits)
  have classic: "\<exists>m oc. r = BatchCompleted m oc \<and>
      em_mode m = em_mode (br_machine b) \<and> em_profile m = em_profile (br_machine b) \<and>
      outcome_matches_state oc (m_termination (em_machine m)) (br_step_budget b)"
    if "accept_classic b a = (r, Backend)" for r a b
    using that by (auto simp: accept_classic_def execution_from_snapshot_def from_snapshot_def Let_def
        split: option.splits if_splits sum.splits)
  have pall: "list_all2 (\<lambda>request (result, origin).
      case pbatch_build reserve request of
        Inl e \<Rightarrow> result = ProfileBatchRejected e None \<and> origin = SafeRustAdmissionRejection
      | Inr b \<Rightarrow> result = execute_profile_one reserve request \<and> origin = SafeRustFallback \<or>
          (\<exists>m oc. result = ProfileBatchCompleted m oc \<and> origin = Backend \<and>
            pm_profile m = pm_profile (bpr_machine b) \<and> pm_geometry m = pm_geometry (bpr_machine b) \<and>
            outcome_matches_state oc (pm_termination m) (pbq_step_budget request)))
    others (settle accept_profile (map profile_slot (prepare_profile reserve others)) attempts)" for attempts
    using profile_route.settle_contained[of "map profile_slot (prepare_profile reserve others)" attempts]
    unfolding prepare_profile_def list.map_comp list_all2_map1
  proof (rule list_all2_mono, goal_cases)
    case (1 request e)
    show ?case
    proof (cases "pbatch_build reserve request")
      case (Inr b)
      then have "bpr_step_budget b = pbq_step_budget request" by (auto simp: pbatch_build_def and_then_Inr_iff)
      then show ?thesis using 1 Inr profile[of b] by (cases e) (auto simp: execute_profile_one_def)
    qed (use 1 in \<open>cases e; simp\<close>)
  qed
  have call: "list_all2 (\<lambda>request (result, origin).
      case batch_build request of
        Inl e \<Rightarrow> result = BatchRejected e None \<and> origin = SafeRustAdmissionRejection
      | Inr b \<Rightarrow> result = execute_one request \<and> origin = SafeRustFallback \<or>
          (\<exists>m oc. result = BatchCompleted m oc \<and> origin = Backend \<and>
            em_mode m = em_mode (br_machine b) \<and> em_profile m = em_profile (br_machine b) \<and>
            outcome_matches_state oc (m_termination (em_machine m)) (bq_step_budget request)))
    requests (settle accept_classic (map classic_slot (prepare_classic requests)) attempts)" for attempts
    using classic_route.settle_contained[of "map classic_slot (prepare_classic requests)" attempts]
    unfolding prepare_classic_def list.map_comp list_all2_map1
  proof (rule list_all2_mono, goal_cases)
    case (1 request e)
    show ?case
    proof (cases "batch_build request")
      case (Inr b)
      then have "br_step_budget b = bq_step_budget request" by (auto simp: batch_build_def and_then_Inr_iff)
      then show ?thesis using 1 Inr classic[of b] by (cases e) (auto simp: execute_one_def)
    qed (use 1 in \<open>cases e; simp\<close>)
  qed
  show ?thesis
    using pall call list_all2_lengthD[OF pall] list_all2_lengthD[OF call]
    by (simp add: execute_profile_batch_with_backend_report_def execute_batch_with_backend_report_def
        collect_profile_def collect_classic_def collect_profile_settles collect_classic_settles Let_def
        zip_map_fst_snd)
qed

text \<open>A backend that runs the machines it is offered, and a batch it completes.\<close>

definition running_backend :: BatchExecutionBackend where
  "running_backend views = Some (map (\<lambda>view. case execution_run (bbr_step_budget view) (bbr_machine view) of
      (Inr outcome, m) \<Rightarrow> Some \<lparr>bbc_outcome = outcome, bbc_state = snapshot_state (em_machine m)\<rparr>
    | (Inl _, _) \<Rightarrow> None) views)"

definition running_profile_backend :: ProfileBatchExecutionBackend where
  "running_profile_backend views = Some (map (\<lambda>view. case prun (pbbr_step_budget view) (pbbr_machine view) of
      (Inr outcome, m) \<Rightarrow> Some \<lparr>pbbc_outcome = outcome, pbbc_state = psnapshot_state m\<rparr>
    | (Inl _, _) \<Rightarrow> None) views)"

lemma running_backend_sound: "sound_backend running_backend"
proof -
  have "execution_run n m = (Inr oc, m') \<Longrightarrow> m\<lparr>em_machine := from_snapshot (snapshot_state (em_machine m'))\<rparr> = m'" for n m oc m'
    by (auto simp: execution_run_def from_snapshot_def snapshot_state_def split: prod.splits)
  then show ?thesis
    by (auto simp: sound_backend_def running_backend_def list_all2_map2 intro!: list.rel_refl_strong
        split: prod.splits sum.splits)
qed

lemma running_profile_backend_sound: "sound_profile_backend running_profile_backend"
  by (auto simp: sound_profile_backend_def running_profile_backend_def list_all2_map2 psnapshot_roundtrip
      intro!: list.rel_refl_strong split: prod.splits sum.splits)

theorem sound_backend_is_unobservable_witness:
  "execute_batch_with_backend [batch_from_source [40, 39] [] Specification 10] running_backend =
      execute_batch [batch_from_source [40, 39] [] Specification 10] \<and>
    execute_profile_batch_with_backend (\<lambda>_. True) [pbatch_from_machine resident_demo 10] running_profile_backend =
      execute_profile_batch (\<lambda>_. True) [pbatch_from_machine resident_demo 10]"
  using sound_backend_is_unobservable running_backend_sound running_profile_backend_sound by blast

end
