(* ===== verification/Logical.thy ===== *)
theory Logical
  imports Batch "HOL-Library.Multiset"
begin

text \<open>
  \<open>application/logical.rs\<close>: batches whose requests carry a logical identity. Tasks run in ascending
  identity order whatever order they arrive in, and their outputs are joined in that order.
  \<open>sort_unstable_by_key\<close> is the stable sort: it differs only among equal identities, which the
  plan rejects.
\<close>

type_synonym LogicalTaskId = u64

record LogicalTask =
  lt_id :: LogicalTaskId
  lt_request :: BatchRequest

record LogicalTaskResult =
  ltr_id :: LogicalTaskId
  ltr_result :: BatchResult

record LogicalPlan =
  lp_ids :: "LogicalTaskId list"
  lp_requests :: "BatchRequest list"

record ProfileLogicalTask =
  plt_id :: LogicalTaskId
  plt_request :: ProfileBatchRequest

record ProfileLogicalTaskResult =
  pltr_id :: LogicalTaskId
  pltr_result :: ProfileBatchResult

record ProfileLogicalPlan =
  plp_ids :: "LogicalTaskId list"
  plp_requests :: "ProfileBatchRequest list"

datatype LogicalConcurrencyError = LogicalBatch BatchError | DuplicateTaskId LogicalTaskId

datatype LogicalJoinError =
    OutOfOrder LogicalTaskId LogicalTaskId
  | RejectedTask ExecutionError LogicalTaskId

datatype ProfileLogicalJoinError =
    ProfileOutOfOrder LogicalTaskId LogicalTaskId
  | ProfileRejectedTask ProfileMachineError LogicalTaskId

subsection \<open>Plans\<close>

fun logical_plan_loop ::
  "LogicalTask list \<Rightarrow> LogicalTaskId option \<Rightarrow> LogicalTaskId list \<Rightarrow> BatchRequest list \<Rightarrow>
    LogicalConcurrencyError + LogicalPlan" where
  "logical_plan_loop [] previous ids requests = Inr \<lparr>lp_ids = ids, lp_requests = requests\<rparr>"
| "logical_plan_loop (task # tasks) previous ids requests =
    (if previous = Some (lt_id task) then Inl (DuplicateTaskId (lt_id task))
     else logical_plan_loop tasks (Some (lt_id task)) (ids @ [lt_id task]) (requests @ [lt_request task]))"

definition logical_plan :: "LogicalTask list \<Rightarrow> LogicalConcurrencyError + LogicalPlan" where
  "logical_plan tasks = logical_plan_loop (sort_key lt_id tasks) None [] []"

fun profile_logical_plan_loop ::
  "ProfileLogicalTask list \<Rightarrow> LogicalTaskId option \<Rightarrow> LogicalTaskId list \<Rightarrow> ProfileBatchRequest list \<Rightarrow>
    LogicalConcurrencyError + ProfileLogicalPlan" where
  "profile_logical_plan_loop [] previous ids requests = Inr \<lparr>plp_ids = ids, plp_requests = requests\<rparr>"
| "profile_logical_plan_loop (task # tasks) previous ids requests =
    (if previous = Some (plt_id task) then Inl (DuplicateTaskId (plt_id task))
     else profile_logical_plan_loop tasks (Some (plt_id task)) (ids @ [plt_id task]) (requests @ [plt_request task]))"

definition profile_logical_plan :: "ProfileLogicalTask list \<Rightarrow> LogicalConcurrencyError + ProfileLogicalPlan" where
  "profile_logical_plan tasks = profile_logical_plan_loop (sort_key plt_id tasks) None [] []"

definition tag_results :: "LogicalTaskId list \<Rightarrow> BatchResult list \<Rightarrow> LogicalTaskResult list" where
  "tag_results ids results = map (\<lambda>(i, result). \<lparr>ltr_id = i, ltr_result = result\<rparr>) (zip ids results)"

definition tag_profile_results ::
  "LogicalTaskId list \<Rightarrow> ProfileBatchResult list \<Rightarrow> ProfileLogicalTaskResult list" where
  "tag_profile_results ids results = map (\<lambda>(i, result). \<lparr>pltr_id = i, pltr_result = result\<rparr>) (zip ids results)"

subsection \<open>Execution\<close>

definition execute_logical_tasks ::
  "LogicalTask list \<Rightarrow> LogicalConcurrencyError + LogicalTaskResult list" where
  "execute_logical_tasks tasks =
    and_then (logical_plan tasks) (\<lambda>plan.
      Inr (tag_results (lp_ids plan) (execute_batch (lp_requests plan))))"

definition execute_logical_tasks_parallel_with ::
  "(BatchRequest, BatchResult) ParallelExecutionPort \<Rightarrow> LogicalTask list \<Rightarrow> usize \<Rightarrow>
    LogicalConcurrencyError + LogicalTaskResult list" where
  "execute_logical_tasks_parallel_with port tasks worker_count =
    and_then (logical_plan tasks) (\<lambda>plan.
    and_then (map_err LogicalBatch (execute_batch_parallel_with port (lp_requests plan) worker_count)) (\<lambda>results.
      Inr (tag_results (lp_ids plan) results)))"

definition execute_profile_logical_tasks ::
  "(usize \<Rightarrow> bool) \<Rightarrow> ProfileLogicalTask list \<Rightarrow> LogicalConcurrencyError + ProfileLogicalTaskResult list" where
  "execute_profile_logical_tasks reserve tasks =
    and_then (profile_logical_plan tasks) (\<lambda>plan.
      Inr (tag_profile_results (plp_ids plan) (execute_profile_batch reserve (plp_requests plan))))"

definition execute_profile_logical_tasks_parallel_with ::
  "(ProfileBatchRequest, ProfileBatchResult) ParallelExecutionPort \<Rightarrow> (usize \<Rightarrow> bool) \<Rightarrow>
    ProfileLogicalTask list \<Rightarrow> usize \<Rightarrow> LogicalConcurrencyError + ProfileLogicalTaskResult list" where
  "execute_profile_logical_tasks_parallel_with port reserve tasks worker_count =
    and_then (profile_logical_plan tasks) (\<lambda>plan.
    and_then (map_err LogicalBatch
        (execute_profile_batch_parallel_with port reserve (plp_requests plan) worker_count)) (\<lambda>results.
      Inr (tag_profile_results (plp_ids plan) results)))"

subsection \<open>Joins\<close>

fun join_logical_loop ::
  "LogicalTaskResult list \<Rightarrow> LogicalTaskId option \<Rightarrow> u8 list \<Rightarrow> LogicalJoinError + u8 list" where
  "join_logical_loop [] previous joined = Inr joined"
| "join_logical_loop (item # items) previous joined =
    (case previous of
      Some previous_id \<Rightarrow>
        if ltr_id item \<le> previous_id then Inl (OutOfOrder (ltr_id item) previous_id)
        else (case ltr_result item of
            BatchCompleted machine _ \<Rightarrow>
              join_logical_loop items (Some (ltr_id item)) (joined @ m_output (em_machine machine))
          | BatchRejected e _ \<Rightarrow> Inl (RejectedTask e (ltr_id item)))
    | None \<Rightarrow>
        (case ltr_result item of
            BatchCompleted machine _ \<Rightarrow>
              join_logical_loop items (Some (ltr_id item)) (joined @ m_output (em_machine machine))
          | BatchRejected e _ \<Rightarrow> Inl (RejectedTask e (ltr_id item))))"

definition join_logical_outputs :: "LogicalTaskResult list \<Rightarrow> LogicalJoinError + u8 list" where
  "join_logical_outputs results = join_logical_loop results None []"

fun join_profile_logical_loop ::
  "ProfileLogicalTaskResult list \<Rightarrow> LogicalTaskId option \<Rightarrow> u8 list \<Rightarrow> ProfileLogicalJoinError + u8 list" where
  "join_profile_logical_loop [] previous joined = Inr joined"
| "join_profile_logical_loop (item # items) previous joined =
    (case previous of
      Some previous_id \<Rightarrow>
        if pltr_id item \<le> previous_id then Inl (ProfileOutOfOrder (pltr_id item) previous_id)
        else (case pltr_result item of
            ProfileBatchCompleted machine _ \<Rightarrow>
              join_profile_logical_loop items (Some (pltr_id item)) (joined @ pm_output machine)
          | ProfileBatchRejected e _ \<Rightarrow> Inl (ProfileRejectedTask e (pltr_id item)))
    | None \<Rightarrow>
        (case pltr_result item of
            ProfileBatchCompleted machine _ \<Rightarrow>
              join_profile_logical_loop items (Some (pltr_id item)) (joined @ pm_output machine)
          | ProfileBatchRejected e _ \<Rightarrow> Inl (ProfileRejectedTask e (pltr_id item))))"

definition join_profile_logical_outputs ::
  "ProfileLogicalTaskResult list \<Rightarrow> ProfileLogicalJoinError + u8 list" where
  "join_profile_logical_outputs results = join_profile_logical_loop results None []"

subsection \<open>Logical order\<close>

text \<open>The duplicate check of both plans: the first identity equal to its predecessor.\<close>

fun first_repeat :: "u64 option \<Rightarrow> u64 list \<Rightarrow> u64 option" where
  "first_repeat previous [] = None"
| "first_repeat previous (i # ids) = (if previous = Some i then Some i else first_repeat (Some i) ids)"

lemma plan_loop_exact:
  "logical_plan_loop tasks previous ids requests =
    (case first_repeat previous (map lt_id tasks) of
      Some i \<Rightarrow> Inl (DuplicateTaskId i)
    | None \<Rightarrow> Inr \<lparr>lp_ids = ids @ map lt_id tasks, lp_requests = requests @ map lt_request tasks\<rparr>)"
  by (induction tasks arbitrary: previous ids requests) (auto split: option.split)

lemma profile_plan_loop_exact:
  "profile_logical_plan_loop tasks previous ids requests =
    (case first_repeat previous (map plt_id tasks) of
      Some i \<Rightarrow> Inl (DuplicateTaskId i)
    | None \<Rightarrow> Inr \<lparr>plp_ids = ids @ map plt_id tasks, plp_requests = requests @ map plt_request tasks\<rparr>)"
  by (induction tasks arbitrary: previous ids requests) (auto split: option.split)

definition least_repeated :: "u64 list \<Rightarrow> u64 option" where
  "least_repeated ids = (if distinct ids then None else Some (LEAST i. 1 < count (mset ids) i))"

lemma first_repeat_sorted:
  "sorted (p # ids) \<Longrightarrow> (case first_repeat (Some p) ids of
      None \<Rightarrow> distinct (p # ids)
    | Some i \<Rightarrow> 1 < count (mset (p # ids)) i \<and> (\<forall>j. 1 < count (mset (p # ids)) j \<longrightarrow> i \<le> j))"
proof (induction ids arbitrary: p)
  case (Cons q qs)
  show ?case
  proof (cases "p = q")
    case True
    have "p \<le> j" if "1 < count (mset (p # q # qs)) j" for j
    proof -
      have "j \<in> set (p # q # qs)" using that by (metis count_inI gr_implies_not0 set_mset_mset)
      then show ?thesis using Cons.prems by auto
    qed
    then show ?thesis using True by simp
  next
    case False
    then have "p \<notin> set (q # qs)" using Cons.prems by fastforce
    then have zero: "count (mset qs) p = 0" by (simp add: count_eq_zero_iff)
    have none: "\<not> Suc 0 < count (mset qs) p" unfolding zero by simp
    show ?thesis
      using Cons.IH[of q] Cons.prems False \<open>p \<notin> set (q # qs)\<close> none
      by (auto split: option.splits if_splits)
  qed
qed simp

lemma count_repeated: "1 < count (mset xs) i \<Longrightarrow> \<not> distinct xs"
  using distinct_count_atmost_1[of xs] by (cases "i \<in> set xs") auto

lemma first_repeat_least: "first_repeat None (sort ids) = least_repeated ids"
proof (cases "sort ids")
  case Nil
  then have "ids = []" by (metis set_empty set_sort)
  then show ?thesis by (simp add: least_repeated_def)
next
  case (Cons p qs)
  have same: "mset (p # qs) = mset ids" unfolding Cons[symmetric] by simp
  have "sorted (p # qs)" "distinct (p # qs) = distinct ids" unfolding Cons[symmetric] by simp_all
  note spec = first_repeat_sorted[OF this(1)] this(2)
  show ?thesis
  proof (cases "first_repeat (Some p) qs")
    case None
    then show ?thesis using spec Cons by (simp add: least_repeated_def)
  next
    case (Some i)
    then have i: "1 < count (mset ids) i" "\<forall>j. 1 < count (mset ids) j \<longrightarrow> i \<le> j"
      using spec(1)[unfolded Some option.case same] by blast+
    then have "(LEAST j. 1 < count (mset ids) j) = i" by (intro Least_equality) auto
    then show ?thesis using Some Cons count_repeated[OF i(1)] by (simp add: least_repeated_def)
  qed
qed


lemma logical_plan_exact:
  "logical_plan tasks = (case least_repeated (map lt_id tasks) of
      Some i \<Rightarrow> Inl (DuplicateTaskId i)
    | None \<Rightarrow> Inr \<lparr>lp_ids = map lt_id (sort_key lt_id tasks), lp_requests = map lt_request (sort_key lt_id tasks)\<rparr>)"
proof -
  have "map lt_id (sort_key lt_id tasks) = sort (map lt_id tasks)"
    by (rule properties_for_sort[symmetric]) simp_all
  then show ?thesis by (auto simp: logical_plan_def plan_loop_exact first_repeat_least split: option.split)
qed

lemma profile_logical_plan_exact:
  "profile_logical_plan tasks = (case least_repeated (map plt_id tasks) of
      Some i \<Rightarrow> Inl (DuplicateTaskId i)
    | None \<Rightarrow> Inr \<lparr>plp_ids = map plt_id (sort_key plt_id tasks), plp_requests = map plt_request (sort_key plt_id tasks)\<rparr>)"
proof -
  have "map plt_id (sort_key plt_id tasks) = sort (map plt_id tasks)"
    by (rule properties_for_sort[symmetric]) simp_all
  then show ?thesis by (auto simp: profile_logical_plan_def profile_plan_loop_exact first_repeat_least split: option.split)
qed

text \<open>The results of the tasks, in ascending identity.\<close>

definition logical_results :: "LogicalTask list \<Rightarrow> LogicalTaskResult list" where
  "logical_results tasks =
    map (\<lambda>t. \<lparr>ltr_id = lt_id t, ltr_result = execute_one (lt_request t)\<rparr>) (sort_key lt_id tasks)"

definition profile_logical_results ::
  "(usize \<Rightarrow> bool) \<Rightarrow> ProfileLogicalTask list \<Rightarrow> ProfileLogicalTaskResult list" where
  "profile_logical_results reserve tasks =
    map (\<lambda>t. \<lparr>pltr_id = plt_id t, pltr_result = execute_profile_one reserve (plt_request t)\<rparr>) (sort_key plt_id tasks)"

lemma tagged:
  "tag_results (map lt_id ts) (execute_batch (map lt_request ts)) =
    map (\<lambda>t. \<lparr>ltr_id = lt_id t, ltr_result = execute_one (lt_request t)\<rparr>) ts"
  "tag_profile_results (map plt_id us) (execute_profile_batch reserve (map plt_request us)) =
    map (\<lambda>t. \<lparr>pltr_id = plt_id t, pltr_result = execute_profile_one reserve (plt_request t)\<rparr>) us"
  by (simp_all add: tag_results_def execute_batch_def tag_profile_results_def execute_profile_batch_def
      zip_map1 zip_map2 zip_same_conv_map)

lemma logical_tasks_exact:
  "execute_logical_tasks tasks = (case least_repeated (map lt_id tasks) of
      Some i \<Rightarrow> Inl (DuplicateTaskId i) | None \<Rightarrow> Inr (logical_results tasks))"
  "execute_profile_logical_tasks reserve others = (case least_repeated (map plt_id others) of
      Some i \<Rightarrow> Inl (DuplicateTaskId i) | None \<Rightarrow> Inr (profile_logical_results reserve others))"
  by (simp_all add: execute_logical_tasks_def logical_plan_exact tagged logical_results_def
      execute_profile_logical_tasks_def profile_logical_plan_exact profile_logical_results_def split: option.split)

lemma sort_key_order_free:
  assumes "mset xs = mset ys" and "distinct (map f xs)"
  shows "sort_key f xs = sort_key f ys"
proof (rule sort_key_inj_key_eq)
  show "mset xs = mset (sort_key f ys)" using assms(1) by simp
  show "inj_on f (set xs)" using assms(2) by (simp add: distinct_map)
qed simp

lemma least_repeated_None: "least_repeated ids = None \<longleftrightarrow> distinct ids"
  by (simp add: least_repeated_def)

lemma parallel_tasks:
  "execute_logical_tasks_parallel_with ScopedThreadParallelism tasks workers =
    (if workers = 0 \<and> distinct (map lt_id tasks) then Inl (LogicalBatch ZeroWorkers) else execute_logical_tasks tasks)"
proof (cases "least_repeated (map lt_id tasks)")
  case None
  then show ?thesis
    using least_repeated_None[of "map lt_id tasks"]
    by (simp add: execute_logical_tasks_parallel_with_def execute_batch_parallel_with_def scoped.runs_as_map
        execute_logical_tasks_def logical_plan_exact execute_batch_def)
next
  case (Some i)
  then show ?thesis
    using least_repeated_None[of "map lt_id tasks"]
    by (simp add: execute_logical_tasks_parallel_with_def execute_logical_tasks_def logical_plan_exact)
qed

lemma parallel_profile_tasks:
  "execute_profile_logical_tasks_parallel_with ScopedThreadParallelism reserve tasks workers =
    (if workers = 0 \<and> distinct (map plt_id tasks) then Inl (LogicalBatch ZeroWorkers)
     else execute_profile_logical_tasks reserve tasks)"
proof (cases "least_repeated (map plt_id tasks)")
  case None
  then show ?thesis
    using least_repeated_None[of "map plt_id tasks"]
    by (simp add: execute_profile_logical_tasks_parallel_with_def execute_profile_batch_parallel_with_def
        scoped.runs_as_map execute_profile_logical_tasks_def profile_logical_plan_exact execute_profile_batch_def)
next
  case (Some i)
  then show ?thesis
    using least_repeated_None[of "map plt_id tasks"]
    by (simp add: execute_profile_logical_tasks_parallel_with_def execute_profile_logical_tasks_def
        profile_logical_plan_exact)
qed

lemma least_repeated_order_free: "mset xs = mset ys \<Longrightarrow> least_repeated xs = least_repeated ys"
  unfolding least_repeated_def using mset_eq_imp_distinct_iff[of xs ys] by (simp only: split: if_split)

text \<open>
  C26: logical execution does not depend on the order the tasks arrive in. Equal multisets of tasks,
  classic or profile, have equal results, sequentially and over any number of scoped threads: the
  results of the tasks in ascending identity, or the least identity claimed twice, before anything
  runs. Zero workers fail, and only when the identities are distinct.
\<close>
theorem logical_execution_is_order_free:
  assumes "mset tasks = mset shuffled" and "mset ptasks = mset pshuffled"
  shows "execute_logical_tasks_parallel_with ScopedThreadParallelism shuffled workers =
      (if workers = 0 \<and> distinct (map lt_id tasks) then Inl (LogicalBatch ZeroWorkers)
       else execute_logical_tasks tasks) \<and>
    execute_logical_tasks shuffled = (case least_repeated (map lt_id tasks) of
        Some i \<Rightarrow> Inl (DuplicateTaskId i) | None \<Rightarrow> Inr (logical_results tasks)) \<and>
    execute_profile_logical_tasks_parallel_with ScopedThreadParallelism reserve pshuffled workers =
      (if workers = 0 \<and> distinct (map plt_id ptasks) then Inl (LogicalBatch ZeroWorkers)
       else execute_profile_logical_tasks reserve ptasks) \<and>
    execute_profile_logical_tasks reserve pshuffled = (case least_repeated (map plt_id ptasks) of
        Some i \<Rightarrow> Inl (DuplicateTaskId i) | None \<Rightarrow> Inr (profile_logical_results reserve ptasks))"
proof -
  have ids: "mset (map lt_id tasks) = mset (map lt_id shuffled)" "mset (map plt_id ptasks) = mset (map plt_id pshuffled)"
    using assms by simp_all
  have same: "execute_logical_tasks shuffled = execute_logical_tasks tasks"
    using least_repeated_order_free[OF ids(1)] sort_key_order_free[OF assms(1), of lt_id]
      least_repeated_None[of "map lt_id tasks"]
    by (cases "least_repeated (map lt_id tasks)") (auto simp: logical_tasks_exact logical_results_def split: option.split)
  have psame: "execute_profile_logical_tasks reserve pshuffled = execute_profile_logical_tasks reserve ptasks"
    using least_repeated_order_free[OF ids(2)] sort_key_order_free[OF assms(2), of plt_id]
      least_repeated_None[of "map plt_id ptasks"]
    by (cases "least_repeated (map plt_id ptasks)") (auto simp: logical_tasks_exact profile_logical_results_def split: option.split)
  have "distinct (map lt_id shuffled) = distinct (map lt_id tasks)"
    "distinct (map plt_id pshuffled) = distinct (map plt_id ptasks)"
    using ids by (metis mset_eq_imp_distinct_iff)+
  then show ?thesis unfolding parallel_tasks parallel_profile_tasks same psame by (simp only: logical_tasks_exact simp_thms)
qed

subsection \<open>Joined outputs\<close>

text \<open>Both joins are one join over what an item yields.\<close>

datatype 'e JoinFault = Disordered u64 u64 | Refused 'e u64

fun join_items ::
  "(u64 \<times> ('e + u8 list)) list \<Rightarrow> u64 option \<Rightarrow> u8 list \<Rightarrow> 'e JoinFault + u8 list" where
  "join_items [] previous joined = Inr joined"
| "join_items ((i, r) # items) previous joined =
    (case previous of
      Some p \<Rightarrow> if i \<le> p then Inl (Disordered i p)
        else (case r of Inr out \<Rightarrow> join_items items (Some i) (joined @ out) | Inl e \<Rightarrow> Inl (Refused e i))
    | None \<Rightarrow> (case r of Inr out \<Rightarrow> join_items items (Some i) (joined @ out) | Inl e \<Rightarrow> Inl (Refused e i)))"

definition before :: "u64 option \<Rightarrow> u64 list" where
  "before previous = (case previous of None \<Rightarrow> [] | Some p \<Rightarrow> [p])"

lemma before_simps [simp]: "before None = []" "before (Some p) = [p]"
  by (simp_all add: before_def)

lemma join_items_Inr:
  "join_items items previous joined = Inr bytes \<longleftrightarrow> sorted_wrt (<) (before previous @ map fst items) \<and>
    (\<forall>(i, r) \<in> set items. \<exists>out. r = Inr out) \<and> bytes = joined @ concat (map (projr \<circ> snd) items)"
proof (induction items previous joined rule: join_items.induct)
  case (1 previous joined)
  then show ?case by (cases previous) auto
next
  case (2 i r items previous joined)
  then show ?case by (cases previous; cases r) auto
qed

lemma join_items_Inl:
  assumes "join_items items previous joined = Inl fault"
  shows "\<exists>xs i r ys. items = xs @ (i, r) # ys \<and>
    sorted_wrt (<) (before previous @ map fst xs) \<and> (\<forall>(j, q) \<in> set xs. \<exists>out. q = Inr out) \<and>
    (case fault of
      Disordered c p \<Rightarrow> c = i \<and> c \<le> p \<and> before previous @ map fst xs \<noteq> [] \<and> p = last (before previous @ map fst xs)
    | Refused e j \<Rightarrow> j = i \<and> r = Inl e \<and> sorted_wrt (<) (before previous @ map fst xs @ [i]))"
  using assms
proof (induction items arbitrary: previous joined)
  case (Cons item items)
  obtain i r where item: "item = (i, r)" by (cases item) auto
  note prem = Cons.prems[unfolded item]
  show ?case
  proof (cases "(\<exists>p. previous = Some p \<and> i \<le> p) \<or> (\<exists>e. r = Inl e)")
    case True
    then show ?thesis
      using prem
      by - (rule exI[of _ "[]"], rule exI[of _ i], rule exI[of _ r], rule exI[of _ items],
        cases previous; cases r; auto simp: item split: if_splits)
  next
    case False
    then obtain out where r: "r = Inr out" by (cases r) auto
    have next_items: "join_items items (Some i) (joined @ out) = Inl fault"
      using prem False r by (cases previous) auto
    from Cons.IH[OF next_items] obtain xs j q ys where split: "items = xs @ (j, q) # ys"
      "sorted_wrt (<) (before (Some i) @ map fst xs)" "\<forall>(j, q) \<in> set xs. \<exists>out. q = Inr out"
      "case fault of
        Disordered c p \<Rightarrow> c = j \<and> c \<le> p \<and> before (Some i) @ map fst xs \<noteq> [] \<and> p = last (before (Some i) @ map fst xs)
      | Refused e k \<Rightarrow> k = j \<and> q = Inl e \<and> sorted_wrt (<) (before (Some i) @ map fst xs @ [j])"
      by blast
    have "sorted_wrt (<) (before previous @ i # map fst xs)"
      "sorted_wrt (<) (i # map fst xs @ [j]) \<Longrightarrow> sorted_wrt (<) (before previous @ i # map fst xs @ [j])"
      using False split(2) by (cases previous; fastforce simp: sorted_wrt_append)+
    then show ?thesis
      using split r
      by - (rule exI[of _ "(i, r) # xs"], rule exI[of _ j], rule exI[of _ q], rule exI[of _ ys],
        auto simp: item split: JoinFault.splits)
  qed
qed simp

text \<open>The items of the two kinds of results.\<close>

definition classic_item :: "LogicalTaskResult \<Rightarrow> u64 \<times> (ExecutionError + u8 list)" where
  "classic_item r = (ltr_id r, case ltr_result r of
      BatchCompleted machine _ \<Rightarrow> Inr (m_output (em_machine machine)) | BatchRejected e _ \<Rightarrow> Inl e)"

definition profile_item :: "ProfileLogicalTaskResult \<Rightarrow> u64 \<times> (ProfileMachineError + u8 list)" where
  "profile_item r = (pltr_id r, case pltr_result r of
      ProfileBatchCompleted machine _ \<Rightarrow> Inr (pm_output machine) | ProfileBatchRejected e _ \<Rightarrow> Inl e)"

fun classic_fault :: "ExecutionError JoinFault \<Rightarrow> LogicalJoinError" where
  "classic_fault (Disordered c p) = OutOfOrder c p"
| "classic_fault (Refused e i) = RejectedTask e i"

fun profile_fault :: "ProfileMachineError JoinFault \<Rightarrow> ProfileLogicalJoinError" where
  "profile_fault (Disordered c p) = ProfileOutOfOrder c p"
| "profile_fault (Refused e i) = ProfileRejectedTask e i"

lemma join_logical_items:
  "join_logical_loop results previous joined = map_err classic_fault (join_items (map classic_item results) previous joined)"
proof (induction results arbitrary: previous joined)
  case (Cons r results)
  then show ?case by (cases previous; cases "ltr_result r") (simp_all add: classic_item_def)
qed simp

lemma join_profile_items:
  "join_profile_logical_loop results previous joined =
    map_err profile_fault (join_items (map profile_item results) previous joined)"
proof (induction results arbitrary: previous joined)
  case (Cons r results)
  then show ?case by (cases previous; cases "pltr_result r") (simp_all add: profile_item_def)
qed simp


lemma item_fields [simp]: "fst (classic_item r) = ltr_id r" "fst (profile_item q) = pltr_id q"
  by (simp_all add: classic_item_def profile_item_def)

lemma classic_item_Inr: "snd (classic_item r) = Inr out \<longleftrightarrow>
    (\<exists>m oc. ltr_result r = BatchCompleted m oc \<and> out = m_output (em_machine m))"
  "snd (classic_item r) = Inl e \<longleftrightarrow> (\<exists>m. ltr_result r = BatchRejected e m)"
  by (auto simp: classic_item_def split: BatchResult.splits)

lemma profile_item_Inr: "snd (profile_item q) = Inr out \<longleftrightarrow>
    (\<exists>m oc. pltr_result q = ProfileBatchCompleted m oc \<and> out = pm_output m)"
  "snd (profile_item q) = Inl e' \<longleftrightarrow> (\<exists>m. pltr_result q = ProfileBatchRejected e' m)"
  by (auto simp: profile_item_def split: ProfileBatchResult.splits)

text \<open>The output an item contributes.\<close>

definition classic_output :: "LogicalTaskResult \<Rightarrow> u8 list" where
  "classic_output r = (case batch_result_machine (ltr_result r) of
      None \<Rightarrow> [] | Some machine \<Rightarrow> m_output (em_machine machine))"

definition profile_output :: "ProfileLogicalTaskResult \<Rightarrow> u8 list" where
  "profile_output r = (case pbatch_result_machine (pltr_result r) of None \<Rightarrow> [] | Some machine \<Rightarrow> pm_output machine)"

lemma join_logical_Inr:
  "join_logical_outputs results = Inr bytes \<longleftrightarrow> sorted_wrt (<) (map ltr_id results) \<and>
    (\<forall>r \<in> set results. batch_result_error (ltr_result r) = None) \<and> bytes = concat (map classic_output results)"
proof -
  have "projr (snd (classic_item r)) = classic_output r \<and> (\<exists>out. snd (classic_item r) = Inr out)"
    if "batch_result_error (ltr_result r) = None" for r
    using that by (cases "ltr_result r") (simp_all add: classic_item_def classic_output_def)
  moreover have "batch_result_error (ltr_result r) = None" if "snd (classic_item r) = Inr out" for r out
    using that by (auto simp: classic_item_Inr)
  ultimately show ?thesis
    by (fastforce simp: join_logical_outputs_def join_logical_items join_items_Inr comp_def case_prod_beta
        intro!: arg_cong[of _ _ concat])
qed

lemma join_profile_Inr:
  "join_profile_logical_outputs results = Inr bytes \<longleftrightarrow> sorted_wrt (<) (map pltr_id results) \<and>
    (\<forall>r \<in> set results. pbatch_result_error (pltr_result r) = None) \<and> bytes = concat (map profile_output results)"
proof -
  have "projr (snd (profile_item r)) = profile_output r \<and> (\<exists>out. snd (profile_item r) = Inr out)"
    if "pbatch_result_error (pltr_result r) = None" for r
    using that by (cases "pltr_result r") (simp_all add: profile_item_def profile_output_def)
  moreover have "pbatch_result_error (pltr_result r) = None" if "snd (profile_item r) = Inr out" for r out
    using that by (auto simp: profile_item_Inr)
  ultimately show ?thesis
    by (fastforce simp: join_profile_logical_outputs_def join_profile_items join_items_Inr comp_def case_prod_beta
        intro!: arg_cong[of _ _ concat])
qed

text \<open>The first item a join refuses.\<close>

lemma join_logical_Inl:
  assumes "join_logical_outputs results = Inl fault"
  shows "\<exists>xs r ys. results = xs @ r # ys \<and> (\<exists>bytes. join_logical_outputs xs = Inr bytes) \<and>
    (case fault of
      OutOfOrder c p \<Rightarrow> xs \<noteq> [] \<and> p = ltr_id (last xs) \<and> c = ltr_id r \<and> c \<le> p
    | RejectedTask e i \<Rightarrow> i = ltr_id r \<and> (\<exists>m. ltr_result r = BatchRejected e m) \<and>
        sorted_wrt (<) (map ltr_id (xs @ [r])))"
proof -
  obtain f where f: "join_items (map classic_item results) None [] = Inl f" "fault = classic_fault f"
    using assms by (auto simp: join_logical_outputs_def join_logical_items)
  obtain as i q bs where split: "map classic_item results = as @ (i, q) # bs"
    "sorted_wrt (<) (map fst as)" "\<forall>(j, q) \<in> set as. \<exists>out. q = Inr out"
    "case f of Disordered c p \<Rightarrow> c = i \<and> c \<le> p \<and> map fst as \<noteq> [] \<and> p = last (map fst as)
      | Refused e j \<Rightarrow> j = i \<and> q = Inl e \<and> sorted_wrt (<) (map fst as @ [i])"
    using join_items_Inl[OF f(1), unfolded before_simps append_Nil] by blast
  then obtain xs r ys where r: "results = xs @ r # ys" "as = map classic_item xs" "(i, q) = classic_item r"
    by (auto simp: map_eq_append_conv map_eq_Cons_conv)
  have "join_items (map classic_item xs) None [] = Inr (concat (map (projr \<circ> snd) as))"
    using split(2,3) r(2) by (simp add: join_items_Inr)
  then have ok: "\<exists>bytes. join_logical_outputs xs = Inr bytes" by (simp add: join_logical_outputs_def join_logical_items)
  have "i = ltr_id r" "q = snd (classic_item r)" using arg_cong[OF r(3), of fst] arg_cong[OF r(3), of snd] by simp_all
  then have "case fault of
      OutOfOrder c p \<Rightarrow> xs \<noteq> [] \<and> p = ltr_id (last xs) \<and> c = ltr_id r \<and> c \<le> p
    | RejectedTask e i \<Rightarrow> i = ltr_id r \<and> (\<exists>m. ltr_result r = BatchRejected e m) \<and>
        sorted_wrt (<) (map ltr_id (xs @ [r]))"
    using split(4) by (cases f) (auto simp: f(2) r(2) last_map comp_def classic_item_Inr)
  then show ?thesis using r(1) ok by blast
qed

text \<open>
  A join is exact. It returns bytes exactly for results in strictly ascending identity that all
  completed, and then the outputs one after the other; otherwise it names the first item that is
  out of order, with its predecessor, or was rejected, with its error. The results of a logical run
  are never out of order, so their join is their outputs in identity order or the rejection of the
  least rejected identity; the same holds of profile results.
\<close>
lemma logical_join_is_exact:
  "(join_logical_outputs results = Inr bytes \<longleftrightarrow> sorted_wrt (<) (map ltr_id results) \<and>
      (\<forall>r \<in> set results. batch_result_error (ltr_result r) = None) \<and> bytes = concat (map classic_output results)) \<and>
    (join_logical_outputs results = Inl fault \<longrightarrow>
      (\<exists>xs r ys. results = xs @ r # ys \<and> (\<exists>out. join_logical_outputs xs = Inr out) \<and>
        (case fault of
          OutOfOrder c p \<Rightarrow> xs \<noteq> [] \<and> p = ltr_id (last xs) \<and> c = ltr_id r \<and> c \<le> p
        | RejectedTask e i \<Rightarrow> i = ltr_id r \<and> (\<exists>m. ltr_result r = BatchRejected e m) \<and>
            sorted_wrt (<) (map ltr_id (xs @ [r]))))) \<and>
    (execute_logical_tasks tasks = Inr results \<longrightarrow> (\<forall>c p. join_logical_outputs results \<noteq> Inl (OutOfOrder c p))) \<and>
    (join_profile_logical_outputs presults = Inr bytes \<longleftrightarrow> sorted_wrt (<) (map pltr_id presults) \<and>
      (\<forall>r \<in> set presults. pbatch_result_error (pltr_result r) = None) \<and>
      bytes = concat (map profile_output presults))"
proof (intro conjI impI allI notI)
  fix c p
  assume run: "execute_logical_tasks tasks = Inr results" and bad: "join_logical_outputs results = Inl (OutOfOrder c p)"
  have ids: "map ltr_id results = map lt_id (sort_key lt_id tasks)" "distinct (map lt_id tasks)"
    using run least_repeated_None[of "map lt_id tasks"]
    by (auto simp: logical_tasks_exact logical_results_def split: option.splits)
  have "distinct (map lt_id (sort_key lt_id tasks))"
    using ids(2) by (metis mset_eq_imp_distinct_iff mset_map mset_sort)
  moreover have "sorted (map lt_id (sort_key lt_id tasks))" by simp
  ultimately have "sorted_wrt (<) (map ltr_id results)" unfolding ids(1) strict_sorted_iff by blast
  moreover obtain xs r ys where "results = xs @ r # ys" "xs \<noteq> []" "p = ltr_id (last xs)" "c = ltr_id r" "c \<le> p"
    using join_logical_Inl[OF bad] by auto
  ultimately have "ltr_id (last xs) < ltr_id r" by (simp add: sorted_wrt_append)
  then show False using \<open>p = ltr_id (last xs)\<close> \<open>c = ltr_id r\<close> \<open>c \<le> p\<close> by simp
qed (use join_logical_Inr join_logical_Inl join_profile_Inr in \<open>blast+\<close>)

definition logical_demo :: "u64 \<Rightarrow> LogicalTask" where
  "logical_demo i = \<lparr>lt_id = i, lt_request = batch_from_source [40, 39] [] Specification 10\<rparr>"

theorem logical_execution_is_order_free_witness:
  "execute_logical_tasks_parallel_with ScopedThreadParallelism [logical_demo 2, logical_demo 1] 4 =
      execute_logical_tasks [logical_demo 1, logical_demo 2] \<and>
    execute_logical_tasks [logical_demo 2, logical_demo 2] = Inl (DuplicateTaskId 2)"
proof -
  have two: "(LEAST i. i = (2 :: u64)) = 2" by (rule Least_equality) auto
  show ?thesis
    using logical_execution_is_order_free[of "[logical_demo 1, logical_demo 2]" "[logical_demo 2, logical_demo 1]" "[]" "[]" 4]
      logical_execution_is_order_free[of "[logical_demo 2, logical_demo 2]" "[logical_demo 2, logical_demo 2]" "[]" "[]" 1]
    by (simp add: least_repeated_def logical_demo_def two)
qed

definition joined_demo :: "u64 \<Rightarrow> LogicalTaskResult" where
  "joined_demo i = \<lparr>ltr_id = i, ltr_result = BatchCompleted
    \<lparr>em_machine = \<lparr>m_input = [], m_input_cursor = 0, m_memory = \<lparr>mem_words = []\<rparr>, m_output = [33],
      m_registers = \<lparr>accumulator = Word 0, code_pointer = Word 0, data_pointer = Word 0\<rparr>,
      m_termination = Some HaltInstruction\<rparr>, em_mode = Specification, em_profile = PROFILE_0\<rparr>
    (RunTerminated HaltInstruction 1)\<rparr>"

lemma logical_join_is_exact_witness:
  "join_logical_outputs [joined_demo 1, joined_demo 2] = Inr [33, 33] \<and>
    \<not> (\<exists>bytes. join_logical_outputs [joined_demo 2, joined_demo 1] = Inr bytes)"
  using logical_join_is_exact[of "[joined_demo 1, joined_demo 2]"]
    logical_join_is_exact[of "[joined_demo 2, joined_demo 1]"]
  by (simp add: joined_demo_def classic_output_def)

end
