(* ===== verification/Layout.thy ===== *)
theory Layout
  imports ProfileMachine
begin

text \<open>
  \<open>src/src/compiler/malbolge-layout/composition/lib.rs\<close>: the address-sensitive code layout of the
  compiler. A list of opcodes is encoded as the graphical cell that decodes to each opcode at its
  own address, the shape of the list is checked, and the path the machine will take through it is
  derived: forward jumps read their target from the evolving cells, one relocation moves the data
  pointer past the code. A planner inserts the padding that forward jumps and relocations need.
\<close>

definition CELL_START :: nat where "CELL_START = 33"
definition CELL_END :: nat where "CELL_END = 126"
definition MIN_SOURCE_CELLS :: usize where "MIN_SOURCE_CELLS = 2"
definition MAX_LINEAR_CELLS :: usize where "MAX_LINEAR_CELLS = 4096"
definition HALT_INSTRUCTION :: u8 where "HALT_INSTRUCTION = 118"
definition NO_OP_INSTRUCTION :: u8 where "NO_OP_INSTRUCTION = 111"

subsection \<open>Opcodes, layouts and rejections\<close>

datatype LinearOpcode =
    CrazyData
  | LinearHalt
  | InputWord
  | JumpForward u32
  | LinearNoOperation
  | OutputByte
  | RelocateDataPointer
  | RotateData

fun linear_decoded :: "ProfileDescriptor \<Rightarrow> LinearOpcode \<Rightarrow> u8" where
  "linear_decoded profile CrazyData = 112"
| "linear_decoded profile InputWord = pd_input_instruction profile"
| "linear_decoded profile (JumpForward _) = 105"
| "linear_decoded profile OutputByte = pd_output_instruction profile"
| "linear_decoded profile LinearNoOperation = NO_OP_INSTRUCTION"
| "linear_decoded profile LinearHalt = HALT_INSTRUCTION"
| "linear_decoded profile RelocateDataPointer = 106"
| "linear_decoded profile RotateData = 42"

record LinearLayout =
  ll_data_pointer_positions :: "u32 list"
  ll_data_write_positions :: "u32 option list"
  ll_encrypted_code_positions :: "u32 list"
  ll_executed_code_positions :: "u32 list"
  ll_profile_fingerprint :: string
  ll_profile_id :: string
  ll_source :: "u8 list"

record LinearProfileIdentity =
  lpi_fingerprint :: string
  lpi_id :: string

datatype LinearLayoutError =
    AmbiguousEncoding usize
  | DecodeMismatch usize
  | EarlyHalt usize
  | JumpPathUnsupported
  | JumpTargetMismatch usize
  | MissingHalt
  | NoEncoding usize
  | ProfileMismatch
  | SourceLengthMismatch
  | TooLong
  | TooShort
  | UnsafeDataPlacement

datatype PaddedForwardStep =
    AutoRelocate
  | StepInstruction LinearOpcode
  | StepJump

datatype PaddedCellOrigin =
    ExecutedPadding
  | LogicalCell u32
  | SkippedPadding

record PaddedForwardLayout =
  pfl_layout :: LinearLayout
  pfl_logical_code_positions :: "u32 list"
  pfl_operations :: "LinearOpcode list"
  pfl_source_cell_origins :: "PaddedCellOrigin list"

record ForwardPaddingBuilder =
  fpb_data_pointer :: usize
  fpb_operations :: "LinearOpcode list"
  fpb_positions :: "u32 list"
  fpb_profile :: ProfileDescriptor
  fpb_relocated :: bool
  fpb_shadow :: "u32 list"

record DerivedExecutionPositions =
  dep_data :: "u32 list"
  dep_encrypted :: "u32 list"
  dep_executed :: "u32 list"
  dep_writes :: "u32 option list"

record JumpSuccessor =
  js_encryption :: usize
  js_position :: usize

subsection \<open>Slices\<close>

text \<open>\<open>iter().position(test)\<close>, \<open>slice.last()\<close> and \<open>binary_search(key).is_ok()\<close>.\<close>

fun iter_position :: "('a \<Rightarrow> bool) \<Rightarrow> 'a list \<Rightarrow> usize option" where
  "iter_position test [] = None"
| "iter_position test (x # xs) = (if test x then Some 0 else map_option Suc (iter_position test xs))"

definition slice_last :: "'a list \<Rightarrow> 'a option" where
  "slice_last xs = (if xs = [] then None else Some (last xs))"

function bisect :: "u32 list \<Rightarrow> u32 \<Rightarrow> nat \<Rightarrow> nat \<Rightarrow> bool" where
  "bisect xs key lo hi =
    (if lo < hi then
       (let mid = lo + (hi - lo) div 2
        in if xs ! mid = key then True
           else if xs ! mid < key then bisect xs key (mid + 1) hi
           else bisect xs key lo mid)
     else False)"
  by pat_completeness auto
termination
  by (relation "measure (\<lambda>(xs, key, lo, hi). hi - lo)") auto

declare bisect.simps [simp del]

definition binary_search_is_ok :: "u32 list \<Rightarrow> u32 \<Rightarrow> bool" where
  "binary_search_is_ok xs key = bisect xs key 0 (length xs)"

subsection \<open>The shape of an opcode list\<close>

fun validate_jump_loop ::
  "LinearOpcode list \<Rightarrow> usize option \<Rightarrow> (usize \<times> LinearOpcode) list \<Rightarrow> LinearLayoutError + unit" where
  "validate_jump_loop operations relocation [] = Ok ()"
| "validate_jump_loop operations relocation ((position, operation) # rest) =
    (case operation of
      JumpForward target \<Rightarrow>
        (if (case relocation of None \<Rightarrow> False | Some relocate_at \<Rightarrow> position > relocate_at)
         then Err JumpPathUnsupported
         else
           (let target_position = target
            in if target_position \<le> position \<or> target_position \<ge> length operations
               then Err JumpPathUnsupported
               else
                 (let skip_begin = position + 1
                  in if list_ex (\<lambda>skipped. skipped \<noteq> LinearNoOperation)
                       (take (target_position - skip_begin) (drop skip_begin operations))
                     then Err JumpPathUnsupported
                     else validate_jump_loop operations relocation rest)))
    | _ \<Rightarrow> validate_jump_loop operations relocation rest)"

definition validate_jump_shape :: "LinearOpcode list \<Rightarrow> LinearLayoutError + unit" where
  "validate_jump_shape operations =
    (let relocation = iter_position (\<lambda>operation. operation = RelocateDataPointer) operations
     in validate_jump_loop operations relocation (enumerate 0 operations))"

definition validate_shape ::
  "ProfileDescriptor \<Rightarrow> LinearOpcode list \<Rightarrow> LinearLayoutError + unit" where
  "validate_shape profile operations =
    (if length operations < MIN_SOURCE_CELLS then Err TooShort
     else if length operations > MAX_LINEAR_CELLS \<or> length operations > pd_memory_words profile
     then Err TooLong
     else if slice_last operations \<noteq> Some LinearHalt then Err MissingHalt
     else
       (let before_last = length operations - 1
        in case iter_position (\<lambda>op. op = LinearHalt) (take before_last operations) of
             Some position \<Rightarrow> Err (EarlyHalt position)
           | None \<Rightarrow>
             (let relocation = iter_position (\<lambda>op. op = RelocateDataPointer) operations;
                  second_relocation =
                    (case relocation of
                      None \<Rightarrow> False
                    | Some position \<Rightarrow>
                        list_ex (\<lambda>op. op = RelocateDataPointer) (drop (position + 1) operations));
                  unplaced_arithmetic =
                    list_ex (\<lambda>(position, op). (op = CrazyData \<or> op = RotateData) \<and>
                        (case relocation of None \<Rightarrow> True | Some base \<Rightarrow> position \<le> base))
                      (enumerate 0 operations)
              in if second_relocation \<or> unplaced_arithmetic then Err UnsafeDataPlacement
                 else validate_jump_shape operations)))"

subsection \<open>One cell\<close>

text \<open>The scan over the graphical bytes; \<open>candidate\<close> is the byte found so far.\<close>

fun unique_cell_loop ::
  "u8 \<Rightarrow> u32 \<Rightarrow> usize \<Rightarrow> nat list \<Rightarrow> nat option \<Rightarrow> LinearLayoutError + nat option" where
  "unique_cell_loop decoded address position [] candidate = Ok candidate"
| "unique_cell_loop decoded address position (byte # bytes) candidate =
    (if decode_profile_instruction byte address = Some decoded then
       (if candidate \<noteq> None then Err (AmbiguousEncoding position)
        else unique_cell_loop decoded address position bytes (Some byte))
     else unique_cell_loop decoded address position bytes candidate)"

definition unique_graphical_cell ::
  "ProfileDescriptor \<Rightarrow> LinearOpcode \<Rightarrow> usize \<Rightarrow> LinearLayoutError + u8" where
  "unique_graphical_cell profile operation position =
    (if position > U32_MAX then Err TooLong
     else
       (let address = position; decoded = linear_decoded profile operation
        in case unique_cell_loop decoded address position [CELL_START..<Suc CELL_END] None of
             Inl e \<Rightarrow> Inl e
           | Inr candidate \<Rightarrow> ok_or (NoEncoding position) (map_option of_nat candidate)))"

subsection \<open>The path through a source\<close>

definition jump_successor ::
  "u32 list \<Rightarrow> usize \<Rightarrow> usize \<Rightarrow> u32 \<Rightarrow> LinearLayoutError + JumpSuccessor" where
  "jump_successor code_cells data position target =
    (case get code_cells data of
      None \<Rightarrow> Err JumpPathUnsupported
    | Some data_cell \<Rightarrow>
        if sat_add U32_MAX data_cell 1 \<noteq> target then Err (JumpTargetMismatch position)
        else Ok \<lparr>js_encryption = target - 1, js_position = target\<rparr>)"

definition planned_data_write ::
  "LinearOpcode \<Rightarrow> u32 \<Rightarrow> usize \<Rightarrow> LinearLayoutError + u32 option" where
  "planned_data_write operation data_address source_length =
    (if \<not> (operation = CrazyData \<or> operation = RotateData) then Ok None
     else if source_length > U32_MAX then Err TooLong
     else
       (let code_end = source_length
        in if data_address < code_end then Err UnsafeDataPlacement else Ok (Some data_address)))"

text \<open>
  The mutable locals of the loop of \<open>derive_execution_positions\<close>. The cells start as the source's
  bytes and change in place, so their number is \<open>source.len()\<close> throughout.
\<close>

record DeriveLocals =
  dl_data :: "u32 list"
  dl_executed :: "u32 list"
  dl_encrypted :: "u32 list"
  dl_writes :: "u32 option list"
  dl_code_cells :: "u32 list"
  dl_data_pointer :: usize
  dl_position :: usize

definition derive_successor ::
  "LinearOpcode \<Rightarrow> DeriveLocals \<Rightarrow> LinearLayoutError + usize \<times> usize" where
  "derive_successor operation st =
    (case operation of
      JumpForward target \<Rightarrow>
        map_ok (\<lambda>s. (js_encryption s, js_position s))
          (jump_successor (dl_code_cells st) (dl_data_pointer st) (dl_position st) target)
    | LinearHalt \<Rightarrow> Err (EarlyHalt (dl_position st))
    | _ \<Rightarrow> Ok (dl_position st, dl_position st + 1))"

definition derive_data_pointer :: "LinearOpcode \<Rightarrow> DeriveLocals \<Rightarrow> LinearLayoutError + usize" where
  "derive_data_pointer operation st =
    (if operation = RelocateDataPointer then
       (case get (dl_code_cells st) (dl_data_pointer st) of
         None \<Rightarrow> Err UnsafeDataPlacement
       | Some data_word \<Rightarrow>
           if data_word < length (dl_code_cells st) then Err UnsafeDataPlacement
           else Ok (data_word + 1))
     else Ok (dl_data_pointer st + 1))"

text \<open>One round of the loop; the flag is false where the source breaks.\<close>

definition derive_iteration ::
  "LinearOpcode \<Rightarrow> DeriveLocals \<Rightarrow> LinearLayoutError + DeriveLocals \<times> bool" where
  "derive_iteration operation st =
    (if dl_position st > U32_MAX then Err TooLong
     else if dl_data_pointer st > U32_MAX then Err TooLong
     else
       (case planned_data_write operation (dl_data_pointer st) (length (dl_code_cells st)) of
         Inl e \<Rightarrow> Inl e
       | Inr planned \<Rightarrow>
         (let st1 = st\<lparr>dl_executed := dl_executed st @ [dl_position st],
                       dl_data := dl_data st @ [dl_data_pointer st],
                       dl_writes := dl_writes st @ [planned]\<rparr>
          in if operation = LinearHalt then Ok (st1, False)
             else
               (case derive_successor operation st1 of
                 Inl e \<Rightarrow> Inl e
               | Inr (encryption_address, next_position) \<Rightarrow>
                 (case derive_data_pointer operation st1 of
                   Inl e \<Rightarrow> Inl e
                 | Inr next_data_pointer \<Rightarrow>
                   (case get (dl_code_cells st1) encryption_address of
                     None \<Rightarrow> Err JumpPathUnsupported
                   | Some code_cell \<Rightarrow>
                     (case encrypt_profile_cell code_cell of
                       None \<Rightarrow> Err JumpPathUnsupported
                     | Some encrypted_cell \<Rightarrow>
                         if encryption_address > U32_MAX then Err TooLong
                         else
                           Ok (st1\<lparr>dl_code_cells :=
                                     (dl_code_cells st1)[encryption_address := encrypted_cell],
                                   dl_encrypted := dl_encrypted st1 @ [encryption_address],
                                   dl_position := next_position,
                                   dl_data_pointer := next_data_pointer\<rparr>, True))))))))"

text \<open>
  The loop ends. While the data pointer is inside the cells it grows; from then on neither a jump
  nor a relocation is accepted, so the position grows by one.
\<close>

lemma derive_iteration_progress:
  assumes "derive_iteration operation st = Inr (st', True)"
  shows "length (dl_code_cells st') = length (dl_code_cells st) \<and>
    (length (dl_code_cells st) - dl_data_pointer st' < length (dl_code_cells st) - dl_data_pointer st \<or>
     length (dl_code_cells st) - dl_data_pointer st' = length (dl_code_cells st) - dl_data_pointer st \<and>
     dl_position st' = Suc (dl_position st))"
  using assms
  by (auto simp: derive_iteration_def derive_successor_def derive_data_pointer_def jump_successor_def
      Let_def get_Some_iff split: if_splits sum.splits option.splits LinearOpcode.splits)

function derive_loop ::
  "LinearOpcode list \<Rightarrow> DeriveLocals \<Rightarrow> LinearLayoutError + DeriveLocals" where
  "derive_loop operations st =
    (case get operations (dl_position st) of
      None \<Rightarrow> Inr st
    | Some operation \<Rightarrow>
      (case derive_iteration operation st of
        Inl e \<Rightarrow> Inl e
      | Inr (st', continue) \<Rightarrow> if continue then derive_loop operations st' else Inr st'))"
  by pat_completeness auto
termination
proof (relation "inv_image (less_than <*lex*> less_than) (\<lambda>(operations, st).
    (length (dl_code_cells st) - dl_data_pointer st, length operations - dl_position st))",
    goal_cases)
  case 1
  show ?case by auto
next
  case (2 operations st operation r st' continue)
  then show ?case
    using derive_iteration_progress[of operation st st'] by (auto simp: get_Some_iff)
qed

declare derive_loop.simps [simp del]

definition derive_start :: "u8 list \<Rightarrow> DeriveLocals" where
  "derive_start source =
    \<lparr>dl_data = [], dl_executed = [], dl_encrypted = [], dl_writes = [],
     dl_code_cells = map unat source, dl_data_pointer = 0, dl_position = 0\<rparr>"

definition derive_execution_positions ::
  "LinearOpcode list \<Rightarrow> u8 list \<Rightarrow> LinearLayoutError + DerivedExecutionPositions" where
  "derive_execution_positions operations source =
    map_ok (\<lambda>st. \<lparr>dep_data = dl_data st, dep_encrypted = dl_encrypted st,
                  dep_executed = dl_executed st, dep_writes = dl_writes st\<rparr>)
      (derive_loop operations (derive_start source))"

subsection \<open>Admission and encoding\<close>

fun check_cells_loop ::
  "ProfileDescriptor \<Rightarrow> (usize \<times> LinearOpcode \<times> u8) list \<Rightarrow> LinearLayoutError + unit" where
  "check_cells_loop profile [] = Ok ()"
| "check_cells_loop profile ((position, operation, byte) # rest) =
    (case unique_graphical_cell profile operation position of
      Inl e \<Rightarrow> Inl e
    | Inr cell \<Rightarrow>
        if byte \<noteq> cell then Err (DecodeMismatch position) else check_cells_loop profile rest)"

definition admit_linear_layout ::
  "ProfileDescriptor \<Rightarrow> LinearOpcode list \<Rightarrow> u8 list \<Rightarrow> LinearProfileIdentity \<Rightarrow>
    LinearLayoutError + LinearLayout" where
  "admit_linear_layout profile operations source identity =
    (case validate_shape profile operations of
      Inl e \<Rightarrow> Inl e
    | Inr _ \<Rightarrow>
        if lpi_id identity \<noteq> pd_id profile \<or> lpi_fingerprint identity \<noteq> pd_fingerprint profile
        then Err ProfileMismatch
        else if length source \<noteq> length operations then Err SourceLengthMismatch
        else
          (case check_cells_loop profile (enumerate 0 (zip operations source)) of
            Inl e \<Rightarrow> Inl e
          | Inr _ \<Rightarrow>
              map_ok (\<lambda>path.
                \<lparr>ll_data_pointer_positions = dep_data path,
                 ll_data_write_positions = dep_writes path,
                 ll_encrypted_code_positions = dep_encrypted path,
                 ll_executed_code_positions = dep_executed path,
                 ll_profile_fingerprint = pd_fingerprint profile,
                 ll_profile_id = pd_id profile, ll_source = source\<rparr>)
                (derive_execution_positions operations source)))"

fun encode_cells ::
  "ProfileDescriptor \<Rightarrow> (usize \<times> LinearOpcode) list \<Rightarrow> LinearLayoutError + u8 list" where
  "encode_cells profile [] = Ok []"
| "encode_cells profile ((position, operation) # rest) =
    (case unique_graphical_cell profile operation position of
      Inl e \<Rightarrow> Inl e
    | Inr cell \<Rightarrow> map_ok (\<lambda>cells. cell # cells) (encode_cells profile rest))"

definition encode_linear_layout ::
  "ProfileDescriptor \<Rightarrow> LinearOpcode list \<Rightarrow> LinearLayoutError + LinearLayout" where
  "encode_linear_layout profile operations =
    (case validate_shape profile operations of
      Inl e \<Rightarrow> Inl e
    | Inr _ \<Rightarrow>
      (case encode_cells profile (enumerate 0 operations) of
        Inl e \<Rightarrow> Inl e
      | Inr source \<Rightarrow>
          admit_linear_layout profile operations source
            \<lparr>lpi_fingerprint = pd_fingerprint profile, lpi_id = pd_id profile\<rparr>))"

subsection \<open>Padding\<close>

text \<open>
  The builder is dropped when an operation fails, so a failure carries no builder. The mutable
  vectors are passed in and returned beside the position.
\<close>

definition push_padded_cell ::
  "ProfileDescriptor \<Rightarrow> LinearOpcode list \<Rightarrow> u32 list \<Rightarrow> LinearOpcode \<Rightarrow>
    LinearLayoutError + usize \<times> LinearOpcode list \<times> u32 list" where
  "push_padded_cell profile operations shadow operation =
    (if length operations \<ge> MAX_LINEAR_CELLS then Err TooLong
     else
       (let position = length operations
        in map_ok (\<lambda>byte. (position, operations @ [operation], shadow @ [unat byte]))
             (unique_graphical_cell profile operation position)))"

definition encrypt_padded_cell :: "u32 list \<Rightarrow> usize \<Rightarrow> LinearLayoutError + u32 list" where
  "encrypt_padded_cell shadow address =
    (case get shadow address of
      None \<Rightarrow> Err JumpPathUnsupported
    | Some cell \<Rightarrow>
        map_ok (\<lambda>encrypted. shadow[address := encrypted])
          (ok_or JumpPathUnsupported (encrypt_profile_cell cell)))"

definition padding_push ::
  "LinearOpcode \<Rightarrow> ForwardPaddingBuilder \<Rightarrow> LinearLayoutError + usize \<times> ForwardPaddingBuilder" where
  "padding_push operation self =
    map_ok (\<lambda>(position, operations, shadow).
        (position, self\<lparr>fpb_operations := operations, fpb_shadow := shadow\<rparr>))
      (push_padded_cell (fpb_profile self) (fpb_operations self) (fpb_shadow self) operation)"

definition padding_encrypt ::
  "usize \<Rightarrow> ForwardPaddingBuilder \<Rightarrow> LinearLayoutError + ForwardPaddingBuilder" where
  "padding_encrypt address self =
    map_ok (\<lambda>shadow. self\<lparr>fpb_shadow := shadow\<rparr>) (encrypt_padded_cell (fpb_shadow self) address)"

definition padding_relocate ::
  "ForwardPaddingBuilder \<Rightarrow> LinearLayoutError + ForwardPaddingBuilder" where
  "padding_relocate self =
    map_ok (\<lambda>word. self\<lparr>fpb_data_pointer := word, fpb_relocated := True\<rparr>)
      (ok_or UnsafeDataPlacement (get (fpb_shadow self) (fpb_data_pointer self)))"

definition padding_instruction ::
  "LinearOpcode \<Rightarrow> ForwardPaddingBuilder \<Rightarrow> LinearLayoutError + usize \<times> ForwardPaddingBuilder" where
  "padding_instruction operation self =
    (if (case operation of JumpForward _ \<Rightarrow> True | _ \<Rightarrow> False) then Err JumpPathUnsupported
     else if operation = RelocateDataPointer \<and> fpb_relocated self then Err UnsafeDataPlacement
     else
       (case padding_push operation self of
         Inl e \<Rightarrow> Inl e
       | Inr (position, self1) \<Rightarrow>
         (case (if operation = RelocateDataPointer then padding_relocate self1 else Inr self1) of
           Inl e \<Rightarrow> Inl e
         | Inr self2 \<Rightarrow>
             map_ok (\<lambda>self3. (position, self3))
               (if operation \<noteq> LinearHalt then padding_encrypt position self2 else Inr self2))))"

fun auto_relocate_loop ::
  "nat \<Rightarrow> usize \<Rightarrow> ForwardPaddingBuilder \<Rightarrow> LinearLayoutError + usize \<times> ForwardPaddingBuilder" where
  "auto_relocate_loop 0 remaining self = Err UnsafeDataPlacement"
| "auto_relocate_loop (Suc phases) remaining self =
    (let position = length (fpb_operations self);
         planned_length = position + 1 + remaining
     in if planned_length > MAX_LINEAR_CELLS then Err TooLong
        else
          (case (if fpb_data_pointer self = position
                 then map_ok unat
                   (unique_graphical_cell (fpb_profile self) RelocateDataPointer position)
                 else ok_or UnsafeDataPlacement (get (fpb_shadow self) (fpb_data_pointer self))) of
            Inl e \<Rightarrow> Inl e
          | Inr data_word \<Rightarrow>
              if data_word \<ge> planned_length then padding_instruction RelocateDataPointer self
              else
                (case padding_instruction LinearNoOperation self of
                  Inl e \<Rightarrow> Inl e
                | Inr (_, self1) \<Rightarrow>
                    auto_relocate_loop phases remaining
                      (self1\<lparr>fpb_data_pointer := fpb_data_pointer self1 + 1\<rparr>))))"

definition auto_relocate ::
  "usize \<Rightarrow> ForwardPaddingBuilder \<Rightarrow> LinearLayoutError + usize \<times> ForwardPaddingBuilder" where
  "auto_relocate remaining self =
    (if fpb_relocated self then Err UnsafeDataPlacement
     else auto_relocate_loop 94 remaining self)"

lemma padding_push_length:
  "padding_push operation self = Inr (position, self') \<Longrightarrow>
    length (fpb_operations self') = Suc (length (fpb_operations self))"
  by (auto simp: padding_push_def push_padded_cell_def Let_def split: if_splits)

function pad_loop ::
  "usize \<Rightarrow> ForwardPaddingBuilder \<Rightarrow> LinearLayoutError + ForwardPaddingBuilder" where
  "pad_loop target self =
    (if length (fpb_operations self) < target then
       (case padding_push LinearNoOperation self of
         Inl e \<Rightarrow> Inl e
       | Inr (_, self1) \<Rightarrow> pad_loop target self1)
     else Inr self)"
  by pat_completeness auto
termination
proof (relation "measure (\<lambda>(target, self). target - length (fpb_operations self))", goal_cases)
  case 1
  show ?case by simp
next
  case (2 target self r position self1)
  then show ?case using padding_push_length by fastforce
qed

declare pad_loop.simps [simp del]

definition padding_jump ::
  "ForwardPaddingBuilder \<Rightarrow> LinearLayoutError + usize \<times> ForwardPaddingBuilder" where
  "padding_jump self =
    (if fpb_relocated self then Err JumpPathUnsupported
     else
       (case padding_push (JumpForward 0) self of
         Inl e \<Rightarrow> Inl e
       | Inr (code_position, self1) \<Rightarrow>
         (case get (fpb_shadow self1) (fpb_data_pointer self1) of
           None \<Rightarrow> Err JumpPathUnsupported
         | Some operand \<Rightarrow>
           (let target = sat_add U32_MAX operand 1
            in if target \<le> code_position + 1 \<or> target \<ge> MAX_LINEAR_CELLS
               then Err JumpPathUnsupported
               else
                 (case get (fpb_operations self1) code_position of
                   None \<Rightarrow> Err JumpPathUnsupported
                 | Some _ \<Rightarrow>
                     if target > U32_MAX then Err TooLong
                     else
                       (case pad_loop target (self1\<lparr>fpb_operations :=
                               (fpb_operations self1)[code_position := JumpForward target]\<rparr>) of
                         Inl e \<Rightarrow> Inl e
                       | Inr self2 \<Rightarrow>
                           map_ok (\<lambda>self3. (code_position, self3))
                             (padding_encrypt (target - 1) self2)))))))"

subsection \<open>Where every cell comes from\<close>

fun logical_origins_loop ::
  "LinearLayout \<Rightarrow> (nat \<times> u32) list \<Rightarrow> PaddedCellOrigin list \<Rightarrow>
    LinearLayoutError + PaddedCellOrigin list" where
  "logical_origins_loop layout [] origins = Ok origins"
| "logical_origins_loop layout ((logical_index, code) # rest) origins =
    (case get origins code of
      None \<Rightarrow> Err JumpPathUnsupported
    | Some slot \<Rightarrow>
        if slot \<noteq> SkippedPadding \<or>
          \<not> binary_search_is_ok (ll_executed_code_positions layout) code
        then Err JumpPathUnsupported
        else if logical_index > U32_MAX then Err TooLong
        else logical_origins_loop layout rest (origins[code := LogicalCell logical_index]))"

fun executed_origins_loop ::
  "LinearOpcode list \<Rightarrow> u32 list \<Rightarrow> PaddedCellOrigin list \<Rightarrow>
    LinearLayoutError + PaddedCellOrigin list" where
  "executed_origins_loop operations [] origins = Ok origins"
| "executed_origins_loop operations (code # rest) origins =
    (case get origins code of
      None \<Rightarrow> Err JumpPathUnsupported
    | Some slot \<Rightarrow>
        if slot = SkippedPadding then
          (if get operations code \<noteq> Some LinearNoOperation then Err JumpPathUnsupported
           else executed_origins_loop operations rest (origins[code := ExecutedPadding]))
        else executed_origins_loop operations rest origins)"

definition proven_source_origins ::
  "LinearLayout \<Rightarrow> u32 list \<Rightarrow> LinearOpcode list \<Rightarrow>
    LinearLayoutError + PaddedCellOrigin list" where
  "proven_source_origins layout positions operations =
    (case logical_origins_loop layout (enumerate 0 positions)
        (replicate (length operations) SkippedPadding) of
      Inl e \<Rightarrow> Inl e
    | Inr origins \<Rightarrow>
        executed_origins_loop operations (ll_executed_code_positions layout) origins)"

definition padding_step ::
  "usize \<Rightarrow> usize \<Rightarrow> PaddedForwardStep \<Rightarrow> ForwardPaddingBuilder \<Rightarrow>
    LinearLayoutError + usize \<times> ForwardPaddingBuilder" where
  "padding_step logical_len logical_index logical_step self =
    (case logical_step of
      AutoRelocate \<Rightarrow>
        (let remaining = logical_len - (logical_index + 1) in auto_relocate remaining self)
    | StepJump \<Rightarrow> padding_jump self
    | StepInstruction operation \<Rightarrow> padding_instruction operation self)"

fun pad_steps_loop ::
  "usize \<Rightarrow> (nat \<times> PaddedForwardStep) list \<Rightarrow> ForwardPaddingBuilder \<Rightarrow>
    LinearLayoutError + ForwardPaddingBuilder" where
  "pad_steps_loop logical_len [] self = Ok self"
| "pad_steps_loop logical_len ((logical_index, logical_step) # rest) self =
    (case padding_step logical_len logical_index logical_step self of
      Inl e \<Rightarrow> Inl e
    | Inr (position, self1) \<Rightarrow>
        if position > U32_MAX then Err TooLong
        else
          pad_steps_loop logical_len rest
            (self1\<lparr>fpb_positions := fpb_positions self1 @ [position],
                   fpb_data_pointer := fpb_data_pointer self1 + 1\<rparr>))"

definition padding_builder_new :: "ProfileDescriptor \<Rightarrow> ForwardPaddingBuilder" where
  "padding_builder_new profile =
    \<lparr>fpb_data_pointer = 0, fpb_operations = [], fpb_positions = [], fpb_profile = profile,
     fpb_relocated = False, fpb_shadow = []\<rparr>"

definition encode_auto_padded_forward_layout ::
  "ProfileDescriptor \<Rightarrow> PaddedForwardStep list \<Rightarrow> LinearLayoutError + PaddedForwardLayout" where
  "encode_auto_padded_forward_layout profile logical =
    (if length logical < MIN_SOURCE_CELLS then Err TooShort
     else if length logical > MAX_LINEAR_CELLS then Err TooLong
     else
       (case pad_steps_loop (length logical) (enumerate 0 logical) (padding_builder_new profile) of
         Inl e \<Rightarrow> Inl e
       | Inr builder \<Rightarrow>
         (case encode_linear_layout profile (fpb_operations builder) of
           Inl e \<Rightarrow> Inl e
         | Inr layout \<Rightarrow>
             map_ok (\<lambda>origins.
                 \<lparr>pfl_layout = layout, pfl_logical_code_positions = fpb_positions builder,
                  pfl_operations = fpb_operations builder,
                  pfl_source_cell_origins = origins\<rparr>)
               (proven_source_origins layout (fpb_positions builder) (fpb_operations builder)))))"

end
