(* ===== verification/LayoutPath.thy ===== *)
theory LayoutPath
  imports Layout ProfileLoading
begin

text \<open>
  What the layout of \<open>malbolge-layout/composition/lib.rs\<close> means to the profile machine: every opcode
  has exactly one graphical cell at every address, and the path \<open>derive_execution_positions\<close>
  predicts is the path the loaded machine takes. \<open>tracks\<close> relates the machine before a step to the
  locals of the loop before a round; \<open>step_tracks\<close> and \<open>derive_loop_tracks\<close> are the simulation.
\<close>

subsection \<open>Cells\<close>

lemma filter_unique:
  assumes "distinct xs" and "x \<in> set xs" and "\<And>y. y \<in> set xs \<Longrightarrow> P y \<longleftrightarrow> y = x"
  shows "filter P xs = [x]"
proof -
  have "filter (\<lambda>y. y = x) xs = [x]"
    using assms(1,2) by (induction xs) (auto simp: filter_empty_conv)
  then show ?thesis using assms(3) by (simp cong: filter_cong)
qed

lemma unique_cell_loop_Some:
  "unique_cell_loop d a p bytes (Some c) =
    (if filter (\<lambda>b. decode_profile_instruction b a = Some d) bytes = [] then Inr (Some c)
     else Inl (AmbiguousEncoding p))"
  by (induction bytes) auto

lemma unique_cell_loop_None:
  "filter (\<lambda>b. decode_profile_instruction b a = Some d) bytes = [c] \<Longrightarrow>
    unique_cell_loop d a p bytes None = Inr (Some c)"
  by (induction bytes) (auto simp: unique_cell_loop_Some split: if_splits)

text \<open>Every graphical byte is the decoding of exactly one graphical cell, at every position.\<close>

lemma decode_cell_unique:
  assumes "d \<in> graphical_bytes"
  shows "\<exists>c. 33 \<le> c \<and> c \<le> 126 \<and> decode_profile_instruction c a = Some d \<and>
    (\<forall>b. 33 \<le> b \<longrightarrow> b \<le> 126 \<longrightarrow> decode_profile_instruction b a = Some d \<longrightarrow> b = c)"
proof -
  have inj: "x = y" if "x < 94" "y < 94" "XLAT1 ! ((x + a mod 94) mod 94) = XLAT1 ! ((y + a mod 94) mod 94)"
    for x y
  proof -
    have "(x + a mod 94) mod 94 = (y + a mod 94) mod 94"
      using that(3) nth_eq_iff_index_eq[OF distinct_XLAT1, of "(x + a mod 94) mod 94" "(y + a mod 94) mod 94"]
      by simp
    then show ?thesis
      using that bij_betw_imp_inj_on[OF bij_betw_shift[of "a mod 94" 94]] by (auto dest: inj_onD)
  qed
  obtain i where i: "i < 94" "XLAT1 ! i = d"
    using assms by (metis in_set_conv_nth length_XLAT1 set_XLAT(1))
  obtain x where x: "x < 94" "(x + a mod 94) mod 94 = i"
    using bij_betw_imp_surj_on[OF bij_betw_shift[of "a mod 94" 94]] i(1)
    by (metis (no_types, lifting) imageE lessThan_iff)
  show ?thesis
  proof (intro exI[of _ "x + 33"] conjI allI impI)
    show "decode_profile_instruction (x + 33) a = Some d"
      using x i by (simp add: decode_profile_instruction_def decode_profile_some)
    fix b
    assume b: "33 \<le> b" "b \<le> 126" "decode_profile_instruction b a = Some d"
    then have "XLAT1 ! ((b - 33 + a mod 94) mod 94) = XLAT1 ! ((x + a mod 94) mod 94)"
      using x i by (simp add: decode_profile_instruction_def decode_profile_some)
    then show "b = x + 33" using inj[of "b - 33" x] b x by simp
  qed (use x in simp_all)
qed

lemma linear_decoded_graphical: "wf_profile p \<Longrightarrow> linear_decoded p op \<in> graphical_bytes"
  by (cases op) (auto simp: graphical_bytes_unat NO_OP_INSTRUCTION_def HALT_INSTRUCTION_def
      wf_profile_def doubleton_eq_iff)

lemma set_scan: "set [CELL_START..<Suc CELL_END] = {c. 33 \<le> c \<and> c \<le> 126}"
  by (auto simp: CELL_START_def CELL_END_def simp del: upt_conv_Cons upt_rec_numeral)

lemma unique_graphical_cell_Inr:
  assumes "wf_profile p" and "position \<le> U32_MAX"
  shows "unique_graphical_cell p op position = Inr b \<longleftrightarrow>
    33 \<le> unat b \<and> unat b \<le> 126 \<and> decode_profile_instruction (unat b) position = Some (linear_decoded p op)"
    and "\<exists>b. unique_graphical_cell p op position = Inr b"
proof -
  obtain c where c: "33 \<le> c" "c \<le> 126" "decode_profile_instruction c position = Some (linear_decoded p op)"
    and u: "\<And>b. 33 \<le> b \<Longrightarrow> b \<le> 126 \<Longrightarrow> decode_profile_instruction b position = Some (linear_decoded p op) \<Longrightarrow> b = c"
    using decode_cell_unique[OF linear_decoded_graphical[OF assms(1)], of position op] by (elim exE conjE) (rule that; blast)
  have "filter (\<lambda>b. decode_profile_instruction b position = Some (linear_decoded p op))
      [CELL_START..<Suc CELL_END] = [c]"
  proof (rule filter_unique)
    show "c \<in> set [CELL_START..<Suc CELL_END]" unfolding set_scan using c by simp
    fix y
    assume "y \<in> set [CELL_START..<Suc CELL_END]"
    then show "(decode_profile_instruction y position = Some (linear_decoded p op)) = (y = c)"
      unfolding set_scan using u[of y] c(3) by auto
  qed simp
  then have e: "unique_graphical_cell p op position = Inr (of_nat c)"
    using assms(2) by (simp add: unique_graphical_cell_def Let_def unique_cell_loop_None)
  show "unique_graphical_cell p op position = Inr b \<longleftrightarrow>
    33 \<le> unat b \<and> unat b \<le> 126 \<and> decode_profile_instruction (unat b) position = Some (linear_decoded p op)"
  proof
    assume "unique_graphical_cell p op position = Inr b"
    then show "33 \<le> unat b \<and> unat b \<le> 126 \<and>
        decode_profile_instruction (unat b) position = Some (linear_decoded p op)"
      using e c by (auto simp: unat_of_nat)
  next
    assume "33 \<le> unat b \<and> unat b \<le> 126 \<and>
        decode_profile_instruction (unat b) position = Some (linear_decoded p op)"
    then have "unat b = c" using u by blast
    then show "unique_graphical_cell p op position = Inr b" using e by auto
  qed
  show "\<exists>b. unique_graphical_cell p op position = Inr b" using e by blast
qed

subsection \<open>Encoding and admission agree\<close>

lemma encode_cells_Inr:
  "encode_cells p (enumerate k ops) = Inr src \<longleftrightarrow>
    length src = length ops \<and>
    (\<forall>i < length ops. unique_graphical_cell p (ops ! i) (k + i) = Inr (src ! i))"
proof (induction ops arbitrary: k src)
  case Nil
  then show ?case by auto
next
  case (Cons op ops)
  show ?case
    by (cases src) (auto simp: Cons.IH All_less_Suc2 split: sum.splits)
qed

lemma check_cells_loop_Inr:
  "length src = length ops \<Longrightarrow> check_cells_loop p (enumerate k (zip ops src)) = Inr () \<longleftrightarrow>
    (\<forall>i < length ops. unique_graphical_cell p (ops ! i) (k + i) = Inr (src ! i))"
proof (induction src ops arbitrary: k rule: list_induct2)
  case Nil
  then show ?case by simp
next
  case (Cons b src op ops)
  show ?case by (auto simp: Cons.IH All_less_Suc2 split: sum.splits if_splits)
qed

lemma admit_linear_layout_Inr:
  "admit_linear_layout p ops src identity = Inr L \<longleftrightarrow>
    validate_shape p ops = Inr () \<and> lpi_id identity = pd_id p \<and>
    lpi_fingerprint identity = pd_fingerprint p \<and> length src = length ops \<and>
    (\<forall>i < length ops. unique_graphical_cell p (ops ! i) i = Inr (src ! i)) \<and>
    (\<exists>path. derive_execution_positions ops src = Inr path \<and>
      L = \<lparr>ll_data_pointer_positions = dep_data path, ll_data_write_positions = dep_writes path,
           ll_encrypted_code_positions = dep_encrypted path,
           ll_executed_code_positions = dep_executed path,
           ll_profile_fingerprint = pd_fingerprint p, ll_profile_id = pd_id p, ll_source = src\<rparr>)"
  using check_cells_loop_Inr[of src ops p 0]
  by (auto simp: admit_linear_layout_def split: sum.splits if_splits)

lemma encode_linear_layout_Inr:
  "encode_linear_layout p ops = Inr L \<longleftrightarrow>
    (\<exists>src. admit_linear_layout p ops src
      \<lparr>lpi_fingerprint = pd_fingerprint p, lpi_id = pd_id p\<rparr> = Inr L)"
proof -
  let ?own = "\<lparr>lpi_fingerprint = pd_fingerprint p, lpi_id = pd_id p\<rparr>"
  have "encode_linear_layout p ops = Inr L" if a: "admit_linear_layout p ops src ?own = Inr L" for src
  proof -
    have "encode_cells p (enumerate 0 ops) = Inr src"
      using a encode_cells_Inr[of p 0 ops src] by (simp add: admit_linear_layout_Inr)
    then show ?thesis using a by (simp add: encode_linear_layout_def admit_linear_layout_Inr)
  qed
  then show ?thesis
    by (auto simp: encode_linear_layout_def split: sum.splits)
qed

subsection \<open>Shapes\<close>

lemma iter_position_Some:
  "iter_position test xs = Some i \<longleftrightarrow> i < length xs \<and> test (xs ! i) \<and> (\<forall>j < i. \<not> test (xs ! j))"
proof (induction xs arbitrary: i)
  case Nil
  then show ?case by simp
next
  case (Cons x xs)
  show ?case
    by (cases i) (auto simp: Cons.IH All_less_Suc2)
qed

lemma iter_position_None: "iter_position test xs = None \<longleftrightarrow> (\<forall>x \<in> set xs. \<not> test x)"
  by (induction xs) auto

lemma validate_jump_loop_Inr:
  "validate_jump_loop ops relocation (enumerate k rest) = Inr () \<longleftrightarrow>
    (\<forall>i < length rest. \<forall>t. rest ! i = JumpForward t \<longrightarrow>
      (\<forall>r. relocation = Some r \<longrightarrow> k + i \<le> r) \<and> k + i < t \<and> t < length ops \<and>
      (\<forall>a. k + i < a \<longrightarrow> a < t \<longrightarrow> ops ! a = LinearNoOperation))"
proof (induction rest arbitrary: k)
  case Nil
  then show ?case by simp
next
  case (Cons op rest)
  have skip: "list_ex (\<lambda>s. s \<noteq> LinearNoOperation) (take (t - Suc k) (drop (Suc k) ops)) \<longleftrightarrow>
      \<not> (\<forall>a. k < a \<longrightarrow> a < t \<longrightarrow> ops ! a = LinearNoOperation)" if "t < length ops" for t
  proof -
    have "list_ex (\<lambda>s. s \<noteq> LinearNoOperation) (take (t - Suc k) (drop (Suc k) ops)) \<longleftrightarrow>
        (\<exists>j < t - Suc k. ops ! (Suc k + j) \<noteq> LinearNoOperation)"
      using that by (auto simp: list_ex_length)
    also have "\<dots> \<longleftrightarrow> \<not> (\<forall>a. k < a \<longrightarrow> a < t \<longrightarrow> ops ! a = LinearNoOperation)"
    proof -
      have "ops ! a = LinearNoOperation"
        if "\<forall>j < t - Suc k. ops ! (Suc k + j) = LinearNoOperation" "k < a" "a < t" for a
        using that(1)[rule_format, of "a - Suc k"] that(2,3) by simp
      moreover have "\<exists>a. k < a \<and> a < t \<and> ops ! a \<noteq> LinearNoOperation"
        if "j < t - Suc k" "ops ! (Suc k + j) \<noteq> LinearNoOperation" for j
        using that by (intro exI[of _ "Suc k + j"]) auto
      ultimately show ?thesis by blast
    qed
    finally show ?thesis .
  qed
  show ?case
  proof (cases op)
    case (JumpForward t)
    then show ?thesis
      using skip[of t] by (auto simp: Cons.IH All_less_Suc2 Let_def split: option.splits)
  qed (auto simp: Cons.IH All_less_Suc2)
qed


definition forward_shape :: "LinearOpcode list \<Rightarrow> bool" where
  "forward_shape ops \<longleftrightarrow>
    (\<forall>i < length ops. ops ! i = LinearHalt \<longleftrightarrow> Suc i = length ops) \<and>
    (\<forall>i < length ops. \<forall>t. ops ! i = JumpForward t \<longrightarrow> i < t \<and> t < length ops \<and>
      (\<forall>a. i < a \<longrightarrow> a < t \<longrightarrow> ops ! a = LinearNoOperation))"

lemma validate_shape_Inr:
  assumes "validate_shape p ops = Inr ()"
  shows "2 \<le> length ops" "length ops \<le> 4096" "length ops \<le> pd_memory_words p" "forward_shape ops"
proof -
  note v = assms[unfolded validate_shape_def Let_def MIN_SOURCE_CELLS_def MAX_LINEAR_CELLS_def]
  show b: "2 \<le> length ops" "length ops \<le> 4096" "length ops \<le> pd_memory_words p"
    using v by (auto split: if_splits)
  have last: "last ops = LinearHalt" "ops \<noteq> []"
    using v by (auto simp: slice_last_def split: if_splits)
  have none: "iter_position (\<lambda>op. op = LinearHalt) (take (length ops - 1) ops) = None"
    using v by (auto split: if_splits option.splits)
  have j: "validate_jump_shape ops = Inr ()"
    using v by (auto split: if_splits option.splits)
  have "ops ! i = LinearHalt \<longleftrightarrow> Suc i = length ops" if i: "i < length ops" for i
  proof (cases "Suc i = length ops")
    case True
    then have "i = length ops - 1" by simp
    then show ?thesis using last True by (simp add: last_conv_nth)
  next
    case False
    then have "ops ! i \<in> set (take (length ops - 1) ops)"
      using i by (auto simp: in_set_conv_nth intro!: exI[of _ i])
    then show ?thesis using none False by (auto simp: iter_position_None)
  qed
  moreover have "\<forall>i < length ops. \<forall>t. ops ! i = JumpForward t \<longrightarrow> i < t \<and> t < length ops \<and>
      (\<forall>a. i < a \<longrightarrow> a < t \<longrightarrow> ops ! a = LinearNoOperation)"
    using j validate_jump_loop_Inr[of ops _ 0 ops] unfolding validate_jump_shape_def Let_def
    by (metis (no_types, lifting) add_0)
  ultimately show "forward_shape ops" unfolding forward_shape_def by blast
qed

subsection \<open>The derived path is the machine's\<close>

fun linear_instruction :: "LinearOpcode \<Rightarrow> ProfileInstruction" where
  "linear_instruction CrazyData = PCrazy"
| "linear_instruction LinearHalt = PHalt"
| "linear_instruction InputWord = PInput"
| "linear_instruction (JumpForward _) = PJumpCode"
| "linear_instruction LinearNoOperation = PNoOperation"
| "linear_instruction OutputByte = POutput"
| "linear_instruction RelocateDataPointer = PJumpData"
| "linear_instruction RotateData = PRotate"

lemma instruction_of_linear:
  assumes "wf_profile p"
  shows "profile_instruction_for p (linear_decoded p op) = linear_instruction op"
proof -
  have "(pd_input_instruction p = 47 \<and> pd_output_instruction p = 60) \<or>
      (pd_input_instruction p = 60 \<and> pd_output_instruction p = 47)"
    using assms by (auto simp: wf_profile_def doubleton_eq_iff)
  then show ?thesis
    by (cases op) (auto simp: profile_instruction_for_def profile_instruction_def
        NO_OP_INSTRUCTION_def HALT_INSTRUCTION_def)
qed

definition tracks ::
  "ProfileDescriptor \<Rightarrow> LinearOpcode list \<Rightarrow> ProfileMachine \<Rightarrow> DeriveLocals \<Rightarrow> bool" where
  "tracks p ops m st \<longleftrightarrow>
    wf_pmachine m \<and> pm_termination m = None \<and> pm_geometry m = canonical p \<and>
    dl_code_cells st = take (length ops) (pm_memory m) \<and> length ops \<le> 4096 \<and>
    preg_code_pointer (pm_registers m) = dl_position st \<and>
    preg_data_pointer (pm_registers m) = dl_data_pointer st \<and>
    dl_position st < length ops \<and> dl_data_pointer st \<le> 127 + dl_position st \<and>
    (\<forall>a < length ops. profile_cell_is_graphical (pm_memory m ! a)) \<and>
    (\<forall>a. dl_position st \<le> a \<longrightarrow> a < length ops \<longrightarrow>
      decode_profile_instruction (pm_memory m ! a) a = Some (linear_decoded p (ops ! a)))"

lemma tracksD:
  assumes "tracks p ops m st"
  shows "wf_pmachine m" "pm_termination m = None" "pm_geometry m = canonical p" "pm_profile m = p"
    "dl_code_cells st = take (length ops) (pm_memory m)" "length ops \<le> 4096"
    "preg_code_pointer (pm_registers m) = dl_position st"
    "preg_data_pointer (pm_registers m) = dl_data_pointer st"
    "dl_position st < length ops" "dl_data_pointer st \<le> 127 + dl_position st"
    "a < length ops \<Longrightarrow> profile_cell_is_graphical (pm_memory m ! a)"
    "dl_position st \<le> a \<Longrightarrow> a < length ops \<Longrightarrow>
      decode_profile_instruction (pm_memory m ! a) a = Some (linear_decoded p (ops ! a))"
    "59049 \<le> pd_memory_words p" "length (pm_memory m) = pd_memory_words p" "wf_profile p"
proof -
  show "wf_pmachine m" "pm_termination m = None" "pm_geometry m = canonical p"
    "dl_code_cells st = take (length ops) (pm_memory m)" "length ops \<le> 4096"
    "preg_code_pointer (pm_registers m) = dl_position st"
    "preg_data_pointer (pm_registers m) = dl_data_pointer st"
    "dl_position st < length ops" "dl_data_pointer st \<le> 127 + dl_position st"
    "a < length ops \<Longrightarrow> profile_cell_is_graphical (pm_memory m ! a)"
    "dl_position st \<le> a \<Longrightarrow> a < length ops \<Longrightarrow>
      decode_profile_instruction (pm_memory m ! a) a = Some (linear_decoded p (ops ! a))"
    using assms by (auto simp: tracks_def)
  have wf: "wf_pmachine m" and g: "pm_geometry m = canonical p"
    using assms by (auto simp: tracks_def)
  show "pm_profile m = p" using wf_pmachineD(7)[OF wf] g by (simp add: canonical_def)
  show l: "length (pm_memory m) = pd_memory_words p"
    using wf_pmachineD(2)[OF wf] g by (simp add: canonical_def)
  show p: "wf_profile p"
    using wf_pmachineD(1)[OF wf] g by (simp add: wf_geometry_def canonical_def)
  show "59049 \<le> pd_memory_words p"
    using p power_increasing[of 10 "pd_word_trits p" "3::nat"] by (simp add: wf_profile_def)
qed

lemma tracks_decoded:
  assumes "tracks p ops m st"
  shows "profile_cell_is_graphical (pm_memory m ! preg_code_pointer (pm_registers m))"
    "pdecoded m = linear_instruction (ops ! dl_position st)"
proof -
  note t = tracksD[OF assms]
  show g: "profile_cell_is_graphical (pm_memory m ! preg_code_pointer (pm_registers m))"
    using t(7,9) t(11)[of "dl_position st"] by simp
  have "decode_profile_instruction (pm_memory m ! dl_position st) (dl_position st) =
      Some (linear_decoded p (ops ! dl_position st))"
    using t(12)[of "dl_position st"] t(9) by simp
  then have "XLAT1 ! ((pm_memory m ! dl_position st - 33 + dl_position st mod 94) mod 94) =
      linear_decoded p (ops ! dl_position st)"
    using g t(7) by (simp add: decode_profile_instruction_def decode_profile_some
        profile_cell_is_graphical_def)
  then show "pdecoded m = linear_instruction (ops ! dl_position st)"
    using instruction_of_linear[OF t(15)] t(4,7) by (simp add: pdecoded_def)
qed

lemma tracks_halt:
  assumes "tracks p ops m st" and "ops ! dl_position st = LinearHalt"
  shows "pstep m = (Inr (Terminated HaltInstruction), m\<lparr>pm_termination := Some HaltInstruction\<rparr>)"
  using pstep_wf[OF tracksD(1,2)[OF assms(1)]] tracks_decoded[OF assms(1)] assms(2) by simp


text \<open>What one round that does not halt plans, and that the machine's plan is the same.\<close>

lemma derive_iteration_True:
  assumes "derive_iteration op st = Inr (st', True)"
  obtains enc nxt nd w c where "planned_data_write op (dl_data_pointer st) (length (dl_code_cells st)) = Inr w"
    "op \<noteq> LinearHalt" "derive_successor op st = Inr (enc, nxt)" "derive_data_pointer op st = Inr nd"
    "enc < length (dl_code_cells st)" "encrypt_profile_cell (dl_code_cells st ! enc) = Some c"
    "st' = st\<lparr>dl_executed := dl_executed st @ [dl_position st], dl_data := dl_data st @ [dl_data_pointer st],
      dl_writes := dl_writes st @ [w], dl_code_cells := (dl_code_cells st)[enc := c],
      dl_encrypted := dl_encrypted st @ [enc], dl_position := nxt, dl_data_pointer := nd\<rparr>"
proof -
  have s: "derive_successor op (st\<lparr>dl_executed := x, dl_data := y, dl_writes := z\<rparr>) = derive_successor op st"
    "derive_data_pointer op (st\<lparr>dl_executed := x, dl_data := y, dl_writes := z\<rparr>) = derive_data_pointer op st"
    for x y z
    unfolding derive_successor_def derive_data_pointer_def
    by (simp split: LinearOpcode.split, simp split: option.split)
  note it = assms[unfolded derive_iteration_def Let_def s]
  obtain w where w: "planned_data_write op (dl_data_pointer st) (length (dl_code_cells st)) = Inr w"
    using it by (cases "planned_data_write op (dl_data_pointer st) (length (dl_code_cells st))")
      (simp_all split: if_splits)
  have h: "op \<noteq> LinearHalt" using it w by (auto split: if_splits)
  obtain enc nxt where n: "derive_successor op st = Inr (enc, nxt)"
    using it w h by (cases "derive_successor op st") (auto split: if_splits)
  obtain nd where d: "derive_data_pointer op st = Inr nd"
    using it w h n by (cases "derive_data_pointer op st") (auto split: if_splits)
  have e: "enc < length (dl_code_cells st)"
    using it w h n d by (cases "get (dl_code_cells st) enc") (auto simp: get_Some_iff split: if_splits)
  obtain c where c: "encrypt_profile_cell (dl_code_cells st ! enc) = Some c"
    using it w h n d e by (cases "encrypt_profile_cell (dl_code_cells st ! enc)") (auto split: if_splits)
  show ?thesis
    by (rule that[OF w h n d e c]) (use it w h n d e c in \<open>simp split: if_splits\<close>)
qed

lemma tracks_plan:
  assumes t: "tracks p ops m st" and op: "op = ops ! dl_position st"
    and w: "planned_data_write op (dl_data_pointer st) (length (dl_code_cells st)) = Inr w"
    and h: "op \<noteq> LinearHalt" and s: "derive_successor op st = Inr (enc, nxt)"
    and d: "derive_data_pointer op st = Inr nd"
  shows "preg_code_pointer (pp_registers (pplanned m (linear_instruction op))) = enc \<and> Suc enc = nxt \<and>
    Suc (preg_data_pointer (pp_registers (pplanned m (linear_instruction op)))) = nd \<and>
    (nd \<le> Suc (dl_data_pointer st) \<or> nd \<le> 127) \<and> (\<exists>v. pp_memory_write (pplanned m (linear_instruction op)) =
      map_option (\<lambda>a. (a, v)) w) \<and> (w \<noteq> None \<longrightarrow> w = Some (dl_data_pointer st) \<and>
      length ops \<le> dl_data_pointer st)"
proof -
  note td = tracksD[OF t]
  have len: "length (dl_code_cells st) = length ops" using td(5,6,13,14) by simp
  have cell: "dl_code_cells st ! a = pm_memory m ! a" if "a < length ops" for a
    using td(5) that by simp
  have le: "pm_memory m ! a \<le> 126" if "a < length ops" for a
    using td(11)[OF that] by (simp add: profile_cell_is_graphical_def)
  have plan: "pp_registers (pplan_init m) = pm_registers m" "pp_memory_write (pplan_init m) = None"
    by (simp_all add: pplan_init_def)
  show ?thesis
  proof (cases op)
    case (JumpForward t)
    then show ?thesis
      using w s d td(7,8) len cell le[of "dl_data_pointer st"]
      by (auto simp: planned_data_write_def derive_successor_def derive_data_pointer_def
          jump_successor_def get_Some_iff pplanned_def Let_def plan U32_MAX_def sat_add_def
          split: option.splits if_splits)
  next
    case RelocateDataPointer
    then show ?thesis
      using w s d td(7,8) len cell le[of "dl_data_pointer st"]
      by (auto simp: planned_data_write_def derive_successor_def derive_data_pointer_def
          get_Some_iff pplanned_def Let_def plan split: option.splits if_splits)
  qed (use w h s d td(7,8) len in \<open>auto simp: planned_data_write_def derive_successor_def
      derive_data_pointer_def pplanned_def Let_def plan pplan_input_def split: option.splits if_splits\<close>)
qed


lemma encrypt_cell_Some:
  "profile_cell_is_graphical c \<Longrightarrow> encrypt_profile_cell c = Some e \<longleftrightarrow> e = unat (XLAT2 ! (c - 33))"
  by (auto simp: encrypt_profile_cell_def encrypt_profile_some profile_cell_is_graphical_def)

lemma encrypted_graphical:
  "profile_cell_is_graphical c \<Longrightarrow> profile_cell_is_graphical (unat (XLAT2 ! (c - 33)))"
  using XLAT2_nth_graphical[of "c - 33"] by (auto simp: profile_cell_is_graphical_def)

text \<open>The next position of a round is inside the code, and the cells after it are as encoded.\<close>

lemma derive_successor_forward:
  assumes "forward_shape ops" and "dl_position st < length ops" and "op = ops ! dl_position st"
    and "op \<noteq> LinearHalt" and "derive_successor op st = Inr (enc, nxt)"
  shows "dl_position st < nxt \<and> nxt < length ops \<and> Suc enc = nxt"
proof -
  have jump: "dl_position st < t \<and> t < length ops" if "op = JumpForward t" for t
    using assms(1,2,3) that unfolding forward_shape_def by metis
  have "Suc (dl_position st) \<noteq> length ops"
    using assms(1-4) unfolding forward_shape_def by metis
  then have inside: "Suc (dl_position st) < length ops" using assms(2) by linarith
  show ?thesis
  proof (cases op)
    case (JumpForward t)
    then show ?thesis
      using assms(5) jump by (auto simp: derive_successor_def jump_successor_def split: option.splits if_splits)
  qed (use assms(4,5) inside in \<open>auto simp: derive_successor_def\<close>)
qed

lemma step_tracks:
  assumes t: "tracks p ops m st" and fs: "forward_shape ops"
    and it: "derive_iteration (ops ! dl_position st) st = Inr (st', True)"
  shows "pstep m = (Inr Continued, snd (pstep m)) \<and> tracks p ops (snd (pstep m)) st' \<and>
    dl_executed st' = dl_executed st @ [preg_code_pointer (pm_registers m)] \<and>
    dl_data st' = dl_data st @ [preg_data_pointer (pm_registers m)] \<and>
    (\<exists>w e. dl_writes st' = dl_writes st @ [w] \<and> dl_encrypted st' = dl_encrypted st @ [e] \<and>
      (\<forall>a. a \<noteq> e \<longrightarrow> Some a \<noteq> w \<longrightarrow> pm_memory (snd (pstep m)) ! a = pm_memory m ! a))"
proof -
  define op where "op = ops ! dl_position st"
  define q where "q = pplanned m (linear_instruction op)"
  note td = tracksD[OF t]
  obtain enc nxt nd w c where w: "planned_data_write op (dl_data_pointer st) (length (dl_code_cells st)) = Inr w"
    and h: "op \<noteq> LinearHalt" and s: "derive_successor op st = Inr (enc, nxt)"
    and d: "derive_data_pointer op st = Inr nd" and e: "enc < length (dl_code_cells st)"
    and c: "encrypt_profile_cell (dl_code_cells st ! enc) = Some c"
    and st': "st' = st\<lparr>dl_executed := dl_executed st @ [dl_position st], dl_data := dl_data st @ [dl_data_pointer st],
      dl_writes := dl_writes st @ [w], dl_code_cells := (dl_code_cells st)[enc := c],
      dl_encrypted := dl_encrypted st @ [enc], dl_position := nxt, dl_data_pointer := nd\<rparr>"
    using it[folded op_def] by (rule derive_iteration_True)
  have len: "length (dl_code_cells st) = length ops" using td(5,6,13,14) by simp
  note pl = tracks_plan[OF t op_def w h s d]
  obtain v where v: "pp_memory_write q = map_option (\<lambda>a. (a, v)) w" using pl by (auto simp: q_def)
  have far: "w = Some a \<Longrightarrow> length ops \<le> a" for a using pl by auto
  have regs: "preg_code_pointer (pp_registers q) = enc" "Suc enc = nxt" "Suc (preg_data_pointer (pp_registers q)) = nd"
    using pl by (auto simp: q_def)
  have fwd: "dl_position st < nxt" "nxt < length ops"
    using derive_successor_forward[OF fs td(9) op_def h s] by simp_all
  have mem: "pplanned_memory m q ! a = pm_memory m ! a" if "a < length ops \<or> Some a \<noteq> w" for a
    using that far v by (cases w) (auto simp: pplanned_memory_def nth_list_update)
  have plen: "length (pplanned_memory m q) = length (pm_memory m)"
    by (cases w) (auto simp: pplanned_memory_def v)
  have enc: "enc < length ops" using e len by simp
  have cell: "pencryption_cell m q = pm_memory m ! enc" "profile_cell_is_graphical (pm_memory m ! enc)"
    using mem[of enc] enc regs(1) td(11) by (simp_all add: pencryption_cell_def)
  have ceq: "c = unat (XLAT2 ! (pm_memory m ! enc - 33))"
    using c cell(2) enc td(5) by (simp add: encrypt_cell_Some)
  have hq: "linear_instruction op \<noteq> PHalt" using h by (cases op) simp_all
  have step: "pstep m = (Inr Continued, pcommitted m q c)"
    using pstep_wf[OF td(1,2)] tracks_decoded[OF t] hq cell ceq
    by (simp add: op_def[symmetric] q_def[symmetric] Let_def)
  have g: "geo_word_modulus (pm_geometry m) = pd_memory_words p" "pd_memory_words p \<le> U32_MAX"
    using td(3) wf_profile_runs[OF td(15)]
    by (simp_all add: canonical_def geo_word_modulus_def U32_MAX_def)
  have nd: "nd \<le> 127 + nxt" using pl td(10) fwd(1) by auto
  have succs: "successor enc (pd_memory_words p) = nxt"
      "successor (preg_data_pointer (pp_registers q)) (pd_memory_words p) = nd"
    using regs fwd nd td(6,13) g(2) by (simp_all add: successor_mod)
  have mem': "pm_memory (pcommitted m q c) ! a = (if a = enc then c else pplanned_memory m q ! a)" for a
    using enc td(6,13,14) plen by (simp add: pcommitted_def regs nth_list_update)
  have "tracks p ops (pcommitted m q c) st'"
    unfolding tracks_def
  proof (intro conjI allI impI)
    show "wf_pmachine (pcommitted m q c)" using pstep_preserves_wf[OF td(1) step] .
    show "pm_termination (pcommitted m q c) = None" "pm_geometry (pcommitted m q c) = canonical p"
      using td(2,3) by (simp_all add: pcommitted_def)
    show "dl_code_cells st' = take (length ops) (pm_memory (pcommitted m q c))"
    proof (rule nth_equalityI)
      show "length (dl_code_cells st') = length (take (length ops) (pm_memory (pcommitted m q c)))"
        using td(6,13,14) plen by (simp add: st' len pcommitted_def)
      fix i
      assume "i < length (dl_code_cells st')"
      then have i: "i < length ops" by (simp add: st' len)
      have "dl_code_cells st ! i = pm_memory m ! i" using td(5) i by simp
      then show "dl_code_cells st' ! i = take (length ops) (pm_memory (pcommitted m q c)) ! i"
        using mem'[of i] mem[of i] i len by (simp add: st' nth_list_update)
    qed
    show "preg_code_pointer (pm_registers (pcommitted m q c)) = dl_position st'"
      "preg_data_pointer (pm_registers (pcommitted m q c)) = dl_data_pointer st'"
      using succs by (simp_all add: pcommitted_def st' regs(1) g)
    show "dl_position st' < length ops" "dl_data_pointer st' \<le> 127 + dl_position st'"
      using fwd nd by (simp_all add: st')
    fix a
    assume a: "a < length ops"
    show "profile_cell_is_graphical (pm_memory (pcommitted m q c) ! a)"
      using mem'[of a] mem[of a] a td(11)[OF a] cell(2) ceq encrypted_graphical by simp
    assume "dl_position st' \<le> a"
    then show "decode_profile_instruction (pm_memory (pcommitted m q c) ! a) a = Some (linear_decoded p (ops ! a))"
      using mem'[of a] mem[of a] a fwd regs(2) td(12)[of a] by (simp add: st')
  qed (use td(6) in simp)
  moreover have "pm_memory (pcommitted m q c) ! a = pm_memory m ! a" if "a \<noteq> enc" "Some a \<noteq> w" for a
    using mem'[of a] mem[of a] that by simp
  ultimately show ?thesis
    using td(7,8) by (auto simp: step st')
qed


lemma derive_iteration_False:
  assumes "derive_iteration op st = Inr (st', False)"
  shows "op = LinearHalt" "dl_executed st' = dl_executed st @ [dl_position st]"
    "dl_data st' = dl_data st @ [dl_data_pointer st]" "dl_writes st' = dl_writes st @ [None]"
    "dl_encrypted st' = dl_encrypted st"
proof -
  show h: "op = LinearHalt"
    using assms by (auto simp: derive_iteration_def Let_def split: if_splits sum.splits option.splits prod.splits)
  have "st' = st\<lparr>dl_executed := dl_executed st @ [dl_position st],
      dl_data := dl_data st @ [dl_data_pointer st], dl_writes := dl_writes st @ [None]\<rparr>"
    using assms h by (auto simp: derive_iteration_def planned_data_write_def Let_def split: if_splits)
  then show "dl_executed st' = dl_executed st @ [dl_position st]"
    "dl_data st' = dl_data st @ [dl_data_pointer st]" "dl_writes st' = dl_writes st @ [None]"
    "dl_encrypted st' = dl_encrypted st"
    by simp_all
qed

text \<open>The machine after \<open>i\<close> steps, and that it takes the positions of a plan.\<close>

definition after_steps :: "nat \<Rightarrow> ProfileMachine \<Rightarrow> ProfileMachine" where
  "after_steps i m = ((\<lambda>s. snd (pstep s)) ^^ i) m"

lemma after_steps_simps [simp]:
  "after_steps 0 m = m" "after_steps (Suc i) m = after_steps i (snd (pstep m))"
  using funpow_swap1[of "\<lambda>s. snd (pstep s)" i m] by (simp_all add: after_steps_def)

lemma map_upt_Suc0: "map f [0..<Suc n] = f 0 # map (\<lambda>i. f (Suc i)) [0..<n]"
  by (induction n) auto

lemma derive_loop_tracks:
  "derive_loop ops st = Inr st' \<Longrightarrow> tracks p ops m st \<Longrightarrow> forward_shape ops \<Longrightarrow>
    \<exists>n ws es. dl_executed st' = dl_executed st @
        map (\<lambda>i. preg_code_pointer (pm_registers (after_steps i m))) [0..<Suc n] \<and>
      dl_data st' = dl_data st @
        map (\<lambda>i. preg_data_pointer (pm_registers (after_steps i m))) [0..<Suc n] \<and>
      dl_writes st' = dl_writes st @ ws \<and> dl_encrypted st' = dl_encrypted st @ es \<and>
      length ws = Suc n \<and> length es = n \<and>
      (\<forall>i < n. \<forall>a. a \<noteq> es ! i \<longrightarrow> Some a \<noteq> ws ! i \<longrightarrow>
        pm_memory (after_steps (Suc i) m) ! a = pm_memory (after_steps i m) ! a) \<and>
      continues pstep n m (after_steps n m) \<and>
      pstep (after_steps n m) = (Inr (Terminated HaltInstruction), snd (pstep (after_steps n m))) \<and>
      (\<forall>i \<le> n. \<exists>st. tracks p ops (after_steps i m) st)"
proof (induction ops st arbitrary: m rule: derive_loop.induct)
  case (1 ops st)
  note t = tracksD[OF "1.prems"(2)]
  have op: "get ops (dl_position st) = Some (ops ! dl_position st)" using t(9) by simp
  have l: "(case derive_iteration (ops ! dl_position st) st of
        Inl e \<Rightarrow> Inl e
      | Inr (st', continue) \<Rightarrow> if continue then derive_loop ops st' else Inr st') = Inr st'"
    using "1.prems"(1) op by (subst (asm) derive_loop.simps) simp
  then obtain st1 continue where it: "derive_iteration (ops ! dl_position st) st = Inr (st1, continue)"
    by (cases "derive_iteration (ops ! dl_position st) st") auto
  show ?case
  proof (cases continue)
    case False
    then have s: "st' = st1" "derive_iteration (ops ! dl_position st) st = Inr (st1, False)"
      using l it by simp_all
    note f = derive_iteration_False[OF s(2)]
    show ?thesis
      using f s(1) t(7,8) tracks_halt[OF "1.prems"(2) f(1)] "1.prems"(2)
      by (intro exI[of _ 0] exI[of _ "[None]"] exI[of _ "[]"]) auto
  next
    case True
    then have l1: "derive_loop ops st1 = Inr st'"
      and i1: "derive_iteration (ops ! dl_position st) st = Inr (st1, True)"
      using l it by simp_all
    let ?m = "snd (pstep m)"
    obtain w e where s: "pstep m = (Inr Continued, ?m)" "tracks p ops ?m st1"
      "dl_executed st1 = dl_executed st @ [preg_code_pointer (pm_registers m)]"
      "dl_data st1 = dl_data st @ [preg_data_pointer (pm_registers m)]"
      "dl_writes st1 = dl_writes st @ [w]" "dl_encrypted st1 = dl_encrypted st @ [e]"
      "\<And>a. a \<noteq> e \<Longrightarrow> Some a \<noteq> w \<Longrightarrow> pm_memory ?m ! a = pm_memory m ! a"
      using step_tracks[OF "1.prems"(2,3) i1] by blast
    obtain n ws es where n: "dl_executed st' = dl_executed st1 @
        map (\<lambda>i. preg_code_pointer (pm_registers (after_steps i ?m))) [0..<Suc n]"
      "dl_data st' = dl_data st1 @
        map (\<lambda>i. preg_data_pointer (pm_registers (after_steps i ?m))) [0..<Suc n]"
      "dl_writes st' = dl_writes st1 @ ws" "dl_encrypted st' = dl_encrypted st1 @ es"
      "length ws = Suc n" "length es = n"
      "\<And>i a. i < n \<Longrightarrow> a \<noteq> es ! i \<Longrightarrow> Some a \<noteq> ws ! i \<Longrightarrow>
        pm_memory (after_steps (Suc i) ?m) ! a = pm_memory (after_steps i ?m) ! a"
      "continues pstep n ?m (after_steps n ?m)"
      "pstep (after_steps n ?m) = (Inr (Terminated HaltInstruction), snd (pstep (after_steps n ?m)))"
      "\<And>i. i \<le> n \<Longrightarrow> \<exists>st. tracks p ops (after_steps i ?m) st"
      using "1.IH"[OF op i1 refl TrueI l1 s(2) "1.prems"(3)] by blast
    show ?thesis
    proof (intro exI[of _ "Suc n"] exI[of _ "w # ws"] exI[of _ "e # es"] conjI)
      show "dl_executed st' = dl_executed st @
          map (\<lambda>i. preg_code_pointer (pm_registers (after_steps i m))) [0..<Suc (Suc n)]"
        using n(1) s(3) by (simp only: map_upt_Suc0[of _ "Suc n"] after_steps_simps) simp
      show "dl_data st' = dl_data st @
          map (\<lambda>i. preg_data_pointer (pm_registers (after_steps i m))) [0..<Suc (Suc n)]"
        using n(2) s(4) by (simp only: map_upt_Suc0[of _ "Suc n"] after_steps_simps) simp
      show "dl_writes st' = dl_writes st @ w # ws" "dl_encrypted st' = dl_encrypted st @ e # es"
        "length (w # ws) = Suc (Suc n)" "length (e # es) = Suc n"
        using n(3-6) s(5,6) by simp_all
      show "\<forall>i < Suc n. \<forall>a. a \<noteq> (e # es) ! i \<longrightarrow> Some a \<noteq> (w # ws) ! i \<longrightarrow>
          pm_memory (after_steps (Suc i) m) ! a = pm_memory (after_steps i m) ! a"
        using n(7) s(7) by (simp add: All_less_Suc2)
      show "continues pstep (Suc n) m (after_steps (Suc n) m)"
        using n(8) s(1) by (auto simp: continues_Suc_iff)
      show "pstep (after_steps (Suc n) m) =
          (Inr (Terminated HaltInstruction), snd (pstep (after_steps (Suc n) m)))"
        using n(9) by simp
      show "\<forall>i \<le> Suc n. \<exists>st. tracks p ops (after_steps i m) st"
      proof (intro allI impI)
        fix i
        assume "i \<le> Suc n"
        then show "\<exists>st. tracks p ops (after_steps i m) st"
          using n(10) "1.prems"(2) by (cases i) auto
      qed
    qed
  qed
qed

lemma loaded_tracks:
  assumes wf: "wf_profile p" and a: "admit_linear_layout p ops src identity = Inr L"
    and res: "reserve (pd_memory_words p - length src)"
  shows "\<exists>m. pfrom_source reserve p src input = Inr m \<and> tracks p ops m (derive_start src)"
proof -
  note ad = a[unfolded admit_linear_layout_Inr]
  have sh: "validate_shape p ops = Inr ()" and len: "length src = length ops"
    and cells: "\<And>i. i < length ops \<Longrightarrow> unique_graphical_cell p (ops ! i) i = Inr (src ! i)"
    using ad by auto
  note v = validate_shape_Inr[OF sh]
  have cell: "33 \<le> unat (src ! i) \<and> unat (src ! i) \<le> 126 \<and>
      decode_profile_instruction (unat (src ! i)) i = Some (linear_decoded p (ops ! i))"
    if "i < length ops" for i
    using cells[OF that] unique_graphical_cell_Inr(1)[OF wf, of i "ops ! i" "src ! i"] that v(2)
    by (simp add: U32_MAX_def)
  have nows: "\<not> is_source_whitespace b" if "b \<in> set src" for b
  proof -
    have "33 \<le> unat b" using that cell len by (auto simp: in_set_conv_nth)
    then show ?thesis by (auto simp: is_source_whitespace_def)
  qed
  then have sb: "source_bytes src = src" by (auto simp: source_bytes_def filter_id_conv)
  have ops_load: "linear_decoded p op \<in> {42, 47, 60, 105, 106, 111, 112, 118}" for op
    using wf by (cases op) (auto simp: NO_OP_INSTRUCTION_def HALT_INSTRUCTION_def wf_profile_def doubleton_eq_iff)
  have adm: "admissible (pd_memory_words p) src"
    unfolding admissible_def sb
  proof (intro conjI ballI allI impI)
    fix b
    assume "b \<in> set src"
    then obtain i where "i < length ops" "b = src ! i" using len by (auto simp: in_set_conv_nth)
    then show "33 \<le> b" "b \<le> 126" using cell[of i] by (simp_all add: word_le_nat_alt)
  next
    fix i
    assume "i < length src"
    then show "loads_at i (src ! i)"
      using cell[of i] len ops_load[of "ops ! i"] by (auto simp: loads_at_iff[symmetric] loads_at_width_def)
  qed (use v len in simp_all)
  have g: "wf_geometry (canonical p)" "geo_memory_words (canonical p) = pd_memory_words p"
    using canonical_wf[OF wf] by (simp_all add: canonical_def)
  obtain img where img: "load_profile reserve (canonical p) src = Inr img"
    "length img = pd_memory_words p" "take (length src) img = map unat src"
    using load_profile_image[where reserve = reserve, OF g(1), of src] adm res g(2) sb by metis
  have req: "preflight_profile p (source_word_requirement src) SAFE_RUST_PROFILED = Inr ()"
    using source_word_requirement_length[of src] v(2,3) len sb
    by (simp add: preflight_profile_profiled[OF wf] U64_MAX_def)
  define m where "m = \<lparr>pm_geometry = canonical p, pm_input = input, pm_input_cursor = 0,
      pm_memory = img, pm_output = [], pm_profile = p, pm_registers = profile_registers_default,
      pm_termination = None\<rparr>"
  have l: "pfrom_source reserve p src input = Inr m"
    by (simp add: pfrom_source_def req img(1) m_def)
  have mem: "pm_memory m ! a = unat (src ! a)" if "a < length src" for a
    using arg_cong[OF img(3), of "\<lambda>xs. xs ! a"] that by (simp add: m_def)
  show ?thesis
  proof (intro exI[of _ m] conjI l)
    show "tracks p ops m (derive_start src)"
      unfolding tracks_def
      using pfrom_source_wf[OF wf l] v(1,2) img(3) len mem cell
      by (auto simp: m_def derive_start_def profile_registers_default_def profile_cell_is_graphical_def)
  qed
qed

end
