(* ===== verification/LayoutFacts.thy ===== *)
theory LayoutFacts
  imports LayoutPath
begin

text \<open>
  The properties of the code layout: the path is forward, what an encoding is rejected for, what
  the padding planner appends (\<open>steps_placed\<close>) and what its origin map says, and one concrete layout.
\<close>

subsection \<open>The path goes forward\<close>

lemma derive_loop_forward:
  "derive_loop ops st = Inr st' \<Longrightarrow> forward_shape ops \<Longrightarrow> dl_position st < length ops \<Longrightarrow>
    \<exists>xs. dl_executed st' = dl_executed st @ xs \<and> sorted_wrt (<) xs \<and>
      (\<forall>x \<in> set xs. dl_position st \<le> x \<and> x < length ops)"
proof (induction ops st rule: derive_loop.induct)
  case (1 ops st)
  have op: "get ops (dl_position st) = Some (ops ! dl_position st)" using "1.prems"(3) by simp
  have l: "(case derive_iteration (ops ! dl_position st) st of
        Inl e \<Rightarrow> Inl e
      | Inr (st', continue) \<Rightarrow> if continue then derive_loop ops st' else Inr st') = Inr st'"
    using "1.prems"(1) op by (subst (asm) derive_loop.simps) simp
  then obtain st1 continue where it: "derive_iteration (ops ! dl_position st) st = Inr (st1, continue)"
    by (cases "derive_iteration (ops ! dl_position st) st") auto
  show ?case
  proof (cases continue)
    case False
    then show ?thesis
      using l it derive_iteration_False(2)[of "ops ! dl_position st" st st1] "1.prems"(3)
      by (intro exI[of _ "[dl_position st]"]) auto
  next
    case True
    then have l1: "derive_loop ops st1 = Inr st'"
      and i1: "derive_iteration (ops ! dl_position st) st = Inr (st1, True)"
      using l it by simp_all
    obtain enc nxt nd w c where d: "ops ! dl_position st \<noteq> LinearHalt"
      "derive_successor (ops ! dl_position st) st = Inr (enc, nxt)"
      "dl_executed st1 = dl_executed st @ [dl_position st]" "dl_position st1 = nxt"
      by (rule derive_iteration_True[OF i1]) (rule that, auto)
    note f = derive_successor_forward[OF "1.prems"(2,3) refl d(1,2)]
    obtain xs where xs: "dl_executed st' = dl_executed st1 @ xs" "sorted_wrt (<) xs"
      "\<forall>x \<in> set xs. dl_position st1 \<le> x \<and> x < length ops"
      using "1.IH"[OF op i1 refl TrueI l1 "1.prems"(2)] f d(4) by auto
    then show ?thesis
      using d f by (intro exI[of _ "dl_position st # xs"]) auto
  qed
qed

lemma admitted_executed:
  assumes "admit_linear_layout p ops src identity = Inr L"
  shows "sorted_wrt (<) (ll_executed_code_positions L)"
    "\<forall>x \<in> set (ll_executed_code_positions L). x < length ops"
proof -
  obtain path where v: "validate_shape p ops = Inr ()" and path: "derive_execution_positions ops src = Inr path"
    and L: "ll_executed_code_positions L = dep_executed path"
    using assms by (auto simp: admit_linear_layout_Inr)
  note s = validate_shape_Inr[OF v]
  obtain st where st: "derive_loop ops (derive_start src) = Inr st" "dep_executed path = dl_executed st"
    using path by (auto simp: derive_execution_positions_def)
  have "dl_position (derive_start src) < length ops" using s(1) by (cases ops) (simp_all add: derive_start_def)
  from derive_loop_forward[OF st(1) s(4) this]
  show "sorted_wrt (<) (ll_executed_code_positions L)"
    "\<forall>x \<in> set (ll_executed_code_positions L). x < length ops"
    using L st(2) by (auto simp: derive_start_def)
qed

subsection \<open>What is rejected\<close>

lemma derive_iteration_error:
  assumes "derive_iteration op st = Inl e" and small: "dl_position st \<le> U32_MAX"
    "dl_data_pointer st \<le> U32_MAX" "length (dl_code_cells st) \<le> U32_MAX"
  shows "e \<in> {JumpPathUnsupported, UnsafeDataPlacement} \<or>
    (\<exists>t. e = JumpTargetMismatch (dl_position st) \<and> op = JumpForward t)"
proof (cases op)
  case (JumpForward t)
  then show ?thesis
    using assms by (auto simp: derive_iteration_def planned_data_write_def derive_successor_def
        derive_data_pointer_def jump_successor_def Let_def get_Some_iff
        split: if_splits option.splits sum.splits)
qed (use assms in \<open>auto simp: derive_iteration_def planned_data_write_def derive_successor_def
    derive_data_pointer_def Let_def get_Some_iff split: if_splits option.splits sum.splits\<close>)

lemma derive_loop_error:
  "derive_loop ops st = Inl e \<Longrightarrow> forward_shape ops \<Longrightarrow> length ops \<le> 4096 \<Longrightarrow>
    dl_position st < length ops \<Longrightarrow> dl_data_pointer st \<le> 127 + dl_position st \<Longrightarrow>
    length (dl_code_cells st) = length ops \<Longrightarrow>
    \<forall>c \<in> set (dl_code_cells st). profile_cell_is_graphical c \<Longrightarrow>
    e \<in> {JumpPathUnsupported, UnsafeDataPlacement} \<or>
    (\<exists>i t. e = JumpTargetMismatch i \<and> i < length ops \<and> ops ! i = JumpForward t)"
proof (induction ops st rule: derive_loop.induct)
  case (1 ops st)
  have op: "get ops (dl_position st) = Some (ops ! dl_position st)" using "1.prems"(4) by simp
  have l: "(case derive_iteration (ops ! dl_position st) st of
        Inl e \<Rightarrow> Inl e
      | Inr (st', continue) \<Rightarrow> if continue then derive_loop ops st' else Inr st') = Inl e"
    using "1.prems"(1) op by (subst (asm) derive_loop.simps) simp
  show ?case
  proof (cases "derive_iteration (ops ! dl_position st) st")
    case (Inl e')
    then have e: "derive_iteration (ops ! dl_position st) st = Inl e" using l by simp
    have small: "dl_position st \<le> U32_MAX" "dl_data_pointer st \<le> U32_MAX"
      "length (dl_code_cells st) \<le> U32_MAX"
      using "1.prems"(3-6) by (simp_all add: U32_MAX_def)
    show ?thesis
      using derive_iteration_error[OF e small] "1.prems"(4) by auto
  next
    case (Inr r)
    then obtain st1 where i1: "derive_iteration (ops ! dl_position st) st = Inr (st1, True)"
      and l1: "derive_loop ops st1 = Inl e"
      using l by (cases r) (auto split: if_splits)
    obtain enc nxt nd w c where d: "ops ! dl_position st \<noteq> LinearHalt"
      "derive_successor (ops ! dl_position st) st = Inr (enc, nxt)"
      "derive_data_pointer (ops ! dl_position st) st = Inr nd"
      "enc < length (dl_code_cells st)" "encrypt_profile_cell (dl_code_cells st ! enc) = Some c"
      "dl_code_cells st1 = (dl_code_cells st)[enc := c]" "dl_position st1 = nxt" "dl_data_pointer st1 = nd"
      by (rule derive_iteration_True[OF i1]) (rule that, auto)
    note f = derive_successor_forward[OF "1.prems"(2,4) refl d(1,2)]
    have "c = unat (XLAT2 ! (dl_code_cells st ! enc - 33))"
      using d(4,5) "1.prems"(7) encrypt_cell_Some nth_mem by blast
    then have g: "\<forall>c \<in> set (dl_code_cells st1). profile_cell_is_graphical c"
      using d(4,6) "1.prems"(7) encrypted_graphical[of "dl_code_cells st ! enc"]
      by (auto dest!: set_update_subset_insert[THEN subsetD])
    have "nd \<le> 127 + nxt"
      using d(3) "1.prems"(5,7) f
      by (auto simp: derive_data_pointer_def get_Some_iff profile_cell_is_graphical_def
          split: if_splits option.splits dest!: nth_mem)
    then show ?thesis
      using "1.IH"[OF op i1 refl TrueI l1 "1.prems"(2,3)] f g d(6-8) "1.prems"(6) by auto
  qed
qed

subsection \<open>Padding\<close>

fun realizes :: "PaddedForwardStep \<Rightarrow> LinearOpcode \<Rightarrow> bool" where
  "realizes AutoRelocate op \<longleftrightarrow> op = RelocateDataPointer"
| "realizes (StepInstruction operation) op \<longleftrightarrow> op = operation"
| "realizes StepJump op \<longleftrightarrow> (\<exists>t. op = JumpForward t)"

text \<open>An opcode list places the logical steps at the positions, with no-operations elsewhere.\<close>

definition steps_placed :: "LinearOpcode list \<Rightarrow> u32 list \<Rightarrow> PaddedForwardStep list \<Rightarrow> bool" where
  "steps_placed ops positions logical \<longleftrightarrow>
    length positions = length logical \<and> sorted_wrt (<) positions \<and>
    (\<forall>i < length logical. positions ! i < length ops \<and> realizes (logical ! i) (ops ! (positions ! i))) \<and>
    (\<forall>a < length ops. a \<notin> set positions \<longrightarrow> ops ! a = LinearNoOperation)"

lemma steps_placed_snoc:
  assumes "steps_placed ops positions logical" and "realizes s op"
  shows "steps_placed (ops @ replicate j LinearNoOperation @ op # replicate k LinearNoOperation)
    (positions @ [length ops + j]) (logical @ [s])"
proof -
  have lt: "x < length ops" if "x \<in> set positions" for x
    using assms(1) that by (auto simp: steps_placed_def in_set_conv_nth)
  let ?ops = "ops @ replicate j LinearNoOperation @ op # replicate k LinearNoOperation"
  have old: "?ops ! a = ops ! a" if "a < length ops" for a using that by (simp add: nth_append)
  have new: "?ops ! (length ops + j) = op" by (simp add: nth_append)
  have pad: "?ops ! a = LinearNoOperation" if "length ops \<le> a" "a < length ?ops" "a \<noteq> length ops + j" for a
    using that by (auto simp: nth_append nth_Cons')
  have len: "length positions = length logical" using assms(1) by (simp add: steps_placed_def)
  show ?thesis
    unfolding steps_placed_def
  proof (intro conjI allI impI)
    show "sorted_wrt (<) (positions @ [length ops + j])"
      using assms(1) lt by (auto simp: steps_placed_def sorted_wrt_append dest!: lt)
    fix i
    assume "i < length (logical @ [s])"
    then consider (before) "i < length logical" | (last) "i = length logical" by fastforce
    then have "(positions @ [length ops + j]) ! i < length ?ops \<and>
        realizes ((logical @ [s]) ! i) (?ops ! ((positions @ [length ops + j]) ! i))"
    proof cases
      case before
      then have "positions ! i < length ops" "realizes (logical ! i) (ops ! (positions ! i))"
        using assms(1) by (simp_all add: steps_placed_def)
      then show ?thesis using before len old[of "positions ! i"] by (simp add: nth_append)
    next
      case last
      then show ?thesis using len new assms(2) by (simp add: nth_append)
    qed
    then show "(positions @ [length ops + j]) ! i < length ?ops"
      "realizes ((logical @ [s]) ! i) (?ops ! ((positions @ [length ops + j]) ! i))"
      by simp_all
  next
    fix a
    assume a: "a < length ?ops" "a \<notin> set (positions @ [length ops + j])"
    show "?ops ! a = LinearNoOperation"
    proof (cases "a < length ops")
      case True
      then show ?thesis using a(2) old[OF True] assms(1) by (simp add: steps_placed_def)
    next
      case False
      then show ?thesis using a pad[of a] by simp
    qed
  qed (use len in simp)
qed

text \<open>What each builder operation appends.\<close>

lemma padding_push_Inr:
  assumes "padding_push op self = Inr (position, self')"
  shows "position = length (fpb_operations self)" "fpb_operations self' = fpb_operations self @ [op]"
    "fpb_positions self' = fpb_positions self" "fpb_profile self' = fpb_profile self"
  using assms by (auto simp: padding_push_def push_padded_cell_def Let_def split: if_splits)

lemma padding_encrypt_Inr:
  "padding_encrypt a self = Inr self' \<Longrightarrow> fpb_operations self' = fpb_operations self \<and>
    fpb_positions self' = fpb_positions self \<and> fpb_profile self' = fpb_profile self"
  by (auto simp: padding_encrypt_def)

lemma padding_relocate_Inr:
  "padding_relocate self = Inr self' \<Longrightarrow> fpb_operations self' = fpb_operations self \<and>
    fpb_positions self' = fpb_positions self \<and> fpb_profile self' = fpb_profile self"
  by (auto simp: padding_relocate_def)

lemma padding_instruction_Inr:
  assumes "padding_instruction op self = Inr (position, self')"
  shows "position = length (fpb_operations self) \<and> fpb_operations self' = fpb_operations self @ [op] \<and>
    fpb_positions self' = fpb_positions self \<and> fpb_profile self' = fpb_profile self"
proof -
  obtain self1 self2 where p: "padding_push op self = Inr (position, self1)"
    and r: "(if op = RelocateDataPointer then padding_relocate self1 else Inr self1) = Inr self2"
    and e: "(if op \<noteq> LinearHalt then padding_encrypt position self2 else Inr self2) = Inr self'"
    using assms by (auto simp: padding_instruction_def split: if_splits sum.splits prod.splits)
  show ?thesis
    using padding_push_Inr[OF p] r e
    by (auto dest!: padding_relocate_Inr padding_encrypt_Inr split: if_splits)
qed

lemma auto_relocate_loop_Inr:
  "auto_relocate_loop phases remaining self = Inr (position, self') \<Longrightarrow>
    \<exists>j. position = length (fpb_operations self) + j \<and>
      fpb_operations self' = fpb_operations self @ replicate j LinearNoOperation @ [RelocateDataPointer] \<and>
      fpb_positions self' = fpb_positions self \<and> fpb_profile self' = fpb_profile self"
proof (induction phases remaining self rule: auto_relocate_loop.induct)
  case (1 remaining self)
  then show ?case by simp
next
  case (2 phases remaining self)
  let ?word = "if fpb_data_pointer self = length (fpb_operations self)
    then map_ok unat (unique_graphical_cell (fpb_profile self) RelocateDataPointer (length (fpb_operations self)))
    else ok_or UnsafeDataPlacement (get (fpb_shadow self) (fpb_data_pointer self))"
  obtain word where w: "?word = Inr word" and small: "\<not> length (fpb_operations self) + 1 + remaining > MAX_LINEAR_CELLS"
    using "2.prems" by (cases ?word) (simp_all add: Let_def split: if_splits)
  show ?case
  proof (cases "word \<ge> length (fpb_operations self) + 1 + remaining")
    case True
    then have "padding_instruction RelocateDataPointer self = Inr (position, self')"
      using "2.prems" w small by (simp add: Let_def)
    then show ?thesis using padding_instruction_Inr by (intro exI[of _ 0]) auto
  next
    case False
    then obtain pos1 self1 where i: "padding_instruction LinearNoOperation self = Inr (pos1, self1)"
      and r: "auto_relocate_loop phases remaining
        (self1\<lparr>fpb_data_pointer := fpb_data_pointer self1 + 1\<rparr>) = Inr (position, self')"
      using "2.prems" w small
      by (cases "padding_instruction LinearNoOperation self") (auto simp: Let_def)
    obtain j where "position = length (fpb_operations self1) + j \<and>
      fpb_operations self' = fpb_operations self1 @ replicate j LinearNoOperation @ [RelocateDataPointer] \<and>
      fpb_positions self' = fpb_positions self1 \<and> fpb_profile self' = fpb_profile self1"
      using "2.IH"[OF refl refl small w False i refl] r by auto
    then show ?thesis
      using padding_instruction_Inr[OF i] by (intro exI[of _ "Suc j"]) simp
  qed
qed

lemma pad_loop_Inr:
  "pad_loop target self = Inr self' \<Longrightarrow>
    \<exists>k. fpb_operations self' = fpb_operations self @ replicate k LinearNoOperation \<and>
      fpb_positions self' = fpb_positions self \<and> fpb_profile self' = fpb_profile self"
proof (induction target self rule: pad_loop.induct)
  case (1 target self)
  show ?case
  proof (cases "length (fpb_operations self) < target")
    case False
    then show ?thesis using "1.prems" by (subst (asm) pad_loop.simps) (auto intro: exI[of _ 0])
  next
    case True
    then obtain pos self1 where p: "padding_push LinearNoOperation self = Inr (pos, self1)"
      and r: "pad_loop target self1 = Inr self'"
      using "1.prems" by (subst (asm) pad_loop.simps) (auto split: sum.splits)
    obtain k where "fpb_operations self' = fpb_operations self1 @ replicate k LinearNoOperation \<and>
      fpb_positions self' = fpb_positions self1 \<and> fpb_profile self' = fpb_profile self1"
      using "1.IH"[OF True p refl r] by blast
    then show ?thesis
      using padding_push_Inr[OF p] by (intro exI[of _ "Suc k"]) simp
  qed
qed

lemma padding_jump_Inr:
  assumes "padding_jump self = Inr (position, self')"
  shows "\<exists>t k. position = length (fpb_operations self) \<and>
    fpb_operations self' = fpb_operations self @ JumpForward t # replicate k LinearNoOperation \<and>
    fpb_positions self' = fpb_positions self \<and> fpb_profile self' = fpb_profile self"
proof -
  obtain self1 self2 t where p: "padding_push (JumpForward 0) self = Inr (position, self1)"
    and l: "pad_loop t (self1\<lparr>fpb_operations := (fpb_operations self1)[position := JumpForward t]\<rparr>) = Inr self2"
    and e: "padding_encrypt (t - 1) self2 = Inr self'"
    using assms by (auto simp: padding_jump_def Let_def split: if_splits sum.splits option.splits)
  note pp = padding_push_Inr[OF p]
  have "(fpb_operations self @ [JumpForward 0])[position := JumpForward t] = fpb_operations self @ [JumpForward t]"
    using pp(1) by simp
  then show ?thesis
    using pp padding_encrypt_Inr[OF e] pad_loop_Inr[OF l] by auto
qed

lemma padding_step_placed:
  assumes s: "padding_step n i s self = Inr (position, self')"
    and pl: "steps_placed (fpb_operations self) (fpb_positions self) logical"
  shows "steps_placed (fpb_operations self') (fpb_positions self' @ [position]) (logical @ [s]) \<and>
    fpb_profile self' = fpb_profile self"
proof (cases s)
  case AutoRelocate
  then have "auto_relocate_loop 94 (n - (i + 1)) self = Inr (position, self')"
    using s by (auto simp: padding_step_def auto_relocate_def Let_def split: if_splits)
  from auto_relocate_loop_Inr[OF this] obtain j where "position = length (fpb_operations self) + j"
      "fpb_operations self' = fpb_operations self @ replicate j LinearNoOperation @ [RelocateDataPointer]"
      "fpb_positions self' = fpb_positions self" "fpb_profile self' = fpb_profile self"
    by blast
  then show ?thesis
    using steps_placed_snoc[OF pl, of s RelocateDataPointer j 0] AutoRelocate by simp
next
  case (StepInstruction op)
  then have "padding_instruction op self = Inr (position, self')"
    using s by (simp add: padding_step_def)
  from padding_instruction_Inr[OF this] show ?thesis
    using steps_placed_snoc[OF pl, of s op 0 0] StepInstruction by simp
next
  case StepJump
  then have "padding_jump self = Inr (position, self')" using s by (simp add: padding_step_def)
  from padding_jump_Inr[OF this] obtain t k where "position = length (fpb_operations self)"
    "fpb_operations self' = fpb_operations self @ JumpForward t # replicate k LinearNoOperation"
    "fpb_positions self' = fpb_positions self" "fpb_profile self' = fpb_profile self"
    by blast
  then show ?thesis
    using steps_placed_snoc[OF pl, of s "JumpForward t" 0 k] StepJump by simp
qed

lemma pad_steps_loop_placed:
  "pad_steps_loop n (enumerate k steps) self = Inr self' \<Longrightarrow>
    steps_placed (fpb_operations self) (fpb_positions self) logical \<Longrightarrow>
    steps_placed (fpb_operations self') (fpb_positions self') (logical @ steps) \<and>
    fpb_profile self' = fpb_profile self"
proof (induction steps arbitrary: k self logical)
  case Nil
  then show ?case by simp
next
  case (Cons s steps)
  obtain position self1 where st: "padding_step n k s self = Inr (position, self1)"
    and r: "pad_steps_loop n (enumerate (Suc k) steps) (self1\<lparr>fpb_positions := fpb_positions self1 @ [position],
        fpb_data_pointer := fpb_data_pointer self1 + 1\<rparr>) = Inr self'"
    using Cons.prems(1) by (auto split: sum.splits if_splits)
  have "steps_placed (fpb_operations self1) (fpb_positions self1 @ [position]) (logical @ [s]) \<and>
      fpb_profile self1 = fpb_profile self"
    by (rule padding_step_placed[OF st Cons.prems(2)])
  then show ?case using Cons.IH[OF r, of "logical @ [s]"] by simp
qed

subsection \<open>Origins\<close>

lemma bisect_sorted:
  "sorted_wrt (<) xs \<Longrightarrow> hi \<le> length xs \<Longrightarrow>
    bisect xs key lo hi \<longleftrightarrow> (\<exists>i. lo \<le> i \<and> i < hi \<and> xs ! i = key)"
proof (induction xs key lo hi rule: bisect.induct)
  case (1 xs key lo hi)
  show ?case
  proof (cases "lo < hi")
    case False
    then show ?thesis by (subst bisect.simps) auto
  next
    case True
    define mid where "mid = lo + (hi - lo) div 2"
    have m: "lo \<le> mid" "mid < hi" using True by (auto simp: mid_def)
    have mono: "xs ! a < xs ! b" if "a < b" "b < hi" for a b
      using sorted_wrt_nth_less[OF "1.prems"(1), of a b] that "1.prems"(2) by simp
    have r: "bisect xs key lo hi = (if xs ! mid = key then True
        else if xs ! mid < key then bisect xs key (mid + 1) hi else bisect xs key lo mid)"
      using True by (subst bisect.simps) (simp add: mid_def Let_def)
    consider (eq) "xs ! mid = key" | (lt) "xs ! mid < key" | (gt) "key < xs ! mid" by linarith
    then show ?thesis
    proof cases
      case eq
      then show ?thesis using r m by auto
    next
      case lt
      have i: "mid < i" if "i < hi" "xs ! i = key" for i
        using mono[of i mid] m lt that by (cases i mid rule: linorder_cases) auto
      have "bisect xs key (mid + 1) hi \<longleftrightarrow> (\<exists>i. mid + 1 \<le> i \<and> i < hi \<and> xs ! i = key)"
        using "1.IH"(1)[OF True mid_def] lt "1.prems" by simp
      then show ?thesis using r lt m i by (auto simp: Suc_le_eq) (meson less_or_eq_imp_le order.strict_trans1)
    next
      case gt
      have i: "i < mid" if "i < hi" "xs ! i = key" for i
        using mono[of mid i] m gt that by (cases i mid rule: linorder_cases) auto
      have "bisect xs key lo mid \<longleftrightarrow> (\<exists>i. lo \<le> i \<and> i < mid \<and> xs ! i = key)"
        using "1.IH"(2)[OF True mid_def] gt m "1.prems" by simp
      then show ?thesis using r gt m i by (auto intro: order.strict_trans)
    qed
  qed
qed

lemma binary_search_sorted: "sorted_wrt (<) xs \<Longrightarrow> binary_search_is_ok xs key \<longleftrightarrow> key \<in> set xs"
  by (auto simp: binary_search_is_ok_def bisect_sorted in_set_conv_nth)

lemma logical_origins_loop_Inr:
  "logical_origins_loop L (enumerate k positions) origins = Inr origins' \<Longrightarrow> distinct positions \<Longrightarrow>
    sorted_wrt (<) (ll_executed_code_positions L) \<Longrightarrow>
    length origins' = length origins \<and> set positions \<subseteq> set (ll_executed_code_positions L) \<and>
    (\<forall>i < length positions. positions ! i < length origins \<and> origins' ! (positions ! i) = LogicalCell (k + i)) \<and>
    (\<forall>a. a \<notin> set positions \<longrightarrow> origins' ! a = origins ! a)"
proof (induction positions arbitrary: k origins)
  case Nil
  then show ?case by simp
next
  case (Cons code positions)
  have r: "logical_origins_loop L (enumerate (Suc k) positions) (origins[code := LogicalCell k]) = Inr origins'"
    and c: "code < length origins" "code \<in> set (ll_executed_code_positions L)"
    using Cons.prems by (auto simp: get_Some_iff binary_search_sorted split: option.splits if_splits)
  note ih = Cons.IH[OF r]
  have d: "distinct positions" "code \<notin> set positions" using Cons.prems(2) by simp_all
  show ?case
    using ih[OF d(1) Cons.prems(3)] c d(2)
    by (auto simp: All_less_Suc2 nth_list_update)
qed

lemma executed_origins_loop_Inr:
  "executed_origins_loop ops codes origins = Inr origins' \<Longrightarrow>
    length origins' = length origins \<and>
    (\<forall>a < length origins. origins' ! a =
      (if origins ! a = SkippedPadding \<and> a \<in> set codes then ExecutedPadding else origins ! a))"
proof (induction codes arbitrary: origins)
  case Nil
  then show ?case by simp
next
  case (Cons code codes)
  show ?case
  proof (cases "get origins code = Some SkippedPadding")
    case True
    then have "executed_origins_loop ops codes (origins[code := ExecutedPadding]) = Inr origins'"
      using Cons.prems by (auto split: if_splits)
    from Cons.IH[OF this] show ?thesis using True by (auto simp: nth_list_update get_Some_iff)
  next
    case False
    then have r: "executed_origins_loop ops codes origins = Inr origins'"
      using Cons.prems by (auto split: option.splits if_splits)
    have "origins ! code \<noteq> SkippedPadding" if "code < length origins" using False that by simp
    then show ?thesis using Cons.IH[OF r] by auto
  qed
qed

subsection \<open>Properties\<close>

text \<open>
  C16: a layout that is admitted runs as planned. Its source loads on the profile machine, the run
  halts at exactly the last planned step on every input, the code and data pointers before step
  \<open>i\<close> are the planned ones, the cell fetched there decodes to the opcode laid out at that
  address, and no step changes memory outside the planned encryption and the planned data write.
\<close>
theorem admitted_layout_runs_as_planned:
  assumes wf: "wf_profile p" and a: "admit_linear_layout p ops src identity = Inr L"
    and res: "reserve (pd_memory_words p - length src)"
  shows "\<exists>m. pfrom_source reserve p src input = Inr m \<and>
    (\<forall>budget \<ge> length (ll_executed_code_positions L). fst (prun budget m) =
      Inr (RunTerminated HaltInstruction (length (ll_executed_code_positions L)))) \<and>
    (\<forall>i < length (ll_executed_code_positions L).
      let s = after_steps i m; c = ll_executed_code_positions L ! i
      in preg_code_pointer (pm_registers s) = c \<and>
        preg_data_pointer (pm_registers s) = ll_data_pointer_positions L ! i \<and>
        decode_profile_instruction (pm_memory s ! c) c = Some (linear_decoded p (ops ! c))) \<and>
    (\<forall>i. Suc i < length (ll_executed_code_positions L) \<longrightarrow>
      (\<forall>x. x \<noteq> ll_encrypted_code_positions L ! i \<longrightarrow> Some x \<noteq> ll_data_write_positions L ! i \<longrightarrow>
        pm_memory (after_steps (Suc i) m) ! x = pm_memory (after_steps i m) ! x))"
proof -
  obtain m where m: "pfrom_source reserve p src input = Inr m" "tracks p ops m (derive_start src)"
    using loaded_tracks[where reserve = reserve, OF wf a res] by blast
  obtain path where v: "validate_shape p ops = Inr ()" and path: "derive_execution_positions ops src = Inr path"
    and L: "L = \<lparr>ll_data_pointer_positions = dep_data path, ll_data_write_positions = dep_writes path,
      ll_encrypted_code_positions = dep_encrypted path, ll_executed_code_positions = dep_executed path,
      ll_profile_fingerprint = pd_fingerprint p, ll_profile_id = pd_id p, ll_source = src\<rparr>"
    using a by (auto simp: admit_linear_layout_Inr)
  obtain st where st: "derive_loop ops (derive_start src) = Inr st"
    "path = \<lparr>dep_data = dl_data st, dep_encrypted = dl_encrypted st, dep_executed = dl_executed st,
      dep_writes = dl_writes st\<rparr>"
    using path by (auto simp: derive_execution_positions_def)
  obtain n ws es where n: "dl_executed st = map (\<lambda>i. preg_code_pointer (pm_registers (after_steps i m))) [0..<Suc n]"
      "dl_data st = map (\<lambda>i. preg_data_pointer (pm_registers (after_steps i m))) [0..<Suc n]"
      "dl_writes st = ws" "dl_encrypted st = es"
      "\<And>i x. i < n \<Longrightarrow> x \<noteq> es ! i \<Longrightarrow> Some x \<noteq> ws ! i \<Longrightarrow>
        pm_memory (after_steps (Suc i) m) ! x = pm_memory (after_steps i m) ! x"
      "continues pstep n m (after_steps n m)"
      "pstep (after_steps n m) = (Inr (Terminated HaltInstruction), snd (pstep (after_steps n m)))"
      "\<And>i. i \<le> n \<Longrightarrow> \<exists>st. tracks p ops (after_steps i m) st"
    using derive_loop_tracks[OF st(1) m(2) validate_shape_Inr(4)[OF v]]
    by (auto simp: derive_start_def simp del: upt_Suc after_steps_simps)
  have len: "length (ll_executed_code_positions L) = Suc n" by (simp add: L st(2) n(1) del: upt_Suc)
  have run: "fst (prun budget m) = Inr (RunTerminated HaltInstruction (Suc n))" if "Suc n \<le> budget" for budget
  proof -
    have "\<exists>i u. i < budget \<and> continues pstep i m u \<and>
        pstep u = (Inr (Terminated HaltInstruction), snd (pstep (after_steps n m))) \<and> Suc n = 0 + Suc i"
      using n(6,7) that by (intro exI[of _ n] exI[of _ "after_steps n m"]) simp
    then have "prun_loop (0 + budget) 0 m =
        (Inr (RunTerminated HaltInstruction (Suc n)), snd (pstep (after_steps n m)))"
      by (rule profile_run.run_loop_terminated_iff[THEN iffD2])
    then show ?thesis using tracksD(2)[OF m(2)] by (simp add: prun_def)
  qed
  have here: "preg_code_pointer (pm_registers (after_steps i m)) = ll_executed_code_positions L ! i \<and>
      preg_data_pointer (pm_registers (after_steps i m)) = ll_data_pointer_positions L ! i \<and>
      decode_profile_instruction (pm_memory (after_steps i m) ! (ll_executed_code_positions L ! i))
        (ll_executed_code_positions L ! i) = Some (linear_decoded p (ops ! (ll_executed_code_positions L ! i)))"
    if i: "i < Suc n" for i
  proof -
    obtain st' where t: "tracks p ops (after_steps i m) st'" using n(8)[of i] i by auto
    have c: "ll_executed_code_positions L ! i = preg_code_pointer (pm_registers (after_steps i m))"
      "ll_data_pointer_positions L ! i = preg_data_pointer (pm_registers (after_steps i m))"
      using i by (simp_all add: L st(2) n(1,2) del: upt_Suc)
    show ?thesis
      using tracksD(7,9)[OF t] tracksD(12)[OF t, of "dl_position st'"] by (simp add: c)
  qed
  show ?thesis
    using m(1) run here n(5) len by (intro exI[of _ m]) (auto simp: Let_def L st(2) n(3,4))
qed

text \<open>
  C17: padding is faithful. The padded list encodes to the layout; the positions of the logical
  steps ascend and hold exactly those steps (a relocation, a jump or the given instruction), every
  other cell is a no-operation; the origin map says which is which, and the executed addresses
  with the executed padding left out are exactly the logical positions in order.
\<close>
theorem padding_is_faithful:
  assumes "encode_auto_padded_forward_layout p logical = Inr P"
  shows "encode_linear_layout p (pfl_operations P) = Inr (pfl_layout P) \<and>
    steps_placed (pfl_operations P) (pfl_logical_code_positions P) logical \<and>
    filter (\<lambda>c. pfl_source_cell_origins P ! c \<noteq> ExecutedPadding)
      (ll_executed_code_positions (pfl_layout P)) = pfl_logical_code_positions P \<and>
    map (\<lambda>c. pfl_source_cell_origins P ! c) (pfl_logical_code_positions P) =
      map LogicalCell [0..<length logical] \<and>
    (\<forall>a < length (pfl_operations P). pfl_source_cell_origins P ! a = SkippedPadding \<longleftrightarrow>
      a \<notin> set (ll_executed_code_positions (pfl_layout P)))"
proof -
  obtain b where b: "pad_steps_loop (length logical) (enumerate 0 logical) (padding_builder_new p) = Inr b"
    and e: "encode_linear_layout p (fpb_operations b) = Inr (pfl_layout P)"
    and o: "proven_source_origins (pfl_layout P) (fpb_positions b) (fpb_operations b) =
      Inr (pfl_source_cell_origins P)"
    and P: "pfl_operations P = fpb_operations b" "pfl_logical_code_positions P = fpb_positions b"
    using assms by (auto simp: encode_auto_padded_forward_layout_def split: if_splits sum.splits)
  have "steps_placed (fpb_operations b) (fpb_positions b) ([] @ logical)"
    using pad_steps_loop_placed[OF b, of "[]"] by (simp add: padding_builder_new_def steps_placed_def)
  then have pl: "steps_placed (fpb_operations b) (fpb_positions b) logical" by simp
  then have s: "sorted_wrt (<) (fpb_positions b)" "length (fpb_positions b) = length logical"
    by (simp_all add: steps_placed_def)
  then have d: "distinct (fpb_positions b)" using strict_sorted_iff by blast
  obtain src identity where a: "admit_linear_layout p (fpb_operations b) src identity = Inr (pfl_layout P)"
    using e by (auto simp: encode_linear_layout_Inr)
  note ex = admitted_executed[OF a]
  obtain og where og: "logical_origins_loop (pfl_layout P) (enumerate 0 (fpb_positions b))
      (replicate (length (fpb_operations b)) SkippedPadding) = Inr og"
    and og': "executed_origins_loop (fpb_operations b) (ll_executed_code_positions (pfl_layout P)) og =
      Inr (pfl_source_cell_origins P)"
    using o by (auto simp: proven_source_origins_def split: sum.splits)
  note l = logical_origins_loop_Inr[OF og d ex(1)]
  note x = executed_origins_loop_Inr[OF og']
  have lo: "pfl_source_cell_origins P ! (fpb_positions b ! i) = LogicalCell i" if "i < length (fpb_positions b)" for i
    using l x that by simp
  have other: "pfl_source_cell_origins P ! c =
      (if c \<in> set (ll_executed_code_positions (pfl_layout P)) then ExecutedPadding else SkippedPadding)"
    if "c < length (fpb_operations b)" "c \<notin> set (fpb_positions b)" for c
    using l x that by simp
  have sub: "set (fpb_positions b) \<subseteq> set (ll_executed_code_positions (pfl_layout P))" using l by blast
  have f: "filter (\<lambda>c. pfl_source_cell_origins P ! c \<noteq> ExecutedPadding)
      (ll_executed_code_positions (pfl_layout P)) = fpb_positions b"
  proof (rule strict_sorted_equal)
    show "sorted_wrt (<) (filter (\<lambda>c. pfl_source_cell_origins P ! c \<noteq> ExecutedPadding)
        (ll_executed_code_positions (pfl_layout P)))"
      by (rule sorted_wrt_filter[OF ex(1)])
    show "set (filter (\<lambda>c. pfl_source_cell_origins P ! c \<noteq> ExecutedPadding)
        (ll_executed_code_positions (pfl_layout P))) = set (fpb_positions b)"
      using sub ex(2) other lo by (auto simp: in_set_conv_nth) (metis in_set_conv_nth)
  qed (rule s(1))
  have m: "map (\<lambda>c. pfl_source_cell_origins P ! c) (fpb_positions b) = map LogicalCell [0..<length logical]"
    by (rule nth_equalityI) (use lo s(2) in simp_all)
  have k: "pfl_source_cell_origins P ! a = SkippedPadding \<longleftrightarrow>
      a \<notin> set (ll_executed_code_positions (pfl_layout P))" if "a < length (fpb_operations b)" for a
  proof (cases "a \<in> set (fpb_positions b)")
    case True
    then obtain i where "i < length (fpb_positions b)" "a = fpb_positions b ! i"
      by (auto simp: in_set_conv_nth)
    then show ?thesis using lo[of i] True sub by auto
  qed (use other[OF that] in simp)
  show ?thesis using e pl f m k P by simp
qed

text \<open>
  C19: a rejected encoding is rejected for its shape or its path. On a consistent profile every
  opcode has exactly one cell at every address, so encoding never fails for want of a cell, for an
  ambiguous one or for a mismatch of its own bytes.
\<close>
theorem encoding_rejects_shape_or_path:
  assumes wf: "wf_profile p" and e: "encode_linear_layout p ops = Inl e"
  shows "validate_shape p ops = Inl e \<or> e \<in> {JumpPathUnsupported, UnsafeDataPlacement} \<or>
    (\<exists>i t. e = JumpTargetMismatch i \<and> i < length ops \<and> ops ! i = JumpForward t)"
proof (cases "validate_shape p ops")
  case (Inl e')
  then show ?thesis using e by (simp add: encode_linear_layout_def)
next
  case (Inr u)
  then have v: "validate_shape p ops = Inr ()" by simp
  note s = validate_shape_Inr[OF v]
  define src where "src = map (\<lambda>i. SOME b. unique_graphical_cell p (ops ! i) i = Inr b) [0..<length ops]"
  have c: "unique_graphical_cell p (ops ! i) i = Inr (src ! i)" if "i < length ops" for i
    using someI_ex[OF unique_graphical_cell_Inr(2)[OF wf, of i "ops ! i"]] that s(2)
    by (simp add: src_def U32_MAX_def)
  have len: "length src = length ops" by (simp add: src_def)
  have "encode_cells p (enumerate 0 ops) = Inr src"
    using encode_cells_Inr[of p 0 ops src] c len by simp
  moreover have "check_cells_loop p (enumerate 0 (zip ops src)) = Inr ()"
    using check_cells_loop_Inr[OF len, of p 0] c by simp
  ultimately have "derive_loop ops (derive_start src) = Inl e"
    using e v len by (simp add: encode_linear_layout_def admit_linear_layout_def derive_execution_positions_def)
  then have "e \<in> {JumpPathUnsupported, UnsafeDataPlacement} \<or>
    (\<exists>i t. e = JumpTargetMismatch i \<and> i < length ops \<and> ops ! i = JumpForward t)"
  proof (rule derive_loop_error[OF _ s(4,2)])
    show "dl_position (derive_start src) < length ops" using s(1) by (cases ops) (simp_all add: derive_start_def)
    show "\<forall>c \<in> set (dl_code_cells (derive_start src)). profile_cell_is_graphical c"
    proof
      fix x
      assume "x \<in> set (dl_code_cells (derive_start src))"
      then obtain i where i: "i < length ops" "x = unat (src ! i)"
        using len by (auto simp: derive_start_def in_set_conv_nth)
      then show "profile_cell_is_graphical x"
        using c[of i] unique_graphical_cell_Inr(1)[OF wf, of i "ops ! i" "src ! i"] s(2)
        by (simp add: profile_cell_is_graphical_def U32_MAX_def)
    qed
  qed (use len in \<open>simp_all add: derive_start_def\<close>)
  then show ?thesis by blast
qed


text \<open>
  C18: admission and encoding agree. A source is admitted for an opcode list exactly when it is the
  source the encoder emits for that list, under the profile's own identity, with the same layout.
\<close>
theorem layout_admission_is_encoding:
  "admit_linear_layout p ops src identity = Inr L \<longleftrightarrow>
    encode_linear_layout p ops = Inr L \<and> ll_source L = src \<and>
    lpi_id identity = pd_id p \<and> lpi_fingerprint identity = pd_fingerprint p"
  by (auto simp: encode_linear_layout_Inr admit_linear_layout_Inr)

subsection \<open>Concrete layouts\<close>

text \<open>Read a word, move the data pointer behind the code, rotate, write, halt.\<close>

definition layout_demo_operations :: "LinearOpcode list" where
  "layout_demo_operations = [InputWord, RelocateDataPointer, RotateData, OutputByte, LinearHalt]"

definition layout_demo_source :: "u8 list" where "layout_demo_source = [117, 39, 37, 96, 77]"

definition layout_demo_identity :: LinearProfileIdentity where
  "layout_demo_identity = \<lparr>lpi_fingerprint = pd_fingerprint PROFILE_0, lpi_id = pd_id PROFILE_0\<rparr>"

definition layout_demo :: LinearLayout where
  "layout_demo =
    \<lparr>ll_data_pointer_positions = [0, 1, 40, 41, 42],
     ll_data_write_positions = [None, None, Some 40, None, None],
     ll_encrypted_code_positions = [0, 1, 2, 3],
     ll_executed_code_positions = [0, 1, 2, 3, 4],
     ll_profile_fingerprint = pd_fingerprint PROFILE_0, ll_profile_id = pd_id PROFILE_0,
     ll_source = layout_demo_source\<rparr>"

lemma layout_demo_io [simp]: "pd_input_instruction PROFILE_0 = 47" "pd_output_instruction PROFILE_0 = 60"
    "pd_memory_words PROFILE_0 = 59049"
  by (simp_all add: PROFILE_0_def)

lemma layout_demo_cell:
  assumes "33 \<le> unat b" "unat b \<le> 126" "position \<le> U32_MAX"
    "XLAT1 ! ((unat b - 33 + position mod 94) mod 94) = linear_decoded PROFILE_0 op"
  shows "unique_graphical_cell PROFILE_0 op position = Inr b"
  using assms by (simp add: unique_graphical_cell_Inr[OF PROFILE_wf(1)] decode_profile_instruction_def
      decode_profile_some)

lemma layout_demo_cells:
  "unique_graphical_cell PROFILE_0 InputWord 0 = Inr 117"
  "unique_graphical_cell PROFILE_0 RelocateDataPointer (Suc 0) = Inr 39"
  "unique_graphical_cell PROFILE_0 RotateData (Suc (Suc 0)) = Inr 37"
  "unique_graphical_cell PROFILE_0 OutputByte (Suc (Suc (Suc 0))) = Inr 96"
  "unique_graphical_cell PROFILE_0 LinearHalt (Suc (Suc (Suc (Suc 0)))) = Inr 77"
  by (rule layout_demo_cell; simp add: U32_MAX_def XLAT1_def HALT_INSTRUCTION_def)+

lemma layout_demo_shape: "validate_shape PROFILE_0 layout_demo_operations = Inr ()"
  by (simp add: validate_shape_def layout_demo_operations_def MIN_SOURCE_CELLS_def MAX_LINEAR_CELLS_def
      slice_last_def validate_jump_shape_def Let_def)

lemma layout_demo_path:
  "derive_execution_positions layout_demo_operations layout_demo_source = Inr
    \<lparr>dep_data = [0, 1, 40, 41, 42], dep_encrypted = [0, 1, 2, 3], dep_executed = [0, 1, 2, 3, 4],
     dep_writes = [None, None, Some 40, None, None]\<rparr>"
  by (simp add: derive_execution_positions_def derive_start_def layout_demo_operations_def layout_demo_source_def
      derive_loop.simps derive_iteration_def planned_data_write_def derive_successor_def
      derive_data_pointer_def Let_def encrypt_profile_cell_def encrypt_profile_some XLAT2_def U32_MAX_def
      get_def)

lemma layout_demo_checked: "check_cells_loop PROFILE_0 (enumerate 0 (zip layout_demo_operations layout_demo_source)) = Inr ()"
  by (simp add: layout_demo_operations_def layout_demo_source_def layout_demo_cells)

lemma layout_demo_admitted:
  "admit_linear_layout PROFILE_0 layout_demo_operations layout_demo_source layout_demo_identity = Inr layout_demo"
  unfolding admit_linear_layout_def layout_demo_shape layout_demo_path layout_demo_checked
  by (simp add: layout_demo_identity_def layout_demo_def layout_demo_operations_def layout_demo_source_def)

definition layout_demo_steps :: "PaddedForwardStep list" where
  "layout_demo_steps = [StepInstruction InputWord, AutoRelocate, StepInstruction RotateData,
    StepInstruction OutputByte, StepInstruction LinearHalt]"

definition layout_demo_padded :: PaddedForwardLayout where
  "layout_demo_padded =
    \<lparr>pfl_layout = layout_demo, pfl_logical_code_positions = [0, 1, 2, 3, 4],
     pfl_operations = layout_demo_operations,
     pfl_source_cell_origins = map LogicalCell [0, 1, 2, 3, 4]\<rparr>"

lemma layout_demo_encoded: "encode_linear_layout PROFILE_0 layout_demo_operations = Inr layout_demo"
  using layout_demo_admitted unfolding layout_demo_identity_def encode_linear_layout_Inr by blast

lemmas auto_relocate_94 = auto_relocate_loop.simps(2)[of 93, unfolded Suc_numeral add_num_simps]

lemma layout_demo_relocate:
  "auto_relocate_loop 94 3
    \<lparr>fpb_data_pointer = 1, fpb_operations = [InputWord], fpb_positions = [0],
     fpb_profile = PROFILE_0, fpb_relocated = False, fpb_shadow = [111]\<rparr> =
   Inr (1, \<lparr>fpb_data_pointer = 39, fpb_operations = [InputWord, RelocateDataPointer], fpb_positions = [0],
     fpb_profile = PROFILE_0, fpb_relocated = True, fpb_shadow = [111, 116]\<rparr>)"
  by (simp add: auto_relocate_94 padding_instruction_def padding_push_def push_padded_cell_def
      MAX_LINEAR_CELLS_def Let_def layout_demo_cells padding_encrypt_def encrypt_padded_cell_def
      padding_relocate_def encrypt_profile_cell_def encrypt_profile_some XLAT2_def)

lemma layout_demo_padding:
  "pad_steps_loop 5 (enumerate 0 layout_demo_steps) (padding_builder_new PROFILE_0) = Inr
    \<lparr>fpb_data_pointer = 43, fpb_operations = layout_demo_operations, fpb_positions = [0, 1, 2, 3, 4],
     fpb_profile = PROFILE_0, fpb_relocated = True, fpb_shadow = [111, 116, 103, 60, 77]\<rparr>"
  using layout_demo_relocate
  by (simp add: layout_demo_steps_def layout_demo_operations_def padding_builder_new_def padding_step_def
      padding_instruction_def padding_push_def push_padded_cell_def MAX_LINEAR_CELLS_def Let_def
      layout_demo_cells padding_encrypt_def encrypt_padded_cell_def auto_relocate_def
      encrypt_profile_cell_def encrypt_profile_some XLAT2_def U32_MAX_def)

lemma layout_demo_origins:
  "proven_source_origins layout_demo [0, 1, 2, 3, 4] layout_demo_operations = Inr (map LogicalCell [0, 1, 2, 3, 4])"
proof -
  have "binary_search_is_ok [0, 1, 2, 3, 4] c \<longleftrightarrow> c \<in> {0, 1, 2, 3, 4}" for c
    by (subst binary_search_sorted) auto
  then show ?thesis
    by (simp add: proven_source_origins_def layout_demo_def layout_demo_operations_def get_def U32_MAX_def)
qed

lemma layout_demo_padded_encoded: "encode_auto_padded_forward_layout PROFILE_0 layout_demo_steps = Inr layout_demo_padded"
proof -
  have "length layout_demo_steps = 5" by (simp add: layout_demo_steps_def)
  then show ?thesis
    using layout_demo_padding layout_demo_origins
    by (simp add: encode_auto_padded_forward_layout_def layout_demo_encoded layout_demo_padded_def
        MIN_SOURCE_CELLS_def MAX_LINEAR_CELLS_def)
qed

theorem admitted_layout_runs_as_planned_witness:
  "\<exists>m. pfrom_source (\<lambda>_. True) PROFILE_0 layout_demo_source [7] = Inr m \<and>
    (\<forall>budget \<ge> 5. fst (prun budget m) = Inr (RunTerminated HaltInstruction 5))"
proof -
  have "length (ll_executed_code_positions layout_demo) = 5" by (simp add: layout_demo_def)
  then show ?thesis
    using admitted_layout_runs_as_planned[where reserve = "\<lambda>_. True" and input = "[7]",
        OF PROFILE_wf(1) layout_demo_admitted TrueI] by metis
qed

theorem padding_is_faithful_witness:
  "filter (\<lambda>c. pfl_source_cell_origins layout_demo_padded ! c \<noteq> ExecutedPadding)
    (ll_executed_code_positions (pfl_layout layout_demo_padded)) = pfl_logical_code_positions layout_demo_padded"
  using padding_is_faithful[OF layout_demo_padded_encoded] by blast

lemma layout_demo_rejected: "encode_linear_layout PROFILE_0 [LinearHalt] = Inl TooShort"
  by (simp add: encode_linear_layout_def validate_shape_def MIN_SOURCE_CELLS_def)

theorem encoding_rejects_shape_or_path_witness:
  "validate_shape PROFILE_0 [LinearHalt] = Inl TooShort \<or>
    TooShort \<in> {JumpPathUnsupported, UnsafeDataPlacement} \<or>
    (\<exists>i t. TooShort = JumpTargetMismatch i \<and> i < length [LinearHalt] \<and> [LinearHalt] ! i = JumpForward t)"
  by (rule encoding_rejects_shape_or_path[OF PROFILE_wf(1) layout_demo_rejected])

end
