(* ===== verification/HostCapability.thy ===== *)
theory HostCapability
  imports Bytes
begin

unbundle bit_operations_syntax

text \<open>
  \<open>contract/host_capability.rs\<close>: the version-one frames by which a guest asks its host for an
  effect. Frames and capability descriptors have a fixed little-endian layout; a request is checked
  against a registry and the guest memory, and a response against its request, before any byte of
  the guest memory changes. Flag sets are 32-bit words, the other integers numbers; \<open>usize\<close> has 64
  bits, so a \<open>u64\<close> always converts.
\<close>

definition HOST_CAPABILITY_ABI_VERSION :: u16 where "HOST_CAPABILITY_ABI_VERSION = 1"
definition HOST_CAPABILITY_FRAME_WIRE_SIZE :: usize where "HOST_CAPABILITY_FRAME_WIRE_SIZE = 72"
definition HOST_CAPABILITY_DESCRIPTOR_WIRE_SIZE :: usize where
  "HOST_CAPABILITY_DESCRIPTOR_WIRE_SIZE = 16"
definition HOST_CAPABILITY_SPAN_WIRE_SIZE :: usize where "HOST_CAPABILITY_SPAN_WIRE_SIZE = 16"
definition HOST_CALL_FLAG_NONBLOCKING :: "32 word" where "HOST_CALL_FLAG_NONBLOCKING = 1"
definition HOST_CAPABILITY_FLAG_AVAILABLE :: "32 word" where "HOST_CAPABILITY_FLAG_AVAILABLE = 1"
definition HOST_CAPABILITY_FLAG_MAY_BLOCK :: "32 word" where "HOST_CAPABILITY_FLAG_MAY_BLOCK = 2"
definition HOST_CAPABILITY_FLAG_PARTIAL_PROGRESS :: "32 word" where
  "HOST_CAPABILITY_FLAG_PARTIAL_PROGRESS = 4"
definition DESCRIPTOR_WIRE_SIZE_U16 :: u16 where "DESCRIPTOR_WIRE_SIZE_U16 = 16"
definition FRAME_MAGIC :: u32 where "FRAME_MAGIC = 0x4348424d"
definition FRAME_WIRE_SIZE_U16 :: u16 where "FRAME_WIRE_SIZE_U16 = 72"
definition KNOWN_CALL_FLAGS :: "32 word" where "KNOWN_CALL_FLAGS = HOST_CALL_FLAG_NONBLOCKING"
definition KNOWN_CAPABILITY_FLAGS :: "32 word" where
  "KNOWN_CAPABILITY_FLAGS = HOST_CAPABILITY_FLAG_AVAILABLE OR HOST_CAPABILITY_FLAG_MAY_BLOCK OR
    HOST_CAPABILITY_FLAG_PARTIAL_PROGRESS"

subsection \<open>Data\<close>

datatype HostCapabilityStatus = Cancelled | Complete | HostError | Partial | Pending | WouldBlock

datatype HostCapabilityError =
    InvalidArgument
  | InvalidPayload
  | InvalidRange
  | InvalidRegistry
  | InvalidResponse
  | InvalidStatus
  | InvalidWireFrame
  | UnavailableCapability
  | UnknownCapability
  | UnsupportedAbiVersion
  | UnsupportedCapabilityVersion

record HostCapabilityDescriptor =
  hcd_capability_id :: u32
  hcd_flags :: "32 word"
  hcd_maximum_version :: u16
  hcd_minimum_version :: u16

record HostCapabilitySpan =
  hcs_length :: u64
  hcs_offset :: u64

record HostCapabilityFrame =
  hcf_abi_version :: u16
  hcf_call_id :: u64
  hcf_capability_id :: u32
  hcf_capability_version :: u16
  hcf_flags :: "32 word"
  hcf_operation :: u16
  hcf_request_length :: u64
  hcf_request_offset :: u64
  hcf_result_capacity :: u64
  hcf_result_length :: u64
  hcf_result_offset :: u64
  hcf_status :: HostCapabilityStatus

definition status_from_wire :: "u32 \<Rightarrow> HostCapabilityError + HostCapabilityStatus" where
  "status_from_wire v =
    (if v = 0 then Ok Pending
     else if v = 1 then Ok Complete
     else if v = 2 then Ok Partial
     else if v = 3 then Ok WouldBlock
     else if v = 4 then Ok HostError
     else if v = 5 then Ok Cancelled
     else Err InvalidStatus)"

fun status_wire_value :: "HostCapabilityStatus \<Rightarrow> u32" where
  "status_wire_value Pending = 0"
| "status_wire_value Complete = 1"
| "status_wire_value Partial = 2"
| "status_wire_value WouldBlock = 3"
| "status_wire_value HostError = 4"
| "status_wire_value Cancelled = 5"

subsection \<open>Slices of bytes\<close>

text \<open>\<open>slice.get(start..end)\<close>, and \<open>slice.get_mut(start..end)\<close> with \<open>copy_from_slice\<close>.\<close>

definition get_range :: "'a list \<Rightarrow> nat \<Rightarrow> nat \<Rightarrow> 'a list option" where
  "get_range xs start stop =
    (if start \<le> stop \<and> stop \<le> length xs then Some (take (stop - start) (drop start xs)) else None)"

definition copy_range :: "'a list \<Rightarrow> nat \<Rightarrow> nat \<Rightarrow> 'a list \<Rightarrow> 'a list option" where
  "copy_range xs start stop bytes =
    (if start \<le> stop \<and> stop \<le> length xs then Some (take start xs @ bytes @ drop stop xs) else None)"

definition hc_read_array :: "nat \<Rightarrow> u8 list \<Rightarrow> usize \<Rightarrow> HostCapabilityError + u8 list" where
  "hc_read_array len source offset = ok_or InvalidWireFrame (get_range source offset (offset + len))"

definition hc_read_u16 :: "u8 list \<Rightarrow> usize \<Rightarrow> HostCapabilityError + u16" where
  "hc_read_u16 source offset = map_ok from_le_bytes (hc_read_array 2 source offset)"

definition hc_read_u32 :: "u8 list \<Rightarrow> usize \<Rightarrow> HostCapabilityError + u32" where
  "hc_read_u32 source offset = map_ok from_le_bytes (hc_read_array 4 source offset)"

definition hc_read_u64 :: "u8 list \<Rightarrow> usize \<Rightarrow> HostCapabilityError + u64" where
  "hc_read_u64 source offset = map_ok from_le_bytes (hc_read_array 8 source offset)"

definition hc_write_bytes :: "usize \<Rightarrow> u8 list \<Rightarrow> u8 list \<Rightarrow> HostCapabilityError + u8 list" where
  "hc_write_bytes offset bytes destination =
    ok_or InvalidWireFrame (copy_range destination offset (offset + length bytes) bytes)"

subsection \<open>Descriptors\<close>

definition descriptor_validate :: "HostCapabilityDescriptor \<Rightarrow> HostCapabilityError + unit" where
  "descriptor_validate self =
    (if hcd_capability_id self = 0 \<or> hcd_minimum_version self = 0 \<or>
        hcd_minimum_version self > hcd_maximum_version self \<or>
        hcd_flags self AND NOT KNOWN_CAPABILITY_FLAGS \<noteq> 0
     then Err InvalidRegistry else Ok ())"

definition descriptor_decode :: "u8 list \<Rightarrow> HostCapabilityError + HostCapabilityDescriptor" where
  "descriptor_decode source =
    (if length source < 14 then Err InvalidWireFrame
     else
       and_then (hc_read_u16 source 12) (\<lambda>abi.
       if abi \<noteq> HOST_CAPABILITY_ABI_VERSION then Err UnsupportedAbiVersion
       else if length source \<noteq> HOST_CAPABILITY_DESCRIPTOR_WIRE_SIZE then Err InvalidWireFrame
       else
         and_then (hc_read_u16 source 14) (\<lambda>size.
         if size \<noteq> DESCRIPTOR_WIRE_SIZE_U16 then Err InvalidWireFrame
         else
           and_then (hc_read_u32 source 0) (\<lambda>capability_id.
           and_then (hc_read_u32 source 8) (\<lambda>flags.
           and_then (hc_read_u16 source 6) (\<lambda>maximum_version.
           and_then (hc_read_u16 source 4) (\<lambda>minimum_version.
             let descriptor =
               \<lparr>hcd_capability_id = capability_id, hcd_flags = of_nat flags,
                hcd_maximum_version = maximum_version, hcd_minimum_version = minimum_version\<rparr>
             in and_then (descriptor_validate descriptor) (\<lambda>_. Ok descriptor))))))))"

definition descriptor_encode :: "HostCapabilityDescriptor \<Rightarrow> HostCapabilityError + u8 list" where
  "descriptor_encode self =
    and_then (descriptor_validate self) (\<lambda>_.
    and_then (hc_write_bytes 0 (le_bytes 4 (hcd_capability_id self))
      (replicate HOST_CAPABILITY_DESCRIPTOR_WIRE_SIZE 0)) (\<lambda>wire.
    and_then (hc_write_bytes 4 (le_bytes 2 (hcd_minimum_version self)) wire) (\<lambda>wire.
    and_then (hc_write_bytes 6 (le_bytes 2 (hcd_maximum_version self)) wire) (\<lambda>wire.
    and_then (hc_write_bytes 8 (le_bytes 4 (unat (hcd_flags self))) wire) (\<lambda>wire.
    and_then (hc_write_bytes 12 (le_bytes 2 HOST_CAPABILITY_ABI_VERSION) wire) (\<lambda>wire.
    hc_write_bytes 14 (le_bytes 2 DESCRIPTOR_WIRE_SIZE_U16) wire))))))"

subsection \<open>Ranges and spans\<close>

definition range_valid :: "u64 \<Rightarrow> u64 \<Rightarrow> u64 \<Rightarrow> bool" where
  "range_valid offset len guest_memory_size =
    (case checked_sub guest_memory_size offset of
      None \<Rightarrow> False
    | Some remaining \<Rightarrow> len \<le> remaining)"

definition ranges_overlap :: "u64 \<Rightarrow> u64 \<Rightarrow> u64 \<Rightarrow> u64 \<Rightarrow> HostCapabilityError + bool" where
  "ranges_overlap left_offset left_length right_offset right_length =
    (if left_length = 0 \<or> right_length = 0 then Ok False
     else
       and_then (ok_or InvalidRange (checked_add U64_MAX left_offset left_length)) (\<lambda>left_end.
       and_then (ok_or InvalidRange (checked_add U64_MAX right_offset right_length)) (\<lambda>right_end.
         Ok (left_offset < right_end \<and> right_offset < left_end))))"

definition span_validate :: "HostCapabilitySpan \<Rightarrow> u64 \<Rightarrow> u64 \<Rightarrow> HostCapabilityError + unit" where
  "span_validate self record_length minimum_offset =
    (if minimum_offset > record_length then Err InvalidArgument
     else if hcs_offset self < minimum_offset \<or>
       \<not> range_valid (hcs_offset self) (hcs_length self) record_length
     then Err InvalidPayload else Ok ())"

definition span_bytes :: "HostCapabilitySpan \<Rightarrow> u8 list \<Rightarrow> u64 \<Rightarrow> HostCapabilityError + u8 list" where
  "span_bytes self rec minimum_offset =
    and_then (span_validate self (length rec) minimum_offset) (\<lambda>_.
    and_then (ok_or InvalidPayload (checked_add U64_MAX (hcs_offset self) (hcs_length self))) (\<lambda>stop.
      ok_or InvalidPayload (get_range rec (hcs_offset self) stop)))"

definition span_decode :: "u8 list \<Rightarrow> HostCapabilityError + HostCapabilitySpan" where
  "span_decode source =
    (if length source \<noteq> HOST_CAPABILITY_SPAN_WIRE_SIZE then Err InvalidPayload
     else
       and_then (hc_read_u64 source 8) (\<lambda>len.
       and_then (hc_read_u64 source 0) (\<lambda>offset.
         Ok \<lparr>hcs_length = len, hcs_offset = offset\<rparr>)))"

definition span_encode :: "HostCapabilitySpan \<Rightarrow> u8 list" where
  "span_encode self = le_bytes 8 (hcs_offset self) @ le_bytes 8 (hcs_length self)"

subsection \<open>Frames\<close>

definition frame_validate_shape :: "HostCapabilityFrame \<Rightarrow> HostCapabilityError + unit" where
  "frame_validate_shape self =
    (if hcf_abi_version self \<noteq> HOST_CAPABILITY_ABI_VERSION then Err UnsupportedAbiVersion
     else if hcf_capability_id self = 0 \<or> hcf_capability_version self = 0 \<or>
       hcf_flags self AND NOT KNOWN_CALL_FLAGS \<noteq> 0
     then Err InvalidWireFrame
     else if hcf_result_length self > hcf_result_capacity self then Err InvalidStatus
     else
       (let requires_empty_result = hcf_status self \<in> {Cancelled, HostError, Pending, WouldBlock}
        in if requires_empty_result \<and> hcf_result_length self \<noteq> 0 then Err InvalidStatus
           else Ok ()))"

definition frame_decode :: "u8 list \<Rightarrow> HostCapabilityError + HostCapabilityFrame" where
  "frame_decode source =
    (if length source < 8 then Err InvalidWireFrame
     else
       and_then (hc_read_u32 source 0) (\<lambda>magic.
       if magic \<noteq> FRAME_MAGIC then Err InvalidWireFrame
       else
         and_then (hc_read_u16 source 4) (\<lambda>abi_version.
         if abi_version \<noteq> HOST_CAPABILITY_ABI_VERSION then Err UnsupportedAbiVersion
         else if length source \<noteq> HOST_CAPABILITY_FRAME_WIRE_SIZE then Err InvalidWireFrame
         else
           and_then (hc_read_u16 source 6) (\<lambda>size.
           if size \<noteq> FRAME_WIRE_SIZE_U16 then Err InvalidWireFrame
           else
             and_then (hc_read_u64 source 64) (\<lambda>call_id.
             and_then (hc_read_u32 source 8) (\<lambda>capability_id.
             and_then (hc_read_u16 source 12) (\<lambda>capability_version.
             and_then (hc_read_u32 source 16) (\<lambda>flags.
             and_then (hc_read_u16 source 14) (\<lambda>operation.
             and_then (hc_read_u64 source 32) (\<lambda>request_length.
             and_then (hc_read_u64 source 24) (\<lambda>request_offset.
             and_then (hc_read_u64 source 48) (\<lambda>result_capacity.
             and_then (hc_read_u64 source 56) (\<lambda>result_length.
             and_then (hc_read_u64 source 40) (\<lambda>result_offset.
             and_then (hc_read_u32 source 20) (\<lambda>wire_status.
             and_then (status_from_wire wire_status) (\<lambda>status.
               let frame =
                 \<lparr>hcf_abi_version = abi_version, hcf_call_id = call_id,
                  hcf_capability_id = capability_id, hcf_capability_version = capability_version,
                  hcf_flags = of_nat flags, hcf_operation = operation,
                  hcf_request_length = request_length, hcf_request_offset = request_offset,
                  hcf_result_capacity = result_capacity, hcf_result_length = result_length,
                  hcf_result_offset = result_offset, hcf_status = status\<rparr>
               in and_then (frame_validate_shape frame) (\<lambda>_. Ok frame)))))))))))))))))"

definition frame_encode :: "HostCapabilityFrame \<Rightarrow> HostCapabilityError + u8 list" where
  "frame_encode self =
    and_then (frame_validate_shape self) (\<lambda>_.
    and_then (hc_write_bytes 0 (le_bytes 4 FRAME_MAGIC) (replicate HOST_CAPABILITY_FRAME_WIRE_SIZE 0)) (\<lambda>wire.
    and_then (hc_write_bytes 4 (le_bytes 2 (hcf_abi_version self)) wire) (\<lambda>wire.
    and_then (hc_write_bytes 6 (le_bytes 2 FRAME_WIRE_SIZE_U16) wire) (\<lambda>wire.
    and_then (hc_write_bytes 8 (le_bytes 4 (hcf_capability_id self)) wire) (\<lambda>wire.
    and_then (hc_write_bytes 12 (le_bytes 2 (hcf_capability_version self)) wire) (\<lambda>wire.
    and_then (hc_write_bytes 14 (le_bytes 2 (hcf_operation self)) wire) (\<lambda>wire.
    and_then (hc_write_bytes 16 (le_bytes 4 (unat (hcf_flags self))) wire) (\<lambda>wire.
    and_then (hc_write_bytes 20 (le_bytes 4 (status_wire_value (hcf_status self))) wire) (\<lambda>wire.
    and_then (hc_write_bytes 24 (le_bytes 8 (hcf_request_offset self)) wire) (\<lambda>wire.
    and_then (hc_write_bytes 32 (le_bytes 8 (hcf_request_length self)) wire) (\<lambda>wire.
    and_then (hc_write_bytes 40 (le_bytes 8 (hcf_result_offset self)) wire) (\<lambda>wire.
    and_then (hc_write_bytes 48 (le_bytes 8 (hcf_result_capacity self)) wire) (\<lambda>wire.
    and_then (hc_write_bytes 56 (le_bytes 8 (hcf_result_length self)) wire) (\<lambda>wire.
    hc_write_bytes 64 (le_bytes 8 (hcf_call_id self)) wire))))))))))))))"

subsection \<open>Registries\<close>

fun validate_registry_loop ::
  "u32 option \<Rightarrow> HostCapabilityDescriptor list \<Rightarrow> HostCapabilityError + unit" where
  "validate_registry_loop previous_id [] = Ok ()"
| "validate_registry_loop previous_id (descriptor # registry) =
    and_then (descriptor_validate descriptor) (\<lambda>_.
    if (case previous_id of None \<Rightarrow> False | Some v \<Rightarrow> v \<ge> hcd_capability_id descriptor)
    then Err InvalidRegistry
    else validate_registry_loop (Some (hcd_capability_id descriptor)) registry)"

definition validate_host_capability_registry ::
  "HostCapabilityDescriptor list \<Rightarrow> HostCapabilityError + unit" where
  "validate_host_capability_registry registry = validate_registry_loop None registry"

text \<open>The loop of \<open>discover_host_capability\<close> (and of its wire form, after decoding).\<close>

fun discover_loop ::
  "HostCapabilityDescriptor list \<Rightarrow> u32 \<Rightarrow> u16 \<Rightarrow> HostCapabilityError + HostCapabilityDescriptor" where
  "discover_loop [] capability_id capability_version = Err UnknownCapability"
| "discover_loop (descriptor # registry) capability_id capability_version =
    (if hcd_capability_id descriptor < capability_id
     then discover_loop registry capability_id capability_version
     else if hcd_capability_id descriptor > capability_id then Err UnknownCapability
     else if capability_version < hcd_minimum_version descriptor \<or>
       capability_version > hcd_maximum_version descriptor
     then Err UnsupportedCapabilityVersion
     else if hcd_flags descriptor AND HOST_CAPABILITY_FLAG_AVAILABLE = 0 then Err UnavailableCapability
     else Ok descriptor)"

definition discover_host_capability ::
  "HostCapabilityDescriptor list \<Rightarrow> u32 \<Rightarrow> u16 \<Rightarrow> HostCapabilityError + HostCapabilityDescriptor" where
  "discover_host_capability registry capability_id capability_version =
    (if capability_id = 0 \<or> capability_version = 0 then Err InvalidArgument
     else
       and_then (validate_host_capability_registry registry) (\<lambda>_.
         discover_loop registry capability_id capability_version))"

function wire_registry_loop :: "u32 option \<Rightarrow> u8 list \<Rightarrow> HostCapabilityError + unit" where
  "wire_registry_loop previous_id remaining =
    (if remaining = [] then Ok ()
     else if length remaining < 14 then Err InvalidWireFrame
     else
       and_then (hc_read_u16 remaining 12) (\<lambda>abi.
       if abi \<noteq> HOST_CAPABILITY_ABI_VERSION then Err UnsupportedAbiVersion
       else
         (case get_range remaining 0 HOST_CAPABILITY_DESCRIPTOR_WIRE_SIZE of
           None \<Rightarrow> Err InvalidWireFrame
         | Some wire \<Rightarrow>
             and_then (descriptor_decode wire) (\<lambda>descriptor.
             if (case previous_id of None \<Rightarrow> False | Some v \<Rightarrow> v \<ge> hcd_capability_id descriptor)
             then Err InvalidRegistry
             else
               (case get_range remaining HOST_CAPABILITY_DESCRIPTOR_WIRE_SIZE (length remaining) of
                 None \<Rightarrow> Err InvalidWireFrame
               | Some rest \<Rightarrow> wire_registry_loop (Some (hcd_capability_id descriptor)) rest)))))"
  by pat_completeness auto
termination
  by (relation "measure (\<lambda>(_, remaining). length remaining)")
    (auto simp: get_range_def HOST_CAPABILITY_DESCRIPTOR_WIRE_SIZE_def split: if_splits)

declare wire_registry_loop.simps [simp del]

definition validate_host_capability_wire_registry :: "u8 list \<Rightarrow> HostCapabilityError + unit" where
  "validate_host_capability_wire_registry registry = wire_registry_loop None registry"

text \<open>The whole 16-byte records of a registry, as \<open>as_chunks\<close> yields them.\<close>

function descriptor_chunks :: "u8 list \<Rightarrow> u8 list list" where
  "descriptor_chunks registry =
    (if length registry < HOST_CAPABILITY_DESCRIPTOR_WIRE_SIZE then []
     else take HOST_CAPABILITY_DESCRIPTOR_WIRE_SIZE registry #
       descriptor_chunks (drop HOST_CAPABILITY_DESCRIPTOR_WIRE_SIZE registry))"
  by pat_completeness auto
termination
  by (relation "measure length") (auto simp: HOST_CAPABILITY_DESCRIPTOR_WIRE_SIZE_def)

declare descriptor_chunks.simps [simp del]

fun discover_wire_loop ::
  "u8 list list \<Rightarrow> u32 \<Rightarrow> u16 \<Rightarrow> HostCapabilityError + HostCapabilityDescriptor" where
  "discover_wire_loop [] capability_id capability_version = Err UnknownCapability"
| "discover_wire_loop (wire # registry) capability_id capability_version =
    and_then (descriptor_decode wire) (\<lambda>descriptor.
    if hcd_capability_id descriptor < capability_id
    then discover_wire_loop registry capability_id capability_version
    else if hcd_capability_id descriptor > capability_id then Err UnknownCapability
    else if capability_version < hcd_minimum_version descriptor \<or>
      capability_version > hcd_maximum_version descriptor
    then Err UnsupportedCapabilityVersion
    else if hcd_flags descriptor AND HOST_CAPABILITY_FLAG_AVAILABLE = 0 then Err UnavailableCapability
    else Ok descriptor)"

definition discover_host_capability_wire ::
  "u8 list \<Rightarrow> u32 \<Rightarrow> u16 \<Rightarrow> HostCapabilityError + HostCapabilityDescriptor" where
  "discover_host_capability_wire registry capability_id capability_version =
    (if capability_id = 0 \<or> capability_version = 0 then Err InvalidArgument
     else
       and_then (validate_host_capability_wire_registry registry) (\<lambda>_.
         discover_wire_loop (descriptor_chunks registry) capability_id capability_version))"

subsection \<open>Requests and responses\<close>

definition validate_request ::
  "HostCapabilityFrame \<Rightarrow> u64 \<Rightarrow> HostCapabilityDescriptor list \<Rightarrow> HostCapabilityError + unit" where
  "validate_request self guest_memory_size registry =
    and_then (frame_validate_shape self) (\<lambda>_.
    if hcf_status self \<noteq> Pending then Err InvalidStatus
    else
      and_then (discover_host_capability registry (hcf_capability_id self) (hcf_capability_version self))
        (\<lambda>descriptor.
      if hcf_flags self AND HOST_CALL_FLAG_NONBLOCKING \<noteq> 0 \<and>
        hcd_flags descriptor AND HOST_CAPABILITY_FLAG_MAY_BLOCK = 0
      then Err InvalidStatus
      else if \<not> range_valid (hcf_request_offset self) (hcf_request_length self) guest_memory_size \<or>
        \<not> range_valid (hcf_result_offset self) (hcf_result_capacity self) guest_memory_size
      then Err InvalidRange
      else
        and_then (ranges_overlap (hcf_request_offset self) (hcf_request_length self)
          (hcf_result_offset self) (hcf_result_capacity self))
          (\<lambda>overlap. if overlap then Err InvalidRange else Ok ())))"

definition response_identity_matches :: "HostCapabilityFrame \<Rightarrow> HostCapabilityFrame \<Rightarrow> bool" where
  "response_identity_matches request response \<longleftrightarrow>
    hcf_abi_version response = hcf_abi_version request \<and>
    hcf_capability_id response = hcf_capability_id request \<and>
    hcf_capability_version response = hcf_capability_version request \<and>
    hcf_operation response = hcf_operation request \<and>
    hcf_flags response = hcf_flags request \<and>
    hcf_request_offset response = hcf_request_offset request \<and>
    hcf_request_length response = hcf_request_length request \<and>
    hcf_result_offset response = hcf_result_offset request \<and>
    hcf_result_capacity response = hcf_result_capacity request \<and>
    hcf_call_id response = hcf_call_id request"

definition validate_host_capability_response ::
  "HostCapabilityFrame \<Rightarrow> HostCapabilityFrame \<Rightarrow> u64 \<Rightarrow> HostCapabilityDescriptor list \<Rightarrow>
    HostCapabilityError + unit" where
  "validate_host_capability_response request response guest_memory_size registry =
    and_then (validate_request request guest_memory_size registry) (\<lambda>_.
    and_then (frame_validate_shape response) (\<lambda>_.
    if \<not> response_identity_matches request response \<or> hcf_status response = Pending
    then Err InvalidResponse
    else
      and_then (discover_host_capability registry (hcf_capability_id request)
        (hcf_capability_version request)) (\<lambda>descriptor.
      if hcf_status response = Partial \<and>
        (hcd_flags descriptor AND HOST_CAPABILITY_FLAG_PARTIAL_PROGRESS = 0 \<or>
         hcf_result_length response = 0)
      then Err InvalidResponse
      else if hcf_status response = WouldBlock \<and>
        (hcd_flags descriptor AND HOST_CAPABILITY_FLAG_MAY_BLOCK = 0 \<or>
         hcf_flags request AND HOST_CALL_FLAG_NONBLOCKING = 0)
      then Err InvalidResponse
      else Ok ())))"

text \<open>The guest memory after the commit; an error leaves the memory as it was.\<close>

definition commit_host_capability_response ::
  "HostCapabilityFrame \<Rightarrow> HostCapabilityFrame \<Rightarrow> HostCapabilityDescriptor list \<Rightarrow> u8 list \<Rightarrow> u8 list \<Rightarrow>
    HostCapabilityError + u8 list" where
  "commit_host_capability_response request response registry guest_memory staged_result =
    and_then (validate_host_capability_response request response (length guest_memory) registry) (\<lambda>_.
    if length staged_result \<noteq> hcf_result_length response then Err InvalidResponse
    else
      and_then (ok_or InvalidRange
        (checked_add U64_MAX (hcf_result_offset response) (hcf_result_length response))) (\<lambda>result_end.
      ok_or InvalidRange
        (copy_range guest_memory (hcf_result_offset response) result_end staged_result)))"

end
