(* ===== verification/HostCapabilityFacts.thy ===== *)
theory HostCapabilityFacts
  imports HostCapability
begin

text \<open>
  The codecs of \<open>HostCapability\<close>: descriptors, frames and spans decode exactly from what their encoders
  write, and the registry bytes discovery reads are those of an ordered list of valid descriptors.
  A buffer written from left to right is the concatenation of what was written (\<open>laid\<close>), and a buffer
  that is read is cut into the same pieces (\<open>pieces\<close>).
\<close>

subsection \<open>Slices\<close>

lemma get_range_Some: "get_range xs a b = Some ys \<longleftrightarrow> a \<le> b \<and> b \<le> length xs \<and> ys = take (b - a) (drop a xs)"
  by (auto simp: get_range_def)

lemma copy_range_Some:
  "copy_range xs a b bytes = Some ys \<longleftrightarrow> a \<le> b \<and> b \<le> length xs \<and> ys = take a xs @ bytes @ drop b xs"
  by (auto simp: copy_range_def)

lemma hc_read_array_enough:
  "offset + n \<le> length source \<Longrightarrow> hc_read_array n source offset = Inr (take n (drop offset source))"
  by (simp add: hc_read_array_def get_range_def)

lemmas hc_reads = hc_read_u16_def hc_read_u32_def hc_read_u64_def

text \<open>A buffer that is written from left to right.\<close>

definition laid :: "u8 list list \<Rightarrow> nat \<Rightarrow> u8 list" where
  "laid parts n = concat parts @ replicate (n - length (concat parts)) 0"

lemma laid_Nil: "replicate n 0 = laid [] n"
  by (simp add: laid_def)

lemma laid_full: "length (concat parts) = n \<Longrightarrow> laid parts n = concat parts"
  by (simp add: laid_def)

lemma hc_write_laid:
  assumes "offset = length (concat parts)" and "offset + length bytes \<le> n"
  shows "hc_write_bytes offset bytes (laid parts n) = Inr (laid (parts @ [bytes]) n)"
  using assms by (simp add: hc_write_bytes_def copy_range_def laid_def)

text \<open>A buffer cut into pieces of given lengths.\<close>

fun pieces :: "nat list \<Rightarrow> 'a list \<Rightarrow> 'a list list" where
  "pieces [] xs = []"
| "pieces (n # ns) xs = take n xs # pieces ns (drop n xs)"

lemma concat_pieces: "concat (pieces ns xs) = take (sum_list ns) xs"
  by (induction ns arbitrary: xs) (simp_all add: take_add)

lemma le_bytes_of_slice:
  "offset + n \<le> length xs \<Longrightarrow> le_bytes n (from_le_bytes (take n (drop offset xs))) = take n (drop offset xs)"
  by (simp add: le_from_le)

lemma from_le_slice_lt: "offset + n \<le> length xs \<Longrightarrow> from_le_bytes (take n (drop offset xs)) < 256 ^ n"
  using from_le_lt[of "take n (drop offset xs)"] by simp

lemma from_le_fits:
  "v \<le> U16_MAX \<Longrightarrow> from_le_bytes (le_bytes 2 v) = v"
  "v \<le> U32_MAX \<Longrightarrow> from_le_bytes (le_bytes 4 v) = v"
  "v \<le> U64_MAX \<Longrightarrow> from_le_bytes (le_bytes 8 v) = v"
  by (simp_all add: from_le_le U16_MAX_def U32_MAX_def U64_MAX_def)

lemma flags_fit: "unat (w :: 32 word) \<le> U32_MAX"
  using unsigned_less[of w, where ?'a = nat] by (simp add: U32_MAX_def)

lemma flags_wire: "n \<le> U32_MAX \<Longrightarrow> unat (of_nat n :: 32 word) = n"
  by (simp add: unat_of_nat U32_MAX_def)

subsection \<open>Descriptors\<close>

definition descriptor_fits :: "HostCapabilityDescriptor \<Rightarrow> bool" where
  "descriptor_fits d \<longleftrightarrow> hcd_capability_id d \<le> U32_MAX \<and> hcd_maximum_version d \<le> U16_MAX \<and>
    hcd_minimum_version d \<le> U16_MAX"

definition descriptor_bytes :: "HostCapabilityDescriptor \<Rightarrow> u8 list" where
  "descriptor_bytes d = concat
    [le_bytes 4 (hcd_capability_id d), le_bytes 2 (hcd_minimum_version d),
     le_bytes 2 (hcd_maximum_version d), le_bytes 4 (unat (hcd_flags d)), le_bytes 2 1, le_bytes 2 16]"

lemma length_descriptor_bytes [simp]: "length (descriptor_bytes d) = 16"
  by (simp add: descriptor_bytes_def)

lemma descriptor_encode_Inr:
  "descriptor_encode d = Inr bs \<longleftrightarrow> descriptor_validate d = Inr () \<and> bs = descriptor_bytes d"
proof (cases "descriptor_validate d")
  case (Inl e)
  then show ?thesis by (simp add: descriptor_encode_def)
next
  case (Inr u)
  have "descriptor_encode d = Inr (laid
    [le_bytes 4 (hcd_capability_id d), le_bytes 2 (hcd_minimum_version d),
     le_bytes 2 (hcd_maximum_version d), le_bytes 4 (unat (hcd_flags d)), le_bytes 2 1, le_bytes 2 16] 16)"
    using Inr by (simp add: descriptor_encode_def HOST_CAPABILITY_DESCRIPTOR_WIRE_SIZE_def laid_Nil
        hc_write_laid HOST_CAPABILITY_ABI_VERSION_def DESCRIPTOR_WIRE_SIZE_U16_def)
  then show ?thesis using Inr by (auto simp: laid_full descriptor_bytes_def)
qed

lemma descriptor_decode_bytes:
  assumes "descriptor_fits d"
  shows "descriptor_decode (descriptor_bytes d) = and_then (descriptor_validate d) (\<lambda>_. Inr d)"
  using assms flags_fit[of "hcd_flags d"]
  by (simp add: descriptor_decode_def hc_reads hc_read_array_enough HOST_CAPABILITY_DESCRIPTOR_WIRE_SIZE_def
      HOST_CAPABILITY_ABI_VERSION_def DESCRIPTOR_WIRE_SIZE_U16_def Let_def descriptor_fits_def)
    (cases d, simp add: descriptor_bytes_def from_le_fits U16_MAX_def)

lemma descriptor_decode_Inr:
  assumes "descriptor_decode bs = Inr d"
  shows "descriptor_fits d \<and> descriptor_validate d = Inr () \<and> bs = descriptor_bytes d"
proof -
  have len: "length bs = 16"
    using assms by (auto simp: descriptor_decode_def and_then_Inr_iff HOST_CAPABILITY_DESCRIPTOR_WIRE_SIZE_def
        split: if_splits)
  let ?at = "\<lambda>n k. take n (drop k bs)"
  note rd = hc_read_array_enough[of _ _ bs, unfolded len]
  have v: "descriptor_validate d = Inr ()"
    and abi: "from_le_bytes (?at 2 12) = 1" and size: "from_le_bytes (?at 2 14) = 16"
    and d: "d = \<lparr>hcd_capability_id = from_le_bytes (?at 4 0), hcd_flags = of_nat (from_le_bytes (?at 4 8)),
      hcd_maximum_version = from_le_bytes (?at 2 6), hcd_minimum_version = from_le_bytes (?at 2 4)\<rparr>"
    using assms len by (auto simp: descriptor_decode_def and_then_Inr_iff hc_reads rd Let_def
        HOST_CAPABILITY_ABI_VERSION_def DESCRIPTOR_WIRE_SIZE_U16_def split: if_splits)
  have lt: "from_le_bytes (?at 4 0) < 256 ^ 4" "from_le_bytes (?at 4 8) < 256 ^ 4"
    "from_le_bytes (?at 2 6) < 256 ^ 2" "from_le_bytes (?at 2 4) < 256 ^ 2"
    using len by (simp_all only: from_le_slice_lt)
  have fits: "descriptor_fits d" "from_le_bytes (?at 4 8) \<le> U32_MAX"
    using lt by (simp_all add: d descriptor_fits_def U32_MAX_def U16_MAX_def)
  have "descriptor_bytes d = concat (pieces [4, 2, 2, 4, 2, 2] bs)"
    using len fits(2) le_bytes_of_slice[of 12 2 bs] le_bytes_of_slice[of 14 2 bs] abi size
    by (simp add: d descriptor_bytes_def flags_wire le_bytes_of_slice[of 0 4 bs, simplified] le_bytes_of_slice)
  moreover have "concat (pieces [4, 2, 2, 4, 2, 2] bs) = bs"
    unfolding concat_pieces using len by simp
  ultimately show ?thesis using v fits(1) by simp
qed

lemma descriptor_codec:
  "descriptor_decode bs = Inr d \<longleftrightarrow> descriptor_fits d \<and> descriptor_encode d = Inr bs"
  using descriptor_decode_Inr[of bs d] descriptor_decode_bytes[of d]
  by (auto simp: descriptor_encode_Inr)

subsection \<open>Frames\<close>

definition frame_fits :: "HostCapabilityFrame \<Rightarrow> bool" where
  "frame_fits f \<longleftrightarrow> hcf_abi_version f \<le> U16_MAX \<and> hcf_call_id f \<le> U64_MAX \<and>
    hcf_capability_id f \<le> U32_MAX \<and> hcf_capability_version f \<le> U16_MAX \<and>
    hcf_operation f \<le> U16_MAX \<and> hcf_request_length f \<le> U64_MAX \<and>
    hcf_request_offset f \<le> U64_MAX \<and> hcf_result_capacity f \<le> U64_MAX \<and>
    hcf_result_length f \<le> U64_MAX \<and> hcf_result_offset f \<le> U64_MAX"

definition frame_bytes :: "HostCapabilityFrame \<Rightarrow> u8 list" where
  "frame_bytes f = concat
    [le_bytes 4 FRAME_MAGIC, le_bytes 2 (hcf_abi_version f), le_bytes 2 72,
     le_bytes 4 (hcf_capability_id f), le_bytes 2 (hcf_capability_version f),
     le_bytes 2 (hcf_operation f), le_bytes 4 (unat (hcf_flags f)),
     le_bytes 4 (status_wire_value (hcf_status f)), le_bytes 8 (hcf_request_offset f),
     le_bytes 8 (hcf_request_length f), le_bytes 8 (hcf_result_offset f),
     le_bytes 8 (hcf_result_capacity f), le_bytes 8 (hcf_result_length f),
     le_bytes 8 (hcf_call_id f)]"

lemma length_frame_bytes [simp]: "length (frame_bytes f) = 72"
  by (simp add: frame_bytes_def)

lemma status_from_wire_Inr: "status_from_wire v = Inr s \<longleftrightarrow> v = status_wire_value s"
  by (cases s) (auto simp: status_from_wire_def)

lemma status_wire_value_le: "status_wire_value s \<le> U32_MAX"
  by (cases s) (simp_all add: U32_MAX_def)

lemma frame_encode_Inr:
  "frame_encode f = Inr bs \<longleftrightarrow> frame_validate_shape f = Inr () \<and> bs = frame_bytes f"
proof (cases "frame_validate_shape f")
  case (Inl e)
  then show ?thesis by (simp add: frame_encode_def)
next
  case (Inr u)
  have "frame_encode f = Inr (laid
    [le_bytes 4 FRAME_MAGIC, le_bytes 2 (hcf_abi_version f), le_bytes 2 72,
     le_bytes 4 (hcf_capability_id f), le_bytes 2 (hcf_capability_version f),
     le_bytes 2 (hcf_operation f), le_bytes 4 (unat (hcf_flags f)),
     le_bytes 4 (status_wire_value (hcf_status f)), le_bytes 8 (hcf_request_offset f),
     le_bytes 8 (hcf_request_length f), le_bytes 8 (hcf_result_offset f),
     le_bytes 8 (hcf_result_capacity f), le_bytes 8 (hcf_result_length f),
     le_bytes 8 (hcf_call_id f)] 72)"
    using Inr by (simp add: frame_encode_def HOST_CAPABILITY_FRAME_WIRE_SIZE_def laid_Nil
        hc_write_laid FRAME_WIRE_SIZE_U16_def)
  then show ?thesis using Inr by (auto simp: laid_full frame_bytes_def)
qed

lemma frame_decode_bytes:
  assumes "frame_fits f" and "frame_validate_shape f = Inr ()"
  shows "frame_decode (frame_bytes f) = Inr f"
proof -
  have abi: "hcf_abi_version f = 1"
    using assms(2) by (auto simp: frame_validate_shape_def HOST_CAPABILITY_ABI_VERSION_def split: if_splits)
  have st: "status_from_wire (status_wire_value s) = Inr s" for s
    by (simp add: status_from_wire_Inr)
  have magic: "from_le_bytes (le_bytes 4 FRAME_MAGIC) = FRAME_MAGIC"
    by (simp add: from_le_fits FRAME_MAGIC_def U32_MAX_def)
  note fl = flags_fit[of "hcf_flags f"] status_wire_value_le[of "hcf_status f"]
  show ?thesis
    using assms(1) fl abi assms(2)
    by (simp add: frame_decode_def hc_reads hc_read_array_enough HOST_CAPABILITY_FRAME_WIRE_SIZE_def
        HOST_CAPABILITY_ABI_VERSION_def FRAME_WIRE_SIZE_U16_def Let_def frame_fits_def)
      (cases f, simp add: frame_bytes_def from_le_fits U16_MAX_def magic st)
qed

lemma frame_decode_Inr:
  assumes "frame_decode bs = Inr f"
  shows "frame_fits f \<and> frame_validate_shape f = Inr () \<and> bs = frame_bytes f"
proof -
  have len: "length bs = 72"
    using assms by (auto simp: frame_decode_def and_then_Inr_iff HOST_CAPABILITY_FRAME_WIRE_SIZE_def
        split: if_splits)
  let ?at = "\<lambda>n k. from_le_bytes (take n (drop k bs))"
  note rd = hc_read_array_enough[of _ _ bs, unfolded len]
  obtain s where v: "frame_validate_shape f = Inr ()"
    and fixed: "?at 4 0 = FRAME_MAGIC" "?at 2 4 = 1" "?at 2 6 = 72" and s: "status_from_wire (?at 4 20) = Inr s"
    and f: "f = \<lparr>hcf_abi_version = ?at 2 4, hcf_call_id = ?at 8 64, hcf_capability_id = ?at 4 8,
      hcf_capability_version = ?at 2 12, hcf_flags = of_nat (?at 4 16), hcf_operation = ?at 2 14,
      hcf_request_length = ?at 8 32, hcf_request_offset = ?at 8 24, hcf_result_capacity = ?at 8 48,
      hcf_result_length = ?at 8 56, hcf_result_offset = ?at 8 40, hcf_status = s\<rparr>"
    using assms len by (auto simp: frame_decode_def and_then_Inr_iff hc_reads rd Let_def
        HOST_CAPABILITY_ABI_VERSION_def FRAME_WIRE_SIZE_U16_def split: if_splits)
  have lt2: "?at 2 k \<le> U16_MAX" if "k + 2 \<le> 72" for k
    using from_le_slice_lt[of k 2 bs] that len by (simp add: U16_MAX_def)
  have lt4: "?at 4 k \<le> U32_MAX" if "k + 4 \<le> 72" for k
    using from_le_slice_lt[of k 4 bs] that len by (simp add: U32_MAX_def)
  have lt8: "?at 8 k \<le> U64_MAX" if "k + 8 \<le> 72" for k
    using from_le_slice_lt[of k 8 bs] that len by (simp add: U64_MAX_def)
  have fits: "frame_fits f"
    using lt2[of 4] lt2[of 12] lt2[of 14] lt4[of 8] lt8[of 64] lt8[of 32] lt8[of 24] lt8[of 48] lt8[of 56] lt8[of 40]
    by (simp add: f frame_fits_def)
  have cut: "le_bytes n (?at n k) = take n (drop k bs)" if "k + n \<le> 72" for n k
    using le_bytes_of_slice[of k n bs] that len by simp
  have "frame_bytes f = concat (pieces [4, 2, 2, 4, 2, 2, 4, 4, 8, 8, 8, 8, 8, 8] bs)"
  proof -
    have "le_bytes 4 FRAME_MAGIC = take 4 bs" using cut[of 0 4] fixed(1) by simp
    moreover have "le_bytes 2 72 = take 2 (drop 6 bs)" using cut[of 6 2] fixed(3) by simp
    moreover have "le_bytes 4 (status_wire_value s) = take 4 (drop 20 bs)"
      using cut[of 20 4] s by (simp add: status_from_wire_Inr)
    moreover have "le_bytes 4 (unat (of_nat (?at 4 16) :: 32 word)) = take 4 (drop 16 bs)"
      using cut[of 16 4] by (simp add: flags_wire[OF lt4[of 16]])
    ultimately show ?thesis by (simp add: f frame_bytes_def cut)
  qed
  moreover have "concat (pieces [4, 2, 2, 4, 2, 2, 4, 4, 8, 8, 8, 8, 8, 8] bs) = bs"
    unfolding concat_pieces using len by simp
  ultimately show ?thesis using v fits by simp
qed

lemma frame_codec: "frame_decode bs = Inr f \<longleftrightarrow> frame_fits f \<and> frame_encode f = Inr bs"
  using frame_decode_Inr[of bs f] frame_decode_bytes[of f] by (auto simp: frame_encode_Inr)

subsection \<open>Spans\<close>

lemma span_codec:
  "span_decode bs = Inr s \<longleftrightarrow> hcs_length s \<le> U64_MAX \<and> hcs_offset s \<le> U64_MAX \<and> bs = span_encode s"
proof (cases "length bs = 16")
  case False
  then show ?thesis by (auto simp: span_decode_def span_encode_def HOST_CAPABILITY_SPAN_WIRE_SIZE_def)
next
  case True
  let ?at = "\<lambda>k. from_le_bytes (take 8 (drop k bs))"
  have d: "span_decode bs = Inr \<lparr>hcs_length = ?at 8, hcs_offset = ?at 0\<rparr>"
    using True by (simp add: span_decode_def hc_reads hc_read_array_enough HOST_CAPABILITY_SPAN_WIRE_SIZE_def)
  have lt: "?at 8 \<le> U64_MAX" "?at 0 \<le> U64_MAX"
    using from_le_slice_lt[of 8 8 bs] from_le_slice_lt[of 0 8 bs] True by (simp_all add: U64_MAX_def)
  have b: "bs = le_bytes 8 (?at 0) @ le_bytes 8 (?at 8)"
    using le_bytes_of_slice[of 0 8 bs] le_bytes_of_slice[of 8 8 bs] True by simp
  show ?thesis
  proof
    assume "span_decode bs = Inr s"
    then show "hcs_length s \<le> U64_MAX \<and> hcs_offset s \<le> U64_MAX \<and> bs = span_encode s"
      using d lt b by (auto simp: span_encode_def)
  next
    assume "hcs_length s \<le> U64_MAX \<and> hcs_offset s \<le> U64_MAX \<and> bs = span_encode s"
    then show "span_decode bs = Inr s"
      using d by (cases s) (auto simp: span_encode_def from_le_fits)
  qed
qed

subsection \<open>Registries\<close>

definition wf_registry :: "HostCapabilityDescriptor list \<Rightarrow> bool" where
  "wf_registry ds \<longleftrightarrow> sorted_wrt (<) (map hcd_capability_id ds) \<and>
    (\<forall>d \<in> set ds. descriptor_validate d = Inr ())"

definition registry_bytes :: "HostCapabilityDescriptor list \<Rightarrow> u8 list" where
  "registry_bytes ds = concat (map descriptor_bytes ds)"

lemma validate_registry_loop_Inr:
  "validate_registry_loop prev ds = Inr () \<longleftrightarrow>
    sorted_wrt (<) ((case prev of None \<Rightarrow> [] | Some v \<Rightarrow> [v]) @ map hcd_capability_id ds) \<and>
    (\<forall>d \<in> set ds. descriptor_validate d = Inr ())"
proof (induction ds arbitrary: prev)
  case Nil
  then show ?case by (cases prev) auto
next
  case (Cons d ds)
  show ?case
    by (cases prev) (auto simp: and_then_Inr_iff Cons.IH not_le)
qed

lemma validate_registry_Inr: "validate_host_capability_registry ds = Inr () \<longleftrightarrow> wf_registry ds"
  by (simp add: validate_host_capability_registry_def validate_registry_loop_Inr wf_registry_def)

lemma wire_registry_loop_bytes:
  "\<forall>d \<in> set ds. descriptor_fits d \<Longrightarrow>
    wire_registry_loop prev (registry_bytes ds) = validate_registry_loop prev ds"
proof (induction ds arbitrary: prev)
  case Nil
  then show ?case by (subst wire_registry_loop.simps) (simp add: registry_bytes_def)
next
  case (Cons d ds)
  have fits: "descriptor_fits d" using Cons.prems by simp
  have abi: "hc_read_u16 (descriptor_bytes d @ registry_bytes ds) 12 = Inr 1"
    by (simp add: hc_reads hc_read_array_enough) (simp add: descriptor_bytes_def from_le_fits U16_MAX_def)
  have ne: "descriptor_bytes d \<noteq> []" using length_descriptor_bytes[of d] by (metis list.size(3) zero_neq_numeral)
  have "registry_bytes (d # ds) = descriptor_bytes d @ registry_bytes ds" by (simp add: registry_bytes_def)
  then show ?case
    using Cons.IH[of "Some (hcd_capability_id d)"] Cons.prems abi ne descriptor_decode_bytes[OF fits]
    by (cases "descriptor_validate d")
      (simp_all add: wire_registry_loop.simps[of prev "descriptor_bytes d @ registry_bytes ds"]
        get_range_def HOST_CAPABILITY_DESCRIPTOR_WIRE_SIZE_def HOST_CAPABILITY_ABI_VERSION_def)
qed

lemma wire_registry_loop_Inr:
  "wire_registry_loop prev bs = Inr () \<Longrightarrow> \<exists>ds. bs = registry_bytes ds \<and> (\<forall>d \<in> set ds. descriptor_fits d)"
proof (induction prev bs rule: wire_registry_loop.induct)
  case (1 prev bs)
  show ?case
  proof (cases "bs = []")
    case True
    then show ?thesis by (intro exI[of _ "[]"]) (simp add: registry_bytes_def)
  next
    case False
    have long: "\<not> length bs < 14" and r: "and_then (hc_read_u16 bs 12) (\<lambda>abi.
        if abi \<noteq> HOST_CAPABILITY_ABI_VERSION then Err UnsupportedAbiVersion
        else (case get_range bs 0 HOST_CAPABILITY_DESCRIPTOR_WIRE_SIZE of
          None \<Rightarrow> Err InvalidWireFrame
        | Some wire \<Rightarrow> and_then (descriptor_decode wire) (\<lambda>descriptor.
            if (case prev of None \<Rightarrow> False | Some v \<Rightarrow> v \<ge> hcd_capability_id descriptor)
            then Err InvalidRegistry
            else (case get_range bs HOST_CAPABILITY_DESCRIPTOR_WIRE_SIZE (length bs) of
              None \<Rightarrow> Err InvalidWireFrame
            | Some rest \<Rightarrow> wire_registry_loop (Some (hcd_capability_id descriptor)) rest)))) = Inr ()"
      using "1.prems" False by (subst (asm) wire_registry_loop.simps, simp split: if_splits)+
    obtain abi wire d rest where abi: "hc_read_u16 bs 12 = Inr abi" "\<not> abi \<noteq> HOST_CAPABILITY_ABI_VERSION"
      and w: "get_range bs 0 HOST_CAPABILITY_DESCRIPTOR_WIRE_SIZE = Some wire"
      and d: "descriptor_decode wire = Inr d"
      and prev: "\<not> (case prev of None \<Rightarrow> False | Some v \<Rightarrow> v \<ge> hcd_capability_id d)"
      and rest: "get_range bs HOST_CAPABILITY_DESCRIPTOR_WIRE_SIZE (length bs) = Some rest"
      and rec: "wire_registry_loop (Some (hcd_capability_id d)) rest = Inr ()"
      using r by (simp add: and_then_Inr_iff split: if_splits option.splits) metis
    obtain ds where ds: "rest = registry_bytes ds" "\<forall>d \<in> set ds. descriptor_fits d"
      using "1.IH"[OF False long abi w d prev rest rec] by blast
    have "bs = wire @ rest" using w rest by (auto simp: get_range_Some)
    then show ?thesis
      using ds descriptor_decode_Inr[OF d] by (intro exI[of _ "d # ds"]) (simp add: registry_bytes_def)
  qed
qed

lemma descriptor_chunks_bytes: "descriptor_chunks (registry_bytes ds) = map descriptor_bytes ds"
proof (induction ds)
  case Nil
  then show ?case
    by (subst descriptor_chunks.simps) (simp add: registry_bytes_def HOST_CAPABILITY_DESCRIPTOR_WIRE_SIZE_def)
next
  case (Cons d ds)
  have "registry_bytes (d # ds) = descriptor_bytes d @ registry_bytes ds" by (simp add: registry_bytes_def)
  then show ?case
    using Cons by (subst descriptor_chunks.simps) (simp add: HOST_CAPABILITY_DESCRIPTOR_WIRE_SIZE_def)
qed

lemma discover_wire_loop_bytes:
  "\<forall>d \<in> set ds. descriptor_fits d \<and> descriptor_validate d = Inr () \<Longrightarrow>
    discover_wire_loop (map descriptor_bytes ds) capability version = discover_loop ds capability version"
  by (induction ds) (simp_all add: descriptor_decode_bytes)

lemma discover_loop_Inr:
  "sorted_wrt (<) (map hcd_capability_id ds) \<Longrightarrow> discover_loop ds capability version = Inr d \<longleftrightarrow>
    d \<in> set ds \<and> hcd_capability_id d = capability \<and> hcd_minimum_version d \<le> version \<and>
    version \<le> hcd_maximum_version d \<and> hcd_flags d AND HOST_CAPABILITY_FLAG_AVAILABLE \<noteq> 0"
proof (induction ds)
  case Nil
  then show ?case by simp
next
  case (Cons e ds)
  then show ?case by (auto simp: not_less)
qed

lemma discover_Inr:
  "discover_host_capability ds capability version = Inr d \<longleftrightarrow>
    capability \<noteq> 0 \<and> version \<noteq> 0 \<and> wf_registry ds \<and> d \<in> set ds \<and>
    hcd_capability_id d = capability \<and> hcd_minimum_version d \<le> version \<and>
    version \<le> hcd_maximum_version d \<and> hcd_flags d AND HOST_CAPABILITY_FLAG_AVAILABLE \<noteq> 0"
  using discover_loop_Inr[of ds capability version d]
  by (auto simp: discover_host_capability_def and_then_Inr_iff validate_registry_Inr wf_registry_def)

lemma discover_wire_bytes:
  assumes "\<forall>d \<in> set ds. descriptor_fits d"
  shows "discover_host_capability_wire (registry_bytes ds) capability version =
    discover_host_capability ds capability version"
proof (cases "validate_host_capability_registry ds")
  case (Inl e)
  then show ?thesis
    using wire_registry_loop_bytes[OF assms, of None]
    by (simp add: discover_host_capability_wire_def discover_host_capability_def
        validate_host_capability_wire_registry_def validate_host_capability_registry_def)
next
  case (Inr u)
  then have "wf_registry ds" by (simp add: validate_registry_Inr)
  then show ?thesis
    using wire_registry_loop_bytes[OF assms, of None] Inr assms
      discover_wire_loop_bytes[of ds capability version]
    by (simp add: discover_host_capability_wire_def discover_host_capability_def
        validate_host_capability_wire_registry_def validate_host_capability_registry_def
        descriptor_chunks_bytes wf_registry_def)
qed

lemma discover_wire_Inr:
  "discover_host_capability_wire bs capability version = Inr d \<longleftrightarrow>
    (\<exists>ds. bs = registry_bytes ds \<and> (\<forall>e \<in> set ds. descriptor_fits e) \<and>
      discover_host_capability ds capability version = Inr d)"
proof
  assume a: "discover_host_capability_wire bs capability version = Inr d"
  then have "wire_registry_loop None bs = Inr ()"
    by (auto simp: discover_host_capability_wire_def validate_host_capability_wire_registry_def
        and_then_Inr_iff split: if_splits)
  then obtain ds where "bs = registry_bytes ds" "\<forall>d \<in> set ds. descriptor_fits d"
    using wire_registry_loop_Inr by blast
  then show "\<exists>ds. bs = registry_bytes ds \<and> (\<forall>e \<in> set ds. descriptor_fits e) \<and>
      discover_host_capability ds capability version = Inr d"
    using a discover_wire_bytes by metis
next
  assume "\<exists>ds. bs = registry_bytes ds \<and> (\<forall>e \<in> set ds. descriptor_fits e) \<and>
      discover_host_capability ds capability version = Inr d"
  then show "discover_host_capability_wire bs capability version = Inr d"
    using discover_wire_bytes by auto
qed

subsection \<open>Properties\<close>

text \<open>
  C23: a frame of 72 bytes decodes to a call exactly when the call fits the widths of the frame and
  encodes to those bytes: no two byte strings decode to the same call, and none that the encoder
  does not write is accepted.
\<close>
theorem host_frame_roundtrip: "frame_decode bs = Inr f \<longleftrightarrow> frame_fits f \<and> frame_encode f = Inr bs"
  by (rule frame_codec)

text \<open>
  C24: discovery over registry bytes finds a capability exactly when the bytes are those of a list
  of descriptors in ascending order of identity, all valid, and the one asked for is among them,
  supports the version and is available.
\<close>
theorem wire_discovery_is_lookup:
  "discover_host_capability_wire bs capability version = Inr d \<longleftrightarrow>
    (\<exists>ds. bs = registry_bytes ds \<and> list_all descriptor_fits ds \<and> wf_registry ds \<and> d \<in> set ds \<and>
      capability \<noteq> 0 \<and> version \<noteq> 0 \<and> hcd_capability_id d = capability \<and>
      hcd_minimum_version d \<le> version \<and> version \<le> hcd_maximum_version d \<and>
      hcd_flags d AND HOST_CAPABILITY_FLAG_AVAILABLE \<noteq> 0)"
  unfolding discover_wire_Inr discover_Inr list_all_iff by blast

end
