(* ===== verification/HostSchemas.thy ===== *)
theory HostSchemas
  imports HostCapability
begin

text \<open>
  The version-one payload schemas over the frames: \<open>contract/host_capability_time.rs\<close> (monotonic
  clock and sleep), \<open>contract/host_capability_mouse.rs\<close> (relative capture) and
  \<open>contract/host_capability_telemetry.rs\<close> (three texts behind a fixed header of spans).
\<close>

subsection \<open>Clock and sleep\<close>

definition HOST_MONOTONIC_TIME_CAPABILITY_ID :: u32 where "HOST_MONOTONIC_TIME_CAPABILITY_ID = 0x400"
definition HOST_MONOTONIC_TIME_V1_OPERATION :: u16 where "HOST_MONOTONIC_TIME_V1_OPERATION = 0"
definition HOST_MONOTONIC_TIME_V1_RESULT_SIZE :: usize where "HOST_MONOTONIC_TIME_V1_RESULT_SIZE = 8"
definition HOST_MONOTONIC_TIME_V1_VERSION :: u16 where "HOST_MONOTONIC_TIME_V1_VERSION = 1"
definition HOST_SLEEP_CAPABILITY_ID :: u32 where "HOST_SLEEP_CAPABILITY_ID = 0x401"
definition HOST_SLEEP_V1_OPERATION :: u16 where "HOST_SLEEP_V1_OPERATION = 0"
definition HOST_SLEEP_V1_REQUEST_SIZE :: usize where "HOST_SLEEP_V1_REQUEST_SIZE = 8"
definition HOST_SLEEP_V1_VERSION :: u16 where "HOST_SLEEP_V1_VERSION = 1"

definition host_monotonic_time_v1_descriptor :: "bool \<Rightarrow> HostCapabilityDescriptor" where
  "host_monotonic_time_v1_descriptor available =
    \<lparr>hcd_capability_id = HOST_MONOTONIC_TIME_CAPABILITY_ID,
     hcd_flags = (if available then HOST_CAPABILITY_FLAG_AVAILABLE else 0),
     hcd_maximum_version = HOST_MONOTONIC_TIME_V1_VERSION,
     hcd_minimum_version = HOST_MONOTONIC_TIME_V1_VERSION\<rparr>"

definition host_sleep_v1_descriptor :: "bool \<Rightarrow> HostCapabilityDescriptor" where
  "host_sleep_v1_descriptor available =
    \<lparr>hcd_capability_id = HOST_SLEEP_CAPABILITY_ID,
     hcd_flags = (if available then HOST_CAPABILITY_FLAG_AVAILABLE OR HOST_CAPABILITY_FLAG_MAY_BLOCK
                  else HOST_CAPABILITY_FLAG_MAY_BLOCK),
     hcd_maximum_version = HOST_SLEEP_V1_VERSION,
     hcd_minimum_version = HOST_SLEEP_V1_VERSION\<rparr>"

definition encode_host_monotonic_time_v1_result :: "u64 \<Rightarrow> u8 list" where
  "encode_host_monotonic_time_v1_result nanoseconds = le_bytes 8 nanoseconds"

definition decode_host_monotonic_time_v1_result :: "u8 list \<Rightarrow> HostCapabilityError + u64" where
  "decode_host_monotonic_time_v1_result payload =
    (if length payload \<noteq> HOST_MONOTONIC_TIME_V1_RESULT_SIZE then Err InvalidPayload
     else Ok (from_le_bytes payload))"

definition encode_host_sleep_v1_request :: "u64 \<Rightarrow> u8 list" where
  "encode_host_sleep_v1_request nanoseconds = le_bytes 8 nanoseconds"

definition decode_host_sleep_v1_request :: "u8 list \<Rightarrow> HostCapabilityError + u64" where
  "decode_host_sleep_v1_request payload =
    (if length payload \<noteq> HOST_SLEEP_V1_REQUEST_SIZE then Err InvalidPayload
     else Ok (from_le_bytes payload))"

definition validate_host_monotonic_time_v1_call ::
  "HostCapabilityFrame \<Rightarrow> u64 \<Rightarrow> HostCapabilityDescriptor list \<Rightarrow> HostCapabilityError + unit" where
  "validate_host_monotonic_time_v1_call frame guest_memory_size registry =
    and_then (validate_request frame guest_memory_size registry) (\<lambda>_.
    and_then (discover_host_capability registry (hcf_capability_id frame) (hcf_capability_version frame))
      (\<lambda>descriptor.
    let expected_result = HOST_MONOTONIC_TIME_V1_RESULT_SIZE
    in if hcf_capability_id frame \<noteq> HOST_MONOTONIC_TIME_CAPABILITY_ID \<or>
         hcf_capability_version frame \<noteq> HOST_MONOTONIC_TIME_V1_VERSION \<or>
         hcf_operation frame \<noteq> HOST_MONOTONIC_TIME_V1_OPERATION \<or> hcf_flags frame \<noteq> 0 \<or>
         hcf_request_length frame \<noteq> 0 \<or> hcf_result_capacity frame \<noteq> expected_result
       then Err InvalidPayload
       else if hcd_flags descriptor \<noteq> HOST_CAPABILITY_FLAG_AVAILABLE then Err InvalidRegistry
       else Ok ()))"

definition time_request_payload :: "HostCapabilityFrame \<Rightarrow> u8 list \<Rightarrow> HostCapabilityError + u8 list" where
  "time_request_payload frame guest_memory =
    and_then (ok_or InvalidRange
      (checked_add U64_MAX (hcf_request_offset frame) (hcf_request_length frame))) (\<lambda>stop.
      ok_or InvalidRange (get_range guest_memory (hcf_request_offset frame) stop))"

definition validate_host_sleep_v1_call ::
  "HostCapabilityFrame \<Rightarrow> u8 list \<Rightarrow> HostCapabilityDescriptor list \<Rightarrow> HostCapabilityError + u64" where
  "validate_host_sleep_v1_call frame guest_memory registry =
    and_then (validate_request frame (length guest_memory) registry) (\<lambda>_.
    and_then (discover_host_capability registry (hcf_capability_id frame) (hcf_capability_version frame))
      (\<lambda>descriptor.
    let expected_request = HOST_SLEEP_V1_REQUEST_SIZE;
        expected_flags = HOST_CAPABILITY_FLAG_AVAILABLE OR HOST_CAPABILITY_FLAG_MAY_BLOCK
    in if hcf_capability_id frame \<noteq> HOST_SLEEP_CAPABILITY_ID \<or>
         hcf_capability_version frame \<noteq> HOST_SLEEP_V1_VERSION \<or>
         hcf_operation frame \<noteq> HOST_SLEEP_V1_OPERATION \<or>
         hcf_flags frame AND NOT HOST_CALL_FLAG_NONBLOCKING \<noteq> 0 \<or>
         hcf_request_length frame \<noteq> expected_request \<or> hcf_result_capacity frame \<noteq> 0
       then Err InvalidPayload
       else if hcd_flags descriptor \<noteq> expected_flags then Err InvalidRegistry
       else and_then (time_request_payload frame guest_memory) decode_host_sleep_v1_request))"

definition validate_host_monotonic_time_v1_result ::
  "HostCapabilityFrame \<Rightarrow> u8 list \<Rightarrow> HostCapabilityError + u64 option" where
  "validate_host_monotonic_time_v1_result response staged_result =
    (if hcf_status response = Complete then
       (let expected = HOST_MONOTONIC_TIME_V1_RESULT_SIZE
        in if hcf_result_length response \<noteq> expected \<or>
             length staged_result \<noteq> HOST_MONOTONIC_TIME_V1_RESULT_SIZE
           then Err InvalidResponse
           else map_ok Some (decode_host_monotonic_time_v1_result staged_result))
     else if \<not> (hcf_status response = Cancelled \<or> hcf_status response = HostError) \<or>
       hcf_result_length response \<noteq> 0 \<or> staged_result \<noteq> []
     then Err InvalidResponse
     else Ok None)"

subsection \<open>Relative mouse capture\<close>

definition HOST_RELATIVE_MOUSE_CAPTURE_CAPABILITY_ID :: u32 where
  "HOST_RELATIVE_MOUSE_CAPTURE_CAPABILITY_ID = 0x601"
definition HOST_RELATIVE_MOUSE_CAPTURE_V1_OPERATION :: u16 where
  "HOST_RELATIVE_MOUSE_CAPTURE_V1_OPERATION = 0"
definition HOST_RELATIVE_MOUSE_CAPTURE_V1_REQUEST_SIZE :: usize where
  "HOST_RELATIVE_MOUSE_CAPTURE_V1_REQUEST_SIZE = 8"
definition HOST_RELATIVE_MOUSE_CAPTURE_V1_VERSION :: u16 where
  "HOST_RELATIVE_MOUSE_CAPTURE_V1_VERSION = 1"

record HostRelativeMouseCaptureV1 =
  hmc_capture :: bool

definition host_relative_mouse_capture_v1_descriptor :: "bool \<Rightarrow> HostCapabilityDescriptor" where
  "host_relative_mouse_capture_v1_descriptor available =
    \<lparr>hcd_capability_id = HOST_RELATIVE_MOUSE_CAPTURE_CAPABILITY_ID,
     hcd_flags = (if available then HOST_CAPABILITY_FLAG_AVAILABLE else 0),
     hcd_maximum_version = HOST_RELATIVE_MOUSE_CAPTURE_V1_VERSION,
     hcd_minimum_version = HOST_RELATIVE_MOUSE_CAPTURE_V1_VERSION\<rparr>"

definition decode_host_relative_mouse_capture_v1 ::
  "u8 list \<Rightarrow> HostCapabilityError + HostRelativeMouseCaptureV1" where
  "decode_host_relative_mouse_capture_v1 payload =
    (if length payload \<noteq> HOST_RELATIVE_MOUSE_CAPTURE_V1_REQUEST_SIZE \<or>
       (case get_range payload 1 (length payload) of
         None \<Rightarrow> True
       | Some reserved \<Rightarrow> list_ex (\<lambda>byte. byte \<noteq> 0) reserved)
     then Err InvalidPayload
     else if get payload 0 = Some 0 then Ok \<lparr>hmc_capture = False\<rparr>
     else if get payload 0 = Some 1 then Ok \<lparr>hmc_capture = True\<rparr>
     else Err InvalidPayload)"

definition encode_host_relative_mouse_capture_v1 :: "HostRelativeMouseCaptureV1 \<Rightarrow> u8 list" where
  "encode_host_relative_mouse_capture_v1 request =
    (replicate HOST_RELATIVE_MOUSE_CAPTURE_V1_REQUEST_SIZE 0)[0 := if hmc_capture request then 1 else 0]"

definition mouse_request_payload :: "HostCapabilityFrame \<Rightarrow> u8 list \<Rightarrow> HostCapabilityError + u8 list" where
  "mouse_request_payload frame guest_memory =
    and_then (ok_or InvalidRange
      (checked_add U64_MAX (hcf_request_offset frame) (hcf_request_length frame))) (\<lambda>stop.
      ok_or InvalidRange (get_range guest_memory (hcf_request_offset frame) stop))"

definition validate_host_relative_mouse_capture_v1_call ::
  "HostCapabilityFrame \<Rightarrow> u8 list \<Rightarrow> HostCapabilityDescriptor list \<Rightarrow>
    HostCapabilityError + HostRelativeMouseCaptureV1" where
  "validate_host_relative_mouse_capture_v1_call frame guest_memory registry =
    and_then (validate_request frame (length guest_memory) registry) (\<lambda>_.
    and_then (discover_host_capability registry (hcf_capability_id frame) (hcf_capability_version frame))
      (\<lambda>descriptor.
    let expected_length = HOST_RELATIVE_MOUSE_CAPTURE_V1_REQUEST_SIZE
    in if hcf_capability_id frame \<noteq> HOST_RELATIVE_MOUSE_CAPTURE_CAPABILITY_ID \<or>
         hcf_capability_version frame \<noteq> HOST_RELATIVE_MOUSE_CAPTURE_V1_VERSION \<or>
         hcf_operation frame \<noteq> HOST_RELATIVE_MOUSE_CAPTURE_V1_OPERATION \<or> hcf_flags frame \<noteq> 0 \<or>
         hcf_request_length frame \<noteq> expected_length \<or> hcf_result_capacity frame \<noteq> 0
       then Err InvalidPayload
       else if hcd_flags descriptor \<noteq> HOST_CAPABILITY_FLAG_AVAILABLE then Err InvalidRegistry
       else and_then (mouse_request_payload frame guest_memory) decode_host_relative_mouse_capture_v1))"

subsection \<open>Telemetry\<close>

definition HOST_EXECUTION_TELEMETRY_CAPABILITY_ID :: u32 where
  "HOST_EXECUTION_TELEMETRY_CAPABILITY_ID = 0x600"
definition HOST_EXECUTION_TELEMETRY_V1_HEADER_SIZE :: usize where
  "HOST_EXECUTION_TELEMETRY_V1_HEADER_SIZE = 64"
definition HOST_EXECUTION_TELEMETRY_V1_OPERATION :: u16 where
  "HOST_EXECUTION_TELEMETRY_V1_OPERATION = 0"
definition HOST_EXECUTION_TELEMETRY_V1_VERSION :: u16 where
  "HOST_EXECUTION_TELEMETRY_V1_VERSION = 1"
definition HEADER_SIZE_U64 :: u64 where "HEADER_SIZE_U64 = 64"
definition INSTRUCTION_SPAN_OFFSET :: usize where "INSTRUCTION_SPAN_OFFSET = 48"
definition LANGUAGE_SPAN_OFFSET :: usize where "LANGUAGE_SPAN_OFFSET = 16"
definition LOCATION_OFFSET :: usize where "LOCATION_OFFSET = 8"
definition SOURCE_SPAN_OFFSET :: usize where "SOURCE_SPAN_OFFSET = 32"

record HostExecutionTelemetryV1 =
  het_instruction :: string
  het_language :: string
  het_location :: u64
  het_source :: string

definition host_execution_telemetry_v1_descriptor :: "bool \<Rightarrow> HostCapabilityDescriptor" where
  "host_execution_telemetry_v1_descriptor available =
    \<lparr>hcd_capability_id = HOST_EXECUTION_TELEMETRY_CAPABILITY_ID,
     hcd_flags = (if available then HOST_CAPABILITY_FLAG_AVAILABLE else 0),
     hcd_maximum_version = HOST_EXECUTION_TELEMETRY_V1_VERSION,
     hcd_minimum_version = HOST_EXECUTION_TELEMETRY_V1_VERSION\<rparr>"

definition telemetry_read_u32 :: "u8 list \<Rightarrow> usize \<Rightarrow> HostCapabilityError + u32" where
  "telemetry_read_u32 payload offset =
    map_ok from_le_bytes (ok_or InvalidPayload (get_range payload offset (offset + 4)))"

definition telemetry_read_u64 :: "u8 list \<Rightarrow> usize \<Rightarrow> HostCapabilityError + u64" where
  "telemetry_read_u64 payload offset =
    map_ok from_le_bytes (ok_or InvalidPayload (get_range payload offset (offset + 8)))"

definition decode_span :: "u8 list \<Rightarrow> usize \<Rightarrow> HostCapabilityError + HostCapabilitySpan" where
  "decode_span payload offset =
    and_then (ok_or InvalidPayload (get_range payload offset (offset + 16))) span_decode"

definition decode_text :: "u8 list \<Rightarrow> HostCapabilityError + string" where
  "decode_text bytes =
    (if bytes = [] \<or> 0 \<in> set bytes then Err InvalidPayload
     else ok_or InvalidPayload (from_utf8 bytes))"

definition host_span :: "usize \<Rightarrow> usize \<Rightarrow> HostCapabilityError + HostCapabilitySpan" where
  "host_span offset len =
    (if len > U64_MAX then Err InvalidPayload
     else if offset > U64_MAX then Err InvalidPayload
     else Ok \<lparr>hcs_length = len, hcs_offset = offset\<rparr>)"

definition validate_text :: "string \<Rightarrow> HostCapabilityError + unit" where
  "validate_text txt =
    (if txt = [] \<or> 0 \<in> set (as_bytes txt) then Err InvalidPayload else Ok ())"

definition copy_bytes :: "usize \<Rightarrow> u8 list \<Rightarrow> u8 list \<Rightarrow> HostCapabilityError + u8 list" where
  "copy_bytes offset bytes payload =
    ok_or InvalidPayload (copy_range payload offset (offset + length bytes) bytes)"

definition write_span :: "usize \<Rightarrow> HostCapabilitySpan \<Rightarrow> u8 list \<Rightarrow> HostCapabilityError + u8 list" where
  "write_span offset span payload =
    ok_or InvalidPayload (copy_range payload offset (offset + 16) (span_encode span))"

definition write_u64 :: "usize \<Rightarrow> u64 \<Rightarrow> u8 list \<Rightarrow> HostCapabilityError + u8 list" where
  "write_u64 offset v payload =
    ok_or InvalidPayload (copy_range payload offset (offset + 8) (le_bytes 8 v))"

definition validate_canonical_spans ::
  "u8 list \<Rightarrow> HostCapabilitySpan \<Rightarrow> HostCapabilitySpan \<Rightarrow> HostCapabilitySpan \<Rightarrow>
    HostCapabilityError + unit" where
  "validate_canonical_spans payload language source_span instruction_span =
    (let payload_length = length payload
     in and_then (span_validate language payload_length HEADER_SIZE_U64) (\<lambda>_.
        and_then (span_validate source_span payload_length HEADER_SIZE_U64) (\<lambda>_.
        and_then (span_validate instruction_span payload_length HEADER_SIZE_U64) (\<lambda>_.
        if hcs_length language = 0 \<or> hcs_length source_span = 0 \<or> hcs_length instruction_span = 0
        then Err InvalidPayload
        else
          and_then (ok_or InvalidPayload
            (checked_add U64_MAX (hcs_offset language) (hcs_length language))) (\<lambda>language_end.
          and_then (ok_or InvalidPayload
            (checked_add U64_MAX (hcs_offset source_span) (hcs_length source_span))) (\<lambda>source_end.
          and_then (ok_or InvalidPayload
            (checked_add U64_MAX (hcs_offset instruction_span) (hcs_length instruction_span)))
            (\<lambda>instruction_end.
          if hcs_offset language \<noteq> HEADER_SIZE_U64 \<or> hcs_offset source_span \<noteq> language_end \<or>
            hcs_offset instruction_span \<noteq> source_end \<or> instruction_end \<noteq> payload_length
          then Err InvalidPayload
          else Ok ())))))))"

definition decode_host_execution_telemetry_v1 ::
  "u8 list \<Rightarrow> HostCapabilityError + HostExecutionTelemetryV1" where
  "decode_host_execution_telemetry_v1 payload =
    (if length payload < HOST_EXECUTION_TELEMETRY_V1_HEADER_SIZE then Err InvalidPayload
     else
       and_then (telemetry_read_u32 payload 0) (\<lambda>first.
       if first \<noteq> 0 then Err InvalidPayload
       else
         and_then (telemetry_read_u32 payload 4) (\<lambda>second.
         if second \<noteq> 0 then Err InvalidPayload
         else
           and_then (decode_span payload LANGUAGE_SPAN_OFFSET) (\<lambda>language_span.
           and_then (decode_span payload SOURCE_SPAN_OFFSET) (\<lambda>source_span.
           and_then (decode_span payload INSTRUCTION_SPAN_OFFSET) (\<lambda>instruction_span.
           and_then (validate_canonical_spans payload language_span source_span instruction_span) (\<lambda>_.
           and_then (and_then (span_bytes language_span payload HEADER_SIZE_U64) decode_text) (\<lambda>language.
           and_then (and_then (span_bytes source_span payload HEADER_SIZE_U64) decode_text) (\<lambda>source_text.
           and_then (and_then (span_bytes instruction_span payload HEADER_SIZE_U64) decode_text)
             (\<lambda>instruction_text.
           and_then (telemetry_read_u64 payload LOCATION_OFFSET) (\<lambda>location.
             Ok \<lparr>het_instruction = instruction_text, het_language = language,
                 het_location = location, het_source = source_text\<rparr>)))))))))))"

definition encode_host_execution_telemetry_v1 ::
  "HostExecutionTelemetryV1 \<Rightarrow> HostCapabilityError + u8 list" where
  "encode_host_execution_telemetry_v1 telemetry =
    and_then (validate_text (het_language telemetry)) (\<lambda>_.
    and_then (validate_text (het_source telemetry)) (\<lambda>_.
    and_then (validate_text (het_instruction telemetry)) (\<lambda>_.
    let language_length = length (het_language telemetry);
        source_length = length (het_source telemetry);
        instruction_length = length (het_instruction telemetry)
    in and_then (ok_or InvalidPayload
         (checked_add U64_MAX HOST_EXECUTION_TELEMETRY_V1_HEADER_SIZE language_length)) (\<lambda>source_offset.
       and_then (ok_or InvalidPayload (checked_add U64_MAX source_offset source_length))
         (\<lambda>instruction_offset.
       and_then (ok_or InvalidPayload (checked_add U64_MAX instruction_offset instruction_length))
         (\<lambda>payload_length.
       and_then (host_span HOST_EXECUTION_TELEMETRY_V1_HEADER_SIZE language_length) (\<lambda>language_span.
       and_then (host_span source_offset source_length) (\<lambda>source_span.
       and_then (host_span instruction_offset instruction_length) (\<lambda>instruction_span.
       and_then (write_u64 LOCATION_OFFSET (het_location telemetry) (replicate payload_length 0)) (\<lambda>payload.
       and_then (write_span LANGUAGE_SPAN_OFFSET language_span payload) (\<lambda>payload.
       and_then (write_span SOURCE_SPAN_OFFSET source_span payload) (\<lambda>payload.
       and_then (write_span INSTRUCTION_SPAN_OFFSET instruction_span payload) (\<lambda>payload.
       and_then (copy_bytes HOST_EXECUTION_TELEMETRY_V1_HEADER_SIZE
         (as_bytes (het_language telemetry)) payload) (\<lambda>payload.
       and_then (copy_bytes source_offset (as_bytes (het_source telemetry)) payload) (\<lambda>payload.
       copy_bytes instruction_offset (as_bytes (het_instruction telemetry)) payload)))))))))))))))"

definition telemetry_request_payload ::
  "HostCapabilityFrame \<Rightarrow> u8 list \<Rightarrow> HostCapabilityError + u8 list" where
  "telemetry_request_payload frame guest_memory =
    and_then (ok_or InvalidRange
      (checked_add U64_MAX (hcf_request_offset frame) (hcf_request_length frame))) (\<lambda>stop.
      ok_or InvalidRange (get_range guest_memory (hcf_request_offset frame) stop))"

definition validate_host_execution_telemetry_v1_call ::
  "HostCapabilityFrame \<Rightarrow> u8 list \<Rightarrow> HostCapabilityDescriptor list \<Rightarrow>
    HostCapabilityError + HostExecutionTelemetryV1" where
  "validate_host_execution_telemetry_v1_call frame guest_memory registry =
    and_then (validate_request frame (length guest_memory) registry) (\<lambda>_.
    and_then (discover_host_capability registry (hcf_capability_id frame) (hcf_capability_version frame))
      (\<lambda>descriptor.
    if hcf_capability_id frame \<noteq> HOST_EXECUTION_TELEMETRY_CAPABILITY_ID \<or>
      hcf_capability_version frame \<noteq> HOST_EXECUTION_TELEMETRY_V1_VERSION \<or>
      hcf_operation frame \<noteq> HOST_EXECUTION_TELEMETRY_V1_OPERATION \<or> hcf_flags frame \<noteq> 0 \<or>
      hcf_request_length frame < HEADER_SIZE_U64 \<or> hcf_result_capacity frame \<noteq> 0
    then Err InvalidPayload
    else if hcd_flags descriptor \<noteq> HOST_CAPABILITY_FLAG_AVAILABLE then Err InvalidRegistry
    else and_then (telemetry_request_payload frame guest_memory) decode_host_execution_telemetry_v1))"

end
