(* ===== verification/HostSchemaFacts.thy ===== *)
theory HostSchemaFacts
  imports HostCapabilityFacts HostSchemas
begin

text \<open>
  The telemetry payload of \<open>HostSchemas\<close>: its encoder lays out the header and the three texts, and its
  decoder accepts nothing else.
\<close>

subsection \<open>Telemetry\<close>

definition text_fits :: "string \<Rightarrow> bool" where
  "text_fits s \<longleftrightarrow> s \<noteq> [] \<and> 0 \<notin> set (as_bytes s)"

definition source_at :: "HostExecutionTelemetryV1 \<Rightarrow> nat" where
  "source_at t = 64 + length (het_language t)"

definition instruction_at :: "HostExecutionTelemetryV1 \<Rightarrow> nat" where
  "instruction_at t = source_at t + length (het_source t)"

definition telemetry_size :: "HostExecutionTelemetryV1 \<Rightarrow> nat" where
  "telemetry_size t = instruction_at t + length (het_instruction t)"

definition telemetry_parts :: "HostExecutionTelemetryV1 \<Rightarrow> u8 list list" where
  "telemetry_parts t =
    [replicate 8 0, le_bytes 8 (het_location t),
     span_encode \<lparr>hcs_length = length (het_language t), hcs_offset = 64\<rparr>,
     span_encode \<lparr>hcs_length = length (het_source t), hcs_offset = source_at t\<rparr>,
     span_encode \<lparr>hcs_length = length (het_instruction t), hcs_offset = instruction_at t\<rparr>,
     as_bytes (het_language t), as_bytes (het_source t), as_bytes (het_instruction t)]"

definition telemetry_fits :: "HostExecutionTelemetryV1 \<Rightarrow> bool" where
  "telemetry_fits t \<longleftrightarrow> text_fits (het_language t) \<and> text_fits (het_source t) \<and>
    text_fits (het_instruction t) \<and> telemetry_size t \<le> U64_MAX"

lemma length_span_encode [simp]: "length (span_encode s) = 16"
  by (simp add: span_encode_def)

lemma length_telemetry: "length (concat (telemetry_parts t)) = telemetry_size t"
  by (simp add: telemetry_parts_def telemetry_size_def instruction_at_def source_at_def)

lemma copy_laid:
  assumes "offset = length (concat parts)" and "stop = offset + length bytes" and "stop \<le> n"
  shows "copy_range (laid parts n) offset stop bytes = Some (laid (parts @ [bytes]) n)"
  using assms by (simp add: copy_range_def laid_def)

lemma copy_part:
  assumes "k' = Suc k" and "k < length parts" and "bytes = parts ! k"
    and "offset = length (concat (take k parts))" and "stop = offset + length bytes" and "stop \<le> n"
  shows "copy_range (laid (take k parts) n) offset stop bytes = Some (laid (take k' parts) n)"
  using copy_laid[OF assms(4-6)] assms(1-3) by (simp add: take_Suc_conv_app_nth)

lemma zeros_laid: "8 \<le> n \<Longrightarrow> replicate n 0 = laid [replicate 8 0] n"
  by (simp add: laid_def flip: replicate_add)

lemma telemetry_parts_nth:
  "telemetry_parts t ! 1 = le_bytes 8 (het_location t)"
  "telemetry_parts t ! 2 = span_encode \<lparr>hcs_length = length (het_language t), hcs_offset = 64\<rparr>"
  "telemetry_parts t ! 3 = span_encode \<lparr>hcs_length = length (het_source t), hcs_offset = source_at t\<rparr>"
  "telemetry_parts t ! 4 =
    span_encode \<lparr>hcs_length = length (het_instruction t), hcs_offset = instruction_at t\<rparr>"
  "telemetry_parts t ! 5 = as_bytes (het_language t)"
  "telemetry_parts t ! 6 = as_bytes (het_source t)"
  "telemetry_parts t ! 7 = as_bytes (het_instruction t)"
  by (simp_all add: telemetry_parts_def)

lemma telemetry_parts_start:
  "length (telemetry_parts t) = 8"
  "length (concat (take 1 (telemetry_parts t))) = 8" "length (concat (take 2 (telemetry_parts t))) = 16"
  "length (concat (take 3 (telemetry_parts t))) = 32" "length (concat (take 4 (telemetry_parts t))) = 48"
  "length (concat (take 5 (telemetry_parts t))) = 64"
  "length (concat (take 6 (telemetry_parts t))) = source_at t"
  "length (concat (take 7 (telemetry_parts t))) = instruction_at t"
  by (simp_all add: telemetry_parts_def source_at_def instruction_at_def)

lemma validate_text_Inr: "validate_text s = Inr () \<longleftrightarrow> text_fits s"
  by (auto simp: validate_text_def text_fits_def)

lemma telemetry_encode_Inr:
  "encode_host_execution_telemetry_v1 t = Inr bs \<longleftrightarrow> telemetry_fits t \<and> bs = concat (telemetry_parts t)"
proof (cases "telemetry_fits t")
  case False
  then show ?thesis
    by (auto simp: encode_host_execution_telemetry_v1_def and_then_Inr_iff validate_text_Inr
        telemetry_fits_def telemetry_size_def instruction_at_def source_at_def Let_def
        HOST_EXECUTION_TELEMETRY_V1_HEADER_SIZE_def checked_add_def split: if_splits)
next
  case True
  then have v: "validate_text (het_language t) = Inr ()" "validate_text (het_source t) = Inr ()"
    "validate_text (het_instruction t) = Inr ()" by (simp_all add: telemetry_fits_def validate_text_Inr)
  have le: "telemetry_size t \<le> U64_MAX" "instruction_at t \<le> U64_MAX" "source_at t \<le> U64_MAX"
    "length (het_language t) \<le> U64_MAX" "length (het_source t) \<le> U64_MAX"
    "length (het_instruction t) \<le> U64_MAX"
    using True by (simp_all add: telemetry_fits_def telemetry_size_def instruction_at_def source_at_def)
  have at: "64 + length (het_language t) = source_at t"
    "source_at t + length (het_source t) = instruction_at t"
    "instruction_at t + length (het_instruction t) = telemetry_size t"
    by (simp_all add: telemetry_size_def instruction_at_def source_at_def)
  have big: "64 \<le> U64_MAX" by (simp add: U64_MAX_def)
  have order: "64 \<le> source_at t" "source_at t \<le> instruction_at t" "instruction_at t \<le> telemetry_size t"
    by (simp_all add: telemetry_size_def instruction_at_def source_at_def)
  let ?n = "telemetry_size t"
  let ?p = "\<lambda>k. laid (take k (telemetry_parts t)) ?n"
  let ?span = "\<lambda>len off. \<lparr>hcs_length = len, hcs_offset = off\<rparr>"
  have spans: "host_span 64 (length (het_language t)) = Inr (?span (length (het_language t)) 64)"
    "host_span (source_at t) (length (het_source t)) = Inr (?span (length (het_source t)) (source_at t))"
    "host_span (instruction_at t) (length (het_instruction t)) =
      Inr (?span (length (het_instruction t)) (instruction_at t))"
    using le big by (simp_all add: host_span_def)
  have adds: "checked_add U64_MAX 64 (length (het_language t)) = Some (source_at t)"
    "checked_add U64_MAX (source_at t) (length (het_source t)) = Some (instruction_at t)"
    "checked_add U64_MAX (instruction_at t) (length (het_instruction t)) = Some ?n"
    unfolding checked_add_def at using le by simp_all
  have order3: "16 \<le> ?n" "32 \<le> ?n" "48 \<le> ?n" "64 \<le> ?n" using order by linarith+
  have w0: "replicate ?n 0 = ?p 1" using zeros_laid[of ?n] order3 by (simp add: telemetry_parts_def)
  have c1: "copy_range (?p 1) 8 (16) (le_bytes 8 (het_location t)) = Some (?p 2)"
    using order order3 by (intro copy_part) (simp_all add: telemetry_parts_nth telemetry_parts_start at del: One_nat_def)
  have c2: "copy_range (?p 2) 16 (32) (span_encode (?span (length (het_language t)) (64))) = Some (?p 3)"
    using order order3 by (intro copy_part) (simp_all add: telemetry_parts_nth telemetry_parts_start at del: One_nat_def)
  have c3: "copy_range (?p 3) 32 (48) (span_encode (?span (length (het_source t)) (source_at t))) = Some (?p 4)"
    using order order3 by (intro copy_part) (simp_all add: telemetry_parts_nth telemetry_parts_start at del: One_nat_def)
  have c4: "copy_range (?p 4) 48 (64) (span_encode (?span (length (het_instruction t)) (instruction_at t))) = Some (?p 5)"
    using order order3 by (intro copy_part) (simp_all add: telemetry_parts_nth telemetry_parts_start at del: One_nat_def)
  have c5: "copy_range (?p 5) 64 (source_at t) (as_bytes (het_language t)) = Some (?p 6)"
    using order order3 by (intro copy_part) (simp_all add: telemetry_parts_nth telemetry_parts_start at del: One_nat_def)
  have c6: "copy_range (?p 6) (source_at t) (instruction_at t) (as_bytes (het_source t)) = Some (?p 7)"
    using order order3 by (intro copy_part) (simp_all add: telemetry_parts_nth telemetry_parts_start at del: One_nat_def)
  have c7: "copy_range (?p 7) (instruction_at t) (?n) (as_bytes (het_instruction t)) = Some (?p 8)"
    using order order3 by (intro copy_part) (simp_all add: telemetry_parts_nth telemetry_parts_start at del: One_nat_def)
  have w1: "write_u64 8 (het_location t) (?p 1) = Inr (?p 2)" using c1 by (simp add: write_u64_def)
  have w2: "write_span 16 (?span (length (het_language t)) (64)) (?p 2) = Inr (?p 3)"
    using c2 by (simp add: write_span_def)
  have w3: "write_span 32 (?span (length (het_source t)) (source_at t)) (?p 3) = Inr (?p 4)"
    using c3 by (simp add: write_span_def)
  have w4: "write_span 48 (?span (length (het_instruction t)) (instruction_at t)) (?p 4) = Inr (?p 5)"
    using c4 by (simp add: write_span_def)
  have w5: "copy_bytes 64 (as_bytes (het_language t)) (?p 5) = Inr (?p 6)"
    using c5 by (simp add: copy_bytes_def at)
  have w6: "copy_bytes (source_at t) (as_bytes (het_source t)) (?p 6) = Inr (?p 7)"
    using c6 by (simp add: copy_bytes_def at)
  have w7: "copy_bytes (instruction_at t) (as_bytes (het_instruction t)) (?p 7) = Inr (?p 8)"
    using c7 by (simp add: copy_bytes_def at)
  have "encode_host_execution_telemetry_v1 t = Inr (?p 8)"
    unfolding encode_host_execution_telemetry_v1_def Let_def HOST_EXECUTION_TELEMETRY_V1_HEADER_SIZE_def
      LOCATION_OFFSET_def LANGUAGE_SPAN_OFFSET_def SOURCE_SPAN_OFFSET_def INSTRUCTION_SPAN_OFFSET_def
      v adds spans ok_or_simps and_then_simps w0 w1 w2 w3 w4 w5 w6 w7 ..
  then have "encode_host_execution_telemetry_v1 t = Inr (laid (telemetry_parts t) ?n)"
    by (simp add: telemetry_parts_start)
  then show ?thesis using True by (auto simp: laid_full length_telemetry)
qed

lemma as_bytes_inj: "as_bytes s = as_bytes t \<longleftrightarrow> s = t"
proof -
  have "inj (\<lambda>c. of_nat (of_char c) :: u8)"
  proof (rule injI)
    fix c d
    assume "(of_nat (of_char c) :: u8) = of_nat (of_char d)"
    then have "unat (of_nat (of_char c) :: u8) = unat (of_nat (of_char d) :: u8)" by simp
    then have "(of_char c :: nat) = of_char d" by (simp add: unat_of_nat take_bit_eq_mod)
    then show "c = d" by simp
  qed
  then show ?thesis by (simp add: as_bytes_def inj_map_eq_map)
qed

lemma decode_text_Inr:
  "decode_text bs = Inr s \<longleftrightarrow> text_fits s \<and> utf8_valid (as_bytes s) \<and> bs = as_bytes s"
proof
  assume "decode_text bs = Inr s"
  then have "bs \<noteq> []" "0 \<notin> set bs" "from_utf8 bs = Some s"
    by (auto simp: decode_text_def ok_or_Inr_iff split: if_splits)
  moreover from this have "as_bytes s = bs" "utf8_valid bs"
    using from_utf8_SomeD[of bs s] by (auto simp: from_utf8_def split: if_splits)
  ultimately show "text_fits s \<and> utf8_valid (as_bytes s) \<and> bs = as_bytes s"
    by (auto simp: text_fits_def as_bytes_def)
next
  assume "text_fits s \<and> utf8_valid (as_bytes s) \<and> bs = as_bytes s"
  then show "decode_text bs = Inr s"
    by (auto simp: decode_text_def text_fits_def from_utf8_as_bytes as_bytes_def[of "[]"])
      (simp add: as_bytes_def)
qed

lemma span_validate_Inr:
  "span_validate s n HEADER_SIZE_U64 = Inr u \<longleftrightarrow>
    64 \<le> n \<and> 64 \<le> hcs_offset s \<and> hcs_offset s + hcs_length s \<le> n"
  by (auto simp: span_validate_def range_valid_def checked_sub_def HEADER_SIZE_U64_def)

lemma ok_or_checked_add:
  "ok_or e (checked_add m a b) = Inr c \<longleftrightarrow> a + b \<le> m \<and> c = a + b"
  by (auto simp: checked_add_def)

lemma if_Err_Inr: "(if p then Inl e else r) = Inr v \<longleftrightarrow> \<not> p \<and> r = Inr v"
  by simp

lemma canonical_spans_Inr:
  "validate_canonical_spans bs l s i = Inr () \<longleftrightarrow>
    hcs_length l \<noteq> 0 \<and> hcs_length s \<noteq> 0 \<and> hcs_length i \<noteq> 0 \<and> hcs_offset l = 64 \<and>
    hcs_offset s = 64 + hcs_length l \<and> hcs_offset i = hcs_offset s + hcs_length s \<and>
    length bs = hcs_offset i + hcs_length i \<and> length bs \<le> U64_MAX"
  (is "?v \<longleftrightarrow> ?c")
proof
  assume ?v
  then show ?c
    unfolding validate_canonical_spans_def Let_def and_then_Inr_iff ok_or_checked_add if_Err_Inr
      span_validate_Inr de_Morgan_disj not_not
    unfolding HEADER_SIZE_U64_def
    by (elim exE conjE) (intro conjI; (assumption | linarith))
next
  assume c: ?c
  have v: "span_validate x (length bs) HEADER_SIZE_U64 = Inr ()" if "x \<in> {l, s, i}" for x
    unfolding span_validate_Inr using c that by auto
  have e: "ok_or InvalidPayload (checked_add U64_MAX (hcs_offset x) (hcs_length x)) =
      Inr (hcs_offset x + hcs_length x)" if "x \<in> {l, s, i}" for x
    unfolding ok_or_checked_add using c that by auto
  show ?v
    unfolding validate_canonical_spans_def Let_def
    using c v[of l] v[of s] v[of i] e[of l] e[of s] e[of i] by (simp add: HEADER_SIZE_U64_def)
qed

lemma span_bytes_Inr:
  assumes "64 \<le> hcs_offset s" and "hcs_offset s + hcs_length s \<le> length bs" and "length bs \<le> U64_MAX"
  shows "span_bytes s bs HEADER_SIZE_U64 = Inr (take (hcs_length s) (drop (hcs_offset s) bs))"
proof -
  have "span_validate s (length bs) HEADER_SIZE_U64 = Inr ()"
    unfolding span_validate_Inr using assms by linarith
  moreover have "ok_or InvalidPayload (checked_add U64_MAX (hcs_offset s) (hcs_length s)) =
      Inr (hcs_offset s + hcs_length s)"
    unfolding ok_or_checked_add using assms by linarith
  ultimately show ?thesis using assms(2) by (simp add: span_bytes_def get_range_def)
qed

lemma zeros_le_bytes: "le_bytes n 0 = replicate n 0"
  by (induction n) simp_all

lemma zero_word:
  assumes "offset + 4 \<le> length xs"
  shows "from_le_bytes (take 4 (drop offset xs)) = 0 \<longleftrightarrow> take 4 (drop offset xs) = replicate 4 0"
proof
  assume "from_le_bytes (take 4 (drop offset xs)) = 0"
  then show "take 4 (drop offset xs) = replicate 4 0"
    using le_bytes_of_slice[OF assms] zeros_le_bytes by simp
next
  assume "take 4 (drop offset xs) = replicate 4 0"
  then show "from_le_bytes (take 4 (drop offset xs)) = 0"
    using from_le_fits(2)[of 0] zeros_le_bytes by simp
qed

lemma telemetry_decode_bytes:
  assumes fits: "telemetry_fits t" and location: "het_location t \<le> U64_MAX"
    and texts: "utf8_valid (as_bytes (het_language t))" "utf8_valid (as_bytes (het_source t))"
      "utf8_valid (as_bytes (het_instruction t))"
  shows "decode_host_execution_telemetry_v1 (concat (telemetry_parts t)) = Inr t"
proof -
  let ?b = "concat (telemetry_parts t)"
  let ?span = "\<lambda>len off. \<lparr>hcs_length = len, hcs_offset = off\<rparr>"
  have part: "get_range ?b (length (concat (take k (telemetry_parts t)))) stop = Some (telemetry_parts t ! k)"
    if "k < 8" "stop = length (concat (take k (telemetry_parts t))) + length (telemetry_parts t ! k)" for k stop
  proof -
    have "?b = concat (take k (telemetry_parts t)) @ telemetry_parts t ! k @
        concat (drop (Suc k) (telemetry_parts t))"
      using that(1) by (metis append_take_drop_id concat.simps(2) concat_append Cons_nth_drop_Suc
          telemetry_parts_start(1))
    then show ?thesis using that(2) by (simp add: get_range_def)
  qed
  have order: "64 \<le> source_at t" "source_at t \<le> instruction_at t" "instruction_at t \<le> telemetry_size t"
    "telemetry_size t \<le> U64_MAX"
    using fits by (simp_all add: telemetry_fits_def telemetry_size_def instruction_at_def source_at_def)
  have zero: "from_le_bytes (replicate 4 0) = 0" using from_le_fits(2)[of 0] zeros_le_bytes[of 4] by simp
  have start: "?b = replicate 8 0 @ concat (drop 1 (telemetry_parts t))" by (simp add: telemetry_parts_def)
  have r: "telemetry_read_u32 ?b 0 = Inr 0" "telemetry_read_u32 ?b 4 = Inr 0"
    unfolding start telemetry_read_u32_def by (simp_all add: get_range_def zero)
  have loc: "telemetry_read_u64 ?b LOCATION_OFFSET = Inr (het_location t)"
    using part[of 1 16] location
    by (simp add: telemetry_read_u64_def LOCATION_OFFSET_def telemetry_parts_start telemetry_parts_nth
        from_le_fits del: One_nat_def)
  have l1: "decode_span ?b LANGUAGE_SPAN_OFFSET = Inr (?span (length (het_language t)) 64)"
    using part[of 2 32] order(1-4)
    by (simp add: decode_span_def LANGUAGE_SPAN_OFFSET_def telemetry_parts_start telemetry_parts_nth
        span_codec source_at_def)
  have l2: "decode_span ?b SOURCE_SPAN_OFFSET = Inr (?span (length (het_source t)) (source_at t))"
    using part[of 3 48] order(1-4)
    by (simp add: decode_span_def SOURCE_SPAN_OFFSET_def telemetry_parts_start telemetry_parts_nth
        span_codec instruction_at_def)
  have l3: "decode_span ?b INSTRUCTION_SPAN_OFFSET =
      Inr (?span (length (het_instruction t)) (instruction_at t))"
    using part[of 4 64] order(1-4)
    by (simp add: decode_span_def INSTRUCTION_SPAN_OFFSET_def telemetry_parts_start telemetry_parts_nth
        span_codec telemetry_size_def)
  have len: "length ?b = telemetry_size t" by (rule length_telemetry)
  have canon: "validate_canonical_spans ?b (?span (length (het_language t)) 64)
      (?span (length (het_source t)) (source_at t))
      (?span (length (het_instruction t)) (instruction_at t)) = Inr ()"
    unfolding canonical_spans_Inr len using fits order(4)
    by (simp add: telemetry_fits_def text_fits_def source_at_def instruction_at_def telemetry_size_def)
  have sizes: "source_at t = 64 + length (het_language t)"
    "instruction_at t = source_at t + length (het_source t)"
    "telemetry_size t = instruction_at t + length (het_instruction t)"
    by (simp_all add: telemetry_size_def instruction_at_def source_at_def)
  have b1: "span_bytes (?span (length (het_language t)) 64) ?b HEADER_SIZE_U64 = Inr (as_bytes (het_language t))"
    using part[of 5 "source_at t"] span_bytes_Inr[of "?span (length (het_language t)) 64" ?b] order sizes(1)
    by (simp add: telemetry_parts_start telemetry_parts_nth get_range_Some len)
  have b2: "span_bytes (?span (length (het_source t)) (source_at t)) ?b HEADER_SIZE_U64 =
      Inr (as_bytes (het_source t))"
    using part[of 6 "instruction_at t"] span_bytes_Inr[of "?span (length (het_source t)) (source_at t)" ?b]
      order sizes(2)
    by (simp add: telemetry_parts_start telemetry_parts_nth get_range_Some len)
  have b3: "span_bytes (?span (length (het_instruction t)) (instruction_at t)) ?b HEADER_SIZE_U64 =
      Inr (as_bytes (het_instruction t))"
    using part[of 7 "telemetry_size t"]
      span_bytes_Inr[of "?span (length (het_instruction t)) (instruction_at t)" ?b] order sizes(3)
    by (simp add: telemetry_parts_start telemetry_parts_nth get_range_Some len)
  have d: "decode_text (as_bytes (het_language t)) = Inr (het_language t)"
    "decode_text (as_bytes (het_source t)) = Inr (het_source t)"
    "decode_text (as_bytes (het_instruction t)) = Inr (het_instruction t)"
    using fits texts by (simp_all add: decode_text_Inr telemetry_fits_def)
  show ?thesis
    using order(1-3) by (simp add: decode_host_execution_telemetry_v1_def r loc l1 l2 l3 canon b1 b2 b3 d len
        HOST_EXECUTION_TELEMETRY_V1_HEADER_SIZE_def)
qed

lemma telemetry_decode_Inr:
  assumes dec: "decode_host_execution_telemetry_v1 bs = Inr t"
  shows "telemetry_fits t \<and> het_location t \<le> U64_MAX \<and> utf8_valid (as_bytes (het_language t)) \<and>
    utf8_valid (as_bytes (het_source t)) \<and> utf8_valid (as_bytes (het_instruction t)) \<and>
    bs = concat (telemetry_parts t)"
proof -
  have len: "64 \<le> length bs"
    using dec by (auto simp: decode_host_execution_telemetry_v1_def HOST_EXECUTION_TELEMETRY_V1_HEADER_SIZE_def
        not_less split: if_splits)
  let ?at = "\<lambda>n k. take n (drop k bs)"
  have rng: "get_range bs k (k + n) = Some (?at n k)" if "k + n \<le> 64" for k n
    using that len by (simp add: get_range_def)
  note rngs = rng[of 0 4, simplified] rng[of 4 4, simplified] rng[of 8 8, simplified]
    rng[of 16 16, simplified] rng[of 32 16, simplified] rng[of 48 16, simplified]
  obtain l s i x y z where zero: "from_le_bytes (?at 4 0) = 0" "from_le_bytes (?at 4 4) = 0"
    and spans: "span_decode (?at 16 16) = Inr l" "span_decode (?at 16 32) = Inr s"
      "span_decode (?at 16 48) = Inr i"
    and canon: "validate_canonical_spans bs l s i = Inr ()"
    and texts: "span_bytes l bs HEADER_SIZE_U64 = Inr x" "decode_text x = Inr (het_language t)"
      "span_bytes s bs HEADER_SIZE_U64 = Inr y" "decode_text y = Inr (het_source t)"
      "span_bytes i bs HEADER_SIZE_U64 = Inr z" "decode_text z = Inr (het_instruction t)"
    and loc: "het_location t = from_le_bytes (?at 8 8)"
    using dec by (auto simp: decode_host_execution_telemetry_v1_def and_then_Inr_iff telemetry_read_u32_def
        telemetry_read_u64_def decode_span_def rngs LOCATION_OFFSET_def LANGUAGE_SPAN_OFFSET_def
        SOURCE_SPAN_OFFSET_def INSTRUCTION_SPAN_OFFSET_def split: if_splits)
  note c = canon[unfolded canonical_spans_Inr]
  have cut: "span_bytes l bs HEADER_SIZE_U64 = Inr (take (hcs_length l) (drop (hcs_offset l) bs))"
    "span_bytes s bs HEADER_SIZE_U64 = Inr (take (hcs_length s) (drop (hcs_offset s) bs))"
    "span_bytes i bs HEADER_SIZE_U64 = Inr (take (hcs_length i) (drop (hcs_offset i) bs))"
    using c by (intro span_bytes_Inr; linarith)+
  have sl: "x = take (hcs_length l) (drop (hcs_offset l) bs)" "y = take (hcs_length s) (drop (hcs_offset s) bs)"
    "z = take (hcs_length i) (drop (hcs_offset i) bs)"
    using texts(1)[unfolded cut(1)] texts(3)[unfolded cut(2)] texts(5)[unfolded cut(3)] by (simp_all only: sum.inject)
  have fits: "text_fits (het_language t)" "text_fits (het_source t)" "text_fits (het_instruction t)"
    and utf: "utf8_valid (as_bytes (het_language t))" "utf8_valid (as_bytes (het_source t))"
      "utf8_valid (as_bytes (het_instruction t))"
    and xyz: "x = as_bytes (het_language t)" "y = as_bytes (het_source t)" "z = as_bytes (het_instruction t)"
    using texts(2,4,6) by (simp_all add: decode_text_Inr)
  have lens: "hcs_length l = length (het_language t)" "hcs_length s = length (het_source t)"
    "hcs_length i = length (het_instruction t)"
    using sl[THEN arg_cong[where f = length]] c unfolding xyz by simp_all
  have offs: "hcs_offset l = 64" "hcs_offset s = source_at t" "hcs_offset i = instruction_at t"
    "length bs = telemetry_size t"
    using c lens by (simp_all add: source_at_def instruction_at_def telemetry_size_def)
  have loc64: "het_location t \<le> U64_MAX"
    using loc from_le_slice_lt[of 8 8 bs] len by (simp add: U64_MAX_def)
  have head: "?at 4 0 = replicate 4 0" "?at 4 4 = replicate 4 0" "?at 8 8 = le_bytes 8 (het_location t)"
    "?at 16 16 = span_encode l" "?at 16 32 = span_encode s" "?at 16 48 = span_encode i"
    using zero zero_word[of 0 bs] zero_word[of 4 bs] le_bytes_of_slice[of 8 8 bs] len loc spans
    by (simp_all add: span_codec)
  have records: "l = \<lparr>hcs_length = length (het_language t), hcs_offset = 64\<rparr>"
    "s = \<lparr>hcs_length = length (het_source t), hcs_offset = source_at t\<rparr>"
    "i = \<lparr>hcs_length = length (het_instruction t), hcs_offset = instruction_at t\<rparr>"
    using lens offs by simp_all
  have co: "hcs_offset l = 64" "hcs_offset s = hcs_length l + 64" "hcs_offset i = hcs_length s + (hcs_length l + 64)"
    using c by linarith+
  have eight: "replicate 8 (0 :: u8) = replicate 4 0 @ replicate 4 0" by (simp flip: replicate_add)
  have "pieces [4, 4, 8, 16, 16, 16, hcs_length l, hcs_length s, hcs_length i] bs =
      [replicate 4 0, replicate 4 0, le_bytes 8 (het_location t), span_encode l, span_encode s,
       span_encode i, x, y, z]"
    unfolding sl co using head by simp
  moreover have "concat (pieces [4, 4, 8, 16, 16, 16, hcs_length l, hcs_length s, hcs_length i] bs) = bs"
    unfolding concat_pieces using c by simp
  ultimately have "bs = concat [replicate 4 0, replicate 4 0, le_bytes 8 (het_location t), span_encode l,
      span_encode s, span_encode i, x, y, z]" by metis
  also have "\<dots> = concat (telemetry_parts t)"
    by (simp add: telemetry_parts_def records xyz eight)
  finally show ?thesis
    using fits utf loc64 c offs by (simp add: telemetry_fits_def)
qed

lemma telemetry_codec:
  "decode_host_execution_telemetry_v1 bs = Inr t \<longleftrightarrow>
    het_location t \<le> U64_MAX \<and> utf8_valid (as_bytes (het_language t)) \<and>
    utf8_valid (as_bytes (het_source t)) \<and> utf8_valid (as_bytes (het_instruction t)) \<and>
    encode_host_execution_telemetry_v1 t = Inr bs"
  using telemetry_decode_Inr[of bs t] telemetry_decode_bytes[of t] by (auto simp: telemetry_encode_Inr)

text \<open>
  C25: a telemetry payload decodes to a record exactly when the record's location fits 64 bits, its
  texts are UTF-8, and the encoder writes those bytes for it: the layout of the three texts behind
  the header is the only one accepted.
\<close>
theorem telemetry_roundtrip:
  "decode_host_execution_telemetry_v1 bs = Inr t \<longleftrightarrow>
    het_location t \<le> U64_MAX \<and> utf8_valid (as_bytes (het_language t)) \<and>
    utf8_valid (as_bytes (het_source t)) \<and> utf8_valid (as_bytes (het_instruction t)) \<and>
    encode_host_execution_telemetry_v1 t = Inr bs"
  by (rule telemetry_codec)

end
