(* ===== verification/HostDispatch.thy ===== *)
theory HostDispatch
  imports HostSchemas
begin

text \<open>
  \<open>application/host_capability_dispatch.rs\<close>, \<open>port-outbound/host_capability.rs\<close> and
  \<open>adapter-outbound/host_capability_time.rs\<close>: a call is validated, handed to a transport with its
  request bytes, and its answer is validated before the guest memory changes. A transport with
  state \<open>'t\<close> is a function of its state and the invocation; the clock the timing transport reads is
  an argument of it. A dispatch returns the result, the guest memory and the transport's state.
\<close>

subsection \<open>The transport port\<close>

record HostCapabilityInvocation =
  hci_frame :: HostCapabilityFrame
  hci_request :: "u8 list"

record HostCapabilityTransportResponse =
  htr_frame :: HostCapabilityFrame
  htr_staged_result :: "u8 list"

type_synonym ('t, 'e) HostCapabilityTransport =
  "'t \<Rightarrow> HostCapabilityInvocation \<Rightarrow> ('e + HostCapabilityTransportResponse) \<times> 't"

subsection \<open>Built-in capabilities\<close>

definition HOST_BUILTIN_CAPABILITY_COUNT :: usize where "HOST_BUILTIN_CAPABILITY_COUNT = 4"

datatype HostCapabilityAvailability = Available | Unavailable

fun is_available :: "HostCapabilityAvailability \<Rightarrow> bool" where
  "is_available Available = True"
| "is_available Unavailable = False"

record HostBuiltinCapabilityAvailability =
  hba_monotonic_time :: HostCapabilityAvailability
  hba_relative_mouse :: HostCapabilityAvailability
  hba_sleep :: HostCapabilityAvailability
  hba_telemetry :: HostCapabilityAvailability

datatype 'e HostCapabilityDispatchError = ContractError HostCapabilityError | TransportError 'e

definition host_builtin_capability_registry ::
  "HostBuiltinCapabilityAvailability \<Rightarrow> HostCapabilityDescriptor list" where
  "host_builtin_capability_registry availability =
    [host_monotonic_time_v1_descriptor (is_available (hba_monotonic_time availability)),
     host_sleep_v1_descriptor (is_available (hba_sleep availability)),
     host_execution_telemetry_v1_descriptor (is_available (hba_telemetry availability)),
     host_relative_mouse_capture_v1_descriptor (is_available (hba_relative_mouse availability))]"

subsection \<open>Dispatch\<close>

definition host_request_bytes :: "HostCapabilityFrame \<Rightarrow> u8 list \<Rightarrow> HostCapabilityError + u8 list" where
  "host_request_bytes request guest_memory =
    and_then (ok_or InvalidRange
      (checked_add U64_MAX (hcf_request_offset request) (hcf_request_length request))) (\<lambda>stop.
      ok_or InvalidRange (get_range guest_memory (hcf_request_offset request) stop))"

definition invoke_transport ::
  "HostCapabilityFrame \<Rightarrow> u8 list \<Rightarrow> ('t, 'e) HostCapabilityTransport \<Rightarrow> 't \<Rightarrow>
    ('e HostCapabilityDispatchError + HostCapabilityTransportResponse) \<times> 't" where
  "invoke_transport request guest_memory invoke transport =
    (case host_request_bytes request guest_memory of
      Inl e \<Rightarrow> (Inl (ContractError e), transport)
    | Inr request_payload \<Rightarrow>
        apfst (map_err TransportError)
          (invoke transport \<lparr>hci_frame = request, hci_request = request_payload\<rparr>))"

definition validate_builtin_request ::
  "HostCapabilityFrame \<Rightarrow> u8 list \<Rightarrow> HostCapabilityDescriptor list \<Rightarrow> HostCapabilityError + unit" where
  "validate_builtin_request request guest_memory registry =
    (if hcf_capability_id request = HOST_EXECUTION_TELEMETRY_CAPABILITY_ID then
       map_ok (\<lambda>_. ()) (validate_host_execution_telemetry_v1_call request guest_memory registry)
     else if hcf_capability_id request = HOST_MONOTONIC_TIME_CAPABILITY_ID then
       validate_host_monotonic_time_v1_call request (length guest_memory) registry
     else if hcf_capability_id request = HOST_RELATIVE_MOUSE_CAPTURE_CAPABILITY_ID then
       map_ok (\<lambda>_. ()) (validate_host_relative_mouse_capture_v1_call request guest_memory registry)
     else if hcf_capability_id request = HOST_SLEEP_CAPABILITY_ID then
       map_ok (\<lambda>_. ()) (validate_host_sleep_v1_call request guest_memory registry)
     else Err UnknownCapability)"

definition validate_builtin_response ::
  "HostCapabilityFrame \<Rightarrow> HostCapabilityTransportResponse \<Rightarrow> u64 \<Rightarrow> HostCapabilityDescriptor list \<Rightarrow>
    HostCapabilityError + unit" where
  "validate_builtin_response request response guest_memory_size registry =
    and_then (validate_host_capability_response request (htr_frame response) guest_memory_size registry)
      (\<lambda>_.
    if hcf_capability_id request = HOST_MONOTONIC_TIME_CAPABILITY_ID then
      map_ok (\<lambda>_. ())
        (validate_host_monotonic_time_v1_result (htr_frame response) (htr_staged_result response))
    else
      (let expected = hcf_result_length (htr_frame response)
       in if length (htr_staged_result response) \<noteq> expected then Err InvalidResponse else Ok ()))"

definition dispatch_builtin_host_capability ::
  "HostCapabilityDescriptor list \<Rightarrow> HostCapabilityFrame \<Rightarrow> u8 list \<Rightarrow>
    ('t, 'e) HostCapabilityTransport \<Rightarrow> 't \<Rightarrow>
    ('e HostCapabilityDispatchError + HostCapabilityFrame) \<times> u8 list \<times> 't" where
  "dispatch_builtin_host_capability registry request guest_memory invoke transport =
    (case validate_builtin_request request guest_memory registry of
      Inl e \<Rightarrow> (Inl (ContractError e), guest_memory, transport)
    | Inr _ \<Rightarrow>
      (case invoke_transport request guest_memory invoke transport of
        (Inl e, transport') \<Rightarrow> (Inl e, guest_memory, transport')
      | (Inr response, transport') \<Rightarrow>
        (case validate_builtin_response request response (length guest_memory) registry of
          Inl e \<Rightarrow> (Inl (ContractError e), guest_memory, transport')
        | Inr _ \<Rightarrow>
          (case commit_host_capability_response request (htr_frame response) registry guest_memory
              (htr_staged_result response) of
            Inl e \<Rightarrow> (Inl (ContractError e), guest_memory, transport')
          | Inr guest_memory' \<Rightarrow> (Inr (htr_frame response), guest_memory', transport')))))"

definition dispatch_host_capability ::
  "HostCapabilityDescriptor list \<Rightarrow> HostCapabilityFrame \<Rightarrow> u8 list \<Rightarrow>
    ('t, 'e) HostCapabilityTransport \<Rightarrow> 't \<Rightarrow>
    ('e HostCapabilityDispatchError + HostCapabilityFrame) \<times> u8 list \<times> 't" where
  "dispatch_host_capability registry request guest_memory invoke transport =
    (case validate_request request (length guest_memory) registry of
      Inl e \<Rightarrow> (Inl (ContractError e), guest_memory, transport)
    | Inr _ \<Rightarrow>
      (case invoke_transport request guest_memory invoke transport of
        (Inl e, transport') \<Rightarrow> (Inl e, guest_memory, transport')
      | (Inr response, transport') \<Rightarrow>
        (case commit_host_capability_response request (htr_frame response) registry guest_memory
            (htr_staged_result response) of
          Inl e \<Rightarrow> (Inl (ContractError e), guest_memory, transport')
        | Inr guest_memory' \<Rightarrow> (Inr (htr_frame response), guest_memory', transport'))))"

subsection \<open>The timing transport\<close>

text \<open>
  The state is the last reading; \<open>elapsed\<close> is what \<open>origin.elapsed().as_nanos()\<close> reads now. A sleep
  takes time and nothing else, so it leaves no trace in the model.
\<close>

datatype SystemTimingTransportError =
    TimingInvalidPayload HostCapabilityError
  | UnsupportedCapability

record SystemTimingHostCapabilityTransport =
  last_nanoseconds :: u64

definition system_timing_new :: SystemTimingHostCapabilityTransport where
  "system_timing_new = \<lparr>last_nanoseconds = 0\<rparr>"

definition status_response ::
  "HostCapabilityFrame \<Rightarrow> HostCapabilityStatus \<Rightarrow> HostCapabilityTransportResponse" where
  "status_response frame status =
    \<lparr>htr_frame = frame\<lparr>hcf_result_length := 0, hcf_status := status\<rparr>, htr_staged_result = []\<rparr>"

definition monotonic_response ::
  "nat \<Rightarrow> SystemTimingHostCapabilityTransport \<Rightarrow> HostCapabilityInvocation \<Rightarrow>
    HostCapabilityTransportResponse \<times> SystemTimingHostCapabilityTransport" where
  "monotonic_response elapsed self invocation =
    (if elapsed > U64_MAX then (status_response (hci_frame invocation) HostError, self)
     else
       (let nanoseconds = elapsed
        in if nanoseconds < last_nanoseconds self
           then (status_response (hci_frame invocation) HostError, self)
           else
             (\<lparr>htr_frame = (hci_frame invocation)\<lparr>hcf_result_length := 8, hcf_status := Complete\<rparr>,
               htr_staged_result = encode_host_monotonic_time_v1_result nanoseconds\<rparr>,
              self\<lparr>last_nanoseconds := nanoseconds\<rparr>)))"

definition sleep_response ::
  "HostCapabilityInvocation \<Rightarrow> SystemTimingTransportError + HostCapabilityTransportResponse" where
  "sleep_response invocation =
    map_ok (\<lambda>nanoseconds.
        \<lparr>htr_frame = (hci_frame invocation)\<lparr>hcf_status :=
            (if nanoseconds \<noteq> 0 \<and> hcf_flags (hci_frame invocation) AND HOST_CALL_FLAG_NONBLOCKING \<noteq> 0
             then WouldBlock else Complete)\<rparr>,
         htr_staged_result = []\<rparr>)
      (map_err TimingInvalidPayload (decode_host_sleep_v1_request (hci_request invocation)))"

definition system_timing_invoke ::
  "nat \<Rightarrow> (SystemTimingHostCapabilityTransport, SystemTimingTransportError) HostCapabilityTransport" where
  "system_timing_invoke elapsed self invocation =
    (if hcf_capability_id (hci_frame invocation) = HOST_MONOTONIC_TIME_CAPABILITY_ID then
       apfst Inr (monotonic_response elapsed self invocation)
     else if hcf_capability_id (hci_frame invocation) = HOST_SLEEP_CAPABILITY_ID then
       (sleep_response invocation, self)
     else (Inl UnsupportedCapability, self))"

end
