(* ===== verification/HostDispatchFacts.thy ===== *)
theory HostDispatchFacts
  imports HostCapabilityFacts HostDispatch
begin

text \<open>
  Admission, commit and dispatch of \<open>HostDispatch\<close>: what an admitted request satisfies, which bytes of
  the guest memory an answer overwrites, and what the dispatcher owes a transport that answers its
  calls (the locale \<open>answering_transport\<close>, with the timing transport as its instance).
\<close>

subsection \<open>Admitted requests\<close>

lemma range_valid_iff: "range_valid offset len bound \<longleftrightarrow> offset + len \<le> bound"
  by (auto simp: range_valid_def checked_sub_def)

definition apart :: "HostCapabilityFrame \<Rightarrow> bool" where
  "apart f \<longleftrightarrow> hcf_request_length f = 0 \<or> hcf_result_capacity f = 0 \<or>
    hcf_request_offset f + hcf_request_length f \<le> hcf_result_offset f \<or>
    hcf_result_offset f + hcf_result_capacity f \<le> hcf_request_offset f"

lemma validate_request_Inr:
  assumes "bound \<le> U64_MAX"
  shows "validate_request f bound registry = Inr () \<longleftrightarrow>
    frame_validate_shape f = Inr () \<and> hcf_status f = Pending \<and>
    (\<exists>d. discover_host_capability registry (hcf_capability_id f) (hcf_capability_version f) = Inr d \<and>
      (hcf_flags f AND HOST_CALL_FLAG_NONBLOCKING \<noteq> 0 \<longrightarrow>
        hcd_flags d AND HOST_CAPABILITY_FLAG_MAY_BLOCK \<noteq> 0)) \<and>
    hcf_request_offset f + hcf_request_length f \<le> bound \<and>
    hcf_result_offset f + hcf_result_capacity f \<le> bound \<and> apart f"
proof -
  have ov: "ranges_overlap (hcf_request_offset f) (hcf_request_length f) (hcf_result_offset f)
      (hcf_result_capacity f) = Inr (\<not> apart f)"
    if "hcf_request_offset f + hcf_request_length f \<le> bound" "hcf_result_offset f + hcf_result_capacity f \<le> bound"
  proof -
    have "hcf_request_offset f + hcf_request_length f \<le> U64_MAX"
      "hcf_result_offset f + hcf_result_capacity f \<le> U64_MAX" using that assms by simp_all
    then show ?thesis by (auto simp: ranges_overlap_def checked_add_def apart_def)
  qed
  show ?thesis
    using ov by (auto simp: validate_request_def and_then_Inr_iff range_valid_iff split: if_splits)
qed

lemma validate_request_bounds:
  assumes "validate_request f (length memory) registry = Inr ()" and "length memory \<le> U64_MAX"
  shows "host_request_bytes f memory =
    Inr (take (hcf_request_length f) (drop (hcf_request_offset f) memory))"
  using assms validate_request_Inr[OF assms(2)]
  by (auto simp: host_request_bytes_def checked_add_def get_range_def)

lemma request_payloads:
  "time_request_payload = host_request_bytes" "mouse_request_payload = host_request_bytes"
  "telemetry_request_payload = host_request_bytes"
  by (auto simp: fun_eq_iff time_request_payload_def mouse_request_payload_def
      telemetry_request_payload_def host_request_bytes_def)

subsection \<open>Commits\<close>

text \<open>The memory with the bytes written at an offset.\<close>

definition overwritten :: "u8 list \<Rightarrow> nat \<Rightarrow> u8 list \<Rightarrow> u8 list" where
  "overwritten memory offset bytes = take offset memory @ bytes @ drop (offset + length bytes) memory"

lemma length_overwritten [simp]:
  "offset + length bytes \<le> length memory \<Longrightarrow> length (overwritten memory offset bytes) = length memory"
  by (simp add: overwritten_def)

lemma overwritten_Nil [simp]: "overwritten memory offset [] = memory"
  by (simp add: overwritten_def)

lemma nth_overwritten:
  "offset + length bytes \<le> length memory \<Longrightarrow> i < length memory \<Longrightarrow>
    overwritten memory offset bytes ! i =
      (if offset \<le> i \<and> i < offset + length bytes then bytes ! (i - offset) else memory ! i)"
  by (auto simp: overwritten_def nth_append)

definition answer_fits :: "HostCapabilityFrame \<Rightarrow> HostCapabilityDescriptor \<Rightarrow> HostCapabilityTransportResponse \<Rightarrow> bool" where
  "answer_fits request d response \<longleftrightarrow>
    frame_validate_shape (htr_frame response) = Inr () \<and>
    response_identity_matches request (htr_frame response) \<and> hcf_status (htr_frame response) \<noteq> Pending \<and>
    (hcf_status (htr_frame response) = Partial \<longrightarrow>
      hcd_flags d AND HOST_CAPABILITY_FLAG_PARTIAL_PROGRESS \<noteq> 0 \<and> hcf_result_length (htr_frame response) \<noteq> 0) \<and>
    (hcf_status (htr_frame response) = WouldBlock \<longrightarrow>
      hcd_flags d AND HOST_CAPABILITY_FLAG_MAY_BLOCK \<noteq> 0 \<and> hcf_flags request AND HOST_CALL_FLAG_NONBLOCKING \<noteq> 0) \<and>
    length (htr_staged_result response) = hcf_result_length (htr_frame response)"

lemma answer_eta [simp]: "\<lparr>htr_frame = htr_frame response, htr_staged_result = htr_staged_result response\<rparr> =
    (response :: HostCapabilityTransportResponse)"
  by simp

lemma validate_response_Inr:
  "validate_host_capability_response request response bound registry = Inr () \<and>
    length staged = hcf_result_length response \<longleftrightarrow>
    validate_request request bound registry = Inr () \<and>
    (\<exists>d. discover_host_capability registry (hcf_capability_id request) (hcf_capability_version request) = Inr d \<and>
      answer_fits request d \<lparr>htr_frame = response, htr_staged_result = staged\<rparr>)"
  by (auto simp: validate_host_capability_response_def and_then_Inr_iff answer_fits_def split: if_splits)

lemma shape_bounds: "frame_validate_shape f = Inr () \<Longrightarrow> hcf_result_length f \<le> hcf_result_capacity f"
  by (auto simp: frame_validate_shape_def split: if_splits)

lemma commit_Inr:
  assumes "length memory \<le> U64_MAX"
  shows "commit_host_capability_response request response registry memory staged = Inr memory' \<longleftrightarrow>
    validate_request request (length memory) registry = Inr () \<and>
    (\<exists>d. discover_host_capability registry (hcf_capability_id request) (hcf_capability_version request) = Inr d \<and>
      answer_fits request d \<lparr>htr_frame = response, htr_staged_result = staged\<rparr>) \<and>
    memory' = overwritten memory (hcf_result_offset request) staged"
proof -
  have fits: "checked_add U64_MAX (hcf_result_offset response) (hcf_result_length response) =
      Some (hcf_result_offset response + length staged) \<and>
      copy_range memory (hcf_result_offset response) (hcf_result_offset response + length staged) staged =
      Some (overwritten memory (hcf_result_offset request) staged)"
    if v: "validate_request request (length memory) registry = Inr ()"
      and a: "answer_fits request d \<lparr>htr_frame = response, htr_staged_result = staged\<rparr>" for d
  proof -
    have "hcf_result_offset request + hcf_result_capacity request \<le> length memory"
      using v validate_request_Inr[OF assms] by blast
    moreover have "hcf_result_offset response = hcf_result_offset request"
      "length staged = hcf_result_length response" "hcf_result_length response \<le> hcf_result_capacity request"
      using a shape_bounds[of response] by (auto simp: answer_fits_def response_identity_matches_def)
    ultimately show ?thesis
      using assms by (simp add: checked_add_def copy_range_def overwritten_def)
  qed
  have "commit_host_capability_response request response registry memory staged = Inr memory' \<longleftrightarrow>
      (validate_host_capability_response request response (length memory) registry = Inr () \<and>
        length staged = hcf_result_length response) \<and>
      (\<exists>e. checked_add U64_MAX (hcf_result_offset response) (hcf_result_length response) = Some e \<and>
        copy_range memory (hcf_result_offset response) e staged = Some memory')"
    by (auto simp: commit_host_capability_response_def and_then_Inr_iff split: if_splits)
  then show ?thesis
    unfolding validate_response_Inr using fits by auto
qed

subsection \<open>Dispatch\<close>

definition dispatched ::
  "HostCapabilityDescriptor list \<Rightarrow> HostCapabilityFrame \<Rightarrow> u8 list \<Rightarrow> ('t, 'e) HostCapabilityTransport \<Rightarrow> 't \<Rightarrow>
    HostCapabilityTransportResponse \<Rightarrow> 't \<Rightarrow> bool" where
  "dispatched registry request memory invoke transport response transport' \<longleftrightarrow>
    validate_request request (length memory) registry = Inr () \<and>
    invoke transport \<lparr>hci_frame = request,
      hci_request = take (hcf_request_length request) (drop (hcf_request_offset request) memory)\<rparr> =
      (Inr response, transport') \<and>
    (\<exists>d. discover_host_capability registry (hcf_capability_id request) (hcf_capability_version request) = Inr d \<and>
      answer_fits request d response)"

lemma dispatch_Inr:
  assumes "length memory \<le> U64_MAX"
  shows "dispatch_host_capability registry request memory invoke transport = (Inr f, memory', transport') \<longleftrightarrow>
    (\<exists>response. dispatched registry request memory invoke transport response transport' \<and>
      f = htr_frame response \<and>
      memory' = overwritten memory (hcf_result_offset request) (htr_staged_result response))"
proof (cases "validate_request request (length memory) registry")
  case (Inl e)
  then show ?thesis by (simp add: dispatch_host_capability_def dispatched_def)
next
  case (Inr u)
  then have v: "validate_request request (length memory) registry = Inr ()" by simp
  obtain r t where i: "invoke transport \<lparr>hci_frame = request,
      hci_request = take (hcf_request_length request) (drop (hcf_request_offset request) memory)\<rparr> = (r, t)"
    by fastforce
  show ?thesis
  proof (cases r)
    case (Inl e)
    then show ?thesis
      using v i by (simp add: dispatch_host_capability_def invoke_transport_def dispatched_def
          validate_request_bounds[OF v assms])
  next
    case (Inr response)
    have "dispatch_host_capability registry request memory invoke transport = (Inr f, memory', transport') \<longleftrightarrow>
        commit_host_capability_response request (htr_frame response) registry memory (htr_staged_result response) = Inr memory' \<and>
        f = htr_frame response \<and> transport' = t"
      using v i Inr by (auto simp: dispatch_host_capability_def invoke_transport_def
          validate_request_bounds[OF v assms] split: sum.splits)
    then show ?thesis
      using v i Inr by (auto simp: commit_Inr[OF assms] dispatched_def)
  qed
qed

lemma dispatch_Inl:
  "dispatch_host_capability registry request memory invoke transport = (Inl e, memory', transport') \<Longrightarrow>
    memory' = memory"
  by (auto simp: dispatch_host_capability_def split: sum.splits prod.splits)

lemma dispatch_rejected:
  "validate_request request (length memory) registry = Inl e \<Longrightarrow>
    dispatch_host_capability registry request memory invoke transport = (Inl (ContractError e), memory, transport)"
  by (simp add: dispatch_host_capability_def)

subsection \<open>Built-in capabilities\<close>

lemma builtin_request_valid:
  "validate_builtin_request request memory registry = Inr () \<Longrightarrow>
    validate_request request (length memory) registry = Inr ()"
  by (auto simp: validate_builtin_request_def validate_host_execution_telemetry_v1_call_def
      validate_host_monotonic_time_v1_call_def validate_host_relative_mouse_capture_v1_call_def
      validate_host_sleep_v1_call_def and_then_Inr_iff map_ok_Inr_iff split: if_splits)

text \<open>What the result of a clock call must look like.\<close>

definition time_answer :: "HostCapabilityFrame \<Rightarrow> bool" where
  "time_answer f \<longleftrightarrow>
    hcf_status f = Complete \<and> hcf_result_length f = 8 \<or> hcf_status f = Cancelled \<or> hcf_status f = HostError"

lemma time_result_Inr:
  assumes "length staged = hcf_result_length f" and "frame_validate_shape f = Inr ()"
  shows "(\<exists>v. validate_host_monotonic_time_v1_result f staged = Inr v) \<longleftrightarrow> time_answer f"
  using assms by (auto simp: validate_host_monotonic_time_v1_result_def time_answer_def
      frame_validate_shape_def HOST_MONOTONIC_TIME_V1_RESULT_SIZE_def
      decode_host_monotonic_time_v1_result_def split: if_splits)

lemma validate_builtin_response_Inr:
  assumes v: "validate_request request (length memory) registry = Inr ()"
    and d: "discover_host_capability registry (hcf_capability_id request) (hcf_capability_version request) = Inr d"
    and a: "answer_fits request d response"
  shows "validate_builtin_response request response (length memory) registry = Inr () \<longleftrightarrow>
    (hcf_capability_id request = HOST_MONOTONIC_TIME_CAPABILITY_ID \<longrightarrow> time_answer (htr_frame response))"
proof -
  have r: "validate_host_capability_response request (htr_frame response) (length memory) registry = Inr ()"
    and l: "length (htr_staged_result response) = hcf_result_length (htr_frame response)"
    using validate_response_Inr[of request "htr_frame response" "length memory" registry
        "htr_staged_result response"] v d a by (simp_all add: answer_eta)
  have "frame_validate_shape (htr_frame response) = Inr ()" using a by (simp add: answer_fits_def)
  from time_result_Inr[OF l this] show ?thesis
    by (auto simp: validate_builtin_response_def r l map_ok_Inr_iff)
qed

lemma builtin_dispatch_Inr:
  assumes "length memory \<le> U64_MAX"
  shows "dispatch_builtin_host_capability registry request memory invoke transport = (Inr f, memory', transport') \<longleftrightarrow>
    validate_builtin_request request memory registry = Inr () \<and>
    (hcf_capability_id request = HOST_MONOTONIC_TIME_CAPABILITY_ID \<longrightarrow> time_answer f) \<and>
    dispatch_host_capability registry request memory invoke transport = (Inr f, memory', transport')"
proof (cases "validate_builtin_request request memory registry")
  case (Inl e)
  then show ?thesis by (simp add: dispatch_builtin_host_capability_def)
next
  case (Inr u)
  then have b: "validate_builtin_request request memory registry = Inr ()" by simp
  then have v: "validate_request request (length memory) registry = Inr ()" by (rule builtin_request_valid)
  obtain r t where i: "invoke_transport request memory invoke transport = (r, t)" by fastforce
  show ?thesis
  proof (cases r)
    case (Inl e)
    then show ?thesis
      using b v i by (simp add: dispatch_builtin_host_capability_def dispatch_host_capability_def)
  next
    case (Inr response)
    let ?c = "commit_host_capability_response request (htr_frame response) registry memory (htr_staged_result response)"
    have "validate_builtin_response request response (length memory) registry = Inr () \<longleftrightarrow>
        (hcf_capability_id request = HOST_MONOTONIC_TIME_CAPABILITY_ID \<longrightarrow> time_answer (htr_frame response))"
      if "?c = Inr m" for m
      using that validate_builtin_response_Inr[OF v] by (auto simp: commit_Inr[OF assms])
    then show ?thesis
      using b v i Inr by (auto simp: dispatch_builtin_host_capability_def dispatch_host_capability_def
          split: sum.splits)
  qed
qed

subsection \<open>Transports\<close>

text \<open>
  What a transport owes the dispatcher for the invocations it is meant for: an answer to the same
  call, with a result of its declared length, which is not pending or partial and blocks only on a
  nonblocking call. Then no admitted call is lost: its answer is published.
\<close>

definition answers_call :: "HostCapabilityFrame \<Rightarrow> HostCapabilityTransportResponse \<Rightarrow> bool" where
  "answers_call request response \<longleftrightarrow>
    response_identity_matches request (htr_frame response) \<and>
    frame_validate_shape (htr_frame response) = Inr () \<and>
    hcf_status (htr_frame response) \<noteq> Pending \<and> hcf_status (htr_frame response) \<noteq> Partial \<and>
    (hcf_status (htr_frame response) = WouldBlock \<longrightarrow> hcf_flags request AND HOST_CALL_FLAG_NONBLOCKING \<noteq> 0) \<and>
    length (htr_staged_result response) = hcf_result_length (htr_frame response)"

locale answering_transport =
  fixes invoke :: "('t, 'e) HostCapabilityTransport" and meant :: "HostCapabilityInvocation \<Rightarrow> bool"
  assumes answers:
    "frame_validate_shape (hci_frame i) = Inr () \<Longrightarrow> hcf_status (hci_frame i) = Pending \<Longrightarrow> meant i \<Longrightarrow>
      invoke t i = (Inr response, t') \<Longrightarrow> answers_call (hci_frame i) response"
begin

lemma answer_published:
  assumes v: "validate_request request (length memory) registry = Inr ()" and m: "length memory \<le> U64_MAX"
    and i: "invoke t \<lparr>hci_frame = request,
      hci_request = take (hcf_request_length request) (drop (hcf_request_offset request) memory)\<rparr> =
      (Inr response, t')" (is "invoke t ?i = _")
    and meant: "meant \<lparr>hci_frame = request,
      hci_request = take (hcf_request_length request) (drop (hcf_request_offset request) memory)\<rparr>"
  shows "dispatch_host_capability registry request memory invoke t =
    (Inr (htr_frame response), overwritten memory (hcf_result_offset request) (htr_staged_result response), t')"
proof -
  obtain d where d: "discover_host_capability registry (hcf_capability_id request)
      (hcf_capability_version request) = Inr d"
    "hcf_flags request AND HOST_CALL_FLAG_NONBLOCKING \<noteq> 0 \<longrightarrow> hcd_flags d AND HOST_CAPABILITY_FLAG_MAY_BLOCK \<noteq> 0"
    and shape: "frame_validate_shape request = Inr ()" "hcf_status request = Pending"
    using v validate_request_Inr[OF m] by blast
  have "answer_fits request d response"
    using answers[of ?i t response t'] shape meant i d(2) by (auto simp: answer_fits_def answers_call_def)
  then have "dispatched registry request memory invoke t response t'"
    using v i d(1) by (simp add: dispatched_def)
  then show ?thesis unfolding dispatch_Inr[OF m] by blast
qed

end

text \<open>The timing transport, whatever the clock reads.\<close>

definition timing_meant :: "HostCapabilityInvocation \<Rightarrow> bool" where
  "timing_meant i \<longleftrightarrow>
    (hcf_capability_id (hci_frame i) = HOST_MONOTONIC_TIME_CAPABILITY_ID \<longrightarrow> 8 \<le> hcf_result_capacity (hci_frame i))"

lemma pending_shape:
  "frame_validate_shape f = Inr () \<Longrightarrow> hcf_status f = Pending \<Longrightarrow> hcf_result_length f = 0"
  by (auto simp: frame_validate_shape_def split: if_splits)

lemma answers_callI:
  assumes "frame_validate_shape f = Inr ()" and "st = Complete \<or> st = HostError \<and> staged = [] \<or>
      st = WouldBlock \<and> staged = [] \<and> hcf_flags f AND HOST_CALL_FLAG_NONBLOCKING \<noteq> 0"
    and "length staged \<le> hcf_result_capacity f" and "n = length staged"
  shows "answers_call f \<lparr>htr_frame = f\<lparr>hcf_result_length := n, hcf_status := st\<rparr>,
    htr_staged_result = staged\<rparr>"
proof -
  have "frame_validate_shape (f\<lparr>hcf_result_length := length staged, hcf_status := st\<rparr>) = Inr ()"
    using assms(1-3) by (simp add: frame_validate_shape_def split: if_splits) blast
  then show ?thesis using assms(2,4) by (auto simp: answers_call_def response_identity_matches_def)
qed

lemma clock_answers:
  assumes "frame_validate_shape (hci_frame i) = Inr ()" and "8 \<le> hcf_result_capacity (hci_frame i)"
  shows "answers_call (hci_frame i) (fst (monotonic_response elapsed t i))"
  using assms by (simp add: monotonic_response_def status_response_def Let_def answers_callI
      encode_host_monotonic_time_v1_result_def)

lemma sleep_answers:
  assumes f: "frame_validate_shape (hci_frame i) = Inr ()" "hcf_status (hci_frame i) = Pending"
    and r: "sleep_response i = Inr response"
  shows "answers_call (hci_frame i) response"
proof -
  obtain st where "response = \<lparr>htr_frame = (hci_frame i)\<lparr>hcf_status := st\<rparr>, htr_staged_result = []\<rparr>"
    "st = Complete \<or> st = WouldBlock \<and> hcf_flags (hci_frame i) AND HOST_CALL_FLAG_NONBLOCKING \<noteq> 0"
    using r by (auto simp: sleep_response_def split: if_splits)
  moreover have "(hci_frame i)\<lparr>hcf_status := st\<rparr> = (hci_frame i)\<lparr>hcf_result_length := 0, hcf_status := st\<rparr>"
    for st using pending_shape[OF f] by (cases "hci_frame i") simp
  ultimately show ?thesis using answers_callI[OF f(1), of st "[]"] by auto
qed

lemma timing_answers:
  assumes "frame_validate_shape (hci_frame i) = Inr ()" "hcf_status (hci_frame i) = Pending" "timing_meant i"
    and "system_timing_invoke elapsed t i = (Inr response, t')"
  shows "answers_call (hci_frame i) response"
  using assms clock_answers[of i elapsed t] sleep_answers[of i response]
  by (auto simp: system_timing_invoke_def timing_meant_def split: if_splits prod.splits)
    (metis apfst_conv fst_conv old.prod.exhaust old.sum.inject(2) prod.inject)

interpretation timing: answering_transport "system_timing_invoke elapsed" timing_meant for elapsed
  by unfold_locales (rule timing_answers)

lemma monotonic_call_Inr:
  "validate_host_monotonic_time_v1_call f (length memory) registry = Inr () \<Longrightarrow>
    validate_request f (length memory) registry = Inr () \<and>
    hcf_capability_id f = HOST_MONOTONIC_TIME_CAPABILITY_ID \<and> hcf_result_capacity f = 8 \<and>
    validate_builtin_request f memory registry = Inr ()"
  by (auto simp: validate_host_monotonic_time_v1_call_def and_then_Inr_iff Let_def
      HOST_MONOTONIC_TIME_V1_RESULT_SIZE_def validate_builtin_request_def
      HOST_EXECUTION_TELEMETRY_CAPABILITY_ID_def HOST_MONOTONIC_TIME_CAPABILITY_ID_def split: if_splits)

lemma clock_dispatch:
  assumes v: "validate_host_monotonic_time_v1_call request (length memory) registry = Inr ()"
    and m: "length memory \<le> U64_MAX"
  shows "dispatch_builtin_host_capability registry request memory (system_timing_invoke elapsed) t =
    (if last_nanoseconds t \<le> elapsed \<and> elapsed \<le> U64_MAX
     then (Inr (request\<lparr>hcf_result_length := 8, hcf_status := Complete\<rparr>),
       overwritten memory (hcf_result_offset request) (le_bytes 8 elapsed), t\<lparr>last_nanoseconds := elapsed\<rparr>)
     else (Inr (request\<lparr>hcf_result_length := 0, hcf_status := HostError\<rparr>), memory, t))"
proof -
  note a = monotonic_call_Inr[OF v]
  define i where "i = \<lparr>hci_frame = request,
      hci_request = take (hcf_request_length request) (drop (hcf_request_offset request) memory)\<rparr>"
  obtain response t' where r: "monotonic_response elapsed t i = (response, t')" by fastforce
  have "system_timing_invoke elapsed t i = (Inr response, t')"
    using a r by (simp add: system_timing_invoke_def i_def)
  from timing.answer_published[OF conjunct1[OF a] m this[unfolded i_def]]
  have "dispatch_host_capability registry request memory (system_timing_invoke elapsed) t =
      (Inr (htr_frame response), overwritten memory (hcf_result_offset request) (htr_staged_result response), t')"
    using a by (simp add: timing_meant_def)
  moreover have "time_answer (htr_frame response)"
    using r by (auto simp: monotonic_response_def time_answer_def status_response_def Let_def split: if_splits)
  ultimately have "dispatch_builtin_host_capability registry request memory (system_timing_invoke elapsed) t =
      (Inr (htr_frame response), overwritten memory (hcf_result_offset request) (htr_staged_result response), t')"
    unfolding builtin_dispatch_Inr[OF m] using a by simp
  then show ?thesis
    using r by (auto simp: monotonic_response_def status_response_def i_def Let_def
        encode_host_monotonic_time_v1_result_def split: if_splits)
qed

subsection \<open>Properties\<close>

lemma request_bytes_kept:
  assumes v: "validate_request request (length memory) registry = Inr ()" and m: "length memory \<le> U64_MAX"
    and l: "length bytes \<le> hcf_result_capacity request"
  shows "take (hcf_request_length request) (drop (hcf_request_offset request)
      (overwritten memory (hcf_result_offset request) bytes)) =
    take (hcf_request_length request) (drop (hcf_request_offset request) memory)"
proof (rule nth_equalityI)
  have b: "hcf_request_offset request + hcf_request_length request \<le> length memory"
    "hcf_result_offset request + hcf_result_capacity request \<le> length memory" "apart request"
    using v validate_request_Inr[OF m] by blast+
  then have len: "length (overwritten memory (hcf_result_offset request) bytes) = length memory"
    using l by simp
  then show "length (take (hcf_request_length request) (drop (hcf_request_offset request)
      (overwritten memory (hcf_result_offset request) bytes))) =
    length (take (hcf_request_length request) (drop (hcf_request_offset request) memory))" by simp
  fix i
  assume "i < length (take (hcf_request_length request) (drop (hcf_request_offset request)
      (overwritten memory (hcf_result_offset request) bytes)))"
  then have i: "i < hcf_request_length request" by simp
  then have "\<not> (hcf_result_offset request \<le> hcf_request_offset request + i \<and>
      hcf_request_offset request + i < hcf_result_offset request + length bytes)"
    using b(3) l unfolding apart_def by linarith
  then show "take (hcf_request_length request) (drop (hcf_request_offset request)
      (overwritten memory (hcf_result_offset request) bytes)) ! i =
    take (hcf_request_length request) (drop (hcf_request_offset request) memory) ! i"
    using i b l len nth_overwritten[of "hcf_result_offset request" bytes memory "hcf_request_offset request + i"]
    by (simp only: if_not_P) simp
qed

lemma dispatched_capacity:
  "dispatched registry request memory invoke t response t' \<Longrightarrow>
    length (htr_staged_result response) \<le> hcf_result_capacity request"
  using shape_bounds[of "htr_frame response"]
  by (auto simp: dispatched_def answer_fits_def response_identity_matches_def)

lemma dispatch_rejected_keeps:
  "dispatch_host_capability registry request memory invoke transport = (Inl e, memory', transport') \<Longrightarrow>
    validate_request request (length memory) registry \<noteq> Inr () \<Longrightarrow> transport' = transport"
  by (auto simp: dispatch_host_capability_def split: sum.splits)

text \<open>A call of the clock, with every built-in capability available.\<close>

definition demo_registry :: "HostCapabilityDescriptor list" where
  "demo_registry = host_builtin_capability_registry
    \<lparr>hba_monotonic_time = Available, hba_relative_mouse = Available, hba_sleep = Available,
     hba_telemetry = Available\<rparr>"

definition demo_call :: HostCapabilityFrame where
  "demo_call =
    \<lparr>hcf_abi_version = 1, hcf_call_id = 7, hcf_capability_id = 0x400, hcf_capability_version = 1,
     hcf_flags = 0, hcf_operation = 0, hcf_request_length = 0, hcf_request_offset = 0,
     hcf_result_capacity = 8, hcf_result_length = 0, hcf_result_offset = 2, hcf_status = Pending\<rparr>"

lemmas host_ids = HOST_MONOTONIC_TIME_CAPABILITY_ID_def HOST_SLEEP_CAPABILITY_ID_def
  HOST_EXECUTION_TELEMETRY_CAPABILITY_ID_def HOST_RELATIVE_MOUSE_CAPTURE_CAPABILITY_ID_def
  HOST_MONOTONIC_TIME_V1_VERSION_def HOST_SLEEP_V1_VERSION_def HOST_EXECUTION_TELEMETRY_V1_VERSION_def
  HOST_RELATIVE_MOUSE_CAPTURE_V1_VERSION_def HOST_MONOTONIC_TIME_V1_OPERATION_def
  HOST_MONOTONIC_TIME_V1_RESULT_SIZE_def HOST_CAPABILITY_ABI_VERSION_def
  HOST_CAPABILITY_FLAG_AVAILABLE_def HOST_CAPABILITY_FLAG_MAY_BLOCK_def
  HOST_CAPABILITY_FLAG_PARTIAL_PROGRESS_def HOST_CALL_FLAG_NONBLOCKING_def KNOWN_CALL_FLAGS_def
  KNOWN_CAPABILITY_FLAGS_def

lemma demo_registry_wf: "validate_host_capability_registry demo_registry = Inr ()"
  by (simp add: validate_host_capability_registry_def demo_registry_def host_builtin_capability_registry_def
      host_monotonic_time_v1_descriptor_def host_sleep_v1_descriptor_def
      host_execution_telemetry_v1_descriptor_def host_relative_mouse_capture_v1_descriptor_def
      descriptor_validate_def host_ids)

lemma demo_discovery: "discover_host_capability demo_registry 0x400 1 = Inr (host_monotonic_time_v1_descriptor True)"
  using demo_registry_wf
  by (simp add: discover_host_capability_def demo_registry_def host_builtin_capability_registry_def
      host_monotonic_time_v1_descriptor_def host_ids)

lemma demo_call_admitted: "validate_host_monotonic_time_v1_call demo_call 12 demo_registry = Inr ()"
  by (simp add: validate_host_monotonic_time_v1_call_def validate_request_def demo_call_def
      frame_validate_shape_def demo_discovery[unfolded One_nat_def] range_valid_def checked_sub_def ranges_overlap_def host_ids
      host_monotonic_time_v1_descriptor_def)

lemma demo_dispatch:
  "dispatch_builtin_host_capability demo_registry demo_call (replicate 12 0) (system_timing_invoke 5)
      system_timing_new =
    (Inr (demo_call\<lparr>hcf_result_length := 8, hcf_status := Complete\<rparr>),
     overwritten (replicate 12 0) 2 (le_bytes 8 5), \<lparr>last_nanoseconds = 5\<rparr>)"
  using clock_dispatch[of demo_call "replicate 12 0" demo_registry 5 system_timing_new] demo_call_admitted
  by (simp add: U64_MAX_def system_timing_new_def demo_call_def)

lemma le_bytes_numeral: "le_bytes (numeral k) v = of_nat v # le_bytes (pred_numeral k) (v div 256)"
  by (subst numeral_eq_Suc) simp

lemma replicate_numeral_cells: "replicate (numeral k) x = x # replicate (pred_numeral k) x"
  by (subst numeral_eq_Suc) simp

lemma demo_memory: "overwritten (replicate 12 0) 2 (le_bytes 8 5) = [0, 0, 5, 0, 0, 0, 0, 0, 0, 0, 0, 0]"
  by (simp add: overwritten_def le_bytes_numeral replicate_numeral_cells)

text \<open>
  C20: a call leaves the guest memory as it was when it fails, and does not reach the transport when
  the request is not admitted; when it succeeds, the transport saw exactly the request's bytes,
  answered the same call with a result within its capacity, the memory changes only there, and the
  bytes of the request are still what they were.
\<close>
theorem dispatch_is_contained:
  assumes "length memory \<le> U64_MAX"
  shows "case dispatch_host_capability registry request memory invoke transport of
      (Inl e, memory', transport') \<Rightarrow> memory' = memory \<and>
        (validate_request request (length memory) registry \<noteq> Inr () \<longrightarrow> transport' = transport)
    | (Inr f, memory', transport') \<Rightarrow>
        take (hcf_request_length request) (drop (hcf_request_offset request) memory') =
          take (hcf_request_length request) (drop (hcf_request_offset request) memory) \<and>
        (\<exists>response. dispatched registry request memory invoke transport response transport' \<and>
          f = htr_frame response \<and> length (htr_staged_result response) \<le> hcf_result_capacity request \<and>
          memory' = overwritten memory (hcf_result_offset request) (htr_staged_result response))"
proof -
  obtain r memory' t' where d: "dispatch_host_capability registry request memory invoke transport = (r, memory', t')"
    by (metis prod_cases3)
  show ?thesis
  proof (cases r)
    case (Inl e)
    have "memory' = memory" by (rule dispatch_Inl[OF d[unfolded Inl]])
    moreover have "validate_request request (length memory) registry \<noteq> Inr () \<Longrightarrow> t' = transport"
      by (rule dispatch_rejected_keeps[OF d[unfolded Inl]])
    ultimately show ?thesis unfolding d Inl prod.case sum.case by blast
  next
    case (Inr f)
    then obtain response where r: "dispatched registry request memory invoke transport response t'"
      "f = htr_frame response" "memory' = overwritten memory (hcf_result_offset request) (htr_staged_result response)"
      using d[unfolded Inr dispatch_Inr[OF assms]] by (elim exE conjE) (rule that)
    then have "validate_request request (length memory) registry = Inr ()" by (simp add: dispatched_def)
    note kept = request_bytes_kept[OF this assms dispatched_capacity[OF r(1)]]
    show ?thesis
      unfolding d Inr prod.case sum.case r(3) using kept r(1,2) dispatched_capacity[OF r(1)] by blast
  qed
qed

lemma demo_generic_dispatch:
  "dispatch_host_capability demo_registry demo_call (replicate 12 0) (system_timing_invoke 5)
      system_timing_new =
    (Inr (demo_call\<lparr>hcf_result_length := 8, hcf_status := Complete\<rparr>),
     overwritten (replicate 12 0) 2 (le_bytes 8 5), \<lparr>last_nanoseconds = 5\<rparr>)"
proof -
  have "length (replicate 12 (0 :: u8)) \<le> U64_MAX" by (simp add: U64_MAX_def)
  from builtin_dispatch_Inr[OF this, THEN iffD1, OF demo_dispatch] show ?thesis by blast
qed

theorem dispatch_is_contained_witness:
  "\<exists>response. dispatched demo_registry demo_call (replicate 12 0) (system_timing_invoke 5) system_timing_new
      response \<lparr>last_nanoseconds = 5\<rparr> \<and> hcf_status (htr_frame response) = Complete \<and>
      length (htr_staged_result response) \<le> 8"
proof -
  have "length (replicate 12 (0 :: u8)) \<le> U64_MAX" by (simp add: U64_MAX_def)
  from dispatch_is_contained[OF this, where registry = demo_registry and request = demo_call and
      invoke = "system_timing_invoke 5" and transport = system_timing_new, unfolded demo_generic_dispatch prod.case sum.case]
  obtain response where r: "dispatched demo_registry demo_call (replicate 12 0) (system_timing_invoke 5)
      system_timing_new response \<lparr>last_nanoseconds = 5\<rparr>"
    "demo_call\<lparr>hcf_result_length := 8, hcf_status := Complete\<rparr> = htr_frame response"
    "length (htr_staged_result response) \<le> hcf_result_capacity demo_call"
    by (elim exE conjE) (rule that)
  then have "hcf_status (htr_frame response) = Complete" by (simp flip: r(2))
  with r(1,3) show ?thesis by (intro exI[of _ response]) (simp add: demo_call_def)
qed

text \<open>
  C21: dispatching a built-in capability is the general dispatch restricted to its schema: it
  succeeds with a result, a memory and a transport state exactly when the schema admits the request,
  a clock's answer has the clock's result, and the general dispatch succeeds with the same three.
\<close>
theorem builtin_dispatch_refines:
  assumes "length memory \<le> U64_MAX"
  shows "dispatch_builtin_host_capability registry request memory invoke transport = (Inr f, memory', transport') \<longleftrightarrow>
    validate_builtin_request request memory registry = Inr () \<and>
    \<not> (hcf_capability_id request = HOST_MONOTONIC_TIME_CAPABILITY_ID \<and> \<not> time_answer f) \<and>
    dispatch_host_capability registry request memory invoke transport = (Inr f, memory', transport')"
  unfolding builtin_dispatch_Inr[OF assms] by blast

theorem builtin_dispatch_refines_witness:
  "dispatch_host_capability demo_registry demo_call (replicate 12 0) (system_timing_invoke 5)
      system_timing_new =
    (Inr (demo_call\<lparr>hcf_result_length := 8, hcf_status := Complete\<rparr>),
     [0, 0, 5, 0, 0, 0, 0, 0, 0, 0, 0, 0], \<lparr>last_nanoseconds = 5\<rparr>)"
proof -
  have "length (replicate 12 (0 :: u8)) \<le> U64_MAX" by (simp add: U64_MAX_def)
  from builtin_dispatch_refines[OF this, THEN iffD1, OF demo_dispatch] show ?thesis
    unfolding demo_memory by blast
qed

text \<open>
  C22: an admitted call of the monotonic clock through the built-in dispatch answers with the eight
  bytes of the reading at the result offset and remembers the reading, unless the clock has run
  backwards or past 64 bits; then it answers a host error, and nothing changes.
\<close>
theorem clock_call_is_answered:
  assumes "validate_host_monotonic_time_v1_call request (length memory) registry = Inr ()"
    and "length memory \<le> U64_MAX"
  shows "dispatch_builtin_host_capability registry request memory (system_timing_invoke elapsed) t =
    (if last_nanoseconds t \<le> elapsed \<and> elapsed \<le> U64_MAX
     then (Inr (request\<lparr>hcf_result_length := 8, hcf_status := Complete\<rparr>),
       overwritten memory (hcf_result_offset request) (le_bytes 8 elapsed), t\<lparr>last_nanoseconds := elapsed\<rparr>)
     else (Inr (request\<lparr>hcf_result_length := 0, hcf_status := HostError\<rparr>), memory, t))"
  using assms by (rule clock_dispatch)

theorem clock_call_is_answered_witness:
  "dispatch_builtin_host_capability demo_registry demo_call (replicate 12 0) (system_timing_invoke 5)
      \<lparr>last_nanoseconds = 6\<rparr> =
    (Inr (demo_call\<lparr>hcf_result_length := 0, hcf_status := HostError\<rparr>), replicate 12 0, \<lparr>last_nanoseconds = 6\<rparr>) \<and>
   dispatch_builtin_host_capability demo_registry demo_call (replicate 12 0) (system_timing_invoke 5)
      \<lparr>last_nanoseconds = 5\<rparr> =
    (Inr (demo_call\<lparr>hcf_result_length := 8, hcf_status := Complete\<rparr>),
     overwritten (replicate 12 0) 2 (le_bytes 8 5), \<lparr>last_nanoseconds = 5\<rparr>)"
proof -
  have v: "validate_host_monotonic_time_v1_call demo_call (length (replicate 12 (0 :: u8))) demo_registry = Inr ()"
    using demo_call_admitted by simp
  have m: "length (replicate 12 (0 :: u8)) \<le> U64_MAX" by (simp add: U64_MAX_def)
  show ?thesis
    using clock_call_is_answered[OF v m, of 5 "\<lparr>last_nanoseconds = 6\<rparr>"]
      clock_call_is_answered[OF v m, of 5 "\<lparr>last_nanoseconds = 5\<rparr>"]
    by (simp add: U64_MAX_def demo_call_def)
qed

end
