(* ===== verification/Spec2Isabelle.thy ===== *)
theory Spec2Isabelle
  imports Equivalence ChunkedWord Execution CapsuleHistory Detectors ResidentWire WidthSelection
    EffectPrograms EffectEncoding BatchBackend Logical LayoutFacts HostSchemaFacts HostDispatchFacts
begin

text \<open>
  Malbolge is a virtual machine whose memory is ternary words and whose instructions overwrite
  themselves as they run. The repository keeps two implementations of it in Rust under
  \<open>src/src/runtime/virtual-machine\<close> (\<open>VM\<close> below): the classic ten-trit machine with the historical
  interpreter behaviour, and a machine driven by profiles (word width, memory size, I/O opcodes, I/O
  words). Around them stand the loaders, the source formats, the byte protocols and the schedulers,
  and under \<open>src/src/compiler/malbolge-layout\<close> the stage of the compiler that places opcodes in
  self-modifying memory. This development models these parts and proves what makes them correct.

  \<^bold>\<open>How the parts interact.\<close> A source (plain, annotated, or a capsule) is loaded into a machine. A
  machine is stepped or run under a budget, observed or not, and can be saved and restored. The
  loader may choose a narrower word width for a profile when a verifier admits it. Observed steps are
  projected to effect programs, which other tiers consume as canonical bytes. Batches run many
  machines in order, over threads, or through a backend which speaks the resident protocol and whose
  answers are checked; logical plans order batches by identity. A guest asks its host for effects
  through capability frames. The code layout produces sources that the profile machine runs.

  \<^bold>\<open>Theories and what they model.\<close>
  \<^item> \<open>Prelude\<close>: machine integers, results as sums, base-3 digits. \<open>Bytes\<close>: integers and strings as bytes,
    the locale \<open>byte_reader\<close>.
  \<^item> \<open>Words\<close>: \<open>VM/contract/word.rs\<close> and the table generator \<open>VM/composition/build.rs\<close>; the tables and the
    optimised routines are the trit-wise reference \<open>crazy_digits\<close>.
  \<^item> \<open>Memory\<close>, \<open>Instruction\<close>, \<open>Mode\<close>, \<open>Loader\<close>: the files of those names in \<open>VM/domain\<close>.
  \<^item> \<open>Runner\<close>: outcomes and the contract of bounded runs, shared by both machines.
  \<^item> \<open>Machine\<close>, \<open>MachineFacts\<close>: \<open>VM/domain/machine.rs\<close> and \<open>trace.rs\<close>; the record \<open>Machine\<close> is the struct
    of that name, \<open>step\<close> and \<open>run\<close> its methods, and what holds of them.
  \<^item> \<open>AbstractMachine\<close>, \<open>MachineRefinement\<close>, \<open>ProfileRefinement\<close>: the specification, a machine over
    numbers of any width with no tables and no errors, and the refinements of both machines to it.
  \<^item> \<open>Profile\<close>: \<open>VM/domain/profile.rs\<close> with its generated table. \<open>ProfileMachine\<close>,
    \<open>ProfileMachineFacts\<close>, \<open>ProfileLoading\<close>: \<open>VM/domain/profile_machine.rs\<close> and \<open>profile_trace.rs\<close>.
  \<^item> \<open>Equivalence\<close>: the classic machine is the profile machine on two of the profiles, field by field.
  \<^item> \<open>ChunkedWord\<close>: \<open>VM/contract/profile_word.rs\<close> and \<open>semantic_width*.rs\<close>.
  \<^item> \<open>Annotated\<close>, \<open>Capsule\<close>, \<open>CapsuleHistory\<close>: \<open>VM/domain/annotated.rs\<close> and \<open>capsule.rs\<close>.
  \<^item> \<open>Detectors\<close>: \<open>VM/domain/cycle.rs\<close> and \<open>differential.rs\<close>. \<open>Execution\<close>: \<open>VM/domain/execution.rs\<close>.
  \<^item> \<open>WidthProof\<close>: the fifteen verifiers and the selection of \<open>VM/domain/profile_width.rs\<close>; \<open>Lockstep\<close>
    states what a narrow machine must satisfy to be the wide one, \<open>WidthSoundness\<close> and
    \<open>WidthVerifiers\<close> show that each verifier guarantees it, \<open>WidthSelection\<close> concludes.
  \<^item> \<open>EffectIR\<close>: \<open>VM/domain/execution_ir.rs\<close>; \<open>RegionReplay\<close> shows what live-ins are worth,
    \<open>EffectPrograms\<close> that programs fit the memory they declare, \<open>EffectEncoding\<close> the canonical bytes.
  \<^item> \<open>ResidentWire\<close>: \<open>VM/contract/profile_resident_wire.rs\<close>.
  \<^item> \<open>Batch\<close>, \<open>BatchBackend\<close>, \<open>Logical\<close>: \<open>VM/application/batch.rs\<close>, \<open>batch_backend.rs\<close>, \<open>logical.rs\<close>, with
    \<open>VM/port-outbound/parallel.rs\<close> and \<open>VM/adapter-outbound/threading.rs\<close>.
  \<^item> \<open>HostCapability\<close>, \<open>HostSchemas\<close>, \<open>HostDispatch\<close>: \<open>VM/contract/host_capability*.rs\<close>,
    \<open>VM/application/host_capability_dispatch.rs\<close>, \<open>VM/port-outbound/host_capability.rs\<close> and
    \<open>VM/adapter-outbound/host_capability_time.rs\<close>; \<open>HostCapabilityFacts\<close>, \<open>HostSchemaFacts\<close> and
    \<open>HostDispatchFacts\<close> hold their codecs, admission, commit and dispatch.
  \<^item> \<open>Layout\<close>: \<open>src/src/compiler/malbolge-layout/composition/lib.rs\<close>; \<open>LayoutPath\<close> and \<open>LayoutFacts\<close> relate
    the derived path to the runs of the profile machine.

  \<^bold>\<open>How code becomes definitions.\<close> A struct is a record and an enum a datatype with the source's names
  (fields carry a prefix, as record fields share one name space). A method that takes \<open>&mut self\<close>
  returns its result with the object it leaves, so what an error leaves behind is part of the model.
  \<open>Result\<close> is a sum, \<open>?\<close> is \<open>and_then\<close>, a panic is \<open>None\<close>. A loop is a recursive function named after
  its routine with \<open>_loop\<close>. Bytes and flag sets are machine words; \<open>u16\<close>, \<open>u32\<close>, \<open>u64\<close> and \<open>usize\<close> (64
  bits) are natural numbers, and each checked, saturating or wrapping operation carries its limit.

  \<^bold>\<open>What the lemmas show.\<close> Functional: each optimised routine equals its reference (crazy, rotation,
  chunked words, canonicalization, the loaded image). Invariants: every constructor yields a
  well-formed machine and every run keeps it, and the errors a well-formed machine cannot reach are
  excluded. Refinement: both machines implement the abstract one, on every outcome; a built-in host
  call implements a general one; a batch over a sound backend is the batch without it. Safety: a
  backend, a transport or a bad width cannot corrupt what it does not own. Round trips: capsules,
  resident responses, frames and telemetry decode exactly from what is encoded; effect programs have
  prefix-free codes. Errors: which input is rejected, with which error, and that state is kept.
  Liveness: a repeated state means that no budget ends the run.

  \<^bold>\<open>Interfaces.\<close> \<open>bounded_runner\<close>, \<open>traced_runner\<close>, \<open>atomic_runner\<close> (what a run relies on in a step) and
  \<open>runner_embedding\<close> (one machine inside another), \<open>word_store\<close>, \<open>byte_reader\<close>, \<open>history_detector\<close>,
  \<open>width_verifier\<close> (fifteen interpretations), \<open>delimited\<close> (codes that can be peeled off),
  \<open>parallel_port\<close>, \<open>routed_batch\<close> and \<open>answering_transport\<close>; each is interpreted on the model of the code
  in the theory of the component that provides it.

  \<^bold>\<open>Bounds, fuel and parameters.\<close> Where a definition counts down the source does too: runs by the
  step budget, the search for a code-jump prefix by the length of the source plus one, the automatic
  relocation by the 94 graphical phases. The other loops have termination proofs: the derived
  execution path by the cells beyond the data pointer and then the operations beyond the position,
  padding by the distance to its target, the registry scan by the bytes that remain. Whether the
  allocator can reserve memory is the argument \<open>reserve\<close>. Backends, host transports and parallel ports are functions that are arguments, with what
  the code relies on as hypotheses or locale assumptions; the clock's reading is a number.

  \<^bold>\<open>Not modelled.\<close> The \<open>Display\<close> texts of most errors (those of profile diagnostics are). The process
  that hosts the resident worker and the sleep of the timing transport: operating-system calls with no
  result in the model. The re-exports of \<open>VM/composition/lib.rs\<close>. The tiered execution under
  \<open>src/src/runtime/tiered-execution\<close>, which emits and runs native machine code: its meaning rests on the
  instruction sets of two processors that are not in the repository; the effect programs it consumes
  are modelled. The front end and lowering of the compiler, which stop before executable code. The
  generators of guest programs under \<open>src/src/research\<close>, mostly generated code. The command lines, the
  decompiler and the benchmarks, which are input, output and presentation around these parts.
\<close>

section \<open>Concrete machines for the witnesses\<close>

text \<open>
  A six-trit profile machine: cell 0 holds \<open>>\<close> (62), which decodes to the crazy operation at
  position 0; D points to cell 1, which holds 5. A classic machine with the same two cells.
\<close>

definition demo_geometry :: ProfileExecutionGeometry where
  "demo_geometry =
    \<lparr>geo_input_policy = Any, geo_memory_words = 729, geo_profile = PROFILE_0, geo_word_trits = 6\<rparr>"

definition demo_pmachine :: "u32 \<Rightarrow> ProfileMachine" where
  "demo_pmachine cell =
    \<lparr>pm_geometry = demo_geometry, pm_input = [7], pm_input_cursor = 0,
     pm_memory = cell # 5 # replicate 727 0, pm_output = [], pm_profile = PROFILE_0,
     pm_registers = \<lparr>preg_accumulator = 0, preg_code_pointer = 0, preg_data_pointer = 1\<rparr>,
     pm_termination = None\<rparr>"

definition demo_machine :: "u16 \<Rightarrow> Machine" where
  "demo_machine cell =
    \<lparr>m_input = [7], m_input_cursor = 0,
     m_memory = \<lparr>mem_words = Word cell # Word 5 # replicate 59047 (Word 0)\<rparr>, m_output = [],
     m_registers = \<lparr>accumulator = Word 0, code_pointer = Word 0, data_pointer = Word 1\<rparr>,
     m_termination = None\<rparr>"

lemma demo_pmachine_wf: "cell < 729 \<Longrightarrow> wf_pmachine (demo_pmachine cell)"
  by (simp add: wf_pmachine_def demo_pmachine_def demo_geometry_def wf_geometry_def PROFILE_wf
      wf_pregisters_def admits_input_def)

lemma demo_machine_wf: "cell < 59049 \<Longrightarrow> wf_machine (demo_machine cell)"
  by (simp add: wf_machine_def demo_machine_def wf_memory_def wf_registers_def wf_word_def
      MAX_WORD_VALUE_def MEMORY_WORDS_def)

lemma demo_live [simp]: "pm_termination (demo_pmachine cell) = None" "m_termination (demo_machine cell) = None"
  by (simp_all add: demo_pmachine_def demo_machine_def)

section \<open>Properties of the two machines\<close>

text \<open>
  C1: a live, well-formed profile machine refines the abstract machine of its width and I/O
  bytes, for every outcome: it takes the abstract step when there is one, halts when the abstract
  machine halts, reports an invalid encryption target and stays put when the abstract machine is
  blocked, and on a cell that is not graphical either repeats the state (the historical profile)
  or terminates.
\<close>
theorem profile_machine_refines:
  assumes "wf_pmachine m" and "pm_termination m = None"
  shows "(\<forall>s'. amstep (geo_word_trits (pm_geometry m)) (pd_input_instruction (pm_profile m))
        (pd_output_instruction (pm_profile m)) (abs_pmachine m) s' \<longrightarrow>
      (\<exists>m'. pstep m = (Inr Continued, m') \<and> abs_pmachine m' = s')) \<and>
    (am_halts (pd_input_instruction (pm_profile m)) (pd_output_instruction (pm_profile m)) (abs_pmachine m) \<longrightarrow>
      pstep m = (Inr (Terminated HaltInstruction), m\<lparr>pm_termination := Some HaltInstruction\<rparr>)) \<and>
    (am_blocked (geo_word_trits (pm_geometry m)) (pd_input_instruction (pm_profile m))
        (pd_output_instruction (pm_profile m)) (abs_pmachine m) \<longrightarrow>
      (\<exists>a v. pstep m = (Inl (PInvalidEncryptionTarget a v), m) \<and> \<not> graphical v)) \<and>
    (\<not> graphical (am_mem (abs_pmachine m) (am_c (abs_pmachine m))) \<longrightarrow>
      pstep m = (if pd_kind (pm_profile m) = HistoricalConformance then (Inr Continued, m)
        else (Inr (Terminated NonGraphicalCell), m\<lparr>pm_termination := Some NonGraphicalCell\<rparr>)))"
  using prefine_step[OF assms] prefine_halt[OF assms] prefine_blocked[OF assms]
    prefine_nongraphical[OF assms] by blast

lemma demo_abs:
  "am_mem (abs_pmachine (demo_pmachine 62)) 0 = 62" "am_mem (abs_pmachine (demo_pmachine 62)) 1 = 5"
  "am_a (abs_pmachine (demo_pmachine 62)) = 0" "am_c (abs_pmachine (demo_pmachine 62)) = 0"
  "am_d (abs_pmachine (demo_pmachine 62)) = 1"
  by (simp_all add: abs_pmachine_def demo_pmachine_def abs_words_def)

lemma demo_operation: "am_operation 47 60 (am_decoded (abs_pmachine (demo_pmachine 62))) = OpCrazy"
proof -
  have "am_decoded (abs_pmachine (demo_pmachine 62)) = XLAT1 ! 29"
    by (simp add: am_decoded_def demo_abs del: abs_pmachine_regs)
  also have "XLAT1 ! 29 = 112" by (simp add: XLAT1_def)
  finally show ?thesis by (simp add: am_operation_def)
qed

lemma demo_amstep:
  "amstep 6 47 60 (abs_pmachine (demo_pmachine 62))
    (am_seal 6 (am_effect 6 OpCrazy (abs_pmachine (demo_pmachine 62))))"
proof (rule amstep_op[where opn = OpCrazy])
  show "graphical (am_mem (abs_pmachine (demo_pmachine 62)) (am_c (abs_pmachine (demo_pmachine 62))))"
    unfolding demo_abs by (simp add: graphical_def)
  show "am_operation 47 60 (am_decoded (abs_pmachine (demo_pmachine 62))) = OpCrazy" by (rule demo_operation)
  show "graphical (am_mem (am_effect 6 OpCrazy (abs_pmachine (demo_pmachine 62)))
      (am_c (am_effect 6 OpCrazy (abs_pmachine (demo_pmachine 62)))))"
    by (simp add: Let_def demo_abs demo_abs[unfolded One_nat_def] graphical_def del: abs_pmachine_regs)
qed simp_all

theorem profile_machine_refines_witness:
  "\<exists>m'. pstep (demo_pmachine 62) = (Inr Continued, m') \<and> am_a (abs_pmachine m') = 365 \<and>
    am_c (abs_pmachine m') = 1 \<and> am_d (abs_pmachine m') = 2 \<and>
    am_mem (abs_pmachine m') 0 = 76 \<and> am_mem (abs_pmachine m') 1 = 365"
proof -
  obtain m' where m': "pstep (demo_pmachine 62) = (Inr Continued, m')"
    "abs_pmachine m' = am_seal 6 (am_effect 6 OpCrazy (abs_pmachine (demo_pmachine 62)))"
    using profile_machine_refines[OF demo_pmachine_wf demo_live(1), of 62, THEN conjunct1, THEN spec, THEN mp]
      demo_amstep by (simp add: demo_pmachine_def demo_geometry_def PROFILE_0_def) blast
  have "crazy_digits 6 5 0 = 365" by (simp add: crazy_digits_numeral crazy_trit_def)
  then have "am_a (abs_pmachine m') = 365" "am_c (abs_pmachine m') = 1" "am_d (abs_pmachine m') = 2"
    "am_mem (abs_pmachine m') 0 = 76" "am_mem (abs_pmachine m') 1 = 365"
    unfolding m'(2)
    by (simp_all add: am_seal_def Let_def demo_abs demo_abs[unfolded One_nat_def] XLAT2_def del: abs_pmachine_regs)
  then show ?thesis using m'(1) by blast
qed

text \<open>
  C2: the classic machine refines the same abstract machine at ten trits, with the I/O bytes of
  its execution mode, for every outcome; on a cell that is not graphical the interpreter repeats
  the state and the specification mode terminates.
\<close>
theorem classic_machine_refines:
  assumes "wf_machine m" and "m_termination m = None"
  shows "(\<forall>s'. amstep 10 (mode_input_op mode) (mode_output_op mode) (abs_machine m) s' \<longrightarrow>
      (\<exists>m'. step_in_mode mode m = (Inr Continued, m') \<and> abs_machine m' = s')) \<and>
    (am_halts (mode_input_op mode) (mode_output_op mode) (abs_machine m) \<longrightarrow>
      step_in_mode mode m = (Inr (Terminated HaltInstruction), m\<lparr>m_termination := Some HaltInstruction\<rparr>)) \<and>
    (am_blocked 10 (mode_input_op mode) (mode_output_op mode) (abs_machine m) \<longrightarrow>
      (\<exists>e. step_in_mode mode m = (Inl e, m))) \<and>
    (\<not> graphical (am_mem (abs_machine m) (am_c (abs_machine m))) \<longrightarrow>
      step_in_mode mode m = (if mode = Interpreter then (Inr Continued, m)
        else (Inr (Terminated NonGraphicalCell), m\<lparr>m_termination := Some NonGraphicalCell\<rparr>)))"
  using refine_step[OF assms, of mode] refine_halt[OF assms, of mode] refine_blocked[OF assms, of mode]
    step_nongraphical[OF assms, of mode] graphical_fetch_abs[OF assms(1)] by blast

lemma demo_abs_classic:
  "am_mem (abs_machine (demo_machine c)) 0 = c" "am_c (abs_machine (demo_machine c)) = 0"
  by (simp_all add: abs_machine_def demo_machine_def abs_words_def)

theorem classic_machine_refines_witness:
  "step_in_mode Specification (demo_machine 81) =
    (Inr (Terminated HaltInstruction), (demo_machine 81)\<lparr>m_termination := Some HaltInstruction\<rparr>)"
proof -
  have "am_decoded (abs_machine (demo_machine 81)) = XLAT1 ! 48"
    by (simp add: am_decoded_def demo_abs_classic del: abs_machine_regs)
  also have "XLAT1 ! 48 = 118" by (simp add: XLAT1_def)
  finally have "am_halts 60 47 (abs_machine (demo_machine 81))"
    by (simp add: am_halts_def am_operation_def demo_abs_classic graphical_def del: abs_machine_regs)
  then show ?thesis
    using classic_machine_refines[OF demo_machine_wf demo_live(2), of 81 Specification] by simp
qed

text \<open>
  C3: the classic interpreter and the profile-driven machine are the same machine: for every
  budget, the profile machine on \<open>malbolge-1998\<close> (interpreter mode) or \<open>malbolge-2026.1\<close>
  (specification mode), started from the same state, returns the same outcome, with the same
  error, and ends in the same state.
\<close>
theorem classic_run_is_profile_run:
  assumes "wf_machine m"
  shows "prun n (as_profile mode m) =
    (map_err embed_error (fst (run_in_mode mode n m)), as_profile mode (snd (run_in_mode mode n m)))"
  using assms by (rule classic_in_profile.embed_run)

theorem classic_run_is_profile_run_witness:
  "prun 1000 (as_profile Interpreter (demo_machine 62)) =
    (map_err embed_error (fst (run_in_mode Interpreter 1000 (demo_machine 62))),
     as_profile Interpreter (snd (run_in_mode Interpreter 1000 (demo_machine 62))))"
  by (rule classic_run_is_profile_run[OF demo_machine_wf]) simp

text \<open>
  The two loaders agree as well: on a source of a length that fits \<open>u64\<close>, and when memory
  can be reserved, the profile loader for the corresponding ten-trit profile succeeds exactly
  when the classic loader does, and yields the same initial machine.
\<close>
lemma classic_load_is_profile_load:
  assumes "length source \<le> U64_MAX" and "\<And>k. reserve k"
  shows "pfrom_source reserve (mode_profile mode) source input = Inr pm \<longleftrightarrow>
    (\<exists>m. from_source source input = Inr m \<and> pm = as_profile mode m)"
  using assms by (rule from_source_embed)

lemma classic_load_is_profile_load_witness:
  "\<exists>pm m. pfrom_source (\<lambda>_. True) PROFILE_0 [40, 10, 39] [7] = Inr pm \<and>
    from_source [40, 10, 39] [7] = Inr m \<and> pm = as_profile Interpreter m"
proof -
  obtain mem where "load [40, 10, 39] = Inr mem"
    using load_ok_iff[of "[40, 10, 39]"] loads_at_two
    by (auto simp: source_bytes_def is_source_whitespace_def MEMORY_WORDS_def less_Suc_eq)
  then have "from_source [40, 10, 39] [7] = Inr (machine_new mem [7])" by (simp add: from_source_def)
  then show ?thesis
    using classic_load_is_profile_load[of "[40, 10, 39]" "\<lambda>_. True" Interpreter "[7]"]
    by (simp add: U64_MAX_def)
qed

text \<open>
  C11: at every admitted geometry the profile loader succeeds exactly on the admissible sources
  (when the image can be reserved), and the image is full, in the word domain, starts with the
  source and continues with the crazy recurrence of that width.
\<close>
theorem profile_load_builds_image:
  assumes "wf_geometry g"
  shows "((\<exists>ws. load_profile reserve g source = Inr ws) \<longleftrightarrow>
      admissible (geo_memory_words g) source \<and>
      reserve (geo_memory_words g - length (source_bytes source))) \<and>
    (\<forall>ws. load_profile reserve g source = Inr ws \<longrightarrow>
      length ws = geo_memory_words g \<and> (\<forall>w \<in> set ws. w < geo_memory_words g) \<and>
      take (length (source_bytes source)) ws = map unat (source_bytes source) \<and>
      precurrence (geo_word_trits g) (length (source_bytes source)) ws)"
  using load_profile_ok_iff[OF assms, of reserve source] load_profile_Inr(1-4)[OF assms, of reserve source]
  by blast

lemma demo_geometry_wf: "wf_geometry demo_geometry"
  by (simp add: wf_geometry_def demo_geometry_def PROFILE_wf)

lemma demo_admissible: "729 \<le> n \<Longrightarrow> admissible n [40, 10, 39]"
  using loads_at_two
  by (auto simp: admissible_def source_bytes_def is_source_whitespace_def less_Suc_eq)

theorem profile_load_builds_image_witness:
  "\<exists>ws. load_profile (\<lambda>_. True) demo_geometry [40, 10, 39] = Inr ws \<and> length ws = 729 \<and>
    ws ! 2 = crazy_digits 6 (ws ! 0) (ws ! 1)"
proof -
  have src: "source_bytes [40, 10, 39] = [40, 39]" by (simp add: source_bytes_def is_source_whitespace_def)
  obtain ws where ws: "load_profile (\<lambda>_. True) demo_geometry [40, 10, 39] = Inr ws"
    "length ws = 729" "precurrence 6 2 ws"
    using profile_load_builds_image[OF demo_geometry_wf, of "\<lambda>_. True" "[40, 10, 39]"] demo_admissible[of 729]
    by (auto simp: src demo_geometry_def numeral_2_eq_2)
  then show ?thesis
    using ws(3)[unfolded precurrence_def, THEN spec[of _ 2]] by auto
qed

text \<open>
  C12: every run of a loaded profile machine stays well formed: geometry and profile fixed, the
  image full and in the word domain, registers in the address domain, the input cursor within
  the input.
\<close>
theorem loaded_profile_run_well_formed:
  assumes "target_profile pid = Some p" and "pfrom_source reserve p source input = Inr m"
    and "prun n m = (r, m')"
  shows "wf_pmachine m'"
  using pfrom_source_wf[OF target_profile_wf[OF assms(1)] assms(2)] prun_preserves_wf[OF assms(3)] by blast

theorem loaded_profile_run_well_formed_witness:
  "\<exists>m r m'. pfrom_source (\<lambda>_. True) PROFILE_1 [40, 10, 39] [] = Inr m \<and> prun 50 m = (r, m') \<and> wf_pmachine m'"
proof -
  have req: "source_word_requirement [40, 10, 39] = 2"
    by (simp add: source_word_requirement_def is_source_whitespace_def U64_MAX_def)
  have "admissible (geo_memory_words (canonical PROFILE_1)) [40, 10, 39]"
    by (rule demo_admissible) (simp add: canonical_def PROFILE_1_def)
  then obtain ws where "load_profile (\<lambda>_. True) (canonical PROFILE_1) [40, 10, 39] = Inr ws"
    using load_profile_ok_iff[OF canonical_wf[OF PROFILE_wf(2)], of "\<lambda>_. True"] by blast
  then obtain m where m: "pfrom_source (\<lambda>_. True) PROFILE_1 [40, 10, 39] [] = Inr m"
    using preflight_profile_profiled[OF PROFILE_wf(2), of 2]
    by (simp add: pfrom_source_def req Let_def PROFILE_1_def[THEN arg_cong[of _ _ pd_memory_words]])
  obtain r m' where run: "prun 50 m = (r, m')" by fastforce
  then show ?thesis
    using m loaded_profile_run_well_formed[OF target_profile_values(2) m run] by blast
qed

text \<open>
  C30: a failed run is atomic. When a run from a well-formed profile machine returns an error, the
  machine it leaves is the one reached by the steps that succeeded, untouched by the failing step,
  and running again fails again with the same error.
\<close>
theorem profile_error_is_atomic:
  assumes "wf_pmachine m" and "prun n m = (Inl e, m')"
  shows "\<exists>i < n. continues pstep i m m' \<and> pstep m' = (Inl e, m')"
proof -
  obtain i u where u: "i < n" "continues pstep i m u" "pstep u = (Inl e, m')"
    using assms(2) profile_run.run_error_iff by blast
  have "wf_pmachine u"
    using u(2) assms(1) pstep_preserves_wf by (rule continues_invariant)
  then have "m' = u" using pstep_error_unchanged u(3) by blast
  then show ?thesis using u by blast
qed

lemma demo_blocked: "pstep (demo_pmachine 98) = (Inl (PInvalidEncryptionTarget 5 0), demo_pmachine 98)"
proof -
  have cell: "pm_memory (demo_pmachine 98) ! preg_code_pointer (pm_registers (demo_pmachine 98)) = 98"
    by (simp add: demo_pmachine_def)
  have "XLAT1 ! 65 = 105" by (simp add: XLAT1_def)
  then have dec: "pdecoded (demo_pmachine 98) = PJumpCode"
    by (simp add: pdecoded_def demo_pmachine_def profile_instruction_for_def profile_instruction_def
        PROFILE_0_def)
  have plan: "preg_code_pointer (pp_registers (pplanned (demo_pmachine 98) PJumpCode)) = 5"
    "pencryption_cell (demo_pmachine 98) (pplanned (demo_pmachine 98) PJumpCode) = 0"
    by (simp_all add: pplanned_def pplan_init_def demo_pmachine_def pencryption_cell_def pplanned_memory_def Let_def)
  show ?thesis
    by (simp add: pstep_wf[OF demo_pmachine_wf] cell dec plan profile_cell_is_graphical_def Let_def)
qed

theorem profile_error_is_atomic_witness:
  "\<exists>i < 3. continues pstep i (demo_pmachine 98) (demo_pmachine 98) \<and>
    pstep (demo_pmachine 98) = (Inl (PInvalidEncryptionTarget 5 0), demo_pmachine 98)"
proof (rule profile_error_is_atomic[OF demo_pmachine_wf])
  show "prun 3 (demo_pmachine 98) = (Inl (PInvalidEncryptionTarget 5 0), demo_pmachine 98)"
    using demo_blocked by (auto simp: profile_run.run_error_iff intro!: exI[of _ 0] exI[of _ "demo_pmachine 98"])
qed simp

text \<open>
  The classic machine is atomic without any assumption on its state: what an error leaves is
  the machine the successful steps reached, and every later run fails at once in the same way.
\<close>
lemma classic_error_is_atomic:
  assumes "run_in_mode mode n m = (Inl e, m')" and "0 < k"
  shows "(\<exists>i < n. continues (step_in_mode mode) i m m') \<and> run_in_mode mode k m' = (Inl e, m')"
  using assms classic_atomic.run_error_atomic classic_atomic.run_error_again by blast

lemma demo_abs_classic_more:
  "am_d (abs_machine (demo_machine c)) = 1" "am_mem (abs_machine (demo_machine c)) 1 = 5"
  "am_mem (abs_machine (demo_machine c)) 5 = 0"
  by (simp_all add: abs_machine_def demo_machine_def abs_words_def)

lemma classic_error_is_atomic_witness:
  "\<exists>e. run_in_mode Interpreter 3 (demo_machine 98) = (Inl e, demo_machine 98) \<and>
    run_in_mode Interpreter 5 (demo_machine 98) = (Inl e, demo_machine 98)"
proof -
  have "am_decoded (abs_machine (demo_machine 98)) = XLAT1 ! 65"
    by (simp add: am_decoded_def demo_abs_classic del: abs_machine_regs)
  also have "XLAT1 ! 65 = 105" by (simp add: XLAT1_def)
  finally have "am_blocked 10 47 60 (abs_machine (demo_machine 98))"
    by (simp add: am_blocked_def am_operation_def demo_abs_classic
        demo_abs_classic_more demo_abs_classic_more[unfolded One_nat_def] graphical_def Let_def del: abs_machine_regs)
  then obtain e where e: "step_in_mode Interpreter (demo_machine 98) = (Inl e, demo_machine 98)"
    using refine_blocked[OF demo_machine_wf demo_live(2), of 98 Interpreter] by auto
  then have "run_in_mode Interpreter 3 (demo_machine 98) = (Inl e, demo_machine 98)"
    by (auto simp: classic_run.run_error_iff intro!: exI[of _ 0] exI[of _ "demo_machine 98"])
  with classic_error_is_atomic[OF this, of 5] show ?thesis by auto
qed

text \<open>
  Budgets compose. Running \<open>a + b\<close> steps is running \<open>a\<close> and then, only if that budget was
  exhausted, \<open>b\<close> more, with the step counts added; so a scheduler may cut a run anywhere.
\<close>
lemma profile_run_composes:
  "prun (a + b) m =
    (case prun a m of
      (Inr (BudgetExhausted k), m') \<Rightarrow> apfst (map_ok (add_steps a)) (prun b m')
    | other \<Rightarrow> other)"
  by (rule profile_run.run_split)

text \<open>
  C40: termination is stable. Once a run reports a termination it has recorded it in the machine,
  within the budget, and every later run of any budget reports it again after zero steps and
  changes nothing.
\<close>
theorem profile_termination_is_stable:
  assumes "prun n m = (Inr (RunTerminated reason k), m')"
  shows "pm_termination m' = Some reason \<and> k \<le> n \<and>
    (\<forall>j. prun j m' = (Inr (RunTerminated reason 0), m'))"
  using profile_run.run_terminated_reason[OF assms] profile_run.run_again_after_termination[OF assms] by blast

lemma demo_halt: "pstep (demo_pmachine 81) =
    (Inr (Terminated HaltInstruction), (demo_pmachine 81)\<lparr>pm_termination := Some HaltInstruction\<rparr>)"
proof -
  have cell: "pm_memory (demo_pmachine 81) ! preg_code_pointer (pm_registers (demo_pmachine 81)) = 81"
    by (simp add: demo_pmachine_def)
  have "XLAT1 ! 48 = 118" by (simp add: XLAT1_def)
  then have dec: "pdecoded (demo_pmachine 81) = PHalt"
    by (simp add: pdecoded_def demo_pmachine_def profile_instruction_for_def profile_instruction_def
        PROFILE_0_def)
  show ?thesis by (simp add: pstep_wf[OF demo_pmachine_wf] cell dec profile_cell_is_graphical_def)
qed

theorem profile_termination_is_stable_witness:
  "prun 9 ((demo_pmachine 81)\<lparr>pm_termination := Some HaltInstruction\<rparr>) =
    (Inr (RunTerminated HaltInstruction 0), (demo_pmachine 81)\<lparr>pm_termination := Some HaltInstruction\<rparr>)"
proof -
  have "prun 4 (demo_pmachine 81) =
      (Inr (RunTerminated HaltInstruction 1), (demo_pmachine 81)\<lparr>pm_termination := Some HaltInstruction\<rparr>)"
    using demo_halt by (auto simp: profile_run.run_terminated_iff intro!: exI[of _ 0] exI[of _ "demo_pmachine 81"])
  from profile_termination_is_stable[OF this] show ?thesis by blast
qed

text \<open>
  C31: observation is transparent and complete. A traced run returns what the untraced run
  returns and leaves the same machine; the observer has been folded over one record per requested
  step, in order, each the evidence of the state that step started from, and their number is the
  step count of the outcome.
\<close>
theorem profile_trace_is_transparent:
  assumes "prun_traced observer n m obs = (r, m', obs')" and "pm_termination m = None"
  shows "(r, m') = prun n m \<and>
    (\<exists>trs. obs' = foldl observer obs trs \<and>
      (\<forall>i < length trs. \<exists>u. continues pstep i m u \<and> trs ! i = pstep_trace u) \<and>
      (case r of
        Inl _ \<Rightarrow> trs \<noteq> []
      | Inr (BudgetExhausted k) \<Rightarrow> k = length trs
      | Inr (RunTerminated _ k) \<Rightarrow> k = length trs))"
proof
  show "(r, m') = prun n m"
    using profile_run.trun_project[of observer n m obs] assms(1) by (cases "prun n m") auto
  have "prun_traced_loop observer (0 + n) 0 m obs = (r, m', obs')"
    using assms by (simp add: prun_traced_def)
  from profile_run.trun_loop_evidence[OF this, unfolded add_0]
  show "\<exists>trs. obs' = foldl observer obs trs \<and>
      (\<forall>i < length trs. \<exists>u. continues pstep i m u \<and> trs ! i = pstep_trace u) \<and>
      (case r of
        Inl _ \<Rightarrow> trs \<noteq> []
      | Inr (BudgetExhausted k) \<Rightarrow> k = length trs
      | Inr (RunTerminated _ k) \<Rightarrow> k = length trs)"
    .
qed

theorem profile_trace_is_transparent_witness:
  "\<exists>r m' trs. prun_traced (\<lambda>trs t. trs @ [t]) 20 (demo_pmachine 62) [] = (r, m', trs) \<and>
    (r, m') = prun 20 (demo_pmachine 62)"
proof -
  obtain r m' trs where t: "prun_traced (\<lambda>trs t. trs @ [t]) 20 (demo_pmachine 62) [] = (r, m', trs)"
    by (metis prod_cases3)
  from profile_trace_is_transparent[OF t demo_live(1)] t show ?thesis by blast
qed

text \<open>
  Liveness of the historical defect. On a cell that is not graphical the interpreter mode
  never terminates and never fails: for every budget it exhausts the budget in the same state;
  the specification mode stops at its first step with the reason recorded.
\<close>
lemma nongraphical_cell_behaviour:
  assumes "wf_machine m" and "m_termination m = None"
    and "\<not> graphical (am_mem (abs_machine m) (am_c (abs_machine m)))"
  shows "run_in_mode Interpreter n m = (Inr (BudgetExhausted n), m) \<and>
    run_in_mode Specification (Suc n) m =
      (Inr (RunTerminated NonGraphicalCell 1), m\<lparr>m_termination := Some NonGraphicalCell\<rparr>)"
proof
  have cell: "\<not> word_is_graphical (cell_of m (code_pointer (m_registers m)))"
    using assms(3) graphical_fetch_abs[OF assms(1)] by simp
  note s = step_nongraphical[OF assms(1,2) cell]
  have "continues (step_in_mode Interpreter) n m m"
    by (induction n) (use s[of Interpreter] in \<open>auto simp: continues_Suc_iff\<close>)
  then show "run_in_mode Interpreter n m = (Inr (BudgetExhausted n), m)"
    using assms(2) by (simp add: classic_run.run_exhausted_iff)
  show "run_in_mode Specification (Suc n) m =
      (Inr (RunTerminated NonGraphicalCell 1), m\<lparr>m_termination := Some NonGraphicalCell\<rparr>)"
    using s[of Specification] assms(2)
    by (auto simp: classic_run.run_terminated_iff intro!: exI[of _ 0] exI[of _ m])
qed

lemma nongraphical_cell_behaviour_witness:
  "run_in_mode Interpreter 1000000 (demo_machine 3) = (Inr (BudgetExhausted 1000000), demo_machine 3)"
  using nongraphical_cell_behaviour[OF demo_machine_wf demo_live(2), of 3 1000000]
  by (simp add: demo_abs_classic graphical_def del: abs_machine_regs)

text \<open>
  The memory evidence of a step is exact. The reported writes are precisely the cells the
  step changed, each with the value before and after, the count is their number, and every other
  cell is as it was.
\<close>
lemma profile_memory_delta_is_exact:
  assumes "wf_pmachine m" and "step_execution m = (ex, m')" and "exec_result ex = Inr Continued"
  shows "pmw_address ` delta_writes (exec_memory_delta ex) =
      {a. a < length (pm_memory m) \<and> pm_memory m' ! a \<noteq> pm_memory m ! a} \<and>
    profile_changed_cells (exec_memory_delta ex) =
      card {a. a < length (pm_memory m) \<and> pm_memory m' ! a \<noteq> pm_memory m ! a} \<and>
    (\<forall>w \<in> delta_writes (exec_memory_delta ex). pmw_address w < length (pm_memory m) \<and>
      pmw_before w = pm_memory m ! pmw_address w \<and> pmw_after w = pm_memory m' ! pmw_address w)"
  using step_execution_continued[OF assms]
proof
  assume "m' = m \<and> exec_memory_delta ex = profile_memory_delta_default"
  then show ?thesis by simp
next
  assume "\<exists>p e. plan_fits m p \<and> m' = pcommitted m p e \<and> pmemory_delta m p e = Inr (exec_memory_delta ex)"
  then obtain p e where fits: "plan_fits m p" and m': "m' = pcommitted m p e"
    and d: "pmemory_delta m p e = Inr (exec_memory_delta ex)" by blast
  note x = pmemory_delta_exact[OF fits d, folded m']
  have "{a. a < length (pm_memory m) \<and> pm_memory m' ! a \<noteq> pm_memory m ! a} =
      pmw_address ` delta_writes (exec_memory_delta ex)"
  proof (intro equalityI subsetI)
    fix a
    assume "a \<in> {a. a < length (pm_memory m) \<and> pm_memory m' ! a \<noteq> pm_memory m ! a}"
    then show "a \<in> pmw_address ` delta_writes (exec_memory_delta ex)" using x(2) by blast
  next
    fix a
    assume "a \<in> pmw_address ` delta_writes (exec_memory_delta ex)"
    then obtain w where "w \<in> delta_writes (exec_memory_delta ex)" "a = pmw_address w" by blast
    then show "a \<in> {a. a < length (pm_memory m) \<and> pm_memory m' ! a \<noteq> pm_memory m ! a}"
      using x(3) by fastforce
  qed
  then show ?thesis using x(1,3) by simp
qed

lemma demo_step_continues: "\<exists>ex m'. step_execution (demo_pmachine 62) = (ex, m') \<and> exec_result ex = Inr Continued"
proof -
  obtain m' where "pstep (demo_pmachine 62) = (Inr Continued, m')"
    using prefine_step[OF demo_pmachine_wf demo_live(1), of 62] demo_amstep
    by (simp add: demo_pmachine_def demo_geometry_def PROFILE_0_def) blast
  then show ?thesis by (auto simp: pstep_unfold)
qed

lemma profile_memory_delta_is_exact_witness:
  "\<exists>ex m'. step_execution (demo_pmachine 62) = (ex, m') \<and>
    profile_changed_cells (exec_memory_delta ex) =
      card {a. a < 729 \<and> pm_memory m' ! a \<noteq> pm_memory (demo_pmachine 62) ! a}"
proof -
  obtain ex m' where s: "step_execution (demo_pmachine 62) = (ex, m')" "exec_result ex = Inr Continued"
    using demo_step_continues by blast
  have "length (pm_memory (demo_pmachine 62)) = 729" by (simp add: demo_pmachine_def)
  then show ?thesis using s profile_memory_delta_is_exact[OF demo_pmachine_wf s] by auto
qed

text \<open>
  Checkpoints are faithful. A checkpoint of a well-formed machine passes the validating
  constructor unchanged, restores to the very machine it was taken from, and resuming from it
  behaves as never having stopped.
\<close>
lemma profile_checkpoint_resumes:
  assumes "wf_pmachine m" and "geo_memory_words (pm_geometry m) \<le> pd_memory_words (pm_profile m)"
  shows "profile_state_new_with_geometry (pst_geometry (psnapshot_state m))
      (pst_memory (psnapshot_state m)) (pst_registers (psnapshot_state m)) (pst_io (psnapshot_state m))
    = Inr (psnapshot_state m) \<and>
    prun n (pfrom_snapshot (psnapshot_state m)) = prun n m"
  using psnapshot_revalidates[OF assms] by (simp add: psnapshot_roundtrip)

lemma profile_checkpoint_resumes_witness:
  "prun 5 (pfrom_snapshot (psnapshot_state (demo_pmachine 62))) = prun 5 (demo_pmachine 62) \<and>
    profile_state_new_with_geometry demo_geometry (pm_memory (demo_pmachine 62))
      (pm_registers (demo_pmachine 62)) (pst_io (psnapshot_state (demo_pmachine 62)))
    = Inr (psnapshot_state (demo_pmachine 62))"
  using profile_checkpoint_resumes[OF demo_pmachine_wf, of 62 5]
  by (simp add: demo_pmachine_def demo_geometry_def PROFILE_0_def psnapshot_state_def)

text \<open>
  C39: the validating constructor of a profile state accepts exactly the well-formed ones: the
  input is admitted by the geometry, the geometry fits its profile, the image has the exact
  length with every word in the domain, and the three registers are in the domain.
\<close>
theorem profile_state_validation_is_exact:
  assumes "wf_geometry g"
  shows "(\<exists>s. profile_state_new_with_geometry g memory registers io = Inr s) \<longleftrightarrow>
    admits_input g (pio_input io) \<and> geo_memory_words g \<le> pd_memory_words (geo_profile g) \<and>
    length memory = geo_memory_words g \<and> (\<forall>w \<in> set memory. w < geo_memory_words g) \<and>
    wf_pregisters (geo_memory_words g) registers"
  by (rule profile_state_new_iff[OF assms])

theorem profile_state_validation_is_exact_witness:
  "\<not> (\<exists>s. profile_state_new_with_geometry demo_geometry (replicate 728 0) profile_registers_default
      (pst_io (psnapshot_state (demo_pmachine 62))) = Inr s)"
  using profile_state_validation_is_exact[OF demo_geometry_wf, of "replicate 728 0" profile_registers_default]
  by (simp add: demo_geometry_def)

text \<open>
  Mode spellings: every mode parses from its stable id, an unknown spelling is rejected with
  the spelling it was given, and only the interpreter is eligible as a verifier.
\<close>
lemma mode_spellings:
  "mode_from_str (mode_stable_id mode) = Inr mode \<and>
   (is_verifier_eligible mode \<longleftrightarrow> mode = Interpreter) \<and>
   (mode_from_str s = Inl e \<longleftrightarrow> e = ExecutionModeParseError s \<and>
     s \<notin> {''interpreter'', ''reference-interpreter'', ''legacy-ben'', ''specification''})"
  by (cases mode) (auto simp: mode_from_str_stable_id is_verifier_eligible_def mode_from_str_def)

text \<open>
  C38: an exact repeat proves divergence. When the states of a run are handed to the exact cycle
  detector, under any keys, and it reports a repeat, the machine never terminates and never fails:
  a run of any budget exhausts it.
\<close>
theorem exact_repeat_means_divergence:
  assumes "pm_termination m = None" and "length xs \<le> U64_MAX"
    and "\<forall>i < length xs. continues pstep i m (snd (xs ! i))"
    and "Inr (ExactRepeat a b) \<in>
      set (fst (observe_all (\<lambda>d (k, s). exact_observe d k s) exact_detector_new xs))"
  shows "\<exists>m'. prun n m = (Inr (BudgetExhausted n), m')"
proof -
  obtain d where "observe_all (\<lambda>d (k, s). exact_observe d k s) exact_detector_new xs =
      (map (\<lambda>j. Inr (exact_report (index_of (xs ! j) (take j xs)) j)) [0..<length xs], d)"
    using exact.observe_all_reports[OF exact_new_reflects, of xs] assms(2) by auto
  then obtain j where j: "j < length xs" "exact_report (index_of (xs ! j) (take j xs)) j = ExactRepeat a b"
    using assms(4) by auto
  then obtain i where i: "index_of (xs ! j) (take j xs) = Some i"
    by (auto simp: exact_report_def split: option.splits)
  then have ij: "i < j" "xs ! i = xs ! j" using j(1) by (auto simp: index_of_Some)
  have u: "continues pstep i m (snd (xs ! j))" and "continues pstep (i + (j - i)) m (snd (xs ! j))"
    using assms(3) ij j(1) by (metis less_trans, simp)
  then have "continues pstep (j - i) (snd (xs ! j)) (snd (xs ! j))"
    using continues_split[of pstep i "j - i" m "snd (xs ! j)"] continues_det by metis
  then show ?thesis
    using profile_run.cycle_never_stops[OF u] ij(1) assms(1) by simp
qed

lemma demo_stutter: "pstep (demo_pmachine 3) = (Inr Continued, demo_pmachine 3)"
proof -
  have "\<not> graphical (am_mem (abs_pmachine (demo_pmachine 3)) (am_c (abs_pmachine (demo_pmachine 3))))"
    by (simp add: abs_pmachine_def demo_pmachine_def graphical_def)
  then show ?thesis
    using prefine_nongraphical[OF demo_pmachine_wf demo_live(1), of 3]
    by (simp add: demo_pmachine_def PROFILE_0_def)
qed

theorem exact_repeat_means_divergence_witness:
  "\<exists>m'. prun 1000000 (demo_pmachine 3) = (Inr (BudgetExhausted 1000000), m')"
proof (rule exact_repeat_means_divergence)
  let ?xs = "[((), demo_pmachine 3), ((), demo_pmachine 3)]"
  show "pm_termination (demo_pmachine 3) = None" by (rule demo_live)
  show "length ?xs \<le> U64_MAX" by (simp add: U64_MAX_def)
  show "\<forall>i < length ?xs. continues pstep i (demo_pmachine 3) (snd (?xs ! i))"
    by (simp add: All_less_Suc2 continues_Suc_iff demo_stutter)
  show "Inr (ExactRepeat 0 1) \<in>
      set (fst (observe_all (\<lambda>d (k, s). exact_observe d k s) exact_detector_new ?xs))"
    by (simp add: exact_observe_def exact_detector_new_def advance_observation_def checked_add_def
        U64_MAX_def Let_def)
qed

end
